(* ===== verification/Prelude.thy ===== *)
theory Prelude
  imports Main "HOL-Library.Word" "HOL-Library.List_Lexorder" "HOL-Library.Char_ord"
begin

text \<open>
  Shared material of the development: the machine types the C++ sources use, the byte order
  conversions every codec rests on, decimal and hexadecimal rendering, the bounded vectors the
  runtime uses for retention (erase the front, append at the back), and the generic list facts the
  components share. \<open>codec_simps\<close> collects the facts that evaluate a decoder on the output of its
  encoder; \<open>frame_simps\<close> collects the facts saying which fields an operation leaves alone.
\<close>

named_theorems codec_simps
named_theorems frame_simps

unbundle bit_operations_syntax

section \<open>Machine types\<close>

type_synonym byte = "8 word"
type_synonym u16 = "16 word"
type_synonym u32 = "32 word"
type_synonym u64 = "64 word"

abbreviation uint64_max :: u64 where
  "uint64_max \<equiv> - 1"

text \<open>\<open>size_t\<close> values count elements held in memory and are naturals; the one decrement the
  sources perform on such a value is written with its wrap-around.\<close>

definition size_dec :: "nat \<Rightarrow> nat" where
  "size_dec n = (if n = 0 then 2 ^ 64 - 1 else n - 1)"

lemma size_dec_Suc [simp]: "size_dec (Suc n) = n"
  by (simp add: size_dec_def)

section \<open>Bytes of a word\<close>

primrec le_bytes :: "nat \<Rightarrow> 'a::len word \<Rightarrow> byte list" where
  "le_bytes 0 w = []"
| "le_bytes (Suc n) w = ucast w # le_bytes n (drop_bit 8 w)"

fun from_le :: "byte list \<Rightarrow> 'a::len word" where
  "from_le [] = 0"
| "from_le (b # bs) = ucast b OR push_bit 8 (from_le bs)"

lemma length_le_bytes [simp]: "length (le_bytes n w) = n"
  by (induction n arbitrary: w) auto

lemma from_le_le_bytes: "from_le (le_bytes n w) = take_bit (8 * n) (w :: 'a::len word)"
proof (induction n arbitrary: w)
  case 0
  then show ?case by simp
next
  case (Suc n)
  show ?case
    by (rule bit_eqI) (auto simp: Suc bit_simps)
qed

lemma from_le_le_bytes_full [simp]:
  "LENGTH('a) \<le> 8 * n \<Longrightarrow> from_le (le_bytes n w) = (w :: 'a::len word)"
  by (simp add: from_le_le_bytes take_bit_word_eq_self)

lemma nth_le_bytes: "i < n \<Longrightarrow> le_bytes n w ! i = ucast (drop_bit (8 * i) w)"
proof (induction n arbitrary: w i)
  case (Suc n)
  then show ?case by (cases i) (auto simp: drop_bit_drop_bit add.commute)
qed simp

lemma bit_from_le:
  "bit (from_le bs :: 'a::len word) k \<longleftrightarrow>
     k < LENGTH('a) \<and> k div 8 < length bs \<and> bit (bs ! (k div 8)) (k mod 8)"
proof (induction bs arbitrary: k)
  case (Cons b bs)
  show ?case
  proof (cases "k < 8")
    case True
    then show ?thesis by (auto simp: bit_simps)
  next
    case False
    then obtain j where k: "k = j + 8" by (metis add.commute le_Suc_ex not_less)
    have d: "(j + 8) div 8 = Suc (j div 8)" by simp
    have b: "\<not> bit b (j + 8)" by (auto dest: bit_imp_le_length)
    show ?thesis using b by (auto simp: k d bit_simps Cons.IH simp del: div_add_self2)
  qed
qed simp

lemma le_bytes_from_le [simp]:
  assumes "length bs = n" "8 * n \<le> LENGTH('a)"
  shows "le_bytes n (from_le bs :: 'a::len word) = bs"
proof (rule nth_equalityI)
  fix i
  assume i: "i < length (le_bytes n (from_le bs :: 'a word))"
  have "bit (le_bytes n (from_le bs :: 'a word) ! i) k = bit (bs ! i) k" if "k < 8" for k
  proof -
    have "8 * i + k < LENGTH('a)" using i assms that by simp
    moreover have "(8 * i + k) div 8 = i" "(8 * i + k) mod 8 = k" using that by simp_all
    ultimately show ?thesis
      using i assms that by (simp add: nth_le_bytes bit_simps bit_from_le)
  qed
  then show "le_bytes n (from_le bs :: 'a word) ! i = bs ! i"
    by (intro bit_word_eqI) simp
qed (simp add: assms)


text \<open>Big-endian order: the bytes of a fixed array read as one number, most significant first.\<close>

definition be_bytes :: "nat \<Rightarrow> 'a::len word \<Rightarrow> byte list" where
  "be_bytes n w = rev (le_bytes n w)"

definition from_be :: "byte list \<Rightarrow> 'a::len word" where
  "from_be bs = from_le (rev bs)"

lemma length_be_bytes [simp]: "length (be_bytes n w) = n"
  by (simp add: be_bytes_def)

lemma from_be_be_bytes [simp]:
  "LENGTH('a) \<le> 8 * n \<Longrightarrow> from_be (be_bytes n w) = (w :: 'a::len word)"
  by (simp add: be_bytes_def from_be_def)

lemma be_bytes_from_be [simp]:
  "length bs = n \<Longrightarrow> 8 * n \<le> LENGTH('a) \<Longrightarrow> be_bytes n (from_be bs :: 'a::len word) = bs"
  by (simp add: be_bytes_def from_be_def)

section \<open>Characters and rendering\<close>

definition char_byte :: "char \<Rightarrow> byte" where
  "char_byte c = word_of_nat (of_char c)"

definition byte_char :: "byte \<Rightarrow> char" where
  "byte_char b = char_of (unat b)"

lemma byte_char_char_byte [simp]: "byte_char (char_byte c) = c"
  by (simp add: char_byte_def byte_char_def unat_of_nat)

lemma char_byte_byte_char [simp]: "char_byte (byte_char b) = b"
proof -
  have "unat b < 256" using unsigned_less [of b] by simp
  then show ?thesis
    by (simp add: char_byte_def byte_char_def)
qed

lemma map_byte_char_char_byte [simp]: "map byte_char (map char_byte s) = s"
  by (simp add: o_def)

text \<open>The code point of a character; the sources compare \<open>char\<close> values by it.\<close>

definition char_code :: "char \<Rightarrow> nat" where
  "char_code c = of_char c"

text \<open>\<open>std::to_string\<close> on an unsigned value: decimal digits, most significant first.\<close>

fun dec_string :: "nat \<Rightarrow> string" where
  "dec_string n =
     (if n < 10 then [char_of (48 + n)] else dec_string (n div 10) @ [char_of (48 + n mod 10)])"

declare dec_string.simps [simp del]

section \<open>Vectors with bounded retention\<close>

text \<open>
  The retention idiom of the runtime: when the vector already holds \<open>limit\<close> entries the oldest one
  is erased, then the new entry is appended. \<open>resize_down\<close> is \<open>std::vector::resize\<close> towards a size
  the vector is known to have reached: it drops entries at the back.
\<close>

definition push_bounded :: "nat \<Rightarrow> 'a \<Rightarrow> 'a list \<Rightarrow> 'a list" where
  "push_bounded limit x xs = (if limit \<le> length xs then tl xs else xs) @ [x]"

definition resize_down :: "nat \<Rightarrow> 'a list \<Rightarrow> 'a list" where
  "resize_down n xs = take n xs"

lemma set_push_bounded: "set (push_bounded n x xs) \<subseteq> insert x (set xs)"
  by (cases xs) (auto simp: push_bounded_def)

lemma in_push_boundedD: "y \<in> set (push_bounded n x xs) \<Longrightarrow> y = x \<or> y \<in> set xs"
  using set_push_bounded by fastforce

lemma last_in_push_bounded [simp]: "x \<in> set (push_bounded n x xs)"
  by (simp add: push_bounded_def)

lemma push_bounded_nonempty [simp]: "push_bounded n x xs \<noteq> []"
  by (simp add: push_bounded_def)

lemma length_push_bounded: "0 < n \<Longrightarrow> length xs \<le> n \<Longrightarrow> length (push_bounded n x xs) \<le> n"
  by (auto simp: push_bounded_def)

lemma length_push_bounded_le: "length (push_bounded n x xs) \<le> Suc (length xs)"
  by (simp add: push_bounded_def)

lemma distinct_map_push_bounded:
  "distinct (map f xs) \<Longrightarrow> f x \<notin> f ` set xs \<Longrightarrow> distinct (map f (push_bounded n x xs))"
  by (cases xs) (auto simp: push_bounded_def)

lemma resize_down_push_bounded:
  "length xs < n \<Longrightarrow> resize_down (length xs) (push_bounded n x xs) = xs"
  by (simp add: resize_down_def push_bounded_def)

text \<open>
  At the retention limit the two do not cancel: the erased entry is gone and the new one stays.
\<close>

lemma resize_down_push_bounded_full:
  "xs \<noteq> [] \<Longrightarrow> n \<le> length xs \<Longrightarrow> resize_down (length xs) (push_bounded n x xs) = tl xs @ [x]"
  by (cases xs) (simp_all add: resize_down_def push_bounded_def)

section \<open>Positions in a list\<close>

text \<open>
  The secondary indexes of the runtime map a key to the position of the last element that has it
  (a later insertion overwrites an earlier one), or to all positions in increasing order.
\<close>

fun index_from :: "nat \<Rightarrow> ('a \<Rightarrow> 'k) \<Rightarrow> 'a list \<Rightarrow> ('k \<rightharpoonup> nat) \<Rightarrow> ('k \<rightharpoonup> nat)" where
  "index_from i key [] m = m"
| "index_from i key (x # xs) m = index_from (Suc i) key xs (m(key x \<mapsto> i))"

fun multi_index_from :: "nat \<Rightarrow> ('a \<Rightarrow> 'k option) \<Rightarrow> 'a list \<Rightarrow> ('k \<rightharpoonup> nat list) \<Rightarrow> ('k \<rightharpoonup> nat list)"
where
  "multi_index_from i key [] m = m"
| "multi_index_from i key (x # xs) m =
     multi_index_from (Suc i) key xs
       (case key x of None \<Rightarrow> m
        | Some k \<Rightarrow> m(k \<mapsto> (case m k of None \<Rightarrow> [] | Some is \<Rightarrow> is) @ [i]))"

lemma index_from_None:
  "index_from i key xs m k = None \<longleftrightarrow> m k = None \<and> (\<forall>x \<in> set xs. key x \<noteq> k)"
  by (induction xs arbitrary: i m) (auto simp: fun_upd_apply)

lemma index_from_Some:
  "index_from i key xs m k = Some j \<Longrightarrow>
     m k = Some j \<or> (i \<le> j \<and> j - i < length xs \<and> key (xs ! (j - i)) = k)"
proof (induction xs arbitrary: i m)
  case (Cons x xs)
  from Cons.IH [OF Cons.prems [simplified]] show ?case
    by (auto simp: fun_upd_apply Suc_diff_Suc nth_Cons' split: if_splits)
qed simp

lemma index_from_zero_Some:
  "index_from 0 key xs Map.empty k = Some j \<Longrightarrow> j < length xs \<and> key (xs ! j) = k"
  using index_from_Some [of 0 key xs Map.empty k j] by simp

lemma index_from_zero_eq_Some:
  assumes "distinct (map key xs)"
  shows "index_from 0 key xs Map.empty k = Some j \<longleftrightarrow> j < length xs \<and> key (xs ! j) = k"
proof
  assume j: "j < length xs \<and> key (xs ! j) = k"
  then have "index_from 0 key xs Map.empty k \<noteq> None"
    by (auto simp: index_from_None)
  then obtain l where l: "index_from 0 key xs Map.empty k = Some l" by auto
  from index_from_zero_Some [OF l] j assms have "l = j"
    by (auto simp: distinct_conv_nth)
  with l show "index_from 0 key xs Map.empty k = Some j" by simp
qed (rule index_from_zero_Some)

section \<open>Text up to a separator\<close>

lemma same_split:
  assumes "c \<notin> set v" "c \<notin> set w"
  shows "v @ c # xs = w @ c # ys \<longleftrightarrow> v = w \<and> xs = ys"
  using assms
proof (induction v arbitrary: w)
  case Nil
  then show ?case by (cases w) auto
next
  case (Cons d v)
  then show ?case by (cases w) auto
qed

lemma takeWhile_until:
  assumes "c \<notin> set v"
  shows "takeWhile (\<lambda>x. x \<noteq> c) (v @ c # xs) = v" "dropWhile (\<lambda>x. x \<noteq> c) (v @ c # xs) = c # xs"
  using assms by (induction v) auto

end
