(* ===== verification/Errors.thy ===== *)
theory Errors
  imports Prelude
begin

text \<open>
  Infrastructure failures (\<open>error.hpp\<close>, \<open>error.cpp\<close>). A C++ function that may throw \<open>EpochError\<close>
  is a function into \<open>'a res\<close>: \<open>Inl e\<close> is the exception, \<open>Inr x\<close> the normal return. Authority
  decisions are never of this kind; they are ordinary outcome values.
\<close>

datatype ErrorCategory =
    MalformedEncoding
  | UnsupportedVersion
  | IntegrityFailure
  | CorruptState
  | IoFailure
  | ResourceLimit
  | Overflow
  | InvalidArgument
  | ProtocolViolation
  | InternalInvariant

fun error_category_to_string :: "ErrorCategory \<Rightarrow> string" where
  "error_category_to_string MalformedEncoding = ''MALFORMED_ENCODING''"
| "error_category_to_string UnsupportedVersion = ''UNSUPPORTED_VERSION''"
| "error_category_to_string IntegrityFailure = ''INTEGRITY_FAILURE''"
| "error_category_to_string CorruptState = ''CORRUPT_STATE''"
| "error_category_to_string IoFailure = ''IO_FAILURE''"
| "error_category_to_string ResourceLimit = ''RESOURCE_LIMIT''"
| "error_category_to_string Overflow = ''OVERFLOW''"
| "error_category_to_string InvalidArgument = ''INVALID_ARGUMENT''"
| "error_category_to_string ProtocolViolation = ''PROTOCOL_VIOLATION''"
| "error_category_to_string InternalInvariant = ''INTERNAL_INVARIANT''"

datatype EpochError = EpochError (category: ErrorCategory) (what: string)

definition render_error :: "EpochError \<Rightarrow> string" where
  "render_error e = error_category_to_string (category e) @ '': '' @ what e"

definition malformed :: "string \<Rightarrow> EpochError" where
  "malformed message = EpochError MalformedEncoding message"

definition corrupt :: "string \<Rightarrow> EpochError" where
  "corrupt message = EpochError CorruptState message"

definition io_failure :: "string \<Rightarrow> EpochError" where
  "io_failure message = EpochError IoFailure message"

definition resource_limit :: "string \<Rightarrow> EpochError" where
  "resource_limit message = EpochError ResourceLimit message"

definition overflow :: "string \<Rightarrow> EpochError" where
  "overflow message = EpochError Overflow message"

definition invalid_argument :: "string \<Rightarrow> EpochError" where
  "invalid_argument message = EpochError InvalidArgument message"

definition protocol_violation :: "string \<Rightarrow> EpochError" where
  "protocol_violation message = EpochError ProtocolViolation message"

definition invariant_error :: "string \<Rightarrow> EpochError" where
  "invariant_error message = EpochError InternalInvariant message"

type_synonym 'a res = "EpochError + 'a"

text \<open>Sequencing of computations that may throw.\<close>

definition res_bind :: "'a res \<Rightarrow> ('a \<Rightarrow> 'b res) \<Rightarrow> 'b res" where
  "res_bind m f = (case m of Inl e \<Rightarrow> Inl e | Inr x \<Rightarrow> f x)"

lemma res_bind_simps [simp]:
  "res_bind (Inl e) f = Inl e"
  "res_bind (Inr x) f = f x"
  by (simp_all add: res_bind_def)

lemma res_bind_eq_Inr: "res_bind m f = Inr y \<longleftrightarrow> (\<exists>x. m = Inr x \<and> f x = Inr y)"
  by (cases m) simp_all

text \<open>A guard that throws when the condition holds: \<open>if (c) { throw e; }\<close>.\<close>

definition throw_if :: "bool \<Rightarrow> EpochError \<Rightarrow> unit res" where
  "throw_if c e = (if c then Inl e else Inr ())"

lemma throw_if_simps [simp]:
  "throw_if True e = Inl e"
  "throw_if False e = Inr ()"
  by (simp_all add: throw_if_def)

lemma throw_if_eq_Inr [simp]: "throw_if c e = Inr u \<longleftrightarrow> \<not> c"
  by (simp add: throw_if_def)

text \<open>A loop whose body may throw: the first failing element ends it.\<close>

fun res_for_each :: "('a \<Rightarrow> unit res) \<Rightarrow> 'a list \<Rightarrow> unit res" where
  "res_for_each f [] = Inr ()"
| "res_for_each f (x # xs) = res_bind (f x) (\<lambda>_. res_for_each f xs)"

lemma res_for_each_eq_Inr [simp]:
  "res_for_each f xs = Inr u \<longleftrightarrow> (\<forall>x \<in> set xs. f x = Inr ())"
  by (induction xs) (auto simp: res_bind_eq_Inr)

end
