(* ===== verification/Identity.thy ===== *)
theory Identity
  imports Errors
begin

text \<open>
  Identity values (\<open>identity.hpp\<close>, \<open>identity.cpp\<close>): the 128-bit identifiers, the participant
  identifier text, the monotonic 64-bit counters and the bounded free-form text. The C++ templates
  carry a tag type so that identifiers of different domains do not mix; the model keeps the tag as
  a phantom type parameter.
\<close>

section \<open>Identifier text\<close>

definition is_ascii_alnum :: "char \<Rightarrow> bool" where
  "is_ascii_alnum c \<longleftrightarrow>
     (let u = char_code c
      in (char_code CHR ''0'' \<le> u \<and> u \<le> char_code CHR ''9'') \<or>
         (char_code CHR ''A'' \<le> u \<and> u \<le> char_code CHR ''Z'') \<or>
         (char_code CHR ''a'' \<le> u \<and> u \<le> char_code CHR ''z''))"

definition is_separator :: "char \<Rightarrow> bool" where
  "is_separator c \<longleftrightarrow> c \<in> set ''._:-''"

definition is_valid_identifier_text :: "string \<Rightarrow> nat \<Rightarrow> bool" where
  "is_valid_identifier_text text max_length =
     (if text = [] \<or> max_length < length text then False
      else if is_separator (hd text) \<or> is_separator (last text) then False
      else list_all (\<lambda>c. is_ascii_alnum c \<or> is_separator c) text)"

section \<open>Hexadecimal text\<close>

definition hex_value :: "char \<Rightarrow> int" where
  "hex_value c =
     (let u = int (char_code c)
      in if int (char_code CHR ''0'') \<le> u \<and> u \<le> int (char_code CHR ''9'')
         then u - int (char_code CHR ''0'')
         else if int (char_code CHR ''a'') \<le> u \<and> u \<le> int (char_code CHR ''f'')
         then 10 + (u - int (char_code CHR ''a''))
         else if int (char_code CHR ''A'') \<le> u \<and> u \<le> int (char_code CHR ''F'')
         then 10 + (u - int (char_code CHR ''A''))
         else - 1)"

definition hex_digit :: "byte \<Rightarrow> char" where
  "hex_digit b = ''0123456789abcdef'' ! unat (b AND 15)"

definition to_hex :: "byte list \<Rightarrow> string" where
  "to_hex data = concat (map (\<lambda>b. [hex_digit (drop_bit 4 b), hex_digit b]) data)"

fun parse_hex_pairs :: "string \<Rightarrow> byte list option" where
  "parse_hex_pairs [] = Some []"
| "parse_hex_pairs [_] = None"
| "parse_hex_pairs (h # l # rest) =
     (let hi = hex_value h; lo = hex_value l
      in if hi < 0 \<or> lo < 0 then None
         else map_option (\<lambda>bs. (push_bit 4 (word_of_int hi) OR word_of_int lo) # bs)
                (parse_hex_pairs rest))"

definition parse_hex_16 :: "string \<Rightarrow> byte list option" where
  "parse_hex_16 text = (if length text \<noteq> 32 then None else parse_hex_pairs text)"

section \<open>128-bit identifiers\<close>

text \<open>
  \<open>std::array<std::byte, 16>\<close> is kept as one 128-bit word read most significant byte first, so that
  the array's lexicographic order is the order of the words.
\<close>

datatype 'tag Fixed128Id = Fixed128Id (id_word: "128 word")

definition id_bytes :: "'tag Fixed128Id \<Rightarrow> byte list" where
  "id_bytes i = be_bytes 16 (id_word i)"

definition id_from_bytes :: "byte list \<Rightarrow> 'tag Fixed128Id" where
  "id_from_bytes bs = Fixed128Id (from_be bs)"

definition id_nil :: "'tag Fixed128Id" where
  "id_nil = Fixed128Id 0"

definition id_is_nil :: "'tag Fixed128Id \<Rightarrow> bool" where
  "id_is_nil i \<longleftrightarrow> list_all (\<lambda>b. b = 0) (id_bytes i)"

definition id_parse :: "string \<Rightarrow> 'tag Fixed128Id option" where
  "id_parse text = map_option id_from_bytes (parse_hex_16 text)"

definition id_to_string :: "'tag Fixed128Id \<Rightarrow> string" where
  "id_to_string i = to_hex (id_bytes i)"

definition id_less :: "'tag Fixed128Id \<Rightarrow> 'tag Fixed128Id \<Rightarrow> bool" where
  "id_less a b \<longleftrightarrow> id_word a < id_word b"

instantiation Fixed128Id :: (type) linorder
begin

definition less_eq_Fixed128Id :: "'a Fixed128Id \<Rightarrow> 'a Fixed128Id \<Rightarrow> bool" where
  "less_eq_Fixed128Id a b \<longleftrightarrow> id_word a \<le> id_word b"

definition less_Fixed128Id :: "'a Fixed128Id \<Rightarrow> 'a Fixed128Id \<Rightarrow> bool" where
  "less_Fixed128Id a b \<longleftrightarrow> id_less a b"

instance
  by standard (auto simp: less_eq_Fixed128Id_def less_Fixed128Id_def id_less_def Fixed128Id.expand)

end

lemma length_id_bytes [simp]: "length (id_bytes i) = 16"
  by (simp add: id_bytes_def)

lemma id_from_bytes_id_bytes [simp]: "id_from_bytes (id_bytes i) = i"
  by (simp add: id_from_bytes_def id_bytes_def)

lemma id_bytes_id_from_bytes [simp]: "length bs = 16 \<Longrightarrow> id_bytes (id_from_bytes bs) = bs"
  by (simp add: id_from_bytes_def id_bytes_def)

lemma id_bytes_inject [simp]: "id_bytes a = id_bytes b \<longleftrightarrow> a = b"
  by (metis id_from_bytes_id_bytes)

lemma id_is_nil_iff: "id_is_nil i \<longleftrightarrow> i = id_nil"
proof
  assume "id_is_nil i"
  then have "id_bytes i = replicate 16 0"
    by (auto simp: id_is_nil_def list_all_iff intro: replicate_eqI)
  also have "\<dots> = id_bytes (id_nil :: 'a Fixed128Id)"
    by (auto simp: id_bytes_def id_nil_def be_bytes_def nth_le_bytes rev_nth intro!: nth_equalityI)
  finally show "i = id_nil" by simp
qed (auto simp: id_is_nil_def list_all_iff id_bytes_def id_nil_def be_bytes_def in_set_conv_nth
      nth_le_bytes)

section \<open>Hexadecimal round trip\<close>

lemma hex_digit_value: "hex_value (hex_digit b) = uint (b AND 15)"
proof -
  have "\<forall>n < 16. hex_value (''0123456789abcdef'' ! n) = int n"
    by code_simp
  moreover have "unat (b AND 15) < 16"
    using word_and_le1 [of b 15] by (simp add: word_le_nat_alt)
  ultimately show ?thesis by (simp add: hex_digit_def)
qed

lemma nibbles: "push_bit 4 (drop_bit 4 b) AND 240 OR b AND 15 = (b :: byte)"
proof -
  have m: "(15 :: byte) = mask 4" "(240 :: byte) = push_bit 4 (mask 4)"
    by (simp_all add: mask_eq_exp_minus_1)
  show ?thesis
    unfolding m by (rule bit_word_eqI) (auto simp: bit_simps not_le)
qed

lemma parse_to_hex: "parse_hex_pairs (to_hex bs) = Some bs"
  by (induction bs) (simp_all add: to_hex_def hex_digit_value nibbles)

lemma length_to_hex [simp]: "length (to_hex bs) = 2 * length bs"
  by (induction bs) (simp_all add: to_hex_def)

lemma to_hex_inject [simp]: "to_hex a = to_hex b \<longleftrightarrow> a = b"
  by (metis option.inject parse_to_hex)

lemma id_to_string_inject [simp]: "id_to_string a = id_to_string b \<longleftrightarrow> a = b"
  by (simp add: id_to_string_def)

lemma id_parse_to_string: "id_parse (id_to_string i) = Some i"
  by (simp add: id_parse_def id_to_string_def parse_hex_16_def parse_to_hex)

lemma parse_hex_pairs_length:
  "parse_hex_pairs s = Some bs \<Longrightarrow> length s = 2 * length bs"
  by (induction s arbitrary: bs rule: parse_hex_pairs.induct)
     (auto simp: Let_def split: if_splits)

section \<open>Identifier domains\<close>

datatype CoordinatorBootIdTag = CoordinatorBootIdTag
datatype WorkerBootIdTag = WorkerBootIdTag
datatype SessionIdTag = SessionIdTag
datatype AuthorityGrantIdTag = AuthorityGrantIdTag
datatype EpochTransitionIdTag = EpochTransitionIdTag
datatype EpochSnapshotIdTag = EpochSnapshotIdTag
datatype MutationAttemptIdTag = MutationAttemptIdTag

type_synonym CoordinatorBootId = "CoordinatorBootIdTag Fixed128Id"
type_synonym WorkerBootId = "WorkerBootIdTag Fixed128Id"
type_synonym SessionId = "SessionIdTag Fixed128Id"
type_synonym AuthorityGrantId = "AuthorityGrantIdTag Fixed128Id"
type_synonym EpochTransitionId = "EpochTransitionIdTag Fixed128Id"
type_synonym EpochSnapshotId = "EpochSnapshotIdTag Fixed128Id"
type_synonym MutationAttemptId = "MutationAttemptIdTag Fixed128Id"

section \<open>Participant identifiers\<close>

datatype ParticipantId = ParticipantId (pid_value: string)

definition pid_max_length :: nat where
  "pid_max_length = 128"

definition pid_parse :: "string \<Rightarrow> ParticipantId option" where
  "pid_parse text =
     (if \<not> is_valid_identifier_text text pid_max_length then None else Some (ParticipantId text))"

definition pid_empty :: "ParticipantId \<Rightarrow> bool" where
  "pid_empty p \<longleftrightarrow> pid_value p = []"

definition pid_valid :: "ParticipantId \<Rightarrow> bool" where
  "pid_valid p \<longleftrightarrow> is_valid_identifier_text (pid_value p) pid_max_length"

definition pid_less :: "ParticipantId \<Rightarrow> ParticipantId \<Rightarrow> bool" where
  "pid_less a b \<longleftrightarrow> pid_value a < pid_value b"

instantiation ParticipantId :: linorder
begin

definition less_eq_ParticipantId :: "ParticipantId \<Rightarrow> ParticipantId \<Rightarrow> bool" where
  "less_eq_ParticipantId a b \<longleftrightarrow> pid_value a \<le> pid_value b"

definition less_ParticipantId :: "ParticipantId \<Rightarrow> ParticipantId \<Rightarrow> bool" where
  "less_ParticipantId a b \<longleftrightarrow> pid_less a b"

instance
  by standard (auto simp: less_eq_ParticipantId_def less_ParticipantId_def pid_less_def ParticipantId.expand)

end

lemma pid_value_inject [simp]: "pid_value a = pid_value b \<longleftrightarrow> a = b"
  using ParticipantId.expand by blast

lemma pid_parse_valid [simp]: "pid_valid p \<Longrightarrow> pid_parse (pid_value p) = Some p"
  by (simp add: pid_parse_def pid_valid_def)

lemma pid_parse_Some: "pid_parse s = Some p \<longleftrightarrow> pid_value p = s \<and> pid_valid p"
  by (auto simp: pid_parse_def pid_valid_def split: if_splits)

lemma valid_identifier_length:
  "is_valid_identifier_text s n \<Longrightarrow> 0 < length s \<and> length s \<le> n"
  by (auto simp: is_valid_identifier_text_def split: if_splits)

lemma pid_valid_length: "pid_valid p \<Longrightarrow> 0 < length (pid_value p) \<and> length (pid_value p) \<le> 128"
  by (auto simp: pid_valid_def pid_max_length_def dest: valid_identifier_length)

text \<open>A publisher is named like a participant, but is of another type.\<close>

datatype PublisherId = PublisherId (pub_value: string)

definition pub_parse :: "string \<Rightarrow> PublisherId option" where
  "pub_parse text =
     (if \<not> is_valid_identifier_text text pid_max_length then None else Some (PublisherId text))"

definition pub_from_participant :: "ParticipantId \<Rightarrow> PublisherId" where
  "pub_from_participant p = PublisherId (pid_value p)"

definition pub_as_participant :: "PublisherId \<Rightarrow> ParticipantId" where
  "pub_as_participant p = ParticipantId (pub_value p)"

definition pub_empty :: "PublisherId \<Rightarrow> bool" where
  "pub_empty p \<longleftrightarrow> pub_value p = []"

definition pub_less :: "PublisherId \<Rightarrow> PublisherId \<Rightarrow> bool" where
  "pub_less a b \<longleftrightarrow> pub_value a < pub_value b"

lemma pub_as_from [simp]: "pub_as_participant (pub_from_participant p) = p"
  by (simp add: pub_as_participant_def pub_from_participant_def)

lemma pub_parse_participant: "map_option pub_as_participant (pub_parse t) = pid_parse t"
  by (simp add: pub_parse_def pid_parse_def pub_as_participant_def)

section \<open>Monotonic counters\<close>

datatype 'tag MonotonicCounter = MonotonicCounter (counter_value: u64)

definition counter_next :: "'tag MonotonicCounter \<Rightarrow> 'tag MonotonicCounter option" where
  "counter_next c =
     (if counter_value c = uint64_max then None else Some (MonotonicCounter (counter_value c + 1)))"

definition counter_is_max :: "'tag MonotonicCounter \<Rightarrow> bool" where
  "counter_is_max c \<longleftrightarrow> counter_value c = uint64_max"

definition counter_is_zero :: "'tag MonotonicCounter \<Rightarrow> bool" where
  "counter_is_zero c \<longleftrightarrow> counter_value c = 0"

definition counter_plus :: "'tag MonotonicCounter \<Rightarrow> u64 \<Rightarrow> 'tag MonotonicCounter option" where
  "counter_plus c delta =
     (if uint64_max - counter_value c < delta then None
      else Some (MonotonicCounter (counter_value c + delta)))"

definition counter_to_string :: "'tag MonotonicCounter \<Rightarrow> string" where
  "counter_to_string c = dec_string (unat (counter_value c))"

definition counter_less :: "'tag MonotonicCounter \<Rightarrow> 'tag MonotonicCounter \<Rightarrow> bool" where
  "counter_less a b \<longleftrightarrow> counter_value a < counter_value b"

instantiation MonotonicCounter :: (type) linorder
begin

definition less_eq_MonotonicCounter :: "'a MonotonicCounter \<Rightarrow> 'a MonotonicCounter \<Rightarrow> bool" where
  "less_eq_MonotonicCounter a b \<longleftrightarrow> counter_value a \<le> counter_value b"

definition less_MonotonicCounter :: "'a MonotonicCounter \<Rightarrow> 'a MonotonicCounter \<Rightarrow> bool" where
  "less_MonotonicCounter a b \<longleftrightarrow> counter_less a b"

instance
  by standard
    (auto simp: less_eq_MonotonicCounter_def less_MonotonicCounter_def counter_less_def MonotonicCounter.expand)

end

datatype CoordinatorEpochTag = CoordinatorEpochTag
datatype EpochGenerationTag = EpochGenerationTag
datatype RegistrationGenerationTag = RegistrationGenerationTag
datatype FencingGenerationTag = FencingGenerationTag
datatype GrantGenerationTag = GrantGenerationTag
datatype IncarnationSequenceTag = IncarnationSequenceTag

type_synonym CoordinatorEpoch = "CoordinatorEpochTag MonotonicCounter"
type_synonym EpochGeneration = "EpochGenerationTag MonotonicCounter"
type_synonym RegistrationGeneration = "RegistrationGenerationTag MonotonicCounter"
type_synonym FencingGeneration = "FencingGenerationTag MonotonicCounter"
type_synonym GrantGeneration = "GrantGenerationTag MonotonicCounter"
type_synonym IncarnationSequence = "IncarnationSequenceTag MonotonicCounter"

text \<open>The value of a counter as a natural number, the measure of its monotonicity.\<close>

definition counter_nat :: "'tag MonotonicCounter \<Rightarrow> nat" where
  "counter_nat c = unat (counter_value c)"

lemma counter_nat_bound: "counter_nat c < 2 ^ 64"
  using unsigned_less [of "counter_value c"] by (simp add: counter_nat_def)

lemma counter_nat_inject [simp]: "counter_nat a = counter_nat b \<longleftrightarrow> a = b"
  by (cases a; cases b) (simp add: counter_nat_def word_unat_eq_iff)

lemma uint64_max_iff: "w = uint64_max \<longleftrightarrow> unat w = 2 ^ 64 - 1"
  by (simp add: word_unat_eq_iff unsigned_minus_1_eq_mask mask_eq_exp_minus_1)

lemma counter_le_iff: "a \<le> b \<longleftrightarrow> counter_nat a \<le> counter_nat b"
  by (simp add: counter_nat_def less_eq_MonotonicCounter_def word_le_nat_alt)

lemma counter_less_iff: "a < b \<longleftrightarrow> counter_nat a < counter_nat b"
  by (simp add: counter_nat_def less_MonotonicCounter_def counter_less_def word_less_nat_alt)

lemma unat_succ: "w \<noteq> uint64_max \<Longrightarrow> unat (w + 1) = unat w + 1"
  by (metis Suc_eq_plus1 add.commute add.right_inverse add_left_cancel unatSuc)

lemma counter_next_eq_Some:
  "counter_next c = Some d \<longleftrightarrow> counter_nat d = counter_nat c + 1"
proof (cases "counter_value c = uint64_max")
  case True
  then have "counter_nat c = 2 ^ 64 - 1" by (simp add: uint64_max_iff counter_nat_def)
  with True counter_nat_bound [of d] show ?thesis by (auto simp: counter_next_def)
next
  case False
  then show ?thesis
    by (cases d) (auto simp: counter_next_def counter_nat_def unat_succ word_unat_eq_iff)
qed

lemma counter_next_eq_None: "counter_next c = None \<longleftrightarrow> counter_nat c = 2 ^ 64 - 1"
  unfolding counter_next_def uint64_max_iff counter_nat_def by simp

section \<open>Bounded text\<close>

datatype BoundedText = BoundedText (text_value: string)

definition text_char_ok :: "char \<Rightarrow> bool" where
  "text_char_ok c \<longleftrightarrow>
     (let uc = char_code c
      in \<not> (uc < 0x20 \<and> uc \<noteq> char_code (CHR 0x09)) \<and> \<not> uc = 0x7F \<and> \<not> 0x7E < uc)"

definition text_is_valid :: "string \<Rightarrow> nat \<Rightarrow> bool" where
  "text_is_valid s max_length \<longleftrightarrow> \<not> max_length < length s \<and> list_all text_char_ok s"

definition empty_text :: BoundedText where
  "empty_text = BoundedText []"

lemma text_is_valid_mono: "text_is_valid s n \<Longrightarrow> n \<le> m \<Longrightarrow> text_is_valid s m"
  by (auto simp: text_is_valid_def)

end
