(* ===== verification/Scope.thy ===== *)
theory Scope
  imports Identity
begin

text \<open>
  Authority scopes (\<open>scope.hpp\<close>, \<open>scope.cpp\<close>). A scope set is a vector kept sorted and free of
  duplicates; insertion and membership are binary searches (\<open>std::lower_bound\<close>). The locale
  \<open>bounded_set\<close> states what the rest of the program relies on.
\<close>

datatype ScopeKind = Fabric | Site | Domain | EntityClass | Entity | OperationFamily

fun scope_kind_to_string :: "ScopeKind \<Rightarrow> string" where
  "scope_kind_to_string Fabric = ''FABRIC''"
| "scope_kind_to_string Site = ''SITE''"
| "scope_kind_to_string Domain = ''DOMAIN''"
| "scope_kind_to_string EntityClass = ''ENTITY_CLASS''"
| "scope_kind_to_string Entity = ''ENTITY''"
| "scope_kind_to_string OperationFamily = ''OPERATION_FAMILY''"

text \<open>The enumerator's value, as \<open>static_cast<std::uint8_t>\<close> gives it.\<close>

fun scope_kind_wire :: "ScopeKind \<Rightarrow> byte" where
  "scope_kind_wire Fabric = 0"
| "scope_kind_wire Site = 1"
| "scope_kind_wire Domain = 2"
| "scope_kind_wire EntityClass = 3"
| "scope_kind_wire Entity = 4"
| "scope_kind_wire OperationFamily = 5"

definition scope_kind_from_wire :: "byte \<Rightarrow> ScopeKind option" where
  "scope_kind_from_wire v =
     (if v = 0 then Some Fabric
      else if v = 1 then Some Site
      else if v = 2 then Some Domain
      else if v = 3 then Some EntityClass
      else if v = 4 then Some Entity
      else if v = 5 then Some OperationFamily
      else None)"

lemma scope_kind_wire_roundtrip [simp]: "scope_kind_from_wire (scope_kind_wire k) = Some k"
  by (cases k) (simp_all add: scope_kind_from_wire_def)

lemma scope_kind_from_wire_Some:
  "scope_kind_from_wire v = Some k \<longleftrightarrow> v = scope_kind_wire k"
  by (cases k) (auto simp: scope_kind_from_wire_def split: if_splits)

lemma scope_kind_wire_inject [simp]: "scope_kind_wire a = scope_kind_wire b \<longleftrightarrow> a = b"
  by (metis option.inject scope_kind_wire_roundtrip)

section \<open>One scope\<close>

datatype AuthorityScope = AuthorityScope (scope_kind: ScopeKind) (scope_subject: string)

definition max_subject_length :: nat where
  "max_subject_length = 128"

definition scope_parse :: "ScopeKind \<Rightarrow> string \<Rightarrow> AuthorityScope option" where
  "scope_parse kind subject =
     (if \<not> is_valid_identifier_text subject max_subject_length then None
      else Some (AuthorityScope kind subject))"

definition scope_to_string :: "AuthorityScope \<Rightarrow> string" where
  "scope_to_string s = scope_kind_to_string (scope_kind s) @ '':'' @ scope_subject s"

definition scope_valid :: "AuthorityScope \<Rightarrow> bool" where
  "scope_valid s \<longleftrightarrow> is_valid_identifier_text (scope_subject s) max_subject_length"

text \<open>\<open>operator<=>\<close>: by kind (the enumerator's value), then by subject.\<close>

definition scope_less :: "AuthorityScope \<Rightarrow> AuthorityScope \<Rightarrow> bool" where
  "scope_less l r \<longleftrightarrow>
     (if scope_kind l \<noteq> scope_kind r
      then scope_kind_wire (scope_kind l) < scope_kind_wire (scope_kind r)
      else scope_subject l < scope_subject r)"

instantiation AuthorityScope :: linorder
begin

definition less_AuthorityScope :: "AuthorityScope \<Rightarrow> AuthorityScope \<Rightarrow> bool" where
  "less_AuthorityScope l r \<longleftrightarrow> scope_less l r"

definition less_eq_AuthorityScope :: "AuthorityScope \<Rightarrow> AuthorityScope \<Rightarrow> bool" where
  "less_eq_AuthorityScope l r \<longleftrightarrow> scope_less l r \<or> l = r"

instance
proof
  fix x y z :: AuthorityScope
  show "x < y \<longleftrightarrow> x \<le> y \<and> \<not> y \<le> x"
    by (auto simp: less_AuthorityScope_def less_eq_AuthorityScope_def scope_less_def
        split: if_splits)
  show "x \<le> x" by (simp add: less_eq_AuthorityScope_def)
  show "x \<le> y \<Longrightarrow> y \<le> z \<Longrightarrow> x \<le> z"
    by (auto simp: less_eq_AuthorityScope_def scope_less_def split: if_splits)
  show "x \<le> y \<Longrightarrow> y \<le> x \<Longrightarrow> x = y"
    by (auto simp: less_eq_AuthorityScope_def scope_less_def split: if_splits)
  show "x \<le> y \<or> y \<le> x"
    using less_linear [of "scope_kind_wire (scope_kind x)" "scope_kind_wire (scope_kind y)"]
      less_linear [of "scope_subject x" "scope_subject y"]
    by (cases x; cases y) (auto simp: less_eq_AuthorityScope_def scope_less_def split: if_splits)
qed

end

section \<open>Scope sets\<close>

datatype ScopeSet = ScopeSet (scopes: "AuthorityScope list")

text \<open>\<open>std::lower_bound\<close>: the part of the sorted vector before the insertion point, and the part
  from it on.\<close>

definition lower_bound :: "'a::linorder list \<Rightarrow> 'a \<Rightarrow> 'a list \<times> 'a list" where
  "lower_bound xs x = (takeWhile (\<lambda>y. y < x) xs, dropWhile (\<lambda>y. y < x) xs)"

definition empty_scope_set :: ScopeSet where
  "empty_scope_set = ScopeSet []"

definition scope_set_insert :: "ScopeSet \<Rightarrow> AuthorityScope \<Rightarrow> nat \<Rightarrow> bool \<times> ScopeSet" where
  "scope_set_insert s scope max_scopes =
     (let (before, rest) = lower_bound (scopes s) scope
      in if rest \<noteq> [] \<and> hd rest = scope then (True, s)
         else if max_scopes \<le> length (scopes s) then (False, s)
         else (True, ScopeSet (before @ scope # rest)))"

definition scope_set_contains :: "ScopeSet \<Rightarrow> AuthorityScope \<Rightarrow> bool" where
  "scope_set_contains s scope =
     (let (before, rest) = lower_bound (scopes s) scope in rest \<noteq> [] \<and> hd rest = scope)"

definition scope_set_empty :: "ScopeSet \<Rightarrow> bool" where
  "scope_set_empty s \<longleftrightarrow> scopes s = []"

definition scope_set_size :: "ScopeSet \<Rightarrow> nat" where
  "scope_set_size s = length (scopes s)"

definition scope_set_contains_all :: "ScopeSet \<Rightarrow> ScopeSet \<Rightarrow> bool" where
  "scope_set_contains_all s other \<longleftrightarrow> list_all (scope_set_contains s) (scopes other)"

definition intercalate :: "string \<Rightarrow> string list \<Rightarrow> string" where
  "intercalate sep xs = concat (case xs of [] \<Rightarrow> [] | y # ys \<Rightarrow> y # map (\<lambda>z. sep @ z) ys)"

definition scope_set_to_string :: "ScopeSet \<Rightarrow> string" where
  "scope_set_to_string s =
     ''['' @ intercalate '','' (map scope_to_string (scopes s)) @ '']''"

text \<open>The representation invariant: strictly increasing.\<close>

definition scope_set_canonical :: "ScopeSet \<Rightarrow> bool" where
  "scope_set_canonical s \<longleftrightarrow> sorted_wrt (<) (scopes s)"

definition scope_set_elems :: "ScopeSet \<Rightarrow> AuthorityScope set" where
  "scope_set_elems s = set (scopes s)"

section \<open>The interface of a bounded set\<close>

locale bounded_set =
  fixes empty :: 's
    and insert_bounded :: "'s \<Rightarrow> 'a \<Rightarrow> nat \<Rightarrow> bool \<times> 's"
    and member :: "'s \<Rightarrow> 'a \<Rightarrow> bool"
    and size_of :: "'s \<Rightarrow> nat"
    and elems :: "'s \<Rightarrow> 'a set"
    and invar :: "'s \<Rightarrow> bool"
  assumes invar_empty: "invar empty"
    and elems_empty: "elems empty = {}"
    and invar_insert: "invar s \<Longrightarrow> invar (snd (insert_bounded s x n))"
    and elems_insert: "invar s \<Longrightarrow>
      elems (snd (insert_bounded s x n)) =
        (if fst (insert_bounded s x n) then insert x (elems s) else elems s)"
    and insert_accepts: "invar s \<Longrightarrow>
      fst (insert_bounded s x n) \<longleftrightarrow> x \<in> elems s \<or> size_of s < n"
    and member_elems: "invar s \<Longrightarrow> member s x \<longleftrightarrow> x \<in> elems s"
    and size_elems: "invar s \<Longrightarrow> finite (elems s) \<and> size_of s = card (elems s)"
begin

lemma member_insert:
  "invar s \<Longrightarrow> fst (insert_bounded s x n) \<Longrightarrow>
     member (snd (insert_bounded s x n)) y \<longleftrightarrow> y = x \<or> member s y"
  by (simp add: member_elems invar_insert elems_insert)

lemma size_insert_le:
  assumes "invar s" "size_of s \<le> n"
  shows "size_of (snd (insert_bounded s x n)) \<le> n"
  using assms size_elems [OF invar_insert [OF assms(1)]] size_elems [OF assms(1)]
    insert_accepts [OF assms(1), of x n]
  by (auto simp: elems_insert card_insert_if)

lemma insert_idempotent:
  assumes "invar s" "fst (insert_bounded s x n)"
  shows "elems (snd (insert_bounded (snd (insert_bounded s x n)) x m)) =
    elems (snd (insert_bounded s x n))"
  using assms by (auto simp: elems_insert invar_insert)

end

lemma lower_bound_hit:
  assumes "sorted_wrt (<) xs"
  shows "dropWhile (\<lambda>y. y < x) xs \<noteq> [] \<and> hd (dropWhile (\<lambda>y. y < x) xs) = x \<longleftrightarrow> (x :: 'a::linorder) \<in> set xs"
  using assms
proof (induction xs)
  case (Cons a xs)
  then show ?case by (auto simp: not_less)
qed simp

lemma lower_bound_insert_sorted:
  assumes "sorted_wrt (<) xs" "x \<notin> set xs"
  shows "sorted_wrt (<) (takeWhile (\<lambda>y. y < x) xs @ (x :: 'a::linorder) # dropWhile (\<lambda>y. y < x) xs)"
  using assms
proof (induction xs)
  case (Cons a xs)
  then show ?case by (auto dest: set_takeWhileD set_dropWhileD order.strict_trans)
qed simp

interpretation scope_sets: bounded_set
  empty_scope_set scope_set_insert scope_set_contains scope_set_size scope_set_elems
  scope_set_canonical
proof unfold_locales
  show "scope_set_canonical empty_scope_set" "scope_set_elems empty_scope_set = {}"
    by (simp_all add: scope_set_canonical_def scope_set_elems_def empty_scope_set_def)
next
  fix s :: ScopeSet and x :: AuthorityScope and n :: nat
  assume can: "scope_set_canonical s"
  then have srt: "sorted_wrt (<) (scopes s)" by (simp add: scope_set_canonical_def)
  note hit = lower_bound_hit [OF srt, of x]
  have append: "set (takeWhile (\<lambda>y. y < x) (scopes s)) \<union> set (dropWhile (\<lambda>y. y < x) (scopes s)) =
      set (scopes s)"
    by (metis set_append takeWhile_dropWhile_id)
  show "scope_set_canonical (snd (scope_set_insert s x n))"
    using can lower_bound_insert_sorted [OF srt, of x] hit
    by (auto simp: scope_set_insert_def lower_bound_def scope_set_canonical_def)
  show "scope_set_elems (snd (scope_set_insert s x n)) =
      (if fst (scope_set_insert s x n) then insert x (scope_set_elems s) else scope_set_elems s)"
    using hit append by (auto simp: scope_set_insert_def lower_bound_def scope_set_elems_def)
  show "fst (scope_set_insert s x n) \<longleftrightarrow> x \<in> scope_set_elems s \<or> scope_set_size s < n"
    using hit
    by (auto simp: scope_set_insert_def lower_bound_def scope_set_elems_def scope_set_size_def)
  show "scope_set_contains s x \<longleftrightarrow> x \<in> scope_set_elems s"
    using hit by (simp add: scope_set_contains_def lower_bound_def scope_set_elems_def)
  show "finite (scope_set_elems s) \<and> scope_set_size s = card (scope_set_elems s)"
    using srt
    by (simp add: scope_set_size_def scope_set_elems_def distinct_card strict_sorted_iff)
qed

lemma contains_all_subset:
  "scope_set_canonical s \<Longrightarrow>
     scope_set_contains_all s other \<longleftrightarrow> scope_set_elems other \<subseteq> scope_set_elems s"
  by (auto simp: scope_set_contains_all_def list_all_iff scope_sets.member_elems
      scope_set_elems_def)

end
