(* ===== verification/Explanations.thy ===== *)
theory Explanations
  imports Identity
begin

text \<open>
  Structured reasons behind every decision (\<open>explanation.hpp\<close>, \<open>explanation.cpp\<close>): a code and a list
  of key/value details kept sorted by key. \<open>Explanation::with\<close> appends and sorts with \<open>std::sort\<close>;
  the model uses the stable sort of the library, and the two agree whenever no key is repeated,
  which is how the program uses them.
\<close>

datatype ExplanationCode =
    AuthorityCurrent
  | RegistrationAccepted
  | RegistrationIdempotentReplay
  | EpochStale
  | WorkerBootFenced
  | WorkerBootSuperseded
  | ParticipantUnknown
  | ParticipantRetired
  | ScopeMissing
  | RevalidationRequired
  | MalformedRequest
  | ResourceLimitReached
  | IncarnationConflict
  | AttemptConflict
  | GrantRevoked
  | GrantSuperseded
  | EpochAdvanced
  | FenceRecorded
  | FenceIdempotent
  | SessionClosed
  | DelegationRejected
  | GenerationMismatch

fun explanation_code_to_string :: "ExplanationCode \<Rightarrow> string" where
  "explanation_code_to_string AuthorityCurrent = ''AUTHORITY_CURRENT''"
| "explanation_code_to_string RegistrationAccepted = ''REGISTRATION_ACCEPTED''"
| "explanation_code_to_string RegistrationIdempotentReplay = ''REGISTRATION_IDEMPOTENT_REPLAY''"
| "explanation_code_to_string EpochStale = ''EPOCH_STALE''"
| "explanation_code_to_string WorkerBootFenced = ''WORKER_BOOT_FENCED''"
| "explanation_code_to_string WorkerBootSuperseded = ''WORKER_BOOT_SUPERSEDED''"
| "explanation_code_to_string ParticipantUnknown = ''PARTICIPANT_UNKNOWN''"
| "explanation_code_to_string ParticipantRetired = ''PARTICIPANT_RETIRED''"
| "explanation_code_to_string ScopeMissing = ''SCOPE_MISSING''"
| "explanation_code_to_string RevalidationRequired = ''REVALIDATION_REQUIRED''"
| "explanation_code_to_string MalformedRequest = ''MALFORMED_REQUEST''"
| "explanation_code_to_string ResourceLimitReached = ''RESOURCE_LIMIT_REACHED''"
| "explanation_code_to_string IncarnationConflict = ''INCARNATION_CONFLICT''"
| "explanation_code_to_string AttemptConflict = ''ATTEMPT_CONFLICT''"
| "explanation_code_to_string GrantRevoked = ''GRANT_REVOKED''"
| "explanation_code_to_string GrantSuperseded = ''GRANT_SUPERSEDED''"
| "explanation_code_to_string EpochAdvanced = ''EPOCH_ADVANCED''"
| "explanation_code_to_string FenceRecorded = ''FENCE_RECORDED''"
| "explanation_code_to_string FenceIdempotent = ''FENCE_IDEMPOTENT''"
| "explanation_code_to_string SessionClosed = ''SESSION_CLOSED''"
| "explanation_code_to_string DelegationRejected = ''DELEGATION_REJECTED''"
| "explanation_code_to_string GenerationMismatch = ''GENERATION_MISMATCH''"

text \<open>The enumerator's value: the position in the declaration, from 1.\<close>

definition explanation_codes :: "ExplanationCode list" where
  "explanation_codes =
     [AuthorityCurrent, RegistrationAccepted, RegistrationIdempotentReplay, EpochStale,
      WorkerBootFenced, WorkerBootSuperseded, ParticipantUnknown, ParticipantRetired, ScopeMissing,
      RevalidationRequired, MalformedRequest, ResourceLimitReached, IncarnationConflict,
      AttemptConflict, GrantRevoked, GrantSuperseded, EpochAdvanced, FenceRecorded,
      FenceIdempotent, SessionClosed, DelegationRejected, GenerationMismatch]"

record Explanation =
  ex_code :: ExplanationCode
  ex_details :: "(string \<times> string) list"

definition default_explanation :: Explanation where
  "default_explanation = \<lparr> ex_code = MalformedRequest, ex_details = [] \<rparr>"

definition explanation :: "ExplanationCode \<Rightarrow> Explanation" where
  "explanation code = \<lparr> ex_code = code, ex_details = [] \<rparr>"

definition ex_with :: "Explanation \<Rightarrow> string \<Rightarrow> string \<Rightarrow> Explanation" where
  "ex_with e key value = e\<lparr> ex_details := sort_key fst (ex_details e @ [(key, value)]) \<rparr>"

definition with_code :: "Explanation \<Rightarrow> ExplanationCode \<Rightarrow> Explanation" where
  "with_code e code = e\<lparr> ex_code := code \<rparr>"

text \<open>\<open>Explanation(code).with(k1, v1).with(k2, v2)...\<close>\<close>

definition explain :: "ExplanationCode \<Rightarrow> (string \<times> string) list \<Rightarrow> Explanation" where
  "explain code details = foldl (\<lambda>e (k, v). ex_with e k v) (explanation code) details"

definition ex_summary :: "Explanation \<Rightarrow> string" where
  "ex_summary e = explanation_code_to_string (ex_code e)"

definition ex_render :: "Explanation \<Rightarrow> string" where
  "ex_render e =
     explanation_code_to_string (ex_code e) @
     (if ex_details e = [] then []
      else '' ('' @
        concat (case map (\<lambda>(k, v). k @ ''='' @ v) (ex_details e) of
            [] \<Rightarrow> []
          | d # ds \<Rightarrow> d # map (\<lambda>x. '', '' @ x) ds) @ '')'')"

lemma ex_with_sorted: "sorted (map fst (ex_details (ex_with e k v)))"
  by (simp add: ex_with_def)

lemma ex_code_explain [simp]: "ex_code (explain code details) = code"
proof -
  have "ex_code (foldl (\<lambda>e (k, v). ex_with e k v) e details) = ex_code e" for e
    by (induction details arbitrary: e) (auto simp: ex_with_def)
  then show ?thesis by (simp add: explain_def explanation_def)
qed

lemma explain_sorted: "sorted (map fst (ex_details (explain code details)))"
proof -
  have "sorted (map fst (ex_details (foldl (\<lambda>e (k, v). ex_with e k v) e details)))"
    if "sorted (map fst (ex_details e))" for e
    using that by (induction details arbitrary: e) (auto simp: ex_with_def)
  then show ?thesis by (simp add: explain_def explanation_def)
qed

end
