(* ===== verification/Vocabulary.thy ===== *)
theory Vocabulary
  imports Scope Explanations
begin

text \<open>
  The data of the program as the headers declare it: the enumerations with their wire values and
  renderings (\<open>fence.hpp\<close>, \<open>epoch.hpp\<close>, \<open>participant.hpp\<close>, \<open>authority.hpp\<close>, \<open>durable.hpp\<close> and the
  \<open>.cpp\<close> files beside them), the limits, the durable records and the request and result structures.
  Field names carry a short prefix per structure.

  The idempotency table stores an outcome as a number and the code casts it back; an enumeration
  with a fixed underlying type can hold any value of that type, so the outcome types that are cast
  have one extra constructor for a value with no enumerator, which renders as \<open>UNKNOWN\<close>.
\<close>

section \<open>Limits\<close>

record Limits =
  max_frame_payload :: nat
  max_participants :: nat
  max_active_workers :: nat
  max_recent_fences :: nat
  max_authority_grants :: nat
  max_scopes_per_grant :: nat
  max_transition_history :: nat
  max_request_size :: nat
  max_string_size :: nat
  max_sessions :: nat
  max_idempotency_records_per_participant :: nat
  max_fenced_boots_per_participant :: nat
  listen_backlog :: nat

definition default_limits :: Limits where
  "default_limits =
     \<lparr> max_frame_payload = 64 * 1024,
       max_participants = 200000,
       max_active_workers = 200000,
       max_recent_fences = 8192,
       max_authority_grants = 200000,
       max_scopes_per_grant = 32,
       max_transition_history = 1024,
       max_request_size = 16 * 1024,
       max_string_size = 256,
       max_sessions = 1024,
       max_idempotency_records_per_participant = 64,
       max_fenced_boots_per_participant = 8,
       listen_backlog = 128 \<rparr>"

definition is_viable :: "Limits \<Rightarrow> bool" where
  "is_viable l =
     (if max_frame_payload l = 0 \<or> max_participants l = 0 \<or> max_active_workers l = 0 then False
      else if max_recent_fences l = 0 \<or> max_authority_grants l = 0 \<or> max_scopes_per_grant l = 0
      then False
      else if max_transition_history l = 0 \<or> max_request_size l = 0 \<or> max_string_size l = 0
      then False
      else if max_sessions l = 0 then False
      else if max_idempotency_records_per_participant l = 0 \<or>
              max_fenced_boots_per_participant l = 0 then False
      else if listen_backlog l = 0 then False
      else if max_frame_payload l < max_request_size l then False
      else if max_participants l < max_active_workers l then False
      else True)"

lemma default_limits_viable: "is_viable default_limits"
  by (simp add: is_viable_def default_limits_def)

lemma viable_positive:
  assumes "is_viable l"
  shows "0 < max_participants l" "0 < max_active_workers l" "0 < max_recent_fences l"
    "0 < max_authority_grants l" "0 < max_scopes_per_grant l" "0 < max_transition_history l"
    "0 < max_string_size l" "0 < max_sessions l" "0 < max_idempotency_records_per_participant l"
    "0 < max_fenced_boots_per_participant l" "max_request_size l \<le> max_frame_payload l"
    "max_active_workers l \<le> max_participants l"
  using assms by (auto simp: is_viable_def split: if_splits)

section \<open>Enumerations\<close>

datatype FenceReason =
    ProcessLoss
  | Reincarnation
  | CoordinatorEpochAdvance
  | AdministrativeRevoke
  | SessionProtocolViolation
  | ExplicitOperatorFence
  | AuthorityReplaced
  | Shutdown

fun fence_reason_to_string :: "FenceReason \<Rightarrow> string" where
  "fence_reason_to_string FenceReason.ProcessLoss = ''PROCESS_LOSS''"
| "fence_reason_to_string FenceReason.Reincarnation = ''REINCARNATION''"
| "fence_reason_to_string FenceReason.CoordinatorEpochAdvance = ''COORDINATOR_EPOCH_ADVANCE''"
| "fence_reason_to_string FenceReason.AdministrativeRevoke = ''ADMINISTRATIVE_REVOKE''"
| "fence_reason_to_string FenceReason.SessionProtocolViolation = ''SESSION_PROTOCOL_VIOLATION''"
| "fence_reason_to_string FenceReason.ExplicitOperatorFence = ''EXPLICIT_OPERATOR_FENCE''"
| "fence_reason_to_string FenceReason.AuthorityReplaced = ''AUTHORITY_REPLACED''"
| "fence_reason_to_string FenceReason.Shutdown = ''SHUTDOWN''"

fun fence_reason_wire :: "FenceReason \<Rightarrow> byte" where
  "fence_reason_wire FenceReason.ProcessLoss = 0"
| "fence_reason_wire FenceReason.Reincarnation = 1"
| "fence_reason_wire FenceReason.CoordinatorEpochAdvance = 2"
| "fence_reason_wire FenceReason.AdministrativeRevoke = 3"
| "fence_reason_wire FenceReason.SessionProtocolViolation = 4"
| "fence_reason_wire FenceReason.ExplicitOperatorFence = 5"
| "fence_reason_wire FenceReason.AuthorityReplaced = 6"
| "fence_reason_wire FenceReason.Shutdown = 7"

definition fence_reason_from_wire :: "byte \<Rightarrow> FenceReason option" where
  "fence_reason_from_wire v =
     (if v = 0 then Some FenceReason.ProcessLoss
      else if v = 1 then Some FenceReason.Reincarnation
      else if v = 2 then Some FenceReason.CoordinatorEpochAdvance
      else if v = 3 then Some FenceReason.AdministrativeRevoke
      else if v = 4 then Some FenceReason.SessionProtocolViolation
      else if v = 5 then Some FenceReason.ExplicitOperatorFence
      else if v = 6 then Some FenceReason.AuthorityReplaced
      else if v = 7 then Some FenceReason.Shutdown
      else None)"

lemma fence_reason_wire_roundtrip [simp]: "fence_reason_from_wire (fence_reason_wire e) = Some e"
  by (cases e) (simp_all add: fence_reason_from_wire_def)

lemma fence_reason_from_wire_Some: "fence_reason_from_wire v = Some e \<longleftrightarrow> v = fence_reason_wire e"
  by (cases e) (auto simp: fence_reason_from_wire_def split: if_splits)

datatype FenceOutcome =
    Fenced
  | AlreadyFenced
  | StaleEpoch
  | UnknownParticipant
  | MalformedRequest
  | ConflictingAttempt
  | ResourceLimit
  | NoFenceRequired
  | UnnamedFenceOutcome byte

fun fence_outcome_to_string :: "FenceOutcome \<Rightarrow> string" where
  "fence_outcome_to_string FenceOutcome.Fenced = ''FENCED''"
| "fence_outcome_to_string FenceOutcome.AlreadyFenced = ''ALREADY_FENCED''"
| "fence_outcome_to_string FenceOutcome.StaleEpoch = ''STALE_EPOCH''"
| "fence_outcome_to_string FenceOutcome.UnknownParticipant = ''UNKNOWN_PARTICIPANT''"
| "fence_outcome_to_string FenceOutcome.MalformedRequest = ''MALFORMED_REQUEST''"
| "fence_outcome_to_string FenceOutcome.ConflictingAttempt = ''CONFLICTING_ATTEMPT''"
| "fence_outcome_to_string FenceOutcome.ResourceLimit = ''RESOURCE_LIMIT''"
| "fence_outcome_to_string FenceOutcome.NoFenceRequired = ''NO_FENCE_REQUIRED''"
| "fence_outcome_to_string (FenceOutcome.UnnamedFenceOutcome _) = ''UNKNOWN''"

fun fence_outcome_wire :: "FenceOutcome \<Rightarrow> byte" where
  "fence_outcome_wire FenceOutcome.Fenced = 0"
| "fence_outcome_wire FenceOutcome.AlreadyFenced = 1"
| "fence_outcome_wire FenceOutcome.StaleEpoch = 2"
| "fence_outcome_wire FenceOutcome.UnknownParticipant = 3"
| "fence_outcome_wire FenceOutcome.MalformedRequest = 4"
| "fence_outcome_wire FenceOutcome.ConflictingAttempt = 5"
| "fence_outcome_wire FenceOutcome.ResourceLimit = 6"
| "fence_outcome_wire FenceOutcome.NoFenceRequired = 7"
| "fence_outcome_wire (FenceOutcome.UnnamedFenceOutcome b) = b"

definition fence_outcome_of_code :: "byte \<Rightarrow> FenceOutcome" where
  "fence_outcome_of_code v =
     (if v = 0 then FenceOutcome.Fenced
      else if v = 1 then FenceOutcome.AlreadyFenced
      else if v = 2 then FenceOutcome.StaleEpoch
      else if v = 3 then FenceOutcome.UnknownParticipant
      else if v = 4 then FenceOutcome.MalformedRequest
      else if v = 5 then FenceOutcome.ConflictingAttempt
      else if v = 6 then FenceOutcome.ResourceLimit
      else if v = 7 then FenceOutcome.NoFenceRequired
      else FenceOutcome.UnnamedFenceOutcome v)"

lemma fence_outcome_of_code_wire [simp]: "fence_outcome_wire (fence_outcome_of_code v) = v"
  by (simp add: fence_outcome_of_code_def)

datatype EpochTransitionCause =
    CoordinatorStart
  | CoordinatorRestart
  | ExplicitOperatorAdvance
  | DurableRecovery

fun transition_cause_to_string :: "EpochTransitionCause \<Rightarrow> string" where
  "transition_cause_to_string EpochTransitionCause.CoordinatorStart = ''COORDINATOR_START''"
| "transition_cause_to_string EpochTransitionCause.CoordinatorRestart = ''COORDINATOR_RESTART''"
| "transition_cause_to_string EpochTransitionCause.ExplicitOperatorAdvance = ''EXPLICIT_OPERATOR_ADVANCE''"
| "transition_cause_to_string EpochTransitionCause.DurableRecovery = ''DURABLE_RECOVERY''"

fun transition_cause_wire :: "EpochTransitionCause \<Rightarrow> byte" where
  "transition_cause_wire EpochTransitionCause.CoordinatorStart = 0"
| "transition_cause_wire EpochTransitionCause.CoordinatorRestart = 1"
| "transition_cause_wire EpochTransitionCause.ExplicitOperatorAdvance = 2"
| "transition_cause_wire EpochTransitionCause.DurableRecovery = 3"

definition transition_cause_from_wire :: "byte \<Rightarrow> EpochTransitionCause option" where
  "transition_cause_from_wire v =
     (if v = 0 then Some EpochTransitionCause.CoordinatorStart
      else if v = 1 then Some EpochTransitionCause.CoordinatorRestart
      else if v = 2 then Some EpochTransitionCause.ExplicitOperatorAdvance
      else if v = 3 then Some EpochTransitionCause.DurableRecovery
      else None)"

lemma transition_cause_wire_roundtrip [simp]: "transition_cause_from_wire (transition_cause_wire e) = Some e"
  by (cases e) (simp_all add: transition_cause_from_wire_def)

lemma transition_cause_from_wire_Some: "transition_cause_from_wire v = Some e \<longleftrightarrow> v = transition_cause_wire e"
  by (cases e) (auto simp: transition_cause_from_wire_def split: if_splits)

datatype EpochAdvanceOutcome =
    Advanced
  | StaleExpectedEpoch
  | EpochExhausted
  | MalformedRequest
  | ConflictingAttempt
  | UnnamedAdvanceOutcome byte

fun advance_outcome_to_string :: "EpochAdvanceOutcome \<Rightarrow> string" where
  "advance_outcome_to_string EpochAdvanceOutcome.Advanced = ''ADVANCED''"
| "advance_outcome_to_string EpochAdvanceOutcome.StaleExpectedEpoch = ''STALE_EXPECTED_EPOCH''"
| "advance_outcome_to_string EpochAdvanceOutcome.EpochExhausted = ''EPOCH_EXHAUSTED''"
| "advance_outcome_to_string EpochAdvanceOutcome.MalformedRequest = ''MALFORMED_REQUEST''"
| "advance_outcome_to_string EpochAdvanceOutcome.ConflictingAttempt = ''CONFLICTING_ATTEMPT''"
| "advance_outcome_to_string (EpochAdvanceOutcome.UnnamedAdvanceOutcome _) = ''UNKNOWN''"

fun advance_outcome_wire :: "EpochAdvanceOutcome \<Rightarrow> byte" where
  "advance_outcome_wire EpochAdvanceOutcome.Advanced = 0"
| "advance_outcome_wire EpochAdvanceOutcome.StaleExpectedEpoch = 1"
| "advance_outcome_wire EpochAdvanceOutcome.EpochExhausted = 2"
| "advance_outcome_wire EpochAdvanceOutcome.MalformedRequest = 3"
| "advance_outcome_wire EpochAdvanceOutcome.ConflictingAttempt = 4"
| "advance_outcome_wire (EpochAdvanceOutcome.UnnamedAdvanceOutcome b) = b"

definition advance_outcome_of_code :: "byte \<Rightarrow> EpochAdvanceOutcome" where
  "advance_outcome_of_code v =
     (if v = 0 then EpochAdvanceOutcome.Advanced
      else if v = 1 then EpochAdvanceOutcome.StaleExpectedEpoch
      else if v = 2 then EpochAdvanceOutcome.EpochExhausted
      else if v = 3 then EpochAdvanceOutcome.MalformedRequest
      else if v = 4 then EpochAdvanceOutcome.ConflictingAttempt
      else EpochAdvanceOutcome.UnnamedAdvanceOutcome v)"

lemma advance_outcome_of_code_wire [simp]: "advance_outcome_wire (advance_outcome_of_code v) = v"
  by (simp add: advance_outcome_of_code_def)

datatype IncarnationPolicy =
    SingleIncarnation
  | MultiIncarnation

fun incarnation_policy_to_string :: "IncarnationPolicy \<Rightarrow> string" where
  "incarnation_policy_to_string IncarnationPolicy.SingleIncarnation = ''SINGLE_INCARNATION''"
| "incarnation_policy_to_string IncarnationPolicy.MultiIncarnation = ''MULTI_INCARNATION''"

fun incarnation_policy_wire :: "IncarnationPolicy \<Rightarrow> byte" where
  "incarnation_policy_wire IncarnationPolicy.SingleIncarnation = 0"
| "incarnation_policy_wire IncarnationPolicy.MultiIncarnation = 1"

definition incarnation_policy_from_wire :: "byte \<Rightarrow> IncarnationPolicy option" where
  "incarnation_policy_from_wire v =
     (if v = 0 then Some IncarnationPolicy.SingleIncarnation
      else if v = 1 then Some IncarnationPolicy.MultiIncarnation
      else None)"

lemma incarnation_policy_wire_roundtrip [simp]: "incarnation_policy_from_wire (incarnation_policy_wire e) = Some e"
  by (cases e) (simp_all add: incarnation_policy_from_wire_def)

lemma incarnation_policy_from_wire_Some: "incarnation_policy_from_wire v = Some e \<longleftrightarrow> v = incarnation_policy_wire e"
  by (cases e) (auto simp: incarnation_policy_from_wire_def split: if_splits)

datatype RegistrationOutcome =
    Registered
  | Idempotent
  | StaleEpoch
  | StaleWorkerBoot
  | AlreadyActive
  | ConflictingIncarnation
  | UnauthorizedScope
  | MalformedRequest
  | ResourceLimit
  | RetiredParticipant
  | ConflictingAttempt
  | RevalidationRequired
  | UnnamedRegistrationOutcome byte

fun registration_outcome_to_string :: "RegistrationOutcome \<Rightarrow> string" where
  "registration_outcome_to_string RegistrationOutcome.Registered = ''REGISTERED''"
| "registration_outcome_to_string RegistrationOutcome.Idempotent = ''IDEMPOTENT''"
| "registration_outcome_to_string RegistrationOutcome.StaleEpoch = ''STALE_EPOCH''"
| "registration_outcome_to_string RegistrationOutcome.StaleWorkerBoot = ''STALE_WORKER_BOOT''"
| "registration_outcome_to_string RegistrationOutcome.AlreadyActive = ''ALREADY_ACTIVE''"
| "registration_outcome_to_string RegistrationOutcome.ConflictingIncarnation = ''CONFLICTING_INCARNATION''"
| "registration_outcome_to_string RegistrationOutcome.UnauthorizedScope = ''UNAUTHORIZED_SCOPE''"
| "registration_outcome_to_string RegistrationOutcome.MalformedRequest = ''MALFORMED_REQUEST''"
| "registration_outcome_to_string RegistrationOutcome.ResourceLimit = ''RESOURCE_LIMIT''"
| "registration_outcome_to_string RegistrationOutcome.RetiredParticipant = ''RETIRED_PARTICIPANT''"
| "registration_outcome_to_string RegistrationOutcome.ConflictingAttempt = ''CONFLICTING_ATTEMPT''"
| "registration_outcome_to_string RegistrationOutcome.RevalidationRequired = ''REVALIDATION_REQUIRED''"
| "registration_outcome_to_string (RegistrationOutcome.UnnamedRegistrationOutcome _) = ''UNKNOWN''"

fun registration_outcome_wire :: "RegistrationOutcome \<Rightarrow> byte" where
  "registration_outcome_wire RegistrationOutcome.Registered = 0"
| "registration_outcome_wire RegistrationOutcome.Idempotent = 1"
| "registration_outcome_wire RegistrationOutcome.StaleEpoch = 2"
| "registration_outcome_wire RegistrationOutcome.StaleWorkerBoot = 3"
| "registration_outcome_wire RegistrationOutcome.AlreadyActive = 4"
| "registration_outcome_wire RegistrationOutcome.ConflictingIncarnation = 5"
| "registration_outcome_wire RegistrationOutcome.UnauthorizedScope = 6"
| "registration_outcome_wire RegistrationOutcome.MalformedRequest = 7"
| "registration_outcome_wire RegistrationOutcome.ResourceLimit = 8"
| "registration_outcome_wire RegistrationOutcome.RetiredParticipant = 9"
| "registration_outcome_wire RegistrationOutcome.ConflictingAttempt = 10"
| "registration_outcome_wire RegistrationOutcome.RevalidationRequired = 11"
| "registration_outcome_wire (RegistrationOutcome.UnnamedRegistrationOutcome b) = b"

definition registration_outcome_of_code :: "byte \<Rightarrow> RegistrationOutcome" where
  "registration_outcome_of_code v =
     (if v = 0 then RegistrationOutcome.Registered
      else if v = 1 then RegistrationOutcome.Idempotent
      else if v = 2 then RegistrationOutcome.StaleEpoch
      else if v = 3 then RegistrationOutcome.StaleWorkerBoot
      else if v = 4 then RegistrationOutcome.AlreadyActive
      else if v = 5 then RegistrationOutcome.ConflictingIncarnation
      else if v = 6 then RegistrationOutcome.UnauthorizedScope
      else if v = 7 then RegistrationOutcome.MalformedRequest
      else if v = 8 then RegistrationOutcome.ResourceLimit
      else if v = 9 then RegistrationOutcome.RetiredParticipant
      else if v = 10 then RegistrationOutcome.ConflictingAttempt
      else if v = 11 then RegistrationOutcome.RevalidationRequired
      else RegistrationOutcome.UnnamedRegistrationOutcome v)"

lemma registration_outcome_of_code_wire [simp]: "registration_outcome_wire (registration_outcome_of_code v) = v"
  by (simp add: registration_outcome_of_code_def)

datatype RetireOutcome =
    Retired
  | AlreadyRetired
  | StaleEpoch
  | UnknownParticipant
  | MalformedRequest
  | ConflictingAttempt
  | UnnamedRetireOutcome byte

fun retire_outcome_to_string :: "RetireOutcome \<Rightarrow> string" where
  "retire_outcome_to_string RetireOutcome.Retired = ''RETIRED''"
| "retire_outcome_to_string RetireOutcome.AlreadyRetired = ''ALREADY_RETIRED''"
| "retire_outcome_to_string RetireOutcome.StaleEpoch = ''STALE_EPOCH''"
| "retire_outcome_to_string RetireOutcome.UnknownParticipant = ''UNKNOWN_PARTICIPANT''"
| "retire_outcome_to_string RetireOutcome.MalformedRequest = ''MALFORMED_REQUEST''"
| "retire_outcome_to_string RetireOutcome.ConflictingAttempt = ''CONFLICTING_ATTEMPT''"
| "retire_outcome_to_string (RetireOutcome.UnnamedRetireOutcome _) = ''UNKNOWN''"

fun retire_outcome_wire :: "RetireOutcome \<Rightarrow> byte" where
  "retire_outcome_wire RetireOutcome.Retired = 0"
| "retire_outcome_wire RetireOutcome.AlreadyRetired = 1"
| "retire_outcome_wire RetireOutcome.StaleEpoch = 2"
| "retire_outcome_wire RetireOutcome.UnknownParticipant = 3"
| "retire_outcome_wire RetireOutcome.MalformedRequest = 4"
| "retire_outcome_wire RetireOutcome.ConflictingAttempt = 5"
| "retire_outcome_wire (RetireOutcome.UnnamedRetireOutcome b) = b"

definition retire_outcome_of_code :: "byte \<Rightarrow> RetireOutcome" where
  "retire_outcome_of_code v =
     (if v = 0 then RetireOutcome.Retired
      else if v = 1 then RetireOutcome.AlreadyRetired
      else if v = 2 then RetireOutcome.StaleEpoch
      else if v = 3 then RetireOutcome.UnknownParticipant
      else if v = 4 then RetireOutcome.MalformedRequest
      else if v = 5 then RetireOutcome.ConflictingAttempt
      else RetireOutcome.UnnamedRetireOutcome v)"

lemma retire_outcome_of_code_wire [simp]: "retire_outcome_wire (retire_outcome_of_code v) = v"
  by (simp add: retire_outcome_of_code_def)

datatype AuthorityCurrentness =
    Current
  | RevalidationRequired
  | Fenced
  | StaleEpoch
  | Retired
  | Unknown
  | Revoked

fun currentness_to_string :: "AuthorityCurrentness \<Rightarrow> string" where
  "currentness_to_string AuthorityCurrentness.Current = ''CURRENT''"
| "currentness_to_string AuthorityCurrentness.RevalidationRequired = ''REVALIDATION_REQUIRED''"
| "currentness_to_string AuthorityCurrentness.Fenced = ''FENCED''"
| "currentness_to_string AuthorityCurrentness.StaleEpoch = ''STALE_EPOCH''"
| "currentness_to_string AuthorityCurrentness.Retired = ''RETIRED''"
| "currentness_to_string AuthorityCurrentness.Unknown = ''UNKNOWN''"
| "currentness_to_string AuthorityCurrentness.Revoked = ''REVOKED''"

fun currentness_wire :: "AuthorityCurrentness \<Rightarrow> byte" where
  "currentness_wire AuthorityCurrentness.Current = 0"
| "currentness_wire AuthorityCurrentness.RevalidationRequired = 1"
| "currentness_wire AuthorityCurrentness.Fenced = 2"
| "currentness_wire AuthorityCurrentness.StaleEpoch = 3"
| "currentness_wire AuthorityCurrentness.Retired = 4"
| "currentness_wire AuthorityCurrentness.Unknown = 5"
| "currentness_wire AuthorityCurrentness.Revoked = 6"

datatype AuthorityValidationCode =
    Current
  | StaleEpoch
  | StaleWorkerBoot
  | UnknownParticipant
  | UnauthorizedScope
  | RevalidationRequired
  | Malformed
  | Retired
  | UnknownGrant
  | Revoked

fun validation_code_to_string :: "AuthorityValidationCode \<Rightarrow> string" where
  "validation_code_to_string AuthorityValidationCode.Current = ''CURRENT''"
| "validation_code_to_string AuthorityValidationCode.StaleEpoch = ''STALE_EPOCH''"
| "validation_code_to_string AuthorityValidationCode.StaleWorkerBoot = ''STALE_WORKER_BOOT''"
| "validation_code_to_string AuthorityValidationCode.UnknownParticipant = ''UNKNOWN_PARTICIPANT''"
| "validation_code_to_string AuthorityValidationCode.UnauthorizedScope = ''UNAUTHORIZED_SCOPE''"
| "validation_code_to_string AuthorityValidationCode.RevalidationRequired = ''REVALIDATION_REQUIRED''"
| "validation_code_to_string AuthorityValidationCode.Malformed = ''MALFORMED''"
| "validation_code_to_string AuthorityValidationCode.Retired = ''RETIRED''"
| "validation_code_to_string AuthorityValidationCode.UnknownGrant = ''UNKNOWN_GRANT''"
| "validation_code_to_string AuthorityValidationCode.Revoked = ''REVOKED''"

fun validation_code_wire :: "AuthorityValidationCode \<Rightarrow> byte" where
  "validation_code_wire AuthorityValidationCode.Current = 0"
| "validation_code_wire AuthorityValidationCode.StaleEpoch = 1"
| "validation_code_wire AuthorityValidationCode.StaleWorkerBoot = 2"
| "validation_code_wire AuthorityValidationCode.UnknownParticipant = 3"
| "validation_code_wire AuthorityValidationCode.UnauthorizedScope = 4"
| "validation_code_wire AuthorityValidationCode.RevalidationRequired = 5"
| "validation_code_wire AuthorityValidationCode.Malformed = 6"
| "validation_code_wire AuthorityValidationCode.Retired = 7"
| "validation_code_wire AuthorityValidationCode.UnknownGrant = 8"
| "validation_code_wire AuthorityValidationCode.Revoked = 9"

datatype GrantOutcome =
    Granted
  | StaleEpoch
  | StaleWorkerBoot
  | UnknownParticipant
  | UnauthorizedScope
  | DelegationRejected
  | MalformedRequest
  | ResourceLimit
  | ConflictingAttempt
  | UnnamedGrantOutcome byte

fun grant_outcome_to_string :: "GrantOutcome \<Rightarrow> string" where
  "grant_outcome_to_string GrantOutcome.Granted = ''GRANTED''"
| "grant_outcome_to_string GrantOutcome.StaleEpoch = ''STALE_EPOCH''"
| "grant_outcome_to_string GrantOutcome.StaleWorkerBoot = ''STALE_WORKER_BOOT''"
| "grant_outcome_to_string GrantOutcome.UnknownParticipant = ''UNKNOWN_PARTICIPANT''"
| "grant_outcome_to_string GrantOutcome.UnauthorizedScope = ''UNAUTHORIZED_SCOPE''"
| "grant_outcome_to_string GrantOutcome.DelegationRejected = ''DELEGATION_REJECTED''"
| "grant_outcome_to_string GrantOutcome.MalformedRequest = ''MALFORMED_REQUEST''"
| "grant_outcome_to_string GrantOutcome.ResourceLimit = ''RESOURCE_LIMIT''"
| "grant_outcome_to_string GrantOutcome.ConflictingAttempt = ''CONFLICTING_ATTEMPT''"
| "grant_outcome_to_string (GrantOutcome.UnnamedGrantOutcome _) = ''UNKNOWN''"

fun grant_outcome_wire :: "GrantOutcome \<Rightarrow> byte" where
  "grant_outcome_wire GrantOutcome.Granted = 0"
| "grant_outcome_wire GrantOutcome.StaleEpoch = 1"
| "grant_outcome_wire GrantOutcome.StaleWorkerBoot = 2"
| "grant_outcome_wire GrantOutcome.UnknownParticipant = 3"
| "grant_outcome_wire GrantOutcome.UnauthorizedScope = 4"
| "grant_outcome_wire GrantOutcome.DelegationRejected = 5"
| "grant_outcome_wire GrantOutcome.MalformedRequest = 6"
| "grant_outcome_wire GrantOutcome.ResourceLimit = 7"
| "grant_outcome_wire GrantOutcome.ConflictingAttempt = 8"
| "grant_outcome_wire (GrantOutcome.UnnamedGrantOutcome b) = b"

definition grant_outcome_of_code :: "byte \<Rightarrow> GrantOutcome" where
  "grant_outcome_of_code v =
     (if v = 0 then GrantOutcome.Granted
      else if v = 1 then GrantOutcome.StaleEpoch
      else if v = 2 then GrantOutcome.StaleWorkerBoot
      else if v = 3 then GrantOutcome.UnknownParticipant
      else if v = 4 then GrantOutcome.UnauthorizedScope
      else if v = 5 then GrantOutcome.DelegationRejected
      else if v = 6 then GrantOutcome.MalformedRequest
      else if v = 7 then GrantOutcome.ResourceLimit
      else if v = 8 then GrantOutcome.ConflictingAttempt
      else GrantOutcome.UnnamedGrantOutcome v)"

lemma grant_outcome_of_code_wire [simp]: "grant_outcome_wire (grant_outcome_of_code v) = v"
  by (simp add: grant_outcome_of_code_def)

datatype RevokeOutcome =
    Revoked
  | AlreadyRevoked
  | StaleEpoch
  | UnknownGrant
  | MalformedRequest
  | ConflictingAttempt
  | UnnamedRevokeOutcome byte

fun revoke_outcome_to_string :: "RevokeOutcome \<Rightarrow> string" where
  "revoke_outcome_to_string RevokeOutcome.Revoked = ''REVOKED''"
| "revoke_outcome_to_string RevokeOutcome.AlreadyRevoked = ''ALREADY_REVOKED''"
| "revoke_outcome_to_string RevokeOutcome.StaleEpoch = ''STALE_EPOCH''"
| "revoke_outcome_to_string RevokeOutcome.UnknownGrant = ''UNKNOWN_GRANT''"
| "revoke_outcome_to_string RevokeOutcome.MalformedRequest = ''MALFORMED_REQUEST''"
| "revoke_outcome_to_string RevokeOutcome.ConflictingAttempt = ''CONFLICTING_ATTEMPT''"
| "revoke_outcome_to_string (RevokeOutcome.UnnamedRevokeOutcome _) = ''UNKNOWN''"

fun revoke_outcome_wire :: "RevokeOutcome \<Rightarrow> byte" where
  "revoke_outcome_wire RevokeOutcome.Revoked = 0"
| "revoke_outcome_wire RevokeOutcome.AlreadyRevoked = 1"
| "revoke_outcome_wire RevokeOutcome.StaleEpoch = 2"
| "revoke_outcome_wire RevokeOutcome.UnknownGrant = 3"
| "revoke_outcome_wire RevokeOutcome.MalformedRequest = 4"
| "revoke_outcome_wire RevokeOutcome.ConflictingAttempt = 5"
| "revoke_outcome_wire (RevokeOutcome.UnnamedRevokeOutcome b) = b"

definition revoke_outcome_of_code :: "byte \<Rightarrow> RevokeOutcome" where
  "revoke_outcome_of_code v =
     (if v = 0 then RevokeOutcome.Revoked
      else if v = 1 then RevokeOutcome.AlreadyRevoked
      else if v = 2 then RevokeOutcome.StaleEpoch
      else if v = 3 then RevokeOutcome.UnknownGrant
      else if v = 4 then RevokeOutcome.MalformedRequest
      else if v = 5 then RevokeOutcome.ConflictingAttempt
      else RevokeOutcome.UnnamedRevokeOutcome v)"

lemma revoke_outcome_of_code_wire [simp]: "revoke_outcome_wire (revoke_outcome_of_code v) = v"
  by (simp add: revoke_outcome_of_code_def)

datatype OperationKind =
    RegisterParticipant
  | GrantAuthority
  | FenceWorker
  | RevokeAuthority
  | AdvanceEpoch
  | RetireParticipant

fun operation_kind_to_string :: "OperationKind \<Rightarrow> string" where
  "operation_kind_to_string OperationKind.RegisterParticipant = ''REGISTER_PARTICIPANT''"
| "operation_kind_to_string OperationKind.GrantAuthority = ''GRANT_AUTHORITY''"
| "operation_kind_to_string OperationKind.FenceWorker = ''FENCE_WORKER''"
| "operation_kind_to_string OperationKind.RevokeAuthority = ''REVOKE_AUTHORITY''"
| "operation_kind_to_string OperationKind.AdvanceEpoch = ''ADVANCE_EPOCH''"
| "operation_kind_to_string OperationKind.RetireParticipant = ''RETIRE_PARTICIPANT''"

fun operation_kind_wire :: "OperationKind \<Rightarrow> byte" where
  "operation_kind_wire OperationKind.RegisterParticipant = 1"
| "operation_kind_wire OperationKind.GrantAuthority = 2"
| "operation_kind_wire OperationKind.FenceWorker = 3"
| "operation_kind_wire OperationKind.RevokeAuthority = 4"
| "operation_kind_wire OperationKind.AdvanceEpoch = 5"
| "operation_kind_wire OperationKind.RetireParticipant = 6"

definition operation_kind_from_wire :: "byte \<Rightarrow> OperationKind option" where
  "operation_kind_from_wire v =
     (if v = 1 then Some OperationKind.RegisterParticipant
      else if v = 2 then Some OperationKind.GrantAuthority
      else if v = 3 then Some OperationKind.FenceWorker
      else if v = 4 then Some OperationKind.RevokeAuthority
      else if v = 5 then Some OperationKind.AdvanceEpoch
      else if v = 6 then Some OperationKind.RetireParticipant
      else None)"

lemma operation_kind_wire_roundtrip [simp]: "operation_kind_from_wire (operation_kind_wire e) = Some e"
  by (cases e) (simp_all add: operation_kind_from_wire_def)

lemma operation_kind_from_wire_Some: "operation_kind_from_wire v = Some e \<longleftrightarrow> v = operation_kind_wire e"
  by (cases e) (auto simp: operation_kind_from_wire_def split: if_splits)

section \<open>Durable records\<close>

datatype SnapshotDigest = SnapshotDigest (digest_word: "256 word")

record FenceRecord =
  fr_boot :: WorkerBootId
  fr_participant :: ParticipantId
  fr_reason :: FenceReason
  fr_generation :: FencingGeneration
  fr_epoch :: CoordinatorEpoch
  fr_incarnation :: IncarnationSequence
  fr_note :: BoundedText

record IdempotencyRecord =
  ir_attempt :: MutationAttemptId
  ir_operation :: OperationKind
  ir_semantic :: SnapshotDigest
  ir_outcome :: u16
  ir_auxiliary :: u64
  ir_auxiliary_high :: u64
  ir_auxiliary_id :: "128 word"

record ActiveIncarnation =
  ai_boot :: WorkerBootId
  ai_sequence :: IncarnationSequence
  ai_registered_at :: RegistrationGeneration

record DurableParticipant =
  dp_id :: ParticipantId
  dp_registration_generation :: RegistrationGeneration
  dp_fence_generation :: FencingGeneration
  dp_incarnation_floor :: IncarnationSequence
  dp_policy :: IncarnationPolicy
  dp_retired :: bool
  dp_revalidation_required :: bool
  dp_has_active_boot :: bool
  dp_active_boot :: WorkerBootId
  dp_active_incarnation :: IncarnationSequence
  dp_next_incarnation :: IncarnationSequence
  dp_extra_incarnations :: "ActiveIncarnation list"
  dp_scopes :: ScopeSet
  dp_accepted_registrations :: u64
  dp_replay_hits :: u64
  dp_fenced_boots :: "WorkerBootId list"
  dp_idempotency :: "IdempotencyRecord list"

record AuthorityGrant =
  ag_id :: AuthorityGrantId
  ag_epoch :: CoordinatorEpoch
  ag_participant :: ParticipantId
  ag_boot :: WorkerBootId
  ag_incarnation :: IncarnationSequence
  ag_scopes :: ScopeSet
  ag_generation :: GrantGeneration
  ag_parent :: "AuthorityGrantId option"
  ag_delegator_boot :: "WorkerBootId option"
  ag_revoked :: bool
  ag_revoked_at_epoch :: CoordinatorEpoch
  ag_provenance :: BoundedText

record EpochTransitionRecord =
  tr_id :: EpochTransitionId
  tr_from_epoch :: CoordinatorEpoch
  tr_to_epoch :: CoordinatorEpoch
  tr_cause :: EpochTransitionCause
  tr_coordinator_boot :: CoordinatorBootId
  tr_generation :: EpochGeneration
  tr_provenance :: BoundedText

record DurableState =
  st_current_epoch :: CoordinatorEpoch
  st_coordinator_boot :: CoordinatorBootId
  st_generation :: EpochGeneration
  st_registration_floor :: RegistrationGeneration
  st_fence_floor :: FencingGeneration
  st_participants :: "DurableParticipant list"
  st_recent_fences :: "FenceRecord list"
  st_grants :: "AuthorityGrant list"
  st_transitions :: "EpochTransitionRecord list"
  st_control_attempts :: "IdempotencyRecord list"

text \<open>\<open>EpochStore::initial_state\<close>: what a store that does not exist yet loads as.\<close>

definition initial_state :: DurableState where
  "initial_state =
     \<lparr> st_current_epoch = MonotonicCounter 0,
       st_coordinator_boot = id_nil,
       st_generation = MonotonicCounter 0,
       st_registration_floor = MonotonicCounter 0,
       st_fence_floor = MonotonicCounter 0,
       st_participants = [], st_recent_fences = [], st_grants = [],
       st_transitions = [], st_control_attempts = [] \<rparr>"

section \<open>Requests and results\<close>

record RegisterParticipantRequest =
  rp_attempt :: MutationAttemptId
  rp_expected_epoch :: CoordinatorEpoch
  rp_participant :: ParticipantId
  rp_boot :: WorkerBootId
  rp_scopes :: ScopeSet
  rp_policy :: IncarnationPolicy
  rp_expected_generation :: "RegistrationGeneration option"
  rp_provenance :: BoundedText

record RegistrationResult =
  rr_outcome :: RegistrationOutcome
  rr_epoch :: CoordinatorEpoch
  rr_coordinator_boot :: CoordinatorBootId
  rr_generation :: "RegistrationGeneration option"
  rr_incarnation :: "IncarnationSequence option"
  rr_replayed :: bool
  rr_explanation :: Explanation

record FenceWorkerRequest =
  fw_attempt :: MutationAttemptId
  fw_expected_epoch :: CoordinatorEpoch
  fw_participant :: ParticipantId
  fw_boot :: WorkerBootId
  fw_reason :: FenceReason
  fw_note :: BoundedText

record FenceResult =
  fo_outcome :: FenceOutcome
  fo_epoch :: CoordinatorEpoch
  fo_generation :: "FencingGeneration option"
  fo_incarnation :: "IncarnationSequence option"
  fo_explanation :: Explanation

record GrantAuthorityRequest =
  gq_attempt :: MutationAttemptId
  gq_expected_epoch :: CoordinatorEpoch
  gq_participant :: ParticipantId
  gq_boot :: WorkerBootId
  gq_incarnation :: IncarnationSequence
  gq_scopes :: ScopeSet
  gq_parent :: "AuthorityGrantId option"
  gq_provenance :: BoundedText

record GrantResult =
  gr_outcome :: GrantOutcome
  gr_epoch :: CoordinatorEpoch
  gr_grant :: "AuthorityGrantId option"
  gr_generation :: "GrantGeneration option"
  gr_replayed :: bool
  gr_explanation :: Explanation

record RevokeAuthorityRequest =
  vq_attempt :: MutationAttemptId
  vq_expected_epoch :: CoordinatorEpoch
  vq_grant :: AuthorityGrantId
  vq_reason :: FenceReason
  vq_note :: BoundedText

record RevokeResult =
  vr_outcome :: RevokeOutcome
  vr_epoch :: CoordinatorEpoch
  vr_generation :: "GrantGeneration option"
  vr_derived_grants_revoked :: nat
  vr_explanation :: Explanation

record RetireParticipantRequest =
  tq_attempt :: MutationAttemptId
  tq_expected_epoch :: CoordinatorEpoch
  tq_participant :: ParticipantId
  tq_note :: BoundedText

record RetireResult =
  to_outcome :: RetireOutcome
  to_epoch :: CoordinatorEpoch
  to_incarnations_fenced :: nat
  to_explanation :: Explanation

record EpochAdvanceRequest =
  eq_attempt :: MutationAttemptId
  eq_expected_epoch :: CoordinatorEpoch
  eq_cause :: EpochTransitionCause
  eq_provenance :: BoundedText

record EpochAdvanceResult =
  eo_outcome :: EpochAdvanceOutcome
  eo_epoch :: CoordinatorEpoch
  eo_coordinator_boot :: CoordinatorBootId
  eo_transition :: "EpochTransitionId option"
  eo_replayed :: bool
  eo_explanation :: Explanation

record AuthorityToken =
  tok_epoch :: CoordinatorEpoch
  tok_participant :: ParticipantId
  tok_boot :: WorkerBootId
  tok_incarnation :: IncarnationSequence
  tok_registration_generation :: RegistrationGeneration

record ValidateAuthorityRequest =
  va_token :: AuthorityToken
  va_scope :: AuthorityScope
  va_expected_generation :: "RegistrationGeneration option"
  va_grant :: "AuthorityGrantId option"

record AuthorityValidation =
  av_code :: AuthorityValidationCode
  av_currentness :: AuthorityCurrentness
  av_epoch :: CoordinatorEpoch
  av_coordinator_boot :: CoordinatorBootId
  av_generation :: "RegistrationGeneration option"
  av_incarnation :: "IncarnationSequence option"
  av_replaced_by_epoch :: "CoordinatorEpoch option"
  av_superseded_by :: "WorkerBootId option"
  av_explanation :: Explanation

definition av_authorized :: "AuthorityValidation \<Rightarrow> bool" where
  "av_authorized v \<longleftrightarrow> av_code v = AuthorityValidationCode.Current"

section \<open>Views\<close>

record ParticipantView =
  pv_id :: ParticipantId
  pv_registration_generation :: RegistrationGeneration
  pv_fence_generation :: FencingGeneration
  pv_incarnation_floor :: IncarnationSequence
  pv_policy :: IncarnationPolicy
  pv_retired :: bool
  pv_revalidation_required :: bool
  pv_has_active_incarnation :: bool
  pv_active_boot :: WorkerBootId
  pv_active_incarnation :: IncarnationSequence
  pv_active_boots :: "WorkerBootId list"
  pv_scopes :: ScopeSet
  pv_accepted_registrations :: u64
  pv_replay_hits :: u64

definition pv_active_incarnation_count :: "ParticipantView \<Rightarrow> nat" where
  "pv_active_incarnation_count v =
     (if pv_has_active_incarnation v then 1 else 0) + length (pv_active_boots v)"

record GrantView =
  gv_id :: AuthorityGrantId
  gv_epoch :: CoordinatorEpoch
  gv_participant :: ParticipantId
  gv_boot :: WorkerBootId
  gv_generation :: GrantGeneration
  gv_revoked :: bool
  gv_delegated :: bool
  gv_scopes :: ScopeSet

record AuthoritySnapshot =
  sn_id :: EpochSnapshotId
  sn_epoch :: CoordinatorEpoch
  sn_coordinator_boot :: CoordinatorBootId
  sn_generation :: EpochGeneration
  sn_registration_floor :: RegistrationGeneration
  sn_fence_floor :: FencingGeneration
  sn_participants :: "ParticipantView list"
  sn_fences :: "FenceRecord list"
  sn_grants :: "GrantView list"
  sn_digest :: SnapshotDigest

definition sn_is_current_for :: "AuthoritySnapshot \<Rightarrow> CoordinatorEpoch \<Rightarrow> EpochGeneration \<Rightarrow> bool"
where
  "sn_is_current_for s epoch generation \<longleftrightarrow> sn_epoch s = epoch \<and> sn_generation s = generation"

record EpochState =
  es_epoch :: CoordinatorEpoch
  es_coordinator_boot :: CoordinatorBootId
  es_generation :: EpochGeneration
  es_registration_floor :: RegistrationGeneration
  es_fence_floor :: FencingGeneration
  es_participant_count :: nat
  es_active_worker_count :: nat
  es_retained_fence_count :: nat
  es_live_grant_count :: nat
  es_transition_history_count :: nat

record FenceStatus =
  fx_boot :: WorkerBootId
  fx_participant :: ParticipantId
  fx_fenced :: bool
  fx_retained_record :: bool
  fx_reason :: "FenceReason option"
  fx_fenced_at_epoch :: "CoordinatorEpoch option"
  fx_replaced_by_epoch :: "CoordinatorEpoch option"
  fx_superseded_by :: "WorkerBootId option"
  fx_incarnation :: "IncarnationSequence option"

end
