(* ===== verification/Encoding.thy ===== *)
theory Encoding
  imports Vocabulary
begin

text \<open>
  The bounded byte codec (\<open>detail/encoding.hpp\<close>, \<open>encoding.cpp\<close>). A \<open>ByteWriter\<close> is modelled by the
  bytes it appends, or by the error it throws; \<open>w_seq\<close> runs writers one after the other. A
  \<open>ByteReader\<close> is a function from the bytes not yet consumed to a value and the rest, or the error
  it throws. The locale \<open>byte_codec\<close> is the contract of a writer and the reader for it: what is
  written is read back and nothing else is consumed. \<open>canonical_codec\<close> adds that the reader accepts
  nothing but what the writer writes.
\<close>

section \<open>Ceilings\<close>

definition kAbsoluteMaxBytes :: nat where
  "kAbsoluteMaxBytes = 64 * 1024 * 1024"

section \<open>Writers\<close>

type_synonym writer = "byte list res"

fun w_seq :: "writer list \<Rightarrow> writer" where
  "w_seq [] = Inr []"
| "w_seq (m # ms) = res_bind m (\<lambda>a. res_bind (w_seq ms) (\<lambda>b. Inr (a @ b)))"

definition w_u8 :: "byte \<Rightarrow> writer" where
  "w_u8 v = Inr [v]"

definition w_u16 :: "u16 \<Rightarrow> writer" where
  "w_u16 v = Inr (le_bytes 2 v)"

definition w_u32 :: "u32 \<Rightarrow> writer" where
  "w_u32 v = Inr (le_bytes 4 v)"

definition w_u64 :: "u64 \<Rightarrow> writer" where
  "w_u64 v = Inr (le_bytes 8 v)"

definition w_raw :: "byte list \<Rightarrow> writer" where
  "w_raw bs = Inr bs"

definition w_fixed16 :: "byte list \<Rightarrow> writer" where
  "w_fixed16 bs = w_raw bs"

definition w_fixed32 :: "byte list \<Rightarrow> writer" where
  "w_fixed32 bs = w_raw bs"

definition w_string :: "string \<Rightarrow> writer" where
  "w_string s =
     (if 2 ^ 32 - 1 < length s then Inl (resource_limit ''string too large to encode'')
      else w_seq [w_u32 (word_of_nat (length s)), w_raw (map char_byte s)])"

text \<open>\<open>writer.u32(static_cast<std::uint32_t>(n))\<close> on a size: the cast keeps the low 32 bits.\<close>

definition w_count :: "nat \<Rightarrow> writer" where
  "w_count n = w_u32 (word_of_nat n)"

text \<open>A range-for loop that writes each element.\<close>

definition w_each :: "('a \<Rightarrow> writer) \<Rightarrow> 'a list \<Rightarrow> writer" where
  "w_each f xs = w_seq (map f xs)"

section \<open>Readers\<close>

type_synonym 'a reader = "byte list \<Rightarrow> ('a \<times> byte list) res"

definition r_return :: "'a \<Rightarrow> 'a reader" where
  "r_return x = (\<lambda>bs. Inr (x, bs))"

definition r_bind :: "'a reader \<Rightarrow> ('a \<Rightarrow> 'b reader) \<Rightarrow> 'b reader" where
  "r_bind m f = (\<lambda>bs. case m bs of Inl e \<Rightarrow> Inl e | Inr (x, rest) \<Rightarrow> f x rest)"

definition r_throw :: "EpochError \<Rightarrow> 'a reader" where
  "r_throw e = (\<lambda>_. Inl e)"

definition r_throw_if :: "bool \<Rightarrow> EpochError \<Rightarrow> unit reader" where
  "r_throw_if c e = (if c then r_throw e else r_return ())"

text \<open>A value that must be present, or the exception: the \<open>has_value\<close> tests after a parse.\<close>

definition r_some :: "'a option \<Rightarrow> EpochError \<Rightarrow> 'a reader" where
  "r_some x e = (case x of None \<Rightarrow> r_throw e | Some v \<Rightarrow> r_return v)"

definition r_remaining :: "nat reader" where
  "r_remaining = (\<lambda>bs. Inr (length bs, bs))"

definition r_require :: "nat \<Rightarrow> unit reader" where
  "r_require count =
     r_bind r_remaining (\<lambda>remaining.
       r_throw_if (remaining < count) (malformed ''truncated input while decoding''))"

definition r_take :: "nat \<Rightarrow> byte list reader" where
  "r_take count = r_bind (r_require count) (\<lambda>_ bs. Inr (take count bs, drop count bs))"

definition r_u8 :: "byte reader" where
  "r_u8 = r_bind (r_require 1) (\<lambda>_ bs. Inr (hd bs, tl bs))"

text \<open>The loop of \<open>u16\<close>, \<open>u32\<close> and \<open>u64\<close>: \<open>n\<close> more bytes, the next one at bit \<open>shift\<close>.\<close>

primrec r_shifted :: "nat \<Rightarrow> nat \<Rightarrow> 'a::len word \<Rightarrow> 'a word reader" where
  "r_shifted 0 shift acc = r_return acc"
| "r_shifted (Suc n) shift acc =
     r_bind r_u8 (\<lambda>b. r_shifted n (shift + 8) (acc OR push_bit shift (ucast b)))"

definition r_u16 :: "u16 reader" where
  "r_u16 = r_shifted 2 0 0"

definition r_u32 :: "u32 reader" where
  "r_u32 = r_shifted 4 0 0"

definition r_u64 :: "u64 reader" where
  "r_u64 = r_shifted 8 0 0"

definition r_fixed16 :: "byte list reader" where
  "r_fixed16 = r_take 16"

definition r_fixed32 :: "byte list reader" where
  "r_fixed32 = r_take 32"

definition r_string :: "Limits \<Rightarrow> nat \<Rightarrow> string reader" where
  "r_string limits max_length =
     r_bind r_u32 (\<lambda>declared.
     r_bind (r_throw_if (kAbsoluteMaxBytes < unat declared)
       (resource_limit ''declared string length exceeds absolute ceiling'')) (\<lambda>_.
     r_bind (r_throw_if (max_length < unat declared)
       (resource_limit ''declared string length exceeds requested maximum'')) (\<lambda>_.
     r_bind (r_throw_if (max_string_size limits < unat declared)
       (resource_limit ''declared string length exceeds limits.max_string_size'')) (\<lambda>_.
     r_bind (r_take (unat declared)) (\<lambda>bytes.
     r_return (map byte_char bytes))))))"

definition r_raw_bytes :: "nat \<Rightarrow> byte list reader" where
  "r_raw_bytes count =
     r_bind (r_throw_if (kAbsoluteMaxBytes < count)
       (resource_limit ''declared byte count exceeds absolute ceiling'')) (\<lambda>_.
     r_take count)"

definition r_at_end :: "bool reader" where
  "r_at_end = (\<lambda>bs. Inr (bs = [], bs))"

definition r_require_end :: "unit reader" where
  "r_require_end =
     r_bind r_at_end (\<lambda>e.
       r_throw_if (\<not> e) (malformed ''trailing bytes after decoded record''))"

text \<open>A counted loop that pushes one decoded element per round.\<close>

primrec r_repeat :: "nat \<Rightarrow> 'a reader \<Rightarrow> 'a list reader" where
  "r_repeat 0 r = r_return []"
| "r_repeat (Suc n) r = r_bind r (\<lambda>x. r_bind (r_repeat n r) (\<lambda>xs. r_return (x # xs)))"

text \<open>A reader run on a whole input; the rest is dropped with the reader.\<close>

definition r_run :: "'a reader \<Rightarrow> byte list \<Rightarrow> 'a res" where
  "r_run r bs = res_bind (r bs) (\<lambda>(x, _). Inr x)"

section \<open>Evaluation rules\<close>

lemma not_isl_res_bind: "\<not> isl (res_bind m f) \<longleftrightarrow> \<not> isl m \<and> \<not> isl (f (projr m))"
  by (cases m) simp_all

lemma w_seq_ok [codec_simps]:
  "\<not> isl (w_seq [])"
  "\<not> isl (w_seq (m # ms)) \<longleftrightarrow> \<not> isl m \<and> \<not> isl (w_seq ms)"
  by (cases m; cases "w_seq ms"; simp)+

lemma projr_w_seq [codec_simps]:
  "projr (w_seq []) = []"
  "\<not> isl m \<Longrightarrow> \<not> isl (w_seq ms) \<Longrightarrow> projr (w_seq (m # ms)) = projr m @ projr (w_seq ms)"
  by (cases m; cases "w_seq ms"; simp)+

declare w_seq.simps(2) [simp del]

lemma w_atoms_ok [codec_simps]:
  "\<not> isl (w_u8 b)" "\<not> isl (w_u16 h)" "\<not> isl (w_u32 w)" "\<not> isl (w_u64 d)"
  "\<not> isl (w_raw bs)" "\<not> isl (w_fixed16 bs)" "\<not> isl (w_fixed32 bs)" "\<not> isl (w_count n)"
  by (simp_all add: w_u8_def w_u16_def w_u32_def w_u64_def w_raw_def w_fixed16_def w_fixed32_def
      w_count_def)

lemma w_string_ok [codec_simps]: "\<not> isl (w_string s) \<longleftrightarrow> length s < 4294967296"
  by (auto simp: w_string_def codec_simps)

lemma w_each_ok [codec_simps]: "\<not> isl (w_each f xs) \<longleftrightarrow> (\<forall>x \<in> set xs. \<not> isl (f x))"
  by (induction xs) (simp_all add: w_each_def codec_simps)

lemma projr_w_each:
  "\<forall>x \<in> set xs. \<not> isl (f x) \<Longrightarrow> projr (w_each f xs) = concat (map (\<lambda>x. projr (f x)) xs)"
  by (induction xs) (simp_all add: w_each_def codec_simps w_each_ok [unfolded w_each_def])

lemma length_w_atoms [codec_simps]:
  "length (projr (w_u8 b)) = 1" "length (projr (w_u16 h)) = 2" "length (projr (w_u32 w)) = 4"
  "length (projr (w_u64 d)) = 8" "length (projr (w_raw bs)) = length bs"
  "length (projr (w_fixed16 bs)) = length bs" "length (projr (w_fixed32 bs)) = length bs"
  "length (projr (w_count n)) = 4"
  by (simp_all add: w_u8_def w_u16_def w_u32_def w_u64_def w_raw_def w_fixed16_def w_fixed32_def
      w_count_def)

lemma length_w_string [codec_simps]:
  "length s < 4294967296 \<Longrightarrow> length (projr (w_string s)) = 4 + length s"
  by (simp add: w_string_def codec_simps)

lemma r_return_apply [codec_simps]: "r_return x bs = Inr (x, bs)"
  by (simp add: r_return_def)

lemma r_bind_return [codec_simps]: "r_bind (r_return x) f = f x"
  by (simp add: r_bind_def r_return_def)

lemma r_bind_Inr: "m bs = Inr (x, rest) \<Longrightarrow> r_bind m f bs = f x rest"
  by (simp add: r_bind_def)

lemma r_bind_Inl: "m bs = Inl e \<Longrightarrow> r_bind m f bs = Inl e"
  by (simp add: r_bind_def)

lemma r_bind_eq_Inr:
  "r_bind m f bs = Inr z \<longleftrightarrow> (\<exists>x rest. m bs = Inr (x, rest) \<and> f x rest = Inr z)"
  by (auto simp: r_bind_def split: sum.splits)

lemma r_bind_assoc: "r_bind (r_bind m f) g = r_bind m (\<lambda>x. r_bind (f x) g)"
  by (auto simp: r_bind_def fun_eq_iff split: sum.splits)

lemma r_throw_if_apply [codec_simps]: "\<not> c \<Longrightarrow> r_bind (r_throw_if c e) f bs = f () bs"
  by (simp add: r_throw_if_def codec_simps)

lemma r_throw_if_eq_Inr: "r_throw_if c e bs = Inr z \<longleftrightarrow> \<not> c \<and> z = ((), bs)"
  by (auto simp: r_throw_if_def r_throw_def r_return_def)

lemma r_some_apply [codec_simps]: "r_bind (r_some (Some v) e) f = f v"
  by (simp add: r_some_def codec_simps)

lemma r_some_eq_Inr: "r_some x e bs = Inr z \<longleftrightarrow> (\<exists>v. x = Some v \<and> z = (v, bs))"
  by (auto simp: r_some_def r_throw_def r_return_def split: option.splits)

lemma r_remaining_bind [codec_simps]: "r_bind r_remaining f bs = f (length bs) bs"
  by (simp add: r_bind_def r_remaining_def)

lemma r_take_eq_Inr:
  "r_take n bs = Inr (x, rest) \<longleftrightarrow> length x = n \<and> bs = x @ rest"
  by (auto simp: r_take_def r_require_def r_bind_eq_Inr r_remaining_def r_throw_if_eq_Inr)

lemma r_take_append [codec_simps]: "length x = n \<Longrightarrow> r_take n (x @ rest) = Inr (x, rest)"
  by (simp add: r_take_eq_Inr)

lemma r_u8_Cons [codec_simps]: "r_u8 (b # rest) = Inr (b, rest)"
  by (simp add: r_u8_def r_require_def codec_simps r_bind_assoc)

lemma r_u8_eq_Inr: "r_u8 bs = Inr (b, rest) \<longleftrightarrow> bs = b # rest"
  by (cases bs) (auto simp: r_u8_Cons r_u8_def r_require_def r_bind_eq_Inr r_remaining_def
      r_throw_if_eq_Inr)

lemma r_shifted_append:
  "r_shifted (length bs) shift acc (bs @ rest) =
     Inr (acc OR push_bit shift (from_le bs), rest)"
proof (induction bs arbitrary: shift acc)
  case (Cons b bs)
  from Cons show ?case
    by (simp add: r_bind_def codec_simps push_bit_or or.assoc add.commute)
qed (simp add: codec_simps)

lemma r_shifted_eq_Inr:
  "r_shifted n shift acc bs = Inr (v, rest) \<longleftrightarrow>
     (\<exists>xs. length xs = n \<and> bs = xs @ rest \<and> v = (acc OR push_bit shift (from_le xs)))"
proof
  assume "r_shifted n shift acc bs = Inr (v, rest)"
  then have "n \<le> length bs"
  proof (induction n arbitrary: shift acc bs)
    case (Suc n)
    then show ?case
      by (cases bs) (auto simp: r_bind_eq_Inr r_u8_eq_Inr)
  qed simp
  then have "r_shifted (length (take n bs)) shift acc (take n bs @ drop n bs) =
      r_shifted n shift acc bs"
    by simp
  also note \<open>r_shifted n shift acc bs = Inr (v, rest)\<close>
  finally have "v = (acc OR push_bit shift (from_le (take n bs)))" "rest = drop n bs"
    by (simp_all only: r_shifted_append sum.inject prod.inject)
  with \<open>n \<le> length bs\<close> show
    "\<exists>xs. length xs = n \<and> bs = xs @ rest \<and> v = (acc OR push_bit shift (from_le xs))"
    by (intro exI [of _ "take n bs"]) simp
qed (auto simp: r_shifted_append)

lemma r_words_le_bytes [codec_simps]:
  "r_u16 (le_bytes 2 h @ rest) = Inr (h, rest)"
  "r_u32 (le_bytes 4 w @ rest) = Inr (w, rest)"
  "r_u64 (le_bytes 8 d @ rest) = Inr (d, rest)"
  by (simp_all add: r_u16_def r_u32_def r_u64_def r_shifted_eq_Inr)

section \<open>The contract of a writer and its reader\<close>

locale byte_codec =
  fixes enc :: "'a \<Rightarrow> writer" and dec :: "'a reader" and ok :: "'a \<Rightarrow> bool"
  assumes enc_ok: "ok x \<Longrightarrow> \<not> isl (enc x)"
    and dec_enc: "ok x \<Longrightarrow> dec (projr (enc x) @ rest) = Inr (x, rest)"
begin

lemma prefix_free:
  assumes "ok x" "ok y" "projr (enc x) @ r = projr (enc y) @ s"
  shows "x = y \<and> r = s"
  by (metis assms dec_enc prod.inject sum.inject(2))

lemma enc_inject: "ok x \<Longrightarrow> ok y \<Longrightarrow> enc x = enc y \<longleftrightarrow> x = y"
  using prefix_free [of x y "[]" "[]"] by auto

lemma bind_enc: "ok x \<Longrightarrow> r_bind dec f (projr (enc x) @ rest) = f x rest"
  by (rule r_bind_Inr) (rule dec_enc)

lemma bind_enc_end: "ok x \<Longrightarrow> r_bind dec f (projr (enc x)) = f x []"
  using bind_enc [of x f "[]"] by simp

lemma each_ok: "\<forall>x \<in> set xs. ok x \<Longrightarrow> \<not> isl (w_each enc xs)"
  by (simp add: codec_simps enc_ok)

lemma projr_each_Cons:
  "ok x \<Longrightarrow> \<forall>y \<in> set xs. ok y \<Longrightarrow>
     projr (w_each enc (x # xs)) = projr (enc x) @ projr (w_each enc xs)"
  by (simp add: projr_w_each enc_ok)

lemma repeat_each:
  "\<forall>x \<in> set xs. ok x \<Longrightarrow>
     r_repeat (length xs) dec (projr (w_each enc xs) @ rest) = Inr (xs, rest)"
proof (induction xs arbitrary: rest)
  case (Cons x xs)
  then show ?case
    by (simp add: codec_simps projr_each_Cons bind_enc r_bind_Inr)
qed (simp add: codec_simps w_each_def)

lemma bind_repeat_each:
  "n = length xs \<Longrightarrow> \<forall>x \<in> set xs. ok x \<Longrightarrow>
     r_bind (r_repeat n dec) f (projr (w_each enc xs) @ rest) = f xs rest"
  by (simp add: r_bind_Inr repeat_each)

lemma run_enc: "ok x \<Longrightarrow> r_run dec (projr (enc x)) = Inr x"
  using dec_enc [of x "[]"] by (simp add: r_run_def)

end

text \<open>A reader that accepts nothing but what its writer writes.\<close>

locale canonical_codec = byte_codec +
  assumes canonical: "dec bs = Inr (x, rest) \<Longrightarrow> ok x \<and> bs = projr (enc x) @ rest"
begin

lemma dec_iff: "dec bs = Inr (x, rest) \<longleftrightarrow> ok x \<and> bs = projr (enc x) @ rest"
  using canonical dec_enc by blast

lemma repeat_iff:
  "r_repeat n dec bs = Inr (xs, rest) \<longleftrightarrow>
     length xs = n \<and> (\<forall>x \<in> set xs. ok x) \<and> bs = projr (w_each enc xs) @ rest"
proof (induction n arbitrary: bs xs)
  case 0
  show ?case by (auto simp: codec_simps w_each_def)
next
  case (Suc n)
  show ?case
    by (cases xs) (auto simp: r_bind_eq_Inr dec_iff Suc codec_simps projr_each_Cons)
qed

end

interpretation u8_codec: canonical_codec w_u8 r_u8 "\<lambda>_. True"
  by unfold_locales (simp_all add: w_u8_def codec_simps r_u8_eq_Inr)

interpretation u16_codec: canonical_codec w_u16 r_u16 "\<lambda>_. True"
  by unfold_locales (auto simp: w_u16_def codec_simps r_u16_def r_shifted_eq_Inr)

interpretation u32_codec: canonical_codec w_u32 r_u32 "\<lambda>_. True"
  by unfold_locales (auto simp: w_u32_def codec_simps r_u32_def r_shifted_eq_Inr)

interpretation u64_codec: canonical_codec w_u64 r_u64 "\<lambda>_. True"
  by unfold_locales (auto simp: w_u64_def codec_simps r_u64_def r_shifted_eq_Inr)

interpretation fixed16_codec: canonical_codec w_fixed16 r_fixed16 "\<lambda>bs. length bs = 16"
  by unfold_locales (auto simp: w_fixed16_def w_raw_def r_fixed16_def r_take_eq_Inr)

interpretation fixed32_codec: canonical_codec w_fixed32 r_fixed32 "\<lambda>bs. length bs = 32"
  by unfold_locales (auto simp: w_fixed32_def w_raw_def r_fixed32_def r_take_eq_Inr)

definition string_fits :: "Limits \<Rightarrow> nat \<Rightarrow> string \<Rightarrow> bool" where
  "string_fits limits max_length s \<longleftrightarrow>
     length s \<le> kAbsoluteMaxBytes \<and> length s \<le> max_length \<and> length s \<le> max_string_size limits"

lemma string_fits_u32: "string_fits limits m s \<Longrightarrow> length s < 4294967296"
  by (simp add: string_fits_def kAbsoluteMaxBytes_def)

lemma unat_word_of_nat_u32: "n < 4294967296 \<Longrightarrow> unat (word_of_nat n :: u32) = n"
  by (simp add: unat_of_nat)

lemma string_canonical:
  "r_string limits m bs = Inr (s, rest) \<longleftrightarrow>
     string_fits limits m s \<and> bs = projr (w_string s) @ rest"
proof
  assume "r_string limits m bs = Inr (s, rest)"
  then obtain n xs where *: "bs = projr (w_u32 n) @ xs @ rest" "length xs = unat n"
    "s = map byte_char xs" "unat n \<le> kAbsoluteMaxBytes" "unat n \<le> m"
    "unat n \<le> max_string_size limits"
    by (auto simp: r_string_def r_bind_eq_Inr u32_codec.dec_iff r_throw_if_eq_Inr r_take_eq_Inr
        codec_simps)
  then have fits: "string_fits limits m s" by (simp add: string_fits_def)
  have "word_of_nat (length s) = n" using * by simp
  with * fits show "string_fits limits m s \<and> bs = projr (w_string s) @ rest"
    by (simp add: w_string_def codec_simps string_fits_u32 [unfolded string_fits_def] o_def
        w_raw_def kAbsoluteMaxBytes_def)
next
  assume fits: "string_fits limits m s \<and> bs = projr (w_string s) @ rest"
  then have "unat (word_of_nat (length s) :: u32) = length s"
    using string_fits_u32 unat_word_of_nat_u32 by blast
  with fits show "r_string limits m bs = Inr (s, rest)"
    using string_fits_u32 [of limits m s]
    by (simp add: w_string_def r_string_def codec_simps u32_codec.bind_enc w_raw_def
        r_bind_Inr r_take_append string_fits_def o_def)
qed

interpretation string_codec: canonical_codec w_string "r_string limits m" "string_fits limits m"
  for limits m
  by unfold_locales
    (auto simp: string_canonical codec_simps intro: string_fits_u32)

lemma bind_count [codec_simps]:
  "r_bind r_u32 f (projr (w_count n) @ rest) = f (word_of_nat n) rest"
  by (simp add: w_count_def u32_codec.bind_enc)

lemmas atom_binds [codec_simps] =
  u8_codec.bind_enc [OF TrueI] u16_codec.bind_enc [OF TrueI] u32_codec.bind_enc [OF TrueI]
  u64_codec.bind_enc [OF TrueI] fixed16_codec.bind_enc fixed32_codec.bind_enc
  string_codec.bind_enc

lemmas atom_binds_end [codec_simps] =
  u8_codec.bind_enc_end [OF TrueI] u16_codec.bind_enc_end [OF TrueI]
  u32_codec.bind_enc_end [OF TrueI] u64_codec.bind_enc_end [OF TrueI]
  fixed16_codec.bind_enc_end fixed32_codec.bind_enc_end string_codec.bind_enc_end

lemma r_require_end_iff: "r_require_end bs = Inr z \<longleftrightarrow> bs = [] \<and> z = ((), [])"
  by (auto simp: r_require_end_def r_at_end_def r_bind_def r_throw_if_def r_return_def r_throw_def)

section \<open>Counted sequences\<close>

text \<open>
  The shape every repeated field has: a 32-bit count, tested against a limit and against the bytes
  left (each element takes at least \<open>unit\<close> of them), then that many elements.
\<close>

definition r_counted :: "nat \<Rightarrow> EpochError \<Rightarrow> nat \<Rightarrow> EpochError \<Rightarrow> 'a reader \<Rightarrow> 'a list reader" where
  "r_counted limit e_limit unit e_unit r =
     r_bind r_u32 (\<lambda>count.
     r_bind (r_throw_if (limit < unat count) e_limit) (\<lambda>_.
     r_bind r_remaining (\<lambda>remaining.
     r_bind (r_throw_if (remaining < unat count * unit) e_unit) (\<lambda>_.
     r_repeat (unat count) r))))"

definition w_counted :: "('a \<Rightarrow> writer) \<Rightarrow> 'a list \<Rightarrow> writer" where
  "w_counted enc xs = w_seq [w_count (length xs), w_each enc xs]"

context byte_codec
begin

lemma counted_ok: "\<forall>x \<in> set xs. ok x \<Longrightarrow> \<not> isl (w_counted enc xs)"
  by (simp add: w_counted_def codec_simps enc_ok)

lemma length_each:
  assumes "\<forall>x \<in> set xs. ok x" "\<And>x. ok x \<Longrightarrow> k \<le> length (projr (enc x))"
  shows "length xs * k \<le> length (projr (w_each enc xs))"
  using assms(1)
proof (induction xs)
  case (Cons x xs)
  then show ?case using assms(2) [of x] by (simp add: projr_each_Cons)
qed simp

lemma bind_counted:
  assumes "\<forall>x \<in> set xs. ok x" "length xs \<le> limit" "limit < 4294967296"
    and "length xs * k \<le> length (projr (w_each enc xs) @ rest)"
  shows "r_bind (r_counted limit e1 k e2 dec) f (projr (w_counted enc xs) @ rest) = f xs rest"
proof -
  have n: "unat (word_of_nat (length xs) :: u32) = length xs"
    using assms by (simp add: unat_word_of_nat_u32)
  have e: "\<not> isl (w_each enc xs)" using assms(1) by (rule each_ok)
  show ?thesis
    using assms e
    by (intro r_bind_Inr)
      (simp add: r_counted_def w_counted_def codec_simps n repeat_each)
qed

lemma counted_too_short:
  assumes "\<forall>x \<in> set xs. ok x" "length xs \<le> limit" "limit < 4294967296"
    and "length (projr (w_each enc xs) @ rest) < length xs * k"
  shows "r_counted limit e1 k e2 dec (projr (w_counted enc xs) @ rest) = Inl e2"
proof -
  have n: "unat (word_of_nat (length xs) :: u32) = length xs"
    using assms by (simp add: unat_word_of_nat_u32)
  have e: "\<not> isl (w_each enc xs)" using assms(1) by (rule each_ok)
  show ?thesis
    using assms e
    by (simp add: r_counted_def w_counted_def codec_simps n)
      (simp add: r_throw_if_def r_throw_def r_bind_def)
qed

end

context canonical_codec
begin

lemma counted_canonical:
  assumes "r_counted limit e1 k e2 dec bs = Inr (xs, rest)"
  shows "(\<forall>x \<in> set xs. ok x) \<and> length xs \<le> limit \<and> length xs < 4294967296 \<and>
    bs = projr (w_counted enc xs) @ rest"
proof -
  from assms obtain n where n: "bs = projr (w_u32 n) @ projr (w_each enc xs) @ rest"
    "unat n \<le> limit" "length xs = unat n" "\<forall>x \<in> set xs. ok x"
    by (auto simp: r_counted_def r_bind_eq_Inr u32_codec.dec_iff r_throw_if_eq_Inr repeat_iff
        codec_simps)
  have "word_of_nat (length xs) = n" "unat n < 4294967296" "\<not> isl (w_each enc xs)"
    using n each_ok [of xs] unsigned_less [of n] by simp_all
  with n show ?thesis by (simp add: w_counted_def codec_simps w_count_def)
qed

end

end
