(* ===== verification/Codec.thy ===== *)
theory Codec
  imports Encoding
begin

text \<open>
  The canonical codecs the durable image, the semantic digests and the protocol share
  (\<open>codec.hpp\<close>, \<open>codec.cpp\<close>): identifiers, bounded text, scope sets and participant views. A scope
  set is accepted only as a strictly increasing sequence, so every set has one encoding.
\<close>

section \<open>Identifiers, counters and text\<close>

definition w_id :: "'tag Fixed128Id \<Rightarrow> writer" where
  "w_id i = w_fixed16 (id_bytes i)"

definition r_id :: "'tag Fixed128Id reader" where
  "r_id = r_bind r_fixed16 (\<lambda>bs. r_return (id_from_bytes bs))"

definition w_counter :: "'tag MonotonicCounter \<Rightarrow> writer" where
  "w_counter c = w_u64 (counter_value c)"

definition r_counter :: "'tag MonotonicCounter reader" where
  "r_counter = r_bind r_u64 (\<lambda>v. r_return (MonotonicCounter v))"

definition digest_bytes :: "SnapshotDigest \<Rightarrow> byte list" where
  "digest_bytes d = be_bytes 32 (digest_word d)"

definition digest_from_bytes :: "byte list \<Rightarrow> SnapshotDigest" where
  "digest_from_bytes bs = SnapshotDigest (from_be bs)"

definition digest_to_string :: "SnapshotDigest \<Rightarrow> string" where
  "digest_to_string d = to_hex (digest_bytes d)"

definition w_digest :: "SnapshotDigest \<Rightarrow> writer" where
  "w_digest d = w_fixed32 (digest_bytes d)"

definition r_digest :: "SnapshotDigest reader" where
  "r_digest = r_bind r_fixed32 (\<lambda>bs. r_return (digest_from_bytes bs))"

definition decode_participant_id :: "Limits \<Rightarrow> ParticipantId reader" where
  "decode_participant_id limits =
     r_bind (r_string limits pid_max_length) (\<lambda>s.
     r_some (pid_parse s) (malformed ''malformed participant identifier''))"

definition w_pid :: "ParticipantId \<Rightarrow> writer" where
  "w_pid p = w_string (pid_value p)"

definition decode_bounded_text :: "Limits \<Rightarrow> BoundedText reader" where
  "decode_bounded_text limits =
     r_bind (r_string limits (max_string_size limits)) (\<lambda>s.
     r_bind (r_throw_if (\<not> text_is_valid s (max_string_size limits))
       (malformed ''malformed bounded text'')) (\<lambda>_.
     r_return (BoundedText s)))"

definition w_text :: "BoundedText \<Rightarrow> writer" where
  "w_text t = w_string (text_value t)"

interpretation id_codec: canonical_codec w_id r_id "\<lambda>_. True"
  by unfold_locales
    (auto simp: w_id_def r_id_def codec_simps r_bind_eq_Inr fixed16_codec.dec_iff)

interpretation counter_codec: canonical_codec w_counter r_counter "\<lambda>_. True"
  by unfold_locales
    (auto simp: w_counter_def r_counter_def codec_simps r_bind_eq_Inr u64_codec.dec_iff)

lemma digest_bytes_from_bytes [simp]: "length bs = 32 \<Longrightarrow> digest_bytes (digest_from_bytes bs) = bs"
  by (simp add: digest_bytes_def digest_from_bytes_def)

lemma digest_from_bytes_bytes [simp]: "digest_from_bytes (digest_bytes d) = d"
  by (simp add: digest_bytes_def digest_from_bytes_def)

lemma length_digest_bytes [simp]: "length (digest_bytes d) = 32"
  by (simp add: digest_bytes_def)

interpretation digest_codec: canonical_codec w_digest r_digest "\<lambda>_. True"
  by unfold_locales
    (auto simp: w_digest_def r_digest_def codec_simps r_bind_eq_Inr fixed32_codec.dec_iff)

definition pid_fits :: "Limits \<Rightarrow> ParticipantId \<Rightarrow> bool" where
  "pid_fits limits p \<longleftrightarrow> pid_valid p \<and> string_fits limits pid_max_length (pid_value p)"

interpretation pid_codec: canonical_codec w_pid "decode_participant_id limits" "pid_fits limits"
  for limits
  by unfold_locales
    (auto simp: w_pid_def decode_participant_id_def codec_simps r_bind_eq_Inr pid_fits_def
      r_some_eq_Inr pid_parse_Some string_codec.dec_iff
      dest: string_fits_u32 intro!: r_bind_Inr [THEN trans])

definition text_fits :: "Limits \<Rightarrow> BoundedText \<Rightarrow> bool" where
  "text_fits limits t \<longleftrightarrow>
     length (text_value t) \<le> kAbsoluteMaxBytes \<and> text_is_valid (text_value t) (max_string_size limits)"

lemma text_fits_string:
  "text_fits limits t \<longleftrightarrow> string_fits limits (max_string_size limits) (text_value t) \<and>
     text_is_valid (text_value t) (max_string_size limits)"
  by (auto simp: text_fits_def string_fits_def text_is_valid_def)

interpretation text_codec: canonical_codec w_text "decode_bounded_text limits" "text_fits limits"
  for limits
proof unfold_locales
  fix t :: BoundedText and rest bs :: "byte list"
  show "text_fits limits t \<Longrightarrow> \<not> isl (w_text t)"
    by (auto simp: w_text_def codec_simps text_fits_string dest: string_fits_u32)
  show "text_fits limits t \<Longrightarrow> decode_bounded_text limits (projr (w_text t) @ rest) = Inr (t, rest)"
    by (simp add: w_text_def decode_bounded_text_def codec_simps text_fits_string)
  show "decode_bounded_text limits bs = Inr (t, rest) \<Longrightarrow>
      text_fits limits t \<and> bs = projr (w_text t) @ rest"
    by (auto simp: w_text_def decode_bounded_text_def r_bind_eq_Inr string_codec.dec_iff
        r_throw_if_eq_Inr text_fits_string codec_simps)
qed

lemmas field_binds [codec_simps] =
  id_codec.bind_enc [OF TrueI] counter_codec.bind_enc [OF TrueI] digest_codec.bind_enc [OF TrueI]
  pid_codec.bind_enc text_codec.bind_enc

lemmas field_binds_end [codec_simps] =
  id_codec.bind_enc_end [OF TrueI] counter_codec.bind_enc_end [OF TrueI]
  digest_codec.bind_enc_end [OF TrueI] pid_codec.bind_enc_end text_codec.bind_enc_end

lemmas field_oks [codec_simps] =
  id_codec.enc_ok [OF TrueI] counter_codec.enc_ok [OF TrueI] digest_codec.enc_ok [OF TrueI]
  pid_codec.enc_ok text_codec.enc_ok

section \<open>Scope sets\<close>

definition w_scope :: "AuthorityScope \<Rightarrow> writer" where
  "w_scope s = w_seq [w_u8 (scope_kind_wire (scope_kind s)), w_string (scope_subject s)]"

definition encode_scope_set_canonical :: "ScopeSet \<Rightarrow> writer" where
  "encode_scope_set_canonical s =
     w_seq [w_count (scope_set_size s), w_each w_scope (scopes s)]"

definition decode_scope :: "Limits \<Rightarrow> AuthorityScope reader" where
  "decode_scope limits =
     r_bind r_u8 (\<lambda>k.
     r_bind (r_some (scope_kind_from_wire k) (malformed ''unknown scope kind on the wire'')) (\<lambda>kind.
     r_bind (r_string limits max_subject_length) (\<lambda>subject.
     r_some (scope_parse kind subject) (malformed ''malformed authority scope subject''))))"

primrec decode_scopes ::
  "Limits \<Rightarrow> nat \<Rightarrow> ScopeSet \<Rightarrow> AuthorityScope option \<Rightarrow> ScopeSet reader"
where
  "decode_scopes limits 0 acc previous = r_return acc"
| "decode_scopes limits (Suc n) acc previous =
     r_bind (decode_scope limits) (\<lambda>scope.
     r_bind (r_throw_if (previous \<noteq> None \<and> \<not> the previous < scope)
       (malformed ''scope set is not in canonical strictly increasing order'')) (\<lambda>_.
     let (accepted, acc') = scope_set_insert acc scope (max_scopes_per_grant limits)
     in r_bind (r_throw_if (\<not> accepted)
          (resource_limit ''scope set exceeds limits.max_scopes_per_grant'')) (\<lambda>_.
        decode_scopes limits n acc' (Some scope))))"

definition decode_scope_set_canonical :: "Limits \<Rightarrow> ScopeSet reader" where
  "decode_scope_set_canonical limits =
     r_bind r_u32 (\<lambda>count.
     r_bind (r_throw_if (max_scopes_per_grant limits < unat count)
       (resource_limit ''scope count exceeds limits.max_scopes_per_grant'')) (\<lambda>_.
     decode_scopes limits (unat count) empty_scope_set None))"

definition scope_fits :: "Limits \<Rightarrow> AuthorityScope \<Rightarrow> bool" where
  "scope_fits limits s \<longleftrightarrow>
     scope_valid s \<and> string_fits limits max_subject_length (scope_subject s)"

definition scope_set_fits :: "Limits \<Rightarrow> ScopeSet \<Rightarrow> bool" where
  "scope_set_fits limits s \<longleftrightarrow>
     scope_set_canonical s \<and> length (scopes s) \<le> max_scopes_per_grant limits \<and>
     length (scopes s) < 4294967296 \<and> list_all (scope_fits limits) (scopes s)"

lemma scope_parse_Some:
  "scope_parse k t = Some s \<longleftrightarrow> scope_kind s = k \<and> scope_subject s = t \<and> scope_valid s"
  by (cases s) (auto simp: scope_parse_def scope_valid_def)

interpretation scope_codec: canonical_codec w_scope "decode_scope limits" "scope_fits limits"
  for limits
proof unfold_locales
  fix s :: AuthorityScope and rest bs :: "byte list"
  show "scope_fits limits s \<Longrightarrow> \<not> isl (w_scope s)"
    by (auto simp: w_scope_def codec_simps scope_fits_def dest: string_fits_u32)
  show "scope_fits limits s \<Longrightarrow> decode_scope limits (projr (w_scope s) @ rest) = Inr (s, rest)"
    using string_fits_u32
    by (fastforce simp: w_scope_def decode_scope_def codec_simps scope_fits_def r_some_eq_Inr
        scope_parse_Some)
  show "decode_scope limits bs = Inr (s, rest) \<Longrightarrow>
      scope_fits limits s \<and> bs = projr (w_scope s) @ rest"
    using string_fits_u32
    by (auto simp: w_scope_def decode_scope_def r_bind_eq_Inr u8_codec.dec_iff r_some_eq_Inr
        string_codec.dec_iff scope_parse_Some scope_fits_def codec_simps scope_kind_from_wire_Some)
qed

lemma insert_at_end:
  assumes "sorted_wrt (<) (xs @ [x])" "length xs < n"
  shows "scope_set_insert (ScopeSet xs) x n = (True, ScopeSet (xs @ [x]))"
proof -
  have "takeWhile (\<lambda>y. y < x) xs = xs" "dropWhile (\<lambda>y. y < x) xs = []"
    using assms(1) by (auto simp: sorted_wrt_append)
  with assms(2) show ?thesis by (simp add: scope_set_insert_def lower_bound_def)
qed

definition last_option :: "'a list \<Rightarrow> 'a option" where
  "last_option xs = (if xs = [] then None else Some (last xs))"

lemma last_option_snoc [simp]: "last_option (xs @ [x]) = Some x"
  by (simp add: last_option_def)

lemma sorted_wrt_snoc_last:
  "sorted_wrt (<) xs \<Longrightarrow>
     sorted_wrt (<) (xs @ [x :: 'a::linorder]) \<longleftrightarrow> (xs = [] \<or> last xs < x)"
proof (cases xs rule: rev_cases)
  case (snoc ys y)
  then show "sorted_wrt (<) xs \<Longrightarrow> ?thesis" by (auto simp: sorted_wrt_append)
qed simp

lemma decode_scopes_iff:
  assumes "sorted_wrt (<) pre" "length pre + n \<le> max_scopes_per_grant limits"
  shows "decode_scopes limits n (ScopeSet pre) (last_option pre) bs = Inr (s, rest) \<longleftrightarrow>
     (\<exists>xs. length xs = n \<and> list_all (scope_fits limits) xs \<and> s = ScopeSet (pre @ xs) \<and>
        sorted_wrt (<) (pre @ xs) \<and> bs = projr (w_each w_scope xs) @ rest)"
  using assms
proof (induction n arbitrary: pre bs)
  case 0
  then show ?case by (auto simp: codec_simps w_each_def)
next
  case (Suc n)
  let ?step = "\<lambda>x r. decode_scopes limits n (ScopeSet (pre @ [x])) (last_option (pre @ [x])) r"
  have guard: "(last_option pre \<noteq> None \<and> \<not> the (last_option pre) < x) \<longleftrightarrow>
      \<not> sorted_wrt (<) (pre @ [x])" for x
    using sorted_wrt_snoc_last [OF Suc.prems(1), of x] by (auto simp: last_option_def)
  have "decode_scopes limits (Suc n) (ScopeSet pre) (last_option pre) bs = Inr (s, rest) \<longleftrightarrow>
      (\<exists>x r. scope_fits limits x \<and> bs = projr (w_scope x) @ r \<and>
         sorted_wrt (<) (pre @ [x]) \<and> ?step x r = Inr (s, rest))"
  proof -
    have ins: "sorted_wrt (<) (pre @ [x]) \<Longrightarrow>
        scope_set_insert (ScopeSet pre) x (max_scopes_per_grant limits) =
          (True, ScopeSet (pre @ [x]))" for x
      using Suc.prems by (simp add: insert_at_end)
    show ?thesis
      unfolding decode_scopes.simps guard
      by (auto simp: r_bind_eq_Inr scope_codec.dec_iff r_throw_if_eq_Inr ins codec_simps)
  qed
  also have "\<dots> \<longleftrightarrow> (\<exists>x r. scope_fits limits x \<and> bs = projr (w_scope x) @ r \<and>
      (\<exists>xs. length xs = n \<and> list_all (scope_fits limits) xs \<and> s = ScopeSet (pre @ x # xs) \<and>
        sorted_wrt (<) (pre @ x # xs) \<and> r = projr (w_each w_scope xs) @ rest))"
    using Suc.IH [of "pre @ [_]"] Suc.prems by (auto simp: sorted_wrt_append)
  also have "\<dots> \<longleftrightarrow> (\<exists>xs. length xs = Suc n \<and> list_all (scope_fits limits) xs \<and>
      s = ScopeSet (pre @ xs) \<and> sorted_wrt (<) (pre @ xs) \<and>
      bs = projr (w_each w_scope xs) @ rest)"
  proof -
    have each: "list_all (scope_fits limits) (x # xs) \<Longrightarrow>
        projr (w_each w_scope (x # xs)) = projr (w_scope x) @ projr (w_each w_scope xs)" for x xs
      by (rule scope_codec.projr_each_Cons [of limits]) (simp_all add: list_all_iff)
    show ?thesis
      by (auto simp: length_Suc_conv each)
  qed
  finally show ?case .
qed

interpretation scope_set_codec: canonical_codec encode_scope_set_canonical
  "decode_scope_set_canonical limits" "scope_set_fits limits"
  for limits
proof unfold_locales
  fix s :: ScopeSet and rest bs :: "byte list"
  have each_ok: "\<not> isl (w_each w_scope (scopes s))" if "scope_set_fits limits s" for s
    using that scope_codec.enc_ok by (auto simp: codec_simps scope_set_fits_def list_all_iff)
  then show ok: "scope_set_fits limits s \<Longrightarrow> \<not> isl (encode_scope_set_canonical s)"
    by (simp add: encode_scope_set_canonical_def codec_simps)
  have body: "decode_scopes limits n empty_scope_set None bs = Inr (s, rest) \<longleftrightarrow>
      length (scopes s) = n \<and> list_all (scope_fits limits) (scopes s) \<and> scope_set_canonical s \<and>
      bs = projr (w_each w_scope (scopes s)) @ rest" if "n \<le> max_scopes_per_grant limits" for n s bs
    using decode_scopes_iff [of "[]" n limits bs s rest] that
    by (cases s) (auto simp: empty_scope_set_def last_option_def scope_set_canonical_def)
  show "scope_set_fits limits s \<Longrightarrow>
      decode_scope_set_canonical limits (projr (encode_scope_set_canonical s) @ rest) = Inr (s, rest)"
    using each_ok [of s] body [of "length (scopes s)" _ s]
    by (simp add: encode_scope_set_canonical_def decode_scope_set_canonical_def codec_simps
        scope_set_size_def scope_set_fits_def unat_word_of_nat_u32)
  show "decode_scope_set_canonical limits bs = Inr (s, rest) \<Longrightarrow>
      scope_set_fits limits s \<and> bs = projr (encode_scope_set_canonical s) @ rest"
  proof -
    assume "decode_scope_set_canonical limits bs = Inr (s, rest)"
    then obtain n where n: "bs = projr (w_u32 n) @ projr (w_each w_scope (scopes s)) @ rest"
      "unat n \<le> max_scopes_per_grant limits" "length (scopes s) = unat n"
      "list_all (scope_fits limits) (scopes s)" "scope_set_canonical s"
      by (auto simp: decode_scope_set_canonical_def r_bind_eq_Inr u32_codec.dec_iff
          r_throw_if_eq_Inr body)
    moreover have "unat n < 4294967296" using unsigned_less [of n] by simp
    moreover have "word_of_nat (length (scopes s)) = n" using n by simp
    ultimately have "scope_set_fits limits s" by (simp add: scope_set_fits_def)
    with n each_ok [of s] \<open>word_of_nat (length (scopes s)) = n\<close> show ?thesis
      by (simp add: encode_scope_set_canonical_def codec_simps scope_set_size_def w_count_def)
  qed
qed

lemmas scope_set_binds [codec_simps] =
  scope_set_codec.bind_enc scope_set_codec.bind_enc_end scope_set_codec.enc_ok

end
