(* ===== verification/DurableCodec.thy ===== *)
theory DurableCodec
  imports Codec
begin

text \<open>
  The payload of a durable image (\<open>encode_durable_payload\<close> and \<open>decode_durable_payload\<close> of
  \<open>codec.cpp\<close>), one writer and one reader per record, and the participant view of the protocol. The
  decoder uses the structural ceilings whatever the configured limits are.
\<close>

section \<open>Structural ceilings\<close>

definition kAbsoluteMaxRecords :: nat where
  "kAbsoluteMaxRecords = 4 * 1024 * 1024"

definition kAbsoluteMaxScopesPerSet :: nat where
  "kAbsoluteMaxScopesPerSet = 64"

definition kAbsoluteMaxDurableText :: nat where
  "kAbsoluteMaxDurableText = 4096"

definition structural_limits :: "Limits \<Rightarrow> Limits" where
  "structural_limits limits = limits\<lparr>
     max_participants := kAbsoluteMaxRecords,
     max_active_workers := kAbsoluteMaxRecords,
     max_recent_fences := kAbsoluteMaxRecords,
     max_authority_grants := kAbsoluteMaxRecords,
     max_transition_history := kAbsoluteMaxRecords,
     max_idempotency_records_per_participant := kAbsoluteMaxRecords,
     max_fenced_boots_per_participant := kAbsoluteMaxRecords,
     max_scopes_per_grant := kAbsoluteMaxScopesPerSet,
     max_string_size := kAbsoluteMaxDurableText \<rparr>"

lemma structural_limits_simps [simp]:
  "max_participants (structural_limits l) = 4194304"
  "max_active_workers (structural_limits l) = 4194304"
  "max_recent_fences (structural_limits l) = 4194304"
  "max_authority_grants (structural_limits l) = 4194304"
  "max_transition_history (structural_limits l) = 4194304"
  "max_idempotency_records_per_participant (structural_limits l) = 4194304"
  "max_fenced_boots_per_participant (structural_limits l) = 4194304"
  "max_scopes_per_grant (structural_limits l) = 64"
  "max_string_size (structural_limits l) = 4096"
  by (simp_all add: structural_limits_def kAbsoluteMaxRecords_def kAbsoluteMaxScopesPerSet_def
      kAbsoluteMaxDurableText_def)

section \<open>Flag bytes\<close>

definition flag_byte :: "bool \<Rightarrow> bool \<Rightarrow> bool \<Rightarrow> byte" where
  "flag_byte a b c =
     (if a then 0x01 else 0) OR (if b then 0x02 else 0) OR (if c then 0x04 else 0)"

lemma flag_byte_bits [simp]:
  "flag_byte a b c AND 0xF8 = 0"
  "flag_byte a b c AND 0x01 \<noteq> 0 \<longleftrightarrow> a"
  "flag_byte a b c AND 0x02 \<noteq> 0 \<longleftrightarrow> b"
  "flag_byte a b c AND 0x04 \<noteq> 0 \<longleftrightarrow> c"
  "flag_byte a b c AND 0x01 = 0 \<longleftrightarrow> \<not> a"
  "flag_byte a b c AND 0x02 = 0 \<longleftrightarrow> \<not> b"
  "flag_byte a b c AND 0x04 = 0 \<longleftrightarrow> \<not> c"
  by (cases a; cases b; cases c; simp add: flag_byte_def)+

lemma flag_byte_canonical:
  assumes "v AND 0xF8 = 0"
  shows "flag_byte (v AND 0x01 \<noteq> 0) (v AND 0x02 \<noteq> 0) (v AND 0x04 \<noteq> 0) = v"
proof -
  have m: "(0xF8 :: byte) = push_bit 3 (mask 5)" by (simp add: mask_eq_exp_minus_1)
  have "\<not> bit v n" if "3 \<le> n" for n
  proof
    assume "bit v n"
    moreover from this have "n < 8" by (auto dest: bit_imp_le_length)
    ultimately have "bit (v AND 0xF8) n" using that by (auto simp: m bit_simps)
    with assms show False by simp
  qed
  then have "v = take_bit 3 v" by (intro bit_word_eqI) (auto simp: bit_simps not_less [symmetric])
  then have "unat v = take_bit 3 (unat v)" by (metis unsigned_take_bit_eq)
  then have "unat v < 8" using take_bit_nat_less_exp [of 3 "unat v"] by simp
  then have "unat v \<in> set [0..<8]" by simp
  moreover have "v = word_of_nat (unat v)" by simp
  ultimately have "v \<in> word_of_nat ` set [0..<8]" by blast
  then show ?thesis by (auto simp: flag_byte_def upt_rec numeral_eq_Suc)
qed

section \<open>Idempotency records\<close>

definition w_idempotency :: "IdempotencyRecord \<Rightarrow> writer" where
  "w_idempotency r =
     w_seq [w_id (ir_attempt r), w_u8 (operation_kind_wire (ir_operation r)),
       w_digest (ir_semantic r), w_u16 (ir_outcome r), w_u64 (ir_auxiliary r),
       w_u64 (ir_auxiliary_high r), w_fixed16 (be_bytes 16 (ir_auxiliary_id r))]"

text \<open>The cast of a checked operation byte: only 1 to 6 reach it.\<close>

definition r_idempotency :: "EpochError \<Rightarrow> IdempotencyRecord reader" where
  "r_idempotency e =
     r_bind r_id (\<lambda>attempt.
     r_bind r_u8 (\<lambda>operation.
     r_bind (r_throw_if (operation < 1 \<or> 6 < operation) e) (\<lambda>_.
     r_bind (r_some (operation_kind_from_wire operation) e) (\<lambda>kind.
     r_bind r_digest (\<lambda>semantic.
     r_bind r_u16 (\<lambda>outcome.
     r_bind r_u64 (\<lambda>auxiliary.
     r_bind r_u64 (\<lambda>auxiliary_high.
     r_bind r_fixed16 (\<lambda>auxiliary_id.
     r_return \<lparr> ir_attempt = attempt, ir_operation = kind, ir_semantic = semantic,
       ir_outcome = outcome, ir_auxiliary = auxiliary, ir_auxiliary_high = auxiliary_high,
       ir_auxiliary_id = from_be auxiliary_id \<rparr>)))))))))"

lemma operation_kind_range:
  "\<not> (operation_kind_wire k < 1 \<or> 6 < operation_kind_wire k)"
  by (cases k) simp_all

interpretation idempotency_codec: canonical_codec w_idempotency "r_idempotency e" "\<lambda>_. True"
  for e
proof unfold_locales
  fix r :: IdempotencyRecord and rest bs :: "byte list"
  show "\<not> isl (w_idempotency r)"
    by (simp add: w_idempotency_def codec_simps)
  show "r_idempotency e (projr (w_idempotency r) @ rest) = Inr (r, rest)"
    using operation_kind_range [of "ir_operation r"]
    by (simp add: w_idempotency_def r_idempotency_def codec_simps)
  show "r_idempotency e bs = Inr (r, rest) \<Longrightarrow> True \<and> bs = projr (w_idempotency r) @ rest"
    by (auto simp: w_idempotency_def r_idempotency_def codec_simps r_bind_eq_Inr
        id_codec.dec_iff u8_codec.dec_iff digest_codec.dec_iff u16_codec.dec_iff u64_codec.dec_iff
        fixed16_codec.dec_iff r_throw_if_eq_Inr r_some_eq_Inr operation_kind_from_wire_Some)
qed

lemma length_w_id [codec_simps]: "length (projr (w_id i)) = 16"
  by (simp add: w_id_def codec_simps)

lemma length_w_counter [codec_simps]: "length (projr (w_counter c)) = 8"
  by (simp add: w_counter_def codec_simps)

lemma length_w_digest [codec_simps]: "length (projr (w_digest d)) = 32"
  by (simp add: w_digest_def codec_simps)

lemma length_w_pid [codec_simps]:
  "pid_fits l p \<Longrightarrow> length (projr (w_pid p)) = 4 + length (pid_value p)"
  by (auto simp: w_pid_def codec_simps pid_fits_def dest: string_fits_u32)

lemma length_w_text [codec_simps]:
  "text_fits l t \<Longrightarrow> length (projr (w_text t)) = 4 + length (text_value t)"
  by (auto simp: w_text_def codec_simps text_fits_string dest: string_fits_u32)

lemma length_w_idempotency: "length (projr (w_idempotency r)) = 83"
  by (simp add: w_idempotency_def codec_simps)

section \<open>Participant records\<close>

definition w_incarnation :: "ActiveIncarnation \<Rightarrow> writer" where
  "w_incarnation i =
     w_seq [w_id (ai_boot i), w_counter (ai_sequence i), w_counter (ai_registered_at i)]"

definition r_incarnation :: "ActiveIncarnation reader" where
  "r_incarnation =
     r_bind r_id (\<lambda>boot.
     r_bind r_counter (\<lambda>sequence.
     r_bind r_counter (\<lambda>registered_at.
     r_return \<lparr> ai_boot = boot, ai_sequence = sequence, ai_registered_at = registered_at \<rparr>)))"

definition w_participant :: "DurableParticipant \<Rightarrow> writer" where
  "w_participant p =
     w_seq [w_pid (dp_id p), w_counter (dp_registration_generation p),
       w_counter (dp_fence_generation p), w_counter (dp_incarnation_floor p),
       w_u8 (incarnation_policy_wire (dp_policy p)),
       w_u8 (flag_byte (dp_retired p) (dp_revalidation_required p) (dp_has_active_boot p)),
       w_id (dp_active_boot p), w_counter (dp_active_incarnation p),
       w_counter (dp_next_incarnation p),
       w_counted w_incarnation (dp_extra_incarnations p),
       encode_scope_set_canonical (dp_scopes p),
       w_u64 (dp_accepted_registrations p), w_u64 (dp_replay_hits p),
       w_counted w_id (dp_fenced_boots p),
       w_counted w_idempotency (dp_idempotency p)]"

definition r_participant :: "Limits \<Rightarrow> DurableParticipant reader" where
  "r_participant limits =
     r_bind (decode_participant_id limits) (\<lambda>pid.
     r_bind r_counter (\<lambda>registration_generation.
     r_bind r_counter (\<lambda>fence_generation.
     r_bind r_counter (\<lambda>incarnation_floor.
     r_bind r_u8 (\<lambda>policy_byte.
     r_bind (r_some (incarnation_policy_from_wire policy_byte)
       (malformed ''unknown incarnation policy in durable image'')) (\<lambda>policy.
     r_bind r_u8 (\<lambda>flags.
     r_bind (r_throw_if (flags AND 0xF8 \<noteq> 0)
       (malformed ''unknown participant flag bits in durable image'')) (\<lambda>_.
     r_bind r_id (\<lambda>active_boot.
     r_bind r_counter (\<lambda>active_incarnation.
     r_bind r_counter (\<lambda>next_incarnation.
     r_bind (r_counted (max_active_workers limits)
       (resource_limit ''extra incarnation count exceeds limits.max_active_workers'')
       32 (malformed ''extra incarnation count exceeds remaining durable input'')
       r_incarnation) (\<lambda>extra_incarnations.
     r_bind (decode_scope_set_canonical limits) (\<lambda>scopes.
     r_bind r_u64 (\<lambda>accepted_registrations.
     r_bind r_u64 (\<lambda>replay_hits.
     r_bind (r_counted (max_fenced_boots_per_participant limits)
       (resource_limit ''fenced boot count exceeds limits.max_fenced_boots_per_participant'')
       16 (malformed ''fenced boot count exceeds remaining durable input'') r_id) (\<lambda>fenced_boots.
     r_bind (r_counted (max_idempotency_records_per_participant limits)
       (resource_limit
         ''idempotency count exceeds limits.max_idempotency_records_per_participant'')
       83 (malformed ''idempotency count exceeds remaining durable input'')
       (r_idempotency (malformed ''unknown operation kind in durable image''))) (\<lambda>idempotency.
     r_return
       \<lparr> dp_id = pid, dp_registration_generation = registration_generation,
         dp_fence_generation = fence_generation, dp_incarnation_floor = incarnation_floor,
         dp_policy = policy, dp_retired = (flags AND 0x01 \<noteq> 0),
         dp_revalidation_required = (flags AND 0x02 \<noteq> 0),
         dp_has_active_boot = (flags AND 0x04 \<noteq> 0),
         dp_active_boot = active_boot, dp_active_incarnation = active_incarnation,
         dp_next_incarnation = next_incarnation, dp_extra_incarnations = extra_incarnations,
         dp_scopes = scopes, dp_accepted_registrations = accepted_registrations,
         dp_replay_hits = replay_hits, dp_fenced_boots = fenced_boots,
         dp_idempotency = idempotency \<rparr>)))))))))))))))))"

definition participant_fits :: "Limits \<Rightarrow> DurableParticipant \<Rightarrow> bool" where
  "participant_fits l p \<longleftrightarrow>
     pid_fits l (dp_id p) \<and> scope_set_fits l (dp_scopes p) \<and>
     length (dp_extra_incarnations p) \<le> max_active_workers l \<and>
     length (dp_fenced_boots p) \<le> max_fenced_boots_per_participant l \<and>
     length (dp_idempotency p) \<le> max_idempotency_records_per_participant l"

interpretation incarnation_codec: canonical_codec w_incarnation r_incarnation "\<lambda>_. True"
  by unfold_locales
    (auto simp: w_incarnation_def r_incarnation_def codec_simps r_bind_eq_Inr id_codec.dec_iff
      counter_codec.dec_iff)

lemma length_w_incarnation: "length (projr (w_incarnation i)) = 32"
  by (simp add: w_incarnation_def codec_simps)

lemma policy_from_wire_Some:
  "incarnation_policy_from_wire v = Some e \<longleftrightarrow> v = incarnation_policy_wire e"
  by (rule incarnation_policy_from_wire_Some)

lemma counted_oks [codec_simps]:
  "\<not> isl (w_counted w_incarnation is)" "\<not> isl (w_counted w_id bs)"
  "\<not> isl (w_counted w_idempotency rs)"
  by (rule incarnation_codec.counted_ok id_codec.counted_ok idempotency_codec.counted_ok; simp)+

lemma bind_counted_records [codec_simps]:
  "length is \<le> n \<Longrightarrow> n < 4294967296 \<Longrightarrow>
     r_bind (r_counted n e1 32 e2 r_incarnation) f (projr (w_counted w_incarnation is) @ rest) =
       f is rest"
  "length bs \<le> n \<Longrightarrow> n < 4294967296 \<Longrightarrow>
     r_bind (r_counted n e1 16 e2 r_id) g (projr (w_counted w_id bs) @ rest) = g bs rest"
  "length rs \<le> n \<Longrightarrow> n < 4294967296 \<Longrightarrow>
     r_bind (r_counted n e1 83 e2 (r_idempotency e)) h (projr (w_counted w_idempotency rs) @ rest) =
       h rs rest"
  using incarnation_codec.length_each [of "is" 32] id_codec.length_each [of bs 16]
    idempotency_codec.length_each [of rs 83]
  by (auto intro!: incarnation_codec.bind_counted id_codec.bind_counted
      idempotency_codec.bind_counted
      simp: length_w_incarnation length_w_id length_w_idempotency trans_le_add1)

interpretation participant_codec: canonical_codec w_participant
  "r_participant (structural_limits l)" "participant_fits (structural_limits l)"
  for l
proof unfold_locales
  fix p :: DurableParticipant and rest bs :: "byte list"
  show "participant_fits (structural_limits l) p \<Longrightarrow> \<not> isl (w_participant p)"
    by (auto simp: w_participant_def participant_fits_def codec_simps)
  show "participant_fits (structural_limits l) p \<Longrightarrow>
      r_participant (structural_limits l) (projr (w_participant p) @ rest) = Inr (p, rest)"
    by (auto simp: w_participant_def participant_fits_def codec_simps r_participant_def)
  show "r_participant (structural_limits l) bs = Inr (p, rest) \<Longrightarrow>
      participant_fits (structural_limits l) p \<and> bs = projr (w_participant p) @ rest"
    by (auto simp: w_participant_def participant_fits_def codec_simps r_participant_def r_bind_eq_Inr
        pid_codec.dec_iff counter_codec.dec_iff u8_codec.dec_iff r_some_eq_Inr r_throw_if_eq_Inr
        id_codec.dec_iff scope_set_codec.dec_iff u64_codec.dec_iff policy_from_wire_Some
        flag_byte_canonical
        dest!: incarnation_codec.counted_canonical id_codec.counted_canonical
          idempotency_codec.counted_canonical)
qed

lemma length_w_participant:
  "participant_fits (structural_limits l) p \<Longrightarrow> 32 \<le> length (projr (w_participant p))"
  by (auto simp: w_participant_def participant_fits_def codec_simps)

section \<open>Fence records, grants and transitions\<close>

definition w_fence :: "FenceRecord \<Rightarrow> writer" where
  "w_fence f =
     w_seq [w_id (fr_boot f), w_pid (fr_participant f), w_u8 (fence_reason_wire (fr_reason f)),
       w_counter (fr_generation f), w_counter (fr_epoch f), w_counter (fr_incarnation f),
       w_text (fr_note f)]"

definition r_fence :: "Limits \<Rightarrow> FenceRecord reader" where
  "r_fence limits =
     r_bind r_id (\<lambda>boot.
     r_bind (decode_participant_id limits) (\<lambda>participant.
     r_bind r_u8 (\<lambda>reason_byte.
     r_bind (r_some (fence_reason_from_wire reason_byte)
       (malformed ''unknown fence reason in durable image'')) (\<lambda>reason.
     r_bind r_counter (\<lambda>generation.
     r_bind r_counter (\<lambda>epoch.
     r_bind r_counter (\<lambda>incarnation.
     r_bind (decode_bounded_text limits) (\<lambda>note.
     r_return \<lparr> fr_boot = boot, fr_participant = participant, fr_reason = reason,
       fr_generation = generation, fr_epoch = epoch, fr_incarnation = incarnation,
       fr_note = note \<rparr>))))))))"

definition w_grant :: "AuthorityGrant \<Rightarrow> writer" where
  "w_grant g =
     w_seq [w_id (ag_id g), w_counter (ag_epoch g), w_pid (ag_participant g), w_id (ag_boot g),
       w_counter (ag_incarnation g), encode_scope_set_canonical (ag_scopes g),
       w_counter (ag_generation g),
       w_u8 (flag_byte (ag_parent g \<noteq> None) (ag_delegator_boot g \<noteq> None) (ag_revoked g)),
       w_fixed16 (case ag_parent g of Some i \<Rightarrow> id_bytes i | None \<Rightarrow> replicate 16 0),
       w_fixed16 (case ag_delegator_boot g of Some i \<Rightarrow> id_bytes i | None \<Rightarrow> replicate 16 0),
       w_counter (ag_revoked_at_epoch g), w_text (ag_provenance g)]"

definition r_grant :: "Limits \<Rightarrow> AuthorityGrant reader" where
  "r_grant limits =
     r_bind r_id (\<lambda>gid.
     r_bind r_counter (\<lambda>epoch.
     r_bind (decode_participant_id limits) (\<lambda>participant.
     r_bind r_id (\<lambda>boot.
     r_bind r_counter (\<lambda>incarnation.
     r_bind (decode_scope_set_canonical limits) (\<lambda>scopes.
     r_bind r_counter (\<lambda>generation.
     r_bind r_u8 (\<lambda>flags.
     r_bind (r_throw_if (flags AND 0xF8 \<noteq> 0)
       (malformed ''unknown grant flag bits in durable image'')) (\<lambda>_.
     r_bind r_fixed16 (\<lambda>parent_bytes.
     r_bind r_fixed16 (\<lambda>delegator_bytes.
     r_bind r_counter (\<lambda>revoked_at_epoch.
     r_bind (decode_bounded_text limits) (\<lambda>provenance.
     r_return
       \<lparr> ag_id = gid, ag_epoch = epoch, ag_participant = participant, ag_boot = boot,
         ag_incarnation = incarnation, ag_scopes = scopes, ag_generation = generation,
         ag_parent = (if flags AND 0x01 \<noteq> 0 then Some (id_from_bytes parent_bytes) else None),
         ag_delegator_boot =
           (if flags AND 0x02 \<noteq> 0 then Some (id_from_bytes delegator_bytes) else None),
         ag_revoked = (flags AND 0x04 \<noteq> 0), ag_revoked_at_epoch = revoked_at_epoch,
         ag_provenance = provenance \<rparr>)))))))))))))"

definition w_transition :: "EpochTransitionRecord \<Rightarrow> writer" where
  "w_transition t =
     w_seq [w_id (tr_id t), w_counter (tr_from_epoch t), w_counter (tr_to_epoch t),
       w_u8 (transition_cause_wire (tr_cause t)), w_id (tr_coordinator_boot t),
       w_counter (tr_generation t), w_text (tr_provenance t)]"

definition r_transition :: "Limits \<Rightarrow> EpochTransitionRecord reader" where
  "r_transition limits =
     r_bind r_id (\<lambda>tid.
     r_bind r_counter (\<lambda>from_epoch.
     r_bind r_counter (\<lambda>to_epoch.
     r_bind r_u8 (\<lambda>cause_byte.
     r_bind (r_some (transition_cause_from_wire cause_byte)
       (malformed ''unknown transition cause in durable image'')) (\<lambda>cause.
     r_bind r_id (\<lambda>coordinator_boot.
     r_bind r_counter (\<lambda>generation.
     r_bind (decode_bounded_text limits) (\<lambda>provenance.
     r_return \<lparr> tr_id = tid, tr_from_epoch = from_epoch, tr_to_epoch = to_epoch,
       tr_cause = cause, tr_coordinator_boot = coordinator_boot, tr_generation = generation,
       tr_provenance = provenance \<rparr>))))))))"

definition fence_fits :: "Limits \<Rightarrow> FenceRecord \<Rightarrow> bool" where
  "fence_fits l f \<longleftrightarrow> pid_fits l (fr_participant f) \<and> text_fits l (fr_note f)"

definition grant_fits :: "Limits \<Rightarrow> AuthorityGrant \<Rightarrow> bool" where
  "grant_fits l g \<longleftrightarrow>
     pid_fits l (ag_participant g) \<and> scope_set_fits l (ag_scopes g) \<and> text_fits l (ag_provenance g)"

definition transition_fits :: "Limits \<Rightarrow> EpochTransitionRecord \<Rightarrow> bool" where
  "transition_fits l t \<longleftrightarrow> text_fits l (tr_provenance t)"

interpretation fence_codec: canonical_codec w_fence "r_fence l" "fence_fits l" for l
proof unfold_locales
  fix f :: FenceRecord and rest bs :: "byte list"
  show "fence_fits l f \<Longrightarrow> \<not> isl (w_fence f)"
    by (auto simp: w_fence_def fence_fits_def codec_simps)
  show "fence_fits l f \<Longrightarrow> r_fence l (projr (w_fence f) @ rest) = Inr (f, rest)"
    by (auto simp: w_fence_def r_fence_def fence_fits_def codec_simps)
  show "r_fence l bs = Inr (f, rest) \<Longrightarrow> fence_fits l f \<and> bs = projr (w_fence f) @ rest"
    by (auto simp: w_fence_def r_fence_def fence_fits_def codec_simps r_bind_eq_Inr id_codec.dec_iff
        pid_codec.dec_iff u8_codec.dec_iff r_some_eq_Inr fence_reason_from_wire_Some counter_codec.dec_iff
        text_codec.dec_iff)
qed

lemma id_or_zero_length [simp]:
  "length (case i of Some j \<Rightarrow> id_bytes j | None \<Rightarrow> replicate 16 0) = 16"
  by (simp split: option.split)

interpretation grant_codec: byte_codec w_grant "r_grant l" "grant_fits l" for l
proof unfold_locales
  fix g :: AuthorityGrant and rest :: "byte list"
  show "grant_fits l g \<Longrightarrow> \<not> isl (w_grant g)"
    by (auto simp: w_grant_def grant_fits_def codec_simps)
  show "grant_fits l g \<Longrightarrow> r_grant l (projr (w_grant g) @ rest) = Inr (g, rest)"
    by (cases "ag_parent g"; cases "ag_delegator_boot g")
      (auto simp: w_grant_def r_grant_def grant_fits_def codec_simps)
qed

interpretation transition_codec: canonical_codec w_transition "r_transition l" "transition_fits l" for l
proof unfold_locales
  fix t :: EpochTransitionRecord and rest bs :: "byte list"
  show "transition_fits l t \<Longrightarrow> \<not> isl (w_transition t)"
    by (auto simp: w_transition_def transition_fits_def codec_simps)
  show "transition_fits l t \<Longrightarrow> r_transition l (projr (w_transition t) @ rest) = Inr (t, rest)"
    by (auto simp: w_transition_def r_transition_def transition_fits_def codec_simps)
  show "r_transition l bs = Inr (t, rest) \<Longrightarrow> transition_fits l t \<and> bs = projr (w_transition t) @ rest"
    by (auto simp: w_transition_def r_transition_def transition_fits_def codec_simps r_bind_eq_Inr id_codec.dec_iff
        pid_codec.dec_iff u8_codec.dec_iff r_some_eq_Inr transition_cause_from_wire_Some counter_codec.dec_iff
        text_codec.dec_iff)
qed

lemma length_w_fence: "fence_fits l f \<Longrightarrow> 49 \<le> length (projr (w_fence f))"
  using pid_valid_length [of "fr_participant f"]
  by (auto simp: w_fence_def fence_fits_def codec_simps pid_fits_def)

lemma length_w_grant: "grant_fits l g \<Longrightarrow> 89 \<le> length (projr (w_grant g))"
  by (auto simp: w_grant_def grant_fits_def codec_simps)

lemma length_w_transition:
  "transition_fits l t \<Longrightarrow>
     length (projr (w_transition t)) = 61 + length (text_value (tr_provenance t))"
  by (auto simp: w_transition_def transition_fits_def codec_simps)

section \<open>The payload\<close>

definition encode_durable_payload :: "DurableState \<Rightarrow> writer" where
  "encode_durable_payload st =
     w_seq [w_counter (st_current_epoch st), w_id (st_coordinator_boot st),
       w_counter (st_generation st), w_counter (st_registration_floor st),
       w_counter (st_fence_floor st),
       w_counted w_participant (st_participants st),
       w_counted w_fence (st_recent_fences st),
       w_counted w_grant (st_grants st),
       w_counted w_transition (st_transitions st),
       w_counted w_idempotency (st_control_attempts st)]"

definition r_durable_state :: "Limits \<Rightarrow> DurableState reader" where
  "r_durable_state limits =
     r_bind r_counter (\<lambda>current_epoch.
     r_bind r_id (\<lambda>coordinator_boot.
     r_bind r_counter (\<lambda>generation.
     r_bind r_counter (\<lambda>registration_floor.
     r_bind r_counter (\<lambda>fence_floor.
     r_bind (r_counted (max_participants limits)
       (resource_limit ''participant count exceeds limits.max_participants'')
       32 (malformed ''participant count exceeds remaining durable input'')
       (r_participant limits)) (\<lambda>participants.
     r_bind (r_counted (max_recent_fences limits)
       (resource_limit ''fence count exceeds limits.max_recent_fences'')
       49 (malformed ''fence count exceeds remaining durable input'')
       (r_fence limits)) (\<lambda>fences.
     r_bind (r_counted (max_authority_grants limits)
       (resource_limit ''grant count exceeds limits.max_authority_grants'')
       89 (malformed ''grant count exceeds remaining durable input'')
       (r_grant limits)) (\<lambda>grants.
     r_bind (r_counted (max_transition_history limits)
       (resource_limit ''transition count exceeds limits.max_transition_history'')
       65 (malformed ''transition count exceeds remaining durable input'')
       (r_transition limits)) (\<lambda>transitions.
     r_bind (r_counted (max_idempotency_records_per_participant limits)
       (resource_limit
         ''control attempt count exceeds limits.max_idempotency_records_per_participant'')
       83 (malformed ''control attempt count exceeds remaining durable input'')
       (r_idempotency
         (malformed ''unknown operation kind in durable control attempts''))) (\<lambda>control.
     r_return
       \<lparr> st_current_epoch = current_epoch, st_coordinator_boot = coordinator_boot,
         st_generation = generation, st_registration_floor = registration_floor,
         st_fence_floor = fence_floor, st_participants = participants,
         st_recent_fences = fences, st_grants = grants, st_transitions = transitions,
         st_control_attempts = control \<rparr>))))))))))"

definition decode_durable_payload :: "byte list \<Rightarrow> Limits \<Rightarrow> DurableState res" where
  "decode_durable_payload payload raw_limits =
     r_run (r_bind (r_durable_state (structural_limits raw_limits)) (\<lambda>st.
            r_bind r_require_end (\<lambda>_. r_return st))) payload"

definition records_fit :: "Limits \<Rightarrow> DurableState \<Rightarrow> bool" where
  "records_fit l st \<longleftrightarrow>
     list_all (participant_fits l) (st_participants st) \<and>
     length (st_participants st) \<le> max_participants l \<and>
     list_all (fence_fits l) (st_recent_fences st) \<and>
     length (st_recent_fences st) \<le> max_recent_fences l \<and>
     list_all (grant_fits l) (st_grants st) \<and>
     length (st_grants st) \<le> max_authority_grants l \<and>
     list_all (transition_fits l) (st_transitions st) \<and>
     length (st_transitions st) \<le> max_transition_history l \<and>
     length (st_control_attempts st) \<le> max_idempotency_records_per_participant l"

text \<open>
  The bytes the transition history and what follows it take, against the 65 bytes per transition
  the decoder asks for. A transition takes 61 bytes and its provenance.
\<close>

definition history_readable :: "DurableState \<Rightarrow> bool" where
  "history_readable st \<longleftrightarrow>
     4 * length (st_transitions st) \<le>
     sum_list (map (\<lambda>t. length (text_value (tr_provenance t))) (st_transitions st)) +
     4 + 83 * length (st_control_attempts st)"

lemma length_each_transitions:
  "\<forall>t \<in> set ts. transition_fits l t \<Longrightarrow>
     length (projr (w_each w_transition ts)) =
       61 * length ts + sum_list (map (\<lambda>t. length (text_value (tr_provenance t))) ts)"
proof (induction ts)
  case (Cons t ts)
  then show ?case
    by (simp add: transition_codec.projr_each_Cons [of l] length_w_transition [of l])
qed (simp add: w_each_def codec_simps)

lemma length_counted_idempotency:
  "length (projr (w_counted w_idempotency rs)) = 4 + 83 * length rs"
proof -
  have "length (projr (w_each w_idempotency rs)) = 83 * length rs"
    by (induction rs)
      (simp_all add: w_each_def codec_simps length_w_idempotency
        idempotency_codec.each_ok [unfolded w_each_def] idempotency_codec.enc_ok)
  then show ?thesis
    by (simp add: w_counted_def codec_simps idempotency_codec.each_ok idempotency_codec.enc_ok)
qed

lemma payload_parts_ok:
  assumes "records_fit (structural_limits l) st"
  shows "\<not> isl (w_counted w_participant (st_participants st))"
    "\<not> isl (w_counted w_fence (st_recent_fences st))" "\<not> isl (w_counted w_grant (st_grants st))"
    "\<not> isl (w_counted w_transition (st_transitions st))"
proof -
  note f = assms [unfolded records_fit_def list_all_iff]
  show "\<not> isl (w_counted w_participant (st_participants st))"
    by (rule participant_codec.counted_ok [of _ l]) (use f in blast)
  show "\<not> isl (w_counted w_fence (st_recent_fences st))"
    by (rule fence_codec.counted_ok [of _ "structural_limits l"]) (use f in blast)
  show "\<not> isl (w_counted w_grant (st_grants st))"
    by (rule grant_codec.counted_ok [of _ "structural_limits l"]) (use f in blast)
  show "\<not> isl (w_counted w_transition (st_transitions st))"
    by (rule transition_codec.counted_ok [of _ "structural_limits l"]) (use f in blast)
qed

lemma encode_durable_payload_ok:
  "records_fit (structural_limits l) st \<Longrightarrow> \<not> isl (encode_durable_payload st)"
  by (simp add: encode_durable_payload_def codec_simps payload_parts_ok)

text \<open>The decoder runs through everything before the transition history.\<close>

lemma r_durable_state_prefix:
  assumes fit: "records_fit (structural_limits l) st"
  shows "r_durable_state (structural_limits l) (projr (encode_durable_payload st)) =
    r_bind (r_counted 4194304
       (resource_limit ''transition count exceeds limits.max_transition_history'')
       65 (malformed ''transition count exceeds remaining durable input'')
       (r_transition (structural_limits l)))
     (\<lambda>transitions.
       r_bind (r_counted 4194304
         (resource_limit
           ''control attempt count exceeds limits.max_idempotency_records_per_participant'')
         83 (malformed ''control attempt count exceeds remaining durable input'')
         (r_idempotency (malformed ''unknown operation kind in durable control attempts'')))
       (\<lambda>control. r_return (st\<lparr> st_transitions := transitions, st_control_attempts := control \<rparr>)))
     (projr (w_counted w_transition (st_transitions st)) @
      projr (w_counted w_idempotency (st_control_attempts st)))"
proof -
  let ?L = "structural_limits l"
  note f = fit [unfolded records_fit_def list_all_iff]
  note oks = payload_parts_ok [OF fit]
  have p: "r_bind (r_counted 4194304 e1 32 e2 (r_participant ?L)) k
      (projr (w_counted w_participant (st_participants st)) @ r) = k (st_participants st) r"
    for e1 e2 k r
    using f participant_codec.length_each [of "st_participants st" l 32] length_w_participant
    by (intro participant_codec.bind_counted) (auto simp: trans_le_add1)
  have q: "r_bind (r_counted 4194304 e1 49 e2 (r_fence ?L)) k
      (projr (w_counted w_fence (st_recent_fences st)) @ r) = k (st_recent_fences st) r"
    for e1 e2 k r
    using f fence_codec.length_each [of "st_recent_fences st" ?L 49] length_w_fence
    by (intro fence_codec.bind_counted) (auto simp: trans_le_add1)
  have g: "r_bind (r_counted 4194304 e1 89 e2 (r_grant ?L)) k
      (projr (w_counted w_grant (st_grants st)) @ r) = k (st_grants st) r"
    for e1 e2 k r
    using f grant_codec.length_each [of "st_grants st" ?L 89] length_w_grant
    by (intro grant_codec.bind_counted) (auto simp: trans_le_add1)
  have eta: "\<lparr> st_current_epoch = st_current_epoch st, st_coordinator_boot = st_coordinator_boot st,
      st_generation = st_generation st, st_registration_floor = st_registration_floor st,
      st_fence_floor = st_fence_floor st, st_participants = st_participants st,
      st_recent_fences = st_recent_fences st, st_grants = st_grants st,
      st_transitions = ts, st_control_attempts = cs \<rparr> =
      st\<lparr> st_transitions := ts, st_control_attempts := cs \<rparr>" for ts cs
    by (cases st) simp
  show ?thesis
    by (simp add: r_durable_state_def encode_durable_payload_def codec_simps oks p q g eta)
qed

lemma r_durable_state_roundtrip:
  assumes fit: "records_fit (structural_limits l) st" and "history_readable st"
  shows "r_durable_state (structural_limits l) (projr (encode_durable_payload st)) = Inr (st, [])"
proof -
  let ?L = "structural_limits l"
  note f = fit [unfolded records_fit_def list_all_iff]
  have t: "r_bind (r_counted 4194304 e1 65 e2 (r_transition ?L)) k
      (projr (w_counted w_transition (st_transitions st)) @
       projr (w_counted w_idempotency (st_control_attempts st))) =
      k (st_transitions st) (projr (w_counted w_idempotency (st_control_attempts st)))"
    for e1 e2 k
    using f assms(2) length_each_transitions [of "st_transitions st" ?L]
    by (intro transition_codec.bind_counted)
      (auto simp: length_counted_idempotency history_readable_def)
  have c: "r_bind (r_counted 4194304 e1 83 e2 (r_idempotency e)) k
      (projr (w_counted w_idempotency (st_control_attempts st))) = k (st_control_attempts st) []"
    for e e1 e2 k
    using f bind_counted_records(3) [of "st_control_attempts st" 4194304 e1 e2 e k "[]"] by simp
  show ?thesis
    by (simp add: r_durable_state_prefix [OF fit] t c codec_simps)
qed

lemma r_durable_state_unreadable:
  assumes fit: "records_fit (structural_limits l) st" and "\<not> history_readable st"
  shows "r_durable_state (structural_limits l) (projr (encode_durable_payload st)) =
    Inl (malformed ''transition count exceeds remaining durable input'')"
proof -
  let ?L = "structural_limits l"
  note f = fit [unfolded records_fit_def list_all_iff]
  have "r_counted 4194304 e1 65 e2 (r_transition ?L)
      (projr (w_counted w_transition (st_transitions st)) @
       projr (w_counted w_idempotency (st_control_attempts st))) = Inl e2" for e1 e2
    using f assms(2) length_each_transitions [of "st_transitions st" ?L]
    by (intro transition_codec.counted_too_short)
      (auto simp: length_counted_idempotency history_readable_def)
  then show ?thesis
    by (simp add: r_durable_state_prefix [OF fit] r_bind_Inl)
qed

lemma decode_encode_durable_payload:
  "records_fit (structural_limits l) st \<Longrightarrow> history_readable st \<Longrightarrow>
     decode_durable_payload (projr (encode_durable_payload st)) l = Inr st"
  by (simp add: decode_durable_payload_def r_run_def r_bind_def r_durable_state_roundtrip
      r_require_end_iff [THEN iffD2] r_return_def)

lemma decode_unreadable_payload:
  "records_fit (structural_limits l) st \<Longrightarrow> \<not> history_readable st \<Longrightarrow>
     decode_durable_payload (projr (encode_durable_payload st)) l =
       Inl (malformed ''transition count exceeds remaining durable input'')"
  by (simp add: decode_durable_payload_def r_run_def r_bind_def r_durable_state_unreadable)

end
