(* ===== verification/Durable.thy ===== *)
theory Durable
  imports DurableCodec
begin

text \<open>
  Structural validation of a durable state (\<open>validate_durable_state\<close> of \<open>durable.cpp\<close>): it runs before
  a state is written and after one is read. The checks are modelled in the order of the code with
  the error each one throws; \<open>durable_wf\<close> says what a state that passes them all looks like, and
  \<open>validate_durable_state_iff\<close> shows the two agree. Of the hash map from worker boots to their owner
  only the keys are ever read, so the model keeps the set of keys.
\<close>

section \<open>Loops that fill a set\<close>

fun res_fold :: "('s \<Rightarrow> 'a \<Rightarrow> 's res) \<Rightarrow> 's \<Rightarrow> 'a list \<Rightarrow> 's res" where
  "res_fold f s [] = Inr s"
| "res_fold f s (x # xs) = res_bind (f s x) (\<lambda>s'. res_fold f s' xs)"

text \<open>\<open>if (!set.insert(key).second) throw e;\<close>\<close>

definition insert_new :: "EpochError \<Rightarrow> 'k \<Rightarrow> 'k set \<Rightarrow> 'k set res" where
  "insert_new e k s = (if k \<in> s then Inl e else Inr (insert k s))"

lemma insert_new_eq_Inr: "insert_new e k s = Inr t \<longleftrightarrow> k \<notin> s \<and> t = insert k s"
  by (auto simp: insert_new_def)

lemma res_fold_insert:
  assumes "\<And>s x t. f s x = Inr t \<longleftrightarrow> P x \<and> key x \<notin> s \<and> t = insert (key x) s"
  shows "res_fold f s xs = Inr t \<longleftrightarrow>
     (\<forall>x \<in> set xs. P x) \<and> distinct (map key xs) \<and> key ` set xs \<inter> s = {} \<and> t = key ` set xs \<union> s"
  by (induction xs arbitrary: s) (auto simp: res_bind_eq_Inr assms)

lemma if_eq_Inr:
  "(if c then Inl e else r) = Inr x \<longleftrightarrow> \<not> c \<and> r = Inr x"
  by simp

section \<open>Participant records\<close>

definition check_active :: "DurableParticipant \<Rightarrow> string set \<Rightarrow> string set res" where
  "check_active p owners =
     (if id_is_nil (dp_active_boot p)
      then Inl (corrupt ''durable participant declares a nil active worker boot'')
      else if dp_next_incarnation p \<le> dp_active_incarnation p
      then Inl (corrupt ''durable active incarnation was never issued by the incarnation allocator'')
      else if dp_retired p
      then Inl (corrupt ''durable participant is retired while still declaring an active incarnation'')
      else insert_new
        (corrupt ''durable image binds one worker boot to more than one participant'')
        (id_to_string (dp_active_boot p)) owners)"

definition check_fenced_boot :: "DurableParticipant \<Rightarrow> WorkerBootId \<Rightarrow> unit res" where
  "check_fenced_boot p fenced =
     (if dp_has_active_boot p \<and> fenced = dp_active_boot p
      then Inl (corrupt ''durable participant lists its active worker boot as fenced'')
      else res_for_each (\<lambda>i. throw_if (fenced = ai_boot i)
        (corrupt ''durable participant lists a current worker boot as fenced''))
        (dp_extra_incarnations p))"

definition check_extra :: "DurableParticipant \<Rightarrow> string set \<Rightarrow> nat \<times> ActiveIncarnation \<Rightarrow> string set res"
where
  "check_extra p owners = (\<lambda>(n, i).
     if id_is_nil (ai_boot i)
     then Inl (corrupt ''durable participant declares a nil worker boot'')
     else if ai_boot i = dp_active_boot p
     then Inl (corrupt
       ''durable participant lists one worker boot twice as a current incarnation'')
     else if list_ex (\<lambda>(m, other). m \<noteq> n \<and> ai_boot other = ai_boot i)
       (enumerate 0 (dp_extra_incarnations p))
     then Inl (corrupt
       ''durable participant lists one worker boot twice as a current incarnation'')
     else if dp_next_incarnation p \<le> ai_sequence i
     then Inl (corrupt
       ''durable participant incarnation allocator does not exceed an issued incarnation'')
     else insert_new
       (corrupt ''durable image binds one worker boot to more than one participant'')
       (id_to_string (ai_boot i)) owners)"

definition check_retained_boot :: "string set \<Rightarrow> WorkerBootId \<Rightarrow> string set res" where
  "check_retained_boot seen boot =
     (if id_is_nil boot
      then Inl (corrupt ''durable participant retains a nil fenced worker boot'')
      else insert_new (corrupt ''durable participant retains a duplicate fenced worker boot'')
        (id_to_string boot) seen)"

definition check_attempt :: "string set \<Rightarrow> IdempotencyRecord \<Rightarrow> string set res" where
  "check_attempt seen r =
     (if id_is_nil (ir_attempt r)
      then Inl (corrupt ''durable idempotency record has a nil attempt identifier'')
      else insert_new (corrupt ''durable participant retains a duplicate attempt identifier'')
        (id_to_string (ir_attempt r)) seen)"

definition check_participant ::
  "DurableState \<Rightarrow> string set \<times> string set \<Rightarrow> DurableParticipant \<Rightarrow> (string set \<times> string set) res"
where
  "check_participant st = (\<lambda>(ids, owners) p.
     if pid_empty (dp_id p)
     then Inl (corrupt ''durable participant record has an empty identifier'')
     else res_bind (insert_new
       (corrupt ''durable image contains a duplicate participant record'')
       (pid_value (dp_id p)) ids) (\<lambda>ids'.
     if st_registration_floor st < dp_registration_generation p
     then Inl (corrupt
       ''participant registration generation exceeds the durable registration floor'')
     else if st_fence_floor st < dp_fence_generation p
     then Inl (corrupt ''participant fence generation exceeds the durable fence floor'')
     else res_bind (if dp_has_active_boot p then check_active p owners else Inr owners) (\<lambda>owners1.
     if dp_retired p \<and> dp_has_active_boot p
     then Inl (corrupt ''durable participant is retired while still declaring an active incarnation'')
     else if dp_next_incarnation p \<le> dp_incarnation_floor p
     then Inl (corrupt
       ''durable participant incarnation allocator is not above the fencing floor'')
     else res_bind (res_for_each (check_fenced_boot p) (dp_fenced_boots p)) (\<lambda>_.
     if dp_has_active_boot p \<and> dp_next_incarnation p \<le> dp_active_incarnation p
     then Inl (corrupt
       ''durable participant incarnation allocator does not exceed the active incarnation'')
     else if kAbsoluteMaxRecords <
       length (dp_extra_incarnations p) + (if dp_has_active_boot p then 1 else 0)
     then Inl (resource_limit
       ''durable participant active incarnation count exceeds the structural ceiling'')
     else res_bind (res_fold (check_extra p) owners1 (enumerate 0 (dp_extra_incarnations p)))
       (\<lambda>owners2.
     if kAbsoluteMaxRecords < length (dp_idempotency p)
     then Inl (resource_limit
       ''durable idempotency record count exceeds the structural ceiling'')
     else if kAbsoluteMaxRecords < length (dp_fenced_boots p)
     then Inl (resource_limit ''durable fenced boot count exceeds the structural ceiling'')
     else res_bind (res_fold check_retained_boot {} (dp_fenced_boots p)) (\<lambda>_.
     res_bind (res_fold check_attempt {} (dp_idempotency p)) (\<lambda>_.
     Inr (ids', owners2))))))))"

definition max_value_of :: "(DurableParticipant \<Rightarrow> 'tag MonotonicCounter) \<Rightarrow> DurableParticipant list \<Rightarrow> u64"
where
  "max_value_of f ps = foldl (\<lambda>a p. max a (counter_value (f p))) 0 ps"

section \<open>Fences, grants, attempts and transitions\<close>

definition check_transition_epochs :: "DurableState \<Rightarrow> EpochTransitionRecord \<Rightarrow> unit res" where
  "check_transition_epochs st t =
     (if st_current_epoch st < tr_to_epoch t
      then Inl (corrupt
        ''durable image current epoch is lower than a recorded transition target epoch'')
      else if tr_to_epoch t \<le> tr_from_epoch t
      then Inl (corrupt ''durable image records a non-advancing epoch transition'')
      else Inr ())"

definition fence_key :: "ParticipantId \<Rightarrow> WorkerBootId \<Rightarrow> string" where
  "fence_key participant boot = pid_value participant @ ''|'' @ id_to_string boot"

definition check_fence :: "DurableState \<Rightarrow> string set \<Rightarrow> FenceRecord \<Rightarrow> string set res" where
  "check_fence st seen f =
     (if id_is_nil (fr_boot f) then Inl (corrupt ''durable fence record has a nil worker boot'')
      else if st_fence_floor st < fr_generation f
      then Inl (corrupt ''durable fence record generation exceeds the durable fence floor'')
      else if st_current_epoch st < fr_epoch f
      then Inl (corrupt ''durable fence record epoch is newer than the current epoch'')
      else insert_new
        (corrupt ''durable image retains a duplicate fence record for one participant and boot'')
        (fence_key (fr_participant f) (fr_boot f)) seen)"

definition check_grant :: "DurableState \<Rightarrow> string set \<Rightarrow> AuthorityGrant \<Rightarrow> string set res" where
  "check_grant st seen g =
     (if id_is_nil (ag_id g) then Inl (corrupt ''durable grant has a nil identifier'')
      else res_bind (insert_new (corrupt ''durable image contains a duplicate grant identifier'')
        (id_to_string (ag_id g)) seen) (\<lambda>seen'.
      if st_current_epoch st < ag_epoch g
      then Inl (corrupt ''durable grant is bound to an epoch newer than the current epoch'')
      else if scope_set_empty (ag_scopes g)
      then Inl (corrupt ''durable grant carries an empty scope set'')
      else if kAbsoluteMaxScopesPerSet < scope_set_size (ag_scopes g)
      then Inl (resource_limit ''durable grant scope count exceeds the structural ceiling'')
      else if ag_revoked g \<and> st_current_epoch st < ag_revoked_at_epoch g
      then Inl (corrupt ''durable grant revocation epoch is newer than the current epoch'')
      else if id_is_nil (ag_boot g) \<and> \<not> ag_revoked g
      then Inl (corrupt ''durable live grant is bound to a nil worker boot'')
      else Inr seen'))"

definition check_grant_parent :: "string set \<Rightarrow> AuthorityGrant \<Rightarrow> unit res" where
  "check_grant_parent grant_ids g =
     (case ag_parent g of
        None \<Rightarrow> Inr ()
      | Some parent \<Rightarrow>
          if id_to_string parent \<notin> grant_ids
          then Inl (corrupt
            ''durable delegated grant references a parent grant that is not present'')
          else if parent = ag_id g
          then Inl (corrupt ''durable grant is its own delegation parent'')
          else Inr ())"

definition check_control :: "string set \<Rightarrow> IdempotencyRecord \<Rightarrow> string set res" where
  "check_control seen r =
     (if id_is_nil (ir_attempt r)
      then Inl (corrupt ''durable control attempt has a nil attempt identifier'')
      else if ir_operation r \<noteq> OperationKind.AdvanceEpoch \<and>
              ir_operation r \<noteq> OperationKind.RevokeAuthority
      then Inl (corrupt
        ''durable control attempt records an operation that is not control-plane'')
      else insert_new
        (corrupt ''durable image retains a duplicate control attempt identifier'')
        (id_to_string (ir_attempt r)) seen)"

definition check_transition_id :: "string set \<Rightarrow> EpochTransitionRecord \<Rightarrow> string set res" where
  "check_transition_id seen t =
     (if id_is_nil (tr_id t) then Inl (corrupt ''durable transition record has a nil identifier'')
      else insert_new (corrupt ''durable image contains a duplicate transition identifier'')
        (id_to_string (tr_id t)) seen)"

section \<open>The whole state\<close>

definition check_ceilings :: "DurableState \<Rightarrow> unit res" where
  "check_ceilings st =
     (if kAbsoluteMaxRecords < length (st_participants st)
      then Inl (resource_limit ''durable participant count exceeds the structural ceiling'')
      else if kAbsoluteMaxRecords < length (st_recent_fences st)
      then Inl (resource_limit ''durable fence count exceeds the structural ceiling'')
      else if kAbsoluteMaxRecords < length (st_grants st)
      then Inl (resource_limit ''durable grant count exceeds the structural ceiling'')
      else if kAbsoluteMaxRecords < length (st_transitions st)
      then Inl (resource_limit ''durable transition count exceeds the structural ceiling'')
      else Inr ())"

definition check_established :: "DurableState \<Rightarrow> unit res" where
  "check_established st =
     res_bind (res_for_each (check_transition_epochs st) (st_transitions st)) (\<lambda>_.
     if unat (counter_value (st_generation st)) < length (st_transitions st)
     then Inl (corrupt ''durable generation is lower than the number of committed transitions'')
     else res_bind (res_fold (check_participant st) ({}, {}) (st_participants st)) (\<lambda>_.
     if counter_value (st_registration_floor st) <
       max_value_of dp_registration_generation (st_participants st)
     then Inl (corrupt
       ''registration floor is lower than a participant registration generation'')
     else if counter_value (st_fence_floor st) <
       max_value_of dp_fence_generation (st_participants st)
     then Inl (corrupt ''fence floor is lower than a participant fence generation'')
     else res_bind (res_fold (check_fence st) {} (st_recent_fences st)) (\<lambda>_.
     res_bind (res_fold (check_grant st) {} (st_grants st)) (\<lambda>grant_ids.
     res_bind (res_for_each (check_grant_parent grant_ids) (st_grants st)) (\<lambda>_.
     if kAbsoluteMaxRecords < length (st_control_attempts st)
     then Inl (resource_limit ''durable control attempt count exceeds the structural ceiling'')
     else res_bind (res_fold check_control {} (st_control_attempts st)) (\<lambda>_.
     res_bind (res_fold check_transition_id {} (st_transitions st)) (\<lambda>_. Inr ())))))))"

definition is_pristine :: "DurableState \<Rightarrow> bool" where
  "is_pristine st \<longleftrightarrow>
     \<not> (st_participants st \<noteq> [] \<or> st_grants st \<noteq> [] \<or> st_recent_fences st \<noteq> [] \<or>
        st_transitions st \<noteq> [] \<or> \<not> id_is_nil (st_coordinator_boot st) \<or>
        \<not> counter_is_zero (st_generation st) \<or> \<not> counter_is_zero (st_registration_floor st) \<or>
        \<not> counter_is_zero (st_fence_floor st))"

definition validate_durable_state :: "DurableState \<Rightarrow> unit res" where
  "validate_durable_state st =
     res_bind (check_ceilings st) (\<lambda>_.
     if counter_is_zero (st_current_epoch st)
     then (if is_pristine st then Inr ()
           else Inl (corrupt
             ''durable image declares an unestablished epoch while carrying authority state''))
     else check_established st)"

section \<open>What validation establishes\<close>

definition participant_boots :: "DurableParticipant \<Rightarrow> WorkerBootId list" where
  "participant_boots p =
     (if dp_has_active_boot p then [dp_active_boot p] else []) @
     map ai_boot (dp_extra_incarnations p)"

definition participant_wf :: "DurableState \<Rightarrow> DurableParticipant \<Rightarrow> bool" where
  "participant_wf st p \<longleftrightarrow>
     \<not> pid_empty (dp_id p) \<and>
     dp_registration_generation p \<le> st_registration_floor st \<and>
     dp_fence_generation p \<le> st_fence_floor st \<and>
     (dp_has_active_boot p \<longrightarrow> dp_active_incarnation p < dp_next_incarnation p \<and> \<not> dp_retired p) \<and>
     dp_incarnation_floor p < dp_next_incarnation p \<and>
     (\<forall>i \<in> set (dp_extra_incarnations p).
        ai_sequence i < dp_next_incarnation p \<and> ai_boot i \<noteq> dp_active_boot p) \<and>
     distinct (participant_boots p) \<and> id_nil \<notin> set (participant_boots p) \<and>
     set (participant_boots p) \<inter> set (dp_fenced_boots p) = {} \<and>
     length (participant_boots p) \<le> kAbsoluteMaxRecords \<and>
     length (dp_idempotency p) \<le> kAbsoluteMaxRecords \<and>
     length (dp_fenced_boots p) \<le> kAbsoluteMaxRecords \<and>
     distinct (dp_fenced_boots p) \<and> id_nil \<notin> set (dp_fenced_boots p) \<and>
     distinct (map ir_attempt (dp_idempotency p)) \<and>
     id_nil \<notin> ir_attempt ` set (dp_idempotency p)"

definition grant_wf :: "DurableState \<Rightarrow> AuthorityGrant \<Rightarrow> bool" where
  "grant_wf st g \<longleftrightarrow>
     ag_id g \<noteq> id_nil \<and> ag_epoch g \<le> st_current_epoch st \<and> scopes (ag_scopes g) \<noteq> [] \<and>
     length (scopes (ag_scopes g)) \<le> kAbsoluteMaxScopesPerSet \<and>
     (ag_revoked g \<longrightarrow> ag_revoked_at_epoch g \<le> st_current_epoch st) \<and>
     (\<not> ag_revoked g \<longrightarrow> ag_boot g \<noteq> id_nil) \<and>
     (\<forall>q. ag_parent g = Some q \<longrightarrow> q \<noteq> ag_id g \<and> q \<in> ag_id ` set (st_grants st))"

definition durable_wf :: "DurableState \<Rightarrow> bool" where
  "durable_wf st \<longleftrightarrow>
     (\<forall>t \<in> set (st_transitions st).
        tr_to_epoch t \<le> st_current_epoch st \<and> tr_from_epoch t < tr_to_epoch t \<and> tr_id t \<noteq> id_nil) \<and>
     distinct (map tr_id (st_transitions st)) \<and>
     length (st_transitions st) \<le> counter_nat (st_generation st) \<and>
     (\<forall>p \<in> set (st_participants st). participant_wf st p) \<and>
     distinct (map dp_id (st_participants st)) \<and>
     distinct (concat (map participant_boots (st_participants st))) \<and>
     (\<forall>f \<in> set (st_recent_fences st).
        fr_boot f \<noteq> id_nil \<and> fr_generation f \<le> st_fence_floor st \<and>
        fr_epoch f \<le> st_current_epoch st) \<and>
     distinct (map (\<lambda>f. (fr_participant f, fr_boot f)) (st_recent_fences st)) \<and>
     (\<forall>g \<in> set (st_grants st). grant_wf st g) \<and>
     distinct (map ag_id (st_grants st)) \<and>
     (\<forall>r \<in> set (st_control_attempts st).
        ir_attempt r \<noteq> id_nil \<and>
        ir_operation r \<in> {OperationKind.AdvanceEpoch, OperationKind.RevokeAuthority}) \<and>
     distinct (map ir_attempt (st_control_attempts st))"

definition within_ceilings :: "DurableState \<Rightarrow> bool" where
  "within_ceilings st \<longleftrightarrow>
     length (st_participants st) \<le> kAbsoluteMaxRecords \<and>
     length (st_recent_fences st) \<le> kAbsoluteMaxRecords \<and>
     length (st_grants st) \<le> kAbsoluteMaxRecords \<and>
     length (st_transitions st) \<le> kAbsoluteMaxRecords"

section \<open>Validation and its specification agree\<close>

lemma id_to_string_image [simp]: "id_to_string i \<in> id_to_string ` A \<longleftrightarrow> i \<in> A"
  by auto

lemma distinct_map_id_to_string [simp]:
  "distinct (map (\<lambda>x. id_to_string (f x)) xs) = distinct (map f xs)"
  by (auto simp: distinct_map inj_on_def)

lemma nil_image: "(\<forall>x \<in> set xs. \<not> id_is_nil (f x)) \<longleftrightarrow> id_nil \<notin> f ` set xs"
  by (force simp: id_is_nil_iff)

lemma ball_enumerate:
  "(\<forall>x \<in> set (enumerate 0 xs). P x) \<longleftrightarrow> (\<forall>i < length xs. P (i, xs ! i))"
  by (force simp: in_set_enumerate_eq)

lemma bex_enumerate:
  "(\<exists>x \<in> set (enumerate 0 xs). P x) \<longleftrightarrow> (\<exists>i < length xs. P (i, xs ! i))"
  by (force simp: in_set_enumerate_eq)

lemma check_fenced_boots_iff:
  "(\<forall>b \<in> set (dp_fenced_boots p). check_fenced_boot p b = Inr ()) \<longleftrightarrow>
     set (participant_boots p) \<inter> set (dp_fenced_boots p) = {}"
  by (auto simp: check_fenced_boot_def participant_boots_def split: if_splits)

lemma twice_iff:
  "(\<forall>(n, i) \<in> set (enumerate 0 xs).
      \<not> list_ex (\<lambda>(m, other). m \<noteq> n \<and> ai_boot other = ai_boot i) (enumerate 0 xs)) \<longleftrightarrow>
    distinct (map ai_boot xs)"
  by (simp add: ball_enumerate list_ex_iff distinct_conv_nth
      bex_enumerate) blast

lemma check_extras_iff:
  "res_fold (check_extra p) S (enumerate 0 (dp_extra_incarnations p)) = Inr T \<longleftrightarrow>
     distinct (map ai_boot (dp_extra_incarnations p)) \<and>
     id_nil \<notin> ai_boot ` set (dp_extra_incarnations p) \<and>
     (\<forall>i \<in> set (dp_extra_incarnations p).
        ai_boot i \<noteq> dp_active_boot p \<and> ai_sequence i < dp_next_incarnation p) \<and>
     id_to_string ` ai_boot ` set (dp_extra_incarnations p) \<inter> S = {} \<and>
     T = id_to_string ` ai_boot ` set (dp_extra_incarnations p) \<union> S"
proof -
  let ?xs = "dp_extra_incarnations p"
  let ?P = "\<lambda>(n, i). \<not> id_is_nil (ai_boot i) \<and> ai_boot i \<noteq> dp_active_boot p \<and>
    \<not> list_ex (\<lambda>(m, other). m \<noteq> n \<and> ai_boot other = ai_boot i) (enumerate 0 ?xs) \<and>
    ai_sequence i < dp_next_incarnation p"
  let ?key = "\<lambda>ni. id_to_string (ai_boot (snd ni))"
  have "res_fold (check_extra p) S (enumerate 0 ?xs) = Inr T \<longleftrightarrow>
      (\<forall>x \<in> set (enumerate 0 ?xs). ?P x) \<and> distinct (map ?key (enumerate 0 ?xs)) \<and>
      ?key ` set (enumerate 0 ?xs) \<inter> S = {} \<and> T = ?key ` set (enumerate 0 ?xs) \<union> S"
    by (rule res_fold_insert)
      (auto simp: check_extra_def insert_new_eq_Inr not_le split: if_splits prod.splits)
  moreover have "map ?key (enumerate 0 ?xs) = map (\<lambda>i. id_to_string (ai_boot i)) ?xs"
    by (metis (mono_tags, lifting) map_map comp_apply map_snd_enumerate map_cong)
  moreover from this have "?key ` set (enumerate 0 ?xs) = id_to_string ` ai_boot ` set ?xs"
    by (metis image_image image_set)
  moreover have "(\<forall>x \<in> set (enumerate 0 ?xs). ?P x) \<longleftrightarrow>
      (\<forall>i \<in> set ?xs. \<not> id_is_nil (ai_boot i)) \<and> (\<forall>i \<in> set ?xs. ai_boot i \<noteq> dp_active_boot p \<and>
        ai_sequence i < dp_next_incarnation p) \<and> distinct (map ai_boot ?xs)"
    unfolding twice_iff [symmetric]
    unfolding ball_enumerate unfolding all_set_conv_all_nth by (auto simp: id_is_nil_iff)
  ultimately show ?thesis unfolding nil_image by auto
qed

lemma check_retained_iff:
  "res_fold check_retained_boot {} bs = Inr T \<longleftrightarrow>
     distinct bs \<and> id_nil \<notin> set bs \<and> T = id_to_string ` set bs"
  by (subst res_fold_insert [where P = "\<lambda>b. \<not> id_is_nil b" and key = id_to_string])
    (auto simp: check_retained_boot_def insert_new_eq_Inr id_is_nil_iff distinct_map inj_on_def)

lemma check_attempts_iff:
  "res_fold check_attempt {} rs = Inr T \<longleftrightarrow>
     distinct (map ir_attempt rs) \<and> id_nil \<notin> ir_attempt ` set rs \<and>
     T = id_to_string ` ir_attempt ` set rs"
  unfolding nil_image [symmetric]
  by (subst res_fold_insert [where P = "\<lambda>r. \<not> id_is_nil (ir_attempt r)"
        and key = "\<lambda>r. id_to_string (ir_attempt r)"])
    (auto simp: check_attempt_def insert_new_eq_Inr image_image)

lemma check_participant_iff:
  "check_participant st (ids, owners) p = Inr z \<longleftrightarrow>
     participant_wf st p \<and> pid_value (dp_id p) \<notin> ids \<and>
     id_to_string ` set (participant_boots p) \<inter> owners = {} \<and>
     z = (insert (pid_value (dp_id p)) ids, id_to_string ` set (participant_boots p) \<union> owners)"
proof -
  have loop: "res_for_each (check_fenced_boot p) (dp_fenced_boots p) = Inr u \<longleftrightarrow>
      set (participant_boots p) \<inter> set (dp_fenced_boots p) = {}" for u
    by (simp add: check_fenced_boots_iff)
  show ?thesis
    by (cases "dp_has_active_boot p"; cases z)
      (auto simp: check_participant_def res_bind_eq_Inr insert_new_eq_Inr loop check_extras_iff
        check_retained_iff check_attempts_iff check_active_def not_less not_le
        check_fenced_boots_iff participant_wf_def participant_boots_def id_is_nil_iff
        simp del: res_for_each_eq_Inr)
qed

lemma check_participants_iff:
  "(\<exists>z. res_fold (check_participant st) (ids, owners) ps = Inr z) \<longleftrightarrow>
     (\<forall>p \<in> set ps. participant_wf st p) \<and> distinct (map dp_id ps) \<and>
     pid_value ` dp_id ` set ps \<inter> ids = {} \<and>
     distinct (concat (map participant_boots ps)) \<and>
     id_to_string ` set (concat (map participant_boots ps)) \<inter> owners = {}"
proof (induction ps arbitrary: ids owners)
  case (Cons p ps)
  have split: "(\<exists>z. res_fold (check_participant st) (ids, owners) (p # ps) = Inr z) \<longleftrightarrow>
      participant_wf st p \<and> pid_value (dp_id p) \<notin> ids \<and>
      id_to_string ` set (participant_boots p) \<inter> owners = {} \<and>
      (\<exists>z. res_fold (check_participant st)
         (insert (pid_value (dp_id p)) ids, id_to_string ` set (participant_boots p) \<union> owners) ps =
           Inr z)"
    by (auto simp: res_bind_eq_Inr check_participant_iff)
  have wf: "participant_wf st p \<Longrightarrow> distinct (participant_boots p)"
    by (simp add: participant_wf_def)
  have disj: "id_to_string ` A \<inter> (id_to_string ` B \<union> C) = {} \<longleftrightarrow>
      A \<inter> B = {} \<and> id_to_string ` A \<inter> C = {}" for A B :: "WorkerBootId set" and C
    by auto
  have ids: "pid_value ` A \<inter> insert (pid_value q) C = {} \<longleftrightarrow> q \<notin> A \<and> pid_value ` A \<inter> C = {}"
    for A q C
    by auto
  have un: "id_to_string ` (A \<union> B) \<inter> C = {} \<longleftrightarrow> id_to_string ` A \<inter> C = {} \<and> id_to_string ` B \<inter> C = {}"
    for A B :: "WorkerBootId set" and C
    by auto
  show ?case
    unfolding split Cons.IH disj ids list.map concat.simps set_append un distinct_append
    using wf by (auto simp del: set_concat)
qed simp

lemma fence_key_inject [simp]: "fence_key p b = fence_key q c \<longleftrightarrow> p = q \<and> b = c"
proof -
  have "length (id_to_string i) = 32" for i :: WorkerBootId
    by (simp add: id_to_string_def)
  then show ?thesis
    by (auto simp: fence_key_def)
qed

lemma check_fences_iff:
  "(\<exists>z. res_fold (check_fence st) {} fs = Inr z) \<longleftrightarrow>
     (\<forall>f \<in> set fs. fr_boot f \<noteq> id_nil \<and> fr_generation f \<le> st_fence_floor st \<and>
        fr_epoch f \<le> st_current_epoch st) \<and>
     distinct (map (\<lambda>f. (fr_participant f, fr_boot f)) fs)"
  by (subst res_fold_insert [where P = "\<lambda>f. fr_boot f \<noteq> id_nil \<and> fr_generation f \<le> st_fence_floor st \<and>
        fr_epoch f \<le> st_current_epoch st" and key = "\<lambda>f. fence_key (fr_participant f) (fr_boot f)"])
    (auto simp: check_fence_def insert_new_eq_Inr id_is_nil_iff not_less distinct_map inj_on_def)

lemma check_grants_iff:
  "res_fold (check_grant st) {} gs = Inr z \<longleftrightarrow>
     (\<forall>g \<in> set gs. ag_id g \<noteq> id_nil \<and> ag_epoch g \<le> st_current_epoch st \<and>
        scopes (ag_scopes g) \<noteq> [] \<and> length (scopes (ag_scopes g)) \<le> kAbsoluteMaxScopesPerSet \<and>
        (ag_revoked g \<longrightarrow> ag_revoked_at_epoch g \<le> st_current_epoch st) \<and>
        (\<not> ag_revoked g \<longrightarrow> ag_boot g \<noteq> id_nil)) \<and>
     distinct (map ag_id gs) \<and> z = id_to_string ` ag_id ` set gs"
  by (subst res_fold_insert [where P = "\<lambda>g. ag_id g \<noteq> id_nil \<and> ag_epoch g \<le> st_current_epoch st \<and>
        scopes (ag_scopes g) \<noteq> [] \<and> length (scopes (ag_scopes g)) \<le> kAbsoluteMaxScopesPerSet \<and>
        (ag_revoked g \<longrightarrow> ag_revoked_at_epoch g \<le> st_current_epoch st) \<and>
        (\<not> ag_revoked g \<longrightarrow> ag_boot g \<noteq> id_nil)" and key = "\<lambda>g. id_to_string (ag_id g)"])
    (auto simp: check_grant_def res_bind_eq_Inr insert_new_eq_Inr id_is_nil_iff not_less image_image
      scope_set_empty_def scope_set_size_def)

lemma check_grant_parents_iff:
  "(\<forall>g \<in> set gs. check_grant_parent (id_to_string ` A) g = Inr ()) \<longleftrightarrow>
     (\<forall>g \<in> set gs. \<forall>q. ag_parent g = Some q \<longrightarrow> q \<noteq> ag_id g \<and> q \<in> A)"
  by (auto simp: check_grant_parent_def split: option.splits)

lemma check_controls_iff:
  "(\<exists>z. res_fold check_control {} rs = Inr z) \<longleftrightarrow>
     (\<forall>r \<in> set rs. ir_attempt r \<noteq> id_nil \<and>
        ir_operation r \<in> {OperationKind.AdvanceEpoch, OperationKind.RevokeAuthority}) \<and>
     distinct (map ir_attempt rs)"
  by (subst res_fold_insert [where P = "\<lambda>r. ir_attempt r \<noteq> id_nil \<and>
        ir_operation r \<in> {OperationKind.AdvanceEpoch, OperationKind.RevokeAuthority}"
        and key = "\<lambda>r. id_to_string (ir_attempt r)"])
    (auto simp: check_control_def insert_new_eq_Inr id_is_nil_iff)

lemma check_transition_ids_iff:
  "(\<exists>z. res_fold check_transition_id {} ts = Inr z) \<longleftrightarrow>
     (\<forall>t \<in> set ts. tr_id t \<noteq> id_nil) \<and> distinct (map tr_id ts)"
  by (subst res_fold_insert [where P = "\<lambda>t. tr_id t \<noteq> id_nil"
        and key = "\<lambda>t. id_to_string (tr_id t)"])
    (auto simp: check_transition_id_def insert_new_eq_Inr id_is_nil_iff)

lemma max_value_of_le:
  "(\<forall>p \<in> set ps. counter_value (f p) \<le> n) \<Longrightarrow> max_value_of f ps \<le> n"
proof -
  have "(\<forall>p \<in> set ps. counter_value (f p) \<le> n) \<Longrightarrow> a \<le> n \<Longrightarrow>
      foldl (\<lambda>a p. max a (counter_value (f p))) a ps \<le> n" for a
    by (induction ps arbitrary: a) auto
  then show "(\<forall>p \<in> set ps. counter_value (f p) \<le> n) \<Longrightarrow> ?thesis"
    by (simp add: max_value_of_def)
qed

lemma established_iff:
  "check_established st = Inr () \<longleftrightarrow>
     length (st_control_attempts st) \<le> kAbsoluteMaxRecords \<and> durable_wf st"
proof -
  have floors: "max_value_of dp_registration_generation (st_participants st) \<le>
        counter_value (st_registration_floor st)"
      "max_value_of dp_fence_generation (st_participants st) \<le> counter_value (st_fence_floor st)"
    if "\<forall>p \<in> set (st_participants st). participant_wf st p"
    using that
    by (auto intro!: max_value_of_le simp: participant_wf_def less_eq_MonotonicCounter_def)
  have parts: "(\<exists>z. res_fold (check_participant st) ({}, {}) (st_participants st) = Inr z) \<longleftrightarrow>
      (\<forall>p \<in> set (st_participants st). participant_wf st p) \<and>
      distinct (map dp_id (st_participants st)) \<and>
      distinct (concat (map participant_boots (st_participants st)))"
    unfolding check_participants_iff by simp
  have epochs: "(\<forall>t \<in> set (st_transitions st). check_transition_epochs st t = Inr ()) \<longleftrightarrow>
      (\<forall>t \<in> set (st_transitions st).
         tr_to_epoch t \<le> st_current_epoch st \<and> tr_from_epoch t < tr_to_epoch t)"
    by (rule ball_cong) (auto simp: check_transition_epochs_def)
  show ?thesis
  proof
    assume "check_established st = Inr ()"
    then show "length (st_control_attempts st) \<le> kAbsoluteMaxRecords \<and> durable_wf st"
      using parts check_fences_iff [of st "st_recent_fences st"]
        check_controls_iff [of "st_control_attempts st"]
        check_transition_ids_iff [of "st_transitions st"]
      by (auto simp: check_established_def res_bind_eq_Inr epochs check_grants_iff
          check_grant_parents_iff durable_wf_def grant_wf_def counter_nat_def split: if_splits)
  next
    assume wf: "length (st_control_attempts st) \<le> kAbsoluteMaxRecords \<and> durable_wf st"
    then obtain z1 z2 z3 z4 where "res_fold (check_participant st) ({}, {}) (st_participants st) = Inr z1"
      "res_fold (check_fence st) {} (st_recent_fences st) = Inr z2"
      "res_fold check_control {} (st_control_attempts st) = Inr z3"
      "res_fold check_transition_id {} (st_transitions st) = Inr z4"
      using parts check_fences_iff [of st "st_recent_fences st"]
        check_controls_iff [of "st_control_attempts st"]
        check_transition_ids_iff [of "st_transitions st"]
      unfolding durable_wf_def by auto
    then show "check_established st = Inr ()"
      using wf floors
      by (auto simp: check_established_def res_bind_eq_Inr epochs check_grants_iff
          check_grant_parents_iff durable_wf_def grant_wf_def counter_nat_def not_less)
  qed
qed

lemma check_ceilings_iff: "check_ceilings st = Inr u \<longleftrightarrow> within_ceilings st"
  by (auto simp: check_ceilings_def within_ceilings_def)

lemma validate_durable_state_iff:
  "validate_durable_state st = Inr () \<longleftrightarrow>
     within_ceilings st \<and>
     (if counter_is_zero (st_current_epoch st) then is_pristine st
      else length (st_control_attempts st) \<le> kAbsoluteMaxRecords \<and> durable_wf st)"
  by (auto simp: validate_durable_state_def res_bind_eq_Inr check_ceilings_iff established_iff)

end
