(* ===== verification/Sha256.thy ===== *)
theory Sha256
  imports Encoding "HOL-Library.While_Combinator"
begin

text \<open>
  The hash behind every digest and image checksum (\<open>detail/sha256.hpp\<close>, \<open>sha256.cpp\<close>). The model
  keeps of the staging buffer the \<open>buffer_size_\<close> bytes that are in use. The reference definition
  \<open>sha256_spec\<close> pads the whole message and folds the compression function over its 64-byte blocks;
  the lemmas show that the incremental code computes it whatever the pieces it is fed.
\<close>

section \<open>The compression function\<close>

text \<open>The constants of the source, in decimal.\<close>

definition kRoundConstants :: "u32 list" where
  "kRoundConstants =
     [1116352408, 1899447441, 3049323471, 3921009573, 961987163, 1508970993, 2453635748, 2870763221,
      3624381080, 310598401, 607225278, 1426881987, 1925078388, 2162078206, 2614888103, 3248222580,
      3835390401, 4022224774, 264347078, 604807628, 770255983, 1249150122, 1555081692, 1996064986,
      2554220882, 2821834349, 2952996808, 3210313671, 3336571891, 3584528711, 113926993, 338241895,
      666307205, 773529912, 1294757372, 1396182291, 1695183700, 1986661051, 2177026350, 2456956037,
      2730485921, 2820302411, 3259730800, 3345764771, 3516065817, 3600352804, 4094571909, 275423344,
      430227734, 506948616, 659060556, 883997877, 958139571, 1322822218, 1537002063, 1747873779,
      1955562222, 2024104815, 2227730452, 2361852424, 2428436474, 2756734187, 3204031479, 3329325298]"

definition rotr :: "u32 \<Rightarrow> nat \<Rightarrow> u32" where
  "rotr v count = drop_bit count v OR push_bit (32 - count) v"

definition byte_at :: "byte list \<Rightarrow> nat \<Rightarrow> u32" where
  "byte_at block index = ucast (block ! index)"

definition schedule_head :: "byte list \<Rightarrow> u32 list" where
  "schedule_head block =
     map (\<lambda>i. push_bit 24 (byte_at block (i * 4)) OR push_bit 16 (byte_at block (i * 4 + 1)) OR
              push_bit 8 (byte_at block (i * 4 + 2)) OR byte_at block (i * 4 + 3)) [0..<16]"

definition schedule_step :: "u32 list \<Rightarrow> nat \<Rightarrow> u32 list" where
  "schedule_step w i =
     (let s0 = rotr (w ! (i - 15)) 7 XOR rotr (w ! (i - 15)) 18 XOR drop_bit 3 (w ! (i - 15));
          s1 = rotr (w ! (i - 2)) 17 XOR rotr (w ! (i - 2)) 19 XOR drop_bit 10 (w ! (i - 2))
      in w @ [w ! (i - 16) + s0 + w ! (i - 7) + s1])"

definition schedule :: "byte list \<Rightarrow> u32 list" where
  "schedule block = foldl schedule_step (schedule_head block) [16..<64]"

type_synonym working = "u32 \<times> u32 \<times> u32 \<times> u32 \<times> u32 \<times> u32 \<times> u32 \<times> u32"

definition sha_round :: "u32 list \<Rightarrow> working \<Rightarrow> nat \<Rightarrow> working" where
  "sha_round w = (\<lambda>(a, b, c, d, e, f, g, h) i.
     let s1 = rotr e 6 XOR rotr e 11 XOR rotr e 25;
         ch = (e AND f) XOR (NOT e AND g);
         temp1 = h + s1 + ch + kRoundConstants ! i + w ! i;
         s0 = rotr a 2 XOR rotr a 13 XOR rotr a 22;
         maj = (a AND b) XOR (a AND c) XOR (b AND c);
         temp2 = s0 + maj
     in (temp1 + temp2, a, b, c, d + temp1, e, f, g))"

definition compress :: "u32 list \<Rightarrow> byte list \<Rightarrow> u32 list" where
  "compress st block =
     (let (a, b, c, d, e, f, g, h) =
        foldl (sha_round (schedule block))
          (st ! 0, st ! 1, st ! 2, st ! 3, st ! 4, st ! 5, st ! 6, st ! 7) [0..<64]
      in [st ! 0 + a, st ! 1 + b, st ! 2 + c, st ! 3 + d, st ! 4 + e, st ! 5 + f, st ! 6 + g,
          st ! 7 + h])"

section \<open>The incremental hasher\<close>

definition block_size :: nat where
  "block_size = 64"

record Sha256 =
  sh_state :: "u32 list"
  sh_buffer :: "byte list"
  sh_total :: u64

definition sha256_init :: Sha256 where
  "sha256_init =
     \<lparr> sh_state = [1779033703, 3144134277, 1013904242, 2773480762,
                   1359893119, 2600822924, 528734635, 1541459225],
       sh_buffer = [], sh_total = 0 \<rparr>"

text \<open>The loop over whole blocks of the input, and what is left for the staging buffer.\<close>

function absorb_blocks :: "u32 list \<Rightarrow> byte list \<Rightarrow> u32 list \<times> byte list" where
  "absorb_blocks st data =
     (if block_size \<le> length data
      then absorb_blocks (compress st (take block_size data)) (drop block_size data)
      else (st, data))"
  by auto
termination
  by (relation "measure (\<lambda>(_, data). length data)") (auto simp: block_size_def)

declare absorb_blocks.simps [simp del]

definition sha256_blocks :: "Sha256 \<Rightarrow> byte list \<Rightarrow> Sha256" where
  "sha256_blocks h data =
     (let (st, rest) = absorb_blocks (sh_state h) data
      in if rest = [] then h\<lparr> sh_state := st \<rparr>
         else h\<lparr> sh_state := st, sh_buffer := rest \<rparr>)"

definition sha256_update :: "Sha256 \<Rightarrow> byte list \<Rightarrow> Sha256" where
  "sha256_update h0 data =
     (let h = h0\<lparr> sh_total := sh_total h0 + word_of_nat (length data) \<rparr>
      in if sh_buffer h \<noteq> []
         then let need = block_size - length (sh_buffer h);
                  buffer = sh_buffer h @ take need data;
                  rest = drop need data
              in if length buffer = block_size
                 then sha256_blocks
                        (h\<lparr> sh_state := compress (sh_state h) buffer, sh_buffer := [] \<rparr>) rest
                 else h\<lparr> sh_buffer := buffer \<rparr>
         else sha256_blocks h data)"

definition sha256_pad :: "Sha256 \<Rightarrow> Sha256" where
  "sha256_pad h =
     while (\<lambda>h. length (sh_buffer h) \<noteq> 56) (\<lambda>h. sha256_update h [0]) h"

definition sha256_finish :: "Sha256 \<Rightarrow> byte list" where
  "sha256_finish h =
     (let bit_length = sh_total h * 8;
          padded = sha256_pad (sha256_update h [0x80]);
          final = sha256_update padded
            (map (\<lambda>i. ucast (drop_bit (56 - 8 * i) bit_length)) [0..<8])
      in concat (map (\<lambda>w. [ucast (drop_bit 24 w), ucast (drop_bit 16 w), ucast (drop_bit 8 w),
                            ucast w]) (sh_state final)))"

definition sha256_hash :: "byte list \<Rightarrow> byte list" where
  "sha256_hash data = sha256_finish (sha256_update sha256_init data)"

section \<open>The reference\<close>

definition sha256_zeros :: "nat \<Rightarrow> nat" where
  "sha256_zeros n = (119 - n mod 64) mod 64"

definition sha256_padding :: "byte list \<Rightarrow> byte list" where
  "sha256_padding m =
     m @ [0x80] @ replicate (sha256_zeros (length m)) 0 @
     be_bytes 8 (8 * word_of_nat (length m) :: u64)"

definition sha256_spec :: "byte list \<Rightarrow> byte list" where
  "sha256_spec m =
     concat (map (be_bytes 4) (fst (absorb_blocks (sh_state sha256_init) (sha256_padding m))))"

section \<open>Lemmas\<close>

definition sha256_absorbed :: "byte list \<Rightarrow> Sha256" where
  "sha256_absorbed m =
     \<lparr> sh_state = fst (absorb_blocks (sh_state sha256_init) m),
       sh_buffer = snd (absorb_blocks (sh_state sha256_init) m),
       sh_total = word_of_nat (length m) \<rparr>"

lemma absorb_blocks_short: "length data < 64 \<Longrightarrow> absorb_blocks st data = (st, data)"
  by (subst absorb_blocks.simps) (simp add: block_size_def)

lemma absorb_blocks_long:
  "64 \<le> length data \<Longrightarrow>
     absorb_blocks st data = absorb_blocks (compress st (take 64 data)) (drop 64 data)"
  by (subst absorb_blocks.simps) (simp add: block_size_def)

lemma absorb_blocks_rest: "length (snd (absorb_blocks st data)) = length data mod 64"
proof (induction st data rule: absorb_blocks.induct)
  case (1 st data)
  show ?case
  proof (cases "length data < 64")
    case True
    then show ?thesis by (simp add: absorb_blocks_short)
  next
    case False
    with 1 show ?thesis by (simp add: absorb_blocks_long block_size_def le_mod_geq)
  qed
qed

lemma absorb_blocks_append:
  "absorb_blocks st (a @ b) =
     (case absorb_blocks st a of (st', rest) \<Rightarrow> absorb_blocks st' (rest @ b))"
proof (induction st a rule: absorb_blocks.induct)
  case (1 st a)
  show ?case
  proof (cases "length a < 64")
    case True
    then show ?thesis by (simp add: absorb_blocks_short)
  next
    case False
    with 1 show ?thesis by (simp add: absorb_blocks_long block_size_def)
  qed
qed

lemma sha256_blocks_eq:
  "sh_buffer h = [] \<Longrightarrow> sha256_blocks h data =
     h\<lparr> sh_state := fst (absorb_blocks (sh_state h) data),
        sh_buffer := snd (absorb_blocks (sh_state h) data) \<rparr>"
  by (auto simp: sha256_blocks_def split: prod.splits)

lemma sha256_update_eq:
  assumes "length (sh_buffer h) < 64"
  shows "sha256_update h data =
     \<lparr> sh_state = fst (absorb_blocks (sh_state h) (sh_buffer h @ data)),
       sh_buffer = snd (absorb_blocks (sh_state h) (sh_buffer h @ data)),
       sh_total = sh_total h + word_of_nat (length data) \<rparr>"
proof (cases "sh_buffer h = [] \<or> length (sh_buffer h @ data) < 64")
  case True
  with assms show ?thesis
    by (cases h)
      (auto simp: sha256_update_def sha256_blocks_eq absorb_blocks_short block_size_def Let_def)
next
  case False
  then have fill: "length (take (64 - length (sh_buffer h)) data) = 64 - length (sh_buffer h)"
    and ne: "sh_buffer h \<noteq> []" and long: "64 \<le> length (sh_buffer h @ data)"
    by auto
  show ?thesis
    using assms ne fill absorb_blocks_long [OF long, of "sh_state h"]
    by (cases h) (simp add: sha256_update_def sha256_blocks_eq block_size_def Let_def)
qed

lemma sha256_update_absorbed:
  "sha256_update (sha256_absorbed m) data = sha256_absorbed (m @ data)"
proof -
  have "length (sh_buffer (sha256_absorbed m)) < 64"
    by (simp add: sha256_absorbed_def absorb_blocks_rest)
  then show ?thesis
    by (simp add: sha256_update_eq)
      (simp add: sha256_absorbed_def absorb_blocks_append [of _ m data] split_beta)
qed

lemma sha256_init_absorbed: "sha256_init = sha256_absorbed []"
  by (simp add: sha256_absorbed_def absorb_blocks_short sha256_init_def)

lemma sha256_pad_done: "length m mod 64 = 56 \<Longrightarrow> sha256_pad (sha256_absorbed m) = sha256_absorbed m"
  unfolding sha256_pad_def
  by (subst while_unfold) (simp add: sha256_absorbed_def absorb_blocks_rest)

lemma sha256_pad_step:
  "length m mod 64 \<noteq> 56 \<Longrightarrow>
     sha256_pad (sha256_absorbed m) = sha256_pad (sha256_absorbed (m @ [0]))"
  unfolding sha256_pad_def
  by (subst while_unfold, subst if_P)
    (simp_all add: sha256_update_absorbed, simp add: sha256_absorbed_def absorb_blocks_rest)

lemma sha256_pad_absorbed:
  assumes "(length m + n) mod 64 = 56" "n < 64"
  shows "sha256_pad (sha256_absorbed m) = sha256_absorbed (m @ replicate n 0)"
  using assms
proof (induction n arbitrary: m)
  case 0
  then show ?case by (simp add: sha256_pad_done)
next
  case (Suc n)
  have "length m mod 64 \<noteq> 56"
  proof
    assume m: "length m mod 64 = 56"
    have "(length m + Suc n) mod 64 = (length m mod 64 + Suc n) mod 64"
      by (simp only: mod_add_left_eq)
    also have "\<dots> = (56 + Suc n) mod 64" by (simp only: m)
    also have "\<dots> \<noteq> 56" using Suc.prems(2) by (cases "56 + Suc n < 64") (auto simp: mod_if)
    finally show False using Suc.prems(1) by simp
  qed
  with Suc.IH [of "m @ [0]"] Suc.prems show ?case
    by (simp add: sha256_pad_step)
qed

lemma sha256_zeros_fill: "(length m + 1 + sha256_zeros (length m)) mod 64 = 56"
proof -
  define r where "r = length m mod 64"
  have r: "r < 64" by (simp add: r_def)
  have z: "sha256_zeros (length m) = (if r \<le> 55 then 55 - r else 119 - r)"
    using r by (simp add: sha256_zeros_def r_def [symmetric] le_mod_geq)
  have "(length m + 1 + sha256_zeros (length m)) mod 64 =
      (r + (1 + sha256_zeros (length m))) mod 64"
    unfolding r_def by (simp only: mod_add_left_eq add.assoc)
  also have "r + (1 + sha256_zeros (length m)) = (if r \<le> 55 then 56 else 120)"
    using r unfolding z by simp
  also have "\<dots> mod 64 = 56" by simp
  finally show ?thesis .
qed

lemma sha256_finish_absorbed: "sha256_finish (sha256_absorbed m) = sha256_spec m"
proof -
  have pad: "sha256_pad (sha256_absorbed (m @ [0x80])) =
      sha256_absorbed ((m @ [0x80]) @ replicate (sha256_zeros (length m)) 0)"
    by (rule sha256_pad_absorbed) (use sha256_zeros_fill [of m] in \<open>simp_all add: sha256_zeros_def\<close>)
  have len: "map (\<lambda>i. ucast (drop_bit (56 - 8 * i) b)) [0..<8] = be_bytes 8 (b :: u64)" for b
    by (intro nth_equalityI) (auto simp: be_bytes_def rev_nth nth_le_bytes diff_mult_distrib2)
  have word: "[ucast (drop_bit 24 w), ucast (drop_bit 16 w), ucast (drop_bit 8 w), ucast w] =
      be_bytes 4 (w :: u32)" for w
    by (simp add: be_bytes_def numeral_eq_Suc drop_bit_drop_bit)
  have total: "sh_total (sha256_absorbed m) * 8 = 8 * word_of_nat (length m)"
    by (simp add: sha256_absorbed_def)
  show ?thesis
    unfolding sha256_finish_def Let_def pad len word total sha256_update_absorbed
    by (simp add: sha256_spec_def sha256_absorbed_def sha256_padding_def)
qed

lemma sha256_hash_spec: "sha256_hash m = sha256_spec m"
  by (simp add: sha256_hash_def sha256_init_absorbed sha256_update_absorbed sha256_finish_absorbed)

lemma length_compress [simp]: "length (compress st block) = 8"
  by (simp add: compress_def split_beta)

lemma length_absorb_blocks: "length st = 8 \<Longrightarrow> length (fst (absorb_blocks st data)) = 8"
proof (induction st data rule: absorb_blocks.induct)
  case (1 st data)
  then show ?case
    by (cases "length data < 64")
      (simp_all add: absorb_blocks_short absorb_blocks_long block_size_def)
qed

lemma length_concat_same: "\<forall>x \<in> set xs. length (f x) = k \<Longrightarrow> length (concat (map f xs)) = k * length xs"
  by (induction xs) auto

lemma length_sha256_hash [simp]: "length (sha256_hash m) = 32"
  by (simp add: sha256_hash_spec sha256_spec_def length_concat_same [where k = 4]
      length_absorb_blocks sha256_init_def)

lemma sha256_streaming:
  "sha256_finish (foldl sha256_update sha256_init pieces) = sha256_spec (concat pieces)"
proof -
  have "foldl sha256_update (sha256_absorbed m) pieces = sha256_absorbed (m @ concat pieces)" for m
    by (induction pieces arbitrary: m) (simp_all add: sha256_update_absorbed)
  from this [of "[]"] show ?thesis
    by (simp add: sha256_init_absorbed sha256_finish_absorbed)
qed

end
