(* ===== verification/Store.thy ===== *)
theory Store
  imports Durable Sha256
begin

text \<open>
  The durable store (\<open>store.hpp\<close>, \<open>store.cpp\<close>): the image format (magic, version, payload length,
  payload, SHA-256 trailer), loading with the rollback watermark, and saving. The disk is the
  content of the two files; the temporary files are never visible under the two names, since a
  rename replaces a file as a whole. The operating system is a parameter: \<open>io\<close> says which of the
  steps that may fail do fail, and with what error. The theory \<open>Files\<close> has the steps themselves.
\<close>

section \<open>The disk and the operating system\<close>

record StoreOptions =
  so_path :: string
  so_limits :: Limits
  so_create_if_missing :: bool
  so_enable_rollback_watermark :: bool

record disk =
  image_file :: "byte list option"
  watermark_file :: "byte list option"

datatype io_step =
    ReadImage
  | ReadWatermark
  | CreateDirectory
  | ImageSuffix
  | WriteImage
  | ReplaceImage
  | WatermarkSuffix
  | WriteWatermark
  | ReplaceWatermark

type_synonym io = "io_step \<Rightarrow> EpochError option"

definition io_ok :: io where
  "io_ok = (\<lambda>_. None)"

definition attempt_io :: "io \<Rightarrow> io_step \<Rightarrow> unit res" where
  "attempt_io io step = (case io step of None \<Rightarrow> Inr () | Some e \<Rightarrow> Inl e)"

section \<open>The image\<close>

definition kStoreMagic :: u32 where
  "kStoreMagic = 0x46424550"

definition kHeaderSize :: nat where
  "kHeaderSize = 12"

definition kDigestSize :: nat where
  "kDigestSize = 32"

definition kAbsoluteMaxPayloadLength :: nat where
  "kAbsoluteMaxPayloadLength = 2 ^ 30"

definition persistence_format_version :: u32 where
  "persistence_format_version = 1"

definition write_u32_le :: "u32 \<Rightarrow> byte list" where
  "write_u32_le v =
     [ucast v, ucast (drop_bit 8 v), ucast (drop_bit 16 v), ucast (drop_bit 24 v)]"

definition read_u32_le :: "byte list \<Rightarrow> u32" where
  "read_u32_le data =
     ucast (data ! 0) OR push_bit 8 (ucast (data ! 1)) OR push_bit 16 (ucast (data ! 2)) OR
     push_bit 24 (ucast (data ! 3))"

definition new_store :: "StoreOptions \<Rightarrow> StoreOptions res" where
  "new_store options =
     (if \<not> is_viable (so_limits options)
      then Inl (invalid_argument ''store limits are not viable'')
      else if so_path options = []
      then Inl (invalid_argument ''store path must not be empty'')
      else Inr options)"

definition store_encode :: "DurableState \<Rightarrow> byte list res" where
  "store_encode st =
     res_bind (validate_durable_state st) (\<lambda>_.
     res_bind (encode_durable_payload st) (\<lambda>payload.
     if 2 ^ 32 - 1 < length payload
     then Inl (resource_limit ''durable payload exceeds the representable length'')
     else
       let body = write_u32_le kStoreMagic @ write_u32_le persistence_format_version @
             write_u32_le (word_of_nat (length payload)) @ payload
       in Inr (body @ sha256_hash body)))"

definition store_decode :: "StoreOptions \<Rightarrow> byte list \<Rightarrow> DurableState res" where
  "store_decode options img =
     (if length img < kHeaderSize
      then Inl (corrupt ''durable image is shorter than its header'')
      else if read_u32_le img \<noteq> kStoreMagic
      then Inl (corrupt ''durable image magic does not match Fabric Epoch'')
      else if read_u32_le (drop 4 img) \<noteq> persistence_format_version
      then Inl (EpochError UnsupportedVersion ''durable image format version is not supported'')
      else
        let declared_length = unat (read_u32_le (drop 8 img))
        in if kAbsoluteMaxPayloadLength < declared_length
           then Inl (resource_limit ''durable payload length exceeds the absolute ceiling'')
           else if length img \<noteq> kHeaderSize + declared_length + kDigestSize
           then Inl (corrupt
             ''durable image length does not match its declared payload length'')
           else
             let covered = length img - kDigestSize
             in if sha256_hash (take covered img) \<noteq> drop covered img
                then Inl (EpochError IntegrityFailure
                  ''durable image integrity digest does not match'')
                else
                  res_bind (decode_durable_payload
                    (take declared_length (drop kHeaderSize img)) (so_limits options)) (\<lambda>st.
                  res_bind (validate_durable_state st) (\<lambda>_. Inr st)))"

section \<open>The rollback watermark\<close>

definition is_blank :: "char \<Rightarrow> bool" where
  "is_blank c \<longleftrightarrow> c = CHR '' '' \<or> c = CHR 0x0D \<or> c = CHR 0x0A"

definition trim :: "string \<Rightarrow> string" where
  "trim s = rev (dropWhile is_blank (rev (dropWhile is_blank s)))"

definition newline :: char where
  "newline = CHR 0x0A"

fun parse_epoch :: "u64 \<Rightarrow> string \<Rightarrow> u64 res" where
  "parse_epoch epoch [] = Inr epoch"
| "parse_epoch epoch (c # cs) =
     (if char_code c < char_code CHR ''0'' \<or> char_code CHR ''9'' < char_code c
      then Inl (corrupt ''rollback watermark file has a non-numeric epoch value'')
      else
        let digit = word_of_nat (char_code c - char_code CHR ''0'')
        in if (uint64_max - digit) div 10 < epoch
           then Inl (overflow ''rollback watermark epoch overflows'')
           else parse_epoch (epoch * 10 + digit) cs)"

definition parse_watermark :: "string \<Rightarrow> u64 res" where
  "parse_watermark s =
     (if newline \<notin> set s then Inl (corrupt ''rollback watermark file is malformed'')
      else
        let header = trim (takeWhile (\<lambda>c. c \<noteq> newline) s);
            v = trim (tl (dropWhile (\<lambda>c. c \<noteq> newline) s))
        in if header \<noteq> ''FabricEpochWatermark''
           then Inl (corrupt ''rollback watermark file has an unexpected header'')
           else if v = [] then Inl (corrupt ''rollback watermark file has no epoch value'')
           else parse_epoch 0 v)"

definition watermark_text :: "CoordinatorEpoch \<Rightarrow> string" where
  "watermark_text epoch =
     ''FabricEpochWatermark'' @ [newline] @ counter_to_string epoch @ [newline]"

definition read_watermark :: "StoreOptions \<Rightarrow> io \<Rightarrow> disk \<Rightarrow> u64 res" where
  "read_watermark options io d =
     (if \<not> so_enable_rollback_watermark options then Inr 0
      else case watermark_file d of
        None \<Rightarrow> Inr 0
      | Some raw \<Rightarrow>
          res_bind (attempt_io io ReadWatermark) (\<lambda>_. parse_watermark (map byte_char raw)))"

definition highest_persisted_epoch :: "StoreOptions \<Rightarrow> io \<Rightarrow> disk \<Rightarrow> CoordinatorEpoch res" where
  "highest_persisted_epoch options io d =
     res_bind (read_watermark options io d) (\<lambda>v. Inr (MonotonicCounter v))"

definition write_watermark :: "io \<Rightarrow> CoordinatorEpoch \<Rightarrow> disk \<Rightarrow> unit res \<times> disk" where
  "write_watermark io epoch d =
     (case res_bind (attempt_io io WatermarkSuffix) (\<lambda>_.
           res_bind (attempt_io io WriteWatermark) (\<lambda>_. attempt_io io ReplaceWatermark)) of
        Inl e \<Rightarrow> (Inl e, d)
      | Inr _ \<Rightarrow> (Inr (), d\<lparr> watermark_file := Some (map char_byte (watermark_text epoch)) \<rparr>))"

section \<open>Loading and saving\<close>

definition store_exists :: "disk \<Rightarrow> bool" where
  "store_exists d \<longleftrightarrow> image_file d \<noteq> None"

definition store_load :: "StoreOptions \<Rightarrow> io \<Rightarrow> disk \<Rightarrow> DurableState res" where
  "store_load options io d =
     (case image_file d of
        None \<Rightarrow>
          (if \<not> so_create_if_missing options
           then Inl (io_failure ''durable store does not exist and create_if_missing is false'')
           else Inr initial_state)
      | Some img \<Rightarrow>
          res_bind (attempt_io io ReadImage) (\<lambda>_.
          res_bind (store_decode options img) (\<lambda>st.
          if so_enable_rollback_watermark options
          then res_bind (highest_persisted_epoch options io d) (\<lambda>watermark.
            if st_current_epoch st < watermark
            then Inl (corrupt
              ''durable epoch is lower than the persisted watermark: rollback detected'')
            else Inr st)
          else Inr st)))"

text \<open>
  Everything before the image is replaced leaves the disk as it was; a failure to write the
  watermark afterwards is reported although the image has been replaced.
\<close>

definition store_save :: "StoreOptions \<Rightarrow> io \<Rightarrow> DurableState \<Rightarrow> disk \<Rightarrow> unit res \<times> disk" where
  "store_save options io st d =
     (case res_bind (read_watermark options io d) (\<lambda>previous_watermark.
           res_bind (store_encode st) (\<lambda>img.
           res_bind (attempt_io io CreateDirectory) (\<lambda>_.
           res_bind (attempt_io io ImageSuffix) (\<lambda>_.
           res_bind (attempt_io io WriteImage) (\<lambda>_.
           res_bind (attempt_io io ReplaceImage) (\<lambda>_.
           Inr (previous_watermark, img))))))) of
        Inl e \<Rightarrow> (Inl e, d)
      | Inr (previous_watermark, img) \<Rightarrow>
          let d' = d\<lparr> image_file := Some img \<rparr>
          in if so_enable_rollback_watermark options \<and>
                previous_watermark < counter_value (st_current_epoch st)
             then write_watermark io (st_current_epoch st) d'
             else (Inr (), d'))"

section \<open>The interface of a store\<close>

text \<open>
  What the runtime relies on: a state that is storable is loaded back after a successful save; a
  failed save leaves something that loads either as before or as the new state; and what is loaded
  satisfies the validity the store enforces.
\<close>

locale durable_store =
  fixes save :: "'io \<Rightarrow> 's \<Rightarrow> 'd \<Rightarrow> unit res \<times> 'd"
    and load :: "'io \<Rightarrow> 'd \<Rightarrow> 's res"
    and quiet :: 'io
    and storable :: "'s \<Rightarrow> bool"
    and accepts :: "'s \<Rightarrow> 'd \<Rightarrow> bool"
    and valid :: "'s \<Rightarrow> bool"
  assumes load_saved: "storable s \<Longrightarrow> accepts s d \<Longrightarrow> save io s d = (Inr (), d') \<Longrightarrow> load quiet d' = Inr s"
    and save_quiet: "storable s \<Longrightarrow> accepts s d \<Longrightarrow> \<exists>d'. save quiet s d = (Inr (), d')"
    and save_failed: "storable s \<Longrightarrow> accepts s d \<Longrightarrow> save io s d = (Inl e, d') \<Longrightarrow>
      d' = d \<or> load quiet d' = Inr s"
    and load_valid: "load io d = Inr s \<Longrightarrow> valid s"
begin

lemma save_load_quiet:
  assumes "storable s" "accepts s d"
  shows "load quiet (snd (save quiet s d)) = Inr s"
  using save_quiet [OF assms] load_saved [OF assms] by fastforce

lemma old_or_new:
  assumes "storable s" "accepts s d" "load quiet d = Inr old"
  shows "load quiet (snd (save io s d)) \<in> {Inr old, Inr s}"
proof (cases "save io s d")
  case (Pair r d')
  then show ?thesis
    using load_saved [OF assms(1,2), of io d'] save_failed [OF assms(1,2), of io _ d'] assms(3)
    by (cases r) auto
qed

lemma storable_valid: "storable s \<Longrightarrow> accepts s d \<Longrightarrow> valid s"
  using save_load_quiet load_valid by blast

end

section \<open>The image round trip\<close>

lemma write_u32_le_bytes: "write_u32_le v = le_bytes 4 v"
  by (simp add: write_u32_le_def numeral_eq_Suc drop_bit_drop_bit)

lemma read_u32_le_append: "read_u32_le (write_u32_le v @ rest) = v"
proof -
  have "read_u32_le (a # b # c # d # rest) = from_le [a, b, c, d]" for a b c d
    by (simp add: read_u32_le_def push_bit_or or.assoc)
  then have "read_u32_le (write_u32_le v @ rest) = from_le (write_u32_le v)"
    by (simp only: write_u32_le_def append_Cons append_Nil)
  then show ?thesis by (simp add: write_u32_le_bytes)
qed

lemma length_write_u32_le [simp]: "length (write_u32_le v) = 4"
  by (simp add: write_u32_le_def)

definition storable :: "StoreOptions \<Rightarrow> DurableState \<Rightarrow> bool" where
  "storable options st \<longleftrightarrow>
     validate_durable_state st = Inr () \<and>
     records_fit (structural_limits (so_limits options)) st \<and> history_readable st \<and>
     length (projr (encode_durable_payload st)) \<le> kAbsoluteMaxPayloadLength"

definition image_body :: "byte list \<Rightarrow> byte list" where
  "image_body payload =
     write_u32_le kStoreMagic @ write_u32_le persistence_format_version @
     write_u32_le (word_of_nat (length payload)) @ payload"

lemma image_body_reads:
  "length (image_body p) = 12 + length p"
  "read_u32_le (image_body p @ r) = kStoreMagic"
  "read_u32_le (drop 4 (image_body p @ r)) = persistence_format_version"
  "read_u32_le (drop 8 (image_body p @ r)) = word_of_nat (length p)"
  "take (length p) (drop 12 (image_body p @ r)) = p"
  by (simp_all add: image_body_def read_u32_le_append)

lemma store_encode_eq:
  assumes "validate_durable_state st = Inr ()" "encode_durable_payload st = Inr p"
    "length p \<le> 4294967295"
  shows "store_encode st = Inr (image_body p @ sha256_hash (image_body p))"
  using assms by (simp add: store_encode_def image_body_def Let_def)

lemma store_decode_body:
  assumes "length p \<le> kAbsoluteMaxPayloadLength"
  shows "store_decode options (image_body p @ sha256_hash (image_body p)) =
    res_bind (decode_durable_payload p (so_limits options)) (\<lambda>st.
    res_bind (validate_durable_state st) (\<lambda>_. Inr st))"
proof -
  have "unat (word_of_nat (length p) :: u32) = length p"
    using assms by (intro unat_word_of_nat_u32) (simp add: kAbsoluteMaxPayloadLength_def)
  moreover have "length (image_body p @ sha256_hash (image_body p)) = 12 + length p + 32"
    by (simp add: image_body_reads)
  moreover have "take (12 + length p) (image_body p @ sha256_hash (image_body p)) = image_body p"
    "drop (12 + length p) (image_body p @ sha256_hash (image_body p)) = sha256_hash (image_body p)"
    by (simp_all add: image_body_reads(1) [symmetric])
  ultimately show ?thesis
    using assms unfolding store_decode_def Let_def kHeaderSize_def kDigestSize_def
    by (simp only: image_body_reads) simp
qed

lemma store_encode_storable:
  assumes "storable options st"
  shows "store_encode st = Inr (image_body (projr (encode_durable_payload st)) @
    sha256_hash (image_body (projr (encode_durable_payload st))))"
proof (rule store_encode_eq)
  show "validate_durable_state st = Inr ()" using assms by (simp add: storable_def)
  show "encode_durable_payload st = Inr (projr (encode_durable_payload st))"
    using assms encode_durable_payload_ok [of "so_limits options" st]
    by (auto simp: storable_def)
  show "length (projr (encode_durable_payload st)) \<le> 4294967295"
    using assms by (simp add: storable_def kAbsoluteMaxPayloadLength_def)
qed

lemma store_decode_encode:
  assumes "storable options st"
  shows "store_decode options (projr (store_encode st)) = Inr st"
  using assms
  by (simp add: store_encode_storable)
    (simp add: store_decode_body decode_encode_durable_payload storable_def)

lemma store_decode_valid:
  "store_decode options img = Inr st \<Longrightarrow> validate_durable_state st = Inr ()"
  by (auto simp: store_decode_def Let_def res_bind_eq_Inr split: if_splits)

lemma initial_state_valid: "validate_durable_state initial_state = Inr ()"
  by (simp add: validate_durable_state_iff within_ceilings_def initial_state_def is_pristine_def
      counter_is_zero_def id_is_nil_iff)

lemma store_load_valid:
  "store_load options io d = Inr st \<Longrightarrow> validate_durable_state st = Inr ()"
  by (auto simp: store_load_def res_bind_eq_Inr initial_state_valid
      dest: store_decode_valid split: option.splits if_splits)

section \<open>The watermark round trip\<close>

lemma parse_epoch_append:
  "parse_epoch e (xs @ ys) = res_bind (parse_epoch e xs) (\<lambda>v. parse_epoch v ys)"
  by (induction e xs rule: parse_epoch.induct) (simp_all add: Let_def)

lemma parse_epoch_digit:
  assumes "d < 10" "unat e * 10 + d < 2 ^ 64"
  shows "parse_epoch e [char_of (48 + d)] = Inr (word_of_nat (unat e * 10 + d))"
proof -
  let ?d = "word_of_nat d :: u64"
  have code: "char_code (char_of (48 + d)) = 48 + d" "char_code CHR ''0'' = 48"
    "char_code CHR ''9'' = 57"
    using assms(1) by (simp_all add: char_code_def)
  have d: "unat ?d = d" using assms(1) by (simp add: unat_of_nat)
  have "unat (uint64_max - ?d) = 2 ^ 64 - 1 - d"
    using assms(1) d by (simp add: unat_sub word_le_nat_alt unsigned_minus_1_eq_mask
        mask_eq_exp_minus_1)
  then have "unat ((uint64_max - ?d) div 10) = (2 ^ 64 - 1 - d) div 10"
    by (simp add: unat_div)
  moreover have "unat e \<le> (2 ^ 64 - 1 - d) div 10"
    using assms(2) by (simp add: less_eq_div_iff_mult_less_eq)
  ultimately have "\<not> (uint64_max - ?d) div 10 < e"
    by (simp add: word_less_nat_alt)
  moreover have "e * 10 + ?d = word_of_nat (unat e * 10 + d)"
    by simp
  ultimately show ?thesis
    using assms(1) by (simp add: code Let_def)
qed

lemma parse_epoch_dec_string:
  "n < 2 ^ 64 \<Longrightarrow> parse_epoch 0 (dec_string n) = Inr (word_of_nat n)"
proof (induction n rule: dec_string.induct)
  case (1 n)
  show ?case
  proof (cases "n < 10")
    case True
    then show ?thesis
      using parse_epoch_digit [of n 0] by (simp add: dec_string.simps [of n])
  next
    case False
    then have ih: "parse_epoch 0 (dec_string (n div 10)) = Inr (word_of_nat (n div 10))"
      using 1 by simp
    have u: "unat (word_of_nat (n div 10) :: u64) = n div 10"
      using 1(2) by (simp add: unat_of_nat)
    show ?thesis
      using False 1(2) parse_epoch_digit [of "n mod 10" "word_of_nat (n div 10)"]
      by (simp add: dec_string.simps [of n] parse_epoch_append ih u)
  qed
qed

lemma dec_string_chars: "c \<in> set (dec_string n) \<Longrightarrow> 48 \<le> char_code c \<and> char_code c \<le> 57"
proof (induction n arbitrary: c rule: dec_string.induct)
  case (1 n)
  have digit: "char_code (char_of (48 + d)) = 48 + d" if "d < 10" for d
    using that by (simp add: char_code_def)
  show ?case
    using 1 digit [of n] digit [of "n mod 10"]
    by (cases "n < 10") (auto simp: dec_string.simps [of n])
qed

lemma dec_string_nonempty [simp]: "dec_string n \<noteq> []"
  by (subst dec_string.simps) simp

lemma trim_id: "s \<noteq> [] \<Longrightarrow> \<not> is_blank (hd s) \<Longrightarrow> \<not> is_blank (last s) \<Longrightarrow> trim s = s"
  by (simp add: trim_def dropWhile_eq_self_iff [THEN iffD2] hd_rev)

lemma trim_newline:
  assumes "s \<noteq> []" "\<forall>c \<in> set s. \<not> is_blank c"
  shows "trim (s @ [newline]) = s"
proof -
  have "dropWhile is_blank (s @ [newline]) = s @ [newline]"
    using assms by (subst dropWhile_eq_self_iff) simp
  moreover have "dropWhile is_blank (rev s) = rev s"
    using assms by (subst dropWhile_eq_self_iff) (simp add: hd_rev)
  moreover have "is_blank newline" by (simp add: is_blank_def newline_def)
  ultimately show ?thesis by (simp add: trim_def)
qed

lemma parse_watermark_text: "parse_watermark (watermark_text e) = Inr (counter_value e)"
proof -
  let ?n = "unat (counter_value e)"
  have digits: "\<forall>c \<in> set (dec_string ?n). \<not> is_blank c \<and> c \<noteq> newline"
    using dec_string_chars [of _ ?n]
    by (fastforce simp: is_blank_def newline_def char_code_def)
  have head: "takeWhile (\<lambda>c. c \<noteq> newline) (watermark_text e) = ''FabricEpochWatermark''"
    "tl (dropWhile (\<lambda>c. c \<noteq> newline) (watermark_text e)) = dec_string ?n @ [newline]"
    by (simp_all add: watermark_text_def newline_def counter_to_string_def)
  have "trim (dec_string ?n @ [newline]) = dec_string ?n"
    using digits by (intro trim_newline) auto
  moreover have "trim ''FabricEpochWatermark'' = ''FabricEpochWatermark''"
    by (rule trim_id) (simp_all add: is_blank_def)
  moreover have "newline \<in> set (watermark_text e)"
    by (simp add: watermark_text_def)
  moreover have "?n < 2 ^ 64" using unsigned_less [of "counter_value e"] by simp
  ultimately show ?thesis
    using parse_epoch_dec_string [of ?n] by (simp add: parse_watermark_def Let_def head)
qed

section \<open>The store is a durable store\<close>

definition watermark_accepts :: "StoreOptions \<Rightarrow> DurableState \<Rightarrow> disk \<Rightarrow> bool" where
  "watermark_accepts options st d \<longleftrightarrow>
     (case read_watermark options io_ok d of
        Inl e \<Rightarrow> False
      | Inr v \<Rightarrow> v \<le> counter_value (st_current_epoch st))"

lemma attempt_io_ok [simp]: "attempt_io io_ok step = Inr ()"
  by (simp add: attempt_io_def io_ok_def)

lemma read_watermark_quiet:
  "read_watermark options io d = Inr v \<Longrightarrow> read_watermark options io_ok d = Inr v"
  by (auto simp: read_watermark_def res_bind_eq_Inr split: option.splits if_splits)

lemma read_written_watermark:
  "so_enable_rollback_watermark options \<Longrightarrow> watermark_file d = Some (map char_byte (watermark_text e)) \<Longrightarrow>
     read_watermark options io_ok d = Inr (counter_value e)"
  by (simp add: read_watermark_def parse_watermark_text o_def)

lemma load_image:
  assumes "storable options st" "image_file d = Some (projr (store_encode st))"
    and "so_enable_rollback_watermark options \<Longrightarrow>
      \<exists>v. read_watermark options io_ok d = Inr v \<and> v \<le> counter_value (st_current_epoch st)"
  shows "store_load options io_ok d = Inr st"
  using assms
  by (auto simp: store_load_def store_decode_encode highest_persisted_epoch_def
      less_MonotonicCounter_def counter_less_def)

lemma read_watermark_image [simp]:
  "read_watermark options io (d\<lparr> image_file := x \<rparr>) = read_watermark options io d"
  by (simp add: read_watermark_def)

lemma store_save_cases:
  assumes "storable options st" "watermark_accepts options st d"
    and "store_save options io st d = (r, d')"
  shows "(d' = d \<and> (\<exists>e. r = Inl e)) \<or> store_load options io_ok d' = Inr st"
proof -
  have enc: "store_encode st = Inr (projr (store_encode st))"
    using store_encode_storable [OF assms(1)] by simp
  let ?d = "d\<lparr> image_file := Some (projr (store_encode st)) \<rparr>"
  let ?w = "?d\<lparr> watermark_file := Some (map char_byte (watermark_text (st_current_epoch st))) \<rparr>"
  have "store_load options io_ok ?d = Inr st"
    using assms(2)
    by (intro load_image [OF assms(1)]) (auto simp: watermark_accepts_def split: sum.splits)
  moreover have "store_load options io_ok ?w = Inr st" if "so_enable_rollback_watermark options"
    using read_written_watermark [OF that, of ?w] by (intro load_image [OF assms(1)]) auto
  moreover have "(d' = d \<and> (\<exists>e. r = Inl e)) \<or> d' = ?d \<or> (d' = ?w \<and> so_enable_rollback_watermark options)"
    using assms(3) enc
    by (auto simp: store_save_def write_watermark_def Let_def res_bind_def
        split: sum.splits if_splits)
  ultimately show ?thesis by blast
qed

lemma store_save_quiet:
  assumes "storable options st" "watermark_accepts options st d"
  shows "\<exists>d'. store_save options io_ok st d = (Inr (), d')"
  using assms store_encode_storable [OF assms(1)]
  by (auto simp: store_save_def write_watermark_def Let_def watermark_accepts_def
      split: sum.splits)

interpretation epoch_store: durable_store "store_save options" "store_load options" io_ok
  "storable options" "watermark_accepts options" "\<lambda>st. validate_durable_state st = Inr ()"
  for options
proof unfold_locales
  fix st d d' io e
  show "storable options st \<Longrightarrow> watermark_accepts options st d \<Longrightarrow>
      store_save options io st d = (Inr (), d') \<Longrightarrow> store_load options io_ok d' = Inr st"
    using store_save_cases [of options st d io "Inr ()" d'] by auto
  show "storable options st \<Longrightarrow> watermark_accepts options st d \<Longrightarrow>
      store_save options io st d = (Inl e, d') \<Longrightarrow> d' = d \<or> store_load options io_ok d' = Inr st"
    using store_save_cases [of options st d io "Inl e" d'] by auto
qed (auto intro: store_save_quiet dest: store_load_valid)

lemma save_raises_watermark:
  assumes "so_enable_rollback_watermark options" "watermark_accepts options st d"
    and "store_save options io st d = (Inr (), d')"
  shows "\<exists>v. read_watermark options io_ok d' = Inr v \<and> v = counter_value (st_current_epoch st)"
proof -
  obtain v where v: "read_watermark options io_ok d = Inr v" "v \<le> counter_value (st_current_epoch st)"
    using assms(2) by (auto simp: watermark_accepts_def split: sum.splits)
  have same: "read_watermark options io d = Inr w \<Longrightarrow> w = v" for w
    using v(1) by (auto simp: read_watermark_def res_bind_eq_Inr split: if_splits option.splits)
  let ?w = "Some (map char_byte (watermark_text (st_current_epoch st)))"
  have "watermark_file d' = ?w \<or>
      (watermark_file d' = watermark_file d \<and> \<not> v < counter_value (st_current_epoch st))"
    using assms(1,3) same
    by (auto simp: store_save_def write_watermark_def Let_def res_bind_def split: sum.splits if_splits)
  then show ?thesis
  proof
    assume "watermark_file d' = ?w"
    then show ?thesis using read_written_watermark [OF assms(1)] by blast
  next
    assume d: "watermark_file d' = watermark_file d \<and> \<not> v < counter_value (st_current_epoch st)"
    then have "read_watermark options io_ok d' = Inr v"
      using v(1) by (cases "so_enable_rollback_watermark options") (simp_all add: read_watermark_def)
    with d v(2) show ?thesis by simp
  qed
qed

text \<open>
  The watermark detects a rolled back image: once a state of a higher epoch has been saved, an older
  image put back under the name of the store does not load.
\<close>

lemma rollback_detected:
  assumes "so_enable_rollback_watermark options" "image_file d = Some img"
    and "store_decode options img = Inr old"
    and "read_watermark options io_ok d = Inr v" "counter_value (st_current_epoch old) < v"
  shows "store_load options io_ok d =
    Inl (corrupt ''durable epoch is lower than the persisted watermark: rollback detected'')"
  using assms
  by (simp add: store_load_def highest_persisted_epoch_def less_MonotonicCounter_def counter_less_def)

end
