(* ===== verification/Faithful.thy ===== *)
theory Faithful
  imports Store
begin

text \<open>
  What a decoder makes of bytes its encoder wrote, for records of any size: it may refuse them (a
  limit of the reader can be lower than what was written), but if it accepts them it returns what was
  written. So an image that loads is the state that was saved, whatever the limits are.
\<close>

locale faithful_codec =
  fixes enc :: "'a \<Rightarrow> writer" and dec :: "'a reader"
  assumes nonempty: "\<not> isl (enc x) \<Longrightarrow> projr (enc x) \<noteq> []"
    and faithful: "\<not> isl (enc x) \<Longrightarrow> length (projr (enc x)) < 4294967296 \<Longrightarrow>
      dec (projr (enc x) @ rest) = Inr (y, r) \<Longrightarrow> y = x \<and> r = rest"
begin

lemma bind_faithful:
  assumes "\<not> isl (enc x)" "length (projr (enc x)) < 4294967296"
  shows "r_bind dec f (projr (enc x) @ rest) = Inr z \<longleftrightarrow>
    \<not> isl (dec (projr (enc x) @ rest)) \<and> f x rest = Inr z"
proof (cases "dec (projr (enc x) @ rest)")
  case (Inr p)
  then show ?thesis
    using faithful [OF assms, of rest "fst p" "snd p"] by (cases p) (simp add: r_bind_def)
qed (simp add: r_bind_def)

lemma each_length:
  "\<forall>x \<in> set xs. \<not> isl (enc x) \<Longrightarrow> length xs \<le> length (projr (w_each enc xs))"
proof (induction xs)
  case (Cons x xs)
  then have "projr (enc x) \<noteq> []" by (intro nonempty) simp
  with Cons show ?case
    by (cases "projr (enc x)") (simp_all add: projr_w_each)
qed simp

lemma repeat_faithful:
  "\<forall>x \<in> set xs. \<not> isl (enc x) \<Longrightarrow> length (projr (w_each enc xs)) < 4294967296 \<Longrightarrow>
     r_repeat (length xs) dec (projr (w_each enc xs) @ rest) = Inr (ys, r) \<Longrightarrow> ys = xs \<and> r = rest"
proof (induction xs arbitrary: ys)
  case Nil
  then show ?case by (simp add: codec_simps w_each_def)
next
  case (Cons x xs)
  have split: "projr (w_each enc (x # xs)) = projr (enc x) @ projr (w_each enc xs)"
    using Cons.prems(1) by (simp add: projr_w_each)
  then have short: "length (projr (enc x)) < 4294967296" "length (projr (w_each enc xs)) < 4294967296"
    using Cons.prems(2) by simp_all
  from Cons.prems(3) obtain zs where "r_repeat (length xs) dec (projr (w_each enc xs) @ rest) = Inr (zs, r)"
    "ys = x # zs"
    using Cons.prems(1) short(1)
    by (auto simp: split bind_faithful r_bind_eq_Inr [of "r_repeat n dec" for n] codec_simps)
  with Cons.IH short(2) Cons.prems(1) show ?case by simp
qed

lemma counted_faithful:
  assumes "\<not> isl (w_counted enc xs)" "length (projr (w_counted enc xs)) < 4294967296"
    and "r_counted limit e1 k e2 dec (projr (w_counted enc xs) @ rest) = Inr (ys, r)"
  shows "ys = xs \<and> r = rest"
proof -
  have ok: "\<forall>x \<in> set xs. \<not> isl (enc x)" "\<not> isl (w_each enc xs)"
    using assms(1) by (simp_all add: w_counted_def codec_simps)
  have bytes: "projr (w_counted enc xs) = projr (w_count (length xs)) @ projr (w_each enc xs)"
    using ok(2) by (simp add: w_counted_def codec_simps)
  with assms(2) have short: "length (projr (w_each enc xs)) < 4294967296" by simp
  with each_length [OF ok(1)] have n: "unat (word_of_nat (length xs) :: u32) = length xs"
    by (intro unat_word_of_nat_u32) simp
  have "r_repeat (length xs) dec (projr (w_each enc xs) @ rest) = Inr (ys, r)"
    using assms(3)
    by (auto simp: r_counted_def bytes codec_simps n r_bind_eq_Inr [of "r_throw_if c e" for c e]
        r_throw_if_eq_Inr)
  then show ?thesis by (rule repeat_faithful [OF ok(1) short])
qed

lemma bind_counted_faithful:
  assumes "\<not> isl (w_counted enc xs)" "length (projr (w_counted enc xs)) < 4294967296"
  shows "r_bind (r_counted limit e1 k e2 dec) f (projr (w_counted enc xs) @ rest) = Inr z \<longleftrightarrow>
    \<not> isl (r_counted limit e1 k e2 dec (projr (w_counted enc xs) @ rest)) \<and> f xs rest = Inr z"
proof (cases "r_counted limit e1 k e2 dec (projr (w_counted enc xs) @ rest)")
  case (Inr p)
  then show ?thesis
    using counted_faithful [OF assms, of limit e1 k e2 rest "fst p" "snd p"]
    by (cases p) (simp add: r_bind_def)
qed (simp add: r_bind_def)

end

text \<open>The codecs of records of a fixed shape are faithful at once.\<close>

lemma bind_throw_if_iff:
  "r_bind (r_throw_if c e) f bs = Inr z \<longleftrightarrow> \<not> c \<and> f () bs = Inr z"
  by (auto simp: r_bind_eq_Inr r_throw_if_eq_Inr)

lemma bind_some_iff: "r_bind (r_some x e) f bs = Inr z \<longleftrightarrow> (\<exists>v. x = Some v \<and> f v bs = Inr z)"
  by (auto simp: r_bind_eq_Inr r_some_eq_Inr)

interpretation id_faithful: faithful_codec w_id r_id
  by unfold_locales (auto simp: id_codec.dec_enc dest: arg_cong [of _ _ length] simp: codec_simps)

interpretation idempotency_faithful: faithful_codec w_idempotency "r_idempotency e" for e
  by unfold_locales
    (auto simp: idempotency_codec.dec_enc length_w_idempotency simp flip: length_0_conv)

interpretation incarnation_faithful: faithful_codec w_incarnation r_incarnation
  by unfold_locales
    (auto simp: incarnation_codec.dec_enc length_w_incarnation simp flip: length_0_conv)

interpretation string_faithful: faithful_codec w_string "r_string limits m" for limits m
proof unfold_locales
  fix s :: string and rest r :: "byte list" and t
  assume ok: "\<not> isl (w_string s)"
  then have len: "length s < 4294967296" by (simp add: codec_simps)
  then show "projr (w_string s) \<noteq> []"
    using length_w_string [of s] by auto
  assume "r_string limits m (projr (w_string s) @ rest) = Inr (t, r)"
  then show "t = s \<and> r = rest"
    using len
    by (auto simp: r_string_def w_string_def codec_simps w_raw_def unat_word_of_nat_u32
        r_bind_eq_Inr [of "r_take n" for n] r_take_append bind_throw_if_iff o_def)
qed

interpretation pid_faithful: faithful_codec w_pid "decode_participant_id limits" for limits
proof unfold_locales
  fix p q :: ParticipantId and rest r :: "byte list"
  assume ok: "\<not> isl (w_pid p)"
  then show "projr (w_pid p) \<noteq> []" unfolding w_pid_def by (rule string_faithful.nonempty)
  assume "length (projr (w_pid p)) < 4294967296"
    "decode_participant_id limits (projr (w_pid p) @ rest) = Inr (q, r)"
  with ok show "q = p \<and> r = rest"
    by (auto simp: w_pid_def decode_participant_id_def string_faithful.bind_faithful r_some_eq_Inr
        pid_parse_Some intro: ParticipantId.expand)
qed

interpretation text_faithful: faithful_codec w_text "decode_bounded_text limits" for limits
proof unfold_locales
  fix p q :: BoundedText and rest r :: "byte list"
  assume ok: "\<not> isl (w_text p)"
  then show "projr (w_text p) \<noteq> []" unfolding w_text_def by (rule string_faithful.nonempty)
  assume "length (projr (w_text p)) < 4294967296"
    "decode_bounded_text limits (projr (w_text p) @ rest) = Inr (q, r)"
  with ok show "q = p \<and> r = rest"
    by (auto simp: w_text_def decode_bounded_text_def string_faithful.bind_faithful
        bind_throw_if_iff codec_simps)
qed

interpretation scope_faithful: faithful_codec w_scope "decode_scope limits" for limits
proof unfold_locales
  fix p q :: AuthorityScope and rest r :: "byte list"
  assume ok: "\<not> isl (w_scope p)"
  then show "projr (w_scope p) \<noteq> []" by (auto simp: w_scope_def codec_simps w_u8_def)
  assume "length (projr (w_scope p)) < 4294967296"
    "decode_scope limits (projr (w_scope p) @ rest) = Inr (q, r)"
  with ok show "q = p \<and> r = rest"
    by (cases p; cases q)
      (auto simp: w_scope_def decode_scope_def codec_simps bind_some_iff
        string_faithful.bind_faithful r_some_eq_Inr scope_parse_Some)
qed

interpretation scope_set_faithful: faithful_codec encode_scope_set_canonical
  "decode_scope_set_canonical limits" for limits
proof unfold_locales
  fix s t :: ScopeSet and rest r :: "byte list"
  let ?xs = "scopes s"
  assume ok: "\<not> isl (encode_scope_set_canonical s)"
  then have each: "\<not> isl (w_each w_scope ?xs)" "\<forall>x \<in> set ?xs. \<not> isl (w_scope x)"
    by (simp_all add: encode_scope_set_canonical_def codec_simps)
  then have bytes: "projr (encode_scope_set_canonical s) =
      projr (w_count (length ?xs)) @ projr (w_each w_scope ?xs)"
    by (simp add: encode_scope_set_canonical_def codec_simps scope_set_size_def)
  then show "projr (encode_scope_set_canonical s) \<noteq> []"
    by (simp add: codec_simps flip: length_0_conv)
  assume short: "length (projr (encode_scope_set_canonical s)) < 4294967296"
    and dec: "decode_scope_set_canonical limits (projr (encode_scope_set_canonical s) @ rest) = Inr (t, r)"
  from short have short': "length (projr (w_each w_scope ?xs)) < 4294967296" by (simp add: bytes)
  with scope_faithful.each_length [OF each(2)]
  have n: "unat (word_of_nat (length ?xs) :: u32) = length ?xs"
    by (intro unat_word_of_nat_u32) simp
  from dec have "length ?xs \<le> max_scopes_per_grant limits"
    and "decode_scopes limits (length ?xs) (ScopeSet []) (last_option []) (projr (w_each w_scope ?xs) @ rest) = Inr (t, r)"
    by (simp_all add: decode_scope_set_canonical_def bytes codec_simps n bind_throw_if_iff
        empty_scope_set_def last_option_def)
  then obtain ys where ys: "length ys = length ?xs" "list_all (scope_fits limits) ys" "t = ScopeSet ys"
    "projr (w_each w_scope ?xs) @ rest = projr (w_each w_scope ys) @ r"
    by (auto simp: decode_scopes_iff)
  have "r_repeat (length ?xs) (decode_scope limits) (projr (w_each w_scope ?xs) @ rest) = Inr (ys, r)"
    using scope_codec.repeat_each [of ys limits r] ys by (simp add: list_all_iff)
  then have "ys = ?xs \<and> r = rest"
    by (rule scope_faithful.repeat_faithful [OF each(2) short'])
  with ys(3) show "t = s \<and> r = rest" by simp
qed

text \<open>Reading a field back, for the records that are made of these.\<close>

lemmas faithful_binds =
  pid_faithful.bind_faithful text_faithful.bind_faithful scope_set_faithful.bind_faithful
  id_faithful.bind_counted_faithful idempotency_faithful.bind_counted_faithful
  incarnation_faithful.bind_counted_faithful

lemma length_less_append: "length a + n < k \<Longrightarrow> length a < (k :: nat)" "length a + n < k \<Longrightarrow> n < k"
  by simp_all

interpretation participant_faithful: faithful_codec w_participant "r_participant limits" for limits
proof unfold_locales
  fix p q :: DurableParticipant and rest r :: "byte list"
  assume ok: "\<not> isl (w_participant p)"
  then have parts: "\<not> isl (w_pid (dp_id p))" "\<not> isl (encode_scope_set_canonical (dp_scopes p))"
    by (simp_all add: w_participant_def codec_simps)
  then show "projr (w_participant p) \<noteq> []"
    using pid_faithful.nonempty [OF parts(1)] by (simp add: w_participant_def codec_simps)
  assume "length (projr (w_participant p)) < 4294967296"
    "r_participant limits (projr (w_participant p) @ rest) = Inr (q, r)"
  with parts show "q = p \<and> r = rest"
    by (auto simp: w_participant_def r_participant_def codec_simps faithful_binds bind_throw_if_iff
        bind_some_iff)
qed

interpretation fence_faithful: faithful_codec w_fence "r_fence limits" for limits
proof unfold_locales
  fix p q :: FenceRecord and rest r :: "byte list"
  assume ok: "\<not> isl (w_fence p)"
  then have parts: "\<not> isl (w_pid (fr_participant p))" "\<not> isl (w_text (fr_note p))"
    by (simp_all add: w_fence_def codec_simps)
  then show "projr (w_fence p) \<noteq> []"
    using pid_faithful.nonempty [OF parts(1)] by (simp add: w_fence_def codec_simps)
  assume "length (projr (w_fence p)) < 4294967296"
    "r_fence limits (projr (w_fence p) @ rest) = Inr (q, r)"
  with parts show "q = p \<and> r = rest"
    by (auto simp: w_fence_def r_fence_def codec_simps faithful_binds bind_throw_if_iff
        bind_some_iff)
qed

interpretation grant_faithful: faithful_codec w_grant "r_grant limits" for limits
proof unfold_locales
  fix p q :: AuthorityGrant and rest r :: "byte list"
  assume ok: "\<not> isl (w_grant p)"
  then have parts: "\<not> isl (w_pid (ag_participant p))" "\<not> isl (w_text (ag_provenance p))"
    "\<not> isl (encode_scope_set_canonical (ag_scopes p))"
    by (simp_all add: w_grant_def codec_simps)
  then show "projr (w_grant p) \<noteq> []"
    using pid_faithful.nonempty [OF parts(1)] by (simp add: w_grant_def codec_simps)
  assume "length (projr (w_grant p)) < 4294967296"
    "r_grant limits (projr (w_grant p) @ rest) = Inr (q, r)"
  with parts show "q = p \<and> r = rest"
    by (cases "ag_parent p"; cases "ag_delegator_boot p")
      (auto simp: w_grant_def r_grant_def codec_simps faithful_binds bind_throw_if_iff
        bind_some_iff)
qed

interpretation transition_faithful: faithful_codec w_transition "r_transition limits" for limits
proof unfold_locales
  fix p q :: EpochTransitionRecord and rest r :: "byte list"
  assume ok: "\<not> isl (w_transition p)"
  then have parts: "\<not> isl (w_text (tr_provenance p))"
    by (simp_all add: w_transition_def codec_simps)
  then show "projr (w_transition p) \<noteq> []"
    using text_faithful.nonempty [OF parts(1)] by (simp add: w_transition_def codec_simps)
  assume "length (projr (w_transition p)) < 4294967296"
    "r_transition limits (projr (w_transition p) @ rest) = Inr (q, r)"
  with parts show "q = p \<and> r = rest"
    by (auto simp: w_transition_def r_transition_def codec_simps faithful_binds bind_throw_if_iff
        bind_some_iff)
qed

lemma r_durable_state_faithful:
  assumes ok: "\<not> isl (encode_durable_payload st)"
    and short: "length (projr (encode_durable_payload st)) < 4294967296"
    and dec: "r_durable_state limits (projr (encode_durable_payload st)) = Inr (u, rest)"
  shows "u = st \<and> rest = []"
proof -
  have parts: "\<not> isl (w_counted w_participant (st_participants st))"
    "\<not> isl (w_counted w_fence (st_recent_fences st))" "\<not> isl (w_counted w_grant (st_grants st))"
    "\<not> isl (w_counted w_transition (st_transitions st))"
    "\<not> isl (w_counted w_idempotency (st_control_attempts st))"
    using ok by (simp_all add: encode_durable_payload_def codec_simps)
  have lens: "length (projr (w_counted w_participant (st_participants st))) < 4294967296"
    "length (projr (w_counted w_fence (st_recent_fences st))) < 4294967296"
    "length (projr (w_counted w_grant (st_grants st))) < 4294967296"
    "length (projr (w_counted w_transition (st_transitions st))) < 4294967296"
    "length (projr (w_counted w_idempotency (st_control_attempts st))) < 4294967296"
    using short parts by (simp_all add: encode_durable_payload_def codec_simps)
  have control: "r_bind (r_counted n e1 k e2 (r_idempotency e)) f
        (projr (w_counted w_idempotency (st_control_attempts st))) = Inr z \<longleftrightarrow>
      \<not> isl (r_counted n e1 k e2 (r_idempotency e) (projr (w_counted w_idempotency (st_control_attempts st)))) \<and>
      f (st_control_attempts st) [] = Inr z" for n e1 k e2 e f z
    using idempotency_faithful.bind_counted_faithful [OF parts(5) lens(5), of n e1 k e2 e f "[]" z]
    by simp
  note fields = participant_faithful.bind_counted_faithful [OF parts(1) lens(1)]
    fence_faithful.bind_counted_faithful [OF parts(2) lens(2)]
    grant_faithful.bind_counted_faithful [OF parts(3) lens(3)]
    transition_faithful.bind_counted_faithful [OF parts(4) lens(4)]
  from dec show ?thesis
    by (auto simp: r_durable_state_def encode_durable_payload_def codec_simps parts fields control)
qed

section \<open>Images\<close>

lemma decode_payload_faithful:
  assumes "encode_durable_payload st = Inr payload" "length payload < 4294967296"
    and "decode_durable_payload payload limits = Inr u"
  shows "u = st"
  using assms r_durable_state_faithful [of st "structural_limits limits" u]
  by (auto simp: decode_durable_payload_def r_run_def res_bind_eq_Inr r_bind_eq_Inr r_require_end_iff
      codec_simps)

lemma store_decode_length:
  "store_decode options img = Inr u \<Longrightarrow> unat (read_u32_le (drop 8 img)) \<le> kAbsoluteMaxPayloadLength"
  by (auto simp: store_decode_def Let_def split: if_splits)

lemma store_decode_faithful:
  assumes "store_encode st = Inr img" "store_decode options img = Inr u"
  shows "u = st"
proof -
  from assms(1) obtain payload where p: "encode_durable_payload st = Inr payload"
    "length payload \<le> 4294967295" "img = image_body payload @ sha256_hash (image_body payload)"
    by (auto simp: store_encode_def res_bind_eq_Inr image_body_def Let_def split: if_splits)
  have n: "unat (word_of_nat (length payload) :: u32) = length payload"
    using p(2) by (intro unat_word_of_nat_u32) simp
  have "length payload \<le> kAbsoluteMaxPayloadLength"
    using store_decode_length [OF assms(2)] unfolding p(3) image_body_reads(4) n .
  then have "decode_durable_payload payload (so_limits options) = Inr u"
    using assms(2) unfolding p(3) by (simp add: store_decode_body res_bind_eq_Inr)
  with p(1,2) show ?thesis by (auto intro: decode_payload_faithful)
qed

end
