(* ===== verification/Views.thy ===== *)
theory Views
  imports DurableCodec Sha256
begin

text \<open>
  The participant view as it travels in protocol frames, and the two digests of \<open>codec.cpp\<close>: the
  digest of a canonical byte string, which identifies the meaning of a request, and the digest of
  an authority snapshot, computed over the sorted content so that arrival order does not matter.
\<close>

section \<open>Participant views\<close>

definition encode_participant_view :: "ParticipantView \<Rightarrow> writer" where
  "encode_participant_view v =
     w_seq [w_pid (pv_id v), w_counter (pv_registration_generation v),
       w_counter (pv_fence_generation v), w_counter (pv_incarnation_floor v),
       w_u8 (incarnation_policy_wire (pv_policy v)),
       w_u8 (flag_byte (pv_retired v) (pv_revalidation_required v) (pv_has_active_incarnation v)),
       w_id (pv_active_boot v), w_counter (pv_active_incarnation v),
       w_counted w_id (pv_active_boots v),
       encode_scope_set_canonical (pv_scopes v),
       w_u64 (pv_accepted_registrations v), w_u64 (pv_replay_hits v)]"

definition decode_participant_view :: "Limits \<Rightarrow> ParticipantView reader" where
  "decode_participant_view limits =
     r_bind (decode_participant_id limits) (\<lambda>pid.
     r_bind r_counter (\<lambda>registration_generation.
     r_bind r_counter (\<lambda>fence_generation.
     r_bind r_counter (\<lambda>incarnation_floor.
     r_bind r_u8 (\<lambda>policy_byte.
     r_bind (r_some (incarnation_policy_from_wire policy_byte)
       (malformed ''unknown incarnation policy on the wire'')) (\<lambda>policy.
     r_bind r_u8 (\<lambda>flags.
     r_bind (r_throw_if (flags AND 0xF8 \<noteq> 0)
       (malformed ''unknown participant view flag bits set'')) (\<lambda>_.
     r_bind r_id (\<lambda>active_boot.
     r_bind r_counter (\<lambda>active_incarnation.
     r_bind r_u32 (\<lambda>boot_count.
     r_bind (r_throw_if (max_active_workers limits < unat boot_count)
       (resource_limit ''active boot count exceeds limits.max_active_workers'')) (\<lambda>_.
     r_bind (r_repeat (unat boot_count) r_id) (\<lambda>active_boots.
     r_bind (decode_scope_set_canonical limits) (\<lambda>scopes.
     r_bind r_u64 (\<lambda>accepted_registrations.
     r_bind r_u64 (\<lambda>replay_hits.
     r_return
       \<lparr> pv_id = pid, pv_registration_generation = registration_generation,
         pv_fence_generation = fence_generation, pv_incarnation_floor = incarnation_floor,
         pv_policy = policy, pv_retired = (flags AND 0x01 \<noteq> 0),
         pv_revalidation_required = (flags AND 0x02 \<noteq> 0),
         pv_has_active_incarnation = (flags AND 0x04 \<noteq> 0),
         pv_active_boot = active_boot, pv_active_incarnation = active_incarnation,
         pv_active_boots = active_boots, pv_scopes = scopes,
         pv_accepted_registrations = accepted_registrations,
         pv_replay_hits = replay_hits \<rparr>))))))))))))))))"

definition view_fits :: "Limits \<Rightarrow> ParticipantView \<Rightarrow> bool" where
  "view_fits l v \<longleftrightarrow>
     pid_fits l (pv_id v) \<and> scope_set_fits l (pv_scopes v) \<and>
     length (pv_active_boots v) \<le> max_active_workers l \<and> length (pv_active_boots v) < 4294967296"

lemma view_boots_bind:
  "length bs < 4294967296 \<Longrightarrow>
     r_bind r_u32 f (projr (w_counted w_id bs) @ rest) =
       f (word_of_nat (length bs)) (projr (w_each w_id bs) @ rest)"
  using id_codec.each_ok [of bs]
  by (simp add: w_counted_def codec_simps)

interpretation view_codec: canonical_codec encode_participant_view "decode_participant_view l"
  "view_fits l" for l
proof unfold_locales
  fix v :: ParticipantView and rest bs :: "byte list"
  show "view_fits l v \<Longrightarrow> \<not> isl (encode_participant_view v)"
    by (auto simp: encode_participant_view_def view_fits_def codec_simps)
  show "view_fits l v \<Longrightarrow>
      decode_participant_view l (projr (encode_participant_view v) @ rest) = Inr (v, rest)"
    by (auto simp: encode_participant_view_def decode_participant_view_def view_fits_def
        codec_simps view_boots_bind unat_word_of_nat_u32 id_codec.bind_repeat_each)
  show "decode_participant_view l bs = Inr (v, rest) \<Longrightarrow>
      view_fits l v \<and> bs = projr (encode_participant_view v) @ rest"
  proof -
    assume dec: "decode_participant_view l bs = Inr (v, rest)"
    have count: "length xs < 4294967296 \<and> unat n = length xs \<and>
        (\<forall>r. projr (w_u32 n) @ projr (w_each w_id xs) @ r = projr (w_counted w_id xs) @ r)"
      if "length xs = unat n" for n :: u32 and xs :: "WorkerBootId list"
    proof -
      from that have "word_of_nat (length xs) = n" "unat n < 4294967296" "\<not> isl (w_each w_id xs)"
        using id_codec.each_ok [of xs] unsigned_less [of n] by simp_all
      with that show ?thesis by (simp add: w_counted_def codec_simps w_count_def)
    qed
    from dec show ?thesis
      by (auto simp: encode_participant_view_def decode_participant_view_def view_fits_def
          codec_simps r_bind_eq_Inr pid_codec.dec_iff counter_codec.dec_iff u8_codec.dec_iff
          r_some_eq_Inr r_throw_if_eq_Inr id_codec.dec_iff scope_set_codec.dec_iff
          u64_codec.dec_iff u32_codec.dec_iff id_codec.repeat_iff policy_from_wire_Some
          flag_byte_canonical dest!: count)
  qed
qed

section \<open>Digests\<close>

definition compute_semantic_digest :: "byte list \<Rightarrow> SnapshotDigest" where
  "compute_semantic_digest canonical = digest_from_bytes (sha256_hash canonical)"

definition w_flag :: "bool \<Rightarrow> writer" where
  "w_flag b = w_u8 (if b then 1 else 0)"

definition fence_less_key :: "FenceRecord \<Rightarrow> ParticipantId \<times> WorkerBootId \<times> FencingGeneration" where
  "fence_less_key f = (fr_participant f, fr_boot f, fr_generation f)"

text \<open>The comparison of fence records: participant, then boot, then generation.\<close>

definition fence_less :: "FenceRecord \<Rightarrow> FenceRecord \<Rightarrow> bool" where
  "fence_less l r \<longleftrightarrow>
     (if fr_participant l \<noteq> fr_participant r then fr_participant l < fr_participant r
      else if fr_boot l \<noteq> fr_boot r then fr_boot l < fr_boot r
      else fr_generation l < fr_generation r)"

fun insert_fence :: "FenceRecord \<Rightarrow> FenceRecord list \<Rightarrow> FenceRecord list" where
  "insert_fence x [] = [x]"
| "insert_fence x (y # ys) = (if fence_less y x then y # insert_fence x ys else x # y # ys)"

definition sort_fences :: "FenceRecord list \<Rightarrow> FenceRecord list" where
  "sort_fences fs = foldr insert_fence fs []"

definition w_view_digest :: "ParticipantView \<Rightarrow> writer" where
  "w_view_digest v =
     w_seq [w_pid (pv_id v), w_counter (pv_registration_generation v),
       w_counter (pv_fence_generation v), w_counter (pv_incarnation_floor v),
       w_u8 (incarnation_policy_wire (pv_policy v)),
       w_flag (pv_retired v), w_flag (pv_revalidation_required v),
       w_id (pv_active_boot v), w_counter (pv_active_incarnation v),
       w_counted w_id (sort (pv_active_boots v)),
       encode_scope_set_canonical (pv_scopes v)]"

definition w_fence_digest :: "FenceRecord \<Rightarrow> writer" where
  "w_fence_digest f =
     w_seq [w_id (fr_boot f), w_pid (fr_participant f), w_u8 (fence_reason_wire (fr_reason f)),
       w_counter (fr_generation f), w_counter (fr_epoch f), w_counter (fr_incarnation f)]"

definition w_grant_digest :: "GrantView \<Rightarrow> writer" where
  "w_grant_digest g =
     w_seq [w_id (gv_id g), w_counter (gv_epoch g), w_pid (gv_participant g), w_id (gv_boot g),
       w_counter (gv_generation g), w_flag (gv_revoked g), w_flag (gv_delegated g),
       encode_scope_set_canonical (gv_scopes g)]"

definition compute_snapshot_digest :: "AuthoritySnapshot \<Rightarrow> SnapshotDigest res" where
  "compute_snapshot_digest s =
     res_bind (w_seq [w_string ''FABRIC-EPOCH-SNAPSHOT-V1'',
       w_counter (sn_epoch s), w_id (sn_coordinator_boot s), w_counter (sn_generation s),
       w_counter (sn_registration_floor s), w_counter (sn_fence_floor s),
       w_counted w_view_digest (sort_key pv_id (sn_participants s)),
       w_counted w_fence_digest (sort_fences (sn_fences s)),
       w_counted w_grant_digest (sort_key gv_id (sn_grants s))])
     (\<lambda>bytes. Inr (compute_semantic_digest bytes))"

end
