(* ===== verification/RuntimeState.thy ===== *)
theory RuntimeState
  imports Store Views "HOL-Library.AList"
begin

text \<open>
  The state of the authority engine (\<open>EpochRuntime::Impl\<close> of \<open>runtime.cpp\<close>): the durable records, the
  secondary indexes over them, lookups, the undo log and the durability barrier. Every public
  operation runs under one lock, so an operation is one step of the state.

  A C++ pointer to a participant record is the record's position. The session table is an
  association list, because its size matters; the other indexes are maps. An operation is a function on
  \<open>txn\<close>: the runtime, the undo actions pushed so far (newest first), and the \<open>mutated\<close> flag.
  Generated identifiers and the faults of the file system are inputs (\<open>env\<close>).
\<close>

section \<open>Options and sessions\<close>

datatype IncarnationReplacementPolicy = RequireExplicitFence | ReplaceIncumbent

fun replacement_policy_to_string :: "IncarnationReplacementPolicy \<Rightarrow> string" where
  "replacement_policy_to_string RequireExplicitFence = ''REQUIRE_EXPLICIT_FENCE''"
| "replacement_policy_to_string ReplaceIncumbent = ''REPLACE_INCUMBENT''"

datatype SessionClosureReason =
    PeerDisconnect
  | ProtocolViolationClosure
  | ServerShutdown
  | ExplicitClose
  | RegistrationReplaced

fun closure_reason_to_string :: "SessionClosureReason \<Rightarrow> string" where
  "closure_reason_to_string PeerDisconnect = ''PEER_DISCONNECT''"
| "closure_reason_to_string ProtocolViolationClosure = ''PROTOCOL_VIOLATION''"
| "closure_reason_to_string ServerShutdown = ''SERVER_SHUTDOWN''"
| "closure_reason_to_string ExplicitClose = ''EXPLICIT_CLOSE''"
| "closure_reason_to_string RegistrationReplaced = ''REGISTRATION_REPLACED''"

fun fence_reason_for :: "SessionClosureReason \<Rightarrow> FenceReason" where
  "fence_reason_for ProtocolViolationClosure = FenceReason.SessionProtocolViolation"
| "fence_reason_for ServerShutdown = FenceReason.Shutdown"
| "fence_reason_for RegistrationReplaced = FenceReason.AuthorityReplaced"
| "fence_reason_for ExplicitClose = FenceReason.ProcessLoss"
| "fence_reason_for PeerDisconnect = FenceReason.ProcessLoss"

record EpochRuntimeOptions =
  op_store_path :: string
  op_limits :: Limits
  op_provenance :: BoundedText
  op_replacement_policy :: IncarnationReplacementPolicy
  op_allow_multi_incarnation :: bool
  op_registrable_scope_kinds :: "ScopeKind \<Rightarrow> bool"
  op_fence_on_session_loss :: bool
  op_advance_epoch_on_open :: bool
  op_coordinator_boot :: "CoordinatorBootId option"

definition store_options :: "EpochRuntimeOptions \<Rightarrow> StoreOptions" where
  "store_options o' =
     \<lparr> so_path = op_store_path o', so_limits = op_limits o', so_create_if_missing = True,
       so_enable_rollback_watermark = True \<rparr>"

record SessionBinding =
  sb_id :: SessionId
  sb_participant :: ParticipantId
  sb_boot :: WorkerBootId
  sb_incarnation :: IncarnationSequence
  sb_epoch :: CoordinatorEpoch
  sb_registration_generation :: RegistrationGeneration

section \<open>The runtime\<close>

record impl =
  im_options :: EpochRuntimeOptions
  im_disk :: disk
  im_state :: DurableState
  im_participant_index :: "string \<rightharpoonup> nat"
  im_boot_index :: "string \<rightharpoonup> nat"
  im_fence_index :: "string \<rightharpoonup> nat list"
  im_grant_index :: "string \<rightharpoonup> nat"
  im_grant_children :: "string \<rightharpoonup> nat list"
  im_session_index :: "(string \<times> SessionBinding) list"
  im_boot_session_index :: "string \<rightharpoonup> string"
  im_active_workers :: nat

abbreviation im_limits :: "impl \<Rightarrow> Limits" where
  "im_limits s \<equiv> op_limits (im_options s)"

abbreviation im_participants :: "impl \<Rightarrow> DurableParticipant list" where
  "im_participants s \<equiv> st_participants (im_state s)"

text \<open>The inputs an operation takes from outside: fresh identifiers (or the failure of the entropy
  source) and the behaviour of the file system.\<close>

record env =
  en_io :: io
  en_coordinator_boot :: "CoordinatorBootId res"
  en_transition :: "EpochTransitionId res"
  en_grant :: "AuthorityGrantId res"
  en_snapshot :: "EpochSnapshotId res"

section \<open>Indexes\<close>

definition participant_index_of :: "DurableParticipant list \<Rightarrow> string \<rightharpoonup> nat" where
  "participant_index_of ps = index_from 0 (\<lambda>p. pid_value (dp_id p)) ps Map.empty"

definition boot_entries :: "DurableParticipant list \<Rightarrow> (string \<times> nat) list" where
  "boot_entries ps =
     concat (map (\<lambda>(i, p). map (\<lambda>b. (id_to_string b, i)) (participant_boots p)) (enumerate 0 ps))"

definition boot_index_of :: "DurableParticipant list \<Rightarrow> string \<rightharpoonup> nat" where
  "boot_index_of ps = foldl (\<lambda>m (k, i). m(k \<mapsto> i)) Map.empty (boot_entries ps)"

definition fence_index_of :: "FenceRecord list \<Rightarrow> string \<rightharpoonup> nat list" where
  "fence_index_of fs = multi_index_from 0 (\<lambda>f. Some (id_to_string (fr_boot f))) fs Map.empty"

definition grant_index_of :: "AuthorityGrant list \<Rightarrow> string \<rightharpoonup> nat" where
  "grant_index_of gs = index_from 0 (\<lambda>g. id_to_string (ag_id g)) gs Map.empty"

definition grant_children_of :: "AuthorityGrant list \<Rightarrow> string \<rightharpoonup> nat list" where
  "grant_children_of gs = multi_index_from 0 (\<lambda>g. map_option id_to_string (ag_parent g)) gs Map.empty"

definition active_worker_count :: "DurableParticipant list \<Rightarrow> nat" where
  "active_worker_count ps = sum_list (map (\<lambda>p. length (participant_boots p)) ps)"

definition rebuild_indexes :: "impl \<Rightarrow> impl" where
  "rebuild_indexes s = s\<lparr>
     im_participant_index := participant_index_of (im_participants s),
     im_boot_index := boot_index_of (im_participants s),
     im_fence_index := fence_index_of (st_recent_fences (im_state s)),
     im_grant_index := grant_index_of (st_grants (im_state s)),
     im_grant_children := grant_children_of (st_grants (im_state s)),
     im_active_workers := active_worker_count (im_participants s) \<rparr>"

definition indexes_match :: "impl \<Rightarrow> bool" where
  "indexes_match s \<longleftrightarrow>
     im_participant_index s = participant_index_of (im_participants s) \<and>
     im_boot_index s = boot_index_of (im_participants s) \<and>
     im_fence_index s = fence_index_of (st_recent_fences (im_state s)) \<and>
     im_grant_index s = grant_index_of (st_grants (im_state s)) \<and>
     im_grant_children s = grant_children_of (st_grants (im_state s)) \<and>
     im_active_workers s = active_worker_count (im_participants s)"

definition canonicalize :: "impl \<Rightarrow> impl" where
  "canonicalize s =
     (if sorted (map dp_id (im_participants s)) then s
      else s\<lparr> im_state := (im_state s)\<lparr>
        st_participants := sort_key dp_id (im_participants s) \<rparr> \<rparr>)"

section \<open>Lookups\<close>

text \<open>A linear search by identifier, as the undo actions use, and the lookup through the index.\<close>

fun position :: "('a \<Rightarrow> bool) \<Rightarrow> 'a list \<Rightarrow> nat option" where
  "position P [] = None"
| "position P (x # xs) = (if P x then Some 0 else map_option Suc (position P xs))"

definition raw_find_participant :: "impl \<Rightarrow> ParticipantId \<Rightarrow> nat option" where
  "raw_find_participant s pid = position (\<lambda>p. dp_id p = pid) (im_participants s)"

definition find_participant :: "impl \<Rightarrow> ParticipantId \<Rightarrow> nat option" where
  "find_participant s pid =
     (case im_participant_index s (pid_value pid) of
        None \<Rightarrow> None
      | Some i \<Rightarrow> if length (im_participants s) \<le> i then None else Some i)"

definition participant_at :: "impl \<Rightarrow> nat \<Rightarrow> DurableParticipant" where
  "participant_at s i = im_participants s ! i"

definition lookup_grant :: "impl \<Rightarrow> AuthorityGrantId \<Rightarrow> nat option" where
  "lookup_grant s gid =
     (case im_grant_index s (id_to_string gid) of
        None \<Rightarrow> None
      | Some i \<Rightarrow> if length (st_grants (im_state s)) \<le> i then None else Some i)"

record FenceLookup =
  fl_fenced :: bool
  fl_record :: "FenceRecord option"

definition find_fence_record :: "impl \<Rightarrow> ParticipantId \<Rightarrow> WorkerBootId \<Rightarrow> FenceRecord option" where
  "find_fence_record s pid boot =
     (case im_fence_index s (id_to_string boot) of
        None \<Rightarrow> None
      | Some is \<Rightarrow>
          find (\<lambda>f. fr_participant f = pid)
            (map (\<lambda>i. st_recent_fences (im_state s) ! i)
              (filter (\<lambda>i. i < length (st_recent_fences (im_state s))) is)))"

definition lookup_fence :: "impl \<Rightarrow> ParticipantId \<Rightarrow> WorkerBootId \<Rightarrow> FenceLookup" where
  "lookup_fence s pid boot =
     (case find_fence_record s pid boot of
        Some f \<Rightarrow> \<lparr> fl_fenced = True, fl_record = Some f \<rparr>
      | None \<Rightarrow>
          \<lparr> fl_fenced =
              (case find_participant s pid of
                 None \<Rightarrow> False
               | Some i \<Rightarrow> boot \<in> set (dp_fenced_boots (participant_at s i))),
            fl_record = None \<rparr>)"

definition find_incarnation :: "DurableParticipant \<Rightarrow> WorkerBootId \<Rightarrow> IncarnationSequence option" where
  "find_incarnation p boot =
     (if dp_has_active_boot p \<and> dp_active_boot p = boot then Some (dp_active_incarnation p)
      else map_option ai_sequence (find (\<lambda>i. ai_boot i = boot) (dp_extra_incarnations p)))"

definition has_current_incarnation :: "DurableParticipant \<Rightarrow> bool" where
  "has_current_incarnation p \<longleftrightarrow> dp_has_active_boot p \<or> dp_extra_incarnations p \<noteq> []"

definition incumbent_boot :: "DurableParticipant \<Rightarrow> WorkerBootId" where
  "incumbent_boot p =
     (if dp_has_active_boot p then dp_active_boot p else ai_boot (hd (dp_extra_incarnations p)))"

record IncarnationEvaluation =
  iv_code :: AuthorityValidationCode
  iv_currentness :: AuthorityCurrentness
  iv_incarnation :: "IncarnationSequence option"
  iv_superseded_by :: "WorkerBootId option"
  iv_replaced_by_epoch :: "CoordinatorEpoch option"
  iv_fence_reason :: "FenceReason option"

definition evaluation ::
  "AuthorityValidationCode \<Rightarrow> AuthorityCurrentness \<Rightarrow> IncarnationEvaluation"
where
  "evaluation code currentness =
     \<lparr> iv_code = code, iv_currentness = currentness, iv_incarnation = None,
       iv_superseded_by = None, iv_replaced_by_epoch = None, iv_fence_reason = None \<rparr>"

definition fenced_evaluation :: "DurableParticipant \<Rightarrow> FenceLookup \<Rightarrow> IncarnationEvaluation" where
  "fenced_evaluation p fence =
     (let base = evaluation AuthorityValidationCode.StaleWorkerBoot AuthorityCurrentness.Fenced;
          recorded =
            (case fl_record fence of
               None \<Rightarrow> base
             | Some f \<Rightarrow> base\<lparr>
                 iv_fence_reason := Some (fr_reason f),
                 iv_incarnation :=
                   (if \<not> counter_is_zero (fr_incarnation f) then Some (fr_incarnation f) else None),
                 iv_replaced_by_epoch :=
                   (if counter_value (fr_epoch f) \<noteq> 0 then Some (fr_epoch f) else None) \<rparr>)
      in recorded\<lparr> iv_superseded_by :=
           (if has_current_incarnation p then Some (incumbent_boot p) else None) \<rparr>)"

definition evaluate_incarnation ::
  "impl \<Rightarrow> DurableParticipant \<Rightarrow> WorkerBootId \<Rightarrow> IncarnationSequence \<Rightarrow> IncarnationEvaluation"
where
  "evaluate_incarnation s p boot claimed =
     (case find_incarnation p boot of
        Some current \<Rightarrow>
          (if counter_value claimed \<noteq> 0 \<and> claimed \<noteq> current
           then (evaluation AuthorityValidationCode.StaleWorkerBoot AuthorityCurrentness.Fenced)
             \<lparr> iv_incarnation := Some current \<rparr>
           else (evaluation AuthorityValidationCode.Current AuthorityCurrentness.Current)
             \<lparr> iv_incarnation := Some current \<rparr>)
      | None \<Rightarrow>
          let fence = lookup_fence s (dp_id p) boot
          in if fl_fenced fence then fenced_evaluation p fence
             else if counter_value claimed \<noteq> 0 \<and> claimed \<le> dp_incarnation_floor p
             then evaluation AuthorityValidationCode.StaleWorkerBoot AuthorityCurrentness.Fenced
             else if \<not> has_current_incarnation p
             then (if dp_revalidation_required p
                   then evaluation AuthorityValidationCode.RevalidationRequired
                     AuthorityCurrentness.RevalidationRequired
                   else evaluation AuthorityValidationCode.StaleWorkerBoot
                     AuthorityCurrentness.Fenced)
             else (evaluation AuthorityValidationCode.StaleWorkerBoot AuthorityCurrentness.Fenced)
               \<lparr> iv_superseded_by := Some (incumbent_boot p) \<rparr>)"

section \<open>Idempotency tables\<close>

definition find_attempt :: "IdempotencyRecord list \<Rightarrow> MutationAttemptId \<Rightarrow> IdempotencyRecord option"
where
  "find_attempt table attempt = find (\<lambda>r. ir_attempt r = attempt) table"

definition remember_attempt ::
  "Limits \<Rightarrow> IdempotencyRecord \<Rightarrow> IdempotencyRecord list \<Rightarrow> IdempotencyRecord list"
where
  "remember_attempt limits r table =
     push_bounded (max_idempotency_records_per_participant limits) r table"

definition digest_of :: "writer list \<Rightarrow> SnapshotDigest res" where
  "digest_of ws = res_bind (w_seq ws) (\<lambda>bytes. Inr (compute_semantic_digest bytes))"

definition register_digest :: "RegisterParticipantRequest \<Rightarrow> SnapshotDigest res" where
  "register_digest r =
     digest_of [w_u8 (operation_kind_wire OperationKind.RegisterParticipant),
       w_pid (rp_participant r), w_id (rp_boot r), w_u8 (incarnation_policy_wire (rp_policy r)),
       encode_scope_set_canonical (rp_scopes r)]"

definition fence_digest :: "FenceWorkerRequest \<Rightarrow> SnapshotDigest res" where
  "fence_digest r =
     digest_of [w_u8 (operation_kind_wire OperationKind.FenceWorker),
       w_pid (fw_participant r), w_id (fw_boot r), w_u8 (fence_reason_wire (fw_reason r))]"

definition grant_digest :: "GrantAuthorityRequest \<Rightarrow> SnapshotDigest res" where
  "grant_digest r =
     digest_of [w_u8 (operation_kind_wire OperationKind.GrantAuthority),
       w_pid (gq_participant r), w_id (gq_boot r), w_counter (gq_incarnation r),
       encode_scope_set_canonical (gq_scopes r),
       w_fixed16 (case gq_parent r of Some i \<Rightarrow> id_bytes i | None \<Rightarrow> replicate 16 0)]"

definition revoke_digest :: "RevokeAuthorityRequest \<Rightarrow> SnapshotDigest res" where
  "revoke_digest r =
     digest_of [w_u8 (operation_kind_wire OperationKind.RevokeAuthority), w_id (vq_grant r),
       w_u8 (fence_reason_wire (vq_reason r))]"

definition retire_digest :: "RetireParticipantRequest \<Rightarrow> SnapshotDigest res" where
  "retire_digest r =
     digest_of [w_u8 (operation_kind_wire OperationKind.RetireParticipant),
       w_pid (tq_participant r)]"

definition advance_digest :: "EpochAdvanceRequest \<Rightarrow> SnapshotDigest res" where
  "advance_digest r =
     digest_of [w_u8 (operation_kind_wire OperationKind.AdvanceEpoch),
       w_u8 (transition_cause_wire (eq_cause r))]"

end
