(* ===== verification/Transaction.thy ===== *)
theory Transaction
  imports RuntimeState
begin

text \<open>
  Transactions of the runtime: the undo log (\<open>UndoLog\<close>), the generation counter and the durability
  barrier (\<open>bump_generation\<close>, \<open>persist\<close>). An operation that throws, or returns without reaching the
  barrier, leaves its undo actions to the destructor of the log, which runs them newest first.
\<close>

section \<open>Operations on a transaction\<close>

record txn =
  tx_impl :: impl
  tx_undo :: "(impl \<Rightarrow> impl) list"
  tx_mutated :: bool

type_synonym 'a tx = "txn \<Rightarrow> 'a res \<times> txn"

definition tx_return :: "'a \<Rightarrow> 'a tx" where
  "tx_return x = (\<lambda>t. (Inr x, t))"

definition tx_throw :: "EpochError \<Rightarrow> 'a tx" where
  "tx_throw e = (\<lambda>t. (Inl e, t))"

definition tx_bind :: "'a tx \<Rightarrow> ('a \<Rightarrow> 'b tx) \<Rightarrow> 'b tx" where
  "tx_bind m f = (\<lambda>t. case m t of (Inl e, t') \<Rightarrow> (Inl e, t') | (Inr x, t') \<Rightarrow> f x t')"

definition tx_lift :: "'a res \<Rightarrow> 'a tx" where
  "tx_lift r = (\<lambda>t. (r, t))"

definition tx_get :: "impl tx" where
  "tx_get = (\<lambda>t. (Inr (tx_impl t), t))"

definition tx_modify :: "(impl \<Rightarrow> impl) \<Rightarrow> unit tx" where
  "tx_modify f = (\<lambda>t. (Inr (), t\<lparr> tx_impl := f (tx_impl t) \<rparr>))"

definition tx_push_undo :: "(impl \<Rightarrow> impl) \<Rightarrow> unit tx" where
  "tx_push_undo action = (\<lambda>t. (Inr (), t\<lparr> tx_undo := action # tx_undo t \<rparr>))"

definition tx_set_mutated :: "unit tx" where
  "tx_set_mutated = (\<lambda>t. (Inr (), t\<lparr> tx_mutated := True \<rparr>))"

text \<open>\<open>counter.next()\<close>, throwing when there is none.\<close>

definition tx_next :: "'tag MonotonicCounter \<Rightarrow> string \<Rightarrow> 'tag MonotonicCounter tx" where
  "tx_next c message =
     (case counter_next c of None \<Rightarrow> tx_throw (overflow message) | Some n \<Rightarrow> tx_return n)"

section \<open>Undo and durability\<close>

definition undo_rollback :: "txn \<Rightarrow> txn" where
  "undo_rollback t = t\<lparr> tx_impl := foldl (\<lambda>s action. action s) (tx_impl t) (tx_undo t), tx_undo := [] \<rparr>"

definition undo_commit :: "txn \<Rightarrow> txn" where
  "undo_commit t = t\<lparr> tx_undo := [] \<rparr>"

definition set_generation :: "EpochGeneration \<Rightarrow> impl \<Rightarrow> impl" where
  "set_generation g s = s\<lparr> im_state := (im_state s)\<lparr> st_generation := g \<rparr> \<rparr>"

definition bump_generation :: "unit tx" where
  "bump_generation =
     tx_bind tx_get (\<lambda>s.
     tx_bind (tx_push_undo (set_generation (st_generation (im_state s)))) (\<lambda>_.
     tx_bind (tx_next (st_generation (im_state s))
       ''durable state generation counter is exhausted'') (\<lambda>next.
     tx_modify (set_generation next))))"

definition save_impl :: "io \<Rightarrow> impl \<Rightarrow> unit res \<times> impl" where
  "save_impl io s =
     (let (r, d) = store_save (store_options (im_options s)) io (im_state s) (im_disk s)
      in (r, s\<lparr> im_disk := d \<rparr>))"

definition persist :: "io \<Rightarrow> unit tx" where
  "persist io = (\<lambda>t0.
     let t = t0\<lparr> tx_impl := canonicalize (tx_impl t0) \<rparr>
     in case save_impl io (tx_impl t) of
          (Inl e, s) \<Rightarrow>
            (let r = undo_rollback (t\<lparr> tx_impl := s \<rparr>)
             in (Inl e, r\<lparr> tx_impl := rebuild_indexes (tx_impl r) \<rparr>))
        | (Inr _, s) \<Rightarrow> (Inr (), undo_commit (t\<lparr> tx_impl := rebuild_indexes s \<rparr>)))"

text \<open>A public operation: the body, the barrier when something was mutated, the destructor.\<close>

definition begin_tx :: "impl \<Rightarrow> txn" where
  "begin_tx s = \<lparr> tx_impl = s, tx_undo = [], tx_mutated = False \<rparr>"

definition end_tx :: "'a res \<times> txn \<Rightarrow> 'a res \<times> impl" where
  "end_tx = (\<lambda>(r, t). (r, tx_impl (undo_rollback t)))"

definition persist_if_mutated :: "io \<Rightarrow> 'a \<Rightarrow> 'a tx" where
  "persist_if_mutated io result = (\<lambda>t.
     if tx_mutated t then tx_bind (persist io) (\<lambda>_. tx_return result) t else (Inr result, t))"

definition run_tx :: "io \<Rightarrow> 'a tx \<Rightarrow> impl \<Rightarrow> 'a res \<times> impl" where
  "run_tx io body s = end_tx (tx_bind body (persist_if_mutated io) (begin_tx s))"

section \<open>Updates of the durable records\<close>

definition upd_state :: "(DurableState \<Rightarrow> DurableState) \<Rightarrow> impl \<Rightarrow> impl" where
  "upd_state f s = s\<lparr> im_state := f (im_state s) \<rparr>"

definition upd_participant :: "nat \<Rightarrow> (DurableParticipant \<Rightarrow> DurableParticipant) \<Rightarrow> impl \<Rightarrow> impl" where
  "upd_participant i f =
     upd_state (\<lambda>st. st\<lparr> st_participants := (st_participants st)[i := f (st_participants st ! i)] \<rparr>)"

text \<open>An undo action that finds the record again by its identifier.\<close>

definition restore_participant ::
  "ParticipantId \<Rightarrow> (DurableParticipant \<Rightarrow> DurableParticipant) \<Rightarrow> impl \<Rightarrow> impl"
where
  "restore_participant pid f s =
     (case raw_find_participant s pid of None \<Rightarrow> s | Some i \<Rightarrow> upd_participant i f s)"

section \<open>Evaluation rules\<close>

named_theorems tx_simps

lemma tx_basic [tx_simps]:
  "tx_return x t = (Inr x, t)"
  "tx_throw e t = (Inl e, t)"
  "tx_lift r t = (r, t)"
  "tx_get t = (Inr (tx_impl t), t)"
  "tx_modify f t = (Inr (), t\<lparr> tx_impl := f (tx_impl t) \<rparr>)"
  "tx_push_undo a t = (Inr (), t\<lparr> tx_undo := a # tx_undo t \<rparr>)"
  "tx_set_mutated t = (Inr (), t\<lparr> tx_mutated := True \<rparr>)"
  by (simp_all add: tx_return_def tx_throw_def tx_lift_def tx_get_def tx_modify_def
      tx_push_undo_def tx_set_mutated_def)

lemma tx_bind_apply [tx_simps]:
  "tx_bind (tx_return x) f t = f x t"
  "tx_bind (tx_throw e) f' t = (Inl e, t)"
  "tx_bind tx_get g t = g (tx_impl t) t"
  "tx_bind (tx_modify u) h t = h () (t\<lparr> tx_impl := u (tx_impl t) \<rparr>)"
  "tx_bind (tx_push_undo a) h t = h () (t\<lparr> tx_undo := a # tx_undo t \<rparr>)"
  "tx_bind tx_set_mutated h t = h () (t\<lparr> tx_mutated := True \<rparr>)"
  by (simp_all add: tx_bind_def tx_basic)

lemma tx_bind_assoc [tx_simps]: "tx_bind (tx_bind m f) g t = tx_bind m (\<lambda>x. tx_bind (f x) g) t"
  by (auto simp: tx_bind_def split: prod.splits sum.splits)

lemma tx_bind_Inr: "m t = (Inr x, t') \<Longrightarrow> tx_bind m f t = f x t'"
  by (simp add: tx_bind_def)

lemma tx_bind_Inl: "m t = (Inl e, t') \<Longrightarrow> tx_bind m f t = (Inl e, t')"
  by (simp add: tx_bind_def)

lemma tx_bind_lift [tx_simps]:
  "tx_bind (tx_lift (Inr x)) f t = f x t"
  "tx_bind (tx_lift (Inl e)) f' t = (Inl e, t)"
  by (simp_all add: tx_bind_def tx_basic)

section \<open>Invariants of a transaction body\<close>

text \<open>
  \<open>tx_keeps P m\<close>: the body \<open>m\<close> keeps the relation \<open>P\<close> between the runtime it starts from and the one
  it leaves, whether it returns or throws. Reflexive and transitive relations compose.
\<close>

definition tx_keeps :: "(impl \<Rightarrow> impl \<Rightarrow> bool) \<Rightarrow> 'a tx \<Rightarrow> bool" where
  "tx_keeps P m \<longleftrightarrow> (\<forall>t. P (tx_impl t) (tx_impl (snd (m t))))"

locale tx_relation =
  fixes P :: "impl \<Rightarrow> impl \<Rightarrow> bool"
  assumes rel_refl: "P s s"
    and rel_trans: "P s u \<Longrightarrow> P u v \<Longrightarrow> P s v"
begin

lemma keeps_return: "tx_keeps P (tx_return x)"
  by (simp add: tx_keeps_def tx_simps rel_refl)

lemma keeps_throw: "tx_keeps P (tx_throw e)"
  by (simp add: tx_keeps_def tx_simps rel_refl)

lemma keeps_lift: "tx_keeps P (tx_lift r)"
  by (simp add: tx_keeps_def tx_simps rel_refl)

lemma keeps_get: "tx_keeps P tx_get"
  by (simp add: tx_keeps_def tx_simps rel_refl)

lemma keeps_push: "tx_keeps P (tx_push_undo a)"
  by (simp add: tx_keeps_def tx_simps rel_refl)

lemma keeps_mutated: "tx_keeps P tx_set_mutated"
  by (simp add: tx_keeps_def tx_simps rel_refl)

lemma keeps_next: "tx_keeps P (tx_next c msg)"
  by (simp add: tx_next_def keeps_return keeps_throw split: option.split)

lemma keeps_bind:
  assumes "tx_keeps P m" "\<And>x. tx_keeps P (f x)"
  shows "tx_keeps P (tx_bind m f)"
  unfolding tx_keeps_def
proof
  fix t
  show "P (tx_impl t) (tx_impl (snd (tx_bind m f t)))"
  proof (cases "m t")
    case (Pair r t')
    then have "P (tx_impl t) (tx_impl t')"
      using assms(1) by (metis snd_conv tx_keeps_def)
    then show ?thesis
      using Pair assms(2) unfolding tx_keeps_def tx_bind_def
      by (cases r) (auto intro: rel_trans)
  qed
qed

end

end
