(* ===== verification/Fencing.thy ===== *)
theory Fencing
  imports Transaction
begin

text \<open>
  Fencing of worker incarnations (\<open>record_fence\<close> and \<open>EpochRuntime::fence_worker\<close> of \<open>runtime.cpp\<close>). A
  fence of a current incarnation takes it out of the live set, raises the fencing floor and leaves a
  record; a fence of a boot that is not an incarnation is a purely descriptive record; a boot that
  is already fenced is left as it is.
\<close>

section \<open>Results\<close>

definition fence_result :: "DurableState \<Rightarrow> FenceOutcome \<Rightarrow> Explanation \<Rightarrow> FenceResult" where
  "fence_result st outcome e =
     \<lparr> fo_outcome = outcome, fo_epoch = st_current_epoch st, fo_generation = None,
       fo_incarnation = None, fo_explanation = e \<rparr>"

definition fence_unknown_participant :: "DurableState \<Rightarrow> ParticipantId \<Rightarrow> FenceResult" where
  "fence_unknown_participant st pid =
     fence_result st FenceOutcome.UnknownParticipant
       (explain ParticipantUnknown [(''participant'', pid_value pid)])"

definition fence_already :: "DurableState \<Rightarrow> DurableParticipant \<Rightarrow> WorkerBootId \<Rightarrow> FenceLookup \<Rightarrow> FenceResult"
where
  "fence_already st p boot existing =
     (fence_result st FenceOutcome.AlreadyFenced
        (explain FenceIdempotent
          [(''boot'', id_to_string boot),
           (''fence_generation'', counter_to_string (dp_fence_generation p))]))
     \<lparr> fo_generation := Some (dp_fence_generation p),
       fo_incarnation := map_option fr_incarnation (fl_record existing) \<rparr>"

definition fence_not_current :: "DurableState \<Rightarrow> DurableParticipant \<Rightarrow> WorkerBootId \<Rightarrow> FenceResult" where
  "fence_not_current st p boot =
     (fence_result st FenceOutcome.AlreadyFenced
        (explain FenceIdempotent
          [(''boot'', id_to_string boot), (''reason'', ''the boot is not a current incarnation'')]))
     \<lparr> fo_generation := Some (dp_fence_generation p) \<rparr>"

definition fence_history_full :: "DurableState \<Rightarrow> FenceResult" where
  "fence_history_full st =
     fence_result st FenceOutcome.ResourceLimit
       (explain ResourceLimitReached [(''limit'', ''max_recent_fences'')])"

section \<open>Updates\<close>

definition remove_live :: "WorkerBootId \<Rightarrow> DurableParticipant \<Rightarrow> DurableParticipant" where
  "remove_live boot p =
     (if dp_has_active_boot p \<and> dp_active_boot p = boot
      then (case dp_extra_incarnations p of
              i # is \<Rightarrow> p\<lparr> dp_active_boot := ai_boot i, dp_active_incarnation := ai_sequence i,
                dp_extra_incarnations := is \<rparr>
            | [] \<Rightarrow> p\<lparr> dp_has_active_boot := False, dp_active_boot := id_nil,
                dp_active_incarnation := MonotonicCounter 0 \<rparr>)
      else p\<lparr> dp_extra_incarnations := filter (\<lambda>i. ai_boot i \<noteq> boot) (dp_extra_incarnations p) \<rparr>)"

definition raise_floor :: "IncarnationSequence \<Rightarrow> DurableParticipant \<Rightarrow> DurableParticipant" where
  "raise_floor seq p =
     (if dp_incarnation_floor p < seq then p\<lparr> dp_incarnation_floor := seq \<rparr> else p)"

definition fence_record ::
  "DurableState \<Rightarrow> ParticipantId \<Rightarrow> WorkerBootId \<Rightarrow> FenceReason \<Rightarrow> BoundedText \<Rightarrow> FencingGeneration \<Rightarrow>
   IncarnationSequence \<Rightarrow> FenceRecord"
where
  "fence_record st pid boot reason note generation incarnation =
     \<lparr> fr_boot = boot, fr_participant = pid, fr_reason = reason, fr_generation = generation,
       fr_epoch = st_current_epoch st, fr_incarnation = incarnation, fr_note = note \<rparr>"

definition set_fence_generation :: "nat \<Rightarrow> FencingGeneration \<Rightarrow> impl \<Rightarrow> impl" where
  "set_fence_generation i g s =
     upd_participant i (\<lambda>p. p\<lparr> dp_fence_generation := g \<rparr>)
       (upd_state (\<lambda>st. st\<lparr> st_fence_floor := g \<rparr>) s)"

section \<open>A fence of a boot that is no incarnation\<close>

definition undo_defensive_fence :: "DurableState \<Rightarrow> DurableParticipant \<Rightarrow> impl \<Rightarrow> impl" where
  "undo_defensive_fence st p s =
     restore_participant (dp_id p) (\<lambda>q. q\<lparr> dp_fence_generation := dp_fence_generation p \<rparr>)
       (upd_state (\<lambda>now. now\<lparr> st_fence_floor := st_fence_floor st,
          st_recent_fences :=
            resize_down (length (st_recent_fences st)) (st_recent_fences now) \<rparr>) s)"

definition defensive_fence ::
  "nat \<Rightarrow> ParticipantId \<Rightarrow> WorkerBootId \<Rightarrow> FenceReason \<Rightarrow> BoundedText \<Rightarrow> FenceResult tx"
where
  "defensive_fence i pid boot reason note =
     tx_bind tx_get (\<lambda>s.
     let st = im_state s; p = participant_at s i
     in tx_bind (tx_next (st_fence_floor st) ''fencing generation counter is exhausted'')
       (\<lambda>generation.
     tx_bind (tx_push_undo (undo_defensive_fence st (p\<lparr> dp_id := pid \<rparr>))) (\<lambda>_.
     tx_bind (tx_modify (set_fence_generation i generation)) (\<lambda>_.
     tx_bind (tx_modify (upd_state (\<lambda>st'. st'\<lparr> st_recent_fences := st_recent_fences st' @
       [fence_record st pid boot reason note generation (MonotonicCounter 0)] \<rparr>))) (\<lambda>_.
     tx_bind bump_generation (\<lambda>_.
     tx_bind tx_set_mutated (\<lambda>_.
     tx_return
       ((fence_result st FenceOutcome.Fenced
          (explain FenceRecorded
            [(''boot'', id_to_string boot), (''reason'', fence_reason_to_string reason),
             (''kind'', ''preventive'')]))
        \<lparr> fo_generation := Some generation \<rparr>))))))))"

section \<open>A fence of a current incarnation\<close>

definition undo_live_fence :: "impl \<Rightarrow> DurableParticipant \<Rightarrow> impl \<Rightarrow> impl" where
  "undo_live_fence before p s =
     restore_participant (dp_id p)
       (\<lambda>q. q\<lparr> dp_fence_generation := dp_fence_generation p,
          dp_incarnation_floor := dp_incarnation_floor p,
          dp_has_active_boot := dp_has_active_boot p, dp_active_boot := dp_active_boot p,
          dp_active_incarnation := dp_active_incarnation p,
          dp_extra_incarnations := dp_extra_incarnations p,
          dp_fenced_boots := dp_fenced_boots p \<rparr>)
       ((upd_state (\<lambda>now. now\<lparr> st_fence_floor := st_fence_floor (im_state before),
          st_recent_fences :=
            resize_down (length (st_recent_fences (im_state before))) (st_recent_fences now) \<rparr>) s)
        \<lparr> im_active_workers := im_active_workers before \<rparr>)"

definition close_incarnation :: "nat \<Rightarrow> WorkerBootId \<Rightarrow> IncarnationSequence \<Rightarrow> impl \<Rightarrow> impl" where
  "close_incarnation i boot seq s =
     upd_participant i (raise_floor seq)
       ((upd_participant i (remove_live boot) s)
        \<lparr> im_active_workers := size_dec (im_active_workers s) \<rparr>)"

definition retain_fence :: "nat \<Rightarrow> FenceRecord \<Rightarrow> impl \<Rightarrow> impl" where
  "retain_fence i f s =
     upd_state (\<lambda>st. st\<lparr> st_recent_fences :=
         push_bounded (max_recent_fences (im_limits s)) f (st_recent_fences st) \<rparr>)
       (upd_participant i (\<lambda>p. p\<lparr> dp_fenced_boots :=
         push_bounded (max_fenced_boots_per_participant (im_limits s)) (fr_boot f)
           (dp_fenced_boots p) \<rparr>) s)"

definition live_fence ::
  "nat \<Rightarrow> ParticipantId \<Rightarrow> WorkerBootId \<Rightarrow> IncarnationSequence \<Rightarrow> FenceReason \<Rightarrow> BoundedText \<Rightarrow> FenceResult tx"
where
  "live_fence i pid boot seq reason note =
     tx_bind tx_get (\<lambda>s.
     let st = im_state s
     in tx_bind (tx_push_undo (undo_live_fence s ((participant_at s i)\<lparr> dp_id := pid \<rparr>))) (\<lambda>_.
     tx_bind (tx_modify (close_incarnation i boot seq)) (\<lambda>_.
     tx_bind (tx_next (st_fence_floor st) ''fencing generation counter is exhausted'')
       (\<lambda>generation.
     tx_bind (tx_modify (set_fence_generation i generation)) (\<lambda>_.
     tx_bind (tx_modify (retain_fence i
       (fence_record st pid boot reason note generation seq))) (\<lambda>_.
     tx_bind bump_generation (\<lambda>_.
     tx_bind tx_set_mutated (\<lambda>_.
     tx_return
       ((fence_result st FenceOutcome.Fenced
          (explain FenceRecorded
            [(''boot'', id_to_string boot), (''participant'', pid_value pid),
             (''reason'', fence_reason_to_string reason),
             (''incarnation'', counter_to_string seq),
             (''epoch'', counter_to_string (st_current_epoch st))]))
        \<lparr> fo_generation := Some generation, fo_incarnation := Some seq \<rparr>)))))))))"

definition record_fence ::
  "ParticipantId \<Rightarrow> WorkerBootId \<Rightarrow> FenceReason \<Rightarrow> BoundedText \<Rightarrow> bool \<Rightarrow> FenceResult tx"
where
  "record_fence pid boot reason note allow_defensive =
     tx_bind tx_get (\<lambda>s.
     let st = im_state s
     in case find_participant s pid of
          None \<Rightarrow> tx_return (fence_unknown_participant st pid)
        | Some i \<Rightarrow>
            let p = participant_at s i; existing = lookup_fence s pid boot
            in if fl_fenced existing then tx_return (fence_already st p boot existing)
               else case find_incarnation p boot of
                 Some seq \<Rightarrow> live_fence i pid boot seq reason note
               | None \<Rightarrow>
                   if \<not> allow_defensive then tx_return (fence_not_current st p boot)
                   else if max_recent_fences (im_limits s) \<le> length (st_recent_fences st)
                   then tx_return (fence_history_full st)
                   else defensive_fence i pid boot reason note)"

section \<open>The public operation\<close>

definition fence_screen :: "DurableState \<Rightarrow> FenceWorkerRequest \<Rightarrow> FenceResult option" where
  "fence_screen st request =
     (if id_is_nil (fw_attempt request)
      then Some (fence_result st FenceOutcome.MalformedRequest
        (explain ExplanationCode.MalformedRequest [(''reason'', ''attempt identifier is nil'')]))
      else if pid_empty (fw_participant request) \<or> id_is_nil (fw_boot request)
      then Some (fence_result st FenceOutcome.MalformedRequest
        (explain ExplanationCode.MalformedRequest
          [(''reason'', ''fence request is structurally invalid'')]))
      else if fw_expected_epoch request \<noteq> st_current_epoch st
      then Some (fence_result st FenceOutcome.StaleEpoch
        (explain EpochStale
          [(''request_epoch'', counter_to_string (fw_expected_epoch request)),
           (''current_epoch'', counter_to_string (st_current_epoch st))]))
      else None)"

definition fence_replay ::
  "DurableState \<Rightarrow> FenceWorkerRequest \<Rightarrow> SnapshotDigest \<Rightarrow> IdempotencyRecord \<Rightarrow> FenceResult"
where
  "fence_replay st request digest previous =
     (if ir_semantic previous \<noteq> digest
      then fence_result st FenceOutcome.ConflictingAttempt
        (explain AttemptConflict [(''attempt'', id_to_string (fw_attempt request))])
      else (fence_result st (fence_outcome_of_code (ucast (ir_outcome previous)))
        (explain FenceIdempotent
          [(''attempt'', id_to_string (fw_attempt request)), (''replay'', ''true'')]))
        \<lparr> fo_generation :=
            (if ir_auxiliary previous \<noteq> 0 then Some (MonotonicCounter (ir_auxiliary previous))
             else None) \<rparr>)"

definition fence_attempt_record :: "FenceWorkerRequest \<Rightarrow> SnapshotDigest \<Rightarrow> FenceResult \<Rightarrow> IdempotencyRecord"
where
  "fence_attempt_record request digest result =
     \<lparr> ir_attempt = fw_attempt request, ir_operation = OperationKind.FenceWorker,
       ir_semantic = digest, ir_outcome = ucast (fence_outcome_wire (fo_outcome result)),
       ir_auxiliary = (case fo_generation result of Some g \<Rightarrow> counter_value g | None \<Rightarrow> 0),
       ir_auxiliary_high = (case fo_incarnation result of Some i \<Rightarrow> counter_value i | None \<Rightarrow> 0),
       ir_auxiliary_id = 0 \<rparr>"

definition remember_for_participant :: "IdempotencyRecord \<Rightarrow> nat \<Rightarrow> impl \<Rightarrow> impl" where
  "remember_for_participant r i s =
     upd_participant i (\<lambda>p. p\<lparr> dp_idempotency :=
       remember_attempt (im_limits s) r (dp_idempotency p) \<rparr>) s"

definition fence_body :: "FenceWorkerRequest \<Rightarrow> FenceResult tx" where
  "fence_body request =
     tx_bind tx_get (\<lambda>s.
     let st = im_state s
     in case fence_screen st request of
          Some r \<Rightarrow> tx_return r
        | None \<Rightarrow>
            (case find_participant s (fw_participant request) of
               None \<Rightarrow> tx_return (fence_unknown_participant st (fw_participant request))
             | Some i \<Rightarrow>
                 tx_bind (tx_lift (fence_digest request)) (\<lambda>digest.
                 case find_attempt (dp_idempotency (participant_at s i)) (fw_attempt request) of
                   Some previous \<Rightarrow> tx_return (fence_replay st request digest previous)
                 | None \<Rightarrow>
                     tx_bind (record_fence (fw_participant request) (fw_boot request)
                       (fw_reason request) (fw_note request) True) (\<lambda>result. \<lambda>t.
                     if tx_mutated t
                     then (case find_participant (tx_impl t) (fw_participant request) of
                             None \<Rightarrow> (Inr result, t)
                           | Some j \<Rightarrow>
                               tx_bind (tx_modify (remember_for_participant
                                 (fence_attempt_record request digest result) j))
                                 (\<lambda>_. tx_return result) t)
                     else (Inr result, t)))))"

definition fence_worker :: "io \<Rightarrow> FenceWorkerRequest \<Rightarrow> impl \<Rightarrow> FenceResult res \<times> impl" where
  "fence_worker io request = run_tx io (fence_body request)"

end
