(* ===== verification/Grants.thy ===== *)
theory Grants
  imports Fencing
begin

text \<open>
  Authority grants and their revocation (\<open>apply_grant\<close>, \<open>apply_revoke\<close> and \<open>restore_revocations\<close> of
  \<open>runtime.cpp\<close>). Revoking a grant walks the delegation graph from it and revokes everything derived
  from it. The two walks are worklist loops; they get \<open>2 n + 1\<close> rounds for \<open>n\<close> grants. Theory
  \<open>Revocation\<close> shows that the walk of a revocation is done within them, whatever the delegation
  graph looks like, and that the walk that undoes it would go on for ever on a graph with a cycle.
\<close>

section \<open>Granting\<close>

definition grant_result :: "DurableState \<Rightarrow> GrantOutcome \<Rightarrow> Explanation \<Rightarrow> GrantResult" where
  "grant_result st outcome e =
     \<lparr> gr_outcome = outcome, gr_epoch = st_current_epoch st, gr_grant = None, gr_generation = None,
       gr_replayed = False, gr_explanation = e \<rparr>"

definition grant_shape :: "Limits \<Rightarrow> DurableState \<Rightarrow> GrantAuthorityRequest \<Rightarrow> GrantResult option" where
  "grant_shape limits st request =
     (if id_is_nil (gq_attempt request) \<or> pid_empty (gq_participant request) \<or>
         id_is_nil (gq_boot request) \<or> counter_is_zero (gq_incarnation request)
      then Some (grant_result st GrantOutcome.MalformedRequest
        (explain ExplanationCode.MalformedRequest
          [(''reason'', ''grant request is structurally invalid'')]))
      else if scope_set_empty (gq_scopes request)
      then Some (grant_result st GrantOutcome.MalformedRequest
        (explain ExplanationCode.MalformedRequest
          [(''reason'', ''grant binds no authority scope'')]))
      else if max_scopes_per_grant limits < scope_set_size (gq_scopes request)
      then Some (grant_result st GrantOutcome.ResourceLimit
        (explain ResourceLimitReached [(''limit'', ''max_scopes_per_grant'')]))
      else if gq_expected_epoch request \<noteq> st_current_epoch st
      then Some (grant_result st GrantOutcome.StaleEpoch
        (explain EpochStale
          [(''request_epoch'', counter_to_string (gq_expected_epoch request)),
           (''current_epoch'', counter_to_string (st_current_epoch st))]))
      else None)"

definition grant_standing ::
  "impl \<Rightarrow> DurableParticipant \<Rightarrow> GrantAuthorityRequest \<Rightarrow> GrantResult option"
where
  "grant_standing s p request =
     (let e = evaluate_incarnation s p (gq_boot request) (gq_incarnation request)
      in if iv_code e \<noteq> AuthorityValidationCode.Current
         then Some (grant_result (im_state s) GrantOutcome.StaleWorkerBoot
           (explain WorkerBootFenced
             [(''boot'', id_to_string (gq_boot request)),
              (''currentness'', currentness_to_string (iv_currentness e))]))
         else if \<not> scope_set_contains_all (dp_scopes p) (gq_scopes request)
         then Some (grant_result (im_state s) GrantOutcome.UnauthorizedScope
           (explain ScopeMissing
             [(''requested'', scope_set_to_string (gq_scopes request)),
              (''granted'', scope_set_to_string (dp_scopes p))]))
         else None)"

definition grant_replay ::
  "DurableState \<Rightarrow> GrantAuthorityRequest \<Rightarrow> SnapshotDigest \<Rightarrow> IdempotencyRecord \<Rightarrow> GrantResult"
where
  "grant_replay st request digest previous =
     (if ir_semantic previous \<noteq> digest
      then grant_result st GrantOutcome.ConflictingAttempt
        (explain AttemptConflict [(''attempt'', id_to_string (gq_attempt request))])
      else
        let gid = Fixed128Id (ir_auxiliary_id previous)
        in (grant_result st (grant_outcome_of_code (ucast (ir_outcome previous)))
             (explain RegistrationIdempotentReplay
               [(''attempt'', id_to_string (gq_attempt request)), (''grant'', id_to_string gid)]))
           \<lparr> gr_grant := Some gid, gr_generation := Some (MonotonicCounter (ir_auxiliary previous)),
             gr_replayed := True \<rparr>)"

definition delegation_rejected :: "DurableState \<Rightarrow> (string \<times> string) list \<Rightarrow> GrantResult" where
  "delegation_rejected st details =
     grant_result st GrantOutcome.DelegationRejected (explain ExplanationCode.DelegationRejected details)"

text \<open>The checks on the grant a request delegates from.\<close>

definition delegation_check ::
  "impl \<Rightarrow> GrantAuthorityRequest \<Rightarrow> AuthorityGrantId \<Rightarrow> GrantResult option"
where
  "delegation_check s request parent_id =
     (let st = im_state s
      in case lookup_grant s parent_id of
           None \<Rightarrow> Some (delegation_rejected st
             [(''reason'', ''parent grant does not exist''), (''parent'', id_to_string parent_id)])
         | Some k \<Rightarrow>
             let parent = st_grants st ! k
             in if ag_revoked parent \<or> ag_epoch parent \<noteq> st_current_epoch st
                then Some (delegation_rejected st
                  [(''reason'', (if ag_revoked parent then ''parent grant is revoked''
                                 else ''parent grant is bound to a stale epoch'')),
                   (''parent'', id_to_string (ag_id parent))])
                else case find_participant s (ag_participant parent) of
                  None \<Rightarrow> Some (delegation_rejected st
                    [(''reason'', ''delegating participant no longer exists'')])
                | Some d \<Rightarrow>
                    if iv_code (evaluate_incarnation s (participant_at s d) (ag_boot parent)
                         (ag_incarnation parent)) \<noteq> AuthorityValidationCode.Current
                    then Some (delegation_rejected st
                      [(''reason'', ''delegating incarnation is not current''),
                       (''delegator'', pid_value (ag_participant parent))])
                    else if \<not> scope_set_contains_all (ag_scopes parent) (gq_scopes request)
                    then Some (delegation_rejected st
                      [(''reason'', ''delegated scope exceeds parent scope''),
                       (''parent_scopes'', scope_set_to_string (ag_scopes parent)),
                       (''requested'', scope_set_to_string (gq_scopes request))])
                    else None)"

definition new_grant ::
  "impl \<Rightarrow> GrantAuthorityRequest \<Rightarrow> AuthorityGrantId \<Rightarrow> AuthorityGrant"
where
  "new_grant s request gid =
     \<lparr> ag_id = gid, ag_epoch = st_current_epoch (im_state s), ag_participant = gq_participant request,
       ag_boot = gq_boot request, ag_incarnation = gq_incarnation request,
       ag_scopes = gq_scopes request, ag_generation = MonotonicCounter 0,
       ag_parent = gq_parent request,
       ag_delegator_boot =
         (case gq_parent request of
            None \<Rightarrow> None
          | Some q \<Rightarrow> map_option (\<lambda>k. ag_boot (st_grants (im_state s) ! k)) (lookup_grant s q)),
       ag_revoked = False, ag_revoked_at_epoch = MonotonicCounter 0,
       ag_provenance = gq_provenance request \<rparr>"

definition append_grant :: "AuthorityGrant \<Rightarrow> impl \<Rightarrow> impl" where
  "append_grant g s =
     (let k = length (st_grants (im_state s))
      in (upd_state (\<lambda>st. st\<lparr> st_grants := st_grants st @ [g] \<rparr>) s)
         \<lparr> im_grant_index := (im_grant_index s)(id_to_string (ag_id g) \<mapsto> k),
           im_grant_children :=
             (case ag_parent g of
                None \<Rightarrow> im_grant_children s
              | Some q \<Rightarrow> (im_grant_children s)(id_to_string q \<mapsto>
                  (case im_grant_children s (id_to_string q) of None \<Rightarrow> [] | Some is \<Rightarrow> is) @ [k])) \<rparr>)"

definition pop_grant :: "impl \<Rightarrow> impl" where
  "pop_grant = upd_state (\<lambda>st. st\<lparr> st_grants := butlast (st_grants st) \<rparr>)"

definition upd_grant :: "nat \<Rightarrow> (AuthorityGrant \<Rightarrow> AuthorityGrant) \<Rightarrow> impl \<Rightarrow> impl" where
  "upd_grant k f = upd_state (\<lambda>st. st\<lparr> st_grants := (st_grants st)[k := f (st_grants st ! k)] \<rparr>)"

text \<open>\<open>state.grants[index].generation = GrantGeneration(state.generation.value())\<close>.\<close>

definition stamp_grant :: "nat \<Rightarrow> impl \<Rightarrow> impl" where
  "stamp_grant k s =
     upd_grant k (\<lambda>g. g\<lparr> ag_generation :=
       MonotonicCounter (counter_value (st_generation (im_state s))) \<rparr>) s"

definition grant_record ::
  "GrantAuthorityRequest \<Rightarrow> SnapshotDigest \<Rightarrow> AuthorityGrant \<Rightarrow> IdempotencyRecord"
where
  "grant_record request digest g =
     \<lparr> ir_attempt = gq_attempt request, ir_operation = OperationKind.GrantAuthority,
       ir_semantic = digest, ir_outcome = ucast (grant_outcome_wire GrantOutcome.Granted),
       ir_auxiliary = counter_value (ag_generation g), ir_auxiliary_high = 0,
       ir_auxiliary_id = id_word (ag_id g) \<rparr>"

definition enter_grant :: "GrantAuthorityRequest \<Rightarrow> SnapshotDigest \<Rightarrow> nat \<Rightarrow> AuthorityGrantId \<Rightarrow> GrantResult tx"
where
  "enter_grant request digest i gid =
     tx_bind tx_get (\<lambda>s.
     let k = length (st_grants (im_state s))
     in tx_bind (tx_modify (append_grant (new_grant s request gid))) (\<lambda>_.
     tx_bind (tx_push_undo pop_grant) (\<lambda>_.
     tx_bind bump_generation (\<lambda>_.
     tx_bind (tx_modify (stamp_grant k)) (\<lambda>_.
     tx_bind tx_get (\<lambda>s'.
     let g = st_grants (im_state s') ! k
     in tx_bind (tx_modify (remember_for_participant (grant_record request digest g) i)) (\<lambda>_.
     tx_bind tx_set_mutated (\<lambda>_.
     tx_return
       ((grant_result (im_state s) GrantOutcome.Granted
          (explain RegistrationAccepted
            [(''grant'', id_to_string (ag_id g)),
             (''participant'', pid_value (gq_participant request)),
             (''epoch'', counter_to_string (st_current_epoch (im_state s))),
             (''scopes'', scope_set_to_string (gq_scopes request))]))
        \<lparr> gr_grant := Some (ag_id g), gr_generation := Some (ag_generation g) \<rparr>)))))))))"

definition apply_grant :: "env \<Rightarrow> GrantAuthorityRequest \<Rightarrow> GrantResult tx" where
  "apply_grant env request =
     tx_bind tx_get (\<lambda>s.
     let st = im_state s
     in case grant_shape (im_limits s) st request of
          Some r \<Rightarrow> tx_return r
        | None \<Rightarrow>
            (case find_participant s (gq_participant request) of
               None \<Rightarrow> tx_return (grant_result st GrantOutcome.UnknownParticipant
                 (explain ParticipantUnknown
                   [(''participant'', pid_value (gq_participant request))]))
             | Some i \<Rightarrow>
                 (case grant_standing s (participant_at s i) request of
                    Some r \<Rightarrow> tx_return r
                  | None \<Rightarrow>
                      tx_bind (tx_lift (grant_digest request)) (\<lambda>digest.
                      case find_attempt (dp_idempotency (participant_at s i)) (gq_attempt request) of
                        Some previous \<Rightarrow> tx_return (grant_replay st request digest previous)
                      | None \<Rightarrow>
                          (case (case gq_parent request of
                                   None \<Rightarrow> None
                                 | Some q \<Rightarrow> delegation_check s request q) of
                             Some r \<Rightarrow> tx_return r
                           | None \<Rightarrow>
                               if max_authority_grants (im_limits s) \<le> length (st_grants st)
                               then tx_return (grant_result st GrantOutcome.ResourceLimit
                                 (explain ResourceLimitReached
                                   [(''limit'', ''max_authority_grants'')]))
                               else tx_bind (tx_lift (en_grant env))
                                 (enter_grant request digest i))))))"

definition grant_authority :: "env \<Rightarrow> GrantAuthorityRequest \<Rightarrow> impl \<Rightarrow> GrantResult res \<times> impl" where
  "grant_authority env request = run_tx (en_io env) (apply_grant env request)"

section \<open>Revoking\<close>

definition revoke_result :: "DurableState \<Rightarrow> RevokeOutcome \<Rightarrow> Explanation \<Rightarrow> RevokeResult" where
  "revoke_result st outcome e =
     \<lparr> vr_outcome = outcome, vr_epoch = st_current_epoch st, vr_generation = None,
       vr_derived_grants_revoked = 0, vr_explanation = e \<rparr>"

definition children_ids :: "impl \<Rightarrow> AuthorityGrantId \<Rightarrow> AuthorityGrantId list" where
  "children_ids s gid =
     (case im_grant_children s (id_to_string gid) of
        None \<Rightarrow> []
      | Some is \<Rightarrow> map (\<lambda>k. ag_id (st_grants (im_state s) ! k)) is)"

definition mark_revoked :: "nat \<Rightarrow> impl \<Rightarrow> impl" where
  "mark_revoked k s =
     upd_grant k (\<lambda>g. g\<lparr> ag_revoked := True,
       ag_revoked_at_epoch := st_current_epoch (im_state s) \<rparr>) s"

text \<open>
  The worklist is a stack; the model keeps its top at the head, so the children are pushed in
  reverse.
\<close>

fun revoke_walk ::
  "nat \<Rightarrow> AuthorityGrantId \<Rightarrow> AuthorityGrantId list \<Rightarrow> nat \<Rightarrow> impl \<Rightarrow> AuthorityGrantId list \<times> nat \<times> impl"
where
  "revoke_walk fuel root [] revoked s = ([], revoked, s)"
| "revoke_walk 0 root (current # pending) revoked s = (current # pending, revoked, s)"
| "revoke_walk (Suc fuel) root (current # pending) revoked s =
     (case lookup_grant s current of
        None \<Rightarrow> revoke_walk fuel root pending revoked s
      | Some k \<Rightarrow>
          let target = st_grants (im_state s) ! k
          in if ag_revoked target \<and> current \<noteq> root
             then revoke_walk fuel root pending revoked s
             else if \<not> ag_revoked target
             then revoke_walk fuel root (rev (children_ids s current) @ pending) (Suc revoked)
               (mark_revoked k s)
             else revoke_walk fuel root (rev (children_ids s current) @ pending) revoked s)"

definition mark_live :: "nat \<Rightarrow> impl \<Rightarrow> impl" where
  "mark_live k = upd_grant k (\<lambda>g. g\<lparr> ag_revoked := False, ag_revoked_at_epoch := MonotonicCounter 0 \<rparr>)"

fun restore_walk :: "nat \<Rightarrow> AuthorityGrantId list \<Rightarrow> impl \<Rightarrow> AuthorityGrantId list \<times> impl" where
  "restore_walk fuel [] s = ([], s)"
| "restore_walk 0 (current # pending) s = (current # pending, s)"
| "restore_walk (Suc fuel) (current # pending) s =
     (case lookup_grant s current of
        None \<Rightarrow> restore_walk fuel pending s
      | Some k \<Rightarrow>
          restore_walk fuel (rev (children_ids s current) @ pending) (mark_live k s))"

definition walk_fuel :: "impl \<Rightarrow> nat" where
  "walk_fuel s = 2 * length (st_grants (im_state s)) + 1"

definition restore_revocations :: "AuthorityGrantId \<Rightarrow> impl \<Rightarrow> impl" where
  "restore_revocations root s = snd (restore_walk (walk_fuel s) [root] s)"

definition undo_revoke :: "impl \<Rightarrow> AuthorityGrant \<Rightarrow> impl \<Rightarrow> impl" where
  "undo_revoke before g s =
     (let s1 = upd_state (\<lambda>st. st\<lparr> st_control_attempts :=
            resize_down (length (st_control_attempts (im_state before)))
              (st_control_attempts st) \<rparr>) s;
          s2 = restore_revocations (ag_id g) s1
      in case lookup_grant s2 (ag_id g) of
           None \<Rightarrow> s2
         | Some k \<Rightarrow> upd_grant k (\<lambda>h. h\<lparr> ag_generation := ag_generation g,
             ag_revoked_at_epoch := ag_revoked_at_epoch g \<rparr>) s2)"

definition revoke_screen :: "DurableState \<Rightarrow> RevokeAuthorityRequest \<Rightarrow> RevokeResult option" where
  "revoke_screen st request =
     (if id_is_nil (vq_attempt request) \<or> id_is_nil (vq_grant request)
      then Some (revoke_result st RevokeOutcome.MalformedRequest
        (explain ExplanationCode.MalformedRequest
          [(''reason'', ''revocation request is structurally invalid'')]))
      else if vq_expected_epoch request \<noteq> st_current_epoch st
      then Some (revoke_result st RevokeOutcome.StaleEpoch
        (explain EpochStale
          [(''request_epoch'', counter_to_string (vq_expected_epoch request)),
           (''current_epoch'', counter_to_string (st_current_epoch st))]))
      else None)"

definition revoke_replay ::
  "DurableState \<Rightarrow> RevokeAuthorityRequest \<Rightarrow> SnapshotDigest \<Rightarrow> IdempotencyRecord \<Rightarrow> RevokeResult"
where
  "revoke_replay st request digest previous =
     (if ir_semantic previous \<noteq> digest
      then revoke_result st RevokeOutcome.ConflictingAttempt
        (explain AttemptConflict [(''attempt'', id_to_string (vq_attempt request))])
      else (revoke_result st (revoke_outcome_of_code (ucast (ir_outcome previous)))
        (explain RegistrationIdempotentReplay
          [(''attempt'', id_to_string (vq_attempt request)),
           (''grant'', id_to_string (vq_grant request))]))
        \<lparr> vr_generation := Some (MonotonicCounter (ir_auxiliary previous)),
          vr_derived_grants_revoked := unat (ir_auxiliary_high previous) \<rparr>)"

definition revoke_record ::
  "RevokeAuthorityRequest \<Rightarrow> SnapshotDigest \<Rightarrow> AuthorityGrant \<Rightarrow> nat \<Rightarrow> IdempotencyRecord"
where
  "revoke_record request digest g derived =
     \<lparr> ir_attempt = vq_attempt request, ir_operation = OperationKind.RevokeAuthority,
       ir_semantic = digest, ir_outcome = ucast (revoke_outcome_wire RevokeOutcome.Revoked),
       ir_auxiliary = counter_value (ag_generation g), ir_auxiliary_high = word_of_nat derived,
       ir_auxiliary_id = 0 \<rparr>"

definition remember_control :: "IdempotencyRecord \<Rightarrow> impl \<Rightarrow> impl" where
  "remember_control r s =
     upd_state (\<lambda>st. st\<lparr> st_control_attempts :=
       remember_attempt (im_limits s) r (st_control_attempts st) \<rparr>) s"

definition enter_revocation ::
  "RevokeAuthorityRequest \<Rightarrow> SnapshotDigest \<Rightarrow> nat \<Rightarrow> RevokeResult tx"
where
  "enter_revocation request digest k =
     tx_bind tx_get (\<lambda>s.
     let g = st_grants (im_state s) ! k;
         (pending, revoked, s') = revoke_walk (walk_fuel s) (ag_id g) [ag_id g] 0 s;
         derived = (if 0 < revoked then revoked - 1 else 0)
     in tx_bind (tx_push_undo (undo_revoke s g)) (\<lambda>_.
     tx_bind (tx_modify (\<lambda>_. s')) (\<lambda>_.
     tx_bind bump_generation (\<lambda>_.
     tx_bind (tx_modify (stamp_grant k)) (\<lambda>_.
     tx_bind tx_get (\<lambda>u.
     let h = st_grants (im_state u) ! k
     in tx_bind (tx_modify (remember_control (revoke_record request digest h derived))) (\<lambda>_.
     tx_bind tx_set_mutated (\<lambda>_.
     tx_return
       ((revoke_result (im_state s) RevokeOutcome.Revoked
          (explain ExplanationCode.GrantRevoked
            [(''grant'', id_to_string (vq_grant request)),
             (''reason'', fence_reason_to_string (vq_reason request)),
             (''derived_grants_revoked'', dec_string derived)]))
        \<lparr> vr_generation := Some (ag_generation h), vr_derived_grants_revoked := derived \<rparr>)))))))))"

definition apply_revoke :: "RevokeAuthorityRequest \<Rightarrow> RevokeResult tx" where
  "apply_revoke request =
     tx_bind tx_get (\<lambda>s.
     let st = im_state s
     in case revoke_screen st request of
          Some r \<Rightarrow> tx_return r
        | None \<Rightarrow>
            tx_bind (tx_lift (revoke_digest request)) (\<lambda>digest.
            case find_attempt (st_control_attempts st) (vq_attempt request) of
              Some previous \<Rightarrow> tx_return (revoke_replay st request digest previous)
            | None \<Rightarrow>
                (case lookup_grant s (vq_grant request) of
                   None \<Rightarrow> tx_return (revoke_result st RevokeOutcome.UnknownGrant
                     (explain GrantSuperseded
                       [(''reason'', ''grant does not exist''),
                        (''grant'', id_to_string (vq_grant request))]))
                 | Some k \<Rightarrow>
                     let g = st_grants st ! k
                     in if ag_revoked g
                        then tx_return
                          ((revoke_result st RevokeOutcome.AlreadyRevoked
                             (explain ExplanationCode.GrantRevoked
                               [(''grant'', id_to_string (ag_id g)),
                                (''revoked_at_epoch'',
                                  counter_to_string (ag_revoked_at_epoch g))]))
                           \<lparr> vr_generation := Some (ag_generation g) \<rparr>)
                        else enter_revocation request digest k)))"

definition revoke_authority :: "io \<Rightarrow> RevokeAuthorityRequest \<Rightarrow> impl \<Rightarrow> RevokeResult res \<times> impl" where
  "revoke_authority io request = run_tx io (apply_revoke request)"

end
