(* ===== verification/Epochs.thy ===== *)
theory Epochs
  imports Grants
begin

text \<open>
  Coordinator epochs (\<open>mutate_epoch\<close>, \<open>establish_epoch\<close>, the constructor and \<open>advance_epoch\<close> of
  \<open>runtime.cpp\<close>). Advancing the epoch ends every live incarnation: the participants that had one
  must register again.
\<close>

section \<open>The transition\<close>

definition invalidate_participant :: "DurableParticipant \<Rightarrow> DurableParticipant" where
  "invalidate_participant p =
     p\<lparr> dp_revalidation_required :=
          (if has_current_incarnation p then True else dp_revalidation_required p),
        dp_has_active_boot := False, dp_active_boot := id_nil,
        dp_active_incarnation := MonotonicCounter 0, dp_extra_incarnations := [] \<rparr>"

definition undo_epoch :: "DurableState \<Rightarrow> impl \<Rightarrow> impl" where
  "undo_epoch before =
     upd_state (\<lambda>st. st\<lparr> st_current_epoch := st_current_epoch before,
       st_coordinator_boot := st_coordinator_boot before,
       st_generation := st_generation before, st_participants := st_participants before,
       st_transitions := resize_down (length (st_transitions before)) (st_transitions st) \<rparr>)"

definition set_epoch :: "CoordinatorEpoch \<Rightarrow> CoordinatorBootId \<Rightarrow> impl \<Rightarrow> impl" where
  "set_epoch epoch boot =
     upd_state (\<lambda>st. st\<lparr> st_current_epoch := epoch, st_coordinator_boot := boot \<rparr>)"

definition enter_epoch ::
  "EpochGeneration \<Rightarrow> bool \<Rightarrow> impl \<Rightarrow> impl"
where
  "enter_epoch generation invalidate_live_authority =
     upd_state (\<lambda>st. st\<lparr> st_generation := generation,
       st_participants :=
         (if invalidate_live_authority then map invalidate_participant (st_participants st)
          else st_participants st) \<rparr>)"

definition transition_record ::
  "DurableState \<Rightarrow> CoordinatorEpoch \<Rightarrow> EpochGeneration \<Rightarrow> CoordinatorBootId \<Rightarrow> EpochTransitionCause \<Rightarrow>
   BoundedText \<Rightarrow> EpochTransitionId \<Rightarrow> EpochTransitionRecord"
where
  "transition_record before epoch generation boot cause provenance tid =
     \<lparr> tr_id = tid, tr_from_epoch = st_current_epoch before, tr_to_epoch = epoch, tr_cause = cause,
       tr_coordinator_boot = boot, tr_generation = generation, tr_provenance = provenance \<rparr>"

definition push_transition :: "EpochTransitionRecord \<Rightarrow> impl \<Rightarrow> impl" where
  "push_transition t s =
     upd_state (\<lambda>st. st\<lparr> st_transitions :=
       push_bounded (max_transition_history (im_limits s)) t (st_transitions st) \<rparr>) s"

definition mutate_epoch ::
  "env \<Rightarrow> CoordinatorBootId \<Rightarrow> EpochTransitionCause \<Rightarrow> bool \<Rightarrow> unit tx"
where
  "mutate_epoch env boot cause invalidate_live_authority =
     tx_bind tx_get (\<lambda>s.
     let before = im_state s
     in tx_bind (tx_next (st_current_epoch before)
       ''CoordinatorEpoch cannot advance: the maximum representable epoch is in use'') (\<lambda>next.
     tx_bind (tx_push_undo (undo_epoch before)) (\<lambda>_.
     tx_bind (tx_modify (set_epoch next boot)) (\<lambda>_.
     tx_bind (tx_next (st_generation before)
       ''durable state generation counter is exhausted'') (\<lambda>generation.
     tx_bind (tx_modify (enter_epoch generation invalidate_live_authority)) (\<lambda>_.
     tx_bind (tx_lift (en_transition env)) (\<lambda>tid.
     tx_modify (push_transition (transition_record before next generation boot cause
       (op_provenance (im_options s)) tid)))))))))"

definition establish_epoch ::
  "env \<Rightarrow> CoordinatorBootId \<Rightarrow> EpochTransitionCause \<Rightarrow> bool \<Rightarrow> impl \<Rightarrow> unit res \<times> impl"
where
  "establish_epoch env boot cause invalidate_live_authority s =
     end_tx (tx_bind (mutate_epoch env boot cause invalidate_live_authority)
       (\<lambda>_. persist (en_io env)) (begin_tx s))"

section \<open>Opening a runtime\<close>

definition empty_impl :: "EpochRuntimeOptions \<Rightarrow> disk \<Rightarrow> DurableState \<Rightarrow> impl" where
  "empty_impl opts d st =
     \<lparr> im_options = opts, im_disk = d, im_state = st, im_participant_index = Map.empty,
       im_boot_index = Map.empty, im_fence_index = Map.empty, im_grant_index = Map.empty,
       im_grant_children = Map.empty, im_session_index = [],
       im_boot_session_index = Map.empty, im_active_workers = 0 \<rparr>"

text \<open>What the constructor reads before it builds anything.\<close>

definition open_inputs ::
  "env \<Rightarrow> EpochRuntimeOptions \<Rightarrow> disk \<Rightarrow> (DurableState \<times> CoordinatorBootId) res"
where
  "open_inputs env opts d =
     res_bind (new_store (store_options opts)) (\<lambda>store.
     if \<not> is_viable (op_limits opts)
     then Inl (invalid_argument ''runtime limits are not viable'')
     else if op_store_path opts = []
     then Inl (invalid_argument ''runtime store path must not be empty'')
     else res_bind (store_load store (en_io env) d) (\<lambda>st.
       res_bind (case op_coordinator_boot opts of
           Some boot \<Rightarrow> Inr boot | None \<Rightarrow> en_coordinator_boot env) (\<lambda>boot.
       Inr (st, boot))))"

definition opened :: "EpochRuntimeOptions \<Rightarrow> disk \<Rightarrow> DurableState \<Rightarrow> CoordinatorBootId \<Rightarrow> impl" where
  "opened opts d st boot =
     rebuild_indexes (empty_impl (opts\<lparr> op_coordinator_boot := Some boot \<rparr>) d st)"

text \<open>The constructor: \<open>Inl\<close> when it throws, with the disk it leaves.\<close>

definition open_runtime :: "env \<Rightarrow> EpochRuntimeOptions \<Rightarrow> disk \<Rightarrow> impl res \<times> disk" where
  "open_runtime env opts d =
     (case open_inputs env opts d of
        Inl e \<Rightarrow> (Inl e, d)
      | Inr (st, boot) \<Rightarrow>
          let established = \<not> counter_is_zero (st_current_epoch st);
              s = opened opts d st boot
          in if op_advance_epoch_on_open opts
             then
               let cause = (if established then EpochTransitionCause.CoordinatorRestart
                     else EpochTransitionCause.CoordinatorStart);
                   (r, s') = establish_epoch env boot cause established s
               in (res_bind r (\<lambda>_. Inr s'), im_disk s')
             else if \<not> established
             then (Inl (invalid_argument
               ''durable store has no established epoch and advance_epoch_on_open is false''), d)
             else (Inr s, d))"

section \<open>Advancing by request\<close>

definition advance_result ::
  "DurableState \<Rightarrow> EpochAdvanceOutcome \<Rightarrow> Explanation \<Rightarrow> EpochAdvanceResult"
where
  "advance_result st outcome e =
     \<lparr> eo_outcome = outcome, eo_epoch = st_current_epoch st,
       eo_coordinator_boot = st_coordinator_boot st, eo_transition = None, eo_replayed = False,
       eo_explanation = e \<rparr>"

definition last_transition_id :: "DurableState \<Rightarrow> EpochTransitionId option" where
  "last_transition_id st =
     (if st_transitions st = [] then None else Some (tr_id (last (st_transitions st))))"

definition advance_replay ::
  "DurableState \<Rightarrow> EpochAdvanceRequest \<Rightarrow> SnapshotDigest \<Rightarrow> IdempotencyRecord \<Rightarrow> EpochAdvanceResult"
where
  "advance_replay st request digest previous =
     (if ir_semantic previous \<noteq> digest
      then advance_result st EpochAdvanceOutcome.ConflictingAttempt
        (explain AttemptConflict [(''attempt'', id_to_string (eq_attempt request))])
      else
        let epoch = MonotonicCounter (ir_auxiliary previous)
        in (advance_result st (advance_outcome_of_code (ucast (ir_outcome previous)))
             (explain RegistrationIdempotentReplay
               [(''attempt'', id_to_string (eq_attempt request)),
                (''epoch'', counter_to_string epoch)]))
           \<lparr> eo_epoch := epoch,
             eo_transition :=
               (if ir_auxiliary_high previous \<noteq> 0 \<and> epoch = st_current_epoch st
                then last_transition_id st else None),
             eo_replayed := True \<rparr>)"

definition advance_screen :: "DurableState \<Rightarrow> EpochAdvanceRequest \<Rightarrow> EpochAdvanceResult option" where
  "advance_screen st request =
     (if eq_expected_epoch request \<noteq> st_current_epoch st
      then Some (advance_result st EpochAdvanceOutcome.StaleExpectedEpoch
        (explain EpochStale
          [(''expected_epoch'', counter_to_string (eq_expected_epoch request)),
           (''current_epoch'', counter_to_string (st_current_epoch st))]))
      else if counter_is_max (st_current_epoch st)
      then Some (advance_result st EpochAdvanceOutcome.EpochExhausted
        (explain ResourceLimitReached
          [(''limit'', ''CoordinatorEpoch''),
           (''reason'', ''the maximum representable epoch is already authoritative''),
           (''epoch'', counter_to_string (st_current_epoch st))]))
      else None)"

definition advance_record :: "EpochAdvanceRequest \<Rightarrow> SnapshotDigest \<Rightarrow> CoordinatorEpoch \<Rightarrow> IdempotencyRecord"
where
  "advance_record request digest epoch =
     \<lparr> ir_attempt = eq_attempt request, ir_operation = OperationKind.AdvanceEpoch,
       ir_semantic = digest, ir_outcome = ucast (advance_outcome_wire EpochAdvanceOutcome.Advanced),
       ir_auxiliary = counter_value epoch, ir_auxiliary_high = 1, ir_auxiliary_id = 0 \<rparr>"

definition move_epoch :: "env \<Rightarrow> EpochAdvanceRequest \<Rightarrow> SnapshotDigest \<Rightarrow> unit tx" where
  "move_epoch env request digest =
     tx_bind tx_get (\<lambda>s.
     tx_bind (mutate_epoch env (st_coordinator_boot (im_state s)) (eq_cause request) True) (\<lambda>_.
     tx_bind tx_get (\<lambda>u.
     tx_modify (remember_control (advance_record request digest (st_current_epoch (im_state u)))))))"

definition advance_accepted :: "EpochAdvanceRequest \<Rightarrow> DurableState \<Rightarrow> EpochAdvanceResult" where
  "advance_accepted request st =
     (advance_result st EpochAdvanceOutcome.Advanced
       (explain ExplanationCode.EpochAdvanced
         [(''epoch'', counter_to_string (st_current_epoch st)),
          (''cause'', transition_cause_to_string (eq_cause request)),
          (''coordinator_boot'', id_to_string (st_coordinator_boot st))]))
     \<lparr> eo_transition := last_transition_id st \<rparr>"

definition enter_advance :: "env \<Rightarrow> EpochAdvanceRequest \<Rightarrow> SnapshotDigest \<Rightarrow> EpochAdvanceResult tx" where
  "enter_advance env request digest =
     tx_bind (move_epoch env request digest) (\<lambda>_.
     tx_bind (persist (en_io env)) (\<lambda>_.
     tx_bind tx_get (\<lambda>v. tx_return (advance_accepted request (im_state v)))))"

definition advance_body :: "env \<Rightarrow> EpochAdvanceRequest \<Rightarrow> EpochAdvanceResult tx" where
  "advance_body env request =
     tx_bind tx_get (\<lambda>s.
     let st = im_state s
     in if id_is_nil (eq_attempt request)
        then tx_return (advance_result st EpochAdvanceOutcome.MalformedRequest
          (explain ExplanationCode.MalformedRequest
            [(''reason'', ''attempt identifier is nil'')]))
        else tx_bind (tx_lift (advance_digest request)) (\<lambda>digest.
          case find_attempt (st_control_attempts st) (eq_attempt request) of
            Some previous \<Rightarrow> tx_return (advance_replay st request digest previous)
          | None \<Rightarrow>
              (case advance_screen st request of
                 Some r \<Rightarrow> tx_return r
               | None \<Rightarrow> enter_advance env request digest)))"

definition advance_epoch :: "env \<Rightarrow> EpochAdvanceRequest \<Rightarrow> impl \<Rightarrow> EpochAdvanceResult res \<times> impl" where
  "advance_epoch env request s = end_tx (advance_body env request (begin_tx s))"

end
