(* ===== verification/Validation.thy ===== *)
theory Validation
  imports Epochs
begin

text \<open>
  Validation of an authority token (\<open>validate\<close> of \<open>runtime.cpp\<close>), along the grant the request names or
  along the token alone, and the read operations: views, snapshots, queries and explanations.
\<close>

section \<open>Results\<close>

definition validation_base :: "DurableState \<Rightarrow> AuthorityValidation" where
  "validation_base st =
     \<lparr> av_code = AuthorityValidationCode.Malformed, av_currentness = AuthorityCurrentness.Unknown,
       av_epoch = st_current_epoch st, av_coordinator_boot = st_coordinator_boot st,
       av_generation = None, av_incarnation = None, av_replaced_by_epoch = None,
       av_superseded_by = None, av_explanation = default_explanation \<rparr>"

definition verdict ::
  "AuthorityValidation \<Rightarrow> AuthorityValidationCode \<Rightarrow> AuthorityCurrentness \<Rightarrow> Explanation \<Rightarrow>
   AuthorityValidation"
where
  "verdict base code currentness e =
     base\<lparr> av_code := code, av_currentness := currentness, av_explanation := e \<rparr>"

definition validate_token :: "DurableState \<Rightarrow> AuthorityToken \<Rightarrow> AuthorityValidation option" where
  "validate_token st token =
     (if pid_empty (tok_participant token) \<or> id_is_nil (tok_boot token) \<or>
         counter_is_zero (tok_incarnation token)
      then Some (verdict (validation_base st) AuthorityValidationCode.Malformed
        AuthorityCurrentness.Unknown
        (explain ExplanationCode.MalformedRequest
          [(''reason'', ''authority token is structurally invalid'')]))
      else None)"

section \<open>Along a grant\<close>

definition grant_refusal ::
  "DurableState \<Rightarrow> AuthorityGrant \<Rightarrow> AuthorityToken \<Rightarrow> AuthorityValidation option"
where
  "grant_refusal st g token =
     (let base = validation_base st
      in if ag_epoch g \<noteq> st_current_epoch st
         then Some ((verdict base AuthorityValidationCode.StaleEpoch AuthorityCurrentness.StaleEpoch
           (explain EpochStale
             [(''grant_epoch'', counter_to_string (ag_epoch g)),
              (''current_epoch'', counter_to_string (st_current_epoch st))]))
           \<lparr> av_replaced_by_epoch := Some (st_current_epoch st) \<rparr>)
         else if ag_revoked g
         then Some (verdict base AuthorityValidationCode.Revoked AuthorityCurrentness.Revoked
           (explain ExplanationCode.GrantRevoked
             [(''grant'', id_to_string (ag_id g)),
              (''revoked_at_epoch'', counter_to_string (ag_revoked_at_epoch g))]))
         else if ag_boot g \<noteq> tok_boot token
         then Some ((verdict base AuthorityValidationCode.StaleWorkerBoot
           AuthorityCurrentness.Fenced
           (explain WorkerBootSuperseded
             [(''token_boot'', id_to_string (tok_boot token)),
              (''grant_boot'', id_to_string (ag_boot g))]))
           \<lparr> av_superseded_by := Some (ag_boot g) \<rparr>)
         else None)"

definition grant_verdict ::
  "impl \<Rightarrow> AuthorityGrant \<Rightarrow> DurableParticipant \<Rightarrow> ValidateAuthorityRequest \<Rightarrow> AuthorityValidation"
where
  "grant_verdict s g owner request =
     (let st = im_state s; token = va_token request; base = validation_base st;
          e = evaluate_incarnation s owner (tok_boot token) (tok_incarnation token);
          known = base\<lparr> av_incarnation := iv_incarnation e,
            av_generation := Some (dp_registration_generation owner) \<rparr>
      in if iv_code e \<noteq> AuthorityValidationCode.Current
         then (verdict base (iv_code e) (iv_currentness e)
           (explain WorkerBootFenced
             [(''boot'', id_to_string (tok_boot token)),
              (''currentness'', currentness_to_string (iv_currentness e))]))
           \<lparr> av_superseded_by := iv_superseded_by e,
             av_replaced_by_epoch := iv_replaced_by_epoch e \<rparr>
         else if \<not> scope_set_contains (ag_scopes g) (va_scope request)
         then verdict known AuthorityValidationCode.UnauthorizedScope AuthorityCurrentness.Current
           (explain ScopeMissing
             [(''scope'', scope_to_string (va_scope request)),
              (''grant'', id_to_string (ag_id g))])
         else case va_expected_generation request of
           Some expected \<Rightarrow>
             if ag_generation g \<noteq>
                  MonotonicCounter (counter_value (dp_registration_generation owner)) \<and>
                expected \<noteq> dp_registration_generation owner
             then verdict known AuthorityValidationCode.RevalidationRequired
               AuthorityCurrentness.RevalidationRequired
               (explain GenerationMismatch
                 [(''expected'', counter_to_string expected),
                  (''current'', counter_to_string (dp_registration_generation owner))])
             else verdict known AuthorityValidationCode.Current AuthorityCurrentness.Current
               (explain AuthorityCurrent
                 [(''grant'', id_to_string (ag_id g)),
                  (''epoch'', counter_to_string (st_current_epoch st)),
                  (''scope'', scope_to_string (va_scope request))])
         | None \<Rightarrow> verdict known AuthorityValidationCode.Current AuthorityCurrentness.Current
             (explain AuthorityCurrent
               [(''grant'', id_to_string (ag_id g)),
                (''epoch'', counter_to_string (st_current_epoch st)),
                (''scope'', scope_to_string (va_scope request))]))"

definition validate_grant ::
  "impl \<Rightarrow> ValidateAuthorityRequest \<Rightarrow> AuthorityGrantId \<Rightarrow> AuthorityValidation"
where
  "validate_grant s request gid =
     (let st = im_state s; base = validation_base st
      in case lookup_grant s gid of
           None \<Rightarrow> verdict base AuthorityValidationCode.UnknownGrant AuthorityCurrentness.Unknown
             (explain GrantSuperseded
               [(''grant'', id_to_string gid), (''reason'', ''grant does not exist'')])
         | Some k \<Rightarrow>
             let g = st_grants st ! k
             in case grant_refusal st g (va_token request) of
                  Some v \<Rightarrow> v
                | None \<Rightarrow>
                    (case find_participant s (ag_participant g) of
                       None \<Rightarrow> verdict base AuthorityValidationCode.UnknownParticipant
                         AuthorityCurrentness.Unknown
                         (explain ParticipantUnknown
                           [(''participant'', pid_value (ag_participant g))])
                     | Some i \<Rightarrow> grant_verdict s g (participant_at s i) request))"

section \<open>Along the token alone\<close>

definition stale_explanation ::
  "DurableState \<Rightarrow> DurableParticipant \<Rightarrow> AuthorityToken \<Rightarrow> IncarnationEvaluation \<Rightarrow> Explanation"
where
  "stale_explanation st p token e =
     explain
       (if iv_currentness e = AuthorityCurrentness.Fenced then WorkerBootFenced
        else if iv_currentness e = AuthorityCurrentness.RevalidationRequired
        then ExplanationCode.RevalidationRequired
        else WorkerBootSuperseded)
       ([(''participant'', pid_value (dp_id p)), (''boot'', id_to_string (tok_boot token)),
         (''currentness'', currentness_to_string (iv_currentness e)),
         (''current_epoch'', counter_to_string (st_current_epoch st))] @
        (case iv_fence_reason e of
           Some r \<Rightarrow> [(''fence_reason'', fence_reason_to_string r)] | None \<Rightarrow> []) @
        (case iv_superseded_by e of
           Some b \<Rightarrow> [(''superseded_by'', id_to_string b)] | None \<Rightarrow> []) @
        (if dp_has_active_boot p then [(''active_boot'', id_to_string (dp_active_boot p))] else []))"

definition current_verdict ::
  "AuthorityValidation \<Rightarrow> DurableState \<Rightarrow> DurableParticipant \<Rightarrow> ValidateAuthorityRequest \<Rightarrow>
   AuthorityValidation"
where
  "current_verdict known st p request =
     (if \<not> scope_set_contains (dp_scopes p) (va_scope request)
      then verdict known AuthorityValidationCode.UnauthorizedScope AuthorityCurrentness.Current
        (explain ScopeMissing
          [(''scope'', scope_to_string (va_scope request)),
           (''granted'', scope_set_to_string (dp_scopes p))])
      else if va_expected_generation request \<noteq> None \<and>
        va_expected_generation request \<noteq> Some (dp_registration_generation p)
      then verdict known AuthorityValidationCode.RevalidationRequired
        AuthorityCurrentness.RevalidationRequired
        (explain GenerationMismatch
          [(''expected'', counter_to_string (the (va_expected_generation request))),
           (''current'', counter_to_string (dp_registration_generation p))])
      else verdict known AuthorityValidationCode.Current AuthorityCurrentness.Current
        (explain AuthorityCurrent
          [(''participant'', pid_value (dp_id p)),
           (''boot'', id_to_string (tok_boot (va_token request))),
           (''epoch'', counter_to_string (st_current_epoch st)),
           (''scope'', scope_to_string (va_scope request))]))"

definition participant_verdict ::
  "impl \<Rightarrow> DurableParticipant \<Rightarrow> ValidateAuthorityRequest \<Rightarrow> AuthorityValidation"
where
  "participant_verdict s p request =
     (let st = im_state s; token = va_token request;
          e = evaluate_incarnation s p (tok_boot token) (tok_incarnation token);
          known = (validation_base st)
            \<lparr> av_generation := Some (dp_registration_generation p),
              av_incarnation := iv_incarnation e \<rparr>
      in if iv_code e \<noteq> AuthorityValidationCode.Current
         then (verdict known (iv_code e) (iv_currentness e) (stale_explanation st p token e))
           \<lparr> av_superseded_by := iv_superseded_by e,
             av_replaced_by_epoch := iv_replaced_by_epoch e \<rparr>
         else current_verdict known st p request)"

definition validate_plain :: "impl \<Rightarrow> ValidateAuthorityRequest \<Rightarrow> AuthorityValidation" where
  "validate_plain s request =
     (let st = im_state s; token = va_token request; base = validation_base st
      in if tok_epoch token \<noteq> st_current_epoch st
         then (verdict base AuthorityValidationCode.StaleEpoch AuthorityCurrentness.StaleEpoch
           (explain EpochStale
             [(''token_epoch'', counter_to_string (tok_epoch token)),
              (''current_epoch'', counter_to_string (st_current_epoch st))]))
           \<lparr> av_replaced_by_epoch := Some (st_current_epoch st) \<rparr>
         else case find_participant s (tok_participant token) of
           None \<Rightarrow> verdict base AuthorityValidationCode.UnknownParticipant
             AuthorityCurrentness.Unknown
             (explain ParticipantUnknown
               [(''participant'', pid_value (tok_participant token))])
         | Some i \<Rightarrow>
             if dp_retired (participant_at s i)
             then verdict base AuthorityValidationCode.Retired AuthorityCurrentness.Retired
               (explain ParticipantRetired
                 [(''participant'', pid_value (dp_id (participant_at s i)))])
             else participant_verdict s (participant_at s i) request)"

definition validate_authority :: "impl \<Rightarrow> ValidateAuthorityRequest \<Rightarrow> AuthorityValidation" where
  "validate_authority s request =
     (case validate_token (im_state s) (va_token request) of
        Some v \<Rightarrow> v
      | None \<Rightarrow>
          (case va_grant request of
             Some gid \<Rightarrow> validate_grant s request gid
           | None \<Rightarrow> validate_plain s request))"

end
