(* ===== verification/Queries.thy ===== *)
theory Queries
  imports Validation
begin

text \<open>
  The read operations of the runtime: participant and grant views, the snapshot with its digest,
  counters, fence status and the explanations (\<open>to_view\<close>, \<open>build_snapshot\<close>, \<open>build_state\<close>,
  \<open>query_participant\<close>, \<open>query_fence\<close>, \<open>explain_authority\<close>, \<open>explain_epoch\<close> and the lists of
  \<open>runtime.cpp\<close>).
\<close>

section \<open>Views and snapshots\<close>

definition to_view :: "DurableParticipant \<Rightarrow> ParticipantView" where
  "to_view p =
     \<lparr> pv_id = dp_id p, pv_registration_generation = dp_registration_generation p,
       pv_fence_generation = dp_fence_generation p, pv_incarnation_floor = dp_incarnation_floor p,
       pv_policy = dp_policy p, pv_retired = dp_retired p,
       pv_revalidation_required = dp_revalidation_required p,
       pv_has_active_incarnation = dp_has_active_boot p, pv_active_boot = dp_active_boot p,
       pv_active_incarnation = dp_active_incarnation p,
       pv_active_boots = map ai_boot (dp_extra_incarnations p), pv_scopes = dp_scopes p,
       pv_accepted_registrations = dp_accepted_registrations p, pv_replay_hits = dp_replay_hits p \<rparr>"

definition grant_view :: "AuthorityGrant \<Rightarrow> GrantView" where
  "grant_view g =
     \<lparr> gv_id = ag_id g, gv_epoch = ag_epoch g, gv_participant = ag_participant g,
       gv_boot = ag_boot g, gv_generation = ag_generation g, gv_revoked = ag_revoked g,
       gv_delegated = (ag_parent g \<noteq> None), gv_scopes = ag_scopes g \<rparr>"

definition query_participant :: "impl \<Rightarrow> ParticipantId \<Rightarrow> ParticipantView option" where
  "query_participant s pid = map_option (\<lambda>i. to_view (participant_at s i)) (find_participant s pid)"

definition list_participants :: "impl \<Rightarrow> ParticipantView list" where
  "list_participants s = sort_key pv_id (map to_view (im_participants s))"

definition list_fences :: "impl \<Rightarrow> FenceRecord list" where
  "list_fences s = st_recent_fences (im_state s)"

definition list_grants :: "impl \<Rightarrow> GrantView list" where
  "list_grants s = sort_key gv_id (map grant_view (st_grants (im_state s)))"

definition transition_history :: "impl \<Rightarrow> nat \<Rightarrow> EpochTransitionRecord list" where
  "transition_history s max_records =
     (let ts = st_transitions (im_state s) in drop (length ts - min max_records (length ts)) ts)"

definition build_snapshot :: "env \<Rightarrow> impl \<Rightarrow> AuthoritySnapshot res" where
  "build_snapshot env s =
     res_bind (en_snapshot env) (\<lambda>snapshot_id.
     let st = im_state s;
         content =
           \<lparr> sn_id = snapshot_id, sn_epoch = st_current_epoch st,
             sn_coordinator_boot = st_coordinator_boot st, sn_generation = st_generation st,
             sn_registration_floor = st_registration_floor st, sn_fence_floor = st_fence_floor st,
             sn_participants = sort_key pv_id (map to_view (st_participants st)),
             sn_fences = sort_fences (st_recent_fences st),
             sn_grants = sort_key gv_id (map grant_view (st_grants st)),
             sn_digest = SnapshotDigest 0 \<rparr>
     in res_bind (compute_snapshot_digest content) (\<lambda>digest.
        Inr (content\<lparr> sn_digest := digest \<rparr>)))"

definition build_state :: "impl \<Rightarrow> EpochState" where
  "build_state s =
     (let st = im_state s
      in \<lparr> es_epoch = st_current_epoch st, es_coordinator_boot = st_coordinator_boot st,
           es_generation = st_generation st, es_registration_floor = st_registration_floor st,
           es_fence_floor = st_fence_floor st,
           es_participant_count = length (st_participants st),
           es_active_worker_count = im_active_workers s,
           es_retained_fence_count = length (st_recent_fences st),
           es_live_grant_count = length (filter (\<lambda>g. \<not> ag_revoked g) (st_grants st)),
           es_transition_history_count = length (st_transitions st) \<rparr>)"

section \<open>Fences\<close>

definition query_fence :: "impl \<Rightarrow> ParticipantId \<Rightarrow> WorkerBootId \<Rightarrow> FenceStatus" where
  "query_fence s pid boot =
     (let lookup = lookup_fence s pid boot;
          base =
            \<lparr> fx_boot = boot, fx_participant = pid, fx_fenced = fl_fenced lookup,
              fx_retained_record = (fl_record lookup \<noteq> None),
              fx_reason = map_option fr_reason (fl_record lookup),
              fx_fenced_at_epoch = map_option fr_epoch (fl_record lookup),
              fx_replaced_by_epoch = None, fx_superseded_by = None,
              fx_incarnation = map_option fr_incarnation (fl_record lookup) \<rparr>
      in case find_participant s pid of
           None \<Rightarrow> base
         | Some i \<Rightarrow>
             let owner = participant_at s i
             in base\<lparr>
               fx_incarnation :=
                 (case find_incarnation owner boot of Some c \<Rightarrow> Some c | None \<Rightarrow> fx_incarnation base),
               fx_superseded_by :=
                 (if dp_has_active_boot owner \<and> dp_active_boot owner \<noteq> boot
                  then Some (dp_active_boot owner) else None),
               fx_replaced_by_epoch :=
                 (if fx_fenced base then Some (st_current_epoch (im_state s)) else None) \<rparr>)"

section \<open>Explanations\<close>

definition explain_authority_head :: "DurableState \<Rightarrow> ParticipantId \<Rightarrow> WorkerBootId \<Rightarrow> (string \<times> string) list"
where
  "explain_authority_head st pid boot =
     [(''participant'', pid_value pid), (''boot'', id_to_string boot),
      (''current_epoch'', counter_to_string (st_current_epoch st)),
      (''coordinator_boot'', id_to_string (st_coordinator_boot st))]"

definition explain_owner :: "impl \<Rightarrow> DurableParticipant \<Rightarrow> ParticipantId \<Rightarrow> WorkerBootId \<Rightarrow> Explanation"
where
  "explain_owner s owner pid boot =
     (let st = im_state s;
          details = explain_authority_head st pid boot @
            [(''registration_generation'', counter_to_string (dp_registration_generation owner)),
             (''fence_generation'', counter_to_string (dp_fence_generation owner)),
             (''incarnation_floor'', counter_to_string (dp_incarnation_floor owner))]
      in if dp_retired owner then explain ParticipantRetired details
         else case find_incarnation owner boot of
           Some c \<Rightarrow> explain AuthorityCurrent (details @ [(''incarnation'', counter_to_string c)])
         | None \<Rightarrow>
             let fence = lookup_fence s pid boot
             in if fl_fenced fence
                then explain WorkerBootFenced (details @
                  [(''fence_reason'',
                     (case fl_record fence of Some f \<Rightarrow> fence_reason_to_string (fr_reason f)
                      | None \<Rightarrow> ''RETAINED''))] @
                  (case fl_record fence of
                     Some f \<Rightarrow> [(''fenced_at_epoch'', counter_to_string (fr_epoch f)),
                       (''fence_generation'', counter_to_string (fr_generation f))]
                   | None \<Rightarrow> []) @
                  [(''replaced_by_epoch'', counter_to_string (st_current_epoch st))])
                else if \<not> has_current_incarnation owner
                then (if dp_revalidation_required owner
                      then explain ExplanationCode.RevalidationRequired (details @
                        [(''reason'',
                          ''coordinator authority advanced; register a fresh worker incarnation'')])
                      else explain WorkerBootFenced (details @
                        [(''reason'', ''participant holds no current incarnation'')]))
                else explain WorkerBootSuperseded (details @
                  [(''active_boot'', id_to_string (incumbent_boot owner)),
                   (''reason'', ''a different worker incarnation holds current authority'')]))"

definition explain_authority :: "impl \<Rightarrow> ParticipantId \<Rightarrow> WorkerBootId \<Rightarrow> Explanation" where
  "explain_authority s pid boot =
     (case find_participant s pid of
        None \<Rightarrow> explain ParticipantUnknown (explain_authority_head (im_state s) pid boot)
      | Some i \<Rightarrow> explain_owner s (participant_at s i) pid boot)"

definition explain_epoch :: "impl \<Rightarrow> Explanation" where
  "explain_epoch s =
     (let st = im_state s
      in explain ExplanationCode.EpochAdvanced
        ([(''current_epoch'', counter_to_string (st_current_epoch st)),
          (''coordinator_boot'', id_to_string (st_coordinator_boot st)),
          (''generation'', counter_to_string (st_generation st))] @
         (if st_transitions st \<noteq> []
          then let t = last (st_transitions st)
            in [(''last_transition_from'', counter_to_string (tr_from_epoch t)),
                (''last_transition_to'', counter_to_string (tr_to_epoch t)),
                (''last_transition_cause'', transition_cause_to_string (tr_cause t)),
                (''last_transition_boot'', id_to_string (tr_coordinator_boot t))]
          else [(''last_transition'', ''NONE'')])))"

end
