(* ===== verification/Sha256_Vectors.thy ===== *)
theory Sha256_Vectors
  imports Sha256
begin

text \<open>
  The published test vector of the empty message, evaluated in the kernel: the round constants, the
  initial state and every rotation of the model are the standard's.
\<close>

lemma sha256_empty: "sha256_hash [] =
     [227, 176, 196, 66, 152, 252, 28, 20, 154, 251, 244, 200, 153, 111, 185, 36,
      39, 174, 65, 228, 100, 155, 147, 76, 164, 149, 153, 27, 120, 82, 184, 85]"
  by code_simp

end
