(* ===== verification/Frames.thy ===== *)
theory Frames
  imports Views
begin

text \<open>
  Protocol frames (the first part of \<open>protocol.cpp\<close>): message types, the fixed header with its integrity
  digest over header and payload, and the two decoders of a header. The lemmas show that a frame that
  is accepted is byte for byte the frame the encoder makes of its pre.
\<close>

section \<open>Versions\<close>

definition version_string :: string where
  "version_string = ''1.0.0''"

definition wire_protocol_version :: u16 where
  "wire_protocol_version = 1"

definition wire_protocol_magic :: u32 where
  "wire_protocol_magic = 0x46455031"

section \<open>Message types\<close>

datatype MessageType =
    Hello
  | HelloAck
  | RegisterParticipant
  | RegisterAck
  | FenceWorker
  | FenceAck
  | ValidateAuthority
  | ValidateResult
  | AdvanceEpoch
  | EpochStateRequest
  | EpochStateResponse
  | RevokeAuthority
  | RevokeAck
  | QueryParticipant
  | ParticipantState
  | SnapshotRequest
  | SnapshotResponse
  | ExplainRequest
  | ExplainResponse
  | Shutdown
  | Error
  | AdvanceEpochAck
  | RetireParticipant
  | RetireAck

fun message_type_to_string :: "MessageType \<Rightarrow> string" where
  "message_type_to_string MessageType.Hello = ''HELLO''"
| "message_type_to_string MessageType.HelloAck = ''HELLO_ACK''"
| "message_type_to_string MessageType.RegisterParticipant = ''REGISTER_PARTICIPANT''"
| "message_type_to_string MessageType.RegisterAck = ''REGISTER_ACK''"
| "message_type_to_string MessageType.FenceWorker = ''FENCE_WORKER''"
| "message_type_to_string MessageType.FenceAck = ''FENCE_ACK''"
| "message_type_to_string MessageType.ValidateAuthority = ''VALIDATE_AUTHORITY''"
| "message_type_to_string MessageType.ValidateResult = ''VALIDATE_RESULT''"
| "message_type_to_string MessageType.AdvanceEpoch = ''ADVANCE_EPOCH''"
| "message_type_to_string MessageType.EpochStateRequest = ''EPOCH_STATE_REQUEST''"
| "message_type_to_string MessageType.EpochStateResponse = ''EPOCH_STATE_RESPONSE''"
| "message_type_to_string MessageType.RevokeAuthority = ''REVOKE_AUTHORITY''"
| "message_type_to_string MessageType.RevokeAck = ''REVOKE_ACK''"
| "message_type_to_string MessageType.QueryParticipant = ''QUERY_PARTICIPANT''"
| "message_type_to_string MessageType.ParticipantState = ''PARTICIPANT_STATE''"
| "message_type_to_string MessageType.SnapshotRequest = ''SNAPSHOT_REQUEST''"
| "message_type_to_string MessageType.SnapshotResponse = ''SNAPSHOT_RESPONSE''"
| "message_type_to_string MessageType.ExplainRequest = ''EXPLAIN_REQUEST''"
| "message_type_to_string MessageType.ExplainResponse = ''EXPLAIN_RESPONSE''"
| "message_type_to_string MessageType.Shutdown = ''SHUTDOWN''"
| "message_type_to_string MessageType.Error = ''ERROR''"
| "message_type_to_string MessageType.AdvanceEpochAck = ''ADVANCE_EPOCH_ACK''"
| "message_type_to_string MessageType.RetireParticipant = ''RETIRE_PARTICIPANT''"
| "message_type_to_string MessageType.RetireAck = ''RETIRE_ACK''"

fun message_type_wire :: "MessageType \<Rightarrow> u16" where
  "message_type_wire MessageType.Hello = 1"
| "message_type_wire MessageType.HelloAck = 2"
| "message_type_wire MessageType.RegisterParticipant = 3"
| "message_type_wire MessageType.RegisterAck = 4"
| "message_type_wire MessageType.FenceWorker = 5"
| "message_type_wire MessageType.FenceAck = 6"
| "message_type_wire MessageType.ValidateAuthority = 7"
| "message_type_wire MessageType.ValidateResult = 8"
| "message_type_wire MessageType.AdvanceEpoch = 9"
| "message_type_wire MessageType.EpochStateRequest = 10"
| "message_type_wire MessageType.EpochStateResponse = 11"
| "message_type_wire MessageType.RevokeAuthority = 12"
| "message_type_wire MessageType.RevokeAck = 13"
| "message_type_wire MessageType.QueryParticipant = 14"
| "message_type_wire MessageType.ParticipantState = 15"
| "message_type_wire MessageType.SnapshotRequest = 16"
| "message_type_wire MessageType.SnapshotResponse = 17"
| "message_type_wire MessageType.ExplainRequest = 18"
| "message_type_wire MessageType.ExplainResponse = 19"
| "message_type_wire MessageType.Shutdown = 20"
| "message_type_wire MessageType.Error = 21"
| "message_type_wire MessageType.AdvanceEpochAck = 22"
| "message_type_wire MessageType.RetireParticipant = 23"
| "message_type_wire MessageType.RetireAck = 24"

definition message_type_from_wire :: "u16 \<Rightarrow> MessageType option" where
  "message_type_from_wire v =
     (if v = 1 then Some MessageType.Hello
      else if v = 2 then Some MessageType.HelloAck
      else if v = 3 then Some MessageType.RegisterParticipant
      else if v = 4 then Some MessageType.RegisterAck
      else if v = 5 then Some MessageType.FenceWorker
      else if v = 6 then Some MessageType.FenceAck
      else if v = 7 then Some MessageType.ValidateAuthority
      else if v = 8 then Some MessageType.ValidateResult
      else if v = 9 then Some MessageType.AdvanceEpoch
      else if v = 10 then Some MessageType.EpochStateRequest
      else if v = 11 then Some MessageType.EpochStateResponse
      else if v = 12 then Some MessageType.RevokeAuthority
      else if v = 13 then Some MessageType.RevokeAck
      else if v = 14 then Some MessageType.QueryParticipant
      else if v = 15 then Some MessageType.ParticipantState
      else if v = 16 then Some MessageType.SnapshotRequest
      else if v = 17 then Some MessageType.SnapshotResponse
      else if v = 18 then Some MessageType.ExplainRequest
      else if v = 19 then Some MessageType.ExplainResponse
      else if v = 20 then Some MessageType.Shutdown
      else if v = 21 then Some MessageType.Error
      else if v = 22 then Some MessageType.AdvanceEpochAck
      else if v = 23 then Some MessageType.RetireParticipant
      else if v = 24 then Some MessageType.RetireAck
      else None)"

lemma message_type_wire_roundtrip [simp]: "message_type_from_wire (message_type_wire t) = Some t"
  by (cases t) (simp_all add: message_type_from_wire_def)

lemma message_type_from_wire_Some: "message_type_from_wire v = Some t \<longleftrightarrow> v = message_type_wire t"
  by (cases t) (auto simp: message_type_from_wire_def split: if_splits)

text \<open>Request types carry the input of a caller and have a bound of their own.\<close>

definition is_request_message :: "MessageType \<Rightarrow> bool" where
  "is_request_message t \<longleftrightarrow>
     t \<in> {MessageType.Hello,
       MessageType.RegisterParticipant,
       MessageType.FenceWorker,
       MessageType.ValidateAuthority,
       MessageType.AdvanceEpoch,
       MessageType.EpochStateRequest,
       MessageType.RevokeAuthority,
       MessageType.QueryParticipant,
       MessageType.SnapshotRequest,
       MessageType.ExplainRequest,
       MessageType.RetireParticipant}"

section \<open>Headers and frames\<close>

definition frame_integrity_offset :: nat where
  "frame_integrity_offset = 4 + 2 + 2 + 2 + 4 + 8 + 8 + 16"

definition frame_header_size :: nat where
  "frame_header_size = 4 + 2 + 2 + 2 + 4 + 8 + 8 + 16 + 32"

record FrameHeader =
  fh_magic :: u32
  fh_version :: u16
  fh_type :: MessageType
  fh_flags :: u16
  fh_payload_length :: u32
  fh_sequence :: u64
  fh_epoch :: u64
  fh_request_id :: "byte list"
  fh_integrity :: "byte list"

record Frame =
  fm_header :: FrameHeader
  fm_payload :: "byte list"

definition w_frame_fields ::
  "MessageType \<Rightarrow> u64 \<Rightarrow> CoordinatorEpoch \<Rightarrow> MutationAttemptId \<Rightarrow> nat \<Rightarrow> writer"
where
  "w_frame_fields type sequence epoch request_id payload_size =
     w_seq [w_u32 wire_protocol_magic, w_u16 wire_protocol_version, w_u16 (message_type_wire type),
       w_u16 0, w_count payload_size, w_u64 sequence, w_counter epoch, w_id request_id]"

definition frame_digest :: "byte list \<Rightarrow> byte list \<Rightarrow> byte list" where
  "frame_digest pre payload =
     sha256_finish (sha256_update (sha256_update sha256_init pre) payload)"

definition encode_frame ::
  "MessageType \<Rightarrow> u64 \<Rightarrow> CoordinatorEpoch \<Rightarrow> MutationAttemptId \<Rightarrow> byte list \<Rightarrow> Limits \<Rightarrow> byte list res"
where
  "encode_frame type sequence epoch request_id payload limits =
     (if max_frame_payload limits < length payload
      then Inl (resource_limit ''frame payload exceeds limits.max_frame_payload'')
      else if is_request_message type \<and> max_request_size limits < length payload
      then Inl (resource_limit ''request payload exceeds limits.max_request_size'')
      else res_bind (w_frame_fields type sequence epoch request_id (length payload)) (\<lambda>pre.
        if length pre \<noteq> frame_integrity_offset
        then Inl (invariant_error ''frame header layout does not match the declared integrity offset'')
        else w_seq [w_raw pre, w_fixed32 (frame_digest pre payload), w_raw payload]))"

definition peek_payload_length :: "byte list \<Rightarrow> u32 res" where
  "peek_payload_length header_bytes =
     (if length header_bytes < frame_header_size
      then Inl (malformed ''frame header is shorter than the fixed header size'')
      else r_run (r_bind r_u32 (\<lambda>_. r_bind r_u16 (\<lambda>_. r_bind r_u16 (\<lambda>_. r_bind r_u16 (\<lambda>_. r_u32)))))
        (take frame_header_size header_bytes))"

definition r_frame_header :: "Limits \<Rightarrow> FrameHeader reader" where
  "r_frame_header limits =
     r_bind r_u32 (\<lambda>magic.
     r_bind (r_throw_if (magic \<noteq> wire_protocol_magic)
       (malformed ''frame magic does not match Fabric Epoch'')) (\<lambda>_.
     r_bind r_u16 (\<lambda>version.
     r_bind (r_throw_if (version \<noteq> wire_protocol_version)
       (EpochError UnsupportedVersion ''frame protocol version is not supported'')) (\<lambda>_.
     r_bind r_u16 (\<lambda>raw_type.
     r_bind (r_some (message_type_from_wire raw_type)
       (malformed ''frame carries an unknown message type'')) (\<lambda>type.
     r_bind r_u16 (\<lambda>flags.
     r_bind (r_throw_if (flags \<noteq> 0) (malformed ''frame carries unsupported flag bits'')) (\<lambda>_.
     r_bind r_u32 (\<lambda>payload_length.
     r_bind (r_throw_if (max_frame_payload limits < unat payload_length)
       (resource_limit ''frame payload length exceeds limits.max_frame_payload'')) (\<lambda>_.
     r_bind (r_throw_if (is_request_message type \<and> max_request_size limits < unat payload_length)
       (resource_limit ''request payload length exceeds limits.max_request_size'')) (\<lambda>_.
     r_bind r_u64 (\<lambda>sequence.
     r_bind r_u64 (\<lambda>epoch.
     r_bind r_fixed16 (\<lambda>request_id.
     r_bind r_fixed32 (\<lambda>integrity.
     r_bind r_require_end (\<lambda>_.
     r_return
       \<lparr> fh_magic = magic, fh_version = version, fh_type = type, fh_flags = flags,
         fh_payload_length = payload_length, fh_sequence = sequence, fh_epoch = epoch,
         fh_request_id = request_id, fh_integrity = integrity \<rparr>))))))))))))))))"

definition decode_frame_header :: "byte list \<Rightarrow> Limits \<Rightarrow> FrameHeader res" where
  "decode_frame_header header_bytes limits =
     (if length header_bytes \<noteq> frame_header_size
      then Inl (malformed ''frame header has an unexpected length'')
      else r_run (r_frame_header limits) header_bytes)"

definition decode_frame :: "byte list \<Rightarrow> byte list \<Rightarrow> Limits \<Rightarrow> Frame res" where
  "decode_frame header_bytes payload limits =
     res_bind (decode_frame_header header_bytes limits) (\<lambda>header.
     if unat (fh_payload_length header) \<noteq> length payload
     then Inl (malformed ''frame payload length does not match the bytes received'')
     else if frame_digest (take frame_integrity_offset header_bytes) payload \<noteq> fh_integrity header
     then Inl (EpochError IntegrityFailure ''frame integrity digest does not match'')
     else Inr \<lparr> fm_header = header, fm_payload = payload \<rparr>)"

section \<open>The header round trip\<close>

definition header_fields :: "MessageType \<Rightarrow> u64 \<Rightarrow> u64 \<Rightarrow> byte list \<Rightarrow> u32 \<Rightarrow> byte list" where
  "header_fields type sequence epoch request_id n =
     le_bytes 4 wire_protocol_magic @ le_bytes 2 wire_protocol_version @ le_bytes 2 (message_type_wire type) @
     le_bytes 2 (0 :: u16) @ le_bytes 4 n @ le_bytes 8 sequence @ le_bytes 8 epoch @ request_id"

lemma length_header_fields: "length rid = 16 \<Longrightarrow> length (header_fields type seq epoch rid n) = frame_integrity_offset"
  by (simp add: header_fields_def frame_integrity_offset_def)

lemma w_frame_fields_eq:
  "w_frame_fields type sequence epoch request_id n =
     Inr (header_fields type sequence (counter_value epoch) (id_bytes request_id) (word_of_nat n))"
  by (simp add: w_seq.simps w_frame_fields_def header_fields_def w_u32_def w_u16_def w_u64_def w_count_def
      w_counter_def w_id_def w_fixed16_def w_raw_def)

lemma encode_frame_eq:
  "encode_frame type sequence epoch request_id payload limits = Inr bytes \<longleftrightarrow>
     length payload \<le> max_frame_payload limits \<and>
     (is_request_message type \<longrightarrow> length payload \<le> max_request_size limits) \<and>
     (let pre = header_fields type sequence (counter_value epoch) (id_bytes request_id)
        (word_of_nat (length payload))
      in bytes = pre @ frame_digest pre payload @ payload)"
  by (auto simp: w_seq.simps encode_frame_def w_frame_fields_eq length_header_fields Let_def w_raw_def w_fixed32_def)

definition header_made ::
  "MessageType \<Rightarrow> u64 \<Rightarrow> u64 \<Rightarrow> byte list \<Rightarrow> u32 \<Rightarrow> byte list \<Rightarrow> FrameHeader"
where
  "header_made type sequence epoch request_id n integrity =
     \<lparr> fh_magic = wire_protocol_magic, fh_version = wire_protocol_version, fh_type = type, fh_flags = 0,
       fh_payload_length = n, fh_sequence = sequence, fh_epoch = epoch,
       fh_request_id = request_id, fh_integrity = integrity \<rparr>"

lemma decode_frame_header_iff:
  "decode_frame_header bs limits = Inr h \<longleftrightarrow>
     (\<exists>type sequence epoch rid n d. h = header_made type sequence epoch rid n d \<and>
        length rid = 16 \<and> length d = 32 \<and> unat n \<le> max_frame_payload limits \<and>
        (is_request_message type \<longrightarrow> unat n \<le> max_request_size limits) \<and>
        bs = header_fields type sequence epoch rid n @ d)"
  by (auto simp: decode_frame_header_def r_frame_header_def r_run_def res_bind_eq_Inr r_bind_eq_Inr
      u32_codec.dec_iff u16_codec.dec_iff u64_codec.dec_iff fixed16_codec.dec_iff fixed32_codec.dec_iff
      r_throw_if_eq_Inr r_some_eq_Inr message_type_from_wire_Some r_require_end_iff codec_simps
      header_made_def header_fields_def frame_header_size_def w_u32_def w_u16_def w_u64_def
      w_fixed16_def w_fixed32_def w_raw_def)

lemma frame_digest_hash: "frame_digest pre payload = sha256_spec (pre @ payload)"
  using sha256_streaming [of "[pre, payload]"] by (simp add: frame_digest_def)

lemma length_frame_digest [simp]: "length (frame_digest pre payload) = 32"
  using length_sha256_hash [of "pre @ payload"] by (simp add: frame_digest_hash sha256_hash_spec)

lemma decode_frame_iff:
  "decode_frame hdr payload limits = Inr f \<longleftrightarrow>
     (\<exists>type sequence epoch rid.
        let n = word_of_nat (length payload);
            pre = header_fields type sequence epoch rid n;
            d = frame_digest pre payload
        in f = \<lparr> fm_header = header_made type sequence epoch rid n d, fm_payload = payload \<rparr> \<and>
           length rid = 16 \<and> length payload < 4294967296 \<and> length payload \<le> max_frame_payload limits \<and>
           (is_request_message type \<longrightarrow> length payload \<le> max_request_size limits) \<and>
           hdr = pre @ d)"
    (is "?l \<longleftrightarrow> ?r")
proof
  assume ?l
  then obtain type sequence epoch rid n d where h:
    "f = \<lparr> fm_header = header_made type sequence epoch rid n d, fm_payload = payload \<rparr>"
    "length rid = 16" "length d = 32" "unat n \<le> max_frame_payload limits"
    "is_request_message type \<longrightarrow> unat n \<le> max_request_size limits"
    "hdr = header_fields type sequence epoch rid n @ d" "unat n = length payload"
    "frame_digest (take frame_integrity_offset hdr) payload = d"
    by (auto simp: decode_frame_def res_bind_eq_Inr decode_frame_header_iff header_made_def split: if_splits)
  have "word_of_nat (length payload) = n" "length payload < 4294967296"
    using h(7) unsigned_less [of n] by (simp_all flip: h(7))
  moreover have "take frame_integrity_offset hdr = header_fields type sequence epoch rid n"
    using length_header_fields [OF h(2), of type sequence epoch n] by (simp add: h(6))
  ultimately show ?r using h by (auto simp: Let_def)
next
  assume ?r
  then obtain type sequence epoch rid where h:
    "f = \<lparr> fm_header = header_made type sequence epoch rid (word_of_nat (length payload))
       (frame_digest (header_fields type sequence epoch rid (word_of_nat (length payload))) payload),
       fm_payload = payload \<rparr>"
    "length rid = 16" "length payload < 4294967296" "length payload \<le> max_frame_payload limits"
    "is_request_message type \<longrightarrow> length payload \<le> max_request_size limits"
    "hdr = header_fields type sequence epoch rid (word_of_nat (length payload)) @
       frame_digest (header_fields type sequence epoch rid (word_of_nat (length payload))) payload"
    by (auto simp: Let_def)
  have n: "unat (word_of_nat (length payload) :: u32) = length payload"
    using h(3) by (rule unat_word_of_nat_u32)
  have "take frame_integrity_offset hdr = header_fields type sequence epoch rid (word_of_nat (length payload))"
    using length_header_fields [OF h(2), of type sequence epoch "word_of_nat (length payload)"] h(6) by simp
  moreover have "decode_frame_header hdr limits = Inr (fm_header f)"
    unfolding decode_frame_header_iff
    by (rule exI [of _ type], rule exI [of _ sequence], rule exI [of _ epoch], rule exI [of _ rid],
        rule exI [of _ "word_of_nat (length payload)"],
        rule exI [of _ "frame_digest (header_fields type sequence epoch rid (word_of_nat (length payload))) payload"])
      (use h n in auto)
  ultimately show ?l
    using h(1) n by (simp add: decode_frame_def header_made_def)
qed

section \<open>Frames\<close>

text \<open>What the encoder makes is accepted, and gives back the fields and the payload.\<close>

lemma decode_encode_frame:
  assumes "encode_frame type sequence epoch request_id payload limits = Inr bytes"
    and "length payload < 4294967296"
  shows "\<exists>f. decode_frame (take frame_header_size bytes) (drop frame_header_size bytes) limits = Inr f \<and>
    fm_payload f = payload \<and> fh_type (fm_header f) = type \<and> fh_sequence (fm_header f) = sequence \<and>
    fh_epoch (fm_header f) = counter_value epoch \<and> fh_request_id (fm_header f) = id_bytes request_id"
proof -
  let ?pre = "header_fields type sequence (counter_value epoch) (id_bytes request_id) (word_of_nat (length payload))"
  let ?f = "\<lparr> fm_header = header_made type sequence (counter_value epoch) (id_bytes request_id)
      (word_of_nat (length payload)) (frame_digest ?pre payload), fm_payload = payload \<rparr>"
  have b: "bytes = (?pre @ frame_digest ?pre payload) @ payload"
    and fits: "length payload \<le> max_frame_payload limits"
      "is_request_message type \<longrightarrow> length payload \<le> max_request_size limits"
    using assms(1) by (simp_all add: encode_frame_eq Let_def)
  have "length (?pre @ frame_digest ?pre payload) = frame_header_size"
    using length_header_fields [of "id_bytes request_id" type sequence "counter_value epoch" "word_of_nat (length payload)"]
    by (simp add: frame_header_size_def frame_integrity_offset_def)
  then have cut: "take frame_header_size bytes = ?pre @ frame_digest ?pre payload"
    "drop frame_header_size bytes = payload"
    unfolding b by simp_all
  have "decode_frame (?pre @ frame_digest ?pre payload) payload limits = Inr ?f"
    unfolding decode_frame_iff Let_def
    by (rule exI [of _ type], rule exI [of _ sequence], rule exI [of _ "counter_value epoch"],
        rule exI [of _ "id_bytes request_id"])
      (use assms(2) fits in simp)
  then show ?thesis
    unfolding cut by (intro exI [of _ ?f]) (simp add: header_made_def)
qed

text \<open>Nothing else is accepted.\<close>

lemma encode_decode_frame:
  assumes "decode_frame hdr payload limits = Inr f"
  shows "fm_payload f = payload \<and>
    encode_frame (fh_type (fm_header f)) (fh_sequence (fm_header f)) (MonotonicCounter (fh_epoch (fm_header f)))
      (id_from_bytes (fh_request_id (fm_header f))) payload limits = Inr (hdr @ payload)"
proof -
  obtain type sequence epoch rid where
    "length rid = 16" "length payload \<le> max_frame_payload limits"
    "is_request_message type \<longrightarrow> length payload \<le> max_request_size limits"
    "let n = word_of_nat (length payload); pre = header_fields type sequence epoch rid n
     in f = \<lparr> fm_header = header_made type sequence epoch rid n (frame_digest pre payload), fm_payload = payload \<rparr> \<and>
       hdr = pre @ frame_digest pre payload"
    using assms unfolding decode_frame_iff Let_def by blast
  then show ?thesis
    by (auto simp: encode_frame_eq Let_def header_made_def)
qed

lemma peek_decoded_length:
  assumes "decode_frame hdr payload limits = Inr f"
  shows "peek_payload_length hdr = Inr (word_of_nat (length payload)) \<and> length payload < 4294967296"
proof -
  obtain type sequence epoch rid where r: "length rid = 16" "length payload < 4294967296"
    "let n = word_of_nat (length payload); pre = header_fields type sequence epoch rid n
     in hdr = pre @ frame_digest pre payload"
    using assms unfolding decode_frame_iff Let_def by blast
  have "length hdr = frame_header_size"
    using r length_header_fields [OF r(1), of type sequence epoch "word_of_nat (length payload)"]
    by (simp add: Let_def frame_header_size_def frame_integrity_offset_def)
  moreover obtain rest where "hdr = projr (w_u32 wire_protocol_magic) @ projr (w_u16 wire_protocol_version) @
      projr (w_u16 (message_type_wire type)) @ projr (w_u16 0) @ projr (w_u32 (word_of_nat (length payload))) @ rest"
    using r(3) by (simp add: Let_def header_fields_def w_u32_def w_u16_def)
  then have "r_bind r_u32 (\<lambda>_. r_bind r_u16 (\<lambda>_. r_bind r_u16 (\<lambda>_. r_bind r_u16 (\<lambda>_. r_u32)))) hdr =
      Inr (word_of_nat (length payload), rest)"
    by (simp add: codec_simps u32_codec.dec_enc)
  ultimately show ?thesis using r(2) by (simp add: peek_payload_length_def r_run_def)
qed

end
