(* ===== verification/Payloads.thy ===== *)
theory Payloads
  imports Frames
begin

text \<open>
  The payload codecs of the protocol (the rest of \<open>protocol.cpp\<close>). A payload decoder reads its fields and
  then requires the end of its input. Every codec interprets \<open>byte_codec\<close>, so that decoding returns what
  was encoded; those of the requests that carry no bare presence flag interpret \<open>canonical_codec\<close>.
\<close>

section \<open>Whole payloads\<close>

definition r_whole :: "'a reader \<Rightarrow> byte list \<Rightarrow> 'a res" where
  "r_whole r = r_run (r_bind r (\<lambda>x. r_bind r_require_end (\<lambda>_. r_return x)))"

text \<open>A count with a limit of its own, then that many elements.\<close>

definition r_limited :: "nat \<Rightarrow> EpochError \<Rightarrow> 'a reader \<Rightarrow> 'a list reader" where
  "r_limited limit e r =
     r_bind r_u32 (\<lambda>count.
     r_bind (r_throw_if (limit < unat count) e) (\<lambda>_.
     r_repeat (unat count) r))"

definition limited_fits :: "('a \<Rightarrow> bool) \<Rightarrow> nat \<Rightarrow> 'a list \<Rightarrow> bool" where
  "limited_fits ok limit xs \<longleftrightarrow> (\<forall>x \<in> set xs. ok x) \<and> length xs \<le> limit \<and> length xs < 4294967296"

lemma r_whole_iff: "r_whole r bs = Inr x \<longleftrightarrow> r bs = Inr (x, [])"
  by (auto simp: r_whole_def r_run_def res_bind_eq_Inr r_bind_eq_Inr r_require_end_iff r_return_def)

context byte_codec
begin

lemma whole_enc: "ok x \<Longrightarrow> r_whole dec (projr (enc x)) = Inr x"
  using dec_enc [of x "[]"] by (simp add: r_whole_iff)

lemma limited_enc:
  assumes "limited_fits ok limit xs"
  shows "\<not> isl (w_counted enc xs)" "r_limited limit e dec (projr (w_counted enc xs) @ rest) = Inr (xs, rest)"
proof -
  have n: "unat (word_of_nat (length xs) :: u32) = length xs"
    using assms by (simp add: limited_fits_def unat_word_of_nat_u32)
  have ok: "\<forall>x \<in> set xs. ok x" using assms by (simp add: limited_fits_def)
  then show "\<not> isl (w_counted enc xs)" by (rule counted_ok)
  show "r_limited limit e dec (projr (w_counted enc xs) @ rest) = Inr (xs, rest)"
    using assms each_ok [OF ok]
    by (simp add: r_limited_def w_counted_def codec_simps n repeat_each [OF ok] limited_fits_def)
qed

lemma bind_limited:
  "limited_fits ok limit xs \<Longrightarrow>
     r_bind (r_limited limit e dec) f (projr (w_counted enc xs) @ rest) = f xs rest"
  using limited_enc(2) by (rule r_bind_Inr)

end

context canonical_codec
begin

lemma whole_iff: "r_whole dec bs = Inr x \<longleftrightarrow> ok x \<and> bs = projr (enc x)"
  by (simp add: r_whole_iff dec_iff)

lemma limited_canonical:
  assumes "r_limited limit e dec bs = Inr (xs, rest)"
  shows "limited_fits ok limit xs \<and> bs = projr (w_counted enc xs) @ rest"
proof -
  from assms obtain n where n: "bs = projr (w_u32 n) @ projr (w_each enc xs) @ rest"
    "unat n \<le> limit" "length xs = unat n" "\<forall>x \<in> set xs. ok x"
    by (auto simp: r_limited_def r_bind_eq_Inr u32_codec.dec_iff r_throw_if_eq_Inr repeat_iff)
  moreover have "word_of_nat (length xs) = n" "unat n < 4294967296" "\<not> isl (w_each enc xs)"
    using n each_ok [of xs] unsigned_less [of n] by simp_all
  ultimately show ?thesis by (simp add: limited_fits_def w_counted_def codec_simps w_count_def)
qed

end

section \<open>Fields\<close>

definition wire_pid :: "Limits \<Rightarrow> ParticipantId reader" where
  "wire_pid limits =
     r_bind (r_string limits pid_max_length) (\<lambda>s.
     r_some (pid_parse s) (malformed ''malformed participant identifier on the wire''))"

definition wire_text :: "Limits \<Rightarrow> BoundedText reader" where
  "wire_text limits =
     r_bind (r_string limits (max_string_size limits)) (\<lambda>s.
     r_bind (r_throw_if (\<not> text_is_valid s (max_string_size limits))
       (malformed ''malformed bounded text on the wire'')) (\<lambda>_.
     r_return (BoundedText s)))"

definition w_wire_text :: "Limits \<Rightarrow> BoundedText \<Rightarrow> writer" where
  "w_wire_text limits t =
     (if \<not> text_is_valid (text_value t) (max_string_size limits)
      then Inl (malformed ''bounded text exceeds limits.max_string_size'')
      else w_string (text_value t))"

definition wire_scope :: "Limits \<Rightarrow> AuthorityScope reader" where
  "wire_scope limits =
     r_bind r_u8 (\<lambda>k.
     r_bind (r_some (scope_kind_from_wire k) (malformed ''unknown scope kind on the wire'')) (\<lambda>kind.
     r_bind (r_string limits max_subject_length) (\<lambda>subject.
     r_some (scope_parse kind subject) (malformed ''malformed authority scope subject on the wire''))))"

text \<open>A presence flag and a value that is there in any case; the value is dropped when the flag is 0.\<close>

definition w_opt_counter :: "'tag MonotonicCounter option \<Rightarrow> writer" where
  "w_opt_counter x = w_seq [w_flag (x \<noteq> None), w_u64 (case x of None \<Rightarrow> 0 | Some c \<Rightarrow> counter_value c)]"

definition r_opt_counter :: "string \<Rightarrow> 'tag MonotonicCounter option reader" where
  "r_opt_counter message =
     r_bind r_u8 (\<lambda>flag.
     r_bind r_u64 (\<lambda>v.
     if flag = 1 then r_return (Some (MonotonicCounter v))
     else if flag \<noteq> 0 then r_throw (malformed message)
     else r_return None))"

definition w_opt_id :: "'tag Fixed128Id option \<Rightarrow> writer" where
  "w_opt_id x = w_seq [w_flag (x \<noteq> None), w_fixed16 (case x of None \<Rightarrow> replicate 16 0 | Some i \<Rightarrow> id_bytes i)]"

definition r_opt_id :: "string \<Rightarrow> 'tag Fixed128Id option reader" where
  "r_opt_id message =
     r_bind r_u8 (\<lambda>flag.
     r_bind r_fixed16 (\<lambda>bs.
     if flag = 1 then r_return (Some (id_from_bytes bs))
     else if flag \<noteq> 0 then r_throw (malformed message)
     else r_return None))"

definition r_flag :: "string \<Rightarrow> bool reader" where
  "r_flag message =
     r_bind r_u8 (\<lambda>v. r_bind (r_throw_if (1 < v) (malformed message)) (\<lambda>_. r_return (v = 1)))"

text \<open>\<open>writer.u64(size)\<close> and the cast back.\<close>

definition w_size :: "nat \<Rightarrow> writer" where
  "w_size n = w_u64 (word_of_nat n)"

definition r_size :: "nat reader" where
  "r_size = r_bind r_u64 (\<lambda>v. r_return (unat v))"

text \<open>An outcome code: bounded by the last enumerator, then cast.\<close>

definition r_code :: "byte \<Rightarrow> string \<Rightarrow> (byte \<Rightarrow> 'a) \<Rightarrow> 'a reader" where
  "r_code last_code message cast =
     r_bind r_u8 (\<lambda>v. r_bind (r_throw_if (last_code < v) (malformed message)) (\<lambda>_. r_return (cast v)))"

interpretation wire_pid_codec: canonical_codec w_pid "wire_pid limits" "pid_fits limits"
  for limits
  by unfold_locales
    (auto simp: w_pid_def wire_pid_def codec_simps r_bind_eq_Inr pid_fits_def
      r_some_eq_Inr pid_parse_Some string_codec.dec_iff
      dest: string_fits_u32 intro!: r_bind_Inr [THEN trans])

interpretation wire_text_codec: canonical_codec "w_wire_text limits" "wire_text limits" "text_fits limits"
  for limits
proof unfold_locales
  fix t :: BoundedText and rest bs :: "byte list"
  show "text_fits limits t \<Longrightarrow> \<not> isl (w_wire_text limits t)"
    by (auto simp: w_wire_text_def codec_simps text_fits_string dest: string_fits_u32)
  show "text_fits limits t \<Longrightarrow> wire_text limits (projr (w_wire_text limits t) @ rest) = Inr (t, rest)"
    by (simp add: w_wire_text_def wire_text_def codec_simps text_fits_string)
  show "wire_text limits bs = Inr (t, rest) \<Longrightarrow>
      text_fits limits t \<and> bs = projr (w_wire_text limits t) @ rest"
    by (auto simp: w_wire_text_def wire_text_def r_bind_eq_Inr string_codec.dec_iff
        r_throw_if_eq_Inr text_fits_string codec_simps)
qed

interpretation wire_scope_codec: canonical_codec w_scope "wire_scope limits" "scope_fits limits"
  for limits
proof unfold_locales
  fix s :: AuthorityScope and rest bs :: "byte list"
  show "scope_fits limits s \<Longrightarrow> \<not> isl (w_scope s)" by (rule scope_codec.enc_ok)
  show "scope_fits limits s \<Longrightarrow> wire_scope limits (projr (w_scope s) @ rest) = Inr (s, rest)"
    using string_fits_u32
    by (fastforce simp: w_scope_def wire_scope_def codec_simps scope_fits_def r_some_eq_Inr
        scope_parse_Some)
  show "wire_scope limits bs = Inr (s, rest) \<Longrightarrow>
      scope_fits limits s \<and> bs = projr (w_scope s) @ rest"
    using string_fits_u32
    by (auto simp: w_scope_def wire_scope_def r_bind_eq_Inr u8_codec.dec_iff r_some_eq_Inr
        string_codec.dec_iff scope_parse_Some scope_fits_def codec_simps scope_kind_from_wire_Some)
qed

lemma w_flag_ok [codec_simps]: "\<not> isl (w_flag b)"
  by (simp add: w_flag_def codec_simps)

interpretation opt_counter_codec: byte_codec w_opt_counter "r_opt_counter message" "\<lambda>_. True"
  for message
  by unfold_locales
    (auto simp: w_opt_counter_def r_opt_counter_def w_flag_def codec_simps split: option.split)

interpretation opt_id_codec: byte_codec w_opt_id "r_opt_id message" "\<lambda>_. True"
  for message
  by unfold_locales
    (auto simp: w_opt_id_def r_opt_id_def w_flag_def codec_simps split: option.split)

lemma byte_le_one: "\<not> 1 < (v :: byte) \<longleftrightarrow> v = 0 \<or> v = 1"
  by (auto simp: word_less_nat_alt unat_eq_nat_uint [symmetric] word_unat_eq_iff)

interpretation flag_codec: canonical_codec w_flag "r_flag message" "\<lambda>_. True"
  for message
  by unfold_locales
    (auto simp: w_flag_def r_flag_def codec_simps r_bind_eq_Inr u8_codec.dec_iff r_throw_if_eq_Inr
      byte_le_one)

interpretation size_codec: canonical_codec w_size r_size "\<lambda>n. n < 18446744073709551616"
proof unfold_locales
  fix n :: nat and rest bs :: "byte list"
  show "\<not> isl (w_size n)" by (simp add: w_size_def codec_simps)
  show "n < 18446744073709551616 \<Longrightarrow> r_size (projr (w_size n) @ rest) = Inr (n, rest)"
    by (simp add: w_size_def r_size_def codec_simps unat_of_nat)
  show "r_size bs = Inr (n, rest) \<Longrightarrow> n < 18446744073709551616 \<and> bs = projr (w_size n) @ rest"
    using unsigned_less [of v for v :: u64]
    by (auto simp: w_size_def r_size_def r_bind_eq_Inr u64_codec.dec_iff codec_simps)
qed

lemma bind_code [codec_simps]:
  "\<not> last_code < v \<Longrightarrow> r_bind (r_code last_code message cast) f (projr (w_u8 v) @ rest) = f (cast v) rest"
  by (simp add: r_code_def r_bind_assoc codec_simps)

lemmas wire_binds [codec_simps] =
  wire_pid_codec.bind_enc wire_pid_codec.bind_enc_end wire_text_codec.bind_enc wire_text_codec.bind_enc_end
  wire_scope_codec.bind_enc wire_scope_codec.bind_enc_end
  opt_counter_codec.bind_enc [OF TrueI] opt_counter_codec.bind_enc_end [OF TrueI]
  opt_id_codec.bind_enc [OF TrueI] opt_id_codec.bind_enc_end [OF TrueI]
  flag_codec.bind_enc [OF TrueI] flag_codec.bind_enc_end [OF TrueI]
  size_codec.bind_enc size_codec.bind_enc_end

lemmas wire_oks [codec_simps] =
  wire_text_codec.enc_ok wire_scope_codec.enc_ok opt_counter_codec.enc_ok [OF TrueI]
  opt_id_codec.enc_ok [OF TrueI] size_codec.enc_ok

lemmas wire_iffs =
  wire_pid_codec.dec_iff wire_text_codec.dec_iff wire_scope_codec.dec_iff flag_codec.dec_iff
  size_codec.dec_iff id_codec.dec_iff counter_codec.dec_iff digest_codec.dec_iff u8_codec.dec_iff
  u16_codec.dec_iff u64_codec.dec_iff u32_codec.dec_iff string_codec.dec_iff scope_set_codec.dec_iff
  r_bind_eq_Inr r_throw_if_eq_Inr r_some_eq_Inr

end
