(* ===== verification/Messages.thy ===== *)
theory Messages
  imports Payloads
begin

text \<open>
  The messages of the protocol: for every request, acknowledgement and result the encoder and the
  decoder of \<open>protocol.cpp\<close>, the values that fit a message under given limits, and the interpretation
  that says the decoder returns them.
\<close>

section \<open>Explanations\<close>

text \<open>The numeric value of an enumerator of \<open>ExplanationCode\<close>, and the cast back from 1 to 22.\<close>

fun explanation_code_wire :: "ExplanationCode \<Rightarrow> u16" where
  "explanation_code_wire ExplanationCode.AuthorityCurrent = 1"
| "explanation_code_wire ExplanationCode.RegistrationAccepted = 2"
| "explanation_code_wire ExplanationCode.RegistrationIdempotentReplay = 3"
| "explanation_code_wire ExplanationCode.EpochStale = 4"
| "explanation_code_wire ExplanationCode.WorkerBootFenced = 5"
| "explanation_code_wire ExplanationCode.WorkerBootSuperseded = 6"
| "explanation_code_wire ExplanationCode.ParticipantUnknown = 7"
| "explanation_code_wire ExplanationCode.ParticipantRetired = 8"
| "explanation_code_wire ExplanationCode.ScopeMissing = 9"
| "explanation_code_wire ExplanationCode.RevalidationRequired = 10"
| "explanation_code_wire ExplanationCode.MalformedRequest = 11"
| "explanation_code_wire ExplanationCode.ResourceLimitReached = 12"
| "explanation_code_wire ExplanationCode.IncarnationConflict = 13"
| "explanation_code_wire ExplanationCode.AttemptConflict = 14"
| "explanation_code_wire ExplanationCode.GrantRevoked = 15"
| "explanation_code_wire ExplanationCode.GrantSuperseded = 16"
| "explanation_code_wire ExplanationCode.EpochAdvanced = 17"
| "explanation_code_wire ExplanationCode.FenceRecorded = 18"
| "explanation_code_wire ExplanationCode.FenceIdempotent = 19"
| "explanation_code_wire ExplanationCode.SessionClosed = 20"
| "explanation_code_wire ExplanationCode.DelegationRejected = 21"
| "explanation_code_wire ExplanationCode.GenerationMismatch = 22"

definition explanation_code_of :: "u16 \<Rightarrow> ExplanationCode" where
  "explanation_code_of v = explanation_codes ! (unat v - 1)"

definition w_detail :: "Limits \<Rightarrow> string \<times> string \<Rightarrow> writer" where
  "w_detail limits = (\<lambda>(key, value).
     if max_string_size limits < length key \<or> max_string_size limits < length value
     then Inl (malformed ''explanation detail exceeds limits.max_string_size'')
     else w_seq [w_string key, w_string value])"

definition w_explanation :: "Limits \<Rightarrow> Explanation \<Rightarrow> writer" where
  "w_explanation limits e =
     w_seq [w_u16 (explanation_code_wire (ex_code e)), w_count (length (ex_details e)),
       w_each (w_detail limits) (ex_details e)]"

primrec r_details :: "Limits \<Rightarrow> nat \<Rightarrow> Explanation \<Rightarrow> Explanation reader" where
  "r_details limits 0 e = r_return e"
| "r_details limits (Suc n) e =
     r_bind (r_string limits (max_string_size limits)) (\<lambda>key.
     r_bind (r_string limits (max_string_size limits)) (\<lambda>value.
     r_details limits n (ex_with e key value)))"

definition r_explanation :: "Limits \<Rightarrow> Explanation reader" where
  "r_explanation limits =
     r_bind r_u16 (\<lambda>code.
     r_bind (r_throw_if (code < 1 \<or> 22 < code) (malformed ''unknown explanation code on the wire'')) (\<lambda>_.
     r_bind r_u32 (\<lambda>count.
     r_bind (r_throw_if (64 < unat count)
       (resource_limit ''explanation detail count exceeds the protocol bound'')) (\<lambda>_.
     r_details limits (unat count) (explanation (explanation_code_of code))))))"

definition detail_fits :: "Limits \<Rightarrow> string \<times> string \<Rightarrow> bool" where
  "detail_fits limits d \<longleftrightarrow>
     string_fits limits (max_string_size limits) (fst d) \<and>
     string_fits limits (max_string_size limits) (snd d)"

definition explanation_fits :: "Limits \<Rightarrow> Explanation \<Rightarrow> bool" where
  "explanation_fits limits e \<longleftrightarrow>
     sorted (map fst (ex_details e)) \<and> length (ex_details e) \<le> 64 \<and>
     list_all (detail_fits limits) (ex_details e)"

lemma explanation_code_wire_bounds [simp]: "explanation_code_wire c \<noteq> 0" "\<not> 22 < explanation_code_wire c"
  by (cases c; simp)+

lemma explanation_code_of_wire [simp]: "explanation_code_of (explanation_code_wire c) = c"
  by (cases c) (simp_all add: explanation_code_of_def explanation_codes_def)

lemma detail_ok: "detail_fits limits d \<Longrightarrow> \<not> isl (w_detail limits d)"
  by (auto simp: w_detail_def detail_fits_def string_fits_def codec_simps kAbsoluteMaxBytes_def split: prod.split)

lemma details_ok: "list_all (detail_fits limits) ds \<Longrightarrow> \<not> isl (w_each (w_detail limits) ds)"
  by (simp add: codec_simps list_all_iff detail_ok)

lemma r_details_each:
  assumes "sorted (map fst (ex_details e @ ds))" "list_all (detail_fits limits) ds"
  shows "r_details limits (length ds) e (projr (w_each (w_detail limits) ds) @ rest) =
    Inr (e\<lparr> ex_details := ex_details e @ ds \<rparr>, rest)"
  using assms
proof (induction ds arbitrary: e)
  case Nil
  then show ?case by (simp add: w_each_def w_seq.simps codec_simps)
next
  case (Cons d ds)
  obtain k v where d: "d = (k, v)" by (cases d)
  have fits: "string_fits limits (max_string_size limits) k" "string_fits limits (max_string_size limits) v"
    using Cons.prems(2) d by (simp_all add: detail_fits_def)
  have each: "projr (w_each (w_detail limits) (d # ds)) =
      projr (w_string k) @ projr (w_string v) @ projr (w_each (w_detail limits) ds)"
    using Cons.prems(2) detail_ok details_ok fits string_fits_u32
    by (auto simp: projr_w_each list_all_iff w_detail_def d codec_simps string_fits_def)
  have "ex_with e k v = e\<lparr> ex_details := ex_details e @ [(k, v)] \<rparr>"
    using Cons.prems(1) d by (simp add: ex_with_def sort_key_id_if_sorted sorted_append)
  then show ?case
    using Cons.IH [of "e\<lparr> ex_details := ex_details e @ [(k, v)] \<rparr>"] Cons.prems fits
    by (simp add: each codec_simps) (simp add: d)
qed

interpretation explanation_codec: byte_codec "w_explanation limits" "r_explanation limits"
  "explanation_fits limits" for limits
proof unfold_locales
  fix e :: Explanation and rest :: "byte list"
  assume fits: "explanation_fits limits e"
  then show "\<not> isl (w_explanation limits e)"
    by (simp add: w_explanation_def codec_simps explanation_fits_def details_ok)
  have n: "unat (word_of_nat (length (ex_details e)) :: u32) = length (ex_details e)"
    using fits by (intro unat_word_of_nat_u32) (simp add: explanation_fits_def)
  have "r_details limits (length (ex_details e)) (explanation (ex_code e))
      (projr (w_each (w_detail limits) (ex_details e)) @ rest) = Inr (e, rest)"
    using r_details_each [of "explanation (ex_code e)" "ex_details e" limits rest] fits
    by (simp add: explanation_def explanation_fits_def)
  then show "r_explanation limits (projr (w_explanation limits e) @ rest) = Inr (e, rest)"
    using fits details_ok [of limits "ex_details e"]
    by (simp add: w_explanation_def r_explanation_def codec_simps n explanation_fits_def)
qed

lemmas explanation_rules [codec_simps] =
  explanation_codec.bind_enc explanation_codec.bind_enc_end explanation_codec.enc_ok

section \<open>Hello\<close>

definition kMaxVersionTextLength :: nat where
  "kMaxVersionTextLength = 64"

definition kMaxRoleTextLength :: nat where
  "kMaxRoleTextLength = 32"

record HelloPayload =
  he_product_version :: string
  he_role :: string
  he_wire_version :: u16

definition encode_hello :: "string \<Rightarrow> string \<Rightarrow> writer" where
  "encode_hello product_version role =
     w_seq [w_u16 wire_protocol_version, w_string product_version, w_string role]"

definition r_hello :: "Limits \<Rightarrow> HelloPayload reader" where
  "r_hello limits =
     r_bind r_u16 (\<lambda>wire_version.
     r_bind (r_throw_if (wire_version \<noteq> wire_protocol_version)
       (EpochError UnsupportedVersion ''hello protocol version is not supported'')) (\<lambda>_.
     r_bind (r_string limits kMaxVersionTextLength) (\<lambda>product_version.
     r_bind (r_string limits kMaxRoleTextLength) (\<lambda>role.
     r_return \<lparr> he_product_version = product_version, he_role = role, he_wire_version = wire_version \<rparr>))))"

definition decode_hello :: "byte list \<Rightarrow> Limits \<Rightarrow> HelloPayload res" where
  "decode_hello payload limits = r_whole (r_hello limits) payload"

definition hello_fits :: "Limits \<Rightarrow> HelloPayload \<Rightarrow> bool" where
  "hello_fits limits h \<longleftrightarrow>
     string_fits limits kMaxVersionTextLength (he_product_version h) \<and>
     string_fits limits kMaxRoleTextLength (he_role h) \<and> he_wire_version h = wire_protocol_version"

lemma hello_lengths:
  "hello_fits limits h \<Longrightarrow> length (he_product_version h) < 4294967296 \<and> length (he_role h) < 4294967296"
  by (auto simp: hello_fits_def dest: string_fits_u32)

interpretation hello_codec: canonical_codec "\<lambda>h. encode_hello (he_product_version h) (he_role h)"
  "r_hello limits" "hello_fits limits" for limits
proof unfold_locales
  fix h :: HelloPayload and rest bs :: "byte list"
  show "hello_fits limits h \<Longrightarrow> \<not> isl (encode_hello (he_product_version h) (he_role h))"
    by (auto simp: encode_hello_def hello_fits_def codec_simps string_fits_u32)
  show "hello_fits limits h \<Longrightarrow>
      r_hello limits (projr (encode_hello (he_product_version h) (he_role h)) @ rest) = Inr (h, rest)"
    using hello_lengths [of limits h]
    by (cases h) (simp add: encode_hello_def r_hello_def hello_fits_def codec_simps)
  show "r_hello limits bs = Inr (h, rest) \<Longrightarrow>
      hello_fits limits h \<and> bs = projr (encode_hello (he_product_version h) (he_role h)) @ rest"
    by (auto simp: encode_hello_def r_hello_def hello_fits_def wire_iffs codec_simps string_fits_u32)
qed

record HelloAckPayload =
  ha_epoch :: CoordinatorEpoch
  ha_coordinator_boot :: CoordinatorBootId
  ha_session :: SessionId
  ha_product_version :: string

definition encode_hello_ack :: "CoordinatorEpoch \<Rightarrow> CoordinatorBootId \<Rightarrow> SessionId \<Rightarrow> string \<Rightarrow> writer" where
  "encode_hello_ack epoch boot session product_version =
     w_seq [w_counter epoch, w_id boot, w_id session, w_string product_version]"

definition r_hello_ack :: "Limits \<Rightarrow> HelloAckPayload reader" where
  "r_hello_ack limits =
     r_bind r_counter (\<lambda>epoch.
     r_bind r_id (\<lambda>boot.
     r_bind r_id (\<lambda>session.
     r_bind (r_string limits kMaxVersionTextLength) (\<lambda>product_version.
     r_return \<lparr> ha_epoch = epoch, ha_coordinator_boot = boot, ha_session = session,
       ha_product_version = product_version \<rparr>))))"

definition decode_hello_ack :: "byte list \<Rightarrow> Limits \<Rightarrow> HelloAckPayload res" where
  "decode_hello_ack payload limits = r_whole (r_hello_ack limits) payload"

interpretation hello_ack_codec: canonical_codec
  "\<lambda>a. encode_hello_ack (ha_epoch a) (ha_coordinator_boot a) (ha_session a) (ha_product_version a)"
  "r_hello_ack limits" "\<lambda>a. string_fits limits kMaxVersionTextLength (ha_product_version a)" for limits
  by unfold_locales
    (auto simp: encode_hello_ack_def r_hello_ack_def wire_iffs codec_simps string_fits_u32)

section \<open>Registration\<close>

record RegisterWireRequest =
  rw_request :: RegisterParticipantRequest
  rw_session :: SessionId

definition encode_register_request ::
  "RegisterParticipantRequest \<Rightarrow> SessionId \<Rightarrow> Limits \<Rightarrow> writer"
where
  "encode_register_request request session limits =
     w_seq [w_id (rp_attempt request), w_counter (rp_expected_epoch request),
       w_pid (rp_participant request), w_id (rp_boot request),
       encode_scope_set_canonical (rp_scopes request), w_u8 (incarnation_policy_wire (rp_policy request)),
       w_opt_counter (rp_expected_generation request), w_wire_text limits (rp_provenance request),
       w_id session]"

definition r_register_request :: "Limits \<Rightarrow> RegisterWireRequest reader" where
  "r_register_request limits =
     r_bind r_id (\<lambda>attempt.
     r_bind r_counter (\<lambda>expected_epoch.
     r_bind (wire_pid limits) (\<lambda>participant.
     r_bind r_id (\<lambda>boot.
     r_bind (decode_scope_set_canonical limits) (\<lambda>scopes.
     r_bind r_u8 (\<lambda>policy_byte.
     r_bind (r_some (incarnation_policy_from_wire policy_byte)
       (malformed ''unknown incarnation policy on the wire'')) (\<lambda>policy.
     r_bind r_u8 (\<lambda>has_generation.
     r_bind (r_throw_if (1 < has_generation)
       (malformed ''register request carries an invalid generation presence flag'')) (\<lambda>_.
     r_bind r_u64 (\<lambda>generation.
     r_bind (r_throw_if (has_generation \<noteq> 1 \<and> generation \<noteq> 0)
       (malformed ''register request carries a generation value without its presence flag'')) (\<lambda>_.
     r_bind (wire_text limits) (\<lambda>provenance.
     r_bind r_id (\<lambda>session.
     r_return
       \<lparr> rw_request =
           \<lparr> rp_attempt = attempt, rp_expected_epoch = expected_epoch, rp_participant = participant,
             rp_boot = boot, rp_scopes = scopes, rp_policy = policy,
             rp_expected_generation =
               (if has_generation = 1 then Some (MonotonicCounter generation) else None),
             rp_provenance = provenance \<rparr>,
         rw_session = session \<rparr>)))))))))))))"

definition decode_register_request :: "byte list \<Rightarrow> Limits \<Rightarrow> RegisterWireRequest res" where
  "decode_register_request payload limits = r_whole (r_register_request limits) payload"

definition register_request_fits :: "Limits \<Rightarrow> RegisterWireRequest \<Rightarrow> bool" where
  "register_request_fits limits w \<longleftrightarrow>
     pid_fits limits (rp_participant (rw_request w)) \<and> scope_set_fits limits (rp_scopes (rw_request w)) \<and>
     text_fits limits (rp_provenance (rw_request w))"

interpretation register_request_codec: canonical_codec
  "\<lambda>w. encode_register_request (rw_request w) (rw_session w) limits"
  "r_register_request limits" "register_request_fits limits" for limits
proof unfold_locales
  fix w :: RegisterWireRequest and rest bs :: "byte list"
  show "register_request_fits limits w \<Longrightarrow> \<not> isl (encode_register_request (rw_request w) (rw_session w) limits)"
    by (auto simp: encode_register_request_def register_request_fits_def codec_simps)
  show "register_request_fits limits w \<Longrightarrow>
      r_register_request limits (projr (encode_register_request (rw_request w) (rw_session w) limits) @ rest) =
        Inr (w, rest)"
    by (cases "rp_expected_generation (rw_request w)")
      (auto simp: encode_register_request_def r_register_request_def register_request_fits_def
        w_opt_counter_def w_flag_def codec_simps)
  show "r_register_request limits bs = Inr (w, rest) \<Longrightarrow>
      register_request_fits limits w \<and>
      bs = projr (encode_register_request (rw_request w) (rw_session w) limits) @ rest"
    by (auto simp: encode_register_request_def r_register_request_def register_request_fits_def
        w_opt_counter_def w_flag_def wire_iffs policy_from_wire_Some byte_le_one codec_simps)
qed

definition encode_register_result :: "RegistrationResult \<Rightarrow> Limits \<Rightarrow> writer" where
  "encode_register_result result limits =
     w_seq [w_u8 (registration_outcome_wire (rr_outcome result)), w_counter (rr_epoch result),
       w_id (rr_coordinator_boot result), w_opt_counter (rr_generation result),
       w_opt_counter (rr_incarnation result), w_flag (rr_replayed result),
       w_explanation limits (rr_explanation result)]"

definition r_register_result :: "Limits \<Rightarrow> RegistrationResult reader" where
  "r_register_result limits =
     r_bind (r_code (registration_outcome_wire RegistrationOutcome.RevalidationRequired)
       ''register result carries an unknown outcome code'' registration_outcome_of_code) (\<lambda>outcome.
     r_bind r_counter (\<lambda>epoch.
     r_bind r_id (\<lambda>coordinator_boot.
     r_bind (r_opt_counter ''register result carries an invalid generation presence flag'') (\<lambda>generation.
     r_bind (r_opt_counter ''register result carries an invalid incarnation presence flag'') (\<lambda>incarnation.
     r_bind (r_flag ''register result carries an invalid replay flag'') (\<lambda>replayed.
     r_bind (r_explanation limits) (\<lambda>e.
     r_return
       \<lparr> rr_outcome = outcome, rr_epoch = epoch, rr_coordinator_boot = coordinator_boot,
         rr_generation = generation, rr_incarnation = incarnation, rr_replayed = replayed,
         rr_explanation = e \<rparr>)))))))"

definition decode_register_result :: "byte list \<Rightarrow> Limits \<Rightarrow> RegistrationResult res" where
  "decode_register_result payload limits = r_whole (r_register_result limits) payload"

definition register_result_fits :: "Limits \<Rightarrow> RegistrationResult \<Rightarrow> bool" where
  "register_result_fits limits r \<longleftrightarrow>
     (\<forall>b. rr_outcome r \<noteq> RegistrationOutcome.UnnamedRegistrationOutcome b) \<and>
     explanation_fits limits (rr_explanation r)"

lemma registration_outcome_named:
  assumes "\<forall>b. r \<noteq> RegistrationOutcome.UnnamedRegistrationOutcome b"
  shows "\<not> registration_outcome_wire RegistrationOutcome.RevalidationRequired < registration_outcome_wire r"
    "registration_outcome_of_code (registration_outcome_wire r) = r"
  using assms by (cases r; simp add: registration_outcome_of_code_def)+

interpretation register_result_codec: byte_codec "\<lambda>r. encode_register_result r limits"
  "r_register_result limits" "register_result_fits limits" for limits
proof unfold_locales
  fix r :: RegistrationResult and rest :: "byte list"
  assume fits: "register_result_fits limits r"
  then show "\<not> isl (encode_register_result r limits)"
    by (simp add: encode_register_result_def register_result_fits_def codec_simps)
  show "r_register_result limits (projr (encode_register_result r limits) @ rest) = Inr (r, rest)"
    using fits registration_outcome_named [of "rr_outcome r"]
    by (simp add: encode_register_result_def r_register_result_def register_result_fits_def codec_simps
        del: registration_outcome_wire.simps)
qed

section \<open>Validation\<close>

definition w_token :: "AuthorityToken \<Rightarrow> writer" where
  "w_token token =
     w_seq [w_counter (tok_epoch token), w_pid (tok_participant token), w_id (tok_boot token),
       w_counter (tok_incarnation token), w_counter (tok_registration_generation token)]"

definition r_token :: "Limits \<Rightarrow> AuthorityToken reader" where
  "r_token limits =
     r_bind r_counter (\<lambda>epoch.
     r_bind (wire_pid limits) (\<lambda>participant.
     r_bind r_id (\<lambda>boot.
     r_bind r_counter (\<lambda>incarnation.
     r_bind r_counter (\<lambda>generation.
     r_return
       \<lparr> tok_epoch = epoch, tok_participant = participant, tok_boot = boot,
         tok_incarnation = incarnation, tok_registration_generation = generation \<rparr>)))))"

interpretation token_codec: canonical_codec w_token "r_token limits"
  "\<lambda>t. pid_fits limits (tok_participant t)" for limits
  by unfold_locales (auto simp: w_token_def r_token_def wire_iffs codec_simps)

definition encode_validate_request :: "ValidateAuthorityRequest \<Rightarrow> writer" where
  "encode_validate_request request =
     w_seq [w_token (va_token request), w_scope (va_scope request),
       w_opt_counter (va_expected_generation request), w_opt_id (va_grant request)]"

definition r_validate_request :: "Limits \<Rightarrow> ValidateAuthorityRequest reader" where
  "r_validate_request limits =
     r_bind (r_token limits) (\<lambda>token.
     r_bind (wire_scope limits) (\<lambda>scope.
     r_bind (r_opt_counter ''validate request carries an invalid generation presence flag'') (\<lambda>generation.
     r_bind (r_opt_id ''validate request carries an invalid grant presence flag'') (\<lambda>grant.
     r_return
       \<lparr> va_token = token, va_scope = scope, va_expected_generation = generation, va_grant = grant \<rparr>))))"

definition decode_validate_request :: "byte list \<Rightarrow> Limits \<Rightarrow> ValidateAuthorityRequest res" where
  "decode_validate_request payload limits = r_whole (r_validate_request limits) payload"

definition validate_request_fits :: "Limits \<Rightarrow> ValidateAuthorityRequest \<Rightarrow> bool" where
  "validate_request_fits limits q \<longleftrightarrow>
     pid_fits limits (tok_participant (va_token q)) \<and> scope_fits limits (va_scope q)"

interpretation validate_request_codec: byte_codec encode_validate_request "r_validate_request limits"
  "validate_request_fits limits" for limits
  by unfold_locales
    (auto simp: encode_validate_request_def r_validate_request_def validate_request_fits_def codec_simps
      token_codec.bind_enc token_codec.enc_ok)

definition validation_code_of :: "byte \<Rightarrow> AuthorityValidationCode" where
  "validation_code_of v =
     [AuthorityValidationCode.Current, AuthorityValidationCode.StaleEpoch,
      AuthorityValidationCode.StaleWorkerBoot, AuthorityValidationCode.UnknownParticipant,
      AuthorityValidationCode.UnauthorizedScope, AuthorityValidationCode.RevalidationRequired,
      AuthorityValidationCode.Malformed, AuthorityValidationCode.Retired,
      AuthorityValidationCode.UnknownGrant, AuthorityValidationCode.Revoked] ! unat v"

definition currentness_of :: "byte \<Rightarrow> AuthorityCurrentness" where
  "currentness_of v =
     [AuthorityCurrentness.Current, AuthorityCurrentness.RevalidationRequired,
      AuthorityCurrentness.Fenced, AuthorityCurrentness.StaleEpoch, AuthorityCurrentness.Retired,
      AuthorityCurrentness.Unknown, AuthorityCurrentness.Revoked] ! unat v"

definition encode_validation :: "AuthorityValidation \<Rightarrow> Limits \<Rightarrow> writer" where
  "encode_validation v limits =
     w_seq [w_u8 (validation_code_wire (av_code v)), w_u8 (currentness_wire (av_currentness v)),
       w_counter (av_epoch v), w_id (av_coordinator_boot v), w_opt_counter (av_generation v),
       w_opt_counter (av_incarnation v), w_opt_counter (av_replaced_by_epoch v),
       w_opt_id (av_superseded_by v), w_explanation limits (av_explanation v)]"

definition r_validation :: "Limits \<Rightarrow> AuthorityValidation reader" where
  "r_validation limits =
     r_bind (r_code (validation_code_wire AuthorityValidationCode.Revoked)
       ''validation carries an unknown result code'' validation_code_of) (\<lambda>code.
     r_bind (r_code (currentness_wire AuthorityCurrentness.Revoked)
       ''validation carries an unknown currentness code'' currentness_of) (\<lambda>currentness.
     r_bind r_counter (\<lambda>epoch.
     r_bind r_id (\<lambda>coordinator_boot.
     r_bind (r_opt_counter ''validation carries an invalid generation presence flag'') (\<lambda>generation.
     r_bind (r_opt_counter ''validation carries an invalid incarnation presence flag'') (\<lambda>incarnation.
     r_bind (r_opt_counter ''validation carries an invalid replaced-epoch presence flag'') (\<lambda>replaced.
     r_bind (r_opt_id ''validation carries an invalid superseded-boot presence flag'') (\<lambda>superseded.
     r_bind (r_explanation limits) (\<lambda>e.
     r_return
       \<lparr> av_code = code, av_currentness = currentness, av_epoch = epoch,
         av_coordinator_boot = coordinator_boot, av_generation = generation,
         av_incarnation = incarnation, av_replaced_by_epoch = replaced,
         av_superseded_by = superseded, av_explanation = e \<rparr>)))))))))"

definition decode_validation :: "byte list \<Rightarrow> Limits \<Rightarrow> AuthorityValidation res" where
  "decode_validation payload limits = r_whole (r_validation limits) payload"

lemma validation_codes_named:
  "\<not> validation_code_wire AuthorityValidationCode.Revoked < validation_code_wire c"
  "validation_code_of (validation_code_wire c) = c"
  by (cases c; simp add: validation_code_of_def)+

lemma currentness_named:
  "\<not> currentness_wire AuthorityCurrentness.Revoked < currentness_wire a"
  "currentness_of (currentness_wire a) = a"
  by (cases a; simp add: currentness_of_def)+

interpretation validation_codec: byte_codec "\<lambda>v. encode_validation v limits" "r_validation limits"
  "\<lambda>v. explanation_fits limits (av_explanation v)" for limits
  by unfold_locales
    (simp_all add: encode_validation_def r_validation_def codec_simps validation_codes_named currentness_named
      del: validation_code_wire.simps currentness_wire.simps)

section \<open>Fencing\<close>

definition encode_fence_request :: "FenceWorkerRequest \<Rightarrow> Limits \<Rightarrow> writer" where
  "encode_fence_request request limits =
     w_seq [w_id (fw_attempt request), w_counter (fw_expected_epoch request),
       w_pid (fw_participant request), w_id (fw_boot request), w_u8 (fence_reason_wire (fw_reason request)),
       w_wire_text limits (fw_note request)]"

definition r_fence_request :: "Limits \<Rightarrow> FenceWorkerRequest reader" where
  "r_fence_request limits =
     r_bind r_id (\<lambda>attempt.
     r_bind r_counter (\<lambda>expected_epoch.
     r_bind (wire_pid limits) (\<lambda>participant.
     r_bind r_id (\<lambda>boot.
     r_bind r_u8 (\<lambda>reason_byte.
     r_bind (r_some (fence_reason_from_wire reason_byte)
       (malformed ''fence request carries an unknown reason code'')) (\<lambda>reason.
     r_bind (wire_text limits) (\<lambda>note_text.
     r_return
       \<lparr> fw_attempt = attempt, fw_expected_epoch = expected_epoch, fw_participant = participant,
         fw_boot = boot, fw_reason = reason, fw_note = note_text \<rparr>)))))))"

definition decode_fence_request :: "byte list \<Rightarrow> Limits \<Rightarrow> FenceWorkerRequest res" where
  "decode_fence_request payload limits = r_whole (r_fence_request limits) payload"

definition fence_request_fits :: "Limits \<Rightarrow> FenceWorkerRequest \<Rightarrow> bool" where
  "fence_request_fits limits q \<longleftrightarrow> pid_fits limits (fw_participant q) \<and> text_fits limits (fw_note q)"

interpretation fence_request_codec: canonical_codec "\<lambda>q. encode_fence_request q limits"
  "r_fence_request limits" "fence_request_fits limits" for limits
  by unfold_locales
    ((auto simp: encode_fence_request_def r_fence_request_def fence_request_fits_def codec_simps)[1], (auto simp: encode_fence_request_def r_fence_request_def fence_request_fits_def codec_simps)[1],
      auto simp: encode_fence_request_def r_fence_request_def fence_request_fits_def codec_simps wire_iffs fence_reason_from_wire_Some)

definition encode_fence_result :: "FenceResult \<Rightarrow> Limits \<Rightarrow> writer" where
  "encode_fence_result result limits =
     w_seq [w_u8 (fence_outcome_wire (fo_outcome result)), w_counter (fo_epoch result),
       w_opt_counter (fo_generation result), w_opt_counter (fo_incarnation result),
       w_explanation limits (fo_explanation result)]"

definition r_fence_result :: "Limits \<Rightarrow> FenceResult reader" where
  "r_fence_result limits =
     r_bind (r_code (fence_outcome_wire FenceOutcome.NoFenceRequired)
       ''fence result carries an unknown outcome code'' fence_outcome_of_code) (\<lambda>outcome.
     r_bind r_counter (\<lambda>epoch.
     r_bind (r_opt_counter ''fence result carries an invalid generation presence flag'') (\<lambda>generation.
     r_bind (r_opt_counter ''fence result carries an invalid incarnation presence flag'') (\<lambda>incarnation.
     r_bind (r_explanation limits) (\<lambda>e.
     r_return
       \<lparr> fo_outcome = outcome, fo_epoch = epoch, fo_generation = generation,
         fo_incarnation = incarnation, fo_explanation = e \<rparr>)))))"

definition decode_fence_result :: "byte list \<Rightarrow> Limits \<Rightarrow> FenceResult res" where
  "decode_fence_result payload limits = r_whole (r_fence_result limits) payload"

definition fence_result_fits :: "Limits \<Rightarrow> FenceResult \<Rightarrow> bool" where
  "fence_result_fits limits r \<longleftrightarrow>
     (\<forall>b. fo_outcome r \<noteq> FenceOutcome.UnnamedFenceOutcome b) \<and> explanation_fits limits (fo_explanation r)"

lemma fence_outcome_named:
  assumes "\<forall>b. r \<noteq> FenceOutcome.UnnamedFenceOutcome b"
  shows "\<not> fence_outcome_wire FenceOutcome.NoFenceRequired < fence_outcome_wire r"
    "fence_outcome_of_code (fence_outcome_wire r) = r"
  using assms by (cases r; simp add: fence_outcome_of_code_def)+

interpretation fence_result_codec: byte_codec "\<lambda>r. encode_fence_result r limits" "r_fence_result limits"
  "fence_result_fits limits" for limits
  by unfold_locales
    (simp_all add: encode_fence_result_def r_fence_result_def fence_result_fits_def fence_outcome_named
      codec_simps del: fence_outcome_wire.simps)

section \<open>Revocation\<close>

definition encode_revoke_request :: "RevokeAuthorityRequest \<Rightarrow> Limits \<Rightarrow> writer" where
  "encode_revoke_request request limits =
     w_seq [w_id (vq_attempt request), w_counter (vq_expected_epoch request), w_id (vq_grant request),
       w_u8 (fence_reason_wire (vq_reason request)), w_wire_text limits (vq_note request)]"

definition r_revoke_request :: "Limits \<Rightarrow> RevokeAuthorityRequest reader" where
  "r_revoke_request limits =
     r_bind r_id (\<lambda>attempt.
     r_bind r_counter (\<lambda>expected_epoch.
     r_bind r_id (\<lambda>grant.
     r_bind r_u8 (\<lambda>reason_byte.
     r_bind (r_some (fence_reason_from_wire reason_byte)
       (malformed ''revoke request carries an unknown reason code'')) (\<lambda>reason.
     r_bind (wire_text limits) (\<lambda>note_text.
     r_return
       \<lparr> vq_attempt = attempt, vq_expected_epoch = expected_epoch, vq_grant = grant,
         vq_reason = reason, vq_note = note_text \<rparr>))))))"

definition decode_revoke_request :: "byte list \<Rightarrow> Limits \<Rightarrow> RevokeAuthorityRequest res" where
  "decode_revoke_request payload limits = r_whole (r_revoke_request limits) payload"

interpretation revoke_request_codec: canonical_codec "\<lambda>q. encode_revoke_request q limits"
  "r_revoke_request limits" "\<lambda>q. text_fits limits (vq_note q)" for limits
  by unfold_locales
    ((auto simp: encode_revoke_request_def r_revoke_request_def codec_simps)[1], (auto simp: encode_revoke_request_def r_revoke_request_def codec_simps)[1],
      auto simp: encode_revoke_request_def r_revoke_request_def codec_simps wire_iffs fence_reason_from_wire_Some)

definition encode_revoke_result :: "RevokeResult \<Rightarrow> Limits \<Rightarrow> writer" where
  "encode_revoke_result result limits =
     w_seq [w_u8 (revoke_outcome_wire (vr_outcome result)), w_counter (vr_epoch result),
       w_opt_counter (vr_generation result), w_size (vr_derived_grants_revoked result),
       w_explanation limits (vr_explanation result)]"

definition r_revoke_result :: "Limits \<Rightarrow> RevokeResult reader" where
  "r_revoke_result limits =
     r_bind (r_code (revoke_outcome_wire RevokeOutcome.ConflictingAttempt)
       ''revoke result carries an unknown outcome code'' revoke_outcome_of_code) (\<lambda>outcome.
     r_bind r_counter (\<lambda>epoch.
     r_bind (r_opt_counter ''revoke result carries an invalid generation presence flag'') (\<lambda>generation.
     r_bind r_size (\<lambda>derived.
     r_bind (r_explanation limits) (\<lambda>e.
     r_return
       \<lparr> vr_outcome = outcome, vr_epoch = epoch, vr_generation = generation,
         vr_derived_grants_revoked = derived, vr_explanation = e \<rparr>)))))"

definition decode_revoke_result :: "byte list \<Rightarrow> Limits \<Rightarrow> RevokeResult res" where
  "decode_revoke_result payload limits = r_whole (r_revoke_result limits) payload"

definition revoke_result_fits :: "Limits \<Rightarrow> RevokeResult \<Rightarrow> bool" where
  "revoke_result_fits limits r \<longleftrightarrow>
     (\<forall>b. vr_outcome r \<noteq> RevokeOutcome.UnnamedRevokeOutcome b) \<and>
     vr_derived_grants_revoked r < 18446744073709551616 \<and> explanation_fits limits (vr_explanation r)"

lemma revoke_outcome_named:
  assumes "\<forall>b. r \<noteq> RevokeOutcome.UnnamedRevokeOutcome b"
  shows "\<not> revoke_outcome_wire RevokeOutcome.ConflictingAttempt < revoke_outcome_wire r"
    "revoke_outcome_of_code (revoke_outcome_wire r) = r"
  using assms by (cases r; simp add: revoke_outcome_of_code_def)+

interpretation revoke_result_codec: byte_codec "\<lambda>r. encode_revoke_result r limits" "r_revoke_result limits"
  "revoke_result_fits limits" for limits
  by unfold_locales
    (simp_all add: encode_revoke_result_def r_revoke_result_def revoke_result_fits_def revoke_outcome_named
      codec_simps del: revoke_outcome_wire.simps)

section \<open>Epochs\<close>

definition encode_advance_request :: "EpochAdvanceRequest \<Rightarrow> Limits \<Rightarrow> writer" where
  "encode_advance_request request limits =
     w_seq [w_id (eq_attempt request), w_counter (eq_expected_epoch request),
       w_u8 (transition_cause_wire (eq_cause request)), w_wire_text limits (eq_provenance request)]"

definition r_advance_request :: "Limits \<Rightarrow> EpochAdvanceRequest reader" where
  "r_advance_request limits =
     r_bind r_id (\<lambda>attempt.
     r_bind r_counter (\<lambda>expected_epoch.
     r_bind r_u8 (\<lambda>cause_byte.
     r_bind (r_some (transition_cause_from_wire cause_byte)
       (malformed ''advance request carries an unknown transition cause'')) (\<lambda>cause.
     r_bind (wire_text limits) (\<lambda>provenance.
     r_return
       \<lparr> eq_attempt = attempt, eq_expected_epoch = expected_epoch, eq_cause = cause,
         eq_provenance = provenance \<rparr>)))))"

definition decode_advance_request :: "byte list \<Rightarrow> Limits \<Rightarrow> EpochAdvanceRequest res" where
  "decode_advance_request payload limits = r_whole (r_advance_request limits) payload"

interpretation advance_request_codec: canonical_codec "\<lambda>q. encode_advance_request q limits"
  "r_advance_request limits" "\<lambda>q. text_fits limits (eq_provenance q)" for limits
  by unfold_locales
    ((auto simp: encode_advance_request_def r_advance_request_def codec_simps)[1], (auto simp: encode_advance_request_def r_advance_request_def codec_simps)[1],
      auto simp: encode_advance_request_def r_advance_request_def codec_simps wire_iffs transition_cause_from_wire_Some)

definition encode_advance_result :: "EpochAdvanceResult \<Rightarrow> Limits \<Rightarrow> writer" where
  "encode_advance_result result limits =
     w_seq [w_u8 (advance_outcome_wire (eo_outcome result)), w_counter (eo_epoch result),
       w_id (eo_coordinator_boot result), w_opt_id (eo_transition result), w_flag (eo_replayed result),
       w_explanation limits (eo_explanation result)]"

definition r_advance_result :: "Limits \<Rightarrow> EpochAdvanceResult reader" where
  "r_advance_result limits =
     r_bind (r_code (advance_outcome_wire EpochAdvanceOutcome.ConflictingAttempt)
       ''advance result carries an unknown outcome code'' advance_outcome_of_code) (\<lambda>outcome.
     r_bind r_counter (\<lambda>epoch.
     r_bind r_id (\<lambda>coordinator_boot.
     r_bind (r_opt_id ''advance result carries an invalid transition presence flag'') (\<lambda>transition.
     r_bind (r_flag ''advance result carries an invalid replay flag'') (\<lambda>replayed.
     r_bind (r_explanation limits) (\<lambda>e.
     r_return
       \<lparr> eo_outcome = outcome, eo_epoch = epoch, eo_coordinator_boot = coordinator_boot,
         eo_transition = transition, eo_replayed = replayed, eo_explanation = e \<rparr>))))))"

definition decode_advance_result :: "byte list \<Rightarrow> Limits \<Rightarrow> EpochAdvanceResult res" where
  "decode_advance_result payload limits = r_whole (r_advance_result limits) payload"

definition advance_result_fits :: "Limits \<Rightarrow> EpochAdvanceResult \<Rightarrow> bool" where
  "advance_result_fits limits r \<longleftrightarrow>
     (\<forall>b. eo_outcome r \<noteq> EpochAdvanceOutcome.UnnamedAdvanceOutcome b) \<and>
     explanation_fits limits (eo_explanation r)"

lemma advance_outcome_named:
  assumes "\<forall>b. r \<noteq> EpochAdvanceOutcome.UnnamedAdvanceOutcome b"
  shows "\<not> advance_outcome_wire EpochAdvanceOutcome.ConflictingAttempt < advance_outcome_wire r"
    "advance_outcome_of_code (advance_outcome_wire r) = r"
  using assms by (cases r; simp add: advance_outcome_of_code_def)+

interpretation advance_result_codec: byte_codec "\<lambda>r. encode_advance_result r limits" "r_advance_result limits"
  "advance_result_fits limits" for limits
  by unfold_locales
    (simp_all add: encode_advance_result_def r_advance_result_def advance_result_fits_def advance_outcome_named
      codec_simps del: advance_outcome_wire.simps)

definition encode_epoch_state :: "EpochState \<Rightarrow> writer" where
  "encode_epoch_state s =
     w_seq [w_counter (es_epoch s), w_id (es_coordinator_boot s), w_counter (es_generation s),
       w_counter (es_registration_floor s), w_counter (es_fence_floor s), w_size (es_participant_count s),
       w_size (es_active_worker_count s), w_size (es_retained_fence_count s), w_size (es_live_grant_count s),
       w_size (es_transition_history_count s)]"

definition r_epoch_state :: "EpochState reader" where
  "r_epoch_state =
     r_bind r_counter (\<lambda>epoch.
     r_bind r_id (\<lambda>coordinator_boot.
     r_bind r_counter (\<lambda>generation.
     r_bind r_counter (\<lambda>registration_floor.
     r_bind r_counter (\<lambda>fence_floor.
     r_bind r_size (\<lambda>participants.
     r_bind r_size (\<lambda>workers.
     r_bind r_size (\<lambda>fences.
     r_bind r_size (\<lambda>grants.
     r_bind r_size (\<lambda>transitions.
     r_return
       \<lparr> es_epoch = epoch, es_coordinator_boot = coordinator_boot, es_generation = generation,
         es_registration_floor = registration_floor, es_fence_floor = fence_floor,
         es_participant_count = participants, es_active_worker_count = workers,
         es_retained_fence_count = fences, es_live_grant_count = grants,
         es_transition_history_count = transitions \<rparr>))))))))))"

definition decode_epoch_state :: "byte list \<Rightarrow> EpochState res" where
  "decode_epoch_state payload = r_whole r_epoch_state payload"

definition epoch_state_fits :: "EpochState \<Rightarrow> bool" where
  "epoch_state_fits s \<longleftrightarrow>
     es_participant_count s < 18446744073709551616 \<and> es_active_worker_count s < 18446744073709551616 \<and>
     es_retained_fence_count s < 18446744073709551616 \<and> es_live_grant_count s < 18446744073709551616 \<and>
     es_transition_history_count s < 18446744073709551616"

interpretation epoch_state_codec: canonical_codec encode_epoch_state r_epoch_state epoch_state_fits
  by unfold_locales
    ((auto simp: encode_epoch_state_def r_epoch_state_def epoch_state_fits_def codec_simps)[1], (auto simp: encode_epoch_state_def r_epoch_state_def epoch_state_fits_def codec_simps)[1],
      auto simp: encode_epoch_state_def r_epoch_state_def epoch_state_fits_def codec_simps wire_iffs)

section \<open>Retirement\<close>

definition encode_retire_request :: "RetireParticipantRequest \<Rightarrow> Limits \<Rightarrow> writer" where
  "encode_retire_request request limits =
     w_seq [w_id (tq_attempt request), w_counter (tq_expected_epoch request),
       w_pid (tq_participant request), w_wire_text limits (tq_note request)]"

definition r_retire_request :: "Limits \<Rightarrow> RetireParticipantRequest reader" where
  "r_retire_request limits =
     r_bind r_id (\<lambda>attempt.
     r_bind r_counter (\<lambda>expected_epoch.
     r_bind (wire_pid limits) (\<lambda>participant.
     r_bind (wire_text limits) (\<lambda>note_text.
     r_return
       \<lparr> tq_attempt = attempt, tq_expected_epoch = expected_epoch, tq_participant = participant,
         tq_note = note_text \<rparr>))))"

definition decode_retire_request :: "byte list \<Rightarrow> Limits \<Rightarrow> RetireParticipantRequest res" where
  "decode_retire_request payload limits = r_whole (r_retire_request limits) payload"

definition retire_request_fits :: "Limits \<Rightarrow> RetireParticipantRequest \<Rightarrow> bool" where
  "retire_request_fits limits q \<longleftrightarrow> pid_fits limits (tq_participant q) \<and> text_fits limits (tq_note q)"

interpretation retire_request_codec: canonical_codec "\<lambda>q. encode_retire_request q limits"
  "r_retire_request limits" "retire_request_fits limits" for limits
  by unfold_locales
    ((auto simp: encode_retire_request_def r_retire_request_def retire_request_fits_def codec_simps)[1], (auto simp: encode_retire_request_def r_retire_request_def retire_request_fits_def codec_simps)[1],
      auto simp: encode_retire_request_def r_retire_request_def retire_request_fits_def codec_simps wire_iffs)

definition encode_retire_result :: "RetireResult \<Rightarrow> Limits \<Rightarrow> writer" where
  "encode_retire_result result limits =
     w_seq [w_u8 (retire_outcome_wire (to_outcome result)), w_counter (to_epoch result),
       w_size (to_incarnations_fenced result), w_explanation limits (to_explanation result)]"

definition r_retire_result :: "Limits \<Rightarrow> RetireResult reader" where
  "r_retire_result limits =
     r_bind (r_code (retire_outcome_wire RetireOutcome.ConflictingAttempt)
       ''retire result carries an unknown outcome code'' retire_outcome_of_code) (\<lambda>outcome.
     r_bind r_counter (\<lambda>epoch.
     r_bind r_size (\<lambda>fenced.
     r_bind (r_explanation limits) (\<lambda>e.
     r_return
       \<lparr> to_outcome = outcome, to_epoch = epoch, to_incarnations_fenced = fenced,
         to_explanation = e \<rparr>))))"

definition decode_retire_result :: "byte list \<Rightarrow> Limits \<Rightarrow> RetireResult res" where
  "decode_retire_result payload limits = r_whole (r_retire_result limits) payload"

definition retire_result_fits :: "Limits \<Rightarrow> RetireResult \<Rightarrow> bool" where
  "retire_result_fits limits r \<longleftrightarrow>
     (\<forall>b. to_outcome r \<noteq> RetireOutcome.UnnamedRetireOutcome b) \<and>
     to_incarnations_fenced r < 18446744073709551616 \<and> explanation_fits limits (to_explanation r)"

lemma retire_outcome_named:
  assumes "\<forall>b. r \<noteq> RetireOutcome.UnnamedRetireOutcome b"
  shows "\<not> retire_outcome_wire RetireOutcome.ConflictingAttempt < retire_outcome_wire r"
    "retire_outcome_of_code (retire_outcome_wire r) = r"
  using assms by (cases r; simp add: retire_outcome_of_code_def)+

interpretation retire_result_codec: byte_codec "\<lambda>r. encode_retire_result r limits" "r_retire_result limits"
  "retire_result_fits limits" for limits
  by unfold_locales
    (simp_all add: encode_retire_result_def r_retire_result_def retire_result_fits_def retire_outcome_named
      codec_simps del: retire_outcome_wire.simps)

section \<open>Queries\<close>

definition encode_query_participant :: "ParticipantId \<Rightarrow> writer" where
  "encode_query_participant pid = w_pid pid"

definition decode_query_participant :: "byte list \<Rightarrow> Limits \<Rightarrow> ParticipantId res" where
  "decode_query_participant payload limits = r_whole (wire_pid limits) payload"

definition decode_view_payload :: "byte list \<Rightarrow> Limits \<Rightarrow> ParticipantView res" where
  "decode_view_payload payload limits = r_whole (decode_participant_view limits) payload"

record ExplainRequestPayload =
  xp_participant :: ParticipantId
  xp_boot :: WorkerBootId

definition encode_explain_request :: "ParticipantId \<Rightarrow> WorkerBootId \<Rightarrow> writer" where
  "encode_explain_request pid boot = w_seq [w_pid pid, w_id boot]"

definition r_explain_request :: "Limits \<Rightarrow> ExplainRequestPayload reader" where
  "r_explain_request limits =
     r_bind (wire_pid limits) (\<lambda>pid.
     r_bind r_id (\<lambda>boot.
     r_return \<lparr> xp_participant = pid, xp_boot = boot \<rparr>))"

definition decode_explain_request :: "byte list \<Rightarrow> Limits \<Rightarrow> ExplainRequestPayload res" where
  "decode_explain_request payload limits = r_whole (r_explain_request limits) payload"

interpretation explain_request_codec: canonical_codec
  "\<lambda>q. encode_explain_request (xp_participant q) (xp_boot q)" "r_explain_request limits"
  "\<lambda>q. pid_fits limits (xp_participant q)" for limits
  by unfold_locales
    ((auto simp: encode_explain_request_def r_explain_request_def codec_simps)[1], (auto simp: encode_explain_request_def r_explain_request_def codec_simps)[1],
      auto simp: encode_explain_request_def r_explain_request_def codec_simps wire_iffs)

definition encode_explanation :: "Explanation \<Rightarrow> Limits \<Rightarrow> writer" where
  "encode_explanation e limits = w_explanation limits e"

definition decode_explanation :: "byte list \<Rightarrow> Limits \<Rightarrow> Explanation res" where
  "decode_explanation payload limits = r_whole (r_explanation limits) payload"

section \<open>Snapshots\<close>

definition encode_snapshot_request :: writer where
  "encode_snapshot_request = w_u32 0"

definition w_fence_view :: "Limits \<Rightarrow> FenceRecord \<Rightarrow> writer" where
  "w_fence_view limits f =
     w_seq [w_id (fr_boot f), w_pid (fr_participant f), w_u8 (fence_reason_wire (fr_reason f)),
       w_counter (fr_generation f), w_counter (fr_epoch f), w_counter (fr_incarnation f),
       w_wire_text limits (fr_note f)]"

definition r_fence_view :: "Limits \<Rightarrow> FenceRecord reader" where
  "r_fence_view limits =
     r_bind r_id (\<lambda>boot.
     r_bind (wire_pid limits) (\<lambda>participant.
     r_bind r_u8 (\<lambda>reason_byte.
     r_bind (r_some (fence_reason_from_wire reason_byte)
       (malformed ''snapshot carries an unknown fence reason'')) (\<lambda>reason.
     r_bind r_counter (\<lambda>generation.
     r_bind r_counter (\<lambda>epoch.
     r_bind r_counter (\<lambda>incarnation.
     r_bind (wire_text limits) (\<lambda>note_text.
     r_return
       \<lparr> fr_boot = boot, fr_participant = participant, fr_reason = reason,
         fr_generation = generation, fr_epoch = epoch, fr_incarnation = incarnation,
         fr_note = note_text \<rparr>))))))))"

definition fence_view_fits :: "Limits \<Rightarrow> FenceRecord \<Rightarrow> bool" where
  "fence_view_fits limits f \<longleftrightarrow> pid_fits limits (fr_participant f) \<and> text_fits limits (fr_note f)"

interpretation fence_view_codec: canonical_codec "w_fence_view limits" "r_fence_view limits"
  "fence_view_fits limits" for limits
  by unfold_locales
    ((auto simp: w_fence_view_def r_fence_view_def fence_view_fits_def codec_simps)[1], (auto simp: w_fence_view_def r_fence_view_def fence_view_fits_def codec_simps)[1],
      auto simp: w_fence_view_def r_fence_view_def fence_view_fits_def codec_simps wire_iffs fence_reason_from_wire_Some)

definition w_grant_view :: "GrantView \<Rightarrow> writer" where
  "w_grant_view g =
     w_seq [w_id (gv_id g), w_counter (gv_epoch g), w_pid (gv_participant g), w_id (gv_boot g),
       w_counter (gv_generation g), w_flag (gv_revoked g), w_flag (gv_delegated g),
       encode_scope_set_canonical (gv_scopes g)]"

definition r_grant_view :: "Limits \<Rightarrow> GrantView reader" where
  "r_grant_view limits =
     r_bind r_id (\<lambda>gid.
     r_bind r_counter (\<lambda>epoch.
     r_bind (wire_pid limits) (\<lambda>participant.
     r_bind r_id (\<lambda>boot.
     r_bind r_counter (\<lambda>generation.
     r_bind r_u8 (\<lambda>revoked.
     r_bind r_u8 (\<lambda>delegated.
     r_bind (r_throw_if (1 < revoked \<or> 1 < delegated)
       (malformed ''snapshot carries an invalid grant flag'')) (\<lambda>_.
     r_bind (decode_scope_set_canonical limits) (\<lambda>scopes.
     r_return
       \<lparr> gv_id = gid, gv_epoch = epoch, gv_participant = participant, gv_boot = boot,
         gv_generation = generation, gv_revoked = (revoked = 1), gv_delegated = (delegated = 1),
         gv_scopes = scopes \<rparr>)))))))))"

definition grant_view_fits :: "Limits \<Rightarrow> GrantView \<Rightarrow> bool" where
  "grant_view_fits limits g \<longleftrightarrow> pid_fits limits (gv_participant g) \<and> scope_set_fits limits (gv_scopes g)"

interpretation grant_view_codec: canonical_codec w_grant_view "r_grant_view limits"
  "grant_view_fits limits" for limits
proof unfold_locales
  fix g :: GrantView and rest bs :: "byte list"
  show "grant_view_fits limits g \<Longrightarrow> \<not> isl (w_grant_view g)"
    by (auto simp: w_grant_view_def grant_view_fits_def codec_simps)
  show "grant_view_fits limits g \<Longrightarrow> r_grant_view limits (projr (w_grant_view g) @ rest) = Inr (g, rest)"
    by (cases "gv_revoked g"; cases "gv_delegated g")
      (auto simp: w_grant_view_def r_grant_view_def grant_view_fits_def w_flag_def codec_simps)
  show "r_grant_view limits bs = Inr (g, rest) \<Longrightarrow>
      grant_view_fits limits g \<and> bs = projr (w_grant_view g) @ rest"
    by (auto simp: w_grant_view_def r_grant_view_def grant_view_fits_def w_flag_def wire_iffs byte_le_one
        codec_simps)
qed

definition encode_snapshot_response :: "AuthoritySnapshot \<Rightarrow> Limits \<Rightarrow> writer" where
  "encode_snapshot_response s limits =
     w_seq [w_id (sn_id s), w_counter (sn_epoch s), w_id (sn_coordinator_boot s),
       w_counter (sn_generation s), w_counter (sn_registration_floor s), w_counter (sn_fence_floor s),
       w_counted encode_participant_view (sn_participants s),
       w_counted (w_fence_view limits) (sn_fences s), w_counted w_grant_view (sn_grants s),
       w_digest (sn_digest s)]"

definition r_snapshot_response :: "Limits \<Rightarrow> AuthoritySnapshot reader" where
  "r_snapshot_response limits =
     r_bind r_id (\<lambda>sid.
     r_bind r_counter (\<lambda>epoch.
     r_bind r_id (\<lambda>coordinator_boot.
     r_bind r_counter (\<lambda>generation.
     r_bind r_counter (\<lambda>registration_floor.
     r_bind r_counter (\<lambda>fence_floor.
     r_bind (r_limited (max_participants limits)
       (resource_limit ''snapshot participant count exceeds limits.max_participants'')
       (decode_participant_view limits)) (\<lambda>participants.
     r_bind (r_limited (max_recent_fences limits)
       (resource_limit ''snapshot fence count exceeds limits.max_recent_fences'')
       (r_fence_view limits)) (\<lambda>fences.
     r_bind (r_limited (max_authority_grants limits)
       (resource_limit ''snapshot grant count exceeds limits.max_authority_grants'')
       (r_grant_view limits)) (\<lambda>grants.
     r_bind r_digest (\<lambda>digest.
     r_return
       \<lparr> sn_id = sid, sn_epoch = epoch, sn_coordinator_boot = coordinator_boot,
         sn_generation = generation, sn_registration_floor = registration_floor,
         sn_fence_floor = fence_floor, sn_participants = participants, sn_fences = fences,
         sn_grants = grants, sn_digest = digest \<rparr>))))))))))"

definition decode_snapshot_response :: "byte list \<Rightarrow> Limits \<Rightarrow> AuthoritySnapshot res" where
  "decode_snapshot_response payload limits = r_whole (r_snapshot_response limits) payload"

definition snapshot_fits :: "Limits \<Rightarrow> AuthoritySnapshot \<Rightarrow> bool" where
  "snapshot_fits limits s \<longleftrightarrow>
     limited_fits (view_fits limits) (max_participants limits) (sn_participants s) \<and>
     limited_fits (fence_view_fits limits) (max_recent_fences limits) (sn_fences s) \<and>
     limited_fits (grant_view_fits limits) (max_authority_grants limits) (sn_grants s)"

interpretation snapshot_codec: canonical_codec "\<lambda>s. encode_snapshot_response s limits"
  "r_snapshot_response limits" "snapshot_fits limits" for limits
proof unfold_locales
  fix s :: AuthoritySnapshot and rest bs :: "byte list"
  show ok: "snapshot_fits limits s \<Longrightarrow> \<not> isl (encode_snapshot_response s limits)"
    using view_codec.limited_enc(1) fence_view_codec.limited_enc(1) grant_view_codec.limited_enc(1)
    by (simp add: encode_snapshot_response_def snapshot_fits_def codec_simps) blast
  show "snapshot_fits limits s \<Longrightarrow>
      r_snapshot_response limits (projr (encode_snapshot_response s limits) @ rest) = Inr (s, rest)"
    using ok
    by (simp add: encode_snapshot_response_def r_snapshot_response_def snapshot_fits_def codec_simps
        view_codec.bind_limited fence_view_codec.bind_limited grant_view_codec.bind_limited)
  show "r_snapshot_response limits bs = Inr (s, rest) \<Longrightarrow>
      snapshot_fits limits s \<and> bs = projr (encode_snapshot_response s limits) @ rest"
    using ok
    by (auto simp: encode_snapshot_response_def r_snapshot_response_def snapshot_fits_def codec_simps wire_iffs
        dest!: view_codec.limited_canonical fence_view_codec.limited_canonical grant_view_codec.limited_canonical)
qed

section \<open>Errors\<close>

record ErrorPayload =
  ep_code :: u16
  ep_message :: string

definition encode_error :: "u16 \<Rightarrow> string \<Rightarrow> Limits \<Rightarrow> writer" where
  "encode_error code message limits =
     w_seq [w_u16 code, w_string
       (if max_string_size limits < length message then take (max_string_size limits) message else message)]"

definition r_error :: "Limits \<Rightarrow> ErrorPayload reader" where
  "r_error limits =
     r_bind r_u16 (\<lambda>code.
     r_bind (r_string limits (max_string_size limits)) (\<lambda>message.
     r_return \<lparr> ep_code = code, ep_message = message \<rparr>))"

definition decode_error :: "byte list \<Rightarrow> Limits \<Rightarrow> ErrorPayload res" where
  "decode_error payload limits = r_whole (r_error limits) payload"

lemma decode_encode_error:
  assumes "max_string_size limits \<le> kAbsoluteMaxBytes"
  shows "\<not> isl (encode_error code message limits)"
    "decode_error (projr (encode_error code message limits)) limits =
      Inr \<lparr> ep_code = code, ep_message = take (max_string_size limits) message \<rparr>"
proof -
  let ?m = "take (max_string_size limits) message"
  have fits: "string_fits limits (max_string_size limits) ?m"
    using assms by (simp add: string_fits_def)
  have enc: "encode_error code message limits = w_seq [w_u16 code, w_string ?m]"
    by (simp add: encode_error_def)
  show "\<not> isl (encode_error code message limits)"
    using string_fits_u32 [OF fits] by (simp add: enc codec_simps)
  show "decode_error (projr (encode_error code message limits)) limits =
      Inr \<lparr> ep_code = code, ep_message = take (max_string_size limits) message \<rparr>"
    using string_fits_u32 [OF fits] fits
    by (simp add: enc decode_error_def r_error_def r_whole_iff codec_simps)
qed

end
