(* ===== verification/Wire.thy ===== *)
theory Wire
  imports Messages
begin

text \<open>
  Receiving over a connection: \<open>Socket::recv_exact\<close> of \<open>socket.cpp\<close> and the frame readers of the server
  and the client. What the peer and the network do is a list of receive events; the kernel hands out
  at most what was asked for and keeps the rest of a segment. The lemmas show that what is read does not
  depend on how the bytes were cut into segments.
\<close>

section \<open>Receive events\<close>

datatype recv_event = Bytes "byte list" | TimedOut | Disconnected | Failed

text \<open>
  \<open>::recv\<close>: the bytes of the next segment, as many as asked for. The end of the list, and an empty
  segment, is the orderly end of the stream, for which \<open>::recv\<close> returns 0.
\<close>

definition recv_chunk :: nat where
  "recv_chunk = 2 ^ 20"

lemma chunk_progress:
  assumes "\<not> need \<le> length got" "bs \<noteq> []"
  shows "need - (length got + min (length bs) (min (need - length got) recv_chunk)) < need - length got"
proof -
  have "0 < min (length bs) (min (need - length got) recv_chunk)"
    using assms by (simp add: recv_chunk_def)
  then show ?thesis using assms(1) by linarith
qed

text \<open>
  The loop of \<open>recv_exact\<close>, with what has been read so far; the result \<open>None\<close> is the clean close.
\<close>

function recv_loop :: "nat \<Rightarrow> byte list \<Rightarrow> recv_event list \<Rightarrow> byte list option res \<times> recv_event list" where
  "recv_loop need got evs =
     (if need \<le> length got then (Inr (Some got), evs)
      else case evs of
        [] \<Rightarrow> (if got = [] then (Inr None, [])
               else (Inl (io_failure ''peer closed the connection in the middle of a frame''), []))
      | TimedOut # rest \<Rightarrow> (if got = [] then (Inr None, rest)
               else (Inl (protocol_violation
                 ''peer stopped in the middle of a frame within the receive budget''), rest))
      | Disconnected # rest \<Rightarrow> (if got = [] then (Inr None, rest)
               else (Inl (io_failure ''connection was reset in the middle of a frame''), rest))
      | Failed # rest \<Rightarrow> (Inl (io_failure ''socket receive failed''), rest)
      | Bytes bs # rest \<Rightarrow>
          let chunk = min (need - length got) recv_chunk
          in if bs = [] then (if got = [] then (Inr None, rest)
               else (Inl (io_failure ''peer closed the connection in the middle of a frame''), rest))
             else recv_loop need (got @ take chunk bs)
               (if length bs \<le> chunk then rest else Bytes (drop chunk bs) # rest))"
  by pat_completeness auto
termination
  by (relation "measure (\<lambda>(need, got, evs). need - length got)") (auto simp: chunk_progress)

declare recv_loop.simps [simp del]

definition recv_exact :: "nat \<Rightarrow> recv_event list \<Rightarrow> byte list option res \<times> recv_event list" where
  "recv_exact need = recv_loop need []"

section \<open>Reading a frame\<close>

text \<open>
  \<open>read_frame\<close> of the server and \<open>receive\<close> of the client differ in two messages. \<open>None\<close> is a connection
  that was closed before a frame began.
\<close>

definition receive_frame ::
  "EpochError \<Rightarrow> EpochError \<Rightarrow> Limits \<Rightarrow> recv_event list \<Rightarrow> Frame option res \<times> recv_event list"
where
  "receive_frame too_long broken limits evs =
     (case recv_exact frame_header_size evs of
        (Inl e, evs1) \<Rightarrow> (Inl e, evs1)
      | (Inr None, evs1) \<Rightarrow> (Inr None, evs1)
      | (Inr (Some header), evs1) \<Rightarrow>
          (case peek_payload_length header of
             Inl e \<Rightarrow> (Inl e, evs1)
           | Inr n \<Rightarrow>
               if max_frame_payload limits < unat n then (Inl too_long, evs1)
               else (case (if unat n = 0 then (Inr (Some []), evs1) else recv_exact (unat n) evs1) of
                   (Inl e, evs2) \<Rightarrow> (Inl e, evs2)
                 | (Inr None, evs2) \<Rightarrow> (Inl broken, evs2)
                 | (Inr (Some payload), evs2) \<Rightarrow>
                     (res_bind (decode_frame header payload limits) (\<lambda>f. Inr (Some f)), evs2))))"

section \<open>Segmentation does not matter\<close>

text \<open>The bytes of the segments at the front of a connection, up to the first event of another kind.\<close>

fun stream :: "recv_event list \<Rightarrow> byte list" where
  "stream (Bytes bs # rest) = (if bs = [] then [] else bs @ stream rest)"
| "stream _ = []"

lemma stream_split:
  "bs \<noteq> [] \<Longrightarrow>
     stream (Bytes bs # rest) = take n bs @ stream (if length bs \<le> n then rest else Bytes (drop n bs) # rest)"
  by (simp flip: append_assoc)

lemma recv_loop_stream:
  assumes "need \<le> length got + length (stream evs)" "length got \<le> need"
  shows "\<exists>rest. recv_loop need got evs = (Inr (Some (got @ take (need - length got) (stream evs))), rest) \<and>
    stream rest = drop (need - length got) (stream evs)"
  using assms
proof (induction need got evs rule: recv_loop.induct)
  case (1 need got evs)
  show ?case
  proof (cases "need \<le> length got")
    case True
    with 1 show ?thesis by (simp add: recv_loop.simps [of need got evs])
  next
    case False
    with 1(2) obtain bs rest where evs: "evs = Bytes bs # rest" "bs \<noteq> []"
      by (cases evs rule: stream.cases) (auto split: if_splits)
    let ?chunk = "min (need - length got) recv_chunk"
    let ?evs = "if length bs \<le> ?chunk then rest else Bytes (drop ?chunk bs) # rest"
    have pos: "0 < ?chunk" using False by (simp add: recv_chunk_def)
    have s: "stream evs = take ?chunk bs @ stream ?evs"
      unfolding evs(1) by (rule stream_split [OF evs(2)])
    have len: "length (take ?chunk bs) \<le> need - length got" by simp
    have "\<exists>r. recv_loop need (got @ take ?chunk bs) ?evs =
        (Inr (Some ((got @ take ?chunk bs) @ take (need - length (got @ take ?chunk bs)) (stream ?evs))), r) \<and>
        stream r = drop (need - length (got @ take ?chunk bs)) (stream ?evs)"
    proof (rule 1(1) [OF False evs(1) refl refl evs(2)])
      show "need \<le> length (got @ take ?chunk bs) + length (stream ?evs)"
        using 1(2) s by simp
      show "length (got @ take ?chunk bs) \<le> need" using len False by simp
    qed
    then obtain r where r: "recv_loop need (got @ take ?chunk bs) ?evs =
        (Inr (Some ((got @ take ?chunk bs) @ take (need - length (got @ take ?chunk bs)) (stream ?evs))), r)"
        "stream r = drop (need - length (got @ take ?chunk bs)) (stream ?evs)"
      by blast
    have "recv_loop need got evs = recv_loop need (got @ take ?chunk bs) ?evs"
      unfolding evs(1) by (subst recv_loop.simps) (simp only: False evs(2) if_False recv_event.case list.case Let_def)
    with r s len show ?thesis by (simp add: min_def)
  qed
qed

lemma recv_exact_stream:
  assumes "need \<le> length (stream evs)"
  shows "\<exists>rest. recv_exact need evs = (Inr (Some (take need (stream evs))), rest) \<and>
    stream rest = drop need (stream evs)"
  using recv_loop_stream [of need "[]" evs] assms by (simp add: recv_exact_def)

lemma receive_frame_stream:
  assumes "decode_frame hdr payload limits = Inr f" "stream evs = hdr @ payload @ later"
  shows "\<exists>rest. receive_frame e1 e2 limits evs = (Inr (Some f), rest) \<and> stream rest = later"
proof -
  have n: "length hdr = frame_header_size"
    using assms(1) by (auto simp: decode_frame_def decode_frame_header_def res_bind_eq_Inr split: if_splits)
  have peek: "peek_payload_length hdr = Inr (word_of_nat (length payload))" "length payload < 4294967296"
    using peek_decoded_length [OF assms(1)] by simp_all
  then have need: "unat (word_of_nat (length payload) :: u32) = length payload"
    by (simp add: unat_word_of_nat_u32)
  have limit: "length payload \<le> max_frame_payload limits"
    using assms(1) by (auto simp: decode_frame_iff Let_def)
  obtain r1 where r1: "recv_exact frame_header_size evs = (Inr (Some hdr), r1)" "stream r1 = payload @ later"
    using recv_exact_stream [of frame_header_size evs] n assms(2) by auto
  have "\<exists>r2. (if length payload = 0 then (Inr (Some []), r1) else recv_exact (length payload) r1) =
      (Inr (Some payload), r2) \<and> stream r2 = later"
    using recv_exact_stream [of "length payload" r1] r1(2) by auto
  then obtain r2 where r2:
    "(if length payload = 0 then (Inr (Some []), r1) else recv_exact (length payload) r1) = (Inr (Some payload), r2)"
    "stream r2 = later" by blast
  show ?thesis
  proof (cases "payload = []")
    case True
    then show ?thesis
      using r1 peek(1) need limit assms(1) by (simp add: receive_frame_def)
  next
    case False
    then show ?thesis
      using r1(1) r2 peek(1) need limit assms(1) by (simp add: receive_frame_def)
  qed
qed

section \<open>Every frame uses up input\<close>

fun weight :: "recv_event list \<Rightarrow> nat" where
  "weight [] = 0"
| "weight (Bytes bs # evs) = Suc (length bs) + weight evs"
| "weight (_ # evs) = Suc (weight evs)"

lemma recv_loop_weight:
  "weight (snd (recv_loop need got evs)) \<le> weight evs \<and>
   (length got < need \<and> fst (recv_loop need got evs) = Inr (Some bs) \<longrightarrow>
      weight (snd (recv_loop need got evs)) < weight evs)"
proof (induction need got evs rule: recv_loop.induct)
  case (1 need got evs)
  show ?case
  proof (cases "need \<le> length got")
    case True
    then show ?thesis by (simp add: recv_loop.simps [of need got evs])
  next
    case False
    show ?thesis
    proof (cases evs rule: weight.cases)
      case (2 xs rest)
      let ?chunk = "min (need - length got) recv_chunk"
      let ?evs = "if length xs \<le> ?chunk then rest else Bytes (drop ?chunk xs) # rest"
      show ?thesis
      proof (cases "xs = []")
        case True
        with False 2 show ?thesis by (subst (1 2 3) recv_loop.simps) simp
      next
        case nonempty: False
        have "0 < ?chunk" using False by (simp add: recv_chunk_def)
        then have "weight ?evs < weight evs" using 2 nonempty by (cases "length xs \<le> ?chunk") auto
        moreover have "recv_loop need got evs = recv_loop need (got @ take ?chunk xs) ?evs"
          unfolding 2 by (subst recv_loop.simps)
            (simp only: False nonempty if_False recv_event.case list.case Let_def)
        ultimately show ?thesis
          using 1 [OF False 2 refl refl nonempty] by simp
      qed
    qed (use False in \<open>simp_all add: recv_loop.simps [of need got "[]"]
        recv_loop.simps [of need got "x # rest" for x rest]\<close>)
  qed
qed

lemma receive_frame_weight:
  assumes "receive_frame e1 e2 limits evs = (Inr (Some f), rest)"
  shows "weight rest < weight evs"
proof -
  obtain hdr evs1 where h: "recv_exact frame_header_size evs = (Inr (Some hdr), evs1)"
    using assms by (auto simp: receive_frame_def split: prod.splits sum.splits option.splits)
  have "weight evs1 < weight evs"
    using recv_loop_weight [of frame_header_size "[]" evs hdr] h
    by (simp add: recv_exact_def frame_header_size_def)
  moreover have "weight rest \<le> weight evs1"
    using assms h recv_loop_weight [of _ "[]" evs1]
    by (auto simp: receive_frame_def recv_exact_def split: prod.splits sum.splits option.splits if_splits)
      (metis snd_conv)+
  ultimately show ?thesis by simp
qed

section \<open>Actions\<close>

text \<open>The server and the client are programs over a state that may throw; an exception keeps the state.\<close>

type_synonym ('s, 'a) action = "'s \<Rightarrow> 'a res \<times> 's"

definition a_return :: "'a \<Rightarrow> ('s, 'a) action" where
  "a_return x = (\<lambda>c. (Inr x, c))"

definition a_bind :: "('s, 'a) action \<Rightarrow> ('a \<Rightarrow> ('s, 'b) action) \<Rightarrow> ('s, 'b) action" where
  "a_bind m f = (\<lambda>c. case m c of (Inl e, c') \<Rightarrow> (Inl e, c') | (Inr x, c') \<Rightarrow> f x c')"

definition a_lift :: "'a res \<Rightarrow> ('s, 'a) action" where
  "a_lift r = (\<lambda>c. (r, c))"

definition a_modify :: "('s \<Rightarrow> 's) \<Rightarrow> ('s, unit) action" where
  "a_modify f = (\<lambda>c. (Inr (), f c))"

definition a_get :: "('s, 's) action" where
  "a_get = (\<lambda>c. (Inr c, c))"

lemma a_basic [simp]:
  "a_return x c = (Inr x, c)" "a_modify f c = (Inr (), f c)" "a_get c = (Inr c, c)" "a_lift r c = (r, c)"
  by (simp_all add: a_return_def a_modify_def a_get_def a_lift_def)

lemma a_bind_Inr: "m c = (Inr x, c') \<Longrightarrow> a_bind m f c = f x c'"
  by (simp add: a_bind_def)

lemma a_bind_basic [simp]:
  "a_bind (a_return x) f = f x" "a_bind (a_modify g) f' c = f' () (g c)" "a_bind a_get f'' c = f'' c c"
  "a_bind (a_lift (Inr y)) h = h y" "a_bind (a_lift (Inl e)) h c = (Inl e, c)"
  by (simp_all add: a_bind_def a_return_def a_modify_def a_get_def a_lift_def)

end
