(* ===== verification/Client.thy ===== *)
theory Client
  imports Wire
begin

text \<open>
  The client (\<open>client.cpp\<close>): one connection, a greeting, and one operation per request. An operation holds
  the mutex of the client throughout, so operations are atomic. What the network does during a call is the
  record \<open>call\<close>: the request identifier that was generated, whether sending fails, and the receive events
  that arrive after the bytes that were sent.
\<close>

section \<open>The connection\<close>

record client =
  cl_limits :: Limits
  cl_valid :: bool
  cl_session :: SessionId
  cl_epoch :: CoordinatorEpoch
  cl_sequence :: u64
  cl_hello :: bool
  cl_cancelled :: bool
  cl_input :: "recv_event list"

record call =
  ca_request_id :: "MutationAttemptId res"
  ca_send :: "EpochError option"
  ca_reply :: "byte list \<Rightarrow> recv_event list"

type_synonym 'a cact = "(client, 'a) action"

definition client_connect :: "unit res \<Rightarrow> recv_event list \<Rightarrow> unit cact" where
  "client_connect connected evs =
     (\<lambda>k. case connected of
        Inl e \<Rightarrow> (Inl e, k)
      | Inr _ \<Rightarrow> (Inr (), k\<lparr> cl_valid := True, cl_input := evs, cl_hello := False, cl_sequence := 1,
          cl_cancelled := False \<rparr>))"

definition client_close :: "client \<Rightarrow> client" where
  "client_close k = k\<lparr> cl_cancelled := True, cl_valid := False, cl_hello := False \<rparr>"

definition ensure_connected :: "unit cact" where
  "ensure_connected =
     a_bind a_get (\<lambda>k. a_lift (throw_if (\<not> cl_valid k) (io_failure ''client is not connected to a coordinator'')))"

definition ensure_hello :: "unit cact" where
  "ensure_hello =
     a_bind a_get (\<lambda>k. a_lift (throw_if (\<not> cl_hello k)
       (protocol_violation ''HELLO must complete before any other request'')))"

definition client_send :: "call \<Rightarrow> MessageType \<Rightarrow> MutationAttemptId \<Rightarrow> byte list \<Rightarrow> unit cact" where
  "client_send ca type request_id payload =
     a_bind ensure_connected (\<lambda>_ k0.
     let k = k0\<lparr> cl_sequence := cl_sequence k0 + 1 \<rparr>
     in case encode_frame type (cl_sequence k0) (cl_epoch k0) request_id payload (cl_limits k0) of
          Inl e \<Rightarrow> (Inl e, k)
        | Inr bytes \<Rightarrow>
            (case ca_send ca of
               Some e \<Rightarrow> (Inl e, k)
             | None \<Rightarrow> (Inr (), k\<lparr> cl_input := cl_input k @ ca_reply ca bytes \<rparr>)))"

definition client_receive :: "Frame option cact" where
  "client_receive =
     (\<lambda>k. case receive_frame
         (resource_limit ''declared response payload exceeds limits.max_frame_payload'')
         (io_failure ''coordinator closed the connection in the middle of a frame payload'')
         (cl_limits k) (cl_input k) of
        (r, rest) \<Rightarrow> (r, k\<lparr> cl_input := rest \<rparr>))"

definition exchange ::
  "call \<Rightarrow> MessageType \<Rightarrow> MessageType \<Rightarrow> MutationAttemptId \<Rightarrow> byte list \<Rightarrow> Frame cact"
where
  "exchange ca request_type expected_type request_id payload =
     a_bind (client_send ca request_type request_id payload) (\<lambda>_.
     a_bind client_receive (\<lambda>received.
     a_bind a_get (\<lambda>k.
     case received of
       None \<Rightarrow> a_lift (Inl (io_failure ''coordinator closed the connection before responding''))
     | Some frame \<Rightarrow>
         if fh_type (fm_header frame) = MessageType.Error
         then a_bind (a_lift (decode_error (fm_payload frame) (cl_limits k))) (\<lambda>error.
           a_lift (Inl (EpochError ProtocolViolation (''coordinator rejected the request: '' @ ep_message error))))
         else if fh_type (fm_header frame) \<noteq> expected_type
         then a_lift (Inl (protocol_violation (''unexpected response type '' @
           message_type_to_string (fh_type (fm_header frame)))))
         else a_return frame)))"

section \<open>Operations\<close>

definition client_hello :: "call \<Rightarrow> string \<Rightarrow> HelloAckPayload cact" where
  "client_hello ca role =
     a_bind ensure_connected (\<lambda>_.
     a_bind (a_lift (encode_hello version_string role)) (\<lambda>payload.
     a_bind (a_lift (ca_request_id ca)) (\<lambda>request_id.
     a_bind (client_send ca MessageType.Hello request_id payload) (\<lambda>_.
     a_bind client_receive (\<lambda>received.
     a_bind a_get (\<lambda>k.
     case received of
       None \<Rightarrow> a_lift (Inl (io_failure ''coordinator closed the connection during HELLO''))
     | Some frame \<Rightarrow>
         if fh_type (fm_header frame) = MessageType.Error
         then a_bind (a_lift (decode_error (fm_payload frame) (cl_limits k))) (\<lambda>error.
           a_lift (Inl (EpochError ProtocolViolation (''HELLO rejected: '' @ ep_message error))))
         else if fh_type (fm_header frame) \<noteq> MessageType.HelloAck
         then a_lift (Inl (protocol_violation ''coordinator did not answer HELLO with HELLO_ACK''))
         else a_bind (a_lift (decode_hello_ack (fm_payload frame) (cl_limits k))) (\<lambda>ack.
           a_bind (a_modify (\<lambda>k. k\<lparr> cl_session := ha_session ack, cl_epoch := ha_epoch ack,
             cl_hello := True \<rparr>)) (\<lambda>_.
           a_return ack))))))))"

text \<open>An operation that encodes a request, exchanges it and decodes the answer.\<close>

definition client_operation ::
  "call \<Rightarrow> MessageType \<Rightarrow> MessageType \<Rightarrow> MutationAttemptId res \<Rightarrow> writer \<Rightarrow>
   (byte list \<Rightarrow> Limits \<Rightarrow> 'a res) \<Rightarrow> 'a cact"
where
  "client_operation ca request_type expected_type request_id payload decode =
     a_bind (a_lift payload) (\<lambda>bytes.
     a_bind (a_lift request_id) (\<lambda>rid.
     a_bind (exchange ca request_type expected_type rid bytes) (\<lambda>frame.
     a_bind a_get (\<lambda>k. a_lift (decode (fm_payload frame) (cl_limits k))))))"

definition client_register :: "call \<Rightarrow> RegisterParticipantRequest \<Rightarrow> SessionId \<Rightarrow> RegistrationResult cact" where
  "client_register ca request session =
     a_bind ensure_hello (\<lambda>_. a_bind a_get (\<lambda>k.
     client_operation ca MessageType.RegisterParticipant MessageType.RegisterAck (Inr (rp_attempt request))
       (encode_register_request request session (cl_limits k)) decode_register_result))"

definition client_validate :: "call \<Rightarrow> ValidateAuthorityRequest \<Rightarrow> AuthorityValidation cact" where
  "client_validate ca request =
     a_bind ensure_hello (\<lambda>_.
     client_operation ca MessageType.ValidateAuthority MessageType.ValidateResult (ca_request_id ca)
       (encode_validate_request request) decode_validation)"

definition client_fence :: "call \<Rightarrow> FenceWorkerRequest \<Rightarrow> FenceResult cact" where
  "client_fence ca request =
     a_bind ensure_hello (\<lambda>_. a_bind a_get (\<lambda>k.
     client_operation ca MessageType.FenceWorker MessageType.FenceAck (Inr (fw_attempt request))
       (encode_fence_request request (cl_limits k)) decode_fence_result))"

definition client_revoke :: "call \<Rightarrow> RevokeAuthorityRequest \<Rightarrow> RevokeResult cact" where
  "client_revoke ca request =
     a_bind ensure_hello (\<lambda>_. a_bind a_get (\<lambda>k.
     client_operation ca MessageType.RevokeAuthority MessageType.RevokeAck (Inr (vq_attempt request))
       (encode_revoke_request request (cl_limits k)) decode_revoke_result))"

definition client_retire :: "call \<Rightarrow> RetireParticipantRequest \<Rightarrow> RetireResult cact" where
  "client_retire ca request =
     a_bind ensure_hello (\<lambda>_. a_bind a_get (\<lambda>k.
     client_operation ca MessageType.RetireParticipant MessageType.RetireAck (Inr (tq_attempt request))
       (encode_retire_request request (cl_limits k)) decode_retire_result))"

definition client_advance :: "call \<Rightarrow> EpochAdvanceRequest \<Rightarrow> EpochAdvanceResult cact" where
  "client_advance ca request =
     a_bind ensure_hello (\<lambda>_. a_bind a_get (\<lambda>k.
     a_bind (client_operation ca MessageType.AdvanceEpoch MessageType.AdvanceEpochAck (Inr (eq_attempt request))
       (encode_advance_request request (cl_limits k)) decode_advance_result) (\<lambda>result.
     a_bind (a_modify (\<lambda>k. k\<lparr> cl_epoch := eo_epoch result \<rparr>)) (\<lambda>_.
     a_return result))))"

definition client_epoch_state :: "call \<Rightarrow> EpochState cact" where
  "client_epoch_state ca =
     a_bind ensure_hello (\<lambda>_.
     a_bind (client_operation ca MessageType.EpochStateRequest MessageType.EpochStateResponse (ca_request_id ca)
       encode_snapshot_request (\<lambda>payload _. decode_epoch_state payload)) (\<lambda>state.
     a_bind (a_modify (\<lambda>k. k\<lparr> cl_epoch := es_epoch state \<rparr>)) (\<lambda>_.
     a_return state)))"

text \<open>A query takes every error frame for an unknown participant.\<close>

definition client_query :: "call \<Rightarrow> ParticipantId \<Rightarrow> ParticipantView option cact" where
  "client_query ca participant =
     a_bind ensure_hello (\<lambda>_.
     a_bind (a_lift (encode_query_participant participant)) (\<lambda>payload.
     a_bind (a_lift (ca_request_id ca)) (\<lambda>request_id.
     a_bind (client_send ca MessageType.QueryParticipant request_id payload) (\<lambda>_.
     a_bind client_receive (\<lambda>received.
     a_bind a_get (\<lambda>k.
     case received of
       None \<Rightarrow> a_lift (Inl (io_failure ''coordinator closed the connection before responding''))
     | Some frame \<Rightarrow>
         if fh_type (fm_header frame) = MessageType.Error then a_return None
         else if fh_type (fm_header frame) \<noteq> MessageType.ParticipantState
         then a_lift (Inl (protocol_violation ''unexpected response type for a participant query''))
         else a_bind (a_lift (decode_view_payload (fm_payload frame) (cl_limits k))) (\<lambda>v.
           a_return (Some v))))))))"

definition client_snapshot :: "call \<Rightarrow> AuthoritySnapshot cact" where
  "client_snapshot ca =
     a_bind ensure_hello (\<lambda>_.
     client_operation ca MessageType.SnapshotRequest MessageType.SnapshotResponse (ca_request_id ca)
       encode_snapshot_request decode_snapshot_response)"

definition client_explain :: "call \<Rightarrow> ParticipantId \<Rightarrow> WorkerBootId \<Rightarrow> Explanation cact" where
  "client_explain ca participant boot =
     a_bind ensure_hello (\<lambda>_.
     client_operation ca MessageType.ExplainRequest MessageType.ExplainResponse (ca_request_id ca)
       (encode_explain_request participant boot) decode_explanation)"

definition client_shutdown :: "call \<Rightarrow> unit cact" where
  "client_shutdown ca =
     a_bind ensure_hello (\<lambda>_.
     a_bind (a_lift encode_snapshot_request) (\<lambda>payload.
     a_bind (a_lift (ca_request_id ca)) (\<lambda>request_id.
     a_bind (client_send ca MessageType.Shutdown request_id payload) (\<lambda>_.
     a_modify (\<lambda>k. k\<lparr> cl_cancelled := True, cl_valid := False \<rparr>)))))"

text \<open>\<open>wait_for_disconnect\<close>: frames are read and dropped until the connection ends.\<close>

function wait_loop :: "client \<Rightarrow> unit res \<times> client" where
  "wait_loop k =
     (if \<not> cl_valid k \<or> cl_cancelled k then (Inr (), k)
      else case client_receive k of
        (Inl e, k') \<Rightarrow> (Inl e, k')
      | (Inr None, k') \<Rightarrow> (Inr (), k')
      | (Inr (Some _), k') \<Rightarrow> wait_loop k')"
  by pat_completeness auto
termination
  by (relation "measure (\<lambda>k. weight (cl_input k))")
    (auto simp: client_receive_def intro: receive_frame_weight split: prod.splits)

definition wait_for_disconnect :: "unit cact" where
  "wait_for_disconnect =
     a_bind wait_loop (\<lambda>_. a_modify (\<lambda>k. k\<lparr> cl_cancelled := True, cl_valid := False \<rparr>))"

end
