(* ===== verification/Sessions.thy ===== *)
theory Sessions
  imports Fencing
begin

text \<open>
  Sessions of the runtime (\<open>bind_session\<close>, \<open>erase_session\<close>, \<open>close_session\<close>, \<open>active_sessions\<close> of
  \<open>runtime.cpp\<close>): a session binds a connection to one current incarnation, at most one per worker
  boot, and its loss fences the incarnation when the runtime is configured so.
\<close>

section \<open>Binding\<close>

definition session_allowed :: "impl \<Rightarrow> SessionBinding \<Rightarrow> bool" where
  "session_allowed s b \<longleftrightarrow>
     sb_epoch b = st_current_epoch (im_state s) \<and>
     (case find_participant s (sb_participant b) of
        None \<Rightarrow> False
      | Some i \<Rightarrow>
          \<not> dp_retired (participant_at s i) \<and>
          find_incarnation (participant_at s i) (sb_boot b) = Some (sb_incarnation b)) \<and>
     im_boot_session_index s (id_to_string (sb_boot b)) = None"

definition bind_session :: "SessionBinding \<Rightarrow> impl \<Rightarrow> bool res \<times> impl" where
  "bind_session b s =
     (if \<not> session_allowed s b then (Inr False, s)
      else if max_sessions (im_limits s) \<le> length (im_session_index s)
      then (Inl (resource_limit ''session count exceeds limits.max_sessions''), s)
      else (Inr True, s\<lparr>
        im_session_index := AList.update (id_to_string (sb_id b)) b (im_session_index s),
        im_boot_session_index :=
          (im_boot_session_index s)(id_to_string (sb_boot b) \<mapsto> id_to_string (sb_id b)) \<rparr>))"

section \<open>Closing\<close>

definition erase_session :: "SessionId \<Rightarrow> impl \<Rightarrow> impl" where
  "erase_session sid s =
     (case map_of (im_session_index s) (id_to_string sid) of
        None \<Rightarrow> s
      | Some b \<Rightarrow> s\<lparr>
          im_boot_session_index := (im_boot_session_index s)(id_to_string (sb_boot b) := None),
          im_session_index := AList.delete (id_to_string sid) (im_session_index s) \<rparr>)"

definition session_closed :: "DurableState \<Rightarrow> SessionId \<Rightarrow> (string \<times> string) list \<Rightarrow> FenceResult" where
  "session_closed st sid details =
     fence_result st FenceOutcome.NoFenceRequired
       (explain ExplanationCode.SessionClosed ((''session'', id_to_string sid) # details))"

definition close_session ::
  "io \<Rightarrow> SessionId \<Rightarrow> SessionClosureReason \<Rightarrow> impl \<Rightarrow> FenceResult res \<times> impl"
where
  "close_session io sid reason s =
     (let st = im_state s
      in case map_of (im_session_index s) (id_to_string sid) of
           None \<Rightarrow> (Inr (session_closed st sid [(''reason'', ''session is not bound'')]), s)
         | Some b \<Rightarrow>
             let s1 = erase_session sid s
             in if \<not> op_fence_on_session_loss (im_options s)
                then (Inr (session_closed st sid
                  [(''reason'', ''runtime is configured as a durable-incarnation model''),
                   (''closure'', closure_reason_to_string reason)]), s1)
                else case find_participant s1 (sb_participant b) of
                  None \<Rightarrow> (Inr (session_closed st sid
                    [(''reason'', ''participant no longer exists'')]), s1)
                | Some i \<Rightarrow>
                    if find_incarnation (participant_at s1 i) (sb_boot b) = None
                    then (Inr (session_closed st sid
                      [(''reason'', ''the incarnation is already superseded or fenced'')]), s1)
                    else run_tx io (record_fence (sb_participant b) (sb_boot b)
                      (fence_reason_for reason) empty_text False) s1)"

section \<open>Reading and flushing\<close>

definition active_sessions :: "impl \<Rightarrow> SessionBinding list" where
  "active_sessions s = sort_key sb_id (map snd (im_session_index s))"

definition session_count :: "impl \<Rightarrow> nat" where
  "session_count s = length (im_session_index s)"

definition flush :: "io \<Rightarrow> impl \<Rightarrow> unit res \<times> impl" where
  "flush = save_impl"

definition check_indexes :: "impl \<Rightarrow> bool" where
  "check_indexes = indexes_match"

end
