(* ===== verification/Registration.thy ===== *)
theory Registration
  imports Fencing
begin

text \<open>
  Registration of worker incarnations (\<open>apply_registration\<close>, \<open>register_participant\<close> and
  \<open>register_participants\<close> of \<open>runtime.cpp\<close>), in the phases of the code: the request is screened,
  then the participant record decides about fencing, replay and incumbents, then a new incarnation
  is issued.
\<close>

section \<open>Results\<close>

definition registration_result :: "DurableState \<Rightarrow> RegistrationOutcome \<Rightarrow> Explanation \<Rightarrow> RegistrationResult"
where
  "registration_result st outcome e =
     \<lparr> rr_outcome = outcome, rr_epoch = st_current_epoch st,
       rr_coordinator_boot = st_coordinator_boot st, rr_generation = None, rr_incarnation = None,
       rr_replayed = False, rr_explanation = e \<rparr>"

definition registration_malformed :: "DurableState \<Rightarrow> string \<Rightarrow> RegistrationResult" where
  "registration_malformed st reason =
     registration_result st RegistrationOutcome.MalformedRequest
       (explain ExplanationCode.MalformedRequest [(''reason'', reason)])"

section \<open>Screening\<close>

definition registration_shape ::
  "EpochRuntimeOptions \<Rightarrow> DurableState \<Rightarrow> RegisterParticipantRequest \<Rightarrow> RegistrationResult option"
where
  "registration_shape opts st request =
     (if id_is_nil (rp_attempt request)
      then Some (registration_malformed st ''attempt identifier is nil'')
      else if pid_empty (rp_participant request)
      then Some (registration_malformed st ''participant identifier is empty'')
      else if id_is_nil (rp_boot request)
      then Some (registration_malformed st ''worker boot identifier is nil'')
      else if \<not> text_is_valid (text_value (rp_provenance request)) (max_string_size (op_limits opts))
      then Some (registration_malformed st ''provenance text exceeds the configured bound'')
      else if scope_set_empty (rp_scopes request)
      then Some (registration_malformed st ''registration binds no authority scope'')
      else if max_scopes_per_grant (op_limits opts) < scope_set_size (rp_scopes request)
      then Some (registration_result st RegistrationOutcome.ResourceLimit
        (explain ResourceLimitReached
          [(''limit'', ''max_scopes_per_grant''),
           (''requested'', dec_string (scope_set_size (rp_scopes request)))]))
      else if rp_policy request = IncarnationPolicy.MultiIncarnation \<and>
        \<not> op_allow_multi_incarnation opts
      then Some (registration_result st RegistrationOutcome.UnauthorizedScope
        (explain ScopeMissing
          [(''reason'', ''multi-incarnation participation is not enabled''),
           (''policy'', incarnation_policy_to_string (rp_policy request))]))
      else None)"

definition registration_scopes ::
  "EpochRuntimeOptions \<Rightarrow> DurableState \<Rightarrow> RegisterParticipantRequest \<Rightarrow> RegistrationResult option"
where
  "registration_scopes opts st request =
     map_option (\<lambda>scope. registration_result st RegistrationOutcome.UnauthorizedScope
         (explain ScopeMissing
           [(''scope'', scope_to_string scope),
            (''reason'', ''scope kind is not registrable by participants'')]))
       (find (\<lambda>scope. \<not> op_registrable_scope_kinds opts (scope_kind scope))
         (scopes (rp_scopes request)))"

definition registration_epoch ::
  "DurableState \<Rightarrow> RegisterParticipantRequest \<Rightarrow> RegistrationResult option"
where
  "registration_epoch st request =
     (if rp_expected_epoch request \<noteq> st_current_epoch st
      then Some (registration_result st RegistrationOutcome.StaleEpoch
        (explain EpochStale
          [(''request_epoch'', counter_to_string (rp_expected_epoch request)),
           (''current_epoch'', counter_to_string (st_current_epoch st))]))
      else None)"

definition registration_known ::
  "impl \<Rightarrow> RegisterParticipantRequest \<Rightarrow> nat \<Rightarrow> RegistrationResult option"
where
  "registration_known s request i =
     (let st = im_state s; fence = lookup_fence s (rp_participant request) (rp_boot request)
      in if dp_retired (participant_at s i)
         then Some (registration_result st RegistrationOutcome.RetiredParticipant
           (explain ParticipantRetired
             [(''participant'', pid_value (rp_participant request))]))
         else if fl_fenced fence
         then Some (registration_result st RegistrationOutcome.StaleWorkerBoot
           (explain WorkerBootFenced
             [(''boot'', id_to_string (rp_boot request)),
              (''fence_reason'',
                (case fl_record fence of Some f \<Rightarrow> fence_reason_to_string (fr_reason f)
                 | None \<Rightarrow> ''RETAINED''))]))
         else None)"

fun first_some :: "'a option list \<Rightarrow> 'a option" where
  "first_some [] = None"
| "first_some (x # xs) = (case x of Some y \<Rightarrow> Some y | None \<Rightarrow> first_some xs)"

definition registration_screen :: "impl \<Rightarrow> RegisterParticipantRequest \<Rightarrow> RegistrationResult option" where
  "registration_screen s request =
     first_some
       [registration_shape (im_options s) (im_state s) request,
        registration_scopes (im_options s) (im_state s) request,
        registration_epoch (im_state s) request,
        (case find_participant s (rp_participant request) of
           None \<Rightarrow> None
         | Some i \<Rightarrow> registration_known s request i)]"

section \<open>Decisions on a known participant\<close>

definition registration_replay ::
  "DurableState \<Rightarrow> RegisterParticipantRequest \<Rightarrow> SnapshotDigest \<Rightarrow> IdempotencyRecord \<Rightarrow> RegistrationResult"
where
  "registration_replay st request digest previous =
     (if ir_semantic previous \<noteq> digest
      then registration_result st RegistrationOutcome.ConflictingAttempt
        (explain AttemptConflict
          [(''attempt'', id_to_string (rp_attempt request)),
           (''reason'', ''attempt identifier reused with a different payload'')])
      else
        let outcome = registration_outcome_of_code (ucast (ir_outcome previous))
        in (registration_result st outcome
             (explain RegistrationIdempotentReplay
               [(''attempt'', id_to_string (rp_attempt request)),
                (''outcome'', registration_outcome_to_string outcome),
                (''registration_generation'',
                  (if ir_auxiliary previous \<noteq> 0 then dec_string (unat (ir_auxiliary previous))
                   else ''NONE''))]))
           \<lparr> rr_generation := Some (MonotonicCounter (ir_auxiliary previous)),
             rr_incarnation :=
               (if ir_auxiliary_high previous \<noteq> 0
                then Some (MonotonicCounter (ir_auxiliary_high previous)) else None),
             rr_replayed := True \<rparr>)"

definition registration_conflict ::
  "DurableState \<Rightarrow> DurableParticipant \<Rightarrow> RegisterParticipantRequest \<Rightarrow> RegistrationResult option"
where
  "registration_conflict st p request =
     (case rp_expected_generation request of
        Some g \<Rightarrow>
          (if g \<noteq> dp_registration_generation p
           then Some (registration_result st RegistrationOutcome.RevalidationRequired
             (explain GenerationMismatch
               [(''expected'', counter_to_string g),
                (''current'', counter_to_string (dp_registration_generation p))]))
           else None)
      | None \<Rightarrow> None)"

definition registration_policy ::
  "DurableState \<Rightarrow> DurableParticipant \<Rightarrow> RegisterParticipantRequest \<Rightarrow> RegistrationResult option"
where
  "registration_policy st p request =
     (if dp_policy p \<noteq> rp_policy request
      then Some (registration_result st RegistrationOutcome.ConflictingIncarnation
        (explain IncarnationConflict
          [(''reason'', ''participant is registered with a different incarnation policy''),
           (''current_policy'', incarnation_policy_to_string (dp_policy p)),
           (''requested_policy'', incarnation_policy_to_string (rp_policy request))]))
      else None)"

definition registration_active ::
  "DurableState \<Rightarrow> DurableParticipant \<Rightarrow> RegisterParticipantRequest \<Rightarrow> RegistrationResult option"
where
  "registration_active st p request =
     map_option (\<lambda>seq.
        (registration_result st RegistrationOutcome.AlreadyActive
          (explain IncarnationConflict
            [(''reason'', ''this worker boot already holds a current incarnation''),
             (''boot'', id_to_string (rp_boot request))]))
        \<lparr> rr_generation := Some (dp_registration_generation p), rr_incarnation := Some seq \<rparr>)
       (find_incarnation p (rp_boot request))"

definition has_incumbent :: "DurableParticipant \<Rightarrow> bool" where
  "has_incumbent p \<longleftrightarrow>
     has_current_incarnation p \<and> dp_policy p = IncarnationPolicy.SingleIncarnation"

definition registration_incumbent ::
  "EpochRuntimeOptions \<Rightarrow> DurableState \<Rightarrow> DurableParticipant \<Rightarrow> RegistrationResult option"
where
  "registration_incumbent opts st p =
     (if has_incumbent p \<and> op_replacement_policy opts = RequireExplicitFence
      then Some (registration_result st RegistrationOutcome.ConflictingIncarnation
        (explain IncarnationConflict
          [(''reason'', ''a live incarnation already holds authority''),
           (''incumbent'', id_to_string (incumbent_boot p)),
           (''policy'', replacement_policy_to_string (op_replacement_policy opts))]))
      else None)"

text \<open>The decisions on a known participant before anything is changed.\<close>

definition registration_decision ::
  "impl \<Rightarrow> RegisterParticipantRequest \<Rightarrow> SnapshotDigest \<Rightarrow> nat \<Rightarrow> RegistrationResult option"
where
  "registration_decision s request digest i =
     (let st = im_state s; p = participant_at s i
      in first_some
        [map_option (registration_replay st request digest)
           (find_attempt (dp_idempotency p) (rp_attempt request)),
         registration_conflict st p request,
         registration_policy st p request,
         registration_active st p request,
         registration_incumbent (im_options s) st p])"

section \<open>Replacing an incumbent\<close>

definition replace_incumbent ::
  "RegisterParticipantRequest \<Rightarrow> nat \<Rightarrow> RegistrationResult option tx"
where
  "replace_incumbent request i =
     tx_bind tx_get (\<lambda>s.
     if \<not> has_incumbent (participant_at s i) then tx_return None
     else tx_bind (record_fence (rp_participant request) (incumbent_boot (participant_at s i))
            FenceReason.Reincarnation empty_text False) (\<lambda>fence.
          if fo_outcome fence \<noteq> FenceOutcome.Fenced \<and> fo_outcome fence \<noteq> FenceOutcome.AlreadyFenced
          then tx_return (Some (registration_result (im_state s)
            RegistrationOutcome.ConflictingIncarnation
            (explain IncarnationConflict
              [(''reason'', ''incumbent could not be fenced atomically''),
               (''fence_outcome'', fence_outcome_to_string (fo_outcome fence))])))
          else tx_bind tx_get (\<lambda>s'.
            if find_participant s' (rp_participant request) = None
            then tx_throw (invariant_error
              ''participant disappeared while replacing an incumbent incarnation'')
            else tx_return None)))"

section \<open>Issuing an incarnation\<close>

definition fresh_participant :: "RegisterParticipantRequest \<Rightarrow> DurableParticipant" where
  "fresh_participant request =
     \<lparr> dp_id = rp_participant request, dp_registration_generation = MonotonicCounter 0,
       dp_fence_generation = MonotonicCounter 0, dp_incarnation_floor = MonotonicCounter 0,
       dp_policy = rp_policy request, dp_retired = False, dp_revalidation_required = False,
       dp_has_active_boot = False, dp_active_boot = id_nil,
       dp_active_incarnation = MonotonicCounter 0, dp_next_incarnation = MonotonicCounter 1,
       dp_extra_incarnations = [], dp_scopes = empty_scope_set, dp_accepted_registrations = 0,
       dp_replay_hits = 0, dp_fenced_boots = [], dp_idempotency = [] \<rparr>"

definition add_participant :: "DurableParticipant \<Rightarrow> impl \<Rightarrow> impl" where
  "add_participant p s =
     (upd_state (\<lambda>st. st\<lparr> st_participants := st_participants st @ [p] \<rparr>) s)
     \<lparr> im_participant_index :=
         (im_participant_index s)(pid_value (dp_id p) \<mapsto> length (im_participants s)) \<rparr>"

definition pop_participant :: "impl \<Rightarrow> impl" where
  "pop_participant = upd_state (\<lambda>st. st\<lparr> st_participants := butlast (st_participants st) \<rparr>)"

definition set_registration_floor :: "RegistrationGeneration \<Rightarrow> impl \<Rightarrow> impl" where
  "set_registration_floor g = upd_state (\<lambda>st. st\<lparr> st_registration_floor := g \<rparr>)"

text \<open>Where the record is: appended for a new participant, found through the index otherwise.\<close>

definition open_record :: "RegisterParticipantRequest \<Rightarrow> nat option \<Rightarrow> nat tx" where
  "open_record request found =
     tx_bind tx_get (\<lambda>s.
     case found of
       None \<Rightarrow>
         tx_bind (tx_modify (add_participant (fresh_participant request))) (\<lambda>_.
         tx_bind (tx_push_undo pop_participant) (\<lambda>_.
         tx_return (length (im_participants s))))
     | Some i \<Rightarrow>
         (let previous = participant_at s i
          in tx_bind (tx_push_undo
               (restore_participant (rp_participant request) (\<lambda>_. previous))) (\<lambda>_.
             tx_return i)))"

definition issue_incarnation ::
  "RegisterParticipantRequest \<Rightarrow> RegistrationGeneration \<Rightarrow> IncarnationSequence \<Rightarrow> IncarnationSequence \<Rightarrow>
   DurableParticipant \<Rightarrow> DurableParticipant"
where
  "issue_incarnation request generation incarnation next p =
     (let q = p\<lparr> dp_registration_generation := generation, dp_next_incarnation := next,
            dp_policy := rp_policy request, dp_scopes := rp_scopes request,
            dp_revalidation_required := False, dp_retired := False,
            dp_accepted_registrations := dp_accepted_registrations p + 1 \<rparr>
      in if \<not> dp_has_active_boot q
         then q\<lparr> dp_has_active_boot := True, dp_active_boot := rp_boot request,
                dp_active_incarnation := incarnation \<rparr>
         else q\<lparr> dp_extra_incarnations := dp_extra_incarnations q @
                [\<lparr> ai_boot = rp_boot request, ai_sequence = incarnation,
                   ai_registered_at = generation \<rparr>] \<rparr>)"

definition registration_record ::
  "RegisterParticipantRequest \<Rightarrow> SnapshotDigest \<Rightarrow> RegistrationGeneration \<Rightarrow> IncarnationSequence \<Rightarrow>
   IdempotencyRecord"
where
  "registration_record request digest generation incarnation =
     \<lparr> ir_attempt = rp_attempt request, ir_operation = OperationKind.RegisterParticipant,
       ir_semantic = digest,
       ir_outcome = ucast (registration_outcome_wire RegistrationOutcome.Registered),
       ir_auxiliary = counter_value generation, ir_auxiliary_high = counter_value incarnation,
       ir_auxiliary_id = 0 \<rparr>"

definition enter_incarnation ::
  "RegisterParticipantRequest \<Rightarrow> SnapshotDigest \<Rightarrow> nat \<Rightarrow> RegistrationGeneration \<Rightarrow>
   IncarnationSequence \<Rightarrow> IncarnationSequence \<Rightarrow> impl \<Rightarrow> impl"
where
  "enter_incarnation request digest i generation incarnation next s =
     (let s1 = upd_participant i (issue_incarnation request generation incarnation next) s;
          s2 = s1\<lparr> im_active_workers := im_active_workers s1 + 1,
                 im_boot_index := (im_boot_index s1)(id_to_string (rp_boot request) :=
                   im_participant_index s1 (pid_value (rp_participant request))) \<rparr>
      in remember_for_participant (registration_record request digest generation incarnation) i s2)"

definition registration_accepted ::
  "DurableState \<Rightarrow> RegisterParticipantRequest \<Rightarrow> RegistrationGeneration \<Rightarrow> IncarnationSequence \<Rightarrow>
   RegistrationResult"
where
  "registration_accepted st request generation incarnation =
     (registration_result st RegistrationOutcome.Registered
       (explain RegistrationAccepted
         [(''participant'', pid_value (rp_participant request)),
          (''boot'', id_to_string (rp_boot request)),
          (''epoch'', counter_to_string (st_current_epoch st)),
          (''incarnation'', counter_to_string incarnation),
          (''registration_generation'', counter_to_string generation),
          (''scopes'', scope_set_to_string (rp_scopes request))]))
     \<lparr> rr_generation := Some generation, rr_incarnation := Some incarnation \<rparr>"

definition issue_registration ::
  "RegisterParticipantRequest \<Rightarrow> bool \<Rightarrow> SnapshotDigest \<Rightarrow> nat \<Rightarrow> RegistrationResult tx"
where
  "issue_registration request commit_generation digest i =
     tx_bind tx_get (\<lambda>s.
     let floor = st_registration_floor (im_state s);
         incarnation = dp_next_incarnation (participant_at s i)
     in tx_bind (tx_next floor ''registration generation counter is exhausted'') (\<lambda>generation.
     tx_bind (tx_push_undo (set_registration_floor floor)) (\<lambda>_.
     tx_bind (tx_modify (set_registration_floor generation)) (\<lambda>_.
     tx_bind (tx_next incarnation
       ''incarnation sequence counter is exhausted for this participant'') (\<lambda>next.
     tx_bind (tx_modify (enter_incarnation request digest i generation incarnation next)) (\<lambda>_.
     tx_bind (if commit_generation then bump_generation else tx_return ()) (\<lambda>_.
     tx_bind tx_set_mutated (\<lambda>_.
     tx_return (registration_accepted (im_state s) request generation incarnation)))))))))"

definition accept_registration ::
  "RegisterParticipantRequest \<Rightarrow> bool \<Rightarrow> SnapshotDigest \<Rightarrow> nat option \<Rightarrow> RegistrationResult tx"
where
  "accept_registration request commit_generation digest found =
     tx_bind (open_record request found)
       (issue_registration request commit_generation digest)"

section \<open>The whole operation\<close>

definition registration_limits :: "nat option \<Rightarrow> impl \<Rightarrow> RegistrationResult option" where
  "registration_limits found s =
     (if found = None \<and> max_participants (im_limits s) \<le> length (im_participants s)
      then Some (registration_result (im_state s) RegistrationOutcome.ResourceLimit
        (explain ResourceLimitReached
          [(''limit'', ''max_participants''),
           (''current'', dec_string (length (im_participants s)))]))
      else if max_active_workers (im_limits s) \<le> im_active_workers s
      then Some (registration_result (im_state s) RegistrationOutcome.ResourceLimit
        (explain ResourceLimitReached
          [(''limit'', ''max_active_workers''),
           (''current'', dec_string (im_active_workers s))]))
      else None)"

definition finish_registration ::
  "RegisterParticipantRequest \<Rightarrow> bool \<Rightarrow> SnapshotDigest \<Rightarrow> nat option \<Rightarrow> RegistrationResult tx"
where
  "finish_registration request commit_generation digest found =
     tx_bind tx_get (\<lambda>s.
     case registration_limits found s of
       Some r \<Rightarrow> tx_return r
     | None \<Rightarrow> accept_registration request commit_generation digest found)"

definition apply_registration :: "RegisterParticipantRequest \<Rightarrow> bool \<Rightarrow> RegistrationResult tx" where
  "apply_registration request commit_generation =
     tx_bind tx_get (\<lambda>s.
     case registration_screen s request of
       Some r \<Rightarrow> tx_return r
     | None \<Rightarrow>
         tx_bind (tx_lift (register_digest request)) (\<lambda>digest.
         case find_participant s (rp_participant request) of
           None \<Rightarrow> finish_registration request commit_generation digest None
         | Some i \<Rightarrow>
             (case registration_decision s request digest i of
                Some r \<Rightarrow> tx_return r
              | None \<Rightarrow>
                  tx_bind (replace_incumbent request i) (\<lambda>refused.
                  case refused of
                    Some r \<Rightarrow> tx_return r
                  | None \<Rightarrow> finish_registration request commit_generation digest (Some i)))))"

definition register_participant ::
  "io \<Rightarrow> RegisterParticipantRequest \<Rightarrow> impl \<Rightarrow> RegistrationResult res \<times> impl"
where
  "register_participant io request = run_tx io (apply_registration request True)"

fun apply_registrations :: "RegisterParticipantRequest list \<Rightarrow> RegistrationResult list tx" where
  "apply_registrations [] = tx_return []"
| "apply_registrations (request # requests) =
     tx_bind (apply_registration request False) (\<lambda>r.
     tx_bind (apply_registrations requests) (\<lambda>rs. tx_return (r # rs)))"

definition batch_body :: "RegisterParticipantRequest list \<Rightarrow> RegistrationResult list tx" where
  "batch_body requests =
     tx_bind (apply_registrations requests) (\<lambda>results t.
     if tx_mutated t then tx_bind bump_generation (\<lambda>_. tx_return results) t else (Inr results, t))"

definition register_participants ::
  "io \<Rightarrow> RegisterParticipantRequest list \<Rightarrow> impl \<Rightarrow> RegistrationResult list res \<times> impl"
where
  "register_participants io requests = run_tx io (batch_body requests)"

end
