(* ===== verification/Retirement.thy ===== *)
theory Retirement
  imports Fencing
begin

text \<open>
  Retirement of a participant (\<open>apply_retire\<close> of \<open>runtime.cpp\<close>): every live incarnation is fenced, the
  incarnation allocator is closed at or below the fencing floor, and the record stays.
\<close>

definition retire_result :: "DurableState \<Rightarrow> RetireOutcome \<Rightarrow> nat \<Rightarrow> Explanation \<Rightarrow> RetireResult" where
  "retire_result st outcome fenced e =
     \<lparr> to_outcome = outcome, to_epoch = st_current_epoch st, to_incarnations_fenced = fenced,
       to_explanation = e \<rparr>"

definition retire_screen :: "DurableState \<Rightarrow> RetireParticipantRequest \<Rightarrow> RetireResult option" where
  "retire_screen st request =
     (if id_is_nil (tq_attempt request) \<or> pid_empty (tq_participant request)
      then Some (retire_result st RetireOutcome.MalformedRequest 0
        (explain ExplanationCode.MalformedRequest
          [(''reason'', ''retirement request is structurally invalid'')]))
      else if tq_expected_epoch request \<noteq> st_current_epoch st
      then Some (retire_result st RetireOutcome.StaleEpoch 0
        (explain EpochStale
          [(''request_epoch'', counter_to_string (tq_expected_epoch request)),
           (''current_epoch'', counter_to_string (st_current_epoch st))]))
      else None)"

definition retire_replay ::
  "DurableState \<Rightarrow> RetireParticipantRequest \<Rightarrow> SnapshotDigest \<Rightarrow> IdempotencyRecord \<Rightarrow> RetireResult"
where
  "retire_replay st request digest previous =
     (if ir_semantic previous \<noteq> digest
      then retire_result st RetireOutcome.ConflictingAttempt 0
        (explain AttemptConflict [(''attempt'', id_to_string (tq_attempt request))])
      else
        let outcome = retire_outcome_of_code (ucast (ir_outcome previous))
        in retire_result st outcome (unat (ir_auxiliary previous))
          (explain RegistrationIdempotentReplay
            [(''attempt'', id_to_string (tq_attempt request)),
             (''outcome'', retire_outcome_to_string outcome)]))"

text \<open>The loop over the live boots; the count is of the fences that took or had taken effect.\<close>

fun fence_all :: "RetireParticipantRequest \<Rightarrow> WorkerBootId list \<Rightarrow> nat \<Rightarrow> nat tx" where
  "fence_all request [] count = tx_return count"
| "fence_all request (boot # boots) count =
     tx_bind (record_fence (tq_participant request) boot FenceReason.AdministrativeRevoke
       (tq_note request) False) (\<lambda>fence.
     tx_bind tx_get (\<lambda>s.
     if find_participant s (tq_participant request) = None
     then tx_throw (invariant_error ''participant disappeared while being retired'')
     else fence_all request boots
       (if fo_outcome fence = FenceOutcome.Fenced \<or> fo_outcome fence = FenceOutcome.AlreadyFenced
        then count + 1 else count)))"

definition close_allocator :: "DurableParticipant \<Rightarrow> DurableParticipant" where
  "close_allocator p =
     (let highest_issued = MonotonicCounter (counter_value (dp_next_incarnation p) - 1);
          q = (if \<not> counter_is_zero (dp_next_incarnation p) then raise_floor highest_issued p else p)
      in q\<lparr> dp_retired := True, dp_revalidation_required := False \<rparr>)"

definition undo_retire :: "ParticipantId \<Rightarrow> DurableParticipant \<Rightarrow> impl \<Rightarrow> impl" where
  "undo_retire pid p =
     restore_participant pid (\<lambda>q. q\<lparr> dp_incarnation_floor := dp_incarnation_floor p,
       dp_retired := dp_retired p, dp_revalidation_required := dp_revalidation_required p \<rparr>)"

definition retire_record ::
  "RetireParticipantRequest \<Rightarrow> SnapshotDigest \<Rightarrow> nat \<Rightarrow> IdempotencyRecord"
where
  "retire_record request digest fenced =
     \<lparr> ir_attempt = tq_attempt request, ir_operation = OperationKind.RetireParticipant,
       ir_semantic = digest, ir_outcome = ucast (retire_outcome_wire RetireOutcome.Retired),
       ir_auxiliary = word_of_nat fenced, ir_auxiliary_high = 0, ir_auxiliary_id = 0 \<rparr>"

definition enter_retirement :: "RetireParticipantRequest \<Rightarrow> SnapshotDigest \<Rightarrow> nat \<Rightarrow> RetireResult tx" where
  "enter_retirement request digest i =
     tx_bind tx_get (\<lambda>s.
     tx_bind (fence_all request (participant_boots (participant_at s i)) 0) (\<lambda>fenced.
     tx_bind tx_get (\<lambda>u.
     tx_bind (tx_push_undo (undo_retire (tq_participant request) (participant_at u i))) (\<lambda>_.
     tx_bind (tx_modify (upd_participant i close_allocator)) (\<lambda>_.
     tx_bind bump_generation (\<lambda>_.
     tx_bind (tx_modify (remember_for_participant (retire_record request digest fenced) i)) (\<lambda>_.
     tx_bind tx_set_mutated (\<lambda>_.
     tx_return (retire_result (im_state s) RetireOutcome.Retired fenced
       (explain ParticipantRetired
         [(''participant'', pid_value (tq_participant request)),
          (''incarnations_fenced'', dec_string fenced),
          (''epoch'', counter_to_string (st_current_epoch (im_state s)))]))))))))))"

definition apply_retire :: "RetireParticipantRequest \<Rightarrow> RetireResult tx" where
  "apply_retire request =
     tx_bind tx_get (\<lambda>s.
     let st = im_state s
     in case retire_screen st request of
          Some r \<Rightarrow> tx_return r
        | None \<Rightarrow>
            (case find_participant s (tq_participant request) of
               None \<Rightarrow> tx_return (retire_result st RetireOutcome.UnknownParticipant 0
                 (explain ParticipantUnknown
                   [(''participant'', pid_value (tq_participant request))]))
             | Some i \<Rightarrow>
                 tx_bind (tx_lift (retire_digest request)) (\<lambda>digest.
                 case find_attempt (dp_idempotency (participant_at s i)) (tq_attempt request) of
                   Some previous \<Rightarrow> tx_return (retire_replay st request digest previous)
                 | None \<Rightarrow>
                     if dp_retired (participant_at s i)
                     then tx_return (retire_result st RetireOutcome.AlreadyRetired 0
                       (explain ParticipantRetired
                         [(''participant'', pid_value (dp_id (participant_at s i)))]))
                     else enter_retirement request digest i)))"

definition retire_participant :: "io \<Rightarrow> RetireParticipantRequest \<Rightarrow> impl \<Rightarrow> RetireResult res \<times> impl" where
  "retire_participant io request = run_tx io (apply_retire request)"

end
