(* ===== verification/Requests.thy ===== *)
theory Requests
  imports Sessions Registration Grants Retirement Epochs
begin

text \<open>
  The operations of \<open>EpochRuntime\<close> that change it, as requests: an operation with its arguments and what the
  environment supplies. \<open>perform\<close> runs one; it returns or throws, and leaves the runtime that the code leaves in either
  case. The runtime outlives a request that throws: the server ends the session and goes on with it.
\<close>

datatype request =
    Register io RegisterParticipantRequest
  | RegisterBatch io "RegisterParticipantRequest list"
  | Fence io FenceWorkerRequest
  | Grant env GrantAuthorityRequest
  | Revoke io RevokeAuthorityRequest
  | Retire io RetireParticipantRequest
  | Advance env EpochAdvanceRequest
  | Bind SessionBinding
  | Close io SessionId SessionClosureReason
  | Flush io

definition outcome_of :: "'a res \<times> impl \<Rightarrow> unit res \<times> impl" where
  "outcome_of = (\<lambda>(r, s). (res_bind r (\<lambda>_. Inr ()), s))"

fun perform :: "request \<Rightarrow> impl \<Rightarrow> unit res \<times> impl" where
  "perform (Register io q) s = outcome_of (register_participant io q s)"
| "perform (RegisterBatch io qs) s = outcome_of (register_participants io qs s)"
| "perform (Fence io q) s = outcome_of (fence_worker io q s)"
| "perform (Grant env q) s = outcome_of (grant_authority env q s)"
| "perform (Revoke io q) s = outcome_of (revoke_authority io q s)"
| "perform (Retire io q) s = outcome_of (retire_participant io q s)"
| "perform (Advance env q) s = outcome_of (advance_epoch env q s)"
| "perform (Bind b) s = outcome_of (bind_session b s)"
| "perform (Close io sid reason) s = outcome_of (close_session io sid reason s)"
| "perform (Flush io) s = outcome_of (flush io s)"

text \<open>Several requests, one after the other, each whether those before it returned or threw.\<close>

definition perform_all :: "request list \<Rightarrow> impl \<Rightarrow> impl" where
  "perform_all qs s = foldl (\<lambda>u q. snd (perform q u)) s qs"

lemma perform_all_simps [simp]:
  "perform_all [] s = s" "perform_all (q # qs) s = perform_all qs (snd (perform q s))"
  by (simp_all add: perform_all_def)

end
