(* ===== verification/Server.thy ===== *)
theory Server
  imports Wire Queries Requests Validation
begin

text \<open>
  The coordinator server (\<open>server.cpp\<close>): how one connection is served, from its first frame to the
  closing of its session. Connections are served by threads that share the runtime; every call into the
  runtime is atomic, and what the other threads do before a call are the requests \<open>tu_calls\<close> of the turn in
  which the call is made, whether they return or throw. The rest of a turn is the environment of the runtime, whether sending fails, and
  whether the server has been told to stop. Left out is waiting for input without reading any; how the threads
  are started, joined and told to stop is in \<open>Threads\<close>.
\<close>

section \<open>One connection\<close>

definition error_code :: "ErrorCategory \<Rightarrow> u16" where
  "error_code c =
     (case c of MalformedEncoding \<Rightarrow> 0 | UnsupportedVersion \<Rightarrow> 1 | IntegrityFailure \<Rightarrow> 2
      | CorruptState \<Rightarrow> 3 | IoFailure \<Rightarrow> 4 | ErrorCategory.ResourceLimit \<Rightarrow> 5 | Overflow \<Rightarrow> 6
      | InvalidArgument \<Rightarrow> 7 | ProtocolViolation \<Rightarrow> 8 | InternalInvariant \<Rightarrow> 9)"

definition classify_close :: "bool \<Rightarrow> bool \<Rightarrow> SessionClosureReason" where
  "classify_close violation server_stop =
     (if violation then SessionClosureReason.ProtocolViolationClosure
      else if server_stop then SessionClosureReason.ServerShutdown
      else SessionClosureReason.PeerDisconnect)"

record turn =
  tu_env :: env
  tu_calls :: "request list"
  tu_send :: "EpochError option"
  tu_stop :: bool

definition tu_others :: "turn \<Rightarrow> impl \<Rightarrow> impl" where
  "tu_others turn = perform_all (tu_calls turn)"

text \<open>The shared part of the server and the local variables of \<open>serve\<close>.\<close>

record serving =
  sv_limits :: Limits
  sv_product_version :: string
  sv_runtime :: impl
  sv_sequence :: u64
  sv_stop :: bool
  sv_shutdown :: bool
  sv_active :: nat
  sv_sent :: "byte list list"
  ss_id :: SessionId
  ss_hello :: bool
  ss_bound :: bool
  ss_binding :: SessionBinding
  ss_violation :: bool

type_synonym 'a act = "(serving, 'a) action"

text \<open>A call into the runtime, after whatever other threads did.\<close>

definition a_call :: "turn \<Rightarrow> (impl \<Rightarrow> 'a res \<times> impl) \<Rightarrow> 'a act" where
  "a_call turn op =
     (\<lambda>c. let (r, s) = op (tu_others turn (sv_runtime c)) in (r, c\<lparr> sv_runtime := s \<rparr>))"

definition a_read :: "turn \<Rightarrow> (impl \<Rightarrow> 'a) \<Rightarrow> 'a act" where
  "a_read turn f = a_call turn (\<lambda>s. (Inr (f s), s))"

definition current_epoch :: "impl \<Rightarrow> CoordinatorEpoch" where
  "current_epoch s = st_current_epoch (im_state s)"

definition coordinator_boot :: "impl \<Rightarrow> CoordinatorBootId" where
  "coordinator_boot s = st_coordinator_boot (im_state s)"

section \<open>Writing\<close>

definition write_frame ::
  "turn \<Rightarrow> MessageType \<Rightarrow> CoordinatorEpoch \<Rightarrow> MutationAttemptId \<Rightarrow> byte list \<Rightarrow> unit act"
where
  "write_frame turn type epoch request_id payload =
     (\<lambda>c0. let c = c0\<lparr> sv_sequence := sv_sequence c0 + 1 \<rparr>
      in case encode_frame type (sv_sequence c0) epoch request_id payload (sv_limits c0) of
           Inl e \<Rightarrow> (Inl e, c)
         | Inr bytes \<Rightarrow>
             (case tu_send turn of
                Some e \<Rightarrow> (Inl e, c)
              | None \<Rightarrow> (Inr (), c\<lparr> sv_sent := sv_sent c @ [bytes] \<rparr>)))"

definition write_error ::
  "turn \<Rightarrow> CoordinatorEpoch \<Rightarrow> MutationAttemptId \<Rightarrow> u16 \<Rightarrow> string \<Rightarrow> unit act"
where
  "write_error turn epoch request_id code message =
     (\<lambda>c. case a_bind (a_lift (encode_error code message (sv_limits c)))
             (write_frame turn MessageType.Error epoch request_id) c of
        (_, c') \<Rightarrow> (Inr (), c'))"

text \<open>Encode the answer and write it.\<close>

definition answer ::
  "turn \<Rightarrow> MessageType \<Rightarrow> CoordinatorEpoch \<Rightarrow> MutationAttemptId \<Rightarrow> writer \<Rightarrow> unit act"
where
  "answer turn type epoch request_id payload =
     a_bind (a_lift payload) (write_frame turn type epoch request_id)"

section \<open>Handling a frame\<close>

datatype flow = Continue | Break

definition refuse ::
  "turn \<Rightarrow> CoordinatorEpoch \<Rightarrow> MutationAttemptId \<Rightarrow> u16 \<Rightarrow> string \<Rightarrow> flow act"
where
  "refuse turn epoch request_id code message =
     a_bind (a_modify (\<lambda>c. c\<lparr> ss_violation := True \<rparr>)) (\<lambda>_.
     a_bind (write_error turn epoch request_id code message) (\<lambda>_.
     a_return Break))"

definition handle_hello :: "turn \<Rightarrow> MutationAttemptId \<Rightarrow> byte list \<Rightarrow> flow act" where
  "handle_hello turn request_id payload =
     a_bind a_get (\<lambda>c.
     a_bind (a_lift (decode_hello payload (sv_limits c))) (\<lambda>hello.
     a_bind (a_lift (throw_if (he_role hello = []) (malformed ''HELLO carries an empty role''))) (\<lambda>_.
     a_bind (a_modify (\<lambda>c. c\<lparr> ss_hello := True \<rparr>)) (\<lambda>_.
     a_bind (a_read turn current_epoch) (\<lambda>epoch.
     a_bind (a_read turn coordinator_boot) (\<lambda>boot.
     a_bind (a_lift (encode_hello_ack epoch boot (ss_id c) (sv_product_version c))) (\<lambda>ack.
     a_bind (a_read turn current_epoch) (\<lambda>now.
     a_bind (write_frame turn MessageType.HelloAck now request_id ack) (\<lambda>_.
     a_return Continue)))))))))"

definition session_candidate :: "SessionId \<Rightarrow> RegisterParticipantRequest \<Rightarrow> RegistrationResult \<Rightarrow> SessionBinding" where
  "session_candidate sid request result =
     \<lparr> sb_id = sid, sb_participant = rp_participant request, sb_boot = rp_boot request,
       sb_incarnation = (case rr_incarnation result of None \<Rightarrow> MonotonicCounter 0 | Some n \<Rightarrow> n),
       sb_epoch = rr_epoch result,
       sb_registration_generation =
         (case rr_generation result of None \<Rightarrow> MonotonicCounter 0 | Some g \<Rightarrow> g) \<rparr>"

definition handle_register :: "turn \<Rightarrow> CoordinatorEpoch \<Rightarrow> MutationAttemptId \<Rightarrow> byte list \<Rightarrow> flow act" where
  "handle_register turn epoch request_id payload =
     a_bind a_get (\<lambda>c.
     if ss_bound c
     then refuse turn epoch request_id 4 ''session is already bound to a worker incarnation''
     else
     a_bind (a_lift (decode_register_request payload (sv_limits c))) (\<lambda>wire.
     a_bind (a_call turn (register_participant (en_io (tu_env turn)) (rw_request wire))) (\<lambda>result.
     let acknowledge =
           a_bind (answer turn MessageType.RegisterAck (rr_epoch result) request_id
             (encode_register_result result (sv_limits c))) (\<lambda>_. a_return Continue)
     in if rr_outcome result = RegistrationOutcome.Registered \<or>
           rr_outcome result = RegistrationOutcome.Idempotent
        then
          let candidate = session_candidate (ss_id c) (rw_request wire) result
          in if counter_is_zero (sb_incarnation candidate)
             then refuse turn epoch request_id 5 ''registration did not produce an incarnation sequence''
             else
               a_bind (a_call turn (bind_session candidate)) (\<lambda>bound.
               if \<not> bound
               then refuse turn epoch request_id 6 ''session could not be bound to the new incarnation''
               else
                 a_bind (a_modify (\<lambda>c. c\<lparr> ss_binding := candidate, ss_bound := True \<rparr>)) (\<lambda>_.
                 acknowledge))
        else acknowledge)))"

definition decode_reserved :: "byte list \<Rightarrow> u32 res" where
  "decode_reserved = r_whole r_u32"

text \<open>The requests of the \<open>switch\<close>; each answers with one frame.\<close>

definition serve_request :: "turn \<Rightarrow> CoordinatorEpoch \<Rightarrow> MutationAttemptId \<Rightarrow> MessageType \<Rightarrow> byte list \<Rightarrow> unit act"
where
  "serve_request turn epoch request_id type payload =
     a_bind a_get (\<lambda>c.
     let limits = sv_limits c; io = en_io (tu_env turn)
     in case type of
       MessageType.ValidateAuthority \<Rightarrow>
         a_bind (a_lift (decode_validate_request payload limits)) (\<lambda>request.
         a_bind (a_read turn (\<lambda>s. validate_authority s request)) (\<lambda>validation.
         answer turn MessageType.ValidateResult epoch request_id (encode_validation validation limits)))
     | MessageType.FenceWorker \<Rightarrow>
         a_bind (a_lift (decode_fence_request payload limits)) (\<lambda>request.
         a_bind (a_call turn (fence_worker io request)) (\<lambda>result.
         answer turn MessageType.FenceAck (fo_epoch result) request_id (encode_fence_result result limits)))
     | MessageType.RevokeAuthority \<Rightarrow>
         a_bind (a_lift (decode_revoke_request payload limits)) (\<lambda>request.
         a_bind (a_call turn (revoke_authority io request)) (\<lambda>result.
         answer turn MessageType.RevokeAck (vr_epoch result) request_id (encode_revoke_result result limits)))
     | MessageType.AdvanceEpoch \<Rightarrow>
         a_bind (a_lift (decode_advance_request payload limits)) (\<lambda>request.
         a_bind (a_call turn (advance_epoch (tu_env turn) request)) (\<lambda>result.
         answer turn MessageType.AdvanceEpochAck (eo_epoch result) request_id
           (encode_advance_result result limits)))
     | MessageType.RetireParticipant \<Rightarrow>
         a_bind (a_lift (decode_retire_request payload limits)) (\<lambda>request.
         a_bind (a_call turn (retire_participant io request)) (\<lambda>result.
         answer turn MessageType.RetireAck (to_epoch result) request_id (encode_retire_result result limits)))
     | MessageType.EpochStateRequest \<Rightarrow>
         a_bind (a_lift (decode_reserved payload)) (\<lambda>reserved.
         a_bind (a_lift (throw_if (reserved \<noteq> 0)
           (malformed ''epoch state request carries unsupported reserved bits''))) (\<lambda>_.
         a_bind (a_read turn build_state) (\<lambda>state.
         answer turn MessageType.EpochStateResponse (es_epoch state) request_id (encode_epoch_state state))))
     | MessageType.QueryParticipant \<Rightarrow>
         a_bind (a_lift (decode_query_participant payload limits)) (\<lambda>participant.
         a_bind (a_read turn (\<lambda>s. query_participant s participant)) (\<lambda>view.
         case view of
           None \<Rightarrow> write_error turn epoch request_id 2 ''unknown participant''
         | Some v \<Rightarrow> answer turn MessageType.ParticipantState epoch request_id (encode_participant_view v)))
     | MessageType.SnapshotRequest \<Rightarrow>
         a_bind (a_lift (decode_reserved payload)) (\<lambda>reserved.
         a_bind (a_lift (throw_if (reserved \<noteq> 0)
           (malformed ''snapshot request carries unsupported reserved bits''))) (\<lambda>_.
         a_bind (a_call turn (\<lambda>s. (build_snapshot (tu_env turn) s, s))) (\<lambda>snapshot.
         answer turn MessageType.SnapshotResponse (sn_epoch snapshot) request_id
           (encode_snapshot_response snapshot limits))))
     | MessageType.ExplainRequest \<Rightarrow>
         a_bind (a_lift (decode_explain_request payload limits)) (\<lambda>request.
         a_bind (a_read turn (\<lambda>s. explain_authority s (xp_participant request) (xp_boot request))) (\<lambda>e.
         answer turn MessageType.ExplainResponse epoch request_id (encode_explanation e limits)))
     | _ \<Rightarrow>
         a_bind (a_modify (\<lambda>c. c\<lparr> ss_violation := True \<rparr>)) (\<lambda>_.
         write_error turn epoch request_id 3 ''message type is not accepted here''))"

definition handle_frame :: "turn \<Rightarrow> Frame \<Rightarrow> flow act" where
  "handle_frame turn frame =
     (let request_id = id_from_bytes (fh_request_id (fm_header frame)); type = fh_type (fm_header frame)
      in a_bind (a_read turn current_epoch) (\<lambda>epoch.
         a_bind a_get (\<lambda>c.
         if \<not> ss_hello c \<and> type \<noteq> MessageType.Hello
         then refuse turn epoch request_id 1 ''first message must be HELLO''
         else if type = MessageType.Hello then handle_hello turn request_id (fm_payload frame)
         else if type = MessageType.Shutdown
         then a_bind (a_modify (\<lambda>c. c\<lparr> sv_shutdown := True, sv_stop := True \<rparr>)) (\<lambda>_. a_return Break)
         else if type = MessageType.RegisterParticipant
         then handle_register turn epoch request_id (fm_payload frame)
         else
           a_bind (serve_request turn epoch request_id type (fm_payload frame)) (\<lambda>_.
           a_bind a_get (\<lambda>c.
           a_return (if ss_violation c \<or> sv_stop c then Break else Continue))))))"

section \<open>Serving\<close>

abbreviation server_receive :: "Limits \<Rightarrow> recv_event list \<Rightarrow> Frame option res \<times> recv_event list" where
  "server_receive \<equiv> receive_frame
     (resource_limit ''declared frame payload exceeds limits.max_frame_payload'')
     (malformed ''peer closed the connection in the middle of a frame payload'')"

text \<open>The loop of \<open>serve\<close>: the turns are numbered from the first.\<close>

function serve_loop :: "(nat \<Rightarrow> turn) \<Rightarrow> nat \<Rightarrow> recv_event list \<Rightarrow> unit act" where
  "serve_loop turns k evs c0 =
     (let turn = turns k; c = c0\<lparr> sv_stop := sv_stop c0 \<or> tu_stop turn \<rparr>
      in if sv_stop c then (Inr (), c)
         else case server_receive (sv_limits c) evs of
           (Inl e, _) \<Rightarrow> (Inl e, c)
         | (Inr None, _) \<Rightarrow> (Inr (), c)
         | (Inr (Some frame), rest) \<Rightarrow>
             (case handle_frame turn frame c of
                (Inl e, c') \<Rightarrow> (Inl e, c')
              | (Inr Break, c') \<Rightarrow> (Inr (), c')
              | (Inr Continue, c') \<Rightarrow> serve_loop turns (Suc k) rest c'))"
  by pat_completeness auto
termination
  by (relation "measure (\<lambda>(turns, k, evs, c). weight evs)") (auto dest: receive_frame_weight [OF sym])

declare serve_loop.simps [simp del]

text \<open>
  \<open>serve\<close>: the loop, the error frame of an exception, and the closing of the session. An exception of
  \<open>close_session\<close> leaves \<open>serve\<close> and skips the decrement of the count of active sessions.
\<close>

definition serve_end :: "turn \<Rightarrow> unit act" where
  "serve_end turn =
     (\<lambda>c. if \<not> ss_bound c then (Inr (), c\<lparr> sv_active := size_dec (sv_active c) \<rparr>)
      else case a_call turn (close_session (en_io (tu_env turn)) (sb_id (ss_binding c))
             (classify_close (ss_violation c) (sv_stop c \<or> tu_stop turn))) c of
        (Inl e, c') \<Rightarrow> (Inl e, c')
      | (Inr _, c') \<Rightarrow> (Inr (), c'\<lparr> sv_active := size_dec (sv_active c') \<rparr>))"

definition serve :: "(nat \<Rightarrow> turn) \<Rightarrow> turn \<Rightarrow> recv_event list \<Rightarrow> unit act" where
  "serve turns ending evs =
     (\<lambda>c. case serve_loop turns 0 evs (c\<lparr> sv_active := sv_active c + 1 \<rparr>) of
        (Inr _, c1) \<Rightarrow> serve_end ending c1
      | (Inl e, c1) \<Rightarrow>
          a_bind (a_modify (\<lambda>c. c\<lparr> ss_violation := True \<rparr>)) (\<lambda>_.
          a_bind (a_read ending current_epoch) (\<lambda>epoch.
          a_bind (write_error ending epoch id_nil (error_code (category e)) (what e)) (\<lambda>_.
          serve_end ending))) c1)"

text \<open>
  A connection that the server has accepted: its session identifier, the turns of its thread and the bytes of its peer. The
  runtime and the shared part of the server pass from one connection to the next; what a connection that overlaps with
  others finds changed between two of its calls is in its turns.
\<close>

record connection =
  cn_session :: SessionId
  cn_turns :: "nat \<Rightarrow> turn"
  cn_ending :: turn
  cn_input :: "recv_event list"

definition no_binding :: SessionBinding where
  "no_binding =
     \<lparr> sb_id = id_nil, sb_participant = ParticipantId [], sb_boot = id_nil, sb_incarnation = MonotonicCounter 0,
       sb_epoch = MonotonicCounter 0, sb_registration_generation = MonotonicCounter 0 \<rparr>"

definition accepted :: "SessionId \<Rightarrow> serving \<Rightarrow> serving" where
  "accepted sid c =
     c\<lparr> sv_sent := [], ss_id := sid, ss_hello := False, ss_bound := False, ss_binding := no_binding, ss_violation := False \<rparr>"

definition serve_connection :: "connection \<Rightarrow> serving \<Rightarrow> serving" where
  "serve_connection cn c = snd (serve (cn_turns cn) (cn_ending cn) (cn_input cn) (accepted (cn_session cn) c))"

text \<open>The server as it is started: the counter of frames begins with 1, and the version is that of the library unless given.\<close>

definition server_started :: "Limits \<Rightarrow> string \<Rightarrow> impl \<Rightarrow> serving" where
  "server_started limits version s =
     accepted id_nil \<lparr> sv_limits = limits, sv_product_version = (if version = [] then version_string else version),
       sv_runtime = s, sv_sequence = 1, sv_stop = False, sv_shutdown = False, sv_active = 0, sv_sent = [],
       ss_id = id_nil, ss_hello = False, ss_bound = False, ss_binding = no_binding, ss_violation = False \<rparr>"

end
