(* ===== verification/Commit.thy ===== *)
theory Commit
  imports Epochs Sessions Registration Retirement
begin

text \<open>
  What an operation leaves when it returns. A body that returns either did nothing at all or set the
  \<open>mutated\<close> flag (\<open>tx_quiet\<close>), so an operation either leaves the runtime as it was or passes the
  durability barrier: then the state has been validated and saved, the participants are in order
  and every index is rebuilt (\<open>run_tx_returns\<close>, \<open>persist_returns\<close>).
\<close>

section \<open>Bodies that change nothing unless they say so\<close>

definition tx_quiet :: "'a tx \<Rightarrow> bool" where
  "tx_quiet m \<longleftrightarrow> (\<forall>t r t'. m t = (Inr r, t') \<longrightarrow> \<not> tx_mutated t' \<longrightarrow> t' = t)"

definition tx_marks :: "'a tx \<Rightarrow> bool" where
  "tx_marks m \<longleftrightarrow> (\<forall>t r t'. m t = (Inr r, t') \<longrightarrow> tx_mutated t')"

named_theorems quiet_rules

lemma tx_quietD: "tx_quiet m \<Longrightarrow> m t = (Inr r, t') \<Longrightarrow> \<not> tx_mutated t' \<Longrightarrow> t' = t"
  by (simp add: tx_quiet_def)

lemma quiet_basic [quiet_rules]:
  "tx_quiet (tx_return x)" "tx_quiet (tx_throw e)" "tx_quiet (tx_lift r)" "tx_quiet tx_get"
  "tx_quiet (tx_next c msg)"
  by (simp_all add: tx_quiet_def tx_basic tx_next_def split: option.split)

lemma quiet_marks: "tx_marks m \<Longrightarrow> tx_quiet m"
  by (auto simp: tx_quiet_def tx_marks_def)

lemma quiet_bind [quiet_rules]:
  "tx_quiet m \<Longrightarrow> (\<And>x. tx_quiet (f x)) \<Longrightarrow> tx_quiet (tx_bind m f)"
  by (auto simp: tx_quiet_def tx_bind_def split: prod.splits sum.splits) metis

lemma marks_bind: "(\<And>x. tx_marks (f x)) \<Longrightarrow> tx_marks (tx_bind m f)"
  by (auto simp: tx_marks_def tx_bind_def split: prod.splits sum.splits)

lemma marks_final: "tx_marks (tx_bind tx_set_mutated (\<lambda>_. tx_return x))"
  by (simp add: tx_marks_def tx_simps)

lemma marks_let: "tx_marks (f x) \<Longrightarrow> tx_marks (let y = x in f y)"
  by simp

lemma quiet_let: "tx_quiet (f x) \<Longrightarrow> tx_quiet (let y = x in f y)"
  by simp

lemma quiet_option [quiet_rules]:
  "tx_quiet a \<Longrightarrow> (\<And>x. tx_quiet (b x)) \<Longrightarrow> tx_quiet (case r of None \<Rightarrow> a | Some x \<Rightarrow> b x)"
  by (cases r) simp_all

lemma quiet_if [quiet_rules]: "tx_quiet a \<Longrightarrow> tx_quiet b \<Longrightarrow> tx_quiet (if c then a else b)"
  by simp

lemmas marks_rules = marks_final marks_bind marks_let

lemma defensive_fence_marks: "tx_marks (defensive_fence i pid boot reason note)"
  unfolding defensive_fence_def Let_def by (intro marks_rules)

lemma live_fence_marks: "tx_marks (live_fence i pid boot seq reason note)"
  unfolding live_fence_def Let_def by (intro marks_rules)

lemma accept_registration_marks: "tx_marks (accept_registration request c digest found)"
  unfolding accept_registration_def issue_registration_def Let_def by (intro marks_rules)

lemma enter_grant_marks: "tx_marks (enter_grant request digest i gid)"
  unfolding enter_grant_def Let_def by (intro marks_rules)

lemma enter_revocation_marks: "tx_marks (enter_revocation request digest k)"
  unfolding enter_revocation_def Let_def case_prod_beta by (intro marks_rules)

lemma enter_retirement_marks: "tx_marks (enter_retirement request digest i)"
  unfolding enter_retirement_def Let_def by (intro marks_rules)

lemmas marked_quiet [quiet_rules] =
  defensive_fence_marks [THEN quiet_marks] live_fence_marks [THEN quiet_marks]
  accept_registration_marks [THEN quiet_marks] enter_grant_marks [THEN quiet_marks]
  enter_revocation_marks [THEN quiet_marks] enter_retirement_marks [THEN quiet_marks]

lemma record_fence_quiet [quiet_rules]: "tx_quiet (record_fence pid boot reason note allow)"
  unfolding record_fence_def Let_def by (intro quiet_rules)

lemma fence_body_quiet: "tx_quiet (fence_body request)"
proof -
  have step: "tx_quiet (\<lambda>t. if tx_mutated t
      then (case find_participant (tx_impl t) pid of None \<Rightarrow> (Inr result, t)
        | Some j \<Rightarrow> tx_bind (tx_modify (u j)) (\<lambda>_. tx_return result) t)
      else (Inr result, t))" for pid u and result :: FenceResult
    by (auto simp: tx_quiet_def tx_simps split: option.splits if_splits)
  show ?thesis
    unfolding fence_body_def Let_def by (intro quiet_rules step)
qed

lemma apply_registration_quiet [quiet_rules]: "tx_quiet (apply_registration request c)"
  unfolding apply_registration_def finish_registration_def replace_incumbent_def
  by (intro quiet_rules)

lemma apply_registrations_quiet [quiet_rules]: "tx_quiet (apply_registrations requests)"
proof (induction requests)
  case Nil
  then show ?case by (simp add: quiet_rules)
next
  case (Cons request requests)
  then show ?case by (auto intro!: quiet_rules)
qed

lemma batch_body_quiet: "tx_quiet (batch_body requests)"
proof -
  have "tx_quiet (\<lambda>t. if tx_mutated t then tx_bind bump_generation (\<lambda>_. tx_return results) t
      else (Inr results, t))" for results :: "RegistrationResult list"
    by (auto simp: tx_quiet_def tx_simps bump_generation_def tx_next_def split: option.splits if_splits)
  then show ?thesis unfolding batch_body_def by (intro quiet_rules)
qed

lemma apply_grant_quiet: "tx_quiet (apply_grant env request)"
  unfolding apply_grant_def Let_def by (intro quiet_rules)

lemma apply_revoke_quiet: "tx_quiet (apply_revoke request)"
  unfolding apply_revoke_def Let_def by (intro quiet_rules)

lemma apply_retire_quiet: "tx_quiet (apply_retire request)"
  unfolding apply_retire_def Let_def by (intro quiet_rules)

section \<open>The durability barrier\<close>

lemma store_save_returns:
  "store_save options io st d = (Inr (), d') \<Longrightarrow>
     validate_durable_state st = Inr () \<and> (\<exists>img. store_encode st = Inr img \<and> image_file d' = Some img)"
  by (auto simp: store_save_def write_watermark_def res_bind_def Let_def store_encode_def
      split: sum.splits if_splits)

lemma store_save_image:
  "store_save options io st d = (r, d') \<Longrightarrow>
     image_file d' = image_file d \<or> (\<exists>img. store_encode st = Inr img \<and> image_file d' = Some img)"
  by (auto simp: store_save_def write_watermark_def res_bind_def Let_def
      split: sum.splits if_splits)

text \<open>What saving a state leaves on disk, once it has replaced the image.\<close>

definition image_saved :: "DurableState \<Rightarrow> disk \<Rightarrow> disk \<Rightarrow> bool" where
  "image_saved st d d' \<longleftrightarrow>
     (\<exists>img. store_encode st = Inr img \<and> image_file d' = Some img) \<and>
     watermark_file d' \<in> {watermark_file d, Some (map char_byte (watermark_text (st_current_epoch st)))}"

lemma store_save_disk:
  "store_save options io st d = (r, d') \<Longrightarrow> d' = d \<or> image_saved st d d'"
  by (auto simp: store_save_def write_watermark_def res_bind_def Let_def image_saved_def
      split: sum.splits if_splits)

definition committed :: "io \<Rightarrow> impl \<Rightarrow> impl" where
  "committed io s = rebuild_indexes (snd (save_impl io (canonicalize s)))"

text \<open>The state on disk is the state in memory, and the store accepts it.\<close>

definition saved :: "impl \<Rightarrow> bool" where
  "saved s \<longleftrightarrow>
     validate_durable_state (im_state s) = Inr () \<and>
     (\<exists>img. store_encode (im_state s) = Inr img \<and> image_file (im_disk s) = Some img)"

lemma rebuild_indexes_frame [frame_simps]:
  "im_state (rebuild_indexes s) = im_state s" "im_disk (rebuild_indexes s) = im_disk s"
  "im_options (rebuild_indexes s) = im_options s"
  "im_session_index (rebuild_indexes s) = im_session_index s"
  "im_boot_session_index (rebuild_indexes s) = im_boot_session_index s"
  by (simp_all add: rebuild_indexes_def)

lemma canonicalize_frame [frame_simps]:
  "im_disk (canonicalize s) = im_disk s" "im_options (canonicalize s) = im_options s"
  "im_session_index (canonicalize s) = im_session_index s"
  "im_boot_session_index (canonicalize s) = im_boot_session_index s"
  by (simp_all add: canonicalize_def)

lemma save_impl_frame [frame_simps]:
  "im_state (snd (save_impl io s)) = im_state s" "im_options (snd (save_impl io s)) = im_options s"
  "im_session_index (snd (save_impl io s)) = im_session_index s"
  "im_boot_session_index (snd (save_impl io s)) = im_boot_session_index s"
  by (simp_all add: save_impl_def split: prod.split)

lemma committed_frame [frame_simps]:
  "im_state (committed io s) = im_state (canonicalize s)"
  "im_options (committed io s) = im_options s"
  by (simp_all add: committed_def frame_simps)

lemma indexes_match_rebuild [simp]: "indexes_match (rebuild_indexes s)"
  by (simp add: indexes_match_def rebuild_indexes_def)

lemma indexes_match_committed [simp]: "indexes_match (committed io s)"
  by (simp add: committed_def)

lemma save_impl_returns: "save_impl io s = (Inr (), s') \<Longrightarrow> saved s'"
  using store_save_returns [of "store_options (im_options s)" io "im_state s" "im_disk s"]
  by (auto simp: save_impl_def saved_def split: prod.splits)

lemma save_impl_image:
  "save_impl io s = (r, s') \<Longrightarrow>
     image_file (im_disk s') = image_file (im_disk s) \<or>
     (\<exists>img. store_encode (im_state s) = Inr img \<and> image_file (im_disk s') = Some img)"
  using store_save_image [of "store_options (im_options s)" io "im_state s" "im_disk s"]
  by (auto simp: save_impl_def split: prod.splits)

lemma save_impl_disk:
  "save_impl io s = (r, s') \<Longrightarrow>
     im_disk s' = im_disk s \<or> image_saved (im_state s) (im_disk s) (im_disk s')"
  using store_save_disk [of "store_options (im_options s)" io "im_state s" "im_disk s"]
  by (auto simp: save_impl_def split: prod.splits)

lemma persist_returns:
  assumes "persist io t = (Inr x, t')"
  shows "tx_impl t' = committed io (tx_impl t) \<and> tx_undo t' = [] \<and> saved (tx_impl t')"
proof -
  let ?s = "canonicalize (tx_impl t)"
  obtain q u where save: "save_impl io ?s = (q, u)" by (cases "save_impl io ?s")
  with assms have q: "q = Inr ()"
    by (cases q) (simp_all add: persist_def Let_def)
  from save q have c: "committed io (tx_impl t) = rebuild_indexes u"
    by (simp add: committed_def)
  from assms save q have "t' = undo_commit ((t\<lparr> tx_impl := ?s \<rparr>)\<lparr> tx_impl := rebuild_indexes u \<rparr>)"
    by (simp add: persist_def Let_def)
  moreover from save q have "saved u" by (auto dest: save_impl_returns)
  then have "saved (rebuild_indexes u)" by (simp add: saved_def frame_simps)
  ultimately show ?thesis by (simp add: undo_commit_def c)
qed

section \<open>Operations\<close>

lemma run_tx_returns:
  assumes "tx_quiet body" "run_tx io body s = (Inr r, s')"
  obtains "s' = s" "body (begin_tx s) = (Inr r, begin_tx s)"
  | t where "body (begin_tx s) = (Inr r, t)" "tx_mutated t" "s' = committed io (tx_impl t)" "saved s'"
proof (cases "body (begin_tx s)")
  case (Pair q t)
  then obtain x where b: "body (begin_tx s) = (Inr x, t)"
    using assms(2) by (cases q) (auto simp: run_tx_def tx_bind_def end_tx_def)
  show ?thesis
  proof (cases "tx_mutated t")
    case True
    then have "end_tx (tx_bind (persist io) (\<lambda>_. tx_return x) t) = (Inr r, s')"
      using assms(2) b by (simp add: run_tx_def tx_bind_def [of body] persist_if_mutated_def)
    then obtain y t' where p: "persist io t = (Inr y, t')" and e: "end_tx (Inr x, t') = (Inr r, s')"
      by (cases "persist io t"; cases "fst (persist io t)")
        (auto simp: tx_bind_def tx_basic end_tx_def)
    from persist_returns [OF p] e
    have "s' = committed io (tx_impl t)" "saved s'" "x = r"
      by (auto simp: end_tx_def undo_rollback_def)
    with True b show ?thesis using that(2) by blast
  next
    case False
    with assms(1) b have "t = begin_tx s" by (rule tx_quietD)
    moreover have "end_tx (Inr x, t) = (Inr r, s')"
      using False assms(2) b by (simp add: run_tx_def tx_bind_def persist_if_mutated_def)
    ultimately show ?thesis
      using that(1) b by (auto simp: end_tx_def undo_rollback_def begin_tx_def)
  qed
qed

end
