(* ===== verification/Progress.thy ===== *)
theory Progress
  imports Commit
begin

text \<open>
  How the durable records move. \<open>state_le\<close> is the order in which every body of an operation moves them:
  the epoch and the generation do not go back, participants are not dropped, their incarnation
  allocator and fencing floor do not go back, an incarnation that is current afterwards was current
  before or was issued from the allocator in between, a retired participant stays retired and is issued
  none, and a grant stays what it is and stays
  revoked once it is revoked.
\<close>

section \<open>The order on durable records\<close>

definition currents :: "DurableParticipant \<Rightarrow> (WorkerBootId \<times> IncarnationSequence) list" where
  "currents p =
     (if dp_has_active_boot p then [(dp_active_boot p, dp_active_incarnation p)] else []) @
     map (\<lambda>i. (ai_boot i, ai_sequence i)) (dp_extra_incarnations p)"

definition participant_le :: "DurableParticipant \<Rightarrow> DurableParticipant \<Rightarrow> bool" where
  "participant_le p q \<longleftrightarrow>
     dp_id q = dp_id p \<and> dp_next_incarnation p \<le> dp_next_incarnation q \<and>
     dp_incarnation_floor p \<le> dp_incarnation_floor q \<and>
     (dp_retired p \<longrightarrow> dp_retired q \<and> set (currents q) \<subseteq> set (currents p)) \<and>
     set (currents q) \<subseteq> set (currents p) \<union> {(boot, n). dp_next_incarnation p \<le> n}"

definition participants_le :: "DurableParticipant list \<Rightarrow> DurableParticipant list \<Rightarrow> bool" where
  "participants_le ps qs \<longleftrightarrow>
     (\<forall>p \<in> set ps. \<exists>q \<in> set qs. participant_le p q) \<and>
     (\<forall>q \<in> set qs. (\<exists>p \<in> set ps. participant_le p q) \<or> dp_id q \<notin> dp_id ` set ps)"

definition grant_le :: "AuthorityGrant \<Rightarrow> AuthorityGrant \<Rightarrow> bool" where
  "grant_le g h \<longleftrightarrow>
     ag_id h = ag_id g \<and> ag_epoch h = ag_epoch g \<and> ag_participant h = ag_participant g \<and>
     ag_boot h = ag_boot g \<and> ag_incarnation h = ag_incarnation g \<and> ag_scopes h = ag_scopes g \<and>
     ag_parent h = ag_parent g \<and> (ag_revoked g \<longrightarrow> ag_revoked h)"

definition grants_le :: "AuthorityGrant list \<Rightarrow> AuthorityGrant list \<Rightarrow> bool" where
  "grants_le gs hs \<longleftrightarrow> length gs \<le> length hs \<and> (\<forall>k < length gs. grant_le (gs ! k) (hs ! k))"

definition state_le :: "DurableState \<Rightarrow> DurableState \<Rightarrow> bool" where
  "state_le st u \<longleftrightarrow>
     st_current_epoch st \<le> st_current_epoch u \<and> st_generation st \<le> st_generation u \<and>
     participants_le (st_participants st) (st_participants u) \<and>
     grants_le (st_grants st) (st_grants u)"

lemma participant_le_refl [simp]: "participant_le p p"
  by (auto simp: participant_le_def)

lemma participant_le_trans: "participant_le p q \<Longrightarrow> participant_le q r \<Longrightarrow> participant_le p r"
  unfolding participant_le_def by (auto dest: order_trans)

lemma participants_le_same_set: "set qs = set ps \<Longrightarrow> participants_le ps qs"
  unfolding participants_le_def by (metis participant_le_refl)

lemma participants_le_refl [simp]: "participants_le ps ps"
  by (rule participants_le_same_set) simp

lemma participants_le_trans:
  assumes "participants_le ps qs" "participants_le qs rs"
  shows "participants_le ps rs"
  unfolding participants_le_def
proof (intro conjI ballI)
  fix p assume "p \<in> set ps"
  then show "\<exists>r \<in> set rs. participant_le p r"
    using assms unfolding participants_le_def by (meson participant_le_trans)
next
  fix r assume r: "r \<in> set rs"
  show "(\<exists>p \<in> set ps. participant_le p r) \<or> dp_id r \<notin> dp_id ` set ps"
  proof (cases "\<exists>q \<in> set qs. participant_le q r")
    case True
    then obtain q where q: "q \<in> set qs" "participant_le q r" by blast
    with assms(1) have "(\<exists>p \<in> set ps. participant_le p q) \<or> dp_id q \<notin> dp_id ` set ps"
      by (simp add: participants_le_def)
    with q(2) show ?thesis by (metis participant_le_def participant_le_trans)
  next
    case False
    then have "dp_id r \<notin> dp_id ` set qs"
      using assms(2) r by (auto simp: participants_le_def)
    moreover have "dp_id ` set ps \<subseteq> dp_id ` set qs"
    proof
      fix pid assume "pid \<in> dp_id ` set ps"
      then obtain p where "p \<in> set ps" "pid = dp_id p" by blast
      moreover from this(1) obtain q where "q \<in> set qs" "participant_le p q"
        using assms(1) by (auto simp: participants_le_def)
      ultimately show "pid \<in> dp_id ` set qs" by (metis imageI participant_le_def)
    qed
    ultimately show ?thesis by blast
  qed
qed

lemma grant_le_refl [simp]: "grant_le g g"
  by (simp add: grant_le_def)

lemma grants_le_refl [simp]: "grants_le gs gs"
  by (simp add: grants_le_def)

lemma grants_le_trans: "grants_le gs hs \<Longrightarrow> grants_le hs is \<Longrightarrow> grants_le gs is"
  unfolding grants_le_def grant_le_def by auto

lemma state_le_refl [simp]: "state_le st st"
  by (simp add: state_le_def)

lemma state_le_trans: "state_le a b \<Longrightarrow> state_le b c \<Longrightarrow> state_le a c"
  unfolding state_le_def by (meson grants_le_trans order_trans participants_le_trans)

lemma participants_le_update:
  assumes "i < length ps \<Longrightarrow> participant_le (ps ! i) q"
  shows "participants_le ps (ps[i := q])"
proof (cases "i < length ps")
  case True
  then have le: "participant_le (ps ! j) (ps[i := q] ! j)" if "j < length ps" for j
    using assms by (cases "j = i") simp_all
  then show ?thesis
    unfolding participants_le_def by (metis in_set_conv_nth length_list_update)
qed (simp add: list_update_beyond)

lemma participants_le_map:
  assumes "\<And>p. p \<in> set ps \<Longrightarrow> participant_le p (f p)"
  shows "participants_le ps (map f ps)"
  using assms unfolding participants_le_def by fastforce

lemma participants_le_append: "dp_id q \<notin> dp_id ` set ps \<Longrightarrow> participants_le ps (ps @ [q])"
  using participant_le_refl unfolding participants_le_def by fastforce

lemma grants_le_append [simp]: "grants_le gs (gs @ [g])"
  by (simp add: grants_le_def nth_append)

lemma grants_le_update: "(i < length gs \<Longrightarrow> grant_le (gs ! i) h) \<Longrightarrow> grants_le gs (gs[i := h])"
  by (cases "i < length gs") (auto simp: grants_le_def nth_list_update)

section \<open>The order on runtimes\<close>

definition ids_known :: "impl \<Rightarrow> bool" where
  "ids_known s \<longleftrightarrow> (\<forall>pid \<in> set (map dp_id (im_participants s)). find_participant s pid \<noteq> None)"

context tx_relation
begin

lemma keeps_modify: "(\<And>s. P s (f s)) \<Longrightarrow> tx_keeps P (tx_modify f)"
  by (simp add: tx_keeps_def tx_simps)

lemma keeps_option:
  "tx_keeps P a \<Longrightarrow> (\<And>x. tx_keeps P (b x)) \<Longrightarrow> tx_keeps P (case r of None \<Rightarrow> a | Some x \<Rightarrow> b x)"
  by (cases r) simp_all

lemma keeps_if: "tx_keeps P a \<Longrightarrow> tx_keeps P b \<Longrightarrow> tx_keeps P (if c then a else b)"
  by simp

text \<open>A step whose update depends on the state that was read.\<close>

lemma keeps_get_bind:
  "(\<And>t. P (tx_impl t) (tx_impl (snd (f (tx_impl t) t)))) \<Longrightarrow> tx_keeps P (tx_bind tx_get f)"
  by (simp add: tx_keeps_def tx_simps)

lemma keeps_step: "tx_keeps P m \<Longrightarrow> P s (tx_impl t) \<Longrightarrow> P s (tx_impl (snd (m t)))"
  unfolding tx_keeps_def by (blast intro: rel_trans)

lemmas keeps_rules =
  keeps_return keeps_throw keeps_lift keeps_get keeps_push keeps_mutated keeps_next keeps_bind
  keeps_option keeps_if

end

text \<open>What every body keeps: the records move up, the rest of the runtime stays as it is.\<close>

definition progress :: "impl \<Rightarrow> impl \<Rightarrow> bool" where
  "progress s u \<longleftrightarrow>
     im_options u = im_options s \<and> im_disk u = im_disk s \<and>
     im_session_index u = im_session_index s \<and>
     im_boot_session_index u = im_boot_session_index s \<and>
     (ids_known s \<longrightarrow> ids_known u \<and> state_le (im_state s) (im_state u))"

interpretation progress: tx_relation progress
  by unfold_locales (auto simp: progress_def intro: state_le_trans)

text \<open>Retirement is changed by \<open>apply_retire\<close> alone: the other updates keep it at every position.\<close>

definition same_standing :: "impl \<Rightarrow> impl \<Rightarrow> bool" where
  "same_standing s u \<longleftrightarrow>
     length (im_participants u) = length (im_participants s) \<and>
     (\<forall>i < length (im_participants s). dp_retired (im_participants u ! i) = dp_retired (im_participants s ! i))"

interpretation standing: tx_relation same_standing
  by unfold_locales (auto simp: same_standing_def)

lemma find_participant_cong:
  "im_participant_index u = im_participant_index s \<Longrightarrow>
     length (im_participants u) = length (im_participants s) \<Longrightarrow>
     find_participant u pid = find_participant s pid"
  by (simp add: find_participant_def split: option.split)

lemma upd_participant_frame [frame_simps]:
  "im_participants (upd_participant i f s) = (im_participants s)[i := f (participant_at s i)]"
  "im_participant_index (upd_participant i f s) = im_participant_index s"
  "find_participant (upd_participant i f s) pid = find_participant s pid"
  "im_options (upd_participant i f s) = im_options s"
  "im_disk (upd_participant i f s) = im_disk s"
  "im_session_index (upd_participant i f s) = im_session_index s"
  "im_boot_session_index (upd_participant i f s) = im_boot_session_index s"
  "st_grants (im_state (upd_participant i f s)) = st_grants (im_state s)"
  "st_current_epoch (im_state (upd_participant i f s)) = st_current_epoch (im_state s)"
  "st_generation (im_state (upd_participant i f s)) = st_generation (im_state s)"
  by (simp_all add: upd_participant_def upd_state_def participant_at_def find_participant_def
      split: option.split)

lemma map_dp_id_update:
  "dp_id q = dp_id (ps ! i) \<Longrightarrow> map dp_id (ps[i := q]) = map dp_id ps"
  by (cases "i < length ps") (auto simp: map_update list_update_beyond, metis list_update_id nth_map)

lemma ids_known_cong:
  assumes "im_participant_index u = im_participant_index s"
    and "map dp_id (im_participants u) = map dp_id (im_participants s)"
  shows "ids_known u = ids_known s"
  using assms find_participant_cong [OF assms(1)] map_eq_imp_length_eq [OF assms(2)]
  unfolding ids_known_def by simp

lemma progressI:
  assumes "im_options u = im_options s" "im_disk u = im_disk s"
    and "im_session_index u = im_session_index s" "im_boot_session_index u = im_boot_session_index s"
    and "im_participant_index u = im_participant_index s"
    and "map dp_id (im_participants u) = map dp_id (im_participants s)"
    and "state_le (im_state s) (im_state u)"
  shows "progress s u"
  using assms ids_known_cong [OF assms(5,6)] by (simp add: progress_def)

lemma progress_upd_participant:
  assumes "participant_le (participant_at s i) (f (participant_at s i))"
  shows "progress s (upd_participant i f s)"
proof (rule progressI)
  show "map dp_id (im_participants (upd_participant i f s)) = map dp_id (im_participants s)"
    using assms unfolding frame_simps
    by (intro map_dp_id_update) (simp add: participant_le_def participant_at_def)
  have "participants_le (im_participants s) (im_participants (upd_participant i f s))"
    using assms by (auto simp: frame_simps participant_at_def intro: participants_le_update)
  then show "state_le (im_state s) (im_state (upd_participant i f s))"
    by (simp add: state_le_def frame_simps)
qed (simp_all add: frame_simps)

lemma progress_upd_state:
  assumes "\<And>st. st_participants (f st) = st_participants st" "\<And>st. st_grants (f st) = st_grants st"
    and "st_current_epoch (im_state s) \<le> st_current_epoch (f (im_state s))"
    and "st_generation (im_state s) \<le> st_generation (f (im_state s))"
  shows "progress s (upd_state f s)"
  using assms by (intro progressI) (simp_all add: upd_state_def state_le_def)

lemma progress_upd_grant:
  assumes "grant_le (st_grants (im_state s) ! k) (f (st_grants (im_state s) ! k))"
  shows "progress s (upd_grant k f s)"
  using assms
  by (intro progressI)
    (auto simp: upd_grant_def upd_state_def state_le_def intro: grants_le_update)

lemma standing_upd_participant:
  assumes "dp_retired (f (participant_at s i)) = dp_retired (participant_at s i)"
  shows "same_standing s (upd_participant i f s)"
  unfolding same_standing_def
proof (intro conjI allI impI)
  fix j assume "j < length (im_participants s)"
  then show "dp_retired (im_participants (upd_participant i f s) ! j) =
      dp_retired (im_participants s ! j)"
    using assms by (cases "j = i") (simp_all add: frame_simps participant_at_def)
qed (simp add: frame_simps)

lemma standing_participants: "im_participants u = im_participants s \<Longrightarrow> same_standing s u"
  by (simp add: same_standing_def)

lemma counter_le_next: "counter_next c = Some d \<Longrightarrow> c \<le> d"
  by (simp add: counter_next_eq_Some counter_le_iff)

section \<open>The generation counter\<close>

lemma bump_generation_progress: "tx_keeps progress bump_generation"
  unfolding bump_generation_def
  by (rule progress.keeps_get_bind)
    (auto simp: tx_simps tx_next_def progress.rel_refl set_generation_def state_le_def
      counter_le_next intro!: progressI split: option.split)

lemma bump_generation_standing: "tx_keeps same_standing bump_generation"
  unfolding bump_generation_def
  by (intro standing.keeps_rules standing.keeps_modify) (simp add: standing_participants set_generation_def)

section \<open>Fencing\<close>

lemma participant_le_idempotency [simp]: "participant_le p (p\<lparr> dp_idempotency := x \<rparr>)"
  by (auto simp: participant_le_def currents_def)

lemma participant_le_fence_generation [simp]: "participant_le p (p\<lparr> dp_fence_generation := x \<rparr>)"
  by (auto simp: participant_le_def currents_def)

lemma participant_le_fenced_boots [simp]: "participant_le p (p\<lparr> dp_fenced_boots := x \<rparr>)"
  by (auto simp: participant_le_def currents_def)

lemma participant_le_raise_floor [simp]: "participant_le p (raise_floor n p)"
  by (auto simp: participant_le_def currents_def raise_floor_def)

lemma currents_remove_live: "set (currents (remove_live boot p)) \<subseteq> set (currents p)"
  by (auto simp: currents_def remove_live_def split: list.split)

lemma participant_le_remove_live [simp]: "participant_le p (remove_live boot p)"
  using currents_remove_live [of boot p]
  by (auto simp: participant_le_def remove_live_def split: list.splits if_splits)

lemma set_fence_generation_progress: "progress s (set_fence_generation i g s)"
  unfolding set_fence_generation_def
  by (rule progress.rel_trans [OF progress_upd_state progress_upd_participant]) simp_all

lemma close_incarnation_progress: "progress s (close_incarnation i boot seq s)"
proof -
  have "progress s (upd_participant i (remove_live boot) s)"
    by (rule progress_upd_participant) simp
  then have "progress s ((upd_participant i (remove_live boot) s)\<lparr> im_active_workers := n \<rparr>)" for n
    by (rule progress.rel_trans) (rule progressI, simp_all)
  then show ?thesis
    unfolding close_incarnation_def
    by (rule progress.rel_trans) (rule progress_upd_participant, simp)
qed

lemma retain_fence_progress: "progress s (retain_fence i f s)"
  unfolding retain_fence_def
  by (rule progress.rel_trans [OF progress_upd_participant progress_upd_state]) simp_all

lemma retired_frame [simp]:
  "dp_retired (remove_live boot p) = dp_retired p" "dp_retired (raise_floor n p) = dp_retired p"
  by (simp_all add: remove_live_def raise_floor_def split: list.split)

lemma fence_steps_standing:
  "same_standing s (set_fence_generation i g s)" "same_standing s (close_incarnation i boot seq s)"
  "same_standing s (retain_fence i f s)"
proof -
  have upd: "same_standing (u\<lparr> im_active_workers := n \<rparr>) (upd_participant i g (u\<lparr> im_active_workers := n \<rparr>))"
    if "\<And>p. dp_retired (g p) = dp_retired p" for u n g
    using that by (intro standing_upd_participant) simp
  have work: "same_standing u (u\<lparr> im_active_workers := n \<rparr>)" for u n
    by (simp add: standing_participants)
  show "same_standing s (set_fence_generation i g s)"
    unfolding set_fence_generation_def
    by (rule standing.rel_trans [OF standing_participants standing_upd_participant])
      (simp_all add: upd_state_def)
  show "same_standing s (retain_fence i f s)"
    unfolding retain_fence_def
    by (rule standing.rel_trans [OF standing_upd_participant standing_participants])
      (simp_all add: upd_state_def)
  show "same_standing s (close_incarnation i boot seq s)"
    unfolding close_incarnation_def
    by (rule standing.rel_trans [OF standing_upd_participant standing.rel_trans [OF work upd]]) simp_all
qed

lemma defensive_fence_progress: "tx_keeps progress (defensive_fence i pid boot reason note)"
  unfolding defensive_fence_def Let_def
  by (intro progress.keeps_rules progress.keeps_modify bump_generation_progress
      set_fence_generation_progress progress_upd_state) simp_all

lemma live_fence_progress: "tx_keeps progress (live_fence i pid boot seq reason note)"
  unfolding live_fence_def Let_def
  by (intro progress.keeps_rules progress.keeps_modify bump_generation_progress
      set_fence_generation_progress close_incarnation_progress retain_fence_progress)

lemma record_fence_progress: "tx_keeps progress (record_fence pid boot reason note allow)"
  unfolding record_fence_def Let_def
  by (intro progress.keeps_rules live_fence_progress defensive_fence_progress)

lemma record_fence_standing: "tx_keeps same_standing (record_fence pid boot reason note allow)"
  unfolding record_fence_def live_fence_def defensive_fence_def Let_def
  by (intro standing.keeps_rules standing.keeps_modify bump_generation_standing
      fence_steps_standing standing_participants) (simp add: upd_state_def)

lemma remember_for_participant_progress: "progress s (remember_for_participant r i s)"
  unfolding remember_for_participant_def by (rule progress_upd_participant) simp

lemma fence_body_progress: "tx_keeps progress (fence_body request)"
proof -
  have step: "tx_keeps progress (\<lambda>t. if tx_mutated t
      then (case find_participant (tx_impl t) pid of None \<Rightarrow> (Inr result, t)
        | Some j \<Rightarrow> tx_bind (tx_modify (remember_for_participant (r result) j))
            (\<lambda>_. tx_return result) t)
      else (Inr result, t))" for pid r and result :: FenceResult
    by (auto simp: tx_keeps_def tx_simps progress.rel_refl remember_for_participant_progress
        split: option.splits)
  show ?thesis
    unfolding fence_body_def Let_def
    by (intro progress.keeps_rules record_fence_progress step)
qed

section \<open>Registration\<close>

lemma participant_le_issue:
  assumes "\<not> dp_retired p" "counter_next (dp_next_incarnation p) = Some n"
  shows "participant_le p (issue_incarnation request generation (dp_next_incarnation p) n p)"
  using assms
  by (auto simp: participant_le_def issue_incarnation_def Let_def currents_def
      dest: counter_le_next)

lemma enter_incarnation_progress:
  assumes "\<not> dp_retired (participant_at s i)"
    and "counter_next (dp_next_incarnation (participant_at s i)) = Some n"
  shows "progress s (enter_incarnation request digest i generation
    (dp_next_incarnation (participant_at s i)) n s)"
proof -
  let ?u = "upd_participant i (issue_incarnation request generation
    (dp_next_incarnation (participant_at s i)) n) s"
  have "progress s ?u"
    by (rule progress_upd_participant) (rule participant_le_issue [OF assms])
  then have "progress s (?u\<lparr> im_active_workers := a, im_boot_index := m \<rparr>)" for a m
    by (rule progress.rel_trans) (rule progressI, simp_all)
  then show ?thesis
    unfolding enter_incarnation_def Let_def
    by (rule progress.rel_trans) (rule remember_for_participant_progress)
qed

lemma issue_registration_progress:
  assumes "\<not> dp_retired (participant_at (tx_impl t) i)"
  shows "progress (tx_impl t) (tx_impl (snd (issue_registration request c digest i t)))"
proof -
  let ?s = "tx_impl t"
  have floor: "progress ?s (set_registration_floor g ?s)" for g
    unfolding set_registration_floor_def by (rule progress_upd_state) simp_all
  have enter: "progress ?s (enter_incarnation request digest i g
      (dp_next_incarnation (participant_at ?s i)) n (set_registration_floor g ?s))"
    if "counter_next (dp_next_incarnation (participant_at ?s i)) = Some n" for g n
    using enter_incarnation_progress [of "set_registration_floor g ?s" i n request digest g] that assms
    by (intro progress.rel_trans [OF floor])
      (simp add: set_registration_floor_def upd_state_def participant_at_def)
  have rest: "tx_keeps progress (tx_bind bump_generation
      (\<lambda>_. tx_bind tx_set_mutated (\<lambda>_. tx_return r)))" for r :: RegistrationResult
    by (intro progress.keeps_rules bump_generation_progress)
  show ?thesis
    unfolding issue_registration_def Let_def
    by (auto simp: tx_simps tx_next_def progress.rel_refl floor split: option.split
        intro!: progress.keeps_step [OF rest] enter)
qed

lemma add_participant_progress:
  assumes "dp_id p \<notin> dp_id ` set (im_participants s)"
  shows "progress s (add_participant p s)"
  unfolding progress_def
proof (intro conjI impI)
  assume known: "ids_known s"
  show "ids_known (add_participant p s)"
    unfolding ids_known_def
  proof
    fix pid assume "pid \<in> set (map dp_id (im_participants (add_participant p s)))"
    then have "pid = dp_id p \<or> pid \<noteq> dp_id p \<and> find_participant s pid \<noteq> None"
      using known by (auto simp: add_participant_def upd_state_def ids_known_def)
    then show "find_participant (add_participant p s) pid \<noteq> None"
      by (auto simp: find_participant_def add_participant_def upd_state_def fun_upd_apply
          split: option.splits if_splits dest: ParticipantId.expand)
  qed
  show "state_le (im_state s) (im_state (add_participant p s))"
    using assms by (simp add: state_le_def add_participant_def upd_state_def participants_le_append)
qed (simp_all add: add_participant_def upd_state_def)

lemma accept_registration_progress:
  assumes "found = None \<Longrightarrow> ids_known (tx_impl t) \<Longrightarrow>
      rp_participant request \<notin> dp_id ` set (im_participants (tx_impl t))"
    and "\<And>i. found = Some i \<Longrightarrow> \<not> dp_retired (participant_at (tx_impl t) i)"
  shows "progress (tx_impl t) (tx_impl (snd (accept_registration request c digest found t)))"
proof (cases found)
  case (Some i)
  let ?t = "t\<lparr> tx_undo := restore_participant (rp_participant request)
    (\<lambda>_. participant_at (tx_impl t) i) # tx_undo t \<rparr>"
  show ?thesis
    using issue_registration_progress [of ?t i request c digest] assms(2) [OF Some]
    by (simp add: accept_registration_def open_record_def Some Let_def tx_simps)
next
  case None
  let ?s = "tx_impl t" and ?p = "fresh_participant request"
  let ?t = "t\<lparr> tx_impl := add_participant ?p ?s, tx_undo := pop_participant # tx_undo t \<rparr>"
  have id: "dp_id ?p = rp_participant request" "\<not> dp_retired ?p" by (simp_all add: fresh_participant_def)
  have "progress (tx_impl ?t) (tx_impl (snd (issue_registration request c digest
      (length (im_participants ?s)) ?t)))"
    by (rule issue_registration_progress)
      (simp add: participant_at_def add_participant_def upd_state_def id)
  then have step: "progress (add_participant ?p ?s) (tx_impl (snd (accept_registration request c
      digest found t)))"
    by (simp add: accept_registration_def open_record_def None tx_simps)
  show ?thesis
  proof (cases "ids_known ?s")
    case True
    then show ?thesis
      using assms(1) [OF None] id
      by (intro progress.rel_trans [OF add_participant_progress step]) simp
  next
    case False
    then show ?thesis
      using step by (simp add: progress_def add_participant_def upd_state_def)
  qed
qed

lemma find_participant_known:
  "ids_known s \<Longrightarrow> find_participant s pid = None \<Longrightarrow> pid \<notin> dp_id ` set (im_participants s)"
  unfolding ids_known_def by auto

lemma find_participant_less: "find_participant s pid = Some i \<Longrightarrow> i < length (im_participants s)"
  by (auto simp: find_participant_def split: option.splits if_splits)

lemma registration_screen_not_retired:
  assumes "registration_screen s request = None" "find_participant s (rp_participant request) = Some i"
  shows "\<not> dp_retired (participant_at s i)"
  using assms
  by (auto simp: registration_screen_def registration_known_def Let_def split: option.splits if_splits)

lemma finish_registration_progress:
  assumes "found = None \<Longrightarrow> ids_known (tx_impl t) \<Longrightarrow>
      rp_participant request \<notin> dp_id ` set (im_participants (tx_impl t))"
    and "\<And>i. found = Some i \<Longrightarrow> \<not> dp_retired (participant_at (tx_impl t) i)"
  shows "progress (tx_impl t) (tx_impl (snd (finish_registration request c digest found t)))"
  using accept_registration_progress [OF assms, where c = c and digest = digest]
  by (simp add: finish_registration_def tx_simps progress.rel_refl split: option.split)

lemma replace_incumbent_progress: "tx_keeps progress (replace_incumbent request i)"
  unfolding replace_incumbent_def by (intro progress.keeps_rules record_fence_progress)

lemma replace_incumbent_standing: "tx_keeps same_standing (replace_incumbent request i)"
  unfolding replace_incumbent_def by (intro standing.keeps_rules record_fence_standing)

lemma apply_registration_progress: "tx_keeps progress (apply_registration request c)"
  unfolding tx_keeps_def
proof
  fix t :: txn
  let ?s = "tx_impl t" and ?pid = "rp_participant request"
  have replace: "progress ?s (tx_impl (snd (tx_bind (replace_incumbent request i) (\<lambda>refused.
      case refused of None \<Rightarrow> finish_registration request c digest (Some i)
      | Some r \<Rightarrow> tx_return r) t)))"
    if "\<not> dp_retired (participant_at ?s i)" "i < length (im_participants ?s)" for i digest
  proof (cases "replace_incumbent request i t")
    case (Pair r t')
    have le: "progress ?s (tx_impl t')" "same_standing ?s (tx_impl t')"
      using replace_incumbent_progress replace_incumbent_standing Pair
      unfolding tx_keeps_def by (metis snd_conv)+
    then have "\<not> dp_retired (participant_at (tx_impl t') i)"
      using that by (simp add: same_standing_def participant_at_def)
    then have "progress (tx_impl t') (tx_impl (snd (finish_registration request c digest (Some i) t')))"
      by (intro finish_registration_progress) auto
    with le(1) show ?thesis
      using Pair by (cases r) (auto simp: tx_bind_def tx_basic intro: progress.rel_trans split: option.split)
  qed
  have new: "progress ?s (tx_impl (snd (finish_registration request c digest None t)))"
    if "find_participant ?s ?pid = None" for digest
    using that by (intro finish_registration_progress) (auto dest: find_participant_known)
  show "progress ?s (tx_impl (snd (apply_registration request c t)))"
    unfolding apply_registration_def
    by (cases "register_digest request")
      (auto simp: tx_simps progress.rel_refl new replace registration_screen_not_retired
        find_participant_less split: option.split)
qed

lemma apply_registrations_progress: "tx_keeps progress (apply_registrations requests)"
proof (induction requests)
  case Nil
  then show ?case by (simp add: progress.keeps_return)
next
  case (Cons request requests)
  then show ?case by (auto intro!: progress.keeps_rules apply_registration_progress)
qed

lemma batch_body_progress: "tx_keeps progress (batch_body requests)"
proof -
  have "tx_keeps progress (\<lambda>t. if tx_mutated t then tx_bind bump_generation (\<lambda>_. tx_return results) t
      else (Inr results, t))" for results :: "RegistrationResult list"
    using progress.keeps_bind [OF bump_generation_progress progress.keeps_return [of results]]
    by (simp add: tx_keeps_def progress.rel_refl)
  then show ?thesis
    unfolding batch_body_def by (intro progress.keeps_rules apply_registrations_progress)
qed

section \<open>Grants\<close>

lemma append_grant_progress: "progress s (append_grant g s)"
  by (rule progressI) (simp_all add: append_grant_def upd_state_def Let_def state_le_def)

lemma stamp_grant_progress: "progress s (stamp_grant k s)"
  unfolding stamp_grant_def by (rule progress_upd_grant) (simp add: grant_le_def)

lemma mark_revoked_progress: "progress s (mark_revoked k s)"
  unfolding mark_revoked_def by (rule progress_upd_grant) (simp add: grant_le_def)

lemma revoke_walk_progress: "progress s (snd (snd (revoke_walk fuel root pending n s)))"
proof (induction fuel root pending n s rule: revoke_walk.induct)
  case (3 fuel root current pending revoked s)
  have "progress s (snd (snd (revoke_walk fuel root ps m (mark_revoked k s))))"
    if "progress (mark_revoked k s) (snd (snd (revoke_walk fuel root ps m (mark_revoked k s))))" for k ps m
    using mark_revoked_progress that by (rule progress.rel_trans)
  with 3 show ?case
    by (auto simp: Let_def split: option.split)
qed (simp_all add: progress.rel_refl)

lemma remember_control_progress: "progress s (remember_control r s)"
  unfolding remember_control_def by (rule progress_upd_state) simp_all

lemma enter_grant_progress: "tx_keeps progress (enter_grant request digest i gid)"
  unfolding enter_grant_def Let_def
  by (intro progress.keeps_rules progress.keeps_modify append_grant_progress stamp_grant_progress
      bump_generation_progress remember_for_participant_progress)

lemma apply_grant_progress: "tx_keeps progress (apply_grant env request)"
  unfolding apply_grant_def Let_def by (intro progress.keeps_rules enter_grant_progress)

lemma enter_revocation_progress: "tx_keeps progress (enter_revocation request digest k)"
  unfolding tx_keeps_def
proof
  fix t :: txn
  let ?s = "tx_impl t" and ?g = "st_grants (im_state (tx_impl t)) ! k"
  obtain p n u where walk: "revoke_walk (walk_fuel ?s) (ag_id ?g) [ag_id ?g] 0 ?s = (p, n, u)"
    by (cases "revoke_walk (walk_fuel ?s) (ag_id ?g) [ag_id ?g] 0 ?s")
  then have u: "progress ?s u"
    using revoke_walk_progress [of ?s "walk_fuel ?s" "ag_id ?g" "[ag_id ?g]" 0] by simp
  have rest: "tx_keeps progress (tx_bind bump_generation (\<lambda>_. tx_bind (tx_modify (stamp_grant k))
      (\<lambda>_. tx_bind tx_get (\<lambda>u. tx_bind (tx_modify (remember_control (f u)))
      (\<lambda>_. tx_bind tx_set_mutated (\<lambda>_. tx_return (h u)))))))" for f and h :: "impl \<Rightarrow> RevokeResult"
    by (intro progress.keeps_rules progress.keeps_modify bump_generation_progress
        stamp_grant_progress remember_control_progress)
  show "progress ?s (tx_impl (snd (enter_revocation request digest k t)))"
    by (simp add: enter_revocation_def tx_basic tx_bind_apply walk Let_def u
        progress.keeps_step [OF rest])
qed

lemma apply_revoke_progress: "tx_keeps progress (apply_revoke request)"
  unfolding apply_revoke_def Let_def by (intro progress.keeps_rules enter_revocation_progress)

section \<open>Retirement\<close>

lemma participant_le_close_allocator [simp]: "participant_le p (close_allocator p)"
proof -
  have "participant_le p (q\<lparr> dp_retired := True, dp_revalidation_required := False \<rparr>)"
    if "participant_le p q" for q
    using that by (auto simp: participant_le_def currents_def)
  then show ?thesis by (simp add: close_allocator_def Let_def)
qed

lemma fence_all_progress: "tx_keeps progress (fence_all request boots count)"
proof (induction boots arbitrary: count)
  case Nil
  then show ?case by (simp add: progress.keeps_return)
next
  case (Cons boot boots)
  then show ?case by (auto intro!: progress.keeps_rules record_fence_progress)
qed

lemma enter_retirement_progress: "tx_keeps progress (enter_retirement request digest i)"
  unfolding enter_retirement_def
  by (intro progress.keeps_rules progress.keeps_modify fence_all_progress bump_generation_progress
      remember_for_participant_progress progress_upd_participant) simp

lemma apply_retire_progress: "tx_keeps progress (apply_retire request)"
  unfolding apply_retire_def Let_def by (intro progress.keeps_rules enter_retirement_progress)

section \<open>Epochs\<close>

lemma invalidate_participant_currents [simp]: "currents (invalidate_participant p) = []"
  by (simp add: currents_def invalidate_participant_def)

lemma participant_le_invalidate [simp]: "participant_le p (invalidate_participant p)"
  by (simp add: participant_le_def) (simp add: invalidate_participant_def)

lemma enter_epoch_progress:
  assumes "counter_next (st_current_epoch (im_state s)) = Some e"
    and "counter_next (st_generation (im_state s)) = Some g"
  shows "progress s (set_epoch e boot s)" "progress s (enter_epoch g invalidate (set_epoch e boot s))"
proof -
  show "progress s (set_epoch e boot s)"
    unfolding set_epoch_def
    by (rule progress_upd_state) (simp_all add: counter_le_next [OF assms(1)])
  show "progress s (enter_epoch g invalidate (set_epoch e boot s))"
    by (rule progressI)
      (simp_all add: enter_epoch_def set_epoch_def upd_state_def state_le_def participants_le_map
        counter_le_next [OF assms(1)] counter_le_next [OF assms(2)] invalidate_participant_def o_def
        participant_le_invalidate [unfolded invalidate_participant_def])
qed

lemma push_transition_progress: "progress s (push_transition tr s)"
  unfolding push_transition_def by (rule progress_upd_state) simp_all

lemma mutate_epoch_progress: "tx_keeps progress (mutate_epoch env boot cause invalidate)"
  unfolding tx_keeps_def
proof
  fix t :: txn
  let ?s = "tx_impl t"
  have set_only: "progress ?s (set_epoch e boot ?s)"
    if "counter_next (st_current_epoch (im_state ?s)) = Some e" for e
    unfolding set_epoch_def
    by (rule progress_upd_state) (simp_all add: counter_le_next [OF that])
  show "progress ?s (tx_impl (snd (mutate_epoch env boot cause invalidate t)))"
    by (cases "en_transition env")
      (auto simp: mutate_epoch_def tx_simps tx_next_def Let_def progress.rel_refl set_only
        enter_epoch_progress split: option.split
        intro: progress.rel_trans [OF enter_epoch_progress(2) push_transition_progress])
qed

text \<open>A participant has a current incarnation when some boot holds one.\<close>

lemma has_current_iff: "has_current_incarnation p \<longleftrightarrow> currents p \<noteq> []"
  by (auto simp: has_current_incarnation_def currents_def)

lemma currents_boots: "map fst (currents p) = participant_boots p"
  by (simp add: currents_def participant_boots_def)

lemma find_SomeD: "find P xs = Some x \<Longrightarrow> x \<in> set xs \<and> P x"
  by (auto simp: find_Some_iff)

lemma find_incarnation_current:
  "find_incarnation p boot = Some n \<Longrightarrow> (boot, n) \<in> set (currents p)"
  unfolding find_incarnation_def currents_def
  by (auto split: if_splits dest!: find_SomeD intro: rev_image_eqI)

lemma find_incarnation_None:
  "find_incarnation p boot = None \<longleftrightarrow> boot \<notin> set (participant_boots p)"
  by (auto simp: find_incarnation_def participant_boots_def find_None_iff)

lemma find_incarnation_iff:
  assumes "distinct (participant_boots p)"
  shows "find_incarnation p boot = Some n \<longleftrightarrow> (boot, n) \<in> set (currents p)"
proof
  assume cur: "(boot, n) \<in> set (currents p)"
  then have "boot \<in> set (participant_boots p)" by (metis currents_boots fst_conv image_eqI set_map)
  then obtain m where m: "find_incarnation p boot = Some m"
    using find_incarnation_None [of p boot] by (cases "find_incarnation p boot") auto
  then have "(boot, m) \<in> set (currents p)" by (rule find_incarnation_current)
  moreover have "distinct (map fst (currents p))" using assms by (simp add: currents_boots)
  ultimately have "m = n" using cur by (meson eq_key_imp_eq_value)
  with m show "find_incarnation p boot = Some n" by simp
qed (rule find_incarnation_current)

end
