(* ===== verification/Failure.thy ===== *)
theory Failure
  imports Progress
begin

text \<open>
  What an operation that throws leaves on disk: the image that was there, or the image of the state
  the operation was committing. Undo actions never touch the disk.
\<close>

section \<open>Undo actions leave the disk alone\<close>

definition disk_kept :: "(impl \<Rightarrow> impl) \<Rightarrow> bool" where
  "disk_kept a \<longleftrightarrow> (\<forall>s. im_disk (a s) = im_disk s)"

definition tx_disk :: "'a tx \<Rightarrow> bool" where
  "tx_disk m \<longleftrightarrow> (\<forall>t. list_all disk_kept (tx_undo t) \<longrightarrow> list_all disk_kept (tx_undo (snd (m t))))"

named_theorems disk_rules

lemma disk_basic [disk_rules]:
  "tx_disk (tx_return x)" "tx_disk (tx_throw e)" "tx_disk (tx_lift r)" "tx_disk tx_get"
  "tx_disk (tx_next c msg)" "tx_disk (tx_modify f)" "tx_disk tx_set_mutated"
  by (simp_all add: tx_disk_def tx_basic tx_next_def split: option.split)

lemma disk_push [disk_rules]: "disk_kept a \<Longrightarrow> tx_disk (tx_push_undo a)"
  by (simp add: tx_disk_def tx_basic)

lemma disk_bind [disk_rules]: "tx_disk m \<Longrightarrow> (\<And>x. tx_disk (f x)) \<Longrightarrow> tx_disk (tx_bind m f)"
  by (fastforce simp: tx_disk_def tx_bind_def split: prod.splits sum.splits)

lemma disk_option [disk_rules]:
  "tx_disk a \<Longrightarrow> (\<And>x. tx_disk (b x)) \<Longrightarrow> tx_disk (case r of None \<Rightarrow> a | Some x \<Rightarrow> b x)"
  by (cases r) simp_all

lemma disk_if [disk_rules]: "tx_disk a \<Longrightarrow> tx_disk b \<Longrightarrow> tx_disk (if c then a else b)"
  by simp

lemma disk_state [simp]:
  "im_disk (upd_state f s) = im_disk s" "im_disk (upd_participant i g s) = im_disk s"
  "im_disk (upd_grant k h s) = im_disk s" "im_disk (restore_participant pid g s) = im_disk s"
  by (simp_all add: upd_state_def upd_participant_def upd_grant_def restore_participant_def
      split: option.split)

lemma restore_walk_disk [simp]: "im_disk (snd (restore_walk fuel pending s)) = im_disk s"
  by (induction fuel pending s rule: restore_walk.induct) (simp_all add: mark_live_def split: option.split)

lemma undo_disk_kept [disk_rules]:
  "disk_kept (set_generation g)" "disk_kept (set_registration_floor g')"
  "disk_kept (undo_defensive_fence st p)" "disk_kept (undo_live_fence before p)"
  "disk_kept (restore_participant pid f)" "disk_kept pop_participant" "disk_kept pop_grant"
  "disk_kept (undo_revoke before g'')" "disk_kept (undo_retire pid p)" "disk_kept (undo_epoch st)"
  by (simp_all add: disk_kept_def set_generation_def set_registration_floor_def
      undo_defensive_fence_def undo_live_fence_def pop_participant_def pop_grant_def
      undo_revoke_def Let_def restore_revocations_def undo_retire_def undo_epoch_def split: option.split)

lemma bump_generation_disk [disk_rules]: "tx_disk bump_generation"
  unfolding bump_generation_def by (intro disk_rules)

lemma record_fence_disk [disk_rules]: "tx_disk (record_fence pid boot reason note allow)"
  unfolding record_fence_def live_fence_def defensive_fence_def Let_def by (intro disk_rules)

lemma fence_body_disk: "tx_disk (fence_body request)"
proof -
  have step: "tx_disk (\<lambda>t. if tx_mutated t
      then (case find_participant (tx_impl t) pid of None \<Rightarrow> (Inr result, t)
        | Some j \<Rightarrow> tx_bind (tx_modify (u j)) (\<lambda>_. tx_return result) t)
      else (Inr result, t))" for pid u and result :: FenceResult
    by (simp add: tx_disk_def tx_simps split: option.split)
  show ?thesis
    unfolding fence_body_def Let_def by (intro disk_rules step)
qed

lemma apply_registration_disk [disk_rules]: "tx_disk (apply_registration request c)"
  unfolding apply_registration_def finish_registration_def replace_incumbent_def
    accept_registration_def open_record_def issue_registration_def Let_def
  by (intro disk_rules)

lemma apply_registrations_disk [disk_rules]: "tx_disk (apply_registrations requests)"
proof (induction requests)
  case Nil
  then show ?case by (simp add: disk_rules)
next
  case (Cons request requests)
  then show ?case by (auto intro!: disk_rules)
qed

lemma batch_body_disk: "tx_disk (batch_body requests)"
proof -
  have "tx_disk (tx_bind bump_generation (\<lambda>_. tx_return results))" for results :: "RegistrationResult list"
    by (intro disk_rules)
  then have step: "tx_disk (\<lambda>t. if tx_mutated t then tx_bind bump_generation (\<lambda>_. tx_return results) t
      else (Inr results, t))" for results :: "RegistrationResult list"
    by (simp add: tx_disk_def)
  show ?thesis unfolding batch_body_def by (intro disk_bind apply_registrations_disk step)
qed

lemma apply_grant_disk: "tx_disk (apply_grant env request)"
  unfolding apply_grant_def enter_grant_def Let_def by (intro disk_rules)

lemma apply_revoke_disk: "tx_disk (apply_revoke request)"
  unfolding apply_revoke_def enter_revocation_def Let_def case_prod_beta by (intro disk_rules)

lemma fence_all_disk [disk_rules]: "tx_disk (fence_all request boots count)"
proof (induction boots arbitrary: count)
  case Nil
  then show ?case by (simp add: disk_rules)
next
  case (Cons boot boots)
  then show ?case by (auto intro!: disk_rules)
qed

lemma apply_retire_disk: "tx_disk (apply_retire request)"
  unfolding apply_retire_def enter_retirement_def Let_def by (intro disk_rules)

lemma mutate_epoch_disk [disk_rules]: "tx_disk (mutate_epoch env boot cause invalidate)"
  unfolding mutate_epoch_def Let_def by (intro disk_rules)

section \<open>The disk after a failure\<close>

lemma rollback_disk:
  assumes "list_all disk_kept (tx_undo t)"
  shows "im_disk (tx_impl (undo_rollback t)) = im_disk (tx_impl t)"
proof -
  have "im_disk (foldl (\<lambda>s a. a s) s as) = im_disk s" if "list_all disk_kept as" for s as
    using that by (induction as arbitrary: s) (simp_all add: disk_kept_def)
  with assms show ?thesis by (simp add: undo_rollback_def)
qed

text \<open>The disk is as it was, or a state that the operation was committing has been saved to it.\<close>

definition disk_moves :: "(DurableState \<Rightarrow> bool) \<Rightarrow> impl \<Rightarrow> disk \<Rightarrow> bool" where
  "disk_moves Q s d \<longleftrightarrow>
     d = im_disk s \<or> (\<exists>st. Q st \<and> image_saved st (im_disk s) d)"

text \<open>The states that the body of an operation may have committed.\<close>

definition wrote :: "'a tx \<Rightarrow> impl \<Rightarrow> DurableState \<Rightarrow> bool" where
  "wrote body s st \<longleftrightarrow>
     (\<exists>x t. body (begin_tx s) = (Inr x, t) \<and> st = im_state (canonicalize (tx_impl t)))"

text \<open>In particular, the image is the old one or that of a state above the one in memory.\<close>

definition disk_follows :: "impl \<Rightarrow> disk \<Rightarrow> bool" where
  "disk_follows s d \<longleftrightarrow>
     image_file d = image_file (im_disk s) \<or>
     (\<exists>st img. (ids_known s \<longrightarrow> state_le (im_state s) st) \<and> store_encode st = Inr img \<and>
        image_file d = Some img)"

lemma disk_moves_mono: "disk_moves Q s d \<Longrightarrow> (\<And>st. Q st \<Longrightarrow> R st) \<Longrightarrow> disk_moves R s d"
  unfolding disk_moves_def by blast

lemma disk_follows_moves:
  "disk_moves (\<lambda>st. ids_known s \<longrightarrow> state_le (im_state s) st) s d \<Longrightarrow> disk_follows s d"
  by (auto simp: disk_follows_def disk_moves_def image_saved_def)

lemma canonicalize_le: "state_le st (im_state (canonicalize s)) \<longleftrightarrow> state_le st (im_state s)"
proof -
  have set: "set (im_participants (canonicalize s)) = set (im_participants s)"
    by (simp add: canonicalize_def)
  have "participants_le ps (im_participants (canonicalize s)) \<longleftrightarrow> participants_le ps (im_participants s)"
    for ps
    unfolding participants_le_def set ..
  then show ?thesis
    by (simp add: state_le_def canonicalize_def)
qed

lemma wrote_le:
  assumes "tx_keeps progress body" "wrote body s st" "ids_known s"
  shows "state_le (im_state s) st"
proof -
  obtain x t where t: "body (begin_tx s) = (Inr x, t)" "st = im_state (canonicalize (tx_impl t))"
    using assms(2) by (auto simp: wrote_def)
  have "progress s (tx_impl t)"
    using assms(1) t(1) by (auto simp: tx_keeps_def begin_tx_def dest: spec [of _ "begin_tx s"])
  with assms(3) t(2) show ?thesis by (simp add: progress_def canonicalize_le)
qed

lemma wrote_follows:
  "tx_keeps progress body \<Longrightarrow> disk_moves (wrote body s) s d \<Longrightarrow> disk_follows s d"
  using wrote_le by (blast intro: disk_follows_moves disk_moves_mono)

lemma persist_moves:
  assumes "list_all disk_kept (tx_undo t)" "persist io t = (r, t')"
    and "im_disk (tx_impl t) = im_disk s" "Q (im_state (canonicalize (tx_impl t)))"
  shows "disk_moves Q s (im_disk (tx_impl (undo_rollback t')))"
proof -
  let ?c = "canonicalize (tx_impl t)"
  obtain q u where save: "save_impl io ?c = (q, u)" by (cases "save_impl io ?c")
  have undo: "list_all disk_kept (tx_undo t')"
    using assms(1,2) save
    by (cases q) (auto simp: persist_def Let_def undo_rollback_def undo_commit_def)
  have "im_disk (tx_impl t') = im_disk u"
  proof (cases q)
    case (Inl e)
    then show ?thesis
      using assms(1,2) save rollback_disk [of "(t\<lparr> tx_impl := ?c \<rparr>)\<lparr> tx_impl := u \<rparr>"]
      by (auto simp: persist_def Let_def frame_simps)
  next
    case (Inr x)
    then show ?thesis
      using assms(2) save by (auto simp: persist_def Let_def undo_commit_def frame_simps)
  qed
  moreover have "im_disk u = im_disk ?c \<or> image_saved (im_state ?c) (im_disk ?c) (im_disk u)"
    using save by (rule save_impl_disk)
  moreover have "im_disk ?c = im_disk s"
    using assms(3) by (simp add: frame_simps)
  ultimately show ?thesis
    using rollback_disk [OF undo] assms(4) unfolding disk_moves_def by metis
qed

lemma run_tx_moves:
  assumes "tx_disk body" "tx_keeps progress body" "run_tx io body s = (r, s')"
  shows "disk_moves (wrote body s) s (im_disk s')"
proof (cases "body (begin_tx s)")
  case (Pair q t)
  have undo: "list_all disk_kept (tx_undo t)"
    using assms(1) Pair by (auto simp: tx_disk_def begin_tx_def dest: spec [of _ "begin_tx s"])
  have disk: "im_disk (tx_impl t) = im_disk s"
    using assms(2) Pair by (auto simp: tx_keeps_def begin_tx_def progress_def dest: spec [of _ "begin_tx s"])
  then have stop: "disk_moves (wrote body s) s (im_disk (tx_impl (undo_rollback t)))"
    using rollback_disk [OF undo] by (simp add: disk_moves_def)
  have commit: "disk_moves (wrote body s) s (im_disk (tx_impl (undo_rollback t'')))"
    if "q = Inr x" "tx_bind (persist io) (\<lambda>_. tx_return x) t = (r', t'')" for x and r' t''
  proof -
    have "wrote body s (im_state (canonicalize (tx_impl t)))"
      using Pair that(1) by (auto simp: wrote_def)
    from persist_moves [OF undo _ disk, where io = io and Q = "wrote body s"] this that(2) show ?thesis
      by (cases "persist io t"; cases "fst (persist io t)") (auto simp: tx_bind_def tx_basic)
  qed
  with stop show ?thesis
    using assms(3) Pair
    by (cases q) (auto simp: run_tx_def tx_bind_def [of body] persist_if_mutated_def end_tx_def
        split: if_splits prod.splits)
qed

lemma run_tx_disk:
  assumes "tx_disk body" "tx_keeps progress body" "run_tx io body s = (r, s')"
  shows "disk_follows s (im_disk s')"
  using assms(2) run_tx_moves [OF assms] by (rule wrote_follows)

end
