(* ===== verification/System.thy ===== *)
theory System
  imports Requests Failure Faithful Queries
begin

text \<open>
  The life of a coordinator: a process that opens the store, performs requests and stops. The step relation
  \<open>coordinator_step\<close> is the whole of it: a request returns or throws, and in both cases the process runs on with the
  runtime the request left (\<open>serve\<close> of \<open>server.cpp\<close> ends the session of a request that threw, and nothing else); it may
  crash at any moment, and be started again on what is on disk.

  After a request that threw, the memory of the runtime is what its undo log made of it, and this is not always what
  was there before (a failed commit of a new participant, of a revocation, or one that dropped the oldest entry of a
  full ring; \<open>Undo\<close> shows the commits that are undone). \<open>guarded_step\<close> has the steps up to the first request whose effect
  on the records survives its exception: a request that throws and is \<open>undone\<close> leaves a coordinator that runs on, and one that
  throws and is not leaves what it put on disk for the next start. The main results compare two states of one such life,
  across any number of failed requests, crashes and restarts.
\<close>

section \<open>Steps\<close>

datatype node = Running impl | Stopped disk

inductive coordinator_step :: "node \<Rightarrow> node \<Rightarrow> bool" where
  request: "perform q s = (r, s') \<Longrightarrow> coordinator_step (Running s) (Running s')"
| crash: "coordinator_step (Running s) (Stopped (im_disk s))"
| start: "open_runtime env opts d = (Inr s, d') \<Longrightarrow> coordinator_step (Stopped d) (Running s)"
| refuse: "open_runtime env opts d = (Inl e, d') \<Longrightarrow> coordinator_step (Stopped d) (Stopped d')"

inductive_cases from_running: "coordinator_step (Running s) n"
inductive_cases from_stopped: "coordinator_step (Stopped d) n"

abbreviation lives :: "node \<Rightarrow> node \<Rightarrow> bool" where
  "lives \<equiv> coordinator_step\<^sup>*\<^sup>*"

lemma perform_all_lives: "lives (Running s) (Running (perform_all qs s))"
proof (induction qs arbitrary: s)
  case (Cons q qs)
  have "coordinator_step (Running s) (Running (snd (perform q s)))"
    by (rule coordinator_step.request [OF surjective_pairing])
  with Cons show ?case by (simp add: converse_rtranclp_into_rtranclp)
qed simp

text \<open>
  The records without the tables of attempts. Those are entered after the change they stand for, and no undo action
  takes them out again, so that a request that throws may leave one behind.
\<close>

definition without_attempts :: "DurableState \<Rightarrow> DurableState" where
  "without_attempts st =
     st\<lparr> st_participants := map (\<lambda>p. p\<lparr> dp_idempotency := [] \<rparr>) (st_participants st), st_control_attempts := [] \<rparr>"

text \<open>Nothing of a request is left in memory but attempts. (Sessions may be: closing one erases it before it fences.)\<close>

definition undone :: "impl \<Rightarrow> impl \<Rightarrow> bool" where
  "undone s s' \<longleftrightarrow>
     without_attempts (im_state s') = without_attempts (im_state s) \<and>
     im_participant_index s' = im_participant_index s \<and> im_boot_index s' = im_boot_index s \<and>
     im_fence_index s' = im_fence_index s \<and> im_grant_index s' = im_grant_index s \<and>
     im_grant_children s' = im_grant_children s \<and> im_active_workers s' = im_active_workers s"

inductive guarded_step :: "(request \<Rightarrow> bool) \<Rightarrow> node \<Rightarrow> node \<Rightarrow> bool" for ok where
  serve: "ok q \<Longrightarrow> perform q s = (Inr (), s') \<Longrightarrow> guarded_step ok (Running s) (Running s')"
| fail: "ok q \<Longrightarrow> perform q s = (Inl e, s') \<Longrightarrow> undone s s' \<Longrightarrow> guarded_step ok (Running s) (Running s')"
| die: "ok q \<Longrightarrow> perform q s = (Inl e, s') \<Longrightarrow> guarded_step ok (Running s) (Stopped (im_disk s'))"
| crash: "guarded_step ok (Running s) (Stopped (im_disk s))"
| start: "open_runtime env opts d = (Inr s, d') \<Longrightarrow> guarded_step ok (Stopped d) (Running s)"
| refuse: "open_runtime env opts d = (Inl e, d') \<Longrightarrow> guarded_step ok (Stopped d) (Stopped d')"

abbreviation guarded_lives :: "(request \<Rightarrow> bool) \<Rightarrow> node \<Rightarrow> node \<Rightarrow> bool" where
  "guarded_lives ok \<equiv> (guarded_step ok)\<^sup>*\<^sup>*"

text \<open>Lives in which every request that throws is undone, or is the last before the process dies.\<close>

abbreviation steady_lives :: "node \<Rightarrow> node \<Rightarrow> bool" where
  "steady_lives \<equiv> guarded_lives (\<lambda>_. True)"

lemma guarded_coordinator_step: "guarded_step ok n n' \<Longrightarrow> lives n n'"
proof (induction rule: guarded_step.induct)
  case (die q s e s')
  from die(2) have "coordinator_step (Running s) (Running s')" by (rule coordinator_step.request)
  moreover have "coordinator_step (Running s') (Stopped (im_disk s'))" by (rule coordinator_step.crash)
  ultimately show ?case by (meson r_into_rtranclp rtranclp.rtrancl_into_rtrancl)
qed (auto intro: coordinator_step.intros)

lemma guarded_lives_lives: "guarded_lives ok n n' \<Longrightarrow> lives n n'"
  by (induction rule: rtranclp_induct) (auto dest: guarded_coordinator_step)

lemma guarded_steady: "guarded_lives ok n n' \<Longrightarrow> steady_lives n n'"
proof (induction rule: rtranclp_induct)
  case (step m n')
  from step(2) have "guarded_step (\<lambda>_. True) m n'"
    by (induction rule: guarded_step.induct) (auto intro: guarded_step.intros)
  with step(3) show ?case by (rule rtranclp.rtrancl_into_rtrancl)
qed simp

section \<open>The invariant of a running coordinator\<close>

text \<open>
  The indexes agree with the records, the records satisfy the rules of the format (all but those on attempts), and the
  disk has the image of a state that is at least as new: of exactly the one in memory, unless a save has been reported to
  fail after it had replaced the image.
\<close>

definition image_follows :: "impl \<Rightarrow> bool" where
  "image_follows s \<longleftrightarrow>
     (\<exists>st img. store_encode st = Inr img \<and> image_file (im_disk s) = Some img \<and> state_le (im_state s) st)"

definition records_wf :: "DurableState \<Rightarrow> bool" where
  "records_wf st \<longleftrightarrow> durable_wf (without_attempts st)"

definition running_ok :: "impl \<Rightarrow> bool" where
  "running_ok s \<longleftrightarrow>
     indexes_match s \<and> within_ceilings (im_state s) \<and> records_wf (im_state s) \<and>
     \<not> counter_is_zero (st_current_epoch (im_state s)) \<and> image_follows s"

lemma running_ok_wf:
  assumes "running_ok s"
  shows "records_wf (im_state s)" "within_ceilings (im_state s)"
  using assms by (auto simp: running_ok_def)

lemma without_attempts_fields [simp]:
  "st_transitions (without_attempts st) = st_transitions st" "st_grants (without_attempts st) = st_grants st"
  "st_recent_fences (without_attempts st) = st_recent_fences st"
  "st_current_epoch (without_attempts st) = st_current_epoch st" "st_generation (without_attempts st) = st_generation st"
  "st_registration_floor (without_attempts st) = st_registration_floor st"
  "st_fence_floor (without_attempts st) = st_fence_floor st"
  "st_participants (without_attempts st) = map (\<lambda>p. p\<lparr> dp_idempotency := [] \<rparr>) (st_participants st)"
  by (simp_all add: without_attempts_def)

lemma participant_boots_attempts [simp]: "participant_boots (p\<lparr> dp_idempotency := h \<rparr>) = participant_boots p"
  by (simp add: participant_boots_def)

lemma currents_attempts [simp]: "currents (p\<lparr> dp_idempotency := h \<rparr>) = currents p"
  by (simp add: currents_def)

lemma records_wf_iff:
  "records_wf st \<longleftrightarrow>
     (\<forall>t \<in> set (st_transitions st).
        tr_to_epoch t \<le> st_current_epoch st \<and> tr_from_epoch t < tr_to_epoch t \<and> tr_id t \<noteq> id_nil) \<and>
     distinct (map tr_id (st_transitions st)) \<and>
     length (st_transitions st) \<le> counter_nat (st_generation st) \<and>
     (\<forall>p \<in> set (st_participants st). participant_wf st (p\<lparr> dp_idempotency := [] \<rparr>)) \<and>
     distinct (map dp_id (st_participants st)) \<and>
     distinct (concat (map participant_boots (st_participants st))) \<and>
     (\<forall>f \<in> set (st_recent_fences st).
        fr_boot f \<noteq> id_nil \<and> fr_generation f \<le> st_fence_floor st \<and> fr_epoch f \<le> st_current_epoch st) \<and>
     distinct (map (\<lambda>f. (fr_participant f, fr_boot f)) (st_recent_fences st)) \<and>
     (\<forall>g \<in> set (st_grants st). grant_wf st g) \<and>
     distinct (map ag_id (st_grants st))"
  by (simp add: records_wf_def durable_wf_def participant_wf_def grant_wf_def comp_def without_attempts_def)

lemma durable_wf_records: "durable_wf st \<Longrightarrow> records_wf st"
  by (auto simp: records_wf_iff durable_wf_def participant_wf_def)

lemma saved_wf:
  assumes "saved s" "\<not> counter_is_zero (st_current_epoch (im_state s))"
  shows "durable_wf (im_state s)" "within_ceilings (im_state s)"
  using assms by (auto simp: saved_def validate_durable_state_iff split: if_splits)

lemma saved_running:
  assumes "indexes_match s" "saved s" "\<not> counter_is_zero (st_current_epoch (im_state s))"
  shows "running_ok s"
  using assms saved_wf [OF assms(2,3)] durable_wf_records [of "im_state s"] state_le_refl [of "im_state s"]
  unfolding running_ok_def image_follows_def saved_def by blast

lemma participant_index_of_known:
  "p \<in> set ps \<Longrightarrow> \<exists>i < length ps. participant_index_of ps (pid_value (dp_id p)) = Some i"
  using index_from_None [of 0 "\<lambda>p. pid_value (dp_id p)" ps Map.empty "pid_value (dp_id p)"]
    index_from_Some [of 0 "\<lambda>p. pid_value (dp_id p)" ps Map.empty "pid_value (dp_id p)"]
  unfolding participant_index_of_def
  by (cases "index_from 0 (\<lambda>p. pid_value (dp_id p)) ps Map.empty (pid_value (dp_id p))") auto

lemma indexes_match_known: "indexes_match s \<Longrightarrow> ids_known s"
  using participant_index_of_known
  by (fastforce simp: ids_known_def find_participant_def indexes_match_def)

lemma find_participant_correct:
  assumes "indexes_match s" "find_participant s pid = Some i"
  shows "i < length (im_participants s) \<and> dp_id (participant_at s i) = pid"
  using assms index_from_Some [of 0 "\<lambda>p. pid_value (dp_id p)" "im_participants s" Map.empty "pid_value pid" i]
  by (auto simp: find_participant_def indexes_match_def participant_index_of_def participant_at_def
      intro: ParticipantId.expand split: option.splits if_splits)

section \<open>A request that is undone keeps it\<close>

lemma index_from_map: "index_from i key (map f xs) m = index_from i (key \<circ> f) xs m"
  by (induction xs arbitrary: i m) simp_all

lemma indexes_without_attempts:
  "participant_index_of (map (\<lambda>p. p\<lparr> dp_idempotency := [] \<rparr>) ps) = participant_index_of ps"
  "boot_index_of (map (\<lambda>p. p\<lparr> dp_idempotency := [] \<rparr>) ps) = boot_index_of ps"
  "active_worker_count (map (\<lambda>p. p\<lparr> dp_idempotency := [] \<rparr>) ps) = active_worker_count ps"
  by (simp_all add: participant_index_of_def index_from_map boot_index_of_def boot_entries_def enumerate_eq_zip
      zip_map2 active_worker_count_def comp_def case_prod_unfold)

lemma participants_le_attempts:
  "participants_le (map (\<lambda>p. p\<lparr> dp_idempotency := [] \<rparr>) ps) qs = participants_le ps qs"
  "participants_le qs (map (\<lambda>p. p\<lparr> dp_idempotency := [] \<rparr>) ps) = participants_le qs ps"
  by (auto simp: participants_le_def participant_le_def image_image)

lemma state_le_without_attempts:
  "state_le (without_attempts st) u = state_le st u" "state_le u (without_attempts st) = state_le u st"
  by (simp_all add: state_le_def participants_le_attempts)

lemma within_ceilings_without_attempts: "within_ceilings (without_attempts st) = within_ceilings st"
  by (simp add: within_ceilings_def)

text \<open>What says nothing about attempts is the same before and after a request that is undone.\<close>

lemma undone_same:
  assumes "undone s s'" "\<And>st. f (without_attempts st) = f st"
  shows "f (im_state s') = f (im_state s)"
  using assms by (metis undone_def)

lemma undone_le:
  assumes "undone s s'"
  shows "state_le (im_state s) (im_state s')"
proof -
  have "state_le (im_state s) (im_state s') = state_le (im_state s) (im_state s)"
    by (rule undone_same [OF assms]) (rule state_le_without_attempts)
  then show ?thesis by simp
qed

lemma undone_indexes:
  assumes "undone s s'" "indexes_match s"
  shows "indexes_match s'"
proof -
  note same = undone_same [OF assms(1)]
  have "participant_index_of (im_participants s') = participant_index_of (im_participants s)"
    "boot_index_of (im_participants s') = boot_index_of (im_participants s)"
    "active_worker_count (im_participants s') = active_worker_count (im_participants s)"
    "st_recent_fences (im_state s') = st_recent_fences (im_state s)" "st_grants (im_state s') = st_grants (im_state s)"
    by (rule same; simp add: indexes_without_attempts)+
  with assms show ?thesis by (simp add: undone_def indexes_match_def)
qed

lemma image_follows_disk:
  assumes "image_follows s" "disk_follows s (im_disk s')" "ids_known s" "state_le (im_state s') (im_state s)"
  shows "image_follows s'"
proof -
  have le: "state_le (im_state s') st" if "state_le (im_state s) st" for st
    using state_le_trans [OF assms(4) that] .
  obtain st img where st: "store_encode st = Inr img" "image_file (im_disk s) = Some img" "state_le (im_state s) st"
    using assms(1) by (auto simp: image_follows_def)
  from assms(2) show ?thesis
    unfolding disk_follows_def
  proof (elim disjE exE conjE)
    assume "image_file (im_disk s') = image_file (im_disk s)"
    with st le show ?thesis unfolding image_follows_def by auto
  next
    fix u v assume "ids_known s \<longrightarrow> state_le (im_state s) u" "store_encode u = Inr v" "image_file (im_disk s') = Some v"
    with assms(3) le show ?thesis unfolding image_follows_def by blast
  qed
qed

lemma undone_running:
  assumes "running_ok s" "undone s s'" "disk_follows s (im_disk s')"
  shows "running_ok s'"
proof -
  note same = undone_same [OF assms(2)]
  have "state_le (im_state s') (im_state s) = state_le (im_state s) (im_state s)"
    by (rule same) (rule state_le_without_attempts)
  moreover have "ids_known s" using assms(1) by (simp add: running_ok_def indexes_match_known)
  ultimately have "image_follows s'"
    using assms(1,3) state_le_refl by (auto simp: running_ok_def intro: image_follows_disk [where s = s])
  moreover have "within_ceilings (im_state s') = within_ceilings (im_state s)"
    by (rule same) (rule within_ceilings_without_attempts)
  moreover have "st_current_epoch (im_state s') = st_current_epoch (im_state s)" "records_wf (im_state s') = records_wf (im_state s)"
    by (rule same; simp add: records_wf_def without_attempts_def comp_def)+
  ultimately show ?thesis
    using assms(1,2) undone_indexes [OF assms(2)] by (simp add: running_ok_def)
qed

section \<open>Operations keep it\<close>

lemma committed_ok:
  assumes "running_ok s" "progress s u" "saved (committed io u)"
  shows "running_ok (committed io u)" "state_le (im_state s) (im_state (committed io u))"
proof -
  have known: "ids_known s" using assms(1) by (simp add: running_ok_def indexes_match_known)
  then have le: "state_le (im_state s) (im_state u)" using assms(2) by (simp add: progress_def)
  then show "state_le (im_state s) (im_state (committed io u))"
    by (simp add: frame_simps canonicalize_le)
  then have "\<not> counter_is_zero (st_current_epoch (im_state (committed io u)))"
    using assms(1) by (auto simp: running_ok_def state_le_def counter_is_zero_def less_eq_MonotonicCounter_def)
  with assms(3) show "running_ok (committed io u)" by (intro saved_running) simp_all
qed

text \<open>What a request that returns does to a running coordinator.\<close>

definition serves :: "impl \<Rightarrow> impl \<Rightarrow> bool" where
  "serves s s' \<longleftrightarrow>
     running_ok s' \<and> state_le (im_state s) (im_state s') \<and> (im_state s' = im_state s \<or> saved s')"

lemma run_tx_serves:
  assumes "running_ok s" "tx_quiet body" "tx_keeps progress body" "run_tx io body s = (Inr r, s')"
  shows "serves s s'"
  using assms(2,4)
proof (cases rule: run_tx_returns)
  case 1
  with assms(1) show ?thesis by (simp add: serves_def)
next
  case (2 t)
  have "progress s (tx_impl t)"
    using assms(3) 2(1) unfolding tx_keeps_def by (metis begin_tx_def snd_conv txn.select_convs(1))
  with committed_ok [OF assms(1)] 2 show ?thesis by (simp add: serves_def)
qed

lemma sessions_serve:
  assumes "running_ok s" "im_state u = im_state s" "im_disk u = im_disk s"
    and "indexes_match u"
  shows "serves s u"
  using assms by (simp add: serves_def running_ok_def image_follows_def)

text \<open>The other shape of an operation: a body, the barrier, a result that changes nothing.\<close>

lemma commit_tx_cases:
  assumes "tx_disk m" "tx_keeps progress m" "\<And>x t. snd (k x t) = t \<and> \<not> isl (fst (k x t))"
    and "end_tx (tx_bind m (\<lambda>x. tx_bind (persist io) (\<lambda>_. k x)) (begin_tx s)) = (r, s')"
  shows "disk_moves (wrote m s) s (im_disk s') \<and>
    (isl r \<or> (\<exists>x t. m (begin_tx s) = (Inr x, t) \<and> s' = committed io (tx_impl t) \<and> saved s'))"
proof (cases "m (begin_tx s)")
  case (Pair q t)
  have undo: "list_all disk_kept (tx_undo t)"
    using assms(1) Pair by (auto simp: tx_disk_def begin_tx_def dest: spec [of _ "begin_tx s"])
  have disk: "im_disk (tx_impl t) = im_disk s"
    using assms(2) Pair by (auto simp: tx_keeps_def begin_tx_def progress_def dest: spec [of _ "begin_tx s"])
  show ?thesis
  proof (cases q)
    case (Inl e)
    then have "s' = tx_impl (undo_rollback t)" "isl r"
      using assms(4) Pair by (auto simp: tx_bind_def end_tx_def)
    then show ?thesis
      using disk rollback_disk [OF undo] by (simp add: disk_moves_def)
  next
    case (Inr x)
    obtain p t' where p: "persist io t = (p, t')" by (cases "persist io t")
    have "wrote m s (im_state (canonicalize (tx_impl t)))"
      using Pair Inr by (auto simp: wrote_def)
    then have d: "disk_moves (wrote m s) s (im_disk (tx_impl (undo_rollback t')))"
      by (rule persist_moves [OF undo p disk])
    show ?thesis
    proof (cases p)
      case (Inl e)
      then show ?thesis
        using assms(4) Pair Inr p d by (auto simp: tx_bind_def end_tx_def)
    next
      case (Inr y)
      then have "s' = tx_impl (undo_rollback t')"
        using assms(4) Pair \<open>q = Inr x\<close> p assms(3) [of x t']
        by (cases "k x t'"; cases "fst (k x t')") (auto simp: tx_bind_def end_tx_def)
      moreover have "tx_impl t' = committed io (tx_impl t) \<and> tx_undo t' = [] \<and> saved (tx_impl t')"
        using p Inr persist_returns by blast
      ultimately show ?thesis
        using d Pair \<open>q = Inr x\<close> by (auto simp: undo_rollback_def)
    qed
  qed
qed

section \<open>Epoch transitions\<close>

lemma mutate_epoch_effect:
  assumes "mutate_epoch env boot cause invalidate t = (Inr x, t')"
  shows "\<exists>e g tid. counter_next (st_current_epoch (im_state (tx_impl t))) = Some e \<and>
    counter_next (st_generation (im_state (tx_impl t))) = Some g \<and> en_transition env = Inr tid \<and>
    tx_impl t' = push_transition (transition_record (im_state (tx_impl t)) e g boot cause
        (op_provenance (im_options (tx_impl t))) tid)
      (enter_epoch g invalidate (set_epoch e boot (tx_impl t)))"
  using assms
  by (cases "en_transition env")
    (auto simp: mutate_epoch_def tx_simps tx_next_def Let_def split: option.splits)

lemma move_epoch_disk: "tx_disk (move_epoch env request digest)"
  unfolding move_epoch_def by (intro disk_rules)

lemma move_epoch_progress: "tx_keeps progress (move_epoch env request digest)"
  unfolding move_epoch_def
  by (intro progress.keeps_rules progress.keeps_modify mutate_epoch_progress remember_control_progress)

lemma advance_epoch_split:
  assumes "advance_epoch env request s = (r, s')"
  shows "s' = s \<or> (\<exists>digest. end_tx (enter_advance env request digest (begin_tx s)) = (r, s'))"
proof -
  have still: "end_tx (q, begin_tx s) = (r, s') \<Longrightarrow> s' = s" for q
    by (auto simp: end_tx_def undo_rollback_def begin_tx_def)
  have b: "tx_impl (begin_tx s) = s" by (simp add: begin_tx_def)
  show ?thesis
    using assms
    by (cases "advance_digest request")
      (auto simp: advance_epoch_def advance_body_def b tx_basic tx_bind_apply tx_bind_lift Let_def
        dest!: still split: if_splits option.splits)
qed

lemma advance_commit:
  assumes "end_tx (enter_advance env request digest (begin_tx s)) = (r, s')"
  shows "disk_moves (wrote (move_epoch env request digest) s) s (im_disk s') \<and> (isl r \<or>
    (\<exists>x t. move_epoch env request digest (begin_tx s) = (Inr x, t) \<and>
       s' = committed (en_io env) (tx_impl t) \<and> saved s'))"
  using move_epoch_disk move_epoch_progress _ assms [unfolded enter_advance_def]
  by (rule commit_tx_cases) (simp add: tx_simps)

lemma progress_of_body:
  assumes "tx_keeps progress m" "m (begin_tx s) = (Inr x, t)"
  shows "progress s (tx_impl t)"
  using assms unfolding tx_keeps_def by (metis begin_tx_def snd_conv txn.select_convs(1))

lemma advance_epoch_serves:
  assumes "running_ok s" "advance_epoch env request s = (r, s')"
  shows "disk_follows s (im_disk s') \<and> (isl r \<or> serves s s')"
  using advance_epoch_split [OF assms(2)]
proof (elim disjE exE)
  assume "s' = s"
  with assms(1) show ?thesis by (simp add: disk_follows_def serves_def)
next
  fix digest
  assume "end_tx (enter_advance env request digest (begin_tx s)) = (r, s')"
  from advance_commit [OF this] show ?thesis
    using committed_ok [OF assms(1) progress_of_body [OF move_epoch_progress]]
      wrote_follows [OF move_epoch_progress]
    unfolding serves_def by blast
qed

section \<open>Every request\<close>

lemma run_tx_request:
  assumes "running_ok s" "tx_quiet body" "tx_disk body" "tx_keeps progress body"
    and "run_tx io body s = (r, s')"
  shows "disk_follows s (im_disk s') \<and> (isl r \<or> serves s s')"
  using run_tx_disk [OF assms(3,4,5)] run_tx_serves [OF assms(1,2,4)] assms(5) by (cases r) auto

lemma session_tables_ok:
  assumes "running_ok s"
  shows "running_ok (s\<lparr> im_session_index := a, im_boot_session_index := b \<rparr>)"
    and "disk_follows s d \<longleftrightarrow> disk_follows (s\<lparr> im_session_index := a, im_boot_session_index := b \<rparr>) d"
  using assms
  by (simp_all add: running_ok_def image_follows_def indexes_match_def disk_follows_def ids_known_def
      find_participant_def cong: option.case_cong)

lemma erase_session_tables:
  "\<exists>a b. erase_session sid s = s\<lparr> im_session_index := a, im_boot_session_index := b \<rparr>"
proof (cases "map_of (im_session_index s) (id_to_string sid)")
  case None
  then have "erase_session sid s = s\<lparr> im_session_index := im_session_index s,
      im_boot_session_index := im_boot_session_index s \<rparr>"
    by (simp add: erase_session_def)
  then show ?thesis by blast
next
  case (Some c)
  then have "erase_session sid s = s\<lparr> im_session_index := AList.delete (id_to_string sid) (im_session_index s),
      im_boot_session_index := (im_boot_session_index s)(id_to_string (sb_boot c) := None) \<rparr>"
    by (simp add: erase_session_def)
  then show ?thesis by blast
qed

lemma close_session_request:
  assumes "running_ok s" "close_session io sid reason s = (r, s')"
  shows "disk_follows s (im_disk s') \<and> (isl r \<or> serves s s')"
proof -
  obtain a b where e: "erase_session sid s = s\<lparr> im_session_index := a, im_boot_session_index := b \<rparr>"
    using erase_session_tables by blast
  let ?e = "s\<lparr> im_session_index := a, im_boot_session_index := b \<rparr>"
  have ok: "running_ok ?e" "im_state ?e = im_state s" "im_disk ?e = im_disk s"
    using session_tables_ok [OF assms(1)] by simp_all
  have stay: "disk_follows s (im_disk u) \<and> serves s u" if "u = s \<or> u = ?e" for u
    using that assms(1) ok by (auto simp: disk_follows_def serves_def)
  have fence: "disk_follows s (im_disk u) \<and> (isl q \<or> serves s u)"
    if "run_tx io (record_fence pid boot reason' text' False) ?e = (q, u)" for pid boot reason' text' q u
    using run_tx_request [OF ok(1) record_fence_quiet record_fence_disk record_fence_progress that]
      session_tables_ok(2) [OF assms(1)] ok(2)
    by (simp add: serves_def)
  show ?thesis
    using assms(2) stay fence
    by (auto simp: close_session_def Let_def e split: option.splits if_splits)
qed

lemma bind_session_request:
  assumes "running_ok s" "bind_session b s = (r, s')"
  shows "disk_follows s (im_disk s') \<and> (isl r \<or> serves s s')"
proof -
  have "s' = s \<or> (\<exists>a c. s' = s\<lparr> im_session_index := a, im_boot_session_index := c \<rparr>)"
    using assms(2) by (auto simp: bind_session_def split: if_splits)
  then have "im_disk s' = im_disk s" "im_state s' = im_state s" "running_ok s'"
    using assms(1) session_tables_ok(1) [OF assms(1)] by auto
  then show ?thesis by (simp add: disk_follows_def serves_def)
qed

lemma flush_request:
  assumes "running_ok s" "flush io s = (r, s')"
  shows "disk_follows s (im_disk s') \<and> (isl r \<or> serves s s')"
proof -
  have "im_state s' = im_state s" and match: "indexes_match s' = indexes_match s"
    using assms(2) by (auto simp: flush_def save_impl_def indexes_match_def split: prod.splits)
  moreover have "isl r \<or> saved s'"
    using assms(2) save_impl_returns by (cases r) (auto simp: flush_def)
  moreover have "isl r \<or> running_ok s'"
    using calculation assms(1) saved_running [of s'] by (auto simp: running_ok_def)
  moreover have "disk_follows s (im_disk s')"
    using save_impl_image [of io s r s'] assms(2) unfolding flush_def disk_follows_def
    by (metis state_le_refl)
  ultimately show ?thesis by (auto simp: serves_def)
qed

lemma outcome_of_request:
  "outcome_of (r, u) = (q, s') \<Longrightarrow> u = s' \<and> isl q = isl r"
  by (cases r) (auto simp: outcome_of_def)

lemma perform_request:
  assumes "running_ok s" "perform q s = (r, s')"
  shows "disk_follows s (im_disk s') \<and> (isl r \<or> serves s s')"
proof -
  have lift: "disk_follows s (im_disk s') \<and> (isl r \<or> serves s s')"
    if "outcome_of m = (r, s')" "\<And>p u. m = (p, u) \<Longrightarrow> disk_follows s (im_disk u) \<and> (isl p \<or> serves s u)"
    for m :: "'x res \<times> impl"
    using that outcome_of_request [of "fst m" "snd m" r s'] by (metis prod.collapse)
  note op = run_tx_request [OF assms(1)]
  note ops = perform.simps register_participant_def register_participants_def fence_worker_def
    grant_authority_def revoke_authority_def retire_participant_def
  show ?thesis
  proof (cases q)
    case (Register io x)
    show ?thesis
      by (rule lift [OF assms(2) [unfolded Register ops]])
        (rule op [OF apply_registration_quiet apply_registration_disk apply_registration_progress])
  next
    case (RegisterBatch io x)
    show ?thesis
      by (rule lift [OF assms(2) [unfolded RegisterBatch ops]])
        (rule op [OF batch_body_quiet batch_body_disk batch_body_progress])
  next
    case (Fence io x)
    show ?thesis
      by (rule lift [OF assms(2) [unfolded Fence ops]])
        (rule op [OF fence_body_quiet fence_body_disk fence_body_progress])
  next
    case (Grant env x)
    show ?thesis
      by (rule lift [OF assms(2) [unfolded Grant ops]])
        (rule op [OF apply_grant_quiet apply_grant_disk apply_grant_progress])
  next
    case (Revoke io x)
    show ?thesis
      by (rule lift [OF assms(2) [unfolded Revoke ops]])
        (rule op [OF apply_revoke_quiet apply_revoke_disk apply_revoke_progress])
  next
    case (Retire io x)
    show ?thesis
      by (rule lift [OF assms(2) [unfolded Retire ops]])
        (rule op [OF apply_retire_quiet apply_retire_disk apply_retire_progress])
  next
    case (Advance env x)
    show ?thesis
      by (rule lift [OF assms(2) [unfolded Advance ops]]) (rule advance_epoch_serves [OF assms(1)])
  next
    case (Bind b)
    show ?thesis
      by (rule lift [OF assms(2) [unfolded Bind ops]]) (rule bind_session_request [OF assms(1)])
  next
    case (Close io sid reason)
    show ?thesis
      by (rule lift [OF assms(2) [unfolded Close ops]]) (rule close_session_request [OF assms(1)])
  next
    case (Flush io)
    show ?thesis
      by (rule lift [OF assms(2) [unfolded Flush ops]]) (rule flush_request [OF assms(1)])
  qed
qed

section \<open>Opening\<close>

text \<open>The state a disk stands for.\<close>

definition holds :: "disk \<Rightarrow> DurableState \<Rightarrow> bool" where
  "holds d st \<longleftrightarrow>
     (case image_file d of None \<Rightarrow> st = initial_state | Some img \<Rightarrow> store_encode st = Inr img)"

lemma store_load_holds:
  assumes "store_load options io d = Inr u" "holds d st"
  shows "u = st"
  using assms store_decode_faithful
  by (auto simp: store_load_def holds_def res_bind_eq_Inr split: option.splits if_splits)

lemma establish_commit:
  assumes "establish_epoch env boot cause invalidate s = (r, s')"
  shows "disk_moves (wrote (mutate_epoch env boot cause invalidate) s) s (im_disk s') \<and> (isl r \<or>
    (\<exists>x t. mutate_epoch env boot cause invalidate (begin_tx s) = (Inr x, t) \<and>
       s' = committed (en_io env) (tx_impl t) \<and> saved s'))"
proof -
  have pure: "snd (tx_return y t) = t \<and> \<not> isl (fst (tx_return y t))" for y :: unit and t
    by (simp add: tx_basic)
  have "tx_bind m (\<lambda>_. tx_return ()) = m" for m :: "unit tx"
    by (auto simp: tx_bind_def tx_basic fun_eq_iff split: prod.split sum.split)
  then have "end_tx (tx_bind (mutate_epoch env boot cause invalidate)
      (\<lambda>_. tx_bind (persist (en_io env)) (\<lambda>_. tx_return ())) (begin_tx s)) = (r, s')"
    using assms by (simp add: establish_epoch_def)
  with mutate_epoch_disk mutate_epoch_progress pure show ?thesis
    by (rule commit_tx_cases)
qed

lemma establish_epoch_opens:
  assumes "establish_epoch env boot cause invalidate s = (Inr x, s')" "ids_known s"
  shows "running_ok s'" "state_le (im_state s) (im_state s')"
proof -
  from establish_commit [OF assms(1)] obtain y t where
    t: "mutate_epoch env boot cause invalidate (begin_tx s) = (Inr y, t)"
    "s' = committed (en_io env) (tx_impl t)" "saved s'" by auto
  have "progress s (tx_impl t)" using mutate_epoch_progress t(1) by (rule progress_of_body)
  then show le: "state_le (im_state s) (im_state s')"
    using assms(2) t(2) by (simp add: progress_def frame_simps canonicalize_le)
  from mutate_epoch_effect [OF t(1)] obtain e where
    e: "counter_next (st_current_epoch (im_state s)) = Some e"
    "st_current_epoch (im_state (tx_impl t)) = e"
    by (auto simp: begin_tx_def push_transition_def enter_epoch_def set_epoch_def upd_state_def)
  then have "st_current_epoch (im_state s') = e"
    by (simp add: t(2) frame_simps canonicalize_def)
  moreover have "\<not> counter_is_zero e"
    using e(1) by (auto simp: counter_is_zero_def counter_next_eq_Some counter_nat_def)
  ultimately show "running_ok s'"
    using t(2,3) by (intro saved_running) simp_all
qed

lemma open_inputs_load:
  "open_inputs env opts d = Inr (st, boot) \<Longrightarrow> store_load (store_options opts) (en_io env) d = Inr st"
  by (auto simp: open_inputs_def new_store_def res_bind_eq_Inr split: if_splits)

lemma open_runtime_cases:
  assumes "open_runtime env opts d = (r, d')"
  obtains (rejected) e where "r = Inl e" "d' = d"
  | (moved) st boot cause q s where "open_inputs env opts d = Inr (st, boot)"
    "establish_epoch env boot cause (\<not> counter_is_zero (st_current_epoch st)) (opened opts d st boot) = (q, s)"
    "r = res_bind q (\<lambda>_. Inr s)" "d' = im_disk s" "op_advance_epoch_on_open opts"
  | (resumed) st boot where "open_inputs env opts d = Inr (st, boot)"
    "r = Inr (opened opts d st boot)" "d' = d"
    "\<not> counter_is_zero (st_current_epoch st)" "\<not> op_advance_epoch_on_open opts"
proof (cases "open_inputs env opts d")
  case (Inl e)
  with assms show ?thesis by (intro rejected [of e]) (simp_all add: open_runtime_def)
next
  case (Inr p)
  obtain st boot where p: "p = (st, boot)" by (cases p)
  let ?c = "if \<not> counter_is_zero (st_current_epoch st) then EpochTransitionCause.CoordinatorRestart
    else EpochTransitionCause.CoordinatorStart"
  obtain q s where m: "establish_epoch env boot ?c (\<not> counter_is_zero (st_current_epoch st))
      (opened opts d st boot) = (q, s)"
    by (rule prod.exhaust)
  show ?thesis
  proof (cases "op_advance_epoch_on_open opts")
    case True
    then have "r = res_bind q (\<lambda>_. Inr s)" "d' = im_disk s"
      using assms Inr p m by (simp_all add: open_runtime_def Let_def)
    with True Inr p m show ?thesis by (intro moved) simp_all
  next
    case False
    show ?thesis
    proof (cases "counter_is_zero (st_current_epoch st)")
      case True
      with False assms Inr p show ?thesis
        by (cases r; intro rejected) (simp_all add: open_runtime_def)
    next
      case established: False
      with False assms Inr p show ?thesis
        by (intro resumed [of st boot]) (auto simp: open_runtime_def)
    qed
  qed
qed

lemma opened_facts:
  "im_state (opened opts d st boot) = st" "im_disk (opened opts d st boot) = d"
  "indexes_match (opened opts d st boot)" "ids_known (opened opts d st boot)"
proof -
  show "im_state (opened opts d st boot) = st" "im_disk (opened opts d st boot) = d"
    "indexes_match (opened opts d st boot)"
    by (simp_all add: opened_def frame_simps) (simp_all add: empty_impl_def)
  then show "ids_known (opened opts d st boot)" by (simp add: indexes_match_known)
qed

text \<open>The disk of a running coordinator holds a state at least as new as the one in memory.\<close>

lemma running_holds:
  assumes "running_ok s"
  shows "\<exists>st. holds (im_disk s) st \<and> state_le (im_state s) st"
  using assms by (auto simp: running_ok_def image_follows_def holds_def)

lemma disk_follows_holds:
  assumes "disk_follows s d" "ids_known s" "holds (im_disk s) u" "state_le (im_state s) u"
  shows "\<exists>st. holds d st \<and> state_le (im_state s) st"
  using assms unfolding disk_follows_def holds_def by (auto split: option.splits)

lemma saved_holds: "saved s \<Longrightarrow> holds (im_disk s) (im_state s)"
  by (auto simp: saved_def holds_def)

text \<open>What a request that throws leaves on disk.\<close>

lemma failed_holds:
  assumes "running_ok s" "perform q s = (r, s')"
  shows "\<exists>st. holds (im_disk s') st \<and> state_le (im_state s) st"
proof -
  obtain u where "holds (im_disk s) u" "state_le (im_state s) u" using running_holds [OF assms(1)] by blast
  moreover have "ids_known s" using assms(1) by (simp add: running_ok_def indexes_match_known)
  ultimately show ?thesis using perform_request [OF assms] disk_follows_holds by blast
qed

lemma open_runtime_disk:
  assumes "open_runtime env opts d = (Inr s, d')"
  shows "d' = im_disk s"
  using assms
proof (cases rule: open_runtime_cases)
  case (moved u boot cause q s1)
  then show ?thesis by (cases q) auto
qed (auto simp: opened_facts)

lemma open_runtime_ok:
  assumes "open_runtime env opts d = (Inr s, d')" "holds d st"
  shows "running_ok s \<and> state_le st (im_state s)"
  using assms(1)
proof (cases rule: open_runtime_cases)
  case (moved u boot cause q s1)
  have u: "u = st" using open_inputs_load [OF moved(1)] assms(2) by (rule store_load_holds)
  from moved(3) obtain x where q: "q = Inr x" "s1 = s" by (cases q) auto
  show ?thesis
    using establish_epoch_opens [OF moved(2) [unfolded q] opened_facts(4)] u by (simp add: opened_facts)
next
  case (resumed u boot)
  have u: "u = st" using open_inputs_load [OF resumed(1)] assms(2) by (rule store_load_holds)
  obtain img where "image_file d = Some img"
    using resumed(4) u assms(2)
    by (cases "image_file d") (auto simp: holds_def initial_state_def counter_is_zero_def)
  then have "saved (opened opts d u boot)"
    using store_load_valid [OF open_inputs_load [OF resumed(1)]] assms(2) u
    by (simp add: saved_def holds_def opened_facts)
  with resumed u show ?thesis by (auto simp: opened_facts intro!: saved_running)
qed simp

lemma open_runtime_refused:
  assumes "open_runtime env opts d = (Inl e, d')" "holds d st"
  shows "\<exists>st'. holds d' st' \<and> state_le st st'"
  using assms(1)
proof (cases rule: open_runtime_cases)
  case (rejected e')
  with assms(2) show ?thesis using state_le_refl by blast
next
  case (moved u boot cause q s1)
  have u: "u = st" using open_inputs_load [OF moved(1)] assms(2) by (rule store_load_holds)
  have "disk_follows (opened opts d u boot) d'"
    using wrote_follows [OF mutate_epoch_progress] establish_commit [OF moved(2)] moved(4) by blast
  from disk_follows_holds [OF this opened_facts(4)] show ?thesis
    using u assms(2) state_le_refl by (simp add: opened_facts)
qed simp

section \<open>The life of a coordinator\<close>

fun node_holds :: "node \<Rightarrow> DurableState \<Rightarrow> bool" where
  "node_holds (Running s) st \<longleftrightarrow> running_ok s \<and> im_state s = st"
| "node_holds (Stopped d) st \<longleftrightarrow> holds d st"

lemma guarded_step_holds:
  assumes "guarded_step ok n n'" "node_holds n st"
  shows "\<exists>st'. node_holds n' st' \<and> state_le st st'"
  using assms
proof (induction rule: guarded_step.induct)
  case (serve q s s')
  then show ?case using perform_request [of s q "Inr ()" s'] by (auto simp: serves_def)
next
  case (fail q s e s')
  then have ok: "running_ok s" "im_state s = st" by simp_all
  have "running_ok s'"
    by (rule undone_running [OF ok(1) fail(3) conjunct1 [OF perform_request [OF ok(1) fail(2)]]])
  with ok(2) undone_le [OF fail(3)] show ?case by auto
next
  case (die q s e s')
  then show ?case using failed_holds [of s q "Inl e" s'] by auto
next
  case (crash s)
  then show ?case using running_holds by auto
next
  case (start env opts d s d')
  then show ?case using open_runtime_ok by auto
next
  case (refuse env opts d e d')
  then show ?case using open_runtime_refused by auto
qed

lemma steady_holds:
  assumes "guarded_lives ok n n'" "node_holds n st"
  shows "\<exists>st'. node_holds n' st' \<and> state_le st st'"
  using assms
proof (induction rule: rtranclp_induct)
  case (step m n')
  then show ?case using guarded_step_holds by (meson state_le_trans)
qed (auto intro: state_le_refl)

lemma steady_running:
  assumes "guarded_lives ok (Running s) (Running u)" "running_ok s"
  shows "running_ok u" "state_le (im_state s) (im_state u)"
  using steady_holds [OF assms(1), of "im_state s"] assms(2) by auto

lemma born_running:
  assumes "guarded_lives ok (Stopped d) (Running s)" "image_file d = None"
  shows "running_ok s"
  using steady_holds [OF assms(1), of initial_state] assms(2) by (auto simp: holds_def)

end
