(* ===== verification/Authority.thy ===== *)
theory Authority
  imports System
begin

text \<open>
  What validation promises. \<open>current\<close> is the specification: an incarnation of a participant holds
  authority when the participant's record lists it. A request is authorized exactly when the
  incarnation in its token is current and the participant (or the grant) covers the scope
  (\<open>validate_plain_iff\<close>, \<open>validate_grant_iff\<close>).
\<close>

section \<open>Current incarnations\<close>

definition current :: "DurableState \<Rightarrow> ParticipantId \<Rightarrow> WorkerBootId \<Rightarrow> IncarnationSequence \<Rightarrow> bool" where
  "current st pid boot n \<longleftrightarrow>
     (\<exists>p \<in> set (st_participants st). dp_id p = pid \<and> (boot, n) \<in> set (currents p))"

definition token_current :: "DurableState \<Rightarrow> AuthorityToken \<Rightarrow> bool" where
  "token_current st token \<longleftrightarrow>
     current st (tok_participant token) (tok_boot token) (tok_incarnation token)"

text \<open>The participant a request acts for: the one in the token, or the owner of the grant.\<close>

definition acting_participant :: "impl \<Rightarrow> ValidateAuthorityRequest \<Rightarrow> ParticipantId option" where
  "acting_participant s request =
     (case va_grant request of
        None \<Rightarrow> Some (tok_participant (va_token request))
      | Some gid \<Rightarrow> map_option (\<lambda>k. ag_participant (st_grants (im_state s) ! k)) (lookup_grant s gid))"

definition token_wf :: "AuthorityToken \<Rightarrow> bool" where
  "token_wf token \<longleftrightarrow>
     \<not> pid_empty (tok_participant token) \<and> \<not> id_is_nil (tok_boot token) \<and>
     \<not> counter_is_zero (tok_incarnation token)"

lemma evaluate_incarnation_current:
  "iv_code (evaluate_incarnation s p boot n) = AuthorityValidationCode.Current \<longleftrightarrow>
     (\<exists>c. find_incarnation p boot = Some c \<and> (counter_value n \<noteq> 0 \<longrightarrow> n = c))"
  by (auto simp: evaluate_incarnation_def evaluation_def fenced_evaluation_def Let_def
      split: option.split)

lemma wf_participant:
  assumes "running_ok s" "p \<in> set (im_participants s)"
  shows "participant_wf (im_state s) (p\<lparr> dp_idempotency := [] \<rparr>)"
  using running_ok_wf(1) [OF assms(1)] assms(2) by (simp add: records_wf_iff)

lemma wf_saved:
  assumes "running_ok s" "saved s" "p \<in> set (im_participants s)"
  shows "participant_wf (im_state s) p"
  using saved_wf(1) [OF assms(2)] assms(1,3) by (simp add: durable_wf_def running_ok_def)

lemma distinct_map_eq: "distinct (map f xs) \<Longrightarrow> x \<in> set xs \<Longrightarrow> y \<in> set xs \<Longrightarrow> f x = f y \<Longrightarrow> x = y"
  by (metis distinct_map inj_onD)

lemma wf_distinct_ids: "running_ok s \<Longrightarrow> distinct (map dp_id (im_participants s))"
  using running_ok_wf(1) [of s] by (simp add: records_wf_iff)

lemma find_incarnation_wf:
  assumes "running_ok s" "p \<in> set (im_participants s)"
  shows "find_incarnation p boot = Some n \<longleftrightarrow> (boot, n) \<in> set (currents p)"
  using wf_participant [OF assms] by (intro find_incarnation_iff) (simp add: participant_wf_def)

text \<open>The record a lookup by identifier finds is the only one.\<close>

lemma find_participant_unique:
  assumes "running_ok s" "p \<in> set (im_participants s)"
  obtains i where "find_participant s (dp_id p) = Some i" "participant_at s i = p"
    "i < length (im_participants s)"
proof -
  have im: "indexes_match s" using assms(1) by (simp add: running_ok_def)
  obtain i where i: "find_participant s (dp_id p) = Some i"
    using indexes_match_known [OF im] assms(2) by (auto simp: ids_known_def)
  have at: "i < length (im_participants s)" "dp_id (participant_at s i) = dp_id p"
    using find_participant_correct [OF im i] by simp_all
  then have "participant_at s i = p"
    using wf_distinct_ids [OF assms(1)] assms(2)
    by (intro distinct_map_eq [of dp_id]) (simp_all add: participant_at_def)
  with i at show ?thesis by (intro that)
qed

lemma current_iff:
  assumes "running_ok s"
  shows "current (im_state s) pid boot n \<longleftrightarrow>
    (\<exists>i. find_participant s pid = Some i \<and> find_incarnation (participant_at s i) boot = Some n)"
proof
  assume "current (im_state s) pid boot n"
  then obtain p where p: "p \<in> set (im_participants s)" "dp_id p = pid" "(boot, n) \<in> set (currents p)"
    by (auto simp: current_def)
  with find_participant_unique [OF assms p(1)] find_incarnation_wf [OF assms p(1)]
  show "\<exists>i. find_participant s pid = Some i \<and> find_incarnation (participant_at s i) boot = Some n"
    by metis
next
  assume "\<exists>i. find_participant s pid = Some i \<and> find_incarnation (participant_at s i) boot = Some n"
  then obtain i where i: "find_participant s pid = Some i"
    "find_incarnation (participant_at s i) boot = Some n" by blast
  have "indexes_match s" using assms by (simp add: running_ok_def)
  from find_participant_correct [OF this i(1)] find_incarnation_current [OF i(2)]
  show "current (im_state s) pid boot n"
    by (auto simp: current_def participant_at_def)
qed

section \<open>Validation\<close>

lemma validate_token_None: "validate_token st token = None \<longleftrightarrow> token_wf token"
  by (auto simp: validate_token_def token_wf_def)

lemma not_authorized [simp]:
  "av_authorized (verdict b c u e) \<longleftrightarrow> c = AuthorityValidationCode.Current"
  "av_authorized ((verdict b c u e)\<lparr> av_superseded_by := x, av_replaced_by_epoch := y \<rparr>) \<longleftrightarrow>
     c = AuthorityValidationCode.Current"
  "av_authorized ((verdict b c u e)\<lparr> av_replaced_by_epoch := y \<rparr>) \<longleftrightarrow>
     c = AuthorityValidationCode.Current"
  "av_authorized ((verdict b c u e)\<lparr> av_superseded_by := x \<rparr>) \<longleftrightarrow>
     c = AuthorityValidationCode.Current"
  by (simp_all add: av_authorized_def verdict_def)

definition generation_expected :: "ValidateAuthorityRequest \<Rightarrow> DurableParticipant \<Rightarrow> bool" where
  "generation_expected request p \<longleftrightarrow>
     va_expected_generation request \<in> {None, Some (dp_registration_generation p)}"

lemma validate_plain_iff:
  assumes "running_ok s" "token_wf (va_token request)" "va_grant request = None"
  shows "av_authorized (validate_authority s request) \<longleftrightarrow>
    tok_epoch (va_token request) = st_current_epoch (im_state s) \<and>
    (\<exists>p \<in> set (im_participants s). dp_id p = tok_participant (va_token request) \<and> \<not> dp_retired p \<and>
       (tok_boot (va_token request), tok_incarnation (va_token request)) \<in> set (currents p) \<and>
       scope_set_contains (dp_scopes p) (va_scope request) \<and> generation_expected request p)"
    (is "?l \<longleftrightarrow> ?epoch \<and> (\<exists>p \<in> _. ?holds p)")
proof -
  let ?t = "va_token request"
  have im: "indexes_match s" using assms(1) by (simp add: running_ok_def)
  have claimed: "counter_value (tok_incarnation ?t) \<noteq> 0"
    using assms(2) by (simp add: token_wf_def counter_is_zero_def)
  have at: "av_authorized (participant_verdict s p request) \<and> \<not> dp_retired p \<longleftrightarrow>
      \<not> dp_retired p \<and> find_incarnation p (tok_boot ?t) = Some (tok_incarnation ?t) \<and>
      scope_set_contains (dp_scopes p) (va_scope request) \<and> generation_expected request p" for p
    using evaluate_incarnation_current [of s p "tok_boot ?t" "tok_incarnation ?t"] claimed
    by (auto simp: participant_verdict_def current_verdict_def Let_def generation_expected_def)
  have l: "?l \<longleftrightarrow> ?epoch \<and> (\<exists>i. find_participant s (tok_participant ?t) = Some i \<and>
      av_authorized (participant_verdict s (participant_at s i) request) \<and> \<not> dp_retired (participant_at s i))"
    using assms(2,3)
    by (auto simp: validate_authority_def validate_token_None [THEN iffD2] validate_plain_def Let_def
        split: option.split)
  have "(\<exists>i. find_participant s (tok_participant ?t) = Some i \<and>
      av_authorized (participant_verdict s (participant_at s i) request) \<and> \<not> dp_retired (participant_at s i))
    \<longleftrightarrow> (\<exists>p \<in> set (im_participants s). ?holds p)" (is "?a \<longleftrightarrow> ?b")
  proof
    assume ?a
    then obtain i where i: "find_participant s (tok_participant ?t) = Some i"
      "av_authorized (participant_verdict s (participant_at s i) request) \<and> \<not> dp_retired (participant_at s i)"
      by blast
    from find_participant_correct [OF im i(1)]
    have "participant_at s i \<in> set (im_participants s)" "dp_id (participant_at s i) = tok_participant ?t"
      by (simp_all add: participant_at_def)
    with i(2) [unfolded at] find_incarnation_current show ?b by blast
  next
    assume ?b
    then obtain p where p: "p \<in> set (im_participants s)" "?holds p" by blast
    with find_incarnation_wf [OF assms(1) p(1)] at [of p] find_participant_unique [OF assms(1) p(1)]
    show ?a by metis
  qed
  with l show ?thesis by simp
qed

lemma grant_verdict_current:
  assumes "counter_value (tok_incarnation (va_token request)) \<noteq> 0"
  shows "av_authorized (grant_verdict s g p request) \<longleftrightarrow>
    find_incarnation p (tok_boot (va_token request)) = Some (tok_incarnation (va_token request)) \<and>
    scope_set_contains (ag_scopes g) (va_scope request) \<and>
    (generation_expected request p \<or>
      ag_generation g = MonotonicCounter (counter_value (dp_registration_generation p)))"
  using evaluate_incarnation_current [of s p "tok_boot (va_token request)" "tok_incarnation (va_token request)"] assms
  by (auto simp: grant_verdict_def Let_def generation_expected_def split: option.split)

lemma validate_grant_iff:
  assumes "running_ok s" "token_wf (va_token request)" "va_grant request = Some gid"
  shows "av_authorized (validate_authority s request) \<longleftrightarrow>
    (\<exists>k p. lookup_grant s gid = Some k \<and> p \<in> set (im_participants s) \<and>
       (let g = st_grants (im_state s) ! k; t = va_token request in
        ag_epoch g = st_current_epoch (im_state s) \<and> \<not> ag_revoked g \<and> ag_boot g = tok_boot t \<and>
        dp_id p = ag_participant g \<and> (tok_boot t, tok_incarnation t) \<in> set (currents p) \<and>
        scope_set_contains (ag_scopes g) (va_scope request) \<and>
        (generation_expected request p \<or>
          ag_generation g = MonotonicCounter (counter_value (dp_registration_generation p)))))"
proof -
  let ?t = "va_token request"
  have im: "indexes_match s" using assms(1) by (simp add: running_ok_def)
  have claimed: "counter_value (tok_incarnation ?t) \<noteq> 0"
    using assms(2) by (simp add: token_wf_def counter_is_zero_def)
  have v: "validate_authority s request = validate_grant s request gid"
    using assms(2,3) by (simp add: validate_authority_def validate_token_None [THEN iffD2])
  have owner: "(\<exists>i. find_participant s pid = Some i \<and> Q (participant_at s i)) \<longleftrightarrow>
      (\<exists>p \<in> set (im_participants s). dp_id p = pid \<and> Q p)" for pid Q
  proof
    assume "\<exists>i. find_participant s pid = Some i \<and> Q (participant_at s i)"
    then show "\<exists>p \<in> set (im_participants s). dp_id p = pid \<and> Q p"
      using find_participant_correct [OF im] unfolding participant_at_def by (metis nth_mem)
  next
    assume "\<exists>p \<in> set (im_participants s). dp_id p = pid \<and> Q p"
    then show "\<exists>i. find_participant s pid = Some i \<and> Q (participant_at s i)"
      using find_participant_unique [OF assms(1)] by metis
  qed
  have refusal: "grant_refusal st g t = None \<longleftrightarrow>
      ag_epoch g = st_current_epoch st \<and> \<not> ag_revoked g \<and> ag_boot g = tok_boot t"
    and refused: "grant_refusal st g t = Some u \<Longrightarrow> \<not> av_authorized u" for st g t u
    by (auto simp: grant_refusal_def Let_def split: if_splits)
  show ?thesis
  proof (cases "lookup_grant s gid")
    case None
    then show ?thesis by (simp add: v validate_grant_def)
  next
    case (Some k)
    let ?g = "st_grants (im_state s) ! k"
    have "av_authorized (validate_grant s request gid) \<longleftrightarrow> grant_refusal (im_state s) ?g ?t = None \<and>
        (\<exists>i. find_participant s (ag_participant ?g) = Some i \<and>
           av_authorized (grant_verdict s ?g (participant_at s i) request))"
      using refused by (auto simp: validate_grant_def Some Let_def split: option.split)
    also have "(\<exists>i. find_participant s (ag_participant ?g) = Some i \<and>
        av_authorized (grant_verdict s ?g (participant_at s i) request)) \<longleftrightarrow>
        (\<exists>p \<in> set (im_participants s). dp_id p = ag_participant ?g \<and>
          av_authorized (grant_verdict s ?g p request))"
      by (rule owner)
    finally show ?thesis
      unfolding v refusal grant_verdict_current [OF claimed] Let_def
      using find_incarnation_wf [OF assms(1)] Some by auto
  qed
qed

lemma authorized_wf: "av_authorized (validate_authority s request) \<Longrightarrow> token_wf (va_token request)"
  by (auto simp: validate_authority_def validate_token_def token_wf_def split: if_splits)

text \<open>On either path the incarnation in the token is current.\<close>

lemma authorized_current:
  assumes "running_ok s" "av_authorized (validate_authority s request)"
  shows "\<exists>pid. acting_participant s request = Some pid \<and>
    current (im_state s) pid (tok_boot (va_token request)) (tok_incarnation (va_token request))"
proof -
  note wf = authorized_wf [OF assms(2)]
  show ?thesis
  proof (cases "va_grant request")
    case None
    then show ?thesis
      using assms(2) validate_plain_iff [OF assms(1) wf None]
      by (auto simp: acting_participant_def current_def)
  next
    case (Some gid)
    then show ?thesis
      using assms(2) validate_grant_iff [OF assms(1) wf Some]
      by (auto simp: acting_participant_def current_def Let_def)
  qed
qed

section \<open>Currentness only moves forward\<close>

lemma current_below_next:
  assumes "running_ok s" "p \<in> set (im_participants s)" "(boot, n) \<in> set (currents p)"
  shows "n < dp_next_incarnation p"
  using wf_participant [OF assms(1,2)] assms(3)
  by (auto simp: participant_wf_def currents_def split: if_splits)

lemma currents_of:
  assumes "running_ok s" "p \<in> set (im_participants s)"
  shows "current (im_state s) (dp_id p) boot n \<longleftrightarrow> (boot, n) \<in> set (currents p)"
proof -
  obtain i where "find_participant s (dp_id p) = Some i" "participant_at s i = p"
    using find_participant_unique [OF assms] .
  then show ?thesis
    using current_iff [OF assms(1), of "dp_id p" boot n] find_incarnation_wf [OF assms, of boot n]
    by simp
qed

lemma later_participant:
  assumes "state_le (im_state s) (im_state u)" "running_ok u" "p \<in> set (im_participants s)"
    and "r \<in> set (im_participants u)" "dp_id r = dp_id p"
  shows "participant_le p r"
proof -
  obtain q where "q \<in> set (im_participants u)" "participant_le p q"
    using assms(1,3) by (auto simp: state_le_def participants_le_def)
  moreover from this have "q = r"
    using distinct_map_eq [OF wf_distinct_ids [OF assms(2)], of q r] assms(4,5)
    by (auto simp: participant_le_def)
  ultimately show ?thesis by simp
qed

lemma not_current_again:
  assumes "running_ok s1" "running_ok s2" "running_ok s3"
    and "state_le (im_state s1) (im_state s2)" "state_le (im_state s2) (im_state s3)"
    and "current (im_state s1) pid boot n" "\<not> current (im_state s2) pid boot n"
  shows "\<not> current (im_state s3) pid boot n"
proof
  assume "current (im_state s3) pid boot n"
  then obtain r where r: "r \<in> set (im_participants s3)" "dp_id r = pid" "(boot, n) \<in> set (currents r)"
    by (auto simp: current_def)
  from assms(6) obtain p where p: "p \<in> set (im_participants s1)" "dp_id p = pid" "(boot, n) \<in> set (currents p)"
    by (auto simp: current_def)
  from assms(4) p obtain q where q: "q \<in> set (im_participants s2)" "participant_le p q"
    by (auto simp: state_le_def participants_le_def)
  have "(\<exists>q' \<in> set (im_participants s2). participant_le q' r) \<or> dp_id r \<notin> dp_id ` set (im_participants s2)"
    using assms(5) r(1) by (auto simp: state_le_def participants_le_def)
  moreover have id: "dp_id q = pid" using q(2) p(2) by (simp add: participant_le_def)
  ultimately obtain q' where q': "q' \<in> set (im_participants s2)" "participant_le q' r"
    using r(2) q(1) by (metis imageI)
  then have "dp_id q' = dp_id q" using id r(2) by (simp add: participant_le_def)
  with wf_distinct_ids [OF assms(2)] q'(1) q(1) have "q' = q" by (rule distinct_map_eq)
  moreover have "n < dp_next_incarnation q"
    using current_below_next [OF assms(1) p(1,3)] q(2) by (auto simp: participant_le_def)
  moreover have "(boot, n) \<notin> set (currents q)"
    using assms(7) currents_of [OF assms(2) q(1)] id by simp
  ultimately show False
    using q'(2) r(3) unfolding participant_le_def by auto
qed

end
