(* ===== verification/Indexes.thy ===== *)
theory Indexes
  imports Authority
begin

text \<open>
  Lookups through the secondary indexes are linear searches of the tables, as long as the indexes
  match the tables: \<open>find_fence_record\<close> finds the first retained record of the participant and boot,
  \<open>lookup_grant\<close> the grant with the identifier, \<open>children_ids\<close> the grants delegated from a grant.
\<close>

section \<open>Positions in a multi-index\<close>

fun positions_from :: "nat \<Rightarrow> ('a \<Rightarrow> 'k option) \<Rightarrow> 'a list \<Rightarrow> 'k \<Rightarrow> nat list" where
  "positions_from i key [] k = []"
| "positions_from i key (x # xs) k =
     (if key x = Some k then [i] else []) @ positions_from (Suc i) key xs k"

definition hits :: "('k \<rightharpoonup> nat list) \<Rightarrow> 'k \<Rightarrow> nat list" where
  "hits m k = (case m k of None \<Rightarrow> [] | Some is \<Rightarrow> is)"

lemma hits_multi_index:
  "hits (multi_index_from i key xs m) k = hits m k @ positions_from i key xs k"
proof (induction xs arbitrary: i m)
  case (Cons x xs)
  then show ?case by (cases "key x") (auto simp: hits_def)
qed simp

lemma positions_from_bounds: "j \<in> set (positions_from i key xs k) \<Longrightarrow> i \<le> j \<and> j < i + length xs"
proof (induction xs arbitrary: i)
  case (Cons x xs)
  then show ?case using Cons.IH [of "Suc i"] by (force split: if_splits)
qed simp

lemma map_positions_from:
  "map (\<lambda>j. xs ! (j - i)) (positions_from i key xs k) = filter (\<lambda>x. key x = Some k) xs"
proof (induction xs arbitrary: i)
  case (Cons x xs)
  have "map (\<lambda>j. (x # xs) ! (j - i)) (positions_from (Suc i) key xs k) =
      map (\<lambda>j. xs ! (j - Suc i)) (positions_from (Suc i) key xs k)"
    using positions_from_bounds [of _ "Suc i" key xs k]
    by (intro map_cong refl) (force simp: nth_Cons' Suc_le_eq)
  then show ?case by (simp add: Cons.IH)
qed simp

lemma multi_index_search:
  "map ((!) xs) (filter (\<lambda>i. i < length xs) (hits (multi_index_from 0 key xs Map.empty) k)) =
     filter (\<lambda>x. key x = Some k) xs"
proof -
  have h: "hits (multi_index_from 0 key xs Map.empty) k = positions_from 0 key xs k"
    by (simp add: hits_multi_index) (simp add: hits_def)
  have "filter (\<lambda>i. i < length xs) (positions_from 0 key xs k) = positions_from 0 key xs k"
    using positions_from_bounds [of _ 0 key xs k] by (auto simp: filter_id_conv)
  with map_positions_from [of xs 0 key k] show ?thesis by (simp add: h)
qed

section \<open>Fence records\<close>

lemma find_filter: "find P (filter Q xs) = find (\<lambda>x. P x \<and> Q x) xs"
  by (induction xs) auto

lemma find_fence_record_search:
  assumes "indexes_match s"
  shows "find_fence_record s pid boot =
    find (\<lambda>f. fr_participant f = pid \<and> fr_boot f = boot) (st_recent_fences (im_state s))"
proof -
  let ?fs = "st_recent_fences (im_state s)"
  have "find_fence_record s pid boot = find (\<lambda>f. fr_participant f = pid)
      (map ((!) ?fs) (filter (\<lambda>i. i < length ?fs) (hits (fence_index_of ?fs) (id_to_string boot))))"
    using assms by (simp add: find_fence_record_def hits_def indexes_match_def split: option.split)
  also have "\<dots> = find (\<lambda>f. fr_participant f = pid) (filter (\<lambda>f. fr_boot f = boot) ?fs)"
    unfolding fence_index_of_def multi_index_search by simp
  also have "\<dots> = find (\<lambda>f. fr_participant f = pid \<and> fr_boot f = boot) ?fs"
    by (rule find_filter)
  finally show ?thesis .
qed

lemma lookup_fence_iff:
  assumes "running_ok s" "p \<in> set (im_participants s)"
  shows "fl_fenced (lookup_fence s (dp_id p) boot) \<longleftrightarrow>
    boot \<in> set (dp_fenced_boots p) \<or>
    (\<exists>f \<in> set (st_recent_fences (im_state s)). fr_participant f = dp_id p \<and> fr_boot f = boot)"
proof -
  have "indexes_match s" using assms(1) by (simp add: running_ok_def)
  moreover obtain i where "find_participant s (dp_id p) = Some i" "participant_at s i = p"
    using find_participant_unique [OF assms] .
  ultimately show ?thesis
    by (auto simp: lookup_fence_def find_fence_record_search find_None_iff split: option.split
        dest: find_SomeD)
qed

section \<open>Grants\<close>

lemma grant_index_unique:
  assumes "running_ok s"
  shows "lookup_grant s gid = Some k \<longleftrightarrow>
    k < length (st_grants (im_state s)) \<and> ag_id (st_grants (im_state s) ! k) = gid"
proof -
  let ?gs = "st_grants (im_state s)"
  have "distinct (map (\<lambda>g. id_to_string (ag_id g)) ?gs)"
    using running_ok_wf(1) [OF assms] by (simp add: records_wf_iff)
  then have "grant_index_of ?gs (id_to_string gid) = Some k \<longleftrightarrow> k < length ?gs \<and> ag_id (?gs ! k) = gid" for k
    unfolding grant_index_of_def by (simp only: index_from_zero_eq_Some) simp
  moreover have "lookup_grant s gid = Some k \<longleftrightarrow>
      grant_index_of ?gs (id_to_string gid) = Some k \<and> k < length ?gs"
    using assms
    by (cases "grant_index_of ?gs (id_to_string gid)")
      (auto simp: lookup_grant_def running_ok_def indexes_match_def)
  ultimately show ?thesis by blast
qed

lemma children_ids_search:
  assumes "im_grant_children s = grant_children_of (st_grants (im_state s))"
  shows "children_ids s gid =
    map ag_id (filter (\<lambda>g. ag_parent g = Some gid) (st_grants (im_state s)))"
proof -
  let ?gs = "st_grants (im_state s)"
  let ?key = "\<lambda>g. map_option id_to_string (ag_parent g)"
  have h: "hits (grant_children_of ?gs) k = positions_from 0 ?key ?gs k" for k
    by (simp add: grant_children_of_def hits_multi_index) (simp add: hits_def)
  have "children_ids s gid = map (\<lambda>k. ag_id (?gs ! k)) (hits (grant_children_of ?gs) (id_to_string gid))"
    using assms by (simp add: children_ids_def hits_def split: option.split)
  also have "\<dots> = map ag_id (filter (\<lambda>g. ?key g = Some (id_to_string gid)) ?gs)"
    unfolding h map_positions_from [of ?gs 0 ?key "id_to_string gid", symmetric] by simp
  also have "filter (\<lambda>g. ?key g = Some (id_to_string gid)) ?gs = filter (\<lambda>g. ag_parent g = Some gid) ?gs"
    by (intro filter_cong) auto
  finally show ?thesis .
qed

end
