(* ===== verification/Effects.thy ===== *)
theory Effects
  imports Indexes
begin

text \<open>
  What the operations achieve: an advanced epoch ends every incarnation, a fence ends one, a
  retirement ends all of a participant's, a registration issues one.
\<close>

section \<open>Committed states\<close>

lemma committed_participants:
  "set (im_participants (committed io s)) = set (im_participants s)"
  by (simp add: frame_simps canonicalize_def)

lemma committed_fields:
  "st_current_epoch (im_state (committed io s)) = st_current_epoch (im_state s)"
  "st_coordinator_boot (im_state (committed io s)) = st_coordinator_boot (im_state s)"
  "st_generation (im_state (committed io s)) = st_generation (im_state s)"
  "st_grants (im_state (committed io s)) = st_grants (im_state s)"
  "st_transitions (im_state (committed io s)) = st_transitions (im_state s)"
  "st_recent_fences (im_state (committed io s)) = st_recent_fences (im_state s)"
  "st_control_attempts (im_state (committed io s)) = st_control_attempts (im_state s)"
  by (simp_all add: frame_simps canonicalize_def)

lemma current_committed:
  "current (im_state (committed io s)) pid boot n \<longleftrightarrow> current (im_state s) pid boot n"
  by (simp add: current_def committed_participants)

definition no_authority :: "DurableState \<Rightarrow> bool" where
  "no_authority st \<longleftrightarrow> (\<forall>p \<in> set (st_participants st). currents p = [])"

lemma no_authority_current: "no_authority st \<Longrightarrow> \<not> current st pid boot n"
  by (auto simp: no_authority_def current_def)

text \<open>Only an epoch transition changes the epoch and the coordinator boot.\<close>

definition same_term :: "impl \<Rightarrow> impl \<Rightarrow> bool" where
  "same_term s u \<longleftrightarrow>
     st_current_epoch (im_state u) = st_current_epoch (im_state s) \<and>
     st_coordinator_boot (im_state u) = st_coordinator_boot (im_state s) \<and> im_options u = im_options s"

interpretation same_term: tx_relation same_term
  by unfold_locales (auto simp: same_term_def)

lemma same_term_steps:
  "same_term s (upd_participant i f s)" "same_term s (set_generation g s)"
  "same_term s (set_fence_generation i g' s)" "same_term s (close_incarnation i boot seq s)"
  "same_term s (retain_fence i r s)"
  "same_term s (upd_state (\<lambda>st. st\<lparr> st_recent_fences := h st \<rparr>) s)"
  by (simp_all add: same_term_def upd_participant_def upd_state_def set_generation_def
      set_fence_generation_def close_incarnation_def retain_fence_def)

lemma bump_generation_term: "tx_keeps same_term bump_generation"
  unfolding bump_generation_def
  by (intro same_term.keeps_rules same_term.keeps_modify same_term_steps)

lemma record_fence_term: "tx_keeps same_term (record_fence pid boot reason nt allow)"
  unfolding record_fence_def live_fence_def defensive_fence_def Let_def
  by (intro same_term.keeps_rules same_term.keeps_modify bump_generation_term same_term_steps)

lemma replace_incumbent_term: "tx_keeps same_term (replace_incumbent request i)"
  unfolding replace_incumbent_def by (intro same_term.keeps_rules record_fence_term)

section \<open>Epochs\<close>

text \<open>What an epoch transition does to the records.\<close>

definition epoch_entered :: "DurableState \<Rightarrow> bool \<Rightarrow> DurableState \<Rightarrow> bool" where
  "epoch_entered st invalidate u \<longleftrightarrow>
     counter_nat (st_current_epoch u) = counter_nat (st_current_epoch st) + 1 \<and>
     counter_nat (st_generation u) = counter_nat (st_generation st) + 1 \<and>
     st_grants u = st_grants st \<and> st_recent_fences u = st_recent_fences st \<and>
     set (st_participants u) =
       (if invalidate then invalidate_participant ` set (st_participants st)
        else set (st_participants st)) \<and>
     st_transitions u \<noteq> [] \<and> tr_from_epoch (last (st_transitions u)) = st_current_epoch st \<and>
     tr_to_epoch (last (st_transitions u)) = st_current_epoch u"

lemma last_push_bounded: "last (push_bounded n x xs) = x"
  by (simp add: push_bounded_def)

lemma mutate_epoch_entered:
  assumes "mutate_epoch env boot cause invalidate t = (Inr x, t')"
  shows "epoch_entered (im_state (tx_impl t)) invalidate (im_state (tx_impl t'))"
    "st_coordinator_boot (im_state (tx_impl t')) = boot"
  using mutate_epoch_effect [OF assms]
  by (auto simp: epoch_entered_def push_transition_def enter_epoch_def set_epoch_def upd_state_def
      counter_next_eq_Some last_push_bounded transition_record_def)

lemma epoch_entered_committed:
  "epoch_entered st i (im_state (committed io s)) \<longleftrightarrow> epoch_entered st i (im_state s)"
  unfolding epoch_entered_def committed_fields committed_participants ..

lemma epoch_entered_no_authority: "epoch_entered st True u \<Longrightarrow> no_authority u"
  by (auto simp: epoch_entered_def no_authority_def)

lemma advance_replay_not_advanced:
  "eo_replayed (advance_replay st request digest r) \<or>
     eo_outcome (advance_replay st request digest r) \<noteq> EpochAdvanceOutcome.Advanced"
  by (auto simp: advance_replay_def advance_result_def Let_def)

text \<open>An advance either replays or refuses, and then changes nothing, or enters the next epoch.\<close>

lemma advance_epoch_cases:
  assumes "advance_epoch env request s = (Inr r, s')"
  shows "(s' = s \<and> (eo_replayed r \<or> eo_outcome r \<noteq> EpochAdvanceOutcome.Advanced)) \<or>
    (epoch_entered (im_state s) True (im_state s') \<and> saved s' \<and> indexes_match s' \<and>
     eo_outcome r = EpochAdvanceOutcome.Advanced \<and> \<not> eo_replayed r \<and>
     eo_epoch r = st_current_epoch (im_state s'))"
proof -
  have b: "tx_impl (begin_tx s) = s" by (simp add: begin_tx_def)
  have refused: "eo_outcome q \<noteq> EpochAdvanceOutcome.Advanced"
    if "advance_screen (im_state s) request = Some q" for q
    using that by (auto simp: advance_screen_def advance_result_def split: if_splits)
  have still: "s' = s \<and> r = q" if "end_tx (Inr q, begin_tx s) = (Inr r, s')" for q
    using that by (auto simp: end_tx_def undo_rollback_def begin_tx_def)
  from assms consider (same) q where "end_tx (Inr q, begin_tx s) = (Inr r, s')"
      "eo_replayed q \<or> eo_outcome q \<noteq> EpochAdvanceOutcome.Advanced"
    | (moved) digest where "end_tx (enter_advance env request digest (begin_tx s)) = (Inr r, s')"
    using refused advance_replay_not_advanced
    by (cases "advance_digest request")
      (auto simp: advance_epoch_def advance_body_def b tx_basic tx_bind_apply tx_bind_lift Let_def
        advance_result_def end_tx_def split: if_splits option.splits)
  then show ?thesis
  proof cases
    case same
    with still show ?thesis by blast
  next
    case moved
    from advance_commit [OF moved] obtain x t where
      t: "move_epoch env request digest (begin_tx s) = (Inr x, t)"
      "s' = committed (en_io env) (tx_impl t)" "saved s'" by auto
    from t(1) obtain y t1 where
      m: "mutate_epoch env (st_coordinator_boot (im_state s)) (eq_cause request) True (begin_tx s) = (Inr y, t1)"
      "tx_impl t = remember_control (advance_record request digest (st_current_epoch (im_state (tx_impl t1)))) (tx_impl t1)"
      by (auto simp: move_epoch_def tx_simps b tx_bind_def [of "mutate_epoch env x c True" for x c]
          split: prod.splits sum.splits)
    have "epoch_entered (im_state s) True (im_state (tx_impl t1))"
      using mutate_epoch_entered(1) [OF m(1)] by (simp add: b)
    then have "epoch_entered (im_state s) True (im_state (tx_impl t))"
      by (simp add: m(2) epoch_entered_def remember_control_def upd_state_def)
    moreover have "eo_outcome r = EpochAdvanceOutcome.Advanced \<and> \<not> eo_replayed r \<and>
        eo_epoch r = st_current_epoch (im_state s')"
    proof -
      obtain q t2 where p: "persist (en_io env) t = (q, t2)" by (cases "persist (en_io env) t")
      then obtain z where q: "q = Inr z"
        using moved t(1) by (cases q) (auto simp: enter_advance_def tx_bind_def end_tx_def)
      from persist_returns [OF p [unfolded q]] have "tx_impl t2 = s'" using t(2) by simp
      moreover have "r = advance_accepted request (im_state (tx_impl t2))"
        using moved t(1) p q by (auto simp: enter_advance_def tx_bind_def end_tx_def tx_basic)
      ultimately show ?thesis by (simp add: advance_accepted_def advance_result_def)
    qed
    ultimately show ?thesis
      using t by (simp add: epoch_entered_committed)
  qed
qed

text \<open>Opening with the default options enters a new epoch.\<close>

lemma open_runtime_entered:
  assumes "open_runtime env opts d = (Inr s, d')" "op_advance_epoch_on_open opts" "holds d st"
  shows "epoch_entered st (\<not> counter_is_zero (st_current_epoch st)) (im_state s)"
  using assms(1)
proof (cases rule: open_runtime_cases)
  case (moved u boot cause q s1)
  have u: "u = st" using open_inputs_load [OF moved(1)] assms(3) by (rule store_load_holds)
  from moved(3) obtain x where q: "q = Inr x" "s1 = s" by (cases q) auto
  from establish_commit [OF moved(2)] obtain y t where
    "mutate_epoch env boot cause (\<not> counter_is_zero (st_current_epoch u))
      (begin_tx (opened opts d u boot)) = (Inr y, t)" "s = committed (en_io env) (tx_impl t)"
    using q by auto
  with mutate_epoch_entered(1) show ?thesis
    using u by (fastforce simp: epoch_entered_committed begin_tx_def opened_facts)
qed (use assms(2) in auto)

section \<open>Fencing\<close>

text \<open>The record of a participant after a current incarnation of it has been fenced.\<close>

definition fenced_participant ::
  "Limits \<Rightarrow> WorkerBootId \<Rightarrow> IncarnationSequence \<Rightarrow> FencingGeneration \<Rightarrow> DurableParticipant \<Rightarrow> DurableParticipant"
where
  "fenced_participant limits boot seq g p =
     (let q = raise_floor seq (remove_live boot p)
      in q\<lparr> dp_fence_generation := g,
        dp_fenced_boots := push_bounded (max_fenced_boots_per_participant limits) boot (dp_fenced_boots q) \<rparr>)"

lemma bump_generation_effect:
  assumes "bump_generation t = (Inr x, t')"
  shows "\<exists>g. counter_next (st_generation (im_state (tx_impl t))) = Some g \<and>
    tx_impl t' = set_generation g (tx_impl t) \<and> tx_mutated t' = tx_mutated t"
  using assms by (auto simp: bump_generation_def tx_simps tx_next_def split: option.splits)

lemma set_generation_frame [frame_simps]:
  "im_participants (set_generation g s) = im_participants s"
  "st_recent_fences (im_state (set_generation g s)) = st_recent_fences (im_state s)"
  "st_grants (im_state (set_generation g s)) = st_grants (im_state s)"
  "st_current_epoch (im_state (set_generation g s)) = st_current_epoch (im_state s)"
  "im_participant_index (set_generation g s) = im_participant_index s"
  "im_options (set_generation g s) = im_options s"
  by (simp_all add: set_generation_def)

lemma live_fence_effect:
  assumes "live_fence i pid boot seq reason text t = (Inr r, t')" "i < length (im_participants (tx_impl t))"
  shows "fo_outcome r = FenceOutcome.Fenced \<and> fo_incarnation r = Some seq \<and>
    (\<exists>g. fo_generation r = Some g \<and>
      im_participant_index (tx_impl t') = im_participant_index (tx_impl t) \<and>
      im_participants (tx_impl t') = (im_participants (tx_impl t))
        [i := fenced_participant (im_limits (tx_impl t)) boot seq g (participant_at (tx_impl t) i)] \<and>
      st_recent_fences (im_state (tx_impl t')) =
        push_bounded (max_recent_fences (im_limits (tx_impl t)))
          (fence_record (im_state (tx_impl t)) pid boot reason text g seq)
          (st_recent_fences (im_state (tx_impl t))))"
  using assms
  by (auto simp: live_fence_def tx_simps tx_next_def Let_def fence_result_def tx_bind_def [of bump_generation]
      dest!: bump_generation_effect split: option.splits prod.splits sum.splits)
    (auto simp: frame_simps fenced_participant_def Let_def retain_fence_def set_fence_generation_def
      close_incarnation_def upd_participant_def upd_state_def participant_at_def fence_record_def)

lemma defensive_fence_effect:
  assumes "defensive_fence i pid boot reason text t = (Inr r, t')" "i < length (im_participants (tx_impl t))"
  shows "fo_outcome r = FenceOutcome.Fenced \<and>
    (\<exists>g. fo_generation r = Some g \<and>
      im_participant_index (tx_impl t') = im_participant_index (tx_impl t) \<and>
      im_participants (tx_impl t') = (im_participants (tx_impl t))
        [i := (participant_at (tx_impl t) i)\<lparr> dp_fence_generation := g \<rparr>] \<and>
      st_recent_fences (im_state (tx_impl t')) = st_recent_fences (im_state (tx_impl t)) @
        [fence_record (im_state (tx_impl t)) pid boot reason text g (MonotonicCounter 0)])"
  using assms
  by (auto simp: defensive_fence_def tx_simps tx_next_def Let_def fence_result_def tx_bind_def [of bump_generation]
      dest!: bump_generation_effect split: option.splits prod.splits sum.splits)
    (auto simp: frame_simps set_fence_generation_def upd_participant_def upd_state_def participant_at_def
      fence_record_def)

lemma currents_remove_live_eq:
  assumes "distinct (participant_boots p)"
  shows "set (currents (remove_live boot p)) = {(b, n) \<in> set (currents p). b \<noteq> boot}"
  using assms
  by (auto simp: currents_def remove_live_def participant_boots_def image_iff
      split: list.splits if_splits) metis

lemma currents_fenced_participant:
  "currents (fenced_participant limits boot seq g p) = currents (remove_live boot p)"
  by (simp add: fenced_participant_def currents_def Let_def raise_floor_def)

lemma fenced_participant_fields:
  "dp_id (fenced_participant limits boot seq g p) = dp_id p"
  "boot \<in> set (dp_fenced_boots (fenced_participant limits boot seq g p))"
  "seq \<le> dp_incarnation_floor (fenced_participant limits boot seq g p)"
  "dp_retired (fenced_participant limits boot seq g p) = dp_retired p"
  "dp_next_incarnation (fenced_participant limits boot seq g p) = dp_next_incarnation p"
  "dp_idempotency (fenced_participant limits boot seq g p) = dp_idempotency p"
  "dp_scopes (fenced_participant limits boot seq g p) = dp_scopes p"
  by (auto simp: fenced_participant_def Let_def raise_floor_def remove_live_def split: list.splits)

text \<open>Replacing one record of a table whose identifiers are distinct.\<close>

lemma set_update_distinct:
  assumes "distinct (map dp_id ps)" "i < length ps"
  shows "set (ps[i := q]) = insert q {p \<in> set ps. dp_id p \<noteq> dp_id (ps ! i)}"
proof -
  have "ps ! j \<noteq> ps ! i \<longrightarrow> dp_id (ps ! j) \<noteq> dp_id (ps ! i)" if "j < length ps" for j
    using assms that by (metis distinct_map_eq nth_mem)
  moreover have "ps ! j = ps ! i \<longleftrightarrow> j = i" if "j < length ps" for j
    using assms that by (metis distinct_map nth_eq_iff_index_eq)
  ultimately show ?thesis
    using assms(2) by (auto simp: set_conv_nth nth_list_update) (metis nth_list_update_neq)
qed

text \<open>A step that changes the record of one participant.\<close>

definition record_replaced :: "impl \<Rightarrow> ParticipantId \<Rightarrow> DurableParticipant \<Rightarrow> DurableParticipant \<Rightarrow> impl \<Rightarrow> bool"
where
  "record_replaced s pid p q s' \<longleftrightarrow>
     p \<in> set (im_participants s) \<and> dp_id p = pid \<and> dp_id q = pid \<and>
     set (im_participants s') = insert q {x \<in> set (im_participants s). dp_id x \<noteq> pid}"

lemma record_replaced_update:
  assumes "running_ok s" "find_participant s pid = Some i"
    and "set (im_participants s') = set ((im_participants s)[i := q])"
    and "dp_id q = dp_id (participant_at s i)"
  shows "record_replaced s pid (participant_at s i) q s'"
proof -
  have "indexes_match s" using assms(1) by (simp add: running_ok_def)
  from find_participant_correct [OF this assms(2)]
  have "i < length (im_participants s)" "dp_id (im_participants s ! i) = pid"
    by (simp_all add: participant_at_def)
  with assms wf_distinct_ids [OF assms(1)] show ?thesis
    by (simp add: record_replaced_def set_update_distinct participant_at_def)
qed

lemma record_replaced_current:
  assumes "record_replaced s pid p q s'"
  shows "current (im_state s') pid' boot n \<longleftrightarrow>
    (if pid' = pid then (boot, n) \<in> set (currents q) else current (im_state s) pid' boot n)"
  using assms by (auto simp: record_replaced_def current_def)

definition fresh_attempt :: "impl \<Rightarrow> ParticipantId \<Rightarrow> MutationAttemptId \<Rightarrow> bool" where
  "fresh_attempt s pid attempt \<longleftrightarrow>
     (\<forall>p \<in> set (im_participants s). dp_id p = pid \<longrightarrow> find_attempt (dp_idempotency p) attempt = None)"

lemma fresh_attempt_at:
  "running_ok s \<Longrightarrow> fresh_attempt s pid attempt \<Longrightarrow> find_participant s pid = Some i \<Longrightarrow>
     find_attempt (dp_idempotency (participant_at s i)) attempt = None"
  using find_participant_correct [of s pid i]
  by (auto simp: fresh_attempt_def running_ok_def participant_at_def)

text \<open>The body of a fence that takes effect.\<close>

lemma record_fence_cases:
  assumes "record_fence pid boot reason text allow t = (Inr r, t')"
  obtains (unchanged) "t' = t" "fo_outcome r \<noteq> FenceOutcome.Fenced"
  | (live) i seq where "find_participant (tx_impl t) pid = Some i"
      "\<not> fl_fenced (lookup_fence (tx_impl t) pid boot)"
      "find_incarnation (participant_at (tx_impl t) i) boot = Some seq"
      "live_fence i pid boot seq reason text t = (Inr r, t')"
  | (defensive) i where "find_participant (tx_impl t) pid = Some i" "allow"
      "\<not> fl_fenced (lookup_fence (tx_impl t) pid boot)"
      "find_incarnation (participant_at (tx_impl t) i) boot = None"
      "defensive_fence i pid boot reason text t = (Inr r, t')"
  using assms
  by (auto simp: record_fence_def tx_simps Let_def fence_unknown_participant_def fence_result_def
      fence_already_def fence_not_current_def fence_history_full_def split: option.splits if_splits)

definition fence_effect ::
  "impl \<Rightarrow> ParticipantId \<Rightarrow> WorkerBootId \<Rightarrow> FencingGeneration \<Rightarrow> DurableParticipant \<Rightarrow> DurableParticipant \<Rightarrow> bool"
where
  "fence_effect s pid boot g p q \<longleftrightarrow>
     (case find_incarnation p boot of
        Some seq \<Rightarrow> q = fenced_participant (im_limits s) boot seq g p
      | None \<Rightarrow> q = p\<lparr> dp_fence_generation := g \<rparr>)"

lemma record_fence_effect:
  assumes "record_fence pid boot reason text allow t = (Inr r, t')" "fo_outcome r = FenceOutcome.Fenced"
  shows "\<exists>i g q. find_participant (tx_impl t) pid = Some i \<and> fo_generation r = Some g \<and>
    im_participant_index (tx_impl t') = im_participant_index (tx_impl t) \<and>
    im_participants (tx_impl t') = (im_participants (tx_impl t))[i := q] \<and>
    fence_effect (tx_impl t) pid boot g (participant_at (tx_impl t) i) q \<and>
    fr_boot (last (st_recent_fences (im_state (tx_impl t')))) = boot \<and>
    fr_participant (last (st_recent_fences (im_state (tx_impl t')))) = pid \<and>
    st_recent_fences (im_state (tx_impl t')) \<noteq> []"
  using assms(1)
proof (cases rule: record_fence_cases)
  case unchanged
  with assms(2) show ?thesis by simp
next
  case (live i seq)
  from live_fence_effect [OF live(4) find_participant_less [OF live(1)]] live show ?thesis
    by (auto simp: fence_effect_def fence_record_def last_push_bounded)
next
  case (defensive i)
  from defensive_fence_effect [OF defensive(5) find_participant_less [OF defensive(1)]] defensive show ?thesis
    by (auto simp: fence_effect_def fence_record_def)
qed

lemma fence_effect_fields:
  assumes "fence_effect s pid boot g p q"
  shows "dp_id q = dp_id p" "dp_retired q = dp_retired p" "dp_idempotency q = dp_idempotency p"
    "dp_scopes q = dp_scopes p" "dp_next_incarnation q = dp_next_incarnation p"
  using assms by (auto simp: fence_effect_def fenced_participant_fields split: option.splits)

lemma fence_effect_currents:
  assumes "fence_effect s pid boot g p q" "distinct (participant_boots p)"
  shows "set (currents q) = {(b, n) \<in> set (currents p). b \<noteq> boot}"
proof (cases "find_incarnation p boot")
  case None
  then have q: "q = p\<lparr> dp_fence_generation := g \<rparr>" and boot: "boot \<notin> fst ` set (currents p)"
    using assms find_incarnation_None [of p boot] currents_boots [of p]
    by (auto simp: fence_effect_def simp flip: set_map)
  have "currents q = currents p" by (simp add: q currents_def)
  with boot show ?thesis by (auto simp: image_iff)
next
  case (Some seq)
  with assms show ?thesis
    by (simp add: fence_effect_def currents_fenced_participant currents_remove_live_eq)
qed

lemma fence_worker_effect:
  assumes "running_ok s" "fence_worker io request s = (Inr r, s')"
    and "fresh_attempt s (fw_participant request) (fw_attempt request)"
    and "fo_outcome r = FenceOutcome.Fenced"
  shows "\<exists>p q g. record_replaced s (fw_participant request) p q s' \<and> running_ok s' \<and>
    set (currents q) = {(b, n) \<in> set (currents p). b \<noteq> fw_boot request} \<and>
    fo_generation r = Some g \<and> dp_retired q = dp_retired p"
proof -
  let ?pid = "fw_participant request"
  have b: "tx_impl (begin_tx s) = s" "\<not> tx_mutated (begin_tx s)" by (simp_all add: begin_tx_def)
  have body: "\<exists>t1. record_fence ?pid (fw_boot request) (fw_reason request) (fw_note request) True (begin_tx s)
        = (Inr r, t1) \<and> tx_mutated t = tx_mutated t1 \<and>
      (tx_impl t = tx_impl t1 \<or> (\<exists>j rec. tx_impl t = remember_for_participant rec j (tx_impl t1) \<and>
          find_participant (tx_impl t1) ?pid = Some j))"
    if "fence_body request (begin_tx s) = (Inr r, t)" for t
  proof -
    have screen: "fo_outcome q \<noteq> FenceOutcome.Fenced" if "fence_screen (im_state s) request = Some q" for q
      using that by (auto simp: fence_screen_def fence_result_def split: if_splits)
    from that assms(4) show ?thesis
      using fresh_attempt_at [OF assms(1,3)] screen
      by (cases "fence_digest request")
        (auto simp: fence_body_def b tx_basic tx_bind_apply tx_bind_lift Let_def fence_unknown_participant_def
          fence_result_def tx_bind_def [of "record_fence p b' c d e" for p b' c d e]
          split: option.splits prod.splits sum.splits if_splits)
  qed
  have "tx_quiet (fence_body request)" by (rule fence_body_quiet)
  then show ?thesis
    using assms(2) unfolding fence_worker_def
  proof (cases rule: run_tx_returns)
    case 1
    from body [OF 1(2)] obtain t1 where
      t1: "record_fence ?pid (fw_boot request) (fw_reason request) (fw_note request) True (begin_tx s) = (Inr r, t1)"
      "\<not> tx_mutated t1"
      using b(2) by auto
    from t1(1) show ?thesis
    proof (cases rule: record_fence_cases)
      case unchanged
      with assms(4) show ?thesis by simp
    next
      case (live i seq)
      with t1(2) live_fence_marks show ?thesis unfolding tx_marks_def by blast
    next
      case (defensive i)
      with t1(2) defensive_fence_marks show ?thesis unfolding tx_marks_def by blast
    qed
  next
    case (2 t)
    from body [OF 2(1)] obtain t1 where
      t1: "record_fence ?pid (fw_boot request) (fw_reason request) (fw_note request) True (begin_tx s) = (Inr r, t1)"
      "tx_impl t = tx_impl t1 \<or> (\<exists>j rec. tx_impl t = remember_for_participant rec j (tx_impl t1) \<and>
          find_participant (tx_impl t1) ?pid = Some j)" by blast
    from record_fence_effect [OF t1(1) assms(4)] obtain i g q where
      q: "find_participant s ?pid = Some i" "fo_generation r = Some g"
      "im_participant_index (tx_impl t1) = im_participant_index s"
      "im_participants (tx_impl t1) = (im_participants s)[i := q]"
      "fence_effect s ?pid (fw_boot request) g (participant_at s i) q"
      unfolding b(1) by blast
    have "find_participant (tx_impl t1) ?pid = Some i"
      using q(1,3,4) find_participant_cong [of "tx_impl t1" s] by simp
    then have "\<exists>x. set (im_participants s') = set ((im_participants s)[i := q\<lparr> dp_idempotency := x \<rparr>])"
    proof -
      have "set (im_participants s') = set (im_participants (tx_impl t))"
        using 2(3) committed_participants by simp
      then show ?thesis
        using t1(2) q(4) find_participant_less [OF q(1)] \<open>find_participant (tx_impl t1) ?pid = Some i\<close>
        by (auto simp: remember_for_participant_def frame_simps participant_at_def
            intro: exI [of _ "dp_idempotency q"])
    qed
    then obtain x where "set (im_participants s') = set ((im_participants s)[i := q\<lparr> dp_idempotency := x \<rparr>])" ..
    then have "record_replaced s ?pid (participant_at s i) (q\<lparr> dp_idempotency := x \<rparr>) s'"
      using fence_effect_fields [OF q(5)] by (intro record_replaced_update [OF assms(1) q(1)]) simp_all
    moreover have "set (currents (q\<lparr> dp_idempotency := x \<rparr>)) =
        {(b, n) \<in> set (currents (participant_at s i)). b \<noteq> fw_boot request}"
    proof -
      have "distinct (participant_boots (participant_at s i))"
        using wf_participant [OF assms(1)] find_participant_less [OF q(1)]
        by (simp add: participant_wf_def participant_at_def)
      moreover have "currents (q\<lparr> dp_idempotency := x \<rparr>) = currents q" by (simp add: currents_def)
      ultimately show ?thesis using fence_effect_currents [OF q(5)] by simp
    qed
    moreover have "running_ok s'"
      using run_tx_serves [OF assms(1) fence_body_quiet fence_body_progress] assms(2)
      by (auto simp: fence_worker_def serves_def)
    moreover have "dp_retired (q\<lparr> dp_idempotency := x \<rparr>) = dp_retired (participant_at s i)"
      using fence_effect_fields(2) [OF q(5)] by simp
    ultimately show ?thesis
      using q(2) by blast
  qed
qed

section \<open>Registration\<close>

text \<open>The record a registration issues an incarnation on, and the one it leaves.\<close>

definition issued ::
  "RegisterParticipantRequest \<Rightarrow> IncarnationSequence \<Rightarrow> RegistrationGeneration \<Rightarrow> DurableParticipant \<Rightarrow>
   DurableParticipant \<Rightarrow> bool"
where
  "issued request n g p q \<longleftrightarrow>
     n = dp_next_incarnation p \<and> counter_nat (dp_next_incarnation q) = counter_nat n + 1 \<and>
     dp_id q = dp_id p \<and> dp_scopes q = rp_scopes request \<and> dp_policy q = rp_policy request \<and>
     dp_registration_generation q = g \<and> \<not> dp_retired q \<and> \<not> dp_revalidation_required q \<and>
     dp_fenced_boots q = dp_fenced_boots p \<and> dp_incarnation_floor q = dp_incarnation_floor p \<and>
     set (currents q) = insert (rp_boot request, n) (set (currents p))"

lemma enter_incarnation_participants:
  assumes "i < length (im_participants s)"
  shows "im_participants (enter_incarnation request digest i g n n' s) =
    (im_participants s)[i := (issue_incarnation request g n n' (participant_at s i))
       \<lparr> dp_idempotency := remember_attempt (im_limits s) (registration_record request digest g n)
          (dp_idempotency (participant_at s i)) \<rparr>]"
    "st_recent_fences (im_state (enter_incarnation request digest i g n n' s)) = st_recent_fences (im_state s)"
    "st_current_epoch (im_state (enter_incarnation request digest i g n n' s)) = st_current_epoch (im_state s)"
  using assms
  by (simp_all add: enter_incarnation_def Let_def remember_for_participant_def upd_participant_def
      upd_state_def participant_at_def issue_incarnation_def)

lemma set_registration_floor_frame [frame_simps]:
  "im_participants (set_registration_floor g s) = im_participants s"
  "participant_at (set_registration_floor g s) i = participant_at s i"
  "im_options (set_registration_floor g s) = im_options s"
  "st_recent_fences (im_state (set_registration_floor g s)) = st_recent_fences (im_state s)"
  "st_current_epoch (im_state (set_registration_floor g s)) = st_current_epoch (im_state s)"
  by (simp_all add: set_registration_floor_def upd_state_def participant_at_def)

lemma issued_issue:
  assumes "counter_next (dp_next_incarnation p) = Some n'"
  shows "issued request (dp_next_incarnation p) g p
    ((issue_incarnation request g (dp_next_incarnation p) n' p)\<lparr> dp_idempotency := x \<rparr>)"
  using assms by (auto simp: issued_def issue_incarnation_def currents_def Let_def counter_next_eq_Some)

lemma issue_registration_shape:
  assumes "issue_registration request c digest i t = (Inr r, t')"
  shows "\<exists>g n' gen. counter_next (st_registration_floor (im_state (tx_impl t))) = Some g \<and>
    counter_next (dp_next_incarnation (participant_at (tx_impl t) i)) = Some n' \<and>
    r = registration_accepted (im_state (tx_impl t)) request g (dp_next_incarnation (participant_at (tx_impl t) i)) \<and>
    (tx_impl t' = enter_incarnation request digest i g (dp_next_incarnation (participant_at (tx_impl t) i)) n'
        (set_registration_floor g (tx_impl t)) \<or>
     tx_impl t' = set_generation gen (enter_incarnation request digest i g
        (dp_next_incarnation (participant_at (tx_impl t) i)) n' (set_registration_floor g (tx_impl t))))"
  using assms
  by (auto simp: issue_registration_def tx_simps tx_next_def Let_def tx_bind_def [of bump_generation]
      dest!: bump_generation_effect split: option.splits prod.splits sum.splits if_splits)

lemma issue_registration_effect:
  assumes "issue_registration request c digest i t = (Inr r, t')" "i < length (im_participants (tx_impl t))"
  shows "\<exists>q g n. rr_outcome r = RegistrationOutcome.Registered \<and> rr_incarnation r = Some n \<and>
    rr_generation r = Some g \<and> \<not> rr_replayed r \<and>
    counter_next (st_registration_floor (im_state (tx_impl t))) = Some g \<and>
    im_participants (tx_impl t') = (im_participants (tx_impl t))[i := q] \<and>
    issued request n g (participant_at (tx_impl t) i) q \<and>
    dp_idempotency q = remember_attempt (im_limits (tx_impl t)) (registration_record request digest g n)
      (dp_idempotency (participant_at (tx_impl t) i)) \<and>
    st_recent_fences (im_state (tx_impl t')) = st_recent_fences (im_state (tx_impl t)) \<and>
    st_current_epoch (im_state (tx_impl t')) = st_current_epoch (im_state (tx_impl t))"
proof -
  from issue_registration_shape [OF assms(1)] obtain g n' gen where
    g: "counter_next (st_registration_floor (im_state (tx_impl t))) = Some g"
    "counter_next (dp_next_incarnation (participant_at (tx_impl t) i)) = Some n'"
    "r = registration_accepted (im_state (tx_impl t)) request g (dp_next_incarnation (participant_at (tx_impl t) i))"
    and u: "tx_impl t' = enter_incarnation request digest i g (dp_next_incarnation (participant_at (tx_impl t) i)) n'
        (set_registration_floor g (tx_impl t)) \<or>
     tx_impl t' = set_generation gen (enter_incarnation request digest i g
        (dp_next_incarnation (participant_at (tx_impl t) i)) n' (set_registration_floor g (tx_impl t)))"
    by blast
  have len: "i < length (im_participants (set_registration_floor g (tx_impl t)))"
    using assms(2) by (simp add: frame_simps)
  note enter = enter_incarnation_participants [OF len]
  let ?n = "dp_next_incarnation (participant_at (tx_impl t) i)"
  let ?q = "(issue_incarnation request g ?n n' (participant_at (tx_impl t) i))
    \<lparr> dp_idempotency := remember_attempt (im_limits (tx_impl t)) (registration_record request digest g ?n)
        (dp_idempotency (participant_at (tx_impl t) i)) \<rparr>"
  have "issued request ?n g (participant_at (tx_impl t) i) ?q"
    using g(2) by (rule issued_issue)
  moreover have "im_participants (tx_impl t') = (im_participants (tx_impl t))[i := ?q]"
    "st_recent_fences (im_state (tx_impl t')) = st_recent_fences (im_state (tx_impl t))"
    "st_current_epoch (im_state (tx_impl t')) = st_current_epoch (im_state (tx_impl t))"
    using u by (auto simp: frame_simps enter)
  moreover have "rr_outcome r = RegistrationOutcome.Registered" "rr_incarnation r = Some ?n"
    "rr_generation r = Some g" "\<not> rr_replayed r"
    using g(3) by (simp_all add: registration_accepted_def registration_result_def)
  ultimately show ?thesis
    using g(1) by (intro exI [of _ ?q] exI [of _ g] exI [of _ ?n]) simp
qed

lemma registration_screen_refuses:
  "registration_screen s request = Some q \<Longrightarrow> rr_outcome q \<noteq> RegistrationOutcome.Registered"
  by (auto simp: registration_screen_def registration_shape_def registration_scopes_def
      registration_epoch_def registration_known_def registration_malformed_def registration_result_def
      Let_def split: option.splits if_splits)

lemma registration_decision_refuses:
  "registration_decision s request digest i = Some q \<Longrightarrow>
     rr_outcome q \<noteq> RegistrationOutcome.Registered \<or> rr_replayed q"
  by (auto simp: registration_decision_def registration_replay_def registration_conflict_def
      registration_policy_def registration_active_def registration_incumbent_def registration_result_def
      Let_def split: option.splits if_splits)

lemma registration_limits_refuses:
  "registration_limits found s = Some q \<Longrightarrow> rr_outcome q \<noteq> RegistrationOutcome.Registered"
  by (auto simp: registration_limits_def registration_result_def split: if_splits)

lemma replace_incumbent_refuses:
  "replace_incumbent request i t = (Inr (Some q), t') \<Longrightarrow> rr_outcome q \<noteq> RegistrationOutcome.Registered"
  by (auto simp: replace_incumbent_def tx_simps tx_bind_def [of "record_fence a b c d e" for a b c d e]
      registration_result_def split: if_splits prod.splits sum.splits)

lemma apply_registration_registered:
  assumes "apply_registration request c t = (Inr r, t')"
    and "rr_outcome r = RegistrationOutcome.Registered" "\<not> rr_replayed r"
  shows "\<exists>digest found t1. register_digest request = Inr digest \<and>
    registration_screen (tx_impl t) request = None \<and>
    find_participant (tx_impl t) (rp_participant request) = found \<and>
    (case found of None \<Rightarrow> t1 = t
     | Some i \<Rightarrow> registration_decision (tx_impl t) request digest i = None \<and>
         replace_incumbent request i t = (Inr None, t1)) \<and>
    registration_limits found (tx_impl t1) = None \<and>
    accept_registration request c digest found t1 = (Inr r, t')"
  using assms registration_screen_refuses registration_decision_refuses registration_limits_refuses
    replace_incumbent_refuses
  by (cases "register_digest request"; cases "find_participant (tx_impl t) (rp_participant request)")
    (fastforce simp: apply_registration_def finish_registration_def tx_simps
      tx_bind_def [of "replace_incumbent a b" for a b] split: option.splits prod.splits sum.splits)+

text \<open>No retained fence record names a current incarnation.\<close>

definition fences_respected :: "DurableState \<Rightarrow> bool" where
  "fences_respected st \<longleftrightarrow>
     (\<forall>f \<in> set (st_recent_fences st). \<forall>p \<in> set (st_participants st).
        dp_id p = fr_participant f \<longrightarrow> fr_boot f \<notin> set (participant_boots p))"

lemma live_boot_not_fenced:
  assumes "running_ok s" "fences_respected (im_state s)" "p \<in> set (im_participants s)"
    and "boot \<in> set (participant_boots p)"
  shows "\<not> fl_fenced (lookup_fence s (dp_id p) boot)"
  using assms(2-4) wf_participant [OF assms(1,3)]
  by (auto simp: lookup_fence_iff [OF assms(1,3)] fences_respected_def participant_wf_def)

lemma incumbent_current: "has_current_incarnation p \<Longrightarrow> incumbent_boot p \<in> set (participant_boots p)"
  by (auto simp: has_current_incarnation_def incumbent_boot_def participant_boots_def)

text \<open>What replacing an incumbent leaves of the record.\<close>

definition replaced ::
  "impl \<Rightarrow> ParticipantId \<Rightarrow> DurableParticipant \<Rightarrow> DurableParticipant \<Rightarrow> bool"
where
  "replaced s pid p p0 \<longleftrightarrow>
     (\<not> has_incumbent p \<and> p0 = p) \<or>
     (has_incumbent p \<and>
       ((\<exists>g. fence_effect s pid (incumbent_boot p) g p p0) \<or>
        (p0 = p \<and> fl_fenced (lookup_fence s pid (incumbent_boot p)))))"

lemma replaced_fields:
  assumes "replaced s pid p p0"
  shows "dp_id p0 = dp_id p" "dp_next_incarnation p0 = dp_next_incarnation p"
    "dp_retired p0 = dp_retired p" "dp_idempotency p0 = dp_idempotency p"
  using assms unfolding replaced_def by (auto dest: fence_effect_fields)

lemma replace_incumbent_effect:
  assumes "replace_incumbent request i t = (Inr None, t1)"
    and "find_participant (tx_impl t) (rp_participant request) = Some i"
  shows "\<exists>p0. im_participants (tx_impl t1) = (im_participants (tx_impl t))[i := p0] \<and>
    im_participant_index (tx_impl t1) = im_participant_index (tx_impl t) \<and>
    replaced (tx_impl t) (rp_participant request) (participant_at (tx_impl t) i) p0 \<and>
    (st_recent_fences (im_state (tx_impl t1)) = st_recent_fences (im_state (tx_impl t)) \<or>
     (\<exists>f. has_incumbent (participant_at (tx_impl t) i) \<and> fr_participant f = rp_participant request \<and>
        fr_boot f = incumbent_boot (participant_at (tx_impl t) i) \<and>
        st_recent_fences (im_state (tx_impl t1)) =
          push_bounded (max_recent_fences (im_limits (tx_impl t))) f (st_recent_fences (im_state (tx_impl t)))))"
proof -
  let ?s = "tx_impl t" and ?p = "participant_at (tx_impl t) i" and ?pid = "rp_participant request"
  have same: "(im_participants ?s)[i := ?p] = im_participants ?s"
    by (simp add: participant_at_def)
  show ?thesis
  proof (cases "has_incumbent ?p")
    case False
    then have "t1 = t" using assms(1) by (simp add: replace_incumbent_def tx_simps)
    then show ?thesis using False same by (intro exI [of _ ?p]) (simp add: replaced_def)
  next
    case True
    then obtain fence where
      f: "record_fence ?pid (incumbent_boot ?p) FenceReason.Reincarnation empty_text False t = (Inr fence, t1)"
      "fo_outcome fence = FenceOutcome.Fenced \<or> fo_outcome fence = FenceOutcome.AlreadyFenced"
      using assms(1)
      by (auto simp: replace_incumbent_def tx_simps tx_bind_def [of "record_fence a b c d e" for a b c d e]
          split: if_splits prod.splits sum.splits)
    have live: "find_incarnation ?p (incumbent_boot ?p) \<noteq> None"
      using True incumbent_current [of ?p] by (auto simp: has_incumbent_def find_incarnation_None)
    from f(1) show ?thesis
    proof (cases rule: record_fence_cases)
      case unchanged
      have "fl_fenced (lookup_fence ?s ?pid (incumbent_boot ?p))"
      proof (rule ccontr)
        assume "\<not> ?thesis"
        with f(1) live assms(2) obtain seq where
          "live_fence i ?pid (incumbent_boot ?p) seq FenceReason.Reincarnation empty_text t = (Inr fence, t1)"
          by (auto simp: record_fence_def tx_simps)
        from live_fence_effect [OF this find_participant_less [OF assms(2)]] unchanged(2) show False
          by simp
      qed
      with unchanged True same show ?thesis by (intro exI [of _ ?p]) (simp add: replaced_def)
    next
      case (live j seq)
      with assms(2) have j: "j = i" by simp
      from live_fence_effect [OF live(4) find_participant_less [OF live(1)]] obtain g where
        g: "im_participants (tx_impl t1) = (im_participants ?s)
          [i := fenced_participant (im_limits ?s) (incumbent_boot ?p) seq g ?p]"
        "im_participant_index (tx_impl t1) = im_participant_index ?s"
        "st_recent_fences (im_state (tx_impl t1)) = push_bounded (max_recent_fences (im_limits ?s))
          (fence_record (im_state ?s) ?pid (incumbent_boot ?p) FenceReason.Reincarnation empty_text g seq)
          (st_recent_fences (im_state ?s))"
        by (auto simp: j)
      moreover have "fence_effect ?s ?pid (incumbent_boot ?p) g ?p
          (fenced_participant (im_limits ?s) (incumbent_boot ?p) seq g ?p)"
        using live(3) by (simp add: j fence_effect_def)
      moreover have "fr_participant (fence_record st pid boot reason nt g seq) = pid"
        "fr_boot (fence_record st pid boot reason nt g seq) = boot" for st pid boot reason nt
        by (simp_all add: fence_record_def)
      ultimately show ?thesis
        using True unfolding replaced_def by blast
    next
      case (defensive j)
      then show ?thesis by simp
    qed
  qed
qed

lemma accept_registration_effect:
  assumes "accept_registration request c digest found t = (Inr r, t')"
    and "\<And>i. found = Some i \<Longrightarrow> i < length (im_participants (tx_impl t))"
  shows "\<exists>q g n. rr_outcome r = RegistrationOutcome.Registered \<and> rr_incarnation r = Some n \<and>
    rr_generation r = Some g \<and> \<not> rr_replayed r \<and>
    counter_next (st_registration_floor (im_state (tx_impl t))) = Some g \<and>
    (case found of
       None \<Rightarrow> im_participants (tx_impl t') = im_participants (tx_impl t) @ [q] \<and>
         issued request n g (fresh_participant request) q
     | Some i \<Rightarrow> im_participants (tx_impl t') = (im_participants (tx_impl t))[i := q] \<and>
         issued request n g (participant_at (tx_impl t) i) q) \<and>
    registration_record request digest g n \<in> set (dp_idempotency q) \<and>
    st_recent_fences (im_state (tx_impl t')) = st_recent_fences (im_state (tx_impl t)) \<and>
    st_current_epoch (im_state (tx_impl t')) = st_current_epoch (im_state (tx_impl t))"
proof (cases found)
  case (Some i)
  let ?t = "t\<lparr> tx_undo := restore_participant (rp_participant request)
    (\<lambda>_. participant_at (tx_impl t) i) # tx_undo t \<rparr>"
  have "issue_registration request c digest i ?t = (Inr r, t')"
    using assms(1) by (simp add: accept_registration_def open_record_def Some Let_def tx_simps)
  from issue_registration_effect [OF this] assms(2) [OF Some] show ?thesis
    unfolding Some by (simp add: remember_attempt_def) (metis last_in_push_bounded)
next
  case None
  let ?s = "tx_impl t" and ?p = "fresh_participant request"
  let ?t = "t\<lparr> tx_impl := add_participant ?p ?s, tx_undo := pop_participant # tx_undo t \<rparr>"
  have ps: "im_participants (add_participant ?p ?s) = im_participants ?s @ [?p]"
    and frame: "st_registration_floor (im_state (add_participant ?p ?s)) = st_registration_floor (im_state ?s)"
    "st_recent_fences (im_state (add_participant ?p ?s)) = st_recent_fences (im_state ?s)"
    "st_current_epoch (im_state (add_participant ?p ?s)) = st_current_epoch (im_state ?s)"
    by (simp_all add: add_participant_def upd_state_def)
  have "issue_registration request c digest (length (im_participants ?s)) ?t = (Inr r, t')"
    using assms(1) by (simp add: accept_registration_def open_record_def None tx_simps)
  from issue_registration_effect [OF this] show ?thesis
    by (auto simp: None ps frame participant_at_def remember_attempt_def)
qed

text \<open>A registration that is accepted.\<close>

definition registers ::
  "impl \<Rightarrow> RegisterParticipantRequest \<Rightarrow> RegistrationResult \<Rightarrow> DurableParticipant \<Rightarrow> DurableParticipant \<Rightarrow> impl \<Rightarrow> bool"
where
  "registers s request r p0 q s' \<longleftrightarrow>
     (\<exists>n g. rr_incarnation r = Some n \<and> rr_generation r = Some g \<and> issued request n g p0 q) \<and>
     (case find_participant s (rp_participant request) of
        None \<Rightarrow> p0 = fresh_participant request \<and>
          set (im_participants s') = insert q (set (im_participants s))
      | Some i \<Rightarrow>
          \<not> dp_retired (participant_at s i) \<and> dp_policy (participant_at s i) = rp_policy request \<and>
          find_incarnation (participant_at s i) (rp_boot request) = None \<and>
          \<not> fl_fenced (lookup_fence s (rp_participant request) (rp_boot request)) \<and>
          replaced s (rp_participant request) (participant_at s i) p0 \<and>
          set (im_participants s') = set ((im_participants s)[i := q])) \<and>
     rp_expected_epoch request = st_current_epoch (im_state s) \<and>
     st_current_epoch (im_state s') = st_current_epoch (im_state s) \<and>
     set (st_recent_fences (im_state s')) \<subseteq> set (st_recent_fences (im_state s)) \<union>
       {f. \<exists>i. find_participant s (rp_participant request) = Some i \<and> has_incumbent (participant_at s i) \<and>
          fr_participant f = rp_participant request \<and> fr_boot f = incumbent_boot (participant_at s i)}"

lemma registration_screen_epoch:
  "registration_screen s request = None \<Longrightarrow> rp_expected_epoch request = st_current_epoch (im_state s)"
  by (auto simp: registration_screen_def registration_epoch_def split: option.splits if_splits)

lemma registration_screen_not_fenced:
  assumes "registration_screen s request = None" "find_participant s (rp_participant request) = Some i"
  shows "\<not> fl_fenced (lookup_fence s (rp_participant request) (rp_boot request))"
  using assms
  by (auto simp: registration_screen_def registration_known_def Let_def split: option.splits if_splits)

lemma registration_decision_None:
  assumes "registration_decision s request digest i = None"
  shows "find_attempt (dp_idempotency (participant_at s i)) (rp_attempt request) = None"
    "dp_policy (participant_at s i) = rp_policy request"
    "find_incarnation (participant_at s i) (rp_boot request) = None"
    "has_incumbent (participant_at s i) \<Longrightarrow> op_replacement_policy (im_options s) = ReplaceIncumbent"
  using assms
  by (auto simp: registration_decision_def registration_policy_def registration_active_def
      registration_incumbent_def Let_def split: option.splits if_splits)
    (metis IncarnationReplacementPolicy.exhaust)

lemma apply_registration_effect:
  assumes "apply_registration request c t = (Inr r, t')"
    and "rr_outcome r = RegistrationOutcome.Registered" "\<not> rr_replayed r"
  shows "\<exists>p0 q. registers (tx_impl t) request r p0 q (tx_impl t')"
proof -
  let ?s = "tx_impl t" and ?pid = "rp_participant request"
  from apply_registration_registered [OF assms] obtain digest found t1 where
    a: "registration_screen ?s request = None" "find_participant ?s ?pid = found"
    "case found of None \<Rightarrow> t1 = t
     | Some i \<Rightarrow> registration_decision ?s request digest i = None \<and>
         replace_incumbent request i t = (Inr None, t1)"
    "accept_registration request c digest found t1 = (Inr r, t')" by blast
  note epoch = registration_screen_epoch [OF a(1)]
  show ?thesis
  proof (cases found)
    case None
    with a(3) have "t1 = t" by simp
    with accept_registration_effect [OF a(4)] None a(2) epoch show ?thesis
      by (auto simp: registers_def)
  next
    case (Some i)
    with a(2,3) have i: "find_participant ?s ?pid = Some i"
      "registration_decision ?s request digest i = None" "replace_incumbent request i t = (Inr None, t1)"
      by simp_all
    have len: "i < length (im_participants ?s)" using i(1) by (rule find_participant_less)
    from replace_incumbent_effect [OF i(3,1)] obtain p0 where
      p0: "im_participants (tx_impl t1) = (im_participants ?s)[i := p0]"
      "replaced ?s ?pid (participant_at ?s i) p0"
      "st_recent_fences (im_state (tx_impl t1)) = st_recent_fences (im_state ?s) \<or>
       (\<exists>f. has_incumbent (participant_at ?s i) \<and> fr_participant f = ?pid \<and>
        fr_boot f = incumbent_boot (participant_at ?s i) \<and>
        st_recent_fences (im_state (tx_impl t1)) =
          push_bounded (max_recent_fences (im_limits ?s)) f (st_recent_fences (im_state ?s)))"
      by blast
    have "st_current_epoch (im_state (tx_impl t1)) = st_current_epoch (im_state ?s)"
      using replace_incumbent_term [of request i] i(3)
      by (auto simp: tx_keeps_def same_term_def dest: spec [of _ t])
    moreover have "set (st_recent_fences (im_state (tx_impl t1))) \<subseteq> set (st_recent_fences (im_state ?s)) \<union>
       {f. has_incumbent (participant_at ?s i) \<and> fr_participant f = ?pid \<and>
          fr_boot f = incumbent_boot (participant_at ?s i)}"
      using p0(3) by (auto dest: in_push_boundedD)
    moreover from accept_registration_effect [OF a(4)] len obtain q g n where
      q: "rr_incarnation r = Some n" "rr_generation r = Some g" "issued request n g p0 q"
      "im_participants (tx_impl t') = (im_participants ?s)[i := q]"
      "st_recent_fences (im_state (tx_impl t')) = st_recent_fences (im_state (tx_impl t1))"
      "st_current_epoch (im_state (tx_impl t')) = st_current_epoch (im_state (tx_impl t1))"
      by (auto simp: Some p0(1) participant_at_def)
    ultimately have "registers ?s request r p0 q (tx_impl t')"
      using i(1) epoch p0(2) registration_decision_None [OF i(2)]
        registration_screen_not_retired [OF a(1) i(1)] registration_screen_not_fenced [OF a(1) i(1)]
      unfolding registers_def by simp
    then show ?thesis by blast
  qed
qed

lemma accept_registration_marked:
  "accept_registration request c digest found t = (Inr r, t') \<Longrightarrow> tx_mutated t'"
  using accept_registration_marks unfolding tx_marks_def by blast

lemma register_participant_effect:
  assumes "running_ok s" "register_participant io request s = (Inr r, s')"
    and "rr_outcome r = RegistrationOutcome.Registered" "\<not> rr_replayed r"
  shows "running_ok s' \<and> (\<exists>p0 q. registers s request r p0 q s')"
proof
  show "running_ok s'"
    using run_tx_serves [OF assms(1) apply_registration_quiet apply_registration_progress] assms(2)
    by (auto simp: register_participant_def serves_def)
  have b: "tx_impl (begin_tx s) = s" "\<not> tx_mutated (begin_tx s)" by (simp_all add: begin_tx_def)
  from apply_registration_quiet assms(2) [unfolded register_participant_def]
  show "\<exists>p0 q. registers s request r p0 q s'"
  proof (cases rule: run_tx_returns)
    case 1
    from apply_registration_registered [OF 1(2) assms(3,4)] accept_registration_marked b(2)
    show ?thesis by blast
  next
    case (2 t)
    from apply_registration_effect [OF 2(1) assms(3,4)] obtain p0 q where
      "registers s request r p0 q (tx_impl t)" unfolding b(1) by blast
    then have "registers s request r p0 q s'"
      unfolding registers_def 2(3) committed_participants committed_fields .
    then show ?thesis by blast
  qed
qed

lemma fresh_participant_currents [simp]: "currents (fresh_participant request) = []"
  by (simp add: fresh_participant_def currents_def)

text \<open>The registered incarnation is current, and at its first use it validates.\<close>

lemma registers_current:
  assumes "registers s request r p0 q s'" "running_ok s"
  shows "\<exists>n. rr_incarnation r = Some n \<and> q \<in> set (im_participants s') \<and>
    dp_id q = rp_participant request \<and> (rp_boot request, n) \<in> set (currents q) \<and>
    dp_scopes q = rp_scopes request \<and> \<not> dp_retired q \<and>
    rr_generation r = Some (dp_registration_generation q)"
proof -
  have im: "indexes_match s" using assms(2) by (simp add: running_ok_def)
  obtain n g where i: "rr_incarnation r = Some n" "rr_generation r = Some g" "issued request n g p0 q"
    using assms(1) by (auto simp: registers_def)
  have "q \<in> set (im_participants s') \<and> dp_id p0 = rp_participant request"
  proof (cases "find_participant s (rp_participant request)")
    case None
    with assms(1) show ?thesis by (simp add: registers_def fresh_participant_def)
  next
    case (Some k)
    with assms(1) have r: "replaced s (rp_participant request) (participant_at s k) p0"
      "set (im_participants s') = set ((im_participants s)[k := q])"
      by (simp_all add: registers_def)
    from find_participant_correct [OF im Some] r replaced_fields(1) [OF r(1)] show ?thesis
      by (simp add: set_update_memI)
  qed
  with i show ?thesis by (auto simp: issued_def)
qed

lemma set_participants_registered:
  assumes "registers s request r p0 q s'" "running_ok s" "find_participant s (rp_participant request) = Some i"
  shows "record_replaced s (rp_participant request) (participant_at s i) q s'"
proof (rule record_replaced_update [OF assms(2,3)])
  have r: "replaced s (rp_participant request) (participant_at s i) p0"
    "set (im_participants s') = set ((im_participants s)[i := q])"
    using assms(1,3) by (simp_all add: registers_def)
  then show "set (im_participants s') = set ((im_participants s)[i := q])" by simp
  show "dp_id q = dp_id (participant_at s i)"
    using assms(1) replaced_fields(1) [OF r(1)] by (auto simp: registers_def issued_def)
qed

text \<open>The incarnation issued was not current before, under any boot.\<close>

lemma registers_fresh:
  assumes "registers s request r p0 q s'" "running_ok s" "rr_incarnation r = Some n"
  shows "\<not> current (im_state s) (rp_participant request) boot n"
proof
  assume "current (im_state s) (rp_participant request) boot n"
  then obtain p where p: "p \<in> set (im_participants s)" "dp_id p = rp_participant request"
      "(boot, n) \<in> set (currents p)"
    by (auto simp: current_def)
  then obtain i where i: "find_participant s (rp_participant request) = Some i" "participant_at s i = p"
    using find_participant_unique [OF assms(2) p(1)] by metis
  then have "dp_next_incarnation p0 = dp_next_incarnation p"
    using assms(1) replaced_fields(2) by (auto simp: registers_def)
  then have "n = dp_next_incarnation p"
    using assms(1,3) by (auto simp: registers_def issued_def)
  with current_below_next [OF assms(2) p(1,3)] show False by simp
qed

end
