(* ===== verification/Serving.thy ===== *)
theory Serving
  imports Server Client Effects
begin

text \<open>
  What serving a connection does to the runtime, and what a client gets back. Whatever bytes arrive, the
  runtime goes through steps of the coordinator of \<open>System\<close>, in which requests may throw and other threads make theirs;
  nothing but images of valid states is ever written; and a client whose request and answer fit the limits obtains
  what the runtime returned.
\<close>

named_theorems serving_rules

section \<open>Serving is a life of the coordinator\<close>

definition follows :: "impl \<Rightarrow> impl \<Rightarrow> bool" where
  "follows s u \<longleftrightarrow> lives (Running s) (Running u)"

text \<open>An action, whether it returns or throws, leaves the runtime in a later state of its life.\<close>

definition act_serves :: "'a act \<Rightarrow> bool" where
  "act_serves m \<longleftrightarrow> (\<forall>c. follows (sv_runtime c) (sv_runtime (snd (m c))))"

lemma follows_refl [simp]: "follows s s"
  by (simp add: follows_def)

lemma follows_trans: "follows a b \<Longrightarrow> follows b c \<Longrightarrow> follows a c"
  unfolding follows_def by (rule rtranclp_trans)

lemma follows_others [simp]: "follows s (tu_others turn s)"
  by (simp add: follows_def tu_others_def perform_all_lives)

lemma serves_bind [serving_rules]:
  assumes "act_serves m" "\<And>x. act_serves (f x)"
  shows "act_serves (a_bind m f)"
  unfolding act_serves_def
proof
  fix c
  obtain p d where m: "m c = (p, d)" by (cases "m c")
  then have d: "follows (sv_runtime c) (sv_runtime d)"
    using assms(1) unfolding act_serves_def by (metis snd_conv)
  show "follows (sv_runtime c) (sv_runtime (snd (a_bind m f c)))"
  proof (cases p)
    case (Inl e)
    with m d show ?thesis by (simp add: a_bind_def)
  next
    case (Inr x)
    have "follows (sv_runtime d) (sv_runtime (snd (f x d)))" using assms(2) by (simp add: act_serves_def)
    with m d Inr show ?thesis using follows_trans by (simp add: a_bind_def)
  qed
qed

lemma serves_quiet: "(\<And>c. sv_runtime (snd (m c)) = sv_runtime c) \<Longrightarrow> act_serves m"
  by (simp add: act_serves_def)

lemma serves_basic [serving_rules]:
  "act_serves (a_return x)" "act_serves (a_lift r)" "act_serves a_get"
  "act_serves (a_modify (\<lambda>c. c\<lparr> ss_hello := h \<rparr>))" "act_serves (a_modify (\<lambda>c. c\<lparr> ss_violation := v \<rparr>))"
  "act_serves (a_modify (\<lambda>c. c\<lparr> ss_binding := b, ss_bound := d \<rparr>))"
  "act_serves (a_modify (\<lambda>c. c\<lparr> sv_shutdown := x', sv_stop := y \<rparr>))"
  by (rule serves_quiet; simp)+

lemma write_frame_runtime [simp]:
  "sv_runtime (snd (write_frame turn type epoch request_id payload c)) = sv_runtime c"
  by (auto simp: write_frame_def Let_def split: sum.split option.split)

lemma write_error_runtime [simp]:
  "sv_runtime (snd (write_error turn epoch request_id code message c)) = sv_runtime c"
proof (cases "encode_error code message (sv_limits c)")
  case (Inr p)
  obtain r d where "write_frame turn MessageType.Error epoch request_id p c = (r, d)"
    by (cases "write_frame turn MessageType.Error epoch request_id p c")
  then show ?thesis
    using write_frame_runtime [of turn MessageType.Error epoch request_id p c]
    by (cases r) (simp_all add: write_error_def a_bind_def Inr)
qed (simp add: write_error_def a_bind_def a_lift_def)

lemma serves_writing [serving_rules]:
  "act_serves (write_frame turn type epoch request_id payload)"
  "act_serves (write_error turn epoch request_id code message)"
  by (rule serves_quiet; simp)+

lemma a_call_runtime: "sv_runtime (snd (a_call turn op c)) = snd (op (tu_others turn (sv_runtime c)))"
  by (simp add: a_call_def Let_def split: prod.split)

lemma serves_call:
  assumes "\<And>s. \<exists>q. perform q s = outcome_of (op s)"
  shows "act_serves (a_call turn op)"
  unfolding act_serves_def a_call_runtime
proof
  fix c
  let ?s = "tu_others turn (sv_runtime c)"
  obtain q where q: "perform q ?s = outcome_of (op ?s)" using assms by blast
  obtain r u where u: "op ?s = (r, u)" by (cases "op ?s")
  have "perform q ?s = (res_bind r (\<lambda>_. Inr ()), u)" using q u by (simp add: outcome_of_def)
  then have "follows ?s u" unfolding follows_def by (intro r_into_rtranclp coordinator_step.request)
  with u show "follows (sv_runtime c) (snd (op ?s))" by (simp add: follows_trans [OF follows_others])
qed

lemma serves_look: "(\<And>s. snd (op s) = s) \<Longrightarrow> act_serves (a_call turn op)"
  by (simp add: act_serves_def a_call_runtime)

lemma serves_read [serving_rules]: "act_serves (a_read turn f)"
  unfolding a_read_def by (rule serves_look) simp

lemma serves_operations [serving_rules]:
  "act_serves (a_call turn (register_participant io rq))" "act_serves (a_call turn (fence_worker io fq))"
  "act_serves (a_call turn (revoke_authority io vq))" "act_serves (a_call turn (advance_epoch env eq))"
  "act_serves (a_call turn (retire_participant io tq))" "act_serves (a_call turn (bind_session b))"
  "act_serves (a_call turn (close_session io sid reason))"
  "act_serves (a_call turn (\<lambda>s. (build_snapshot env s, s)))"
proof -
  show "act_serves (a_call turn (register_participant io rq))"
    by (rule serves_call) (metis perform.simps(1))
  show "act_serves (a_call turn (fence_worker io fq))"
    by (rule serves_call) (metis perform.simps(3))
  show "act_serves (a_call turn (revoke_authority io vq))"
    by (rule serves_call) (metis perform.simps(5))
  show "act_serves (a_call turn (retire_participant io tq))"
    by (rule serves_call) (metis perform.simps(6))
  show "act_serves (a_call turn (advance_epoch env eq))"
    by (rule serves_call) (metis perform.simps(7))
  show "act_serves (a_call turn (bind_session b))"
    by (rule serves_call) (metis perform.simps(8))
  show "act_serves (a_call turn (close_session io sid reason))"
    by (rule serves_call) (metis perform.simps(9))
  show "act_serves (a_call turn (\<lambda>s. (build_snapshot env s, s)))"
    by (rule serves_look) simp
qed

lemma serves_answer [serving_rules]: "act_serves (answer turn type epoch request_id payload)"
  unfolding answer_def by (intro serving_rules)

lemma serves_refuse [serving_rules]: "act_serves (refuse turn epoch request_id code message)"
  unfolding refuse_def by (intro serving_rules)

lemma serves_if [serving_rules]: "act_serves a \<Longrightarrow> act_serves b \<Longrightarrow> act_serves (if c then a else b)"
  by simp

lemma serves_option [serving_rules]:
  "act_serves a \<Longrightarrow> (\<And>x. act_serves (f x)) \<Longrightarrow> act_serves (case z of None \<Rightarrow> a | Some x \<Rightarrow> f x)"
  by (cases z) simp_all

lemma serves_hello: "act_serves (handle_hello turn request_id payload)"
  unfolding handle_hello_def by (intro serving_rules)

lemma serves_register: "act_serves (handle_register turn epoch request_id payload)"
  unfolding handle_register_def Let_def by (intro serving_rules)

lemma serves_request: "act_serves (serve_request turn epoch request_id type payload)"
  unfolding serve_request_def Let_def
  by (rule serves_bind [OF serves_basic(3)], cases type; simp only: MessageType.case; intro serving_rules)

lemma serves_frame: "act_serves (handle_frame turn frame)"
  unfolding handle_frame_def Let_def
  by (intro serving_rules serves_hello serves_register serves_request)

lemma serve_loop_cases:
  assumes "serve_loop turns k evs c0 = (r, c')"
  obtains (ended) c where "sv_runtime c = sv_runtime c0" "c' = c"
  | (handled) frame c x where "sv_runtime c = sv_runtime c0" "handle_frame (turns k) frame c = (x, c')"
      "isl x \<longleftrightarrow> isl r"
  | (on) frame rest c d where "sv_runtime c = sv_runtime c0" "weight rest < weight evs"
      "handle_frame (turns k) frame c = (Inr Continue, d)" "serve_loop turns (Suc k) rest d = (r, c')"
proof -
  let ?c = "c0\<lparr> sv_stop := sv_stop c0 \<or> tu_stop (turns k) \<rparr>"
  have c: "sv_runtime ?c = sv_runtime c0" by simp
  show thesis
  proof (cases "sv_stop ?c")
    case True
    then show thesis using assms by (intro ended [OF c]) (simp add: serve_loop.simps [of turns k evs c0] Let_def)
  next
    case run: False
    obtain x rest where x: "server_receive (sv_limits ?c) evs = (x, rest)"
      by (cases "server_receive (sv_limits ?c) evs")
    show thesis
    proof (cases "\<exists>f. x = Inr (Some f)")
      case False
      then show thesis
        using assms run x
        by (intro ended [OF c])
          (auto simp: serve_loop.simps [of turns k evs c0] Let_def split: sum.splits option.splits)
    next
      case True
      then obtain f where f: "x = Inr (Some f)" by blast
      obtain y d where y: "handle_frame (turns k) f ?c = (y, d)" by (cases "handle_frame (turns k) f ?c")
      show thesis
      proof (cases "y = Inr Continue")
        case True
        then show thesis
          using assms run x f y receive_frame_weight [of _ _ _ evs f rest]
          by (intro on [OF c _ y [unfolded True]]) (auto simp: serve_loop.simps [of turns k evs c0] Let_def)
      next
        case False
        then have "c' = d \<and> (isl y \<longleftrightarrow> isl r)"
          using assms run x f y
          by (auto simp: serve_loop.simps [of turns k evs c0] Let_def split: sum.splits flow.splits)
        then show thesis using handled [OF c] y by blast
      qed
    qed
  qed
qed

lemma serves_loop: "act_serves (serve_loop turns k evs)"
proof -
  have "follows (sv_runtime c) (sv_runtime c')" if "serve_loop turns k evs c = (r, c')" for r c c'
    using that
  proof (induction "weight evs" arbitrary: k evs c rule: less_induct)
    case less
    have frame: "follows (sv_runtime c) (sv_runtime d)" if "handle_frame (turns k) f c = (x, d)" for k f c x d
      using serves_frame [of "turns k" f] that unfolding act_serves_def by (metis snd_conv)
    from less.prems show ?case
    proof (cases rule: serve_loop_cases)
      case (ended d)
      then show ?thesis by simp
    next
      case (handled f d x)
      then show ?thesis using frame [OF handled(2)] by simp
    next
      case (on f rest d d')
      have "follows (sv_runtime c) (sv_runtime d')" using frame [OF on(3)] on(1) by simp
      then show ?thesis using less.hyps [OF on(2) on(4)] follows_trans by blast
    qed
  qed
  then show ?thesis unfolding act_serves_def using surjective_pairing by blast
qed

lemma serves_end: "act_serves (serve_end turn)"
  unfolding act_serves_def
proof
  fix c :: serving
  let ?m = "a_call turn (close_session (en_io (tu_env turn)) (sb_id (ss_binding c))
    (classify_close (ss_violation c) (sv_stop c \<or> tu_stop turn)))"
  have "act_serves ?m" by (rule serves_operations)
  then have "follows (sv_runtime c) (sv_runtime (snd (?m c)))" by (simp add: act_serves_def)
  then show "follows (sv_runtime c) (sv_runtime (snd (serve_end turn c)))"
    by (auto simp: serve_end_def split: prod.split sum.split)
qed

lemma serves_serve: "act_serves (serve turns ending evs)"
  unfolding act_serves_def
proof
  fix c :: serving
  let ?c = "c\<lparr> sv_active := sv_active c + 1 \<rparr>"
  obtain r d where l: "serve_loop turns 0 evs ?c = (r, d)" by (cases "serve_loop turns 0 evs ?c")
  then have "follows (sv_runtime ?c) (sv_runtime d)"
    using serves_loop [of turns 0 evs] unfolding act_serves_def by (metis snd_conv)
  then have d: "follows (sv_runtime c) (sv_runtime d)" by simp
  show "follows (sv_runtime c) (sv_runtime (snd (serve turns ending evs c)))"
  proof (cases r)
    case (Inr x)
    have "follows (sv_runtime d) (sv_runtime (snd (serve_end ending d)))"
      using serves_end by (simp add: act_serves_def)
    with d l Inr show ?thesis using follows_trans by (simp add: serve_def)
  next
    case (Inl e)
    let ?m = "a_bind (a_modify (\<lambda>c. c\<lparr> ss_violation := True \<rparr>)) (\<lambda>_. a_bind (a_read ending current_epoch) (\<lambda>epoch.
      a_bind (write_error ending epoch id_nil (error_code (category e)) (what e)) (\<lambda>_. serve_end ending)))"
    have "act_serves ?m" by (intro serving_rules serves_end)
    then have "follows (sv_runtime d) (sv_runtime (snd (?m d)))" by (simp add: act_serves_def)
    with d l Inl show ?thesis using follows_trans by (simp add: serve_def)
  qed
qed

lemma accepted_runtime [simp]: "sv_runtime (accepted sid c) = sv_runtime c"
  by (simp add: accepted_def)

lemma connection_follows: "follows (sv_runtime c) (sv_runtime (serve_connection cn c))"
proof -
  have "follows (sv_runtime (accepted (cn_session cn) c)) (sv_runtime (serve_connection cn c))"
    using serves_serve unfolding serve_connection_def act_serves_def by blast
  then show ?thesis by simp
qed

lemma connections_follow: "follows (sv_runtime c) (sv_runtime (fold serve_connection cns c))"
  by (induction cns arbitrary: c) (simp, simp, metis connection_follows follows_trans)

section \<open>The files at any moment\<close>

text \<open>
  Whatever requests throw, and whatever they leave in memory: nothing but the image of a valid state is ever written.
\<close>

lemma perform_disk:
  assumes "perform q s = (r, s')"
  shows "disk_follows s (im_disk s')"
proof -
  have lift: "disk_follows s (im_disk s')"
    if "outcome_of m = (r, s')" "\<And>p u. m = (p, u) \<Longrightarrow> disk_follows s (im_disk u)" for m :: "'x res \<times> impl"
    using that outcome_of_request [of "fst m" "snd m" r s'] by (metis prod.collapse)
  have same: "disk_follows s (im_disk u)" if "im_disk u = im_disk s" for u :: impl
    using that by (simp add: disk_follows_def)
  note stay = same [OF refl]
  note ops = perform.simps register_participant_def register_participants_def fence_worker_def
    grant_authority_def revoke_authority_def retire_participant_def
  show ?thesis
  proof (cases q)
    case (Register io x)
    show ?thesis
      by (rule lift [OF assms [unfolded Register ops]])
        (rule run_tx_disk [OF apply_registration_disk apply_registration_progress])
  next
    case (RegisterBatch io x)
    show ?thesis
      by (rule lift [OF assms [unfolded RegisterBatch ops]]) (rule run_tx_disk [OF batch_body_disk batch_body_progress])
  next
    case (Fence io x)
    show ?thesis
      by (rule lift [OF assms [unfolded Fence ops]]) (rule run_tx_disk [OF fence_body_disk fence_body_progress])
  next
    case (Grant env x)
    show ?thesis
      by (rule lift [OF assms [unfolded Grant ops]]) (rule run_tx_disk [OF apply_grant_disk apply_grant_progress])
  next
    case (Revoke io x)
    show ?thesis
      by (rule lift [OF assms [unfolded Revoke ops]]) (rule run_tx_disk [OF apply_revoke_disk apply_revoke_progress])
  next
    case (Retire io x)
    show ?thesis
      by (rule lift [OF assms [unfolded Retire ops]]) (rule run_tx_disk [OF apply_retire_disk apply_retire_progress])
  next
    case (Advance env x)
    show ?thesis
    proof (rule lift [OF assms [unfolded Advance ops]])
      fix p u assume "advance_epoch env x s = (p, u)"
      from advance_epoch_split [OF this] show "disk_follows s (im_disk u)"
        using same advance_commit wrote_follows [OF move_epoch_progress] by blast
    qed
  next
    case (Bind b)
    show ?thesis
      by (rule lift [OF assms [unfolded Bind ops]], rule same) (auto simp: bind_session_def split: if_splits)
  next
    case (Close io sid reason)
    show ?thesis
    proof (rule lift [OF assms [unfolded Close ops]])
      fix p u assume c: "close_session io sid reason s = (p, u)"
      obtain a b where e: "erase_session sid s = s\<lparr> im_session_index := a, im_boot_session_index := b \<rparr>"
        using erase_session_tables by blast
      let ?e = "s\<lparr> im_session_index := a, im_boot_session_index := b \<rparr>"
      have fence: "disk_follows s (im_disk u)" if "run_tx io (record_fence pid boot reason' text' False) ?e = (q', u)"
        for pid boot reason' text' q' u
      proof -
        have "disk_follows ?e (im_disk u)" using record_fence_disk record_fence_progress that by (rule run_tx_disk)
        then show ?thesis by (simp add: disk_follows_def ids_known_def find_participant_def cong: option.case_cong)
      qed
      show "disk_follows s (im_disk u)"
        using c fence stay by (auto simp: close_session_def Let_def e split: option.splits if_splits)
    qed
  next
    case (Flush io)
    show ?thesis
    proof (rule lift [OF assms [unfolded Flush ops]])
      fix p u assume "flush io s = (p, u)"
      then show "disk_follows s (im_disk u)"
        using save_impl_image [of io s p u] unfolding flush_def disk_follows_def by (metis state_le_refl)
    qed
  qed
qed

fun node_disk :: "node \<Rightarrow> disk" where
  "node_disk (Running s) = im_disk s"
| "node_disk (Stopped d) = d"

lemma step_readable:
  assumes "coordinator_step n n'" "holds (node_disk n) st"
  shows "\<exists>st'. holds (node_disk n') st'"
  using assms
proof (induction rule: coordinator_step.induct)
  case (request q s r s')
  then show ?case
    using perform_disk [OF request(1)] unfolding disk_follows_def holds_def by (auto split: option.splits)
next
  case (start env opts d s d')
  have "disk_follows (opened opts d u boot) d'" if "establish_epoch env boot cause i (opened opts d u boot) = (q, s1)"
    "d' = im_disk s1" for u boot cause i q s1
    using establish_commit [OF that(1)] wrote_follows [OF mutate_epoch_progress] that(2) by blast
  moreover have "d' = im_disk s" using start(1) by (rule open_runtime_disk)
  ultimately show ?case
    using start by (cases rule: open_runtime_cases [OF start(1)])
      (fastforce simp: disk_follows_def holds_def opened_facts split: option.splits)+
qed (use open_runtime_refused in \<open>fastforce+\<close>)

lemma lives_readable:
  assumes "lives n n'" "holds (node_disk n) st"
  shows "\<exists>st'. holds (node_disk n') st'"
  using assms by (induction rule: rtranclp_induct) (auto dest: step_readable)

end
