(* ===== verification/Scenario.thy ===== *)
theory Scenario
  imports Effects
begin

text \<open>
  A run of the coordinator on concrete requests: it starts on an empty store, a worker registers, is
  granted authority, is fenced, and so on. The lemmas give each state the run goes through, so that
  the properties of the other theories can be applied to a real history of the program. The digests
  of the requests and the trailer of the image stay symbolic: nothing in the run depends on them.
\<close>

section \<open>When an operation commits\<close>

definition commits :: "impl \<Rightarrow> bool" where
  "commits s \<longleftrightarrow>
     validate_durable_state (im_state s) = Inr () \<and>
     (\<exists>p. encode_durable_payload (im_state s) = Inr p \<and> length p \<le> 4294967295) \<and>
     sorted (map dp_id (im_participants s)) \<and>
     (\<exists>v. read_watermark (store_options (im_options s)) io_ok (im_disk s) = Inr v \<and>
        v \<le> counter_value (st_current_epoch (im_state s)))"

lemma save_impl_commits:
  assumes "commits s"
  obtains u v where "canonicalize s = s" "save_impl io_ok s = (Inr (), u)"
    "read_watermark (store_options (im_options s)) io_ok (im_disk u) = Inr v"
    "v \<le> counter_value (st_current_epoch (im_state s))"
proof -
  have same: "canonicalize s = s"
    using assms by (simp add: commits_def canonicalize_def)
  obtain p v where p: "validate_durable_state (im_state s) = Inr ()"
      "encode_durable_payload (im_state s) = Inr p" "length p \<le> 4294967295"
    and v: "read_watermark (store_options (im_options s)) io_ok (im_disk s) = Inr v"
      "v \<le> counter_value (st_current_epoch (im_state s))"
    using assms by (auto simp: commits_def)
  have on: "so_enable_rollback_watermark (store_options (im_options s))"
    by (simp add: store_options_def)
  obtain d w where "store_save (store_options (im_options s)) io_ok (im_state s) (im_disk s) = (Inr (), d)"
    "read_watermark (store_options (im_options s)) io_ok d = Inr w"
    "w \<le> counter_value (st_current_epoch (im_state s))"
  proof (cases "v < counter_value (st_current_epoch (im_state s))")
    case True
    then show ?thesis
      using that store_encode_eq [OF p] v on read_written_watermark [OF on]
      by (simp add: store_save_def write_watermark_def Let_def)
  next
    case False
    then show ?thesis
      using that store_encode_eq [OF p] v on by (simp add: store_save_def Let_def)
  qed
  then show ?thesis
    using that same by (simp add: save_impl_def)
qed

lemma persist_commits:
  assumes "commits (tx_impl t)"
  shows "\<exists>t'. persist io_ok t = (Inr (), t') \<and> tx_undo t' = [] \<and> tx_impl t' = committed io_ok (tx_impl t)"
  by (rule save_impl_commits [OF assms])
    (simp add: persist_def Let_def undo_commit_def committed_def)

lemma end_tx_commits:
  assumes "body (begin_tx s) = (Inr x, t)" "commits (tx_impl t)"
  shows "end_tx (tx_bind body (\<lambda>x. tx_bind (persist io_ok) (\<lambda>_. tx_return (f x))) (begin_tx s)) =
      (Inr (f x), committed io_ok (tx_impl t))"
    and "end_tx (tx_bind body (\<lambda>_. persist io_ok) (begin_tx s)) = (Inr (), committed io_ok (tx_impl t))"
  using assms(1) persist_commits [OF assms(2)]
  by (auto simp: tx_bind_def end_tx_def undo_rollback_def tx_simps)

lemma run_tx_commits:
  assumes "body (begin_tx s) = (Inr x, t)" "tx_mutated t" "commits (tx_impl t)"
  shows "run_tx io_ok body s = (Inr x, committed io_ok (tx_impl t))"
  using assms(1,2) persist_commits [OF assms(3)]
  by (auto simp: run_tx_def persist_if_mutated_def tx_bind_def end_tx_def undo_rollback_def tx_simps)

text \<open>The state after the barrier.\<close>

lemma committed_same:
  assumes "commits s"
  shows "im_state (committed io_ok s) = im_state s" "im_options (committed io_ok s) = im_options s"
    "saved (committed io_ok s)"
    "running_ok (committed io_ok s) \<longleftrightarrow> \<not> counter_is_zero (st_current_epoch (im_state s))"
    "\<exists>v. read_watermark (store_options (im_options s)) io_ok (im_disk (committed io_ok s)) = Inr v \<and>
      v \<le> counter_value (st_current_epoch (im_state s))"
proof -
  obtain u v where u: "canonicalize s = s" "save_impl io_ok s = (Inr (), u)"
    "read_watermark (store_options (im_options s)) io_ok (im_disk u) = Inr v"
    "v \<le> counter_value (st_current_epoch (im_state s))"
    by (rule save_impl_commits [OF assms])
  show "im_state (committed io_ok s) = im_state s" "im_options (committed io_ok s) = im_options s"
    using u by (simp_all add: frame_simps)
  show saved: "saved (committed io_ok s)"
    using save_impl_returns [OF u(2)] u by (simp add: committed_def saved_def frame_simps)
  have "st_current_epoch (im_state (committed io_ok s)) = st_current_epoch (im_state s)"
    using u by (simp add: frame_simps)
  then show "running_ok (committed io_ok s) \<longleftrightarrow> \<not> counter_is_zero (st_current_epoch (im_state s))"
    using saved_running [OF _ saved] by (auto simp: running_ok_def)
  show "\<exists>v. read_watermark (store_options (im_options s)) io_ok (im_disk (committed io_ok s)) = Inr v \<and>
      v \<le> counter_value (st_current_epoch (im_state s))"
    using u by (auto simp: committed_def frame_simps)
qed

section \<open>Lookups by search\<close>

lemma position_Some: "position P xs = Some i \<Longrightarrow> i < length xs \<and> P (xs ! i)"
  by (induction xs arbitrary: i) (auto split: if_splits)

lemma position_None: "position P xs = None \<longleftrightarrow> (\<forall>x \<in> set xs. \<not> P x)"
  by (induction xs) auto

lemma position_unique:
  assumes "i < length xs" "P (xs ! i)" "\<And>j. j < length xs \<Longrightarrow> P (xs ! j) \<Longrightarrow> j = i"
  shows "position P xs = Some i"
proof (cases "position P xs")
  case None
  then show ?thesis using assms(1,2) by (simp add: position_None)
next
  case (Some j)
  then show ?thesis using position_Some [OF Some] assms(3) by simp
qed

lemma find_participant_search:
  assumes "running_ok s"
  shows "find_participant s pid = position (\<lambda>p. dp_id p = pid) (im_participants s)"
proof (cases "find_participant s pid")
  case None
  have "\<forall>p \<in> set (im_participants s). dp_id p \<noteq> pid"
  proof
    fix p assume "p \<in> set (im_participants s)"
    then obtain i where "find_participant s (dp_id p) = Some i"
      using find_participant_unique [OF assms] by blast
    then show "dp_id p \<noteq> pid" using None by auto
  qed
  then show ?thesis using None by (simp add: position_None [THEN iffD2])
next
  case (Some i)
  have i: "i < length (im_participants s)" "dp_id (im_participants s ! i) = pid"
    using find_participant_correct [OF _ Some] assms by (auto simp: running_ok_def participant_at_def)
  have "position (\<lambda>p. dp_id p = pid) (im_participants s) = Some i"
  proof (rule position_unique)
    fix j assume j: "j < length (im_participants s)" "dp_id (im_participants s ! j) = pid"
    then have "map dp_id (im_participants s) ! j = map dp_id (im_participants s) ! i"
      using i by simp
    then show "j = i"
      using nth_eq_iff_index_eq [OF wf_distinct_ids [OF assms], of j i] i(1) j(1) by (simp only: length_map)
  qed (use i in auto)
  then show ?thesis using Some by simp
qed

lemma lookup_grant_search:
  assumes "running_ok s"
  shows "lookup_grant s gid = position (\<lambda>g. ag_id g = gid) (st_grants (im_state s))"
proof (cases "position (\<lambda>g. ag_id g = gid) (st_grants (im_state s))")
  case None
  then have "\<forall>k < length (st_grants (im_state s)). ag_id (st_grants (im_state s) ! k) \<noteq> gid"
    by (simp add: position_None)
  then show ?thesis using None grant_index_unique [OF assms, of gid]
    by (cases "lookup_grant s gid") auto
next
  case (Some k)
  then show ?thesis using position_Some [OF Some] grant_index_unique [OF assms, of gid k] by simp
qed

section \<open>Sizes of encoded records\<close>

definition writes :: "writer \<Rightarrow> nat \<Rightarrow> bool" where
  "writes m n \<longleftrightarrow> (\<exists>bs. m = Inr bs \<and> length bs \<le> n)"

named_theorems writes_rules

lemma writes_basic [writes_rules]:
  "writes (w_u8 b) 1" "writes (w_u16 h) 2" "writes (w_u32 v) 4" "writes (w_u64 d) 8"
  "writes (w_id i) 16" "writes (w_counter c) 8" "writes (w_digest x) 32" "writes (w_count n) 4"
  by (simp_all add: writes_def w_u8_def w_u16_def w_u32_def w_u64_def w_id_def w_fixed16_def w_raw_def
      w_counter_def w_digest_def w_fixed32_def w_count_def id_bytes_def digest_bytes_def)

lemma writes_seq [writes_rules]:
  "writes (w_seq []) 0"
  "writes m a \<Longrightarrow> writes (w_seq ms) b \<Longrightarrow> writes (w_seq (m # ms)) (a + b)"
  by (auto simp: writes_def w_seq.simps)

lemma writes_string [writes_rules]:
  "length s \<le> 4294967295 \<Longrightarrow> writes (w_string s) (4 + length s)"
  by (simp add: writes_def w_string_def w_u32_def w_raw_def w_seq.simps)

lemma writes_mono: "writes m a \<Longrightarrow> a \<le> b \<Longrightarrow> writes m b"
  by (auto simp: writes_def)

lemma writes_fixed [writes_rules]: "length bs = 16 \<Longrightarrow> writes (w_fixed16 bs) 16"
  by (simp add: writes_def w_fixed16_def w_raw_def)

section \<open>The run\<close>

definition demo_options :: EpochRuntimeOptions where
  "demo_options =
     \<lparr> op_store_path = ''fabric.epoch'', op_limits = default_limits,
       op_provenance = BoundedText ''demo'', op_replacement_policy = ReplaceIncumbent,
       op_allow_multi_incarnation = False, op_registrable_scope_kinds = (\<lambda>_. True),
       op_fence_on_session_loss = True, op_advance_epoch_on_open = True,
       op_coordinator_boot = Some (Fixed128Id 1) \<rparr>"

lemma demo_options_fields [simp]:
  "op_limits demo_options = default_limits" "op_provenance demo_options = BoundedText ''demo''"
  "op_replacement_policy demo_options = ReplaceIncumbent"
  "op_allow_multi_incarnation demo_options \<longleftrightarrow> False"
  "op_registrable_scope_kinds demo_options kind \<longleftrightarrow> True"
  "op_fence_on_session_loss demo_options \<longleftrightarrow> True"
  "op_advance_epoch_on_open demo_options \<longleftrightarrow> True"
  "op_coordinator_boot demo_options = Some (Fixed128Id 1)"
  "op_store_path demo_options \<noteq> []"
  by (simp_all add: demo_options_def)

lemma default_limits_fields [simp]:
  "max_participants default_limits = 200000" "max_active_workers default_limits = 200000"
  "max_recent_fences default_limits = 8192" "max_authority_grants default_limits = 200000"
  "max_scopes_per_grant default_limits = 32" "max_transition_history default_limits = 1024"
  "max_string_size default_limits = 256" "max_sessions default_limits = 1024"
  "max_idempotency_records_per_participant default_limits = 64"
  "max_fenced_boots_per_participant default_limits = 8"
  by (simp_all add: default_limits_def)

definition demo_env :: env where
  "demo_env =
     \<lparr> en_io = io_ok, en_coordinator_boot = Inr (Fixed128Id 1), en_transition = Inr (Fixed128Id 2),
       en_grant = Inr (Fixed128Id 30), en_snapshot = Inr (Fixed128Id 40) \<rparr>"

lemma demo_env_fields [simp]:
  "en_io demo_env = io_ok" "en_coordinator_boot demo_env = Inr (Fixed128Id 1)"
  "en_transition demo_env = Inr (Fixed128Id 2)" "en_grant demo_env = Inr (Fixed128Id 30)"
  "en_snapshot demo_env = Inr (Fixed128Id 40)"
  by (simp_all add: demo_env_def)

lemma initial_state_fields [simp]:
  "st_current_epoch initial_state = MonotonicCounter 0" "st_coordinator_boot initial_state = id_nil"
  "st_generation initial_state = MonotonicCounter 0" "st_participants initial_state = []"
  "st_transitions initial_state = []"
  by (simp_all add: initial_state_def)

definition empty_disk :: disk where
  "empty_disk = \<lparr> image_file = None, watermark_file = None \<rparr>"

definition at_state :: "impl \<Rightarrow> DurableState \<Rightarrow> bool" where
  "at_state s st \<longleftrightarrow>
     running_ok s \<and> saved s \<and> im_state s = st \<and> im_options s = demo_options \<and>
     (\<exists>v. read_watermark (store_options demo_options) io_ok (im_disk s) = Inr v \<and>
        v \<le> counter_value (st_current_epoch st))"

lemma at_stateD:
  assumes "at_state s st"
  shows "running_ok s" "im_state s = st" "im_options s = demo_options" "saved s"
  using assms by (simp_all add: at_state_def)

lemma at_state_commits:
  assumes "at_state s st" "im_options u = im_options s" "im_disk u = im_disk s" "im_state u = st'"
    and "validate_durable_state st' = Inr ()" "writes (encode_durable_payload st') n" "n \<le> 4294967295"
    and "sorted (map dp_id (st_participants st'))" "\<not> counter_is_zero (st_current_epoch st')"
    and "st_current_epoch st \<le> st_current_epoch st'"
  shows "commits u" "at_state (committed io_ok u) st'"
proof -
  show "commits u"
    using assms by (auto simp: commits_def at_state_def writes_def less_eq_MonotonicCounter_def)
  from committed_same [OF this] show "at_state (committed io_ok u) st'"
    using assms by (simp add: at_state_def)
qed

text \<open>Starting on an empty store.\<close>

definition state1 :: DurableState where
  "state1 = initial_state\<lparr>
     st_current_epoch := MonotonicCounter 1, st_coordinator_boot := Fixed128Id 1,
     st_generation := MonotonicCounter 1,
     st_transitions := [\<lparr> tr_id = Fixed128Id 2, tr_from_epoch = MonotonicCounter 0,
       tr_to_epoch = MonotonicCounter 1, tr_cause = EpochTransitionCause.CoordinatorStart,
       tr_coordinator_boot = Fixed128Id 1, tr_generation = MonotonicCounter 1,
       tr_provenance = BoundedText ''demo'' \<rparr>] \<rparr>"

lemmas state_defs = state1_def initial_state_def

lemmas validity_defs =
  validate_durable_state_iff within_ceilings_def durable_wf_def participant_wf_def grant_wf_def
  participant_boots_def kAbsoluteMaxRecords_def kAbsoluteMaxScopesPerSet_def counter_is_zero_def
  less_MonotonicCounter_def counter_less_def less_eq_MonotonicCounter_def id_nil_def pid_empty_def
  counter_nat_def

lemma state1_valid: "validate_durable_state state1 = Inr ()"
  by (simp add: state_defs validity_defs)

lemmas payload_defs =
  encode_durable_payload_def w_counted_def w_each_def w_participant_def w_fence_def w_grant_def
  w_transition_def w_idempotency_def w_incarnation_def w_pid_def w_text_def
  encode_scope_set_canonical_def w_scope_def

lemma state1_writes: "writes (encode_durable_payload state1) 1000"
  unfolding state_defs payload_defs
  by (rule writes_mono, simp del: w_seq.simps, (rule writes_rules | simp)+)

lemma tx_bind_next:
  "counter_next c = Some n \<Longrightarrow> tx_bind (tx_next c msg) f t = f n t"
  by (simp add: tx_next_def tx_simps)

lemmas run_simps =
  tx_simps tx_bind_next Let_def begin_tx_def upd_state_def upd_participant_def

lemma next_counters:
  "counter_next (MonotonicCounter 0) = Some (MonotonicCounter 1)"
  "counter_next (MonotonicCounter 1) = Some (MonotonicCounter 2)"
  "counter_next (MonotonicCounter 2) = Some (MonotonicCounter 3)"
  "counter_next (MonotonicCounter 3) = Some (MonotonicCounter 4)"
  by (simp_all add: counter_next_def)

lemma opened_demo:
  "im_options (opened demo_options empty_disk initial_state (Fixed128Id 1)) = demo_options"
  "im_disk (opened demo_options empty_disk initial_state (Fixed128Id 1)) = empty_disk"
  "im_state (opened demo_options empty_disk initial_state (Fixed128Id 1)) = initial_state"
  by (simp_all add: opened_def empty_impl_def rebuild_indexes_def demo_options_def)

lemma open_demo:
  "\<exists>s. open_runtime demo_env demo_options empty_disk = (Inr s, im_disk s) \<and> at_state s state1"
proof -
  let ?s = "opened demo_options empty_disk initial_state (Fixed128Id 1)"
  let ?m = "mutate_epoch demo_env (Fixed128Id 1) EpochTransitionCause.CoordinatorStart False"
  let ?t = "snd (?m (begin_tx ?s))"
  have inputs: "open_inputs demo_env demo_options empty_disk = Inr (initial_state, Fixed128Id 1)"
    by (simp add: open_inputs_def new_store_def store_options_def
        default_limits_viable store_load_def empty_disk_def)
  have body: "?m (begin_tx ?s) = (Inr (), ?t)" "im_state (tx_impl ?t) = state1"
      "im_options (tx_impl ?t) = demo_options" "im_disk (tx_impl ?t) = empty_disk"
    by (simp_all add: mutate_epoch_def run_simps opened_demo state1_def next_counters
        set_epoch_def enter_epoch_def push_transition_def transition_record_def push_bounded_def)
  have watermark: "read_watermark (store_options demo_options) io_ok empty_disk = Inr 0"
    by (simp add: read_watermark_def empty_disk_def)
  have "commits (tx_impl ?t)"
    using body watermark state1_valid state1_writes
    by (auto simp: commits_def writes_def state_defs)
  note ends = end_tx_commits(2) [of ?m ?s "()" ?t, OF body(1) this] committed_same [OF this]
  have "establish_epoch demo_env (Fixed128Id 1) EpochTransitionCause.CoordinatorStart False ?s =
      (Inr (), committed io_ok (tx_impl ?t))"
    using ends(1) by (simp add: establish_epoch_def)
  moreover have "at_state (committed io_ok (tx_impl ?t)) state1"
    using ends body by (simp add: at_state_def state_defs counter_is_zero_def)
  ultimately show ?thesis
    using inputs by (simp add: open_runtime_def counter_is_zero_def Let_def)
qed

text \<open>A transaction of the run.\<close>

lemma demo_step:
  assumes "at_state s st" "validate_durable_state st' = Inr ()"
    and "writes (encode_durable_payload st') 1000"
    and "sorted (map dp_id (st_participants st'))" "\<not> counter_is_zero (st_current_epoch st')"
    and "st_current_epoch st \<le> st_current_epoch st'"
    and "\<exists>x t. body (begin_tx s) = (Inr x, t) \<and> tx_mutated t \<and>
      im_options (tx_impl t) = demo_options \<and> im_disk (tx_impl t) = im_disk s \<and>
      im_state (tx_impl t) = st' \<and> P x"
  shows "\<exists>x s'. run_tx io_ok body s = (Inr x, s') \<and> at_state s' st' \<and> P x"
proof -
  obtain x t where t: "body (begin_tx s) = (Inr x, t)" "tx_mutated t"
      "im_options (tx_impl t) = demo_options" "im_disk (tx_impl t) = im_disk s"
      "im_state (tx_impl t) = st'" "P x"
    using assms(7) by blast
  have o: "im_options (tx_impl t) = im_options s"
    using assms(1) t(3) by (simp add: at_state_def)
  have "commits (tx_impl t) \<and> at_state (committed io_ok (tx_impl t)) st'"
    using at_state_commits [OF assms(1) o t(4,5) assms(2,3) _ assms(4-6)] by simp
  then show ?thesis
    using run_tx_commits [of body s x t, OF t(1,2)] t(6) by blast
qed

lemma digest_symbolic: "writes (w_seq ws) n \<Longrightarrow> digest_of ws = Inr (projr (digest_of ws))"
  by (auto simp: digest_of_def writes_def)

lemma demo_text: "text_is_valid ''demo'' 256"
  by code_simp

lemma id_is_nil_word: "id_is_nil (Fixed128Id w) \<longleftrightarrow> w = 0"
  by (simp add: id_is_nil_iff id_nil_def)

lemmas shape_simps =
  demo_text id_is_nil_word scope_set_size_def scope_set_empty_def pid_empty_def

text \<open>A worker registers.\<close>

definition worker :: ParticipantId where
  "worker = ParticipantId ''worker-a''"

definition north :: AuthorityScope where
  "north = AuthorityScope ScopeKind.Site ''north''"

definition register_request :: RegisterParticipantRequest where
  "register_request =
     \<lparr> rp_attempt = Fixed128Id 100, rp_expected_epoch = MonotonicCounter 1, rp_participant = worker,
       rp_boot = Fixed128Id 10, rp_scopes = ScopeSet [north],
       rp_policy = IncarnationPolicy.SingleIncarnation, rp_expected_generation = None,
       rp_provenance = BoundedText ''demo'' \<rparr>"

definition register_semantic :: SnapshotDigest where
  "register_semantic = projr (register_digest register_request)"

definition worker1 :: DurableParticipant where
  "worker1 =
     \<lparr> dp_id = worker, dp_registration_generation = MonotonicCounter 1,
       dp_fence_generation = MonotonicCounter 0, dp_incarnation_floor = MonotonicCounter 0,
       dp_policy = IncarnationPolicy.SingleIncarnation, dp_retired = False,
       dp_revalidation_required = False, dp_has_active_boot = True,
       dp_active_boot = Fixed128Id 10, dp_active_incarnation = MonotonicCounter 1,
       dp_next_incarnation = MonotonicCounter 2, dp_extra_incarnations = [],
       dp_scopes = ScopeSet [north], dp_accepted_registrations = 1, dp_replay_hits = 0,
       dp_fenced_boots = [],
       dp_idempotency = [registration_record register_request register_semantic
         (MonotonicCounter 1) (MonotonicCounter 1)] \<rparr>"

definition state2 :: DurableState where
  "state2 = state1\<lparr> st_generation := MonotonicCounter 2, st_registration_floor := MonotonicCounter 1,
     st_participants := [worker1] \<rparr>"

lemmas state2_defs =
  state2_def state_defs worker1_def worker_def north_def registration_record_def register_request_def

lemma state2_valid: "validate_durable_state state2 = Inr ()"
  by (simp add: state2_defs validity_defs)

lemma state2_writes: "writes (encode_durable_payload state2) 1000"
  unfolding state2_defs payload_defs
  by (rule writes_mono, simp del: w_seq.simps, (rule writes_rules | simp)+)

lemma state1_fields:
  "st_participants state1 = []" "st_registration_floor state1 = MonotonicCounter 0"
  "st_generation state1 = MonotonicCounter 1"
  by (simp_all add: state1_def initial_state_def)

lemmas registration_steps =
  add_participant_def fresh_participant_def set_registration_floor_def enter_incarnation_def
  issue_incarnation_def remember_for_participant_def remember_attempt_def push_bounded_def
  bump_generation_def set_generation_def participant_at_def registration_accepted_def
  registration_result_def next_counters state2_def worker1_def register_request_def

lemma register_demo:
  assumes "at_state s state1"
  shows "\<exists>r s'. register_participant io_ok register_request s = (Inr r, s') \<and> at_state s' state2 \<and>
    rr_outcome r = RegistrationOutcome.Registered \<and> \<not> rr_replayed r"
proof -
  note at = at_stateD [OF assms]
  have digest: "register_digest register_request = Inr register_semantic"
    unfolding register_semantic_def register_digest_def
    by (rule digest_symbolic, unfold register_request_def payload_defs north_def worker_def,
      simp del: w_seq.simps, (rule writes_rules | simp)+)
  let ?m = "apply_registration register_request True"
  have absent: "find_participant s (rp_participant register_request) = None"
    using at by (simp add: find_participant_search state1_def)
  have screen: "registration_screen s register_request = None"
    using at absent
    by (simp add: registration_screen_def registration_shape_def registration_scopes_def registration_epoch_def
       register_request_def shape_simps worker_def state1_def)
  have limits: "registration_limits None s = None"
    using at by (simp add: registration_limits_def state1_def running_ok_def indexes_match_def
        active_worker_count_def)
  show ?thesis
    unfolding register_participant_def
  proof (rule demo_step [OF assms state2_valid state2_writes])
    show "\<exists>r t. ?m (begin_tx s) = (Inr r, t) \<and> tx_mutated t \<and> im_options (tx_impl t) = demo_options \<and>
        im_disk (tx_impl t) = im_disk s \<and> im_state (tx_impl t) = state2 \<and>
        rr_outcome r = RegistrationOutcome.Registered \<and> \<not> rr_replayed r"
      using at absent screen digest limits
      by (simp add: apply_registration_def run_simps finish_registration_def accept_registration_def
          open_record_def issue_registration_def registration_steps state1_fields)
  qed (simp_all add: state2_defs counter_is_zero_def)
qed

text \<open>The same worker boot is fenced by an operator.\<close>

definition fence_request :: FenceWorkerRequest where
  "fence_request =
     \<lparr> fw_attempt = Fixed128Id 101, fw_expected_epoch = MonotonicCounter 1, fw_participant = worker,
       fw_boot = Fixed128Id 10, fw_reason = FenceReason.ExplicitOperatorFence,
       fw_note = BoundedText ''demo'' \<rparr>"

lemma fence_request_fields [simp]:
  "fw_attempt fence_request = Fixed128Id 101" "fw_expected_epoch fence_request = MonotonicCounter 1"
  "fw_participant fence_request = worker" "fw_boot fence_request = Fixed128Id 10"
  "fw_reason fence_request = FenceReason.ExplicitOperatorFence"
  "fw_note fence_request = BoundedText ''demo''"
  by (simp_all add: fence_request_def)

definition fence_semantic :: SnapshotDigest where
  "fence_semantic = projr (fence_digest fence_request)"

definition worker_fence :: FenceRecord where
  "worker_fence = fence_record state2 worker (Fixed128Id 10) FenceReason.ExplicitOperatorFence
     (BoundedText ''demo'') (MonotonicCounter 1) (MonotonicCounter 1)"

definition fence_answer :: IdempotencyRecord where
  "fence_answer =
     \<lparr> ir_attempt = Fixed128Id 101, ir_operation = OperationKind.FenceWorker,
       ir_semantic = fence_semantic, ir_outcome = ucast (fence_outcome_wire FenceOutcome.Fenced),
       ir_auxiliary = 1, ir_auxiliary_high = 1, ir_auxiliary_id = 0 \<rparr>"

definition worker2 :: DurableParticipant where
  "worker2 = worker1\<lparr>
     dp_fence_generation := MonotonicCounter 1, dp_incarnation_floor := MonotonicCounter 1,
     dp_has_active_boot := False, dp_active_boot := id_nil, dp_active_incarnation := MonotonicCounter 0,
     dp_fenced_boots := [Fixed128Id 10],
     dp_idempotency := dp_idempotency worker1 @ [fence_answer] \<rparr>"

definition state3 :: DurableState where
  "state3 = state2\<lparr> st_generation := MonotonicCounter 3, st_fence_floor := MonotonicCounter 1,
     st_participants := [worker2], st_recent_fences := [worker_fence] \<rparr>"

lemmas state3_defs =
  state3_def worker2_def worker_fence_def fence_answer_def fence_record_def state2_defs

lemma state3_valid: "validate_durable_state state3 = Inr ()"
  by (simp add: state3_defs validity_defs)

lemma state3_writes: "writes (encode_durable_payload state3) 1000"
  unfolding state3_defs payload_defs
  by (rule writes_mono, simp del: w_seq.simps, (rule writes_rules | simp)+)

lemma state2_fields:
  "st_participants state2 = [worker1]" "st_recent_fences state2 = []" "st_grants state2 = []"
  "st_current_epoch state2 = MonotonicCounter 1" "st_fence_floor state2 = MonotonicCounter 0"
  "st_generation state2 = MonotonicCounter 2" "st_control_attempts state2 = []"
  "st_registration_floor state2 = MonotonicCounter 1" "st_coordinator_boot state2 = Fixed128Id 1"
  "st_transitions state2 = st_transitions state1" "length (st_transitions state1) = 1"
  by (simp_all add: state2_def state1_def initial_state_def)

lemma worker1_fields [simp]:
  "dp_id worker1 = worker" "dp_has_active_boot worker1" "dp_active_boot worker1 = Fixed128Id 10"
  "dp_active_incarnation worker1 = MonotonicCounter 1" "dp_extra_incarnations worker1 = []"
  "dp_incarnation_floor worker1 = MonotonicCounter 0" "dp_fenced_boots worker1 = []"
  "dp_scopes worker1 = ScopeSet [north]" "\<not> dp_retired worker1"
  "dp_policy worker1 = IncarnationPolicy.SingleIncarnation"
  "dp_next_incarnation worker1 = MonotonicCounter 2"
  "ir_attempt ` set (dp_idempotency worker1) = {Fixed128Id 100}" "length (dp_idempotency worker1) = 1"
  by (simp_all add: worker1_def registration_record_def register_request_def)

lemma find_attempt_None: "attempt \<notin> ir_attempt ` set rs \<Longrightarrow> find_attempt rs attempt = None"
  by (auto simp: find_attempt_def find_None_iff)

lemma state2_lookups:
  assumes "at_state s state2"
  shows "im_participant_index s = [pid_value worker \<mapsto> 0]" "participant_at s 0 = worker1"
    "\<not> fl_fenced (lookup_fence s worker boot)"
    "im_active_workers s = 1"
proof -
  note at = at_stateD [OF assms]
  from at show "im_participant_index s = [pid_value worker \<mapsto> 0]" "participant_at s 0 = worker1"
      "im_active_workers s = 1"
    by (simp_all add: running_ok_def indexes_match_def participant_index_of_def participant_at_def
        state2_fields active_worker_count_def participant_boots_def)
  show "\<not> fl_fenced (lookup_fence s worker boot)"
    using lookup_fence_iff [OF at(1), of worker1 boot] at by (simp add: state2_fields)
qed

lemmas fence_steps =
  close_incarnation_def retain_fence_def remove_live_def raise_floor_def set_fence_generation_def
  push_bounded_def bump_generation_def set_generation_def next_counters participant_at_def
  fence_result_def find_participant_def remember_for_participant_def remember_attempt_def
  less_MonotonicCounter_def counter_less_def find_incarnation_def size_dec_def

lemma fence_demo:
  assumes "at_state s state2"
  shows "\<exists>r s'. fence_worker io_ok fence_request s = (Inr r, s') \<and> at_state s' state3 \<and>
    fo_outcome r = FenceOutcome.Fenced"
proof -
  note at = at_stateD [OF assms]
  note lookups = state2_lookups [OF assms]
  have digest: "fence_digest fence_request = Inr fence_semantic"
    unfolding fence_semantic_def fence_digest_def
    by (rule digest_symbolic, unfold fence_request_def payload_defs worker_def,
      simp del: w_seq.simps, (rule writes_rules | simp)+)
  have screen: "fence_screen (im_state s) fence_request = None"
    using at by (simp add: fence_screen_def shape_simps worker_def state2_fields)
  show ?thesis
    unfolding fence_worker_def
  proof (rule demo_step [OF assms state3_valid state3_writes])
    show "\<exists>r t. fence_body fence_request (begin_tx s) = (Inr r, t) \<and> tx_mutated t \<and>
        im_options (tx_impl t) = demo_options \<and> im_disk (tx_impl t) = im_disk s \<and>
        im_state (tx_impl t) = state3 \<and> fo_outcome r = FenceOutcome.Fenced"
      using at lookups digest screen
      by (simp add: fence_body_def run_simps record_fence_def live_fence_def fence_steps state2_fields
          find_attempt_None state3_def worker2_def worker_fence_def fence_answer_def
          fence_attempt_record_def fence_record_def)
  qed (simp_all add: state3_defs counter_is_zero_def)
qed

text \<open>The registered incarnation is granted authority, and the grant is revoked.\<close>

definition grant_request :: GrantAuthorityRequest where
  "grant_request =
     \<lparr> gq_attempt = Fixed128Id 102, gq_expected_epoch = MonotonicCounter 1, gq_participant = worker,
       gq_boot = Fixed128Id 10, gq_incarnation = MonotonicCounter 1, gq_scopes = ScopeSet [north],
       gq_parent = None, gq_provenance = BoundedText ''demo'' \<rparr>"

lemma grant_request_fields [simp]:
  "gq_attempt grant_request = Fixed128Id 102" "gq_expected_epoch grant_request = MonotonicCounter 1"
  "gq_participant grant_request = worker" "gq_boot grant_request = Fixed128Id 10"
  "gq_incarnation grant_request = MonotonicCounter 1" "gq_scopes grant_request = ScopeSet [north]"
  "gq_parent grant_request = None" "gq_provenance grant_request = BoundedText ''demo''"
  by (simp_all add: grant_request_def)

definition grant_semantic :: SnapshotDigest where
  "grant_semantic = projr (grant_digest grant_request)"

definition grant1 :: AuthorityGrant where
  "grant1 =
     \<lparr> ag_id = Fixed128Id 30, ag_epoch = MonotonicCounter 1, ag_participant = worker,
       ag_boot = Fixed128Id 10, ag_incarnation = MonotonicCounter 1, ag_scopes = ScopeSet [north],
       ag_generation = MonotonicCounter 3, ag_parent = None, ag_delegator_boot = None,
       ag_revoked = False, ag_revoked_at_epoch = MonotonicCounter 0,
       ag_provenance = BoundedText ''demo'' \<rparr>"

definition worker3 :: DurableParticipant where
  "worker3 = worker1\<lparr> dp_idempotency :=
     dp_idempotency worker1 @ [grant_record grant_request grant_semantic grant1] \<rparr>"

definition state4 :: DurableState where
  "state4 = state2\<lparr> st_generation := MonotonicCounter 3, st_participants := [worker3],
     st_grants := [grant1] \<rparr>"

lemmas state4_defs = state4_def worker3_def grant1_def grant_record_def state2_defs

lemma state4_valid: "validate_durable_state state4 = Inr ()"
  by (simp add: state4_defs validity_defs)

lemma state4_writes: "writes (encode_durable_payload state4) 1000"
  unfolding state4_defs payload_defs
  by (rule writes_mono, simp del: w_seq.simps, (rule writes_rules | simp)+)

lemma north_contained: "scope_set_contains_all (ScopeSet [north]) (ScopeSet [north])"
  by (simp add: north_def, code_simp)

lemma grant_demo:
  assumes "at_state s state2"
  shows "\<exists>r s'. grant_authority demo_env grant_request s = (Inr r, s') \<and> at_state s' state4 \<and>
    gr_outcome r = GrantOutcome.Granted \<and> gr_grant r = Some (Fixed128Id 30)"
proof -
  note at = at_stateD [OF assms]
  note lookups = state2_lookups [OF assms]
  have digest: "grant_digest grant_request = Inr grant_semantic"
    unfolding grant_semantic_def grant_digest_def
    by (rule digest_symbolic, unfold grant_request_def payload_defs worker_def north_def,
      simp del: w_seq.simps, (rule writes_rules | simp)+)
  have shape: "grant_shape default_limits state2 grant_request = None"
    by (simp add: grant_shape_def shape_simps worker_def state2_fields counter_is_zero_def)
  have standing: "grant_standing s worker1 grant_request = None"
    by (simp add: grant_standing_def evaluate_incarnation_def find_incarnation_def evaluation_def
        north_contained Let_def)
  show ?thesis
    unfolding grant_authority_def demo_env_fields
  proof (rule demo_step [OF assms state4_valid state4_writes])
    show "\<exists>r t. apply_grant demo_env grant_request (begin_tx s) = (Inr r, t) \<and> tx_mutated t \<and>
        im_options (tx_impl t) = demo_options \<and> im_disk (tx_impl t) = im_disk s \<and>
        im_state (tx_impl t) = state4 \<and> gr_outcome r = GrantOutcome.Granted \<and>
        gr_grant r = Some (Fixed128Id 30)"
      using at lookups digest shape standing
      by (simp add: apply_grant_def run_simps enter_grant_def append_grant_def new_grant_def stamp_grant_def
          upd_grant_def grant_result_def fence_steps state2_fields find_attempt_None
          state4_def worker3_def grant1_def)
  qed (simp_all add: state4_defs counter_is_zero_def)
qed

definition revoke_request :: RevokeAuthorityRequest where
  "revoke_request =
     \<lparr> vq_attempt = Fixed128Id 103, vq_expected_epoch = MonotonicCounter 1, vq_grant = Fixed128Id 30,
       vq_reason = FenceReason.AdministrativeRevoke, vq_note = BoundedText ''demo'' \<rparr>"

lemma revoke_request_fields [simp]:
  "vq_attempt revoke_request = Fixed128Id 103" "vq_expected_epoch revoke_request = MonotonicCounter 1"
  "vq_grant revoke_request = Fixed128Id 30"
  "vq_reason revoke_request = FenceReason.AdministrativeRevoke"
  by (simp_all add: revoke_request_def)

definition revoke_semantic :: SnapshotDigest where
  "revoke_semantic = projr (revoke_digest revoke_request)"

definition grant2 :: AuthorityGrant where
  "grant2 = grant1\<lparr> ag_revoked := True, ag_revoked_at_epoch := MonotonicCounter 1,
     ag_generation := MonotonicCounter 4 \<rparr>"

definition state5 :: DurableState where
  "state5 = state4\<lparr> st_generation := MonotonicCounter 4, st_grants := [grant2],
     st_control_attempts := [revoke_record revoke_request revoke_semantic grant2 0] \<rparr>"

lemmas state5_defs = state5_def grant2_def revoke_record_def state4_defs

lemma state5_valid: "validate_durable_state state5 = Inr ()"
  by (simp add: state5_defs validity_defs)

lemma state5_writes: "writes (encode_durable_payload state5) 1000"
  unfolding state5_defs payload_defs
  by (rule writes_mono, simp del: w_seq.simps, (rule writes_rules | simp)+)

lemma state4_fields:
  "st_grants state4 = [grant1]" "st_current_epoch state4 = MonotonicCounter 1"
  "st_generation state4 = MonotonicCounter 3" "st_control_attempts state4 = []"
  "st_participants state4 = [worker3]"
  by (simp_all add: state4_def state2_def state1_def initial_state_def)

lemma revoke_demo:
  assumes "at_state s state4"
  shows "\<exists>r s'. revoke_authority io_ok revoke_request s = (Inr r, s') \<and> at_state s' state5 \<and>
    vr_outcome r = RevokeOutcome.Revoked"
proof -
  note at = at_stateD [OF assms]
  have index: "im_grant_index s = [id_to_string (Fixed128Id 30 :: AuthorityGrantId) \<mapsto> 0]" "im_grant_children s = Map.empty"
    using at by (simp_all add: running_ok_def indexes_match_def grant_index_of_def grant_children_of_def
      state4_fields grant1_def)
  have digest: "revoke_digest revoke_request = Inr revoke_semantic"
    unfolding revoke_semantic_def revoke_digest_def
    by (rule digest_symbolic, unfold revoke_request_def payload_defs,
      simp del: w_seq.simps, (rule writes_rules | simp)+)
  have screen: "revoke_screen state4 revoke_request = None"
    by (simp add: revoke_screen_def shape_simps state4_fields)
  show ?thesis
    unfolding revoke_authority_def
  proof (rule demo_step [OF assms state5_valid state5_writes])
    show "\<exists>r t. apply_revoke revoke_request (begin_tx s) = (Inr r, t) \<and> tx_mutated t \<and>
        im_options (tx_impl t) = demo_options \<and> im_disk (tx_impl t) = im_disk s \<and>
        im_state (tx_impl t) = state5 \<and> vr_outcome r = RevokeOutcome.Revoked"
      using at index digest screen
      by (simp add: apply_revoke_def run_simps enter_revocation_def lookup_grant_def children_ids_def
          mark_revoked_def stamp_grant_def upd_grant_def revoke_result_def remember_control_def
          walk_fuel_def eval_nat_numeral fence_steps state4_fields find_attempt_None
          state5_def grant2_def grant1_def)
  qed (simp_all add: state5_defs counter_is_zero_def)
qed

text \<open>The participant is retired.\<close>

definition retire_request :: RetireParticipantRequest where
  "retire_request =
     \<lparr> tq_attempt = Fixed128Id 104, tq_expected_epoch = MonotonicCounter 1, tq_participant = worker,
       tq_note = BoundedText ''demo'' \<rparr>"

lemma retire_request_fields [simp]:
  "tq_attempt retire_request = Fixed128Id 104" "tq_expected_epoch retire_request = MonotonicCounter 1"
  "tq_participant retire_request = worker" "tq_note retire_request = BoundedText ''demo''"
  by (simp_all add: retire_request_def)

definition retire_semantic :: SnapshotDigest where
  "retire_semantic = projr (retire_digest retire_request)"

definition retiring_worker :: DurableParticipant where
  "retiring_worker = worker1\<lparr>
     dp_fence_generation := MonotonicCounter 1, dp_incarnation_floor := MonotonicCounter 1,
     dp_has_active_boot := False, dp_active_boot := id_nil, dp_active_incarnation := MonotonicCounter 0,
     dp_fenced_boots := [Fixed128Id 10] \<rparr>"

definition retiring_state :: DurableState where
  "retiring_state = state2\<lparr> st_generation := MonotonicCounter 3, st_fence_floor := MonotonicCounter 1,
     st_participants := [retiring_worker],
     st_recent_fences := [worker_fence\<lparr> fr_reason := FenceReason.AdministrativeRevoke \<rparr>] \<rparr>"

definition worker4 :: DurableParticipant where
  "worker4 = worker1\<lparr>
     dp_fence_generation := MonotonicCounter 1, dp_incarnation_floor := MonotonicCounter 1,
     dp_has_active_boot := False, dp_active_boot := id_nil, dp_active_incarnation := MonotonicCounter 0,
     dp_fenced_boots := [Fixed128Id 10], dp_retired := True,
     dp_idempotency := dp_idempotency worker1 @ [retire_record retire_request retire_semantic 1] \<rparr>"

definition state6 :: DurableState where
  "state6 = state2\<lparr> st_generation := MonotonicCounter 4, st_fence_floor := MonotonicCounter 1,
     st_participants := [worker4],
     st_recent_fences := [worker_fence\<lparr> fr_reason := FenceReason.AdministrativeRevoke \<rparr>] \<rparr>"

lemmas state6_defs =
  state6_def worker4_def worker_fence_def retire_record_def fence_record_def state2_defs

lemma state6_valid: "validate_durable_state state6 = Inr ()"
  by (simp add: state6_defs validity_defs)

lemma state6_writes: "writes (encode_durable_payload state6) 1000"
  unfolding state6_defs payload_defs
  by (rule writes_mono, simp del: w_seq.simps, (rule writes_rules | simp)+)

lemma retire_demo:
  assumes "at_state s state2"
  shows "\<exists>r s'. retire_participant io_ok retire_request s = (Inr r, s') \<and> at_state s' state6 \<and>
    to_outcome r = RetireOutcome.Retired \<and> to_incarnations_fenced r = 1"
proof -
  note at = at_stateD [OF assms]
  note lookups = state2_lookups [OF assms]
  have digest: "retire_digest retire_request = Inr retire_semantic"
    unfolding retire_semantic_def retire_digest_def
    by (rule digest_symbolic, unfold retire_request_def payload_defs worker_def,
      simp del: w_seq.simps, (rule writes_rules | simp)+)
  have screen: "retire_screen state2 retire_request = None"
    by (simp add: retire_screen_def shape_simps worker_def state2_fields)
  let ?f = "record_fence worker (Fixed128Id 10) FenceReason.AdministrativeRevoke (BoundedText ''demo'') False"
  have "\<exists>r t. ?f (begin_tx s) = (Inr r, t) \<and> fo_outcome r = FenceOutcome.Fenced \<and>
      im_options (tx_impl t) = demo_options \<and> im_disk (tx_impl t) = im_disk s \<and>
      im_participant_index (tx_impl t) = [pid_value worker \<mapsto> 0] \<and>
      im_state (tx_impl t) = retiring_state"
    using at lookups
    by (simp add: run_simps record_fence_def live_fence_def fence_steps state2_fields
        retiring_state_def retiring_worker_def worker_fence_def fence_record_def)
  then obtain r t where t: "?f (begin_tx s) = (Inr r, t)" "fo_outcome r = FenceOutcome.Fenced"
      "im_options (tx_impl t) = demo_options" "im_disk (tx_impl t) = im_disk s"
      "im_participant_index (tx_impl t) = [pid_value worker \<mapsto> 0]"
      "im_state (tx_impl t) = retiring_state"
    by blast
  have found: "find_participant (tx_impl t) worker = Some 0"
    using t(5,6) by (simp add: find_participant_def retiring_state_def)
  have all: "fence_all retire_request [Fixed128Id 10] 0 (begin_tx s) = (Inr 1, t)"
    using t(2) found by (simp add: tx_simps tx_bind_Inr [of ?f "begin_tx s" r t, OF t(1)])
  have tables: "im_participants (tx_impl t) = [retiring_worker]" "st_generation (im_state (tx_impl t)) = MonotonicCounter 3"
    using t(6) by (simp_all add: retiring_state_def)
  have closed: "close_allocator retiring_worker = retiring_worker\<lparr> dp_retired := True \<rparr>"
    by (simp add: close_allocator_def retiring_worker_def raise_floor_def counter_is_zero_def
        less_MonotonicCounter_def counter_less_def worker1_def Let_def)
  have final: "(im_state (tx_impl t))\<lparr> st_generation := MonotonicCounter 4,
        st_participants := [retiring_worker\<lparr> dp_retired := True, dp_idempotency :=
          dp_idempotency retiring_worker @ [retire_record retire_request retire_semantic (Suc 0)] \<rparr>] \<rparr> = state6"
      "length (dp_idempotency retiring_worker) = 1"
    by (simp_all add: t(6) retiring_state_def retiring_worker_def state6_def worker4_def)
  have start: "tx_impl (begin_tx s) = s" by (simp add: begin_tx_def)
  have body: "apply_retire retire_request (begin_tx s) =
      enter_retirement retire_request retire_semantic 0 (begin_tx s)"
    using at lookups digest screen
    by (simp add: apply_retire_def tx_simps begin_tx_def find_participant_def state2_fields find_attempt_None)
  show ?thesis
    unfolding retire_participant_def
  proof (rule demo_step [OF assms state6_valid state6_writes])
    show "\<exists>r t. apply_retire retire_request (begin_tx s) = (Inr r, t) \<and> tx_mutated t \<and>
        im_options (tx_impl t) = demo_options \<and> im_disk (tx_impl t) = im_disk s \<and>
        im_state (tx_impl t) = state6 \<and> to_outcome r = RetireOutcome.Retired \<and>
        to_incarnations_fenced r = 1"
      unfolding body enter_retirement_def
      using lookups(2) t(3,4) tables final
      by (simp add: tx_simps tx_bind_Inr [of "fence_all retire_request [Fixed128Id 10] 0" "begin_tx s" 1 t, OF all]
          tx_bind_next start participant_boots_def upd_participant_def upd_state_def closed
          bump_generation_def set_generation_def next_counters remember_for_participant_def
          remember_attempt_def push_bounded_def retire_result_def del: fence_all.simps)
  qed (simp_all add: state6_defs counter_is_zero_def)
qed

text \<open>The epoch advances by request.\<close>

definition advance_request :: EpochAdvanceRequest where
  "advance_request =
     \<lparr> eq_attempt = Fixed128Id 105, eq_expected_epoch = MonotonicCounter 1,
       eq_cause = EpochTransitionCause.CoordinatorRestart, eq_provenance = BoundedText ''demo'' \<rparr>"

lemma advance_request_fields [simp]:
  "eq_attempt advance_request = Fixed128Id 105" "eq_expected_epoch advance_request = MonotonicCounter 1"
  "eq_cause advance_request = EpochTransitionCause.CoordinatorRestart"
  by (simp_all add: advance_request_def)

definition advance_env :: env where
  "advance_env = demo_env\<lparr> en_transition := Inr (Fixed128Id 3) \<rparr>"

lemma advance_env_fields [simp]: "en_io advance_env = io_ok" "en_transition advance_env = Inr (Fixed128Id 3)"
  by (simp_all add: advance_env_def)

definition advance_semantic :: SnapshotDigest where
  "advance_semantic = projr (advance_digest advance_request)"

definition worker5 :: DurableParticipant where
  "worker5 = worker1\<lparr> dp_revalidation_required := True, dp_has_active_boot := False,
     dp_active_boot := id_nil, dp_active_incarnation := MonotonicCounter 0 \<rparr>"

definition state7 :: DurableState where
  "state7 = state2\<lparr> st_current_epoch := MonotonicCounter 2, st_generation := MonotonicCounter 3,
     st_participants := [worker5],
     st_transitions := st_transitions state1 @
       [transition_record state2 (MonotonicCounter 2) (MonotonicCounter 3) (Fixed128Id 1)
         EpochTransitionCause.CoordinatorRestart (BoundedText ''demo'') (Fixed128Id 3)],
     st_control_attempts := [advance_record advance_request advance_semantic (MonotonicCounter 2)] \<rparr>"

lemmas state7_defs =
  state7_def worker5_def transition_record_def advance_record_def state2_defs

lemma state7_valid: "validate_durable_state state7 = Inr ()"
  by (simp add: state7_defs validity_defs)

lemma state7_writes: "writes (encode_durable_payload state7) 1000"
  unfolding state7_defs payload_defs
  by (rule writes_mono, simp del: w_seq.simps, (rule writes_rules | simp)+)

lemma advance_demo:
  assumes "at_state s state2"
  shows "\<exists>r s'. advance_epoch advance_env advance_request s = (Inr r, s') \<and> at_state s' state7 \<and>
    eo_outcome r = EpochAdvanceOutcome.Advanced \<and> \<not> eo_replayed r"
proof -
  note at = at_stateD [OF assms]
  have digest: "advance_digest advance_request = Inr advance_semantic"
    unfolding advance_semantic_def advance_digest_def
    by (rule digest_symbolic, unfold advance_request_def payload_defs,
      simp del: w_seq.simps, (rule writes_rules | simp)+)
  have screen: "advance_screen state2 advance_request = None"
    by (simp add: advance_screen_def shape_simps state2_fields counter_is_max_def)
  let ?m = "move_epoch advance_env advance_request advance_semantic"
  have "\<exists>t. ?m (begin_tx s) = (Inr (), t) \<and> im_options (tx_impl t) = demo_options \<and>
      im_disk (tx_impl t) = im_disk s \<and> im_state (tx_impl t) = state7"
    using at
    by (simp add: move_epoch_def mutate_epoch_def run_simps state2_fields next_counters set_epoch_def
       enter_epoch_def push_transition_def push_bounded_def remember_control_def remember_attempt_def
       invalidate_participant_def has_current_incarnation_def state7_def worker5_def)
  then obtain t where t: "?m (begin_tx s) = (Inr (), t)" "im_options (tx_impl t) = demo_options"
      "im_disk (tx_impl t) = im_disk s" "im_state (tx_impl t) = state7"
    by blast
  have c: "commits (tx_impl t)" "at_state (committed io_ok (tx_impl t)) state7"
    using at_state_commits [OF assms _ t(3,4) state7_valid state7_writes] at t(2)
    by (simp_all add: state7_def state2_fields counter_is_zero_def less_eq_MonotonicCounter_def)
  have "advance_epoch advance_env advance_request s =
      (Inr (advance_accepted advance_request state7), committed io_ok (tx_impl t))"
    using at digest screen persist_commits [OF c(1)] at_stateD(2) [OF c(2)]
    by (auto simp: tx_bind_Inr [of ?m "begin_tx s" "()" t, OF t(1), unfolded begin_tx_def]
        advance_epoch_def advance_body_def enter_advance_def tx_simps begin_tx_def
        state2_fields find_attempt_None id_is_nil_word tx_bind_Inr end_tx_def undo_rollback_def Let_def)
  then show ?thesis
    using c(2) by (simp add: advance_accepted_def advance_result_def)
qed

text \<open>The coordinator is restarted on the disk the registration left.\<close>

definition state8 :: DurableState where
  "state8 = state7\<lparr> st_control_attempts := [] \<rparr>"

lemma state8_valid: "validate_durable_state state8 = Inr ()"
  by (simp add: state8_def state7_defs validity_defs)

lemma state8_writes: "writes (encode_durable_payload state8) 1000"
  unfolding state8_def state7_defs payload_defs
  by (rule writes_mono, simp del: w_seq.simps, (rule writes_rules | simp)+)

lemma demo_fits:
  "pid_fits (structural_limits default_limits) worker"
  "text_fits (structural_limits default_limits) (BoundedText ''demo'')"
  "scope_set_fits (structural_limits default_limits) (ScopeSet [north])"
proof -
  have "pid_valid worker" "scope_valid north" "list_all text_char_ok ''demo''"
    by (simp_all only: worker_def north_def, code_simp+)
  then show "pid_fits (structural_limits default_limits) worker"
      "text_fits (structural_limits default_limits) (BoundedText ''demo'')"
      "scope_set_fits (structural_limits default_limits) (ScopeSet [north])"
    by (simp_all add: pid_fits_def string_fits_def worker_def text_fits_def structural_limits_def
        kAbsoluteMaxBytes_def text_is_valid_def scope_set_fits_def scope_fits_def north_def
        pid_max_length_def kAbsoluteMaxDurableText_def kAbsoluteMaxScopesPerSet_def
        max_subject_length_def scope_set_canonical_def)
qed

lemma state2_storable: "storable (store_options demo_options) state2"
proof -
  have "records_fit (structural_limits default_limits) state2"
    using demo_fits
    by (simp add: records_fit_def state2_fields participant_fits_def worker1_def transition_fits_def state1_def)
  moreover have "history_readable state2"
    by (simp add: history_readable_def state2_defs)
  ultimately show ?thesis
    using state2_valid state2_writes
    by (auto simp: storable_def store_options_def writes_def kAbsoluteMaxPayloadLength_def)
qed

lemma load_demo:
  assumes "at_state s state2"
  shows "store_load (store_options demo_options) io_ok (im_disk s) = Inr state2"
proof (rule load_image [OF state2_storable])
  show "image_file (im_disk s) = Some (projr (store_encode state2))"
    using at_stateD [OF assms] by (auto simp: saved_def)
  show "\<exists>v. read_watermark (store_options demo_options) io_ok (im_disk s) = Inr v \<and>
      v \<le> counter_value (st_current_epoch state2)"
    using assms by (auto simp: at_state_def)
qed

lemma reopen_demo:
  assumes "at_state s state2"
  shows "\<exists>s'. open_runtime advance_env demo_options (im_disk s) = (Inr s', im_disk s') \<and> at_state s' state8"
proof -
  let ?s = "opened demo_options (im_disk s) state2 (Fixed128Id 1)"
  let ?m = "mutate_epoch advance_env (Fixed128Id 1) EpochTransitionCause.CoordinatorRestart True"
  have inputs: "open_inputs advance_env demo_options (im_disk s) = Inr (state2, Fixed128Id 1)"
    using load_demo [OF assms]
    by (simp add: open_inputs_def new_store_def store_options_def default_limits_viable)
  have base: "im_state ?s = state2" "im_disk ?s = im_disk s" "im_options ?s = demo_options"
    by (simp_all add: opened_facts opened_def empty_impl_def frame_simps)
  have "\<exists>t. ?m (begin_tx ?s) = (Inr (), t) \<and> im_options (tx_impl t) = demo_options \<and>
      im_disk (tx_impl t) = im_disk s \<and> im_state (tx_impl t) = state8"
    using base
    by (simp add: mutate_epoch_def run_simps state2_fields next_counters set_epoch_def
       enter_epoch_def push_transition_def push_bounded_def invalidate_participant_def
       has_current_incarnation_def state8_def state7_def worker5_def)
  then obtain t where t: "?m (begin_tx ?s) = (Inr (), t)" "im_options (tx_impl t) = demo_options"
      "im_disk (tx_impl t) = im_disk s" "im_state (tx_impl t) = state8"
    by blast
  have c: "commits (tx_impl t)" "at_state (committed io_ok (tx_impl t)) state8"
    using at_state_commits [OF assms _ t(3,4) state8_valid state8_writes] at_stateD [OF assms] t(2)
    by (simp_all add: state8_def state7_def state2_fields counter_is_zero_def less_eq_MonotonicCounter_def)
  have "establish_epoch advance_env (Fixed128Id 1) EpochTransitionCause.CoordinatorRestart True ?s =
      (Inr (), committed io_ok (tx_impl t))"
    using end_tx_commits(2) [of ?m ?s "()" t, OF t(1) c(1)] by (simp add: establish_epoch_def)
  then show ?thesis
    using inputs c(2) by (simp add: open_runtime_def counter_is_zero_def Let_def state2_fields)
qed

section \<open>The run as steps of the coordinator\<close>

lemma serve_step:
  assumes "perform q s = outcome_of (Inr r, s')"
  shows "steady_lives (Running s) (Running s')"
  using assms by (auto simp: outcome_of_def intro: guarded_step.serve)

lemma demo_born:
  obtains s1 s2 r where "steady_lives (Stopped empty_disk) (Running s1)" "at_state s1 state1"
    "register_participant io_ok register_request s1 = (Inr r, s2)"
    "rr_outcome r = RegistrationOutcome.Registered" "\<not> rr_replayed r"
    "steady_lives (Stopped empty_disk) (Running s2)" "at_state s2 state2"
proof -
  obtain s1 where s1: "open_runtime demo_env demo_options empty_disk = (Inr s1, im_disk s1)"
      "at_state s1 state1"
    using open_demo by blast
  obtain r s2 where r: "register_participant io_ok register_request s1 = (Inr r, s2)" "at_state s2 state2"
      "rr_outcome r = RegistrationOutcome.Registered" "\<not> rr_replayed r"
    using register_demo [OF s1(2)] by blast
  have born: "steady_lives (Stopped empty_disk) (Running s1)"
    using s1(1) by (blast intro: guarded_step.start)
  moreover have "steady_lives (Running s1) (Running s2)"
    using r(1) by (intro serve_step [of "Register io_ok register_request"]) simp
  ultimately have "steady_lives (Stopped empty_disk) (Running s2)"
    by (rule rtranclp_trans)
  then show thesis by (rule that [OF born s1(2) r(1,3,4) _ r(2)])
qed

definition worker_token :: AuthorityToken where
  "worker_token =
     \<lparr> tok_epoch = MonotonicCounter 1, tok_participant = worker, tok_boot = Fixed128Id 10,
       tok_incarnation = MonotonicCounter 1, tok_registration_generation = MonotonicCounter 1 \<rparr>"

lemma worker_token_fields [simp]:
  "tok_epoch worker_token = MonotonicCounter 1" "tok_participant worker_token = worker"
  "tok_boot worker_token = Fixed128Id 10" "tok_incarnation worker_token = MonotonicCounter 1"
  "token_wf worker_token"
  by (simp_all add: worker_token_def token_wf_def pid_empty_def worker_def id_is_nil_word counter_is_zero_def)

definition token_request :: ValidateAuthorityRequest where
  "token_request = \<lparr> va_token = worker_token, va_scope = north, va_expected_generation = None, va_grant = None \<rparr>"

definition granted_request :: ValidateAuthorityRequest where
  "granted_request = token_request\<lparr> va_grant := Some (Fixed128Id 30) \<rparr>"

lemma token_request_fields [simp]:
  "va_token token_request = worker_token" "va_scope token_request = north"
  "va_expected_generation token_request = None" "va_grant token_request = None"
  "va_token granted_request = worker_token" "va_scope granted_request = north"
  "va_expected_generation granted_request = None" "va_grant granted_request = Some (Fixed128Id 30)"
  by (simp_all add: token_request_def granted_request_def)

lemma north_member: "scope_set_contains (ScopeSet [north]) north"
  by (simp add: north_def, code_simp)

lemma currents_worker1 [simp]: "currents worker1 = [(Fixed128Id 10, MonotonicCounter 1)]"
  by (simp add: currents_def)

lemma state2_authorizes:
  assumes "at_state s state2"
  shows "av_authorized (validate_authority s token_request)"
    "acting_participant s token_request = Some worker"
    "current (im_state s) worker (Fixed128Id 10) (MonotonicCounter 1)"
  using validate_plain_iff [OF at_stateD(1) [OF assms], of token_request] at_stateD [OF assms]
  by (simp_all add: state2_fields north_member generation_expected_def acting_participant_def current_def)

lemma state3_superseded:
  assumes "at_state s state3"
  shows "\<not> current (im_state s) worker (Fixed128Id 10) (MonotonicCounter 1)"
    "acting_participant s token_request = Some worker"
  using at_stateD [OF assms]
  by (simp_all add: current_def acting_participant_def state3_def worker2_def currents_def worker1_def)

text \<open>Grants.\<close>

lemma state4_grants:
  assumes "at_state s state4"
  shows "lookup_grant s (Fixed128Id 30) = Some 0" "st_grants (im_state s) = [grant1]"
    "im_participants s = [worker3]" "currents worker3 = [(Fixed128Id 10, MonotonicCounter 1)]"
    "scope_set_contains (ag_scopes grant1) north" "ag_epoch grant1 = st_current_epoch (im_state s)"
    "\<not> ag_revoked grant1" "ag_boot grant1 = Fixed128Id 10" "ag_participant grant1 = worker"
    "dp_id worker3 = worker" "generation_expected granted_request worker3"
  using at_stateD [OF assms] lookup_grant_search [OF at_stateD(1) [OF assms], of "Fixed128Id 30"]
  by (simp_all add: state4_defs currents_def generation_expected_def north_member [unfolded north_def])

lemma state4_authorizes:
  assumes "at_state s state4"
  shows "av_authorized (validate_authority s granted_request)"
  using validate_grant_iff [OF at_stateD(1) [OF assms], of granted_request] state4_grants [OF assms]
  by (simp add: Let_def)

lemma state5_revoked:
  assumes "at_state s state5"
  shows "lookup_grant s (Fixed128Id 30) = Some 0" "ag_revoked (st_grants (im_state s) ! 0)"
  using at_stateD [OF assms] lookup_grant_search [OF at_stateD(1) [OF assms], of "Fixed128Id 30"]
  by (simp_all add: state5_defs)

definition broken_disk :: io where
  "broken_disk = (\<lambda>step. Some (io_failure ''disk full''))"

lemma flush_fails: "\<exists>e s'. perform (Flush broken_disk) s = (Inl e, s')"
  by (auto simp: outcome_of_def flush_def save_impl_def store_save_def attempt_io_def broken_disk_def
      res_bind_def Let_def split: sum.split prod.split)

lemma state2_registration:
  assumes "at_state s1 state1" "at_state s2 state2"
    and "\<exists>p0 q. registers s1 register_request r p0 q s2"
  shows "rr_incarnation r = Some (MonotonicCounter 1)" "rr_generation r = Some (MonotonicCounter 1)"
proof -
  from assms(3) obtain p0 q where "registers s1 register_request r p0 q s2" by blast
  from registers_current [OF this at_stateD(1) [OF assms(1)]] at_stateD(2) [OF assms(2)]
  show "rr_incarnation r = Some (MonotonicCounter 1)" "rr_generation r = Some (MonotonicCounter 1)"
    by (auto simp: state2_fields) (auto simp: worker1_def)
qed

lemma state2_watermark: "at_state s state2 \<Longrightarrow> watermark_accepts (store_options demo_options) state2 (im_disk s)"
  by (auto simp: at_state_def watermark_accepts_def)

lemma state7_storable: "storable (store_options demo_options) state7"
proof -
  have "records_fit (structural_limits default_limits) state7"
    using demo_fits state2_storable
    by (simp add: storable_def store_options_def records_fit_def state7_def state2_fields participant_fits_def
        worker5_def worker1_def transition_fits_def transition_record_def state1_def)
  moreover have "history_readable state7"
    by (simp add: history_readable_def state7_defs)
  ultimately show ?thesis
    using state7_valid state7_writes
    by (auto simp: storable_def store_options_def writes_def kAbsoluteMaxPayloadLength_def)
qed

section \<open>A history without provenance\<close>

text \<open>What two openings with the default options, whose provenance is empty, leave.\<close>

definition nameless_state :: DurableState where
  "nameless_state = initial_state\<lparr>
     st_current_epoch := MonotonicCounter 2, st_coordinator_boot := Fixed128Id 1,
     st_generation := MonotonicCounter 2,
     st_transitions :=
       [transition_record initial_state (MonotonicCounter 1) (MonotonicCounter 1) (Fixed128Id 1)
          EpochTransitionCause.CoordinatorStart (BoundedText []) (Fixed128Id 2),
        transition_record (initial_state\<lparr> st_current_epoch := MonotonicCounter 1 \<rparr>) (MonotonicCounter 2)
          (MonotonicCounter 2) (Fixed128Id 1) EpochTransitionCause.CoordinatorRestart (BoundedText []) (Fixed128Id 3)] \<rparr>"

lemmas nameless_defs = nameless_state_def transition_record_def initial_state_def

lemma nameless_valid: "validate_durable_state nameless_state = Inr ()"
  by (simp add: nameless_defs validity_defs)

lemma nameless_writes: "writes (encode_durable_payload nameless_state) 1000"
  unfolding nameless_defs payload_defs
  by (rule writes_mono, simp del: w_seq.simps, (rule writes_rules | simp)+)

lemma nameless_length: "length (projr (encode_durable_payload nameless_state)) \<le> kAbsoluteMaxPayloadLength"
  using nameless_writes by (auto simp: writes_def kAbsoluteMaxPayloadLength_def)

lemma nameless_fits: "records_fit (structural_limits (so_limits (store_options demo_options))) nameless_state"
  by (simp add: store_options_def records_fit_def nameless_defs transition_fits_def text_fits_def kAbsoluteMaxRecords_def
      text_is_valid_def structural_limits_def string_fits_def kAbsoluteMaxBytes_def)

lemma nameless_history: "\<not> history_readable nameless_state"
  by (simp add: history_readable_def nameless_defs)

lemma nameless_encodes: "\<exists>img. store_encode nameless_state = Inr img"
  using store_encode_eq [OF nameless_valid] nameless_writes by (auto simp: writes_def)

end
