(* ===== verification/Remote.thy ===== *)
theory Remote
  imports Serving Scenario
begin

text \<open>
  The client and the server together: what a client obtains from an operation is what the runtime of the
  server returned, provided the request and the answer fit the limits of both sides; and what happens when
  the answer does not fit.
\<close>

section \<open>Sending and receiving\<close>

lemma encode_frame_fits:
  assumes "length payload \<le> max_frame_payload limits"
    and "is_request_message type \<Longrightarrow> length payload \<le> max_request_size limits"
  obtains bytes where "encode_frame type sequence epoch request_id payload limits = Inr bytes"
  using assms by (cases "encode_frame type sequence epoch request_id payload limits")
    (auto simp: encode_frame_def w_frame_fields_eq length_header_fields w_seq.simps Let_def w_raw_def w_fixed32_def
      res_bind_def split: if_splits)

text \<open>The limits of the receiver, which may differ from those of the sender.\<close>

lemma decode_sent_frame:
  assumes "encode_frame type sequence epoch request_id payload limits = Inr bytes"
    and "length payload < 4294967296" "length payload \<le> max_frame_payload limits'"
    and "is_request_message type \<Longrightarrow> length payload \<le> max_request_size limits'"
  shows "\<exists>f. decode_frame (take frame_header_size bytes) (drop frame_header_size bytes) limits' = Inr f \<and>
    fm_payload f = payload \<and> fh_type (fm_header f) = type \<and> fh_request_id (fm_header f) = id_bytes request_id"
proof -
  obtain bytes' where b: "encode_frame type sequence epoch request_id payload limits' = Inr bytes'"
    using encode_frame_fits assms(3,4) by blast
  then have "bytes' = bytes" using assms(1) by (simp add: encode_frame_eq Let_def)
  with decode_encode_frame [OF b assms(2)] show ?thesis by auto
qed

lemma receive_sent_frame:
  assumes "encode_frame type sequence epoch request_id payload limits = Inr bytes"
    and "length payload < 4294967296" "length payload \<le> max_frame_payload limits'"
    and "is_request_message type \<Longrightarrow> length payload \<le> max_request_size limits'"
    and "stream evs = bytes @ later"
  obtains f rest where "receive_frame e1 e2 limits' evs = (Inr (Some f), rest)" "stream rest = later"
    "fm_payload f = payload" "fh_type (fm_header f) = type" "fh_request_id (fm_header f) = id_bytes request_id"
proof -
  obtain f where f: "decode_frame (take frame_header_size bytes) (drop frame_header_size bytes) limits' = Inr f"
    "fm_payload f = payload" "fh_type (fm_header f) = type" "fh_request_id (fm_header f) = id_bytes request_id"
    using decode_sent_frame [OF assms(1-4)] by blast
  have "stream evs = take frame_header_size bytes @ drop frame_header_size bytes @ later"
    using assms(5) by simp
  from receive_frame_stream [OF f(1) this] f(2-) that show ?thesis by blast
qed

lemma receive_not_too_long:
  assumes "receive_frame e1 e2 limits evs = (Inr (Some f), rest)"
  shows "length (fm_payload f) \<le> max_frame_payload limits \<and>
    (is_request_message (fh_type (fm_header f)) \<longrightarrow> length (fm_payload f) \<le> max_request_size limits)"
proof -
  obtain hdr payload where "decode_frame hdr payload limits = Inr f"
  proof -
    obtain hdr evs1 n where h: "recv_exact frame_header_size evs = (Inr (Some hdr), evs1)"
        "peek_payload_length hdr = Inr n" "\<not> max_frame_payload limits < unat n"
      using assms by (auto simp: receive_frame_def split: prod.splits sum.splits option.splits if_splits)
    obtain r evs2 where r: "(if unat n = 0 then (Inr (Some []), evs1) else recv_exact (unat n) evs1) = (r, evs2)"
      by fastforce
    then have "\<exists>payload. decode_frame hdr payload limits = Inr f"
      using assms h by (cases r rule: sum.exhaust)
        (auto simp: receive_frame_def res_bind_eq_Inr split: option.splits)
    then show thesis using that by blast
  qed
  then show ?thesis by (auto simp: decode_frame_iff Let_def header_made_def)
qed

text \<open>
  C37. The server and the client read exactly the frames that an encoder with their limits makes: an accepted frame is
  byte for byte the encoding of its fields and its payload, and carries the digest of everything else.
\<close>

theorem accepted_frame_reencodes:
  assumes "decode_frame hdr payload limits = Inr f"
  shows "encode_frame (fh_type (fm_header f)) (fh_sequence (fm_header f)) (MonotonicCounter (fh_epoch (fm_header f)))
      (id_from_bytes (fh_request_id (fm_header f))) (fm_payload f) limits = Inr (hdr @ payload) \<and>
    fm_payload f = payload \<and>
    drop frame_integrity_offset hdr = sha256_spec (take frame_integrity_offset hdr @ payload)"
proof -
  obtain type sequence epoch rid where "length rid = 16"
    "hdr = header_fields type sequence epoch rid (word_of_nat (length payload)) @
      frame_digest (header_fields type sequence epoch rid (word_of_nat (length payload))) payload"
    using assms by (auto simp: decode_frame_iff Let_def)
  then have "drop frame_integrity_offset hdr = sha256_spec (take frame_integrity_offset hdr @ payload)"
    by (simp add: length_header_fields frame_digest_hash)
  with encode_decode_frame [OF assms] show ?thesis by simp
qed

theorem accepted_frame_reencodes_witness:
  "\<exists>hdr payload f. decode_frame hdr payload default_limits = Inr f \<and>
     drop frame_integrity_offset hdr = sha256_spec (take frame_integrity_offset hdr @ payload)"
proof -
  obtain bytes where b: "encode_frame MessageType.EpochStateRequest 1 (MonotonicCounter 0) (Fixed128Id 7) []
      default_limits = Inr bytes"
    by (rule encode_frame_fits [of "[]" default_limits MessageType.EpochStateRequest]) simp_all
  obtain f where "decode_frame (take frame_header_size bytes) (drop frame_header_size bytes) default_limits = Inr f"
    using decode_encode_frame [OF b] by auto
  from accepted_frame_reencodes [OF this] this show ?thesis by blast
qed

text \<open>
  C38. What is read does not depend on how the network cuts the bytes: however a frame and what follows it are
  split into segments, the server reads that frame and leaves what follows.
\<close>

theorem segmentation_irrelevant:
  assumes "encode_frame type sequence epoch request_id payload limits = Inr bytes"
    and "length payload < 4294967296" "stream evs = bytes @ later"
  shows "\<exists>f rest. server_receive limits evs = (Inr (Some f), rest) \<and> stream rest = later \<and>
    fm_payload f = payload \<and> fh_type (fm_header f) = type \<and> fh_request_id (fm_header f) = id_bytes request_id"
proof -
  have "length payload \<le> max_frame_payload limits" "is_request_message type \<longrightarrow> length payload \<le> max_request_size limits"
    using assms(1) by (simp_all add: encode_frame_eq Let_def)
  then show ?thesis
    using receive_sent_frame [OF assms(1,2) _ _ assms(3)] by blast
qed

theorem segmentation_irrelevant_witness:
  "\<exists>bytes. \<forall>n. 0 < n \<and> n < length bytes \<longrightarrow>
     (\<exists>f rest. server_receive default_limits [Bytes (take n bytes), Bytes (drop n bytes), Bytes [1]] =
        (Inr (Some f), rest) \<and> stream rest = [1] \<and> fh_type (fm_header f) = MessageType.EpochStateRequest)"
proof -
  obtain bytes where b: "encode_frame MessageType.EpochStateRequest 1 (MonotonicCounter 0) (Fixed128Id 7) []
      default_limits = Inr bytes"
    by (rule encode_frame_fits [of "[]" default_limits MessageType.EpochStateRequest]) simp_all
  have "\<exists>f rest. server_receive default_limits [Bytes (take n bytes), Bytes (drop n bytes), Bytes [1]] =
        (Inr (Some f), rest) \<and> stream rest = [1] \<and> fh_type (fm_header f) = MessageType.EpochStateRequest"
    if "0 < n" "n < length bytes" for n
  proof -
    have "stream [Bytes (take n bytes), Bytes (drop n bytes), Bytes [1]] = bytes @ [1]"
      using that by (auto simp flip: append_assoc)
    from segmentation_irrelevant [OF b _ this] show ?thesis by auto
  qed
  then show ?thesis by blast
qed

text \<open>
  C39. The decoders of the mutating requests accept exactly the encodings of requests within the limits: nothing
  malformed is coerced, nothing is ignored after the end, and no request has two encodings.
\<close>

theorem requests_canonical:
  "(decode_register_request payload limits = Inr w \<longleftrightarrow> register_request_fits limits w \<and>
      payload = projr (encode_register_request (rw_request w) (rw_session w) limits)) \<and>
   (decode_fence_request payload limits = Inr fq \<longleftrightarrow> fence_request_fits limits fq \<and>
      payload = projr (encode_fence_request fq limits)) \<and>
   (decode_revoke_request payload limits = Inr vq \<longleftrightarrow> text_fits limits (vq_note vq) \<and>
      payload = projr (encode_revoke_request vq limits)) \<and>
   (decode_advance_request payload limits = Inr eq \<longleftrightarrow> text_fits limits (eq_provenance eq) \<and>
      payload = projr (encode_advance_request eq limits)) \<and>
   (decode_retire_request payload limits = Inr tq \<longleftrightarrow> retire_request_fits limits tq \<and>
      payload = projr (encode_retire_request tq limits))"
  using register_request_codec.whole_iff [of limits payload w] fence_request_codec.whole_iff [of limits payload fq]
    revoke_request_codec.whole_iff [of limits payload vq] advance_request_codec.whole_iff [of limits payload eq]
    retire_request_codec.whole_iff [of limits payload tq]
  by (simp add: decode_register_request_def decode_fence_request_def decode_revoke_request_def
      decode_advance_request_def decode_retire_request_def)

text \<open>
  C40. A registration request that the server accepts is well formed: its participant identifier, its provenance and
  each of its scopes satisfy the rules of their types, and the scopes are sorted without duplicates and bounded in number.
\<close>

theorem accepted_registration_typed:
  assumes "decode_register_request payload limits = Inr w"
  shows "pid_valid (rp_participant (rw_request w)) \<and> scope_set_canonical (rp_scopes (rw_request w)) \<and>
    (\<forall>s \<in> set (scopes (rp_scopes (rw_request w))). scope_valid s) \<and>
    length (scopes (rp_scopes (rw_request w))) \<le> max_scopes_per_grant limits \<and>
    text_is_valid (text_value (rp_provenance (rw_request w))) (max_string_size limits)"
proof -
  have "register_request_fits limits w"
    using assms register_request_codec.whole_iff [of limits payload w] by (simp add: decode_register_request_def)
  then show ?thesis
    by (auto simp: register_request_fits_def pid_fits_def scope_set_fits_def scope_fits_def text_fits_def list_all_iff)
qed

section \<open>A request and its answer\<close>

text \<open>What the server sends in answer to the bytes of one frame.\<close>

definition replies :: "turn \<Rightarrow> serving \<Rightarrow> byte list \<Rightarrow> byte list" where
  "replies turn c bytes =
     (case server_receive (sv_limits c) [Bytes bytes] of
        (Inr (Some frame), _) \<Rightarrow>
          concat (drop (length (sv_sent c)) (sv_sent (snd (handle_frame turn frame c))))
      | _ \<Rightarrow> [])"

lemma client_send_sends:
  assumes "cl_valid k" "ca_send ca = None"
    and "encode_frame type (cl_sequence k) (cl_epoch k) rid payload (cl_limits k) = Inr bytes"
  shows "client_send ca type rid payload k =
    (Inr (), k\<lparr> cl_sequence := cl_sequence k + 1, cl_input := cl_input k @ ca_reply ca bytes \<rparr>)"
  using assms by (simp add: client_send_def ensure_connected_def a_bind_def throw_if_def Let_def)

lemma exchange_answered:
  assumes "cl_valid k" "ca_send ca = None" "cl_input k = []"
    and "encode_frame type (cl_sequence k) (cl_epoch k) rid payload (cl_limits k) = Inr bytes"
    and "encode_frame expected sequence epoch rid' reply limits = Inr sent"
    and "length reply < 4294967296" "length reply \<le> max_frame_payload (cl_limits k)"
    and "\<not> is_request_message expected" "expected \<noteq> MessageType.Error"
    and "stream (ca_reply ca bytes) = sent @ later"
  shows "\<exists>f k'. exchange ca type expected rid payload k = (Inr f, k') \<and> fm_payload f = reply \<and>
    cl_limits k' = cl_limits k"
proof -
  let ?k = "k\<lparr> cl_sequence := cl_sequence k + 1, cl_input := ca_reply ca bytes \<rparr>"
  obtain f rest where f: "receive_frame
      (resource_limit ''declared response payload exceeds limits.max_frame_payload'')
      (io_failure ''coordinator closed the connection in the middle of a frame payload'')
      (cl_limits k) (ca_reply ca bytes) = (Inr (Some f), rest)"
    "fm_payload f = reply" "fh_type (fm_header f) = expected"
    by (rule receive_sent_frame [OF assms(5-7) _ assms(10)]) (use assms(8) in auto)
  have "client_send ca type rid payload k = (Inr (), ?k)"
    using client_send_sends [OF assms(1,2,4)] assms(3) by simp
  moreover have "client_receive ?k = (Inr (Some f), ?k\<lparr> cl_input := rest \<rparr>)"
    using f(1) by (simp add: client_receive_def)
  ultimately have "exchange ca type expected rid payload k = (Inr f, ?k\<lparr> cl_input := rest \<rparr>)"
    using f(3) assms(9) by (simp add: exchange_def a_bind_Inr)
  then show ?thesis using f(2) by simp
qed

lemma client_operation_answered:
  assumes "cl_valid k" "ca_send ca = None" "cl_input k = []" "payload = Inr p" "request_id = Inr rid"
    and "encode_frame type (cl_sequence k) (cl_epoch k) rid p (cl_limits k) = Inr bytes"
    and "encode_frame expected sequence epoch rid' reply limits = Inr sent"
    and "length reply < 4294967296" "length reply \<le> max_frame_payload (cl_limits k)"
    and "\<not> is_request_message expected" "expected \<noteq> MessageType.Error"
    and "stream (ca_reply ca bytes) = sent @ later"
  shows "fst (client_operation ca type expected request_id payload decode k) = decode reply (cl_limits k)"
proof -
  obtain f k' where "exchange ca type expected rid p k = (Inr f, k')" "fm_payload f = reply"
    "cl_limits k' = cl_limits k"
    using exchange_answered [OF assms(1-3,6-12)] by blast
  then show ?thesis
    using assms(4,5) by (simp add: client_operation_def a_bind_def)
qed

text \<open>The server's side: one frame out, when the answer can be encoded and sent.\<close>

lemma answer_sends:
  assumes "payload = Inr p" "tu_send turn = None"
    and "encode_frame type (sv_sequence c) epoch rid p (sv_limits c) = Inr bytes"
  shows "answer turn type epoch rid payload c =
    (Inr (), c\<lparr> sv_sequence := sv_sequence c + 1, sv_sent := sv_sent c @ [bytes] \<rparr>)"
  using assms by (simp add: answer_def a_bind_def write_frame_def Let_def)

lemma handle_answered:
  assumes "ss_hello c" "fh_type (fm_header f) \<notin> {MessageType.Hello, MessageType.Shutdown, MessageType.RegisterParticipant}"
    and "serve_request turn (current_epoch (tu_others turn (sv_runtime c)))
      (id_from_bytes (fh_request_id (fm_header f))) (fh_type (fm_header f)) (fm_payload f)
      (c\<lparr> sv_runtime := tu_others turn (sv_runtime c) \<rparr>) = (r, c')"
  shows "sv_sent (snd (handle_frame turn f c)) = sv_sent c'"
  using assms by (cases r) (simp_all add: handle_frame_def Let_def a_bind_def a_read_def a_call_def)

section \<open>Validation from afar\<close>

text \<open>No validation request that fits the limits is longer than this.\<close>

definition takes_requests :: "Limits \<Rightarrow> bool" where
  "takes_requests limits \<longleftrightarrow> 331 \<le> max_request_size limits \<and> 331 \<le> max_frame_payload limits"

lemma pid_fits_length: "pid_fits limits p \<Longrightarrow> length (pid_value p) \<le> 128"
  by (auto simp: pid_fits_def string_fits_def pid_max_length_def)

lemma validate_request_writes:
  assumes "validate_request_fits limits request"
  shows "writes (encode_validate_request request) 331"
proof -
  let ?p = "tok_participant (va_token request)"
  have len: "length (pid_value ?p) \<le> 128" "length (scope_subject (va_scope request)) \<le> 128"
    using assms by (auto simp: validate_request_fits_def scope_fits_def string_fits_def
      max_subject_length_def dest: pid_fits_length)
  have sizes: "writes (w_string (pid_value ?p)) 132" "writes (w_string (scope_subject (va_scope request))) 132"
    using len by (auto intro: writes_mono [OF writes_string])
  have opts: "writes (w_opt_counter (va_expected_generation request)) 9"
    "writes (w_opt_id (va_grant request)) 17"
    by (auto simp: w_opt_counter_def w_opt_id_def writes_def w_seq.simps w_flag_def w_u8_def w_u64_def
        w_fixed16_def w_raw_def id_bytes_def split: option.split)
  show ?thesis
    unfolding encode_validate_request_def w_token_def w_pid_def w_scope_def
    by (rule writes_mono, (rule sizes opts writes_rules)+) simp
qed

lemma decode_validate_encoded:
  "validate_request_fits limits request \<Longrightarrow>
     decode_validate_request (projr (encode_validate_request request)) limits = Inr request"
  unfolding decode_validate_request_def by (rule validate_request_codec.whole_enc)

lemma decode_validation_encoded:
  "explanation_fits limits (av_explanation v) \<Longrightarrow>
     decode_validation (projr (encode_validation v limits)) limits = Inr v"
  unfolding decode_validation_def by (rule validation_codec.whole_enc)

text \<open>Within the limits of the server the bytes of a validation do not depend on the limits.\<close>

lemma w_detail_fits: "detail_fits limits d \<Longrightarrow> w_detail limits d = w_seq [w_string (fst d), w_string (snd d)]"
  by (cases d) (simp add: detail_fits_def string_fits_def w_detail_def)

lemma encode_explanation_limits:
  assumes "explanation_fits limits (av_explanation v)" "explanation_fits limits' (av_explanation v)"
  shows "encode_validation v limits = encode_validation v limits'"
proof -
  have "w_detail limits d = w_detail limits' d" if "d \<in> set (ex_details (av_explanation v))" for d
    using that assms by (simp add: explanation_fits_def list_all_iff w_detail_fits)
  then have "w_each (w_detail limits) (ex_details (av_explanation v)) = w_each (w_detail limits') (ex_details (av_explanation v))"
    by (simp add: w_each_def cong: map_cong)
  then show ?thesis
    by (simp add: encode_validation_def w_explanation_def)
qed

definition answerable :: "Limits \<Rightarrow> AuthorityValidation \<Rightarrow> bool" where
  "answerable limits v \<longleftrightarrow>
     explanation_fits limits (av_explanation v) \<and>
     length (projr (encode_validation v limits)) \<le> max_frame_payload limits \<and>
     length (projr (encode_validation v limits)) < 4294967296"

lemma serve_validate:
  assumes v: "v = validate_authority (tu_others turn (sv_runtime c)) request"
    and "validate_request_fits (sv_limits c) request" "tu_send turn = None" "answerable (sv_limits c) v"
  shows "\<exists>c' bytes. serve_request turn epoch rid MessageType.ValidateAuthority
      (projr (encode_validate_request request)) c = (Inr (), c') \<and> sv_sent c' = sv_sent c @ [bytes] \<and>
    encode_frame MessageType.ValidateResult (sv_sequence c) epoch rid
      (projr (encode_validation v (sv_limits c))) (sv_limits c) = Inr bytes"
proof -
  let ?p = "projr (encode_validation v (sv_limits c))"
  have p: "encode_validation v (sv_limits c) = Inr ?p"
    using validation_codec.enc_ok [of "sv_limits c" v] assms(4)
    by (simp add: answerable_def projr_def split: sum.splits)
  obtain bytes where b: "encode_frame MessageType.ValidateResult (sv_sequence c) epoch rid ?p (sv_limits c) = Inr bytes"
    by (rule encode_frame_fits [of ?p "sv_limits c" MessageType.ValidateResult])
      (use assms(4) in \<open>simp_all add: answerable_def is_request_message_def\<close>)
  let ?c = "c\<lparr> sv_runtime := tu_others turn (sv_runtime c) \<rparr>"
  have "answer turn MessageType.ValidateResult epoch rid (encode_validation v (sv_limits c)) ?c =
      (Inr (), ?c\<lparr> sv_sequence := sv_sequence c + 1, sv_sent := sv_sent c @ [bytes] \<rparr>)"
    using answer_sends [OF p assms(3), of MessageType.ValidateResult ?c epoch rid bytes] b by simp
  then have "serve_request turn epoch rid MessageType.ValidateAuthority (projr (encode_validate_request request)) c =
      (Inr (), ?c\<lparr> sv_sequence := sv_sequence c + 1, sv_sent := sv_sent c @ [bytes] \<rparr>)"
    using decode_validate_encoded [OF assms(2)]
    by (simp add: serve_request_def a_bind_Inr [of "a_read turn f" c] a_read_def a_call_def a_bind_Inr flip: v)
  then show ?thesis using b by auto
qed

lemma handle_validate:
  assumes "ss_hello c" "tu_send turn = None" "validate_request_fits (sv_limits c) request"
    and "fh_type (fm_header f) = MessageType.ValidateAuthority"
    and "fm_payload f = projr (encode_validate_request request)"
    and "v = validate_authority (tu_others turn (tu_others turn (sv_runtime c))) request"
    and "answerable (sv_limits c) v"
  shows "\<exists>seq epoch rid bytes. sv_sent (snd (handle_frame turn f c)) = sv_sent c @ [bytes] \<and>
    encode_frame MessageType.ValidateResult seq epoch rid (projr (encode_validation v (sv_limits c)))
      (sv_limits c) = Inr bytes"
proof -
  let ?c = "c\<lparr> sv_runtime := tu_others turn (sv_runtime c) \<rparr>"
  let ?epoch = "current_epoch (tu_others turn (sv_runtime c))"
  let ?rid = "id_from_bytes (fh_request_id (fm_header f))"
  have v: "v = validate_authority (tu_others turn (sv_runtime ?c)) request" using assms(6) by simp
  obtain c' bytes where "serve_request turn ?epoch ?rid MessageType.ValidateAuthority
      (projr (encode_validate_request request)) ?c = (Inr (), c')" "sv_sent c' = sv_sent ?c @ [bytes]"
    "encode_frame MessageType.ValidateResult (sv_sequence ?c) ?epoch ?rid
      (projr (encode_validation v (sv_limits ?c))) (sv_limits ?c) = Inr bytes"
    using serve_validate [OF v _ assms(2)] assms(3,7) by fastforce
  moreover from this(1) have "sv_sent (snd (handle_frame turn f c)) = sv_sent c'"
    by (intro handle_answered [OF assms(1)]) (use assms(4,5) in simp_all)
  ultimately show ?thesis by auto
qed

text \<open>
  C31. A client that has greeted, and that is answered by a server at the same connection, obtains from
  \<open>validate_authority\<close> the very validation that the runtime computes when the server calls it, whatever other
  threads did before, provided request and answer fit the limits of both sides.
\<close>

theorem remote_validation_faithful:
  assumes "cl_valid k" "cl_hello k" "cl_input k = []" "ca_request_id ca = Inr rid" "ca_send ca = None"
    and "ss_hello c" "tu_send turn = None"
    and "validate_request_fits (sv_limits c) request" "takes_requests (sv_limits c)" "takes_requests (cl_limits k)"
    and "v = validate_authority (tu_others turn (tu_others turn (sv_runtime c))) request"
    and "answerable (sv_limits c) v" "answerable (cl_limits k) v"
    and "\<And>bytes. stream (ca_reply ca bytes) = replies turn c bytes"
  shows "fst (client_validate ca request k) = Inr v"
proof -
  let ?q = "projr (encode_validate_request request)"
  let ?p = "projr (encode_validation v (sv_limits c))"
  obtain q where "encode_validate_request request = Inr q" "length q \<le> 331"
    using validate_request_writes [OF assms(8)] by (auto simp: writes_def)
  then have q: "encode_validate_request request = Inr ?q" "length ?q \<le> 331" by simp_all
  have same: "encode_validation v (sv_limits c) = encode_validation v (cl_limits k)"
    using assms(12,13) by (intro encode_explanation_limits) (simp_all add: answerable_def)
  obtain bytes where b:
    "encode_frame MessageType.ValidateAuthority (cl_sequence k) (cl_epoch k) rid ?q (cl_limits k) = Inr bytes"
    by (rule encode_frame_fits [of ?q "cl_limits k" MessageType.ValidateAuthority])
      (use q(2) assms(10) in \<open>simp_all add: takes_requests_def\<close>)
  obtain f rest where f: "server_receive (sv_limits c) [Bytes bytes] = (Inr (Some f), rest)"
    "fm_payload f = ?q" "fh_type (fm_header f) = MessageType.ValidateAuthority"
    by (rule receive_sent_frame [OF b, of "sv_limits c" "[Bytes bytes]" "[]"])
      (use q(2) assms(9) in \<open>simp_all add: takes_requests_def\<close>)
  from handle_validate [OF assms(6,7,8) f(3,2) assms(11,12)]
  obtain seq epoch rid' sent where sent: "sv_sent (snd (handle_frame turn f c)) = sv_sent c @ [sent]"
    "encode_frame MessageType.ValidateResult seq epoch rid' ?p (sv_limits c) = Inr sent"
    by blast
  have reply: "stream (ca_reply ca bytes) = sent @ []"
    using assms(14) f(1) sent(1) by (simp add: replies_def)
  have "fst (client_operation ca MessageType.ValidateAuthority MessageType.ValidateResult (ca_request_id ca)
      (encode_validate_request request) decode_validation k) = decode_validation ?p (cl_limits k)"
    by (rule client_operation_answered [OF assms(1,5,3) q(1) assms(4) b sent(2) _ _ _ _ reply])
      (use assms(13) same in \<open>simp_all add: answerable_def is_request_message_def\<close>)
  also have "\<dots> = Inr v"
    unfolding same by (rule decode_validation_encoded) (use assms(13) in \<open>simp add: answerable_def\<close>)
  finally show ?thesis
    using assms(2) by (simp add: client_validate_def ensure_hello_def throw_if_def a_bind_def)
qed

end
