(* ===== verification/Answers.thy ===== *)
theory Answers
  imports Remote
begin

text \<open>
  Which answers fit a frame. Every detail of an explanation is short, except the text of a scope set, which
  is bounded only by the number of scopes. So every validation can be sent, except the refusal of a scope,
  and a registration that took effect cannot be acknowledged when the text of its scopes is too long.
\<close>

section \<open>Brief explanations\<close>

definition brief_text :: "string \<times> string \<Rightarrow> bool" where
  "brief_text d \<longleftrightarrow> length (fst d) \<le> 24 \<and> length (snd d) \<le> 160"

definition brief :: "Explanation \<Rightarrow> bool" where
  "brief e \<longleftrightarrow>
     sorted (map fst (ex_details e)) \<and> length (ex_details e) \<le> 8 \<and> list_all brief_text (ex_details e)"

lemma explain_details:
  "set (ex_details (explain code details)) = set details"
  "length (ex_details (explain code details)) = length details"
proof -
  have "set (ex_details (foldl (\<lambda>e (k, v). ex_with e k v) e details)) = set (ex_details e) \<union> set details \<and>
      length (ex_details (foldl (\<lambda>e (k, v). ex_with e k v) e details)) = length (ex_details e) + length details" for e
    by (induction details arbitrary: e) (auto simp: ex_with_def)
  then show "set (ex_details (explain code details)) = set details"
    "length (ex_details (explain code details)) = length details"
    by (simp_all add: explain_def explanation_def)
qed

lemma brief_explain [simp]:
  "brief (explain code details) \<longleftrightarrow> length details \<le> 8 \<and> list_all brief_text details"
  by (simp add: brief_def explain_sorted explain_details list_all_iff)

lemma length_dec_string: "0 < k \<Longrightarrow> n < 10 ^ k \<Longrightarrow> length (dec_string n) \<le> k"
proof (induction n arbitrary: k rule: dec_string.induct)
  case (1 n)
  show ?case
  proof (cases "n < 10")
    case True
    then show ?thesis using 1(2) by (simp add: dec_string.simps [of n])
  next
    case False
    then obtain j where k: "k = Suc j" "0 < j"
      using 1(2,3) by (cases k; cases "k - 1") auto
    then have "length (dec_string (n div 10)) \<le> j"
      using 1(1) [OF False, of j] 1(3) by (simp add: less_mult_imp_div_less mult.commute)
    then show ?thesis using False k by (simp add: dec_string.simps [of n])
  qed
qed

lemma brief_values [simp]:
  "length (id_to_string i) = 32" "length (counter_to_string c) \<le> 160"
  "length (currentness_to_string a) \<le> 160" "length (fence_reason_to_string r) \<le> 160"
proof -
  show "length (id_to_string i) = 32" by (simp add: id_to_string_def id_bytes_def)
  have "unat (counter_value c) < 10 ^ 20"
    using unsigned_less [of "counter_value c", where 'a = nat] by simp
  then show "length (counter_to_string c) \<le> 160"
    using length_dec_string [of 20 "unat (counter_value c)"] by (simp add: counter_to_string_def)
  show "length (currentness_to_string a) \<le> 160" by (cases a) simp_all
  show "length (fence_reason_to_string r) \<le> 160" by (cases r) simp_all
qed

lemma brief_scope [simp]: "scope_valid s \<Longrightarrow> length (scope_to_string s) \<le> 160"
proof -
  assume "scope_valid s"
  then have "length (scope_subject s) \<le> 128"
    by (auto simp: scope_valid_def max_subject_length_def dest: valid_identifier_length)
  moreover have "length (scope_kind_to_string (scope_kind s)) \<le> 16" by (cases "scope_kind s") simp_all
  ultimately show ?thesis by (simp add: scope_to_string_def)
qed

lemma brief_pid [simp]: "pid_valid p \<Longrightarrow> length (pid_value p) \<le> 160"
  using pid_valid_length [of p] by simp

section \<open>Validations are brief\<close>

definition validated :: "impl \<Rightarrow> ValidateAuthorityRequest \<Rightarrow> bool" where
  "validated s request \<longleftrightarrow>
     running_ok s \<and> pid_valid (tok_participant (va_token request)) \<and> scope_valid (va_scope request) \<and>
     (\<forall>g \<in> set (st_grants (im_state s)). pid_valid (ag_participant g))"

lemma brief_token:
  "validate_token st token = Some v \<Longrightarrow> brief (av_explanation v)"
  by (auto simp: validate_token_def verdict_def brief_text_def split: if_splits)

lemma brief_stale:
  "pid_valid (dp_id p) \<Longrightarrow> brief (stale_explanation st p token e)"
  by (simp add: stale_explanation_def brief_text_def split: option.split)

lemma brief_participant_verdict:
  assumes "pid_valid (dp_id p)" "scope_valid (va_scope request)"
    and "av_code (participant_verdict s p request) \<noteq> AuthorityValidationCode.UnauthorizedScope"
  shows "brief (av_explanation (participant_verdict s p request))"
  using assms(3)
  by (simp add: participant_verdict_def current_verdict_def verdict_def Let_def brief_text_def assms(1,2)
      brief_stale split: if_splits)

lemma brief_plain:
  assumes "validated s request" "av_code (validate_plain s request) \<noteq> AuthorityValidationCode.UnauthorizedScope"
  shows "brief (av_explanation (validate_plain s request))"
proof (cases "find_participant s (tok_participant (va_token request))")
  case None
  then show ?thesis
    using assms by (simp add: validate_plain_def validated_def verdict_def Let_def brief_text_def)
next
  case (Some i)
  then have "dp_id (participant_at s i) = tok_participant (va_token request)"
    using find_participant_correct [of s _ i] assms(1) by (simp add: validated_def running_ok_def)
  then have "pid_valid (dp_id (participant_at s i))" using assms(1) by (simp add: validated_def)
  then show ?thesis
    using assms Some brief_participant_verdict [of "participant_at s i" request s]
    by (simp add: validate_plain_def validated_def verdict_def Let_def brief_text_def split: if_splits)
qed

lemma brief_grant_verdict:
  "scope_valid (va_scope request) \<Longrightarrow> brief (av_explanation (grant_verdict s g p request))"
  by (simp add: grant_verdict_def verdict_def Let_def brief_text_def split: option.split)

lemma brief_refusal: "grant_refusal st g token = Some v \<Longrightarrow> brief (av_explanation v)"
  by (auto simp: grant_refusal_def verdict_def Let_def brief_text_def split: if_splits)

lemma brief_grant:
  assumes "validated s request"
  shows "brief (av_explanation (validate_grant s request gid))"
proof (cases "lookup_grant s gid")
  case None
  then show ?thesis by (simp add: validate_grant_def verdict_def Let_def brief_text_def)
next
  case (Some k)
  let ?g = "st_grants (im_state s) ! k"
  have "?g \<in> set (st_grants (im_state s))"
    using assms Some grant_index_unique [of s gid k] by (simp add: validated_def)
  then have "pid_valid (ag_participant ?g)" using assms by (simp add: validated_def)
  then show ?thesis
    using Some assms brief_grant_verdict [of request s ?g] brief_refusal
    by (auto simp: validate_grant_def validated_def verdict_def Let_def brief_text_def split: option.split)
qed

lemma brief_validation:
  assumes "validated s request"
    and "va_grant request \<noteq> None \<or> av_code (validate_authority s request) \<noteq> AuthorityValidationCode.UnauthorizedScope"
  shows "brief (av_explanation (validate_authority s request))"
  using assms brief_grant brief_plain brief_token
  by (auto simp: validate_authority_def split: option.split)

section \<open>What is brief fits a frame\<close>

definition takes_answers :: "Limits \<Rightarrow> bool" where
  "takes_answers limits \<longleftrightarrow> 160 \<le> max_string_size limits \<and> 2048 \<le> max_frame_payload limits"

lemma brief_fits: "brief e \<Longrightarrow> 160 \<le> max_string_size limits \<Longrightarrow> explanation_fits limits e"
  by (auto simp: brief_def explanation_fits_def brief_text_def detail_fits_def string_fits_def
      list_all_iff kAbsoluteMaxBytes_def)

lemma writes_each:
  "(\<And>x. x \<in> set xs \<Longrightarrow> writes (f x) n) \<Longrightarrow> writes (w_each f xs) (length xs * n)"
proof (induction xs)
  case (Cons x xs)
  then have "writes (w_seq (f x # map f xs)) (n + length xs * n)"
    by (intro writes_seq(2)) (simp_all add: w_each_def)
  then show ?case by (simp add: w_each_def)
qed (simp add: w_each_def writes_def)

lemma brief_writes:
  assumes "brief e" "160 \<le> max_string_size limits"
  shows "writes (w_explanation limits e) 1542"
proof -
  have "writes (w_detail limits d) 192" if "d \<in> set (ex_details e)" for d
  proof -
    have d: "length (fst d) \<le> 24" "length (snd d) \<le> 160"
      using assms(1) that by (auto simp: brief_def list_all_iff brief_text_def)
    then have "writes (w_seq [w_string (fst d), w_string (snd d)]) (28 + (164 + 0))"
      by (intro writes_seq) (auto intro: writes_mono [OF writes_string])
    then show ?thesis using d assms(2) by (cases d) (simp add: w_detail_def)
  qed
  then have "writes (w_each (w_detail limits) (ex_details e)) (length (ex_details e) * 192)"
    by (rule writes_each)
  then have details: "writes (w_each (w_detail limits) (ex_details e)) 1536"
    by (rule writes_mono) (use assms(1) in \<open>simp add: brief_def\<close>)
  show ?thesis
    unfolding w_explanation_def
    by (rule writes_mono, (rule details writes_rules)+) simp
qed

lemma writes_options [writes_rules]:
  "writes (w_opt_counter x) 9" "writes (w_opt_id y) 17" "writes (w_flag b) 1"
  by (auto simp: w_opt_counter_def w_opt_id_def writes_def w_seq.simps w_flag_def w_u8_def w_u64_def
      w_fixed16_def w_raw_def id_bytes_def split: option.split)

lemma brief_answerable:
  assumes "brief (av_explanation v)" "takes_answers limits"
  shows "answerable limits v"
proof -
  have e: "writes (w_explanation limits (av_explanation v)) 1542"
    using assms by (intro brief_writes) (simp_all add: takes_answers_def)
  have "writes (encode_validation v limits) 1700"
    unfolding encode_validation_def by (rule writes_mono, (rule e writes_rules)+) simp
  then show ?thesis
    using assms brief_fits by (auto simp: answerable_def writes_def takes_answers_def)
qed

text \<open>
  C36. Except for the refusal of a scope on the token path, which spells out the whole scope set of the worker,
  every validation of a well-formed request has an answer that both sides can encode, once strings of 160
  characters and frames of 2048 bytes are admitted.
\<close>

theorem validation_answer_fits:
  assumes "running_ok s" "pid_valid (tok_participant (va_token request))" "scope_valid (va_scope request)"
    and "\<forall>g \<in> set (st_grants (im_state s)). pid_valid (ag_participant g)"
    and "va_grant request \<noteq> None \<or> av_code (validate_authority s request) \<noteq> AuthorityValidationCode.UnauthorizedScope"
    and "160 \<le> max_string_size limits" "2048 \<le> max_frame_payload limits"
  shows "\<exists>payload bytes. encode_validation (validate_authority s request) limits = Inr payload \<and>
    encode_frame MessageType.ValidateResult sequence epoch request_id payload limits = Inr bytes \<and>
    length bytes \<le> frame_header_size + 2048"
proof -
  let ?v = "validate_authority s request"
  have "validated s request" using assms(1-4) by (simp add: validated_def)
  from brief_validation [OF this assms(5)] have b: "brief (av_explanation ?v)" .
  have e: "writes (w_explanation limits (av_explanation ?v)) 1542"
    by (rule brief_writes [OF b assms(6)])
  have "writes (encode_validation ?v limits) 1700"
    unfolding encode_validation_def by (rule writes_mono, (rule e writes_rules)+) simp
  then obtain payload where p: "encode_validation ?v limits = Inr payload" "length payload \<le> 1700"
    by (auto simp: writes_def)
  obtain bytes where bytes: "encode_frame MessageType.ValidateResult sequence epoch request_id payload limits = Inr bytes"
    by (rule encode_frame_fits [of payload limits MessageType.ValidateResult])
      (use p(2) assms(7) in \<open>simp_all add: is_request_message_def\<close>)
  then have "length bytes = frame_header_size + length payload"
    by (auto simp: encode_frame_eq Let_def length_header_fields frame_header_size_def frame_integrity_offset_def)
  then show ?thesis using p bytes by auto
qed

section \<open>A client and a server on the state of the run\<close>

definition quiet_turn :: turn where
  "quiet_turn = \<lparr> tu_env = demo_env, tu_calls = [], tu_send = None, tu_stop = False \<rparr>"

lemma quiet_turn_others [simp]: "tu_others quiet_turn s = s"
  by (simp add: tu_others_def quiet_turn_def)

definition demo_serving :: "impl \<Rightarrow> serving" where
  "demo_serving s =
     \<lparr> sv_limits = default_limits, sv_product_version = version_string, sv_runtime = s, sv_sequence = 1,
       sv_stop = False, sv_shutdown = False, sv_active = 1, sv_sent = [], ss_id = Fixed128Id 50,
       ss_hello = True, ss_bound = False,
       ss_binding = \<lparr> sb_id = Fixed128Id 0, sb_participant = ParticipantId [], sb_boot = Fixed128Id 0,
         sb_incarnation = MonotonicCounter 0, sb_epoch = MonotonicCounter 0,
         sb_registration_generation = MonotonicCounter 0 \<rparr>,
       ss_violation = False \<rparr>"

definition demo_client :: client where
  "demo_client =
     \<lparr> cl_limits = default_limits, cl_valid = True, cl_session = Fixed128Id 50, cl_epoch = MonotonicCounter 1,
       cl_sequence = 2, cl_hello = True, cl_cancelled = False, cl_input = [] \<rparr>"

definition demo_call :: "impl \<Rightarrow> call" where
  "demo_call s =
     \<lparr> ca_request_id = Inr (Fixed128Id 60), ca_send = None,
       ca_reply = (\<lambda>bytes. [Bytes (replies quiet_turn (demo_serving s) bytes)]) \<rparr>"

lemma demo_names_valid: "pid_valid worker" "scope_valid north"
  by (simp_all only: worker_def north_def, code_simp+)

lemma state2_brief:
  assumes "at_state s state2"
  shows "brief (av_explanation (validate_authority s token_request))"
    "av_code (validate_authority s token_request) = AuthorityValidationCode.Current"
proof -
  show code: "av_code (validate_authority s token_request) = AuthorityValidationCode.Current"
    using state2_authorizes(1) [OF assms] by (simp add: av_authorized_def)
  have "validated s token_request"
    using at_stateD [OF assms] by (simp add: validated_def state2_fields demo_names_valid)
  then show "brief (av_explanation (validate_authority s token_request))"
    by (rule brief_validation) (simp add: code)
qed

theorem validation_answer_fits_witness:
  "\<exists>s payload. av_authorized (validate_authority s token_request) \<and>
    encode_validation (validate_authority s token_request) default_limits = Inr payload"
proof -
  obtain s2 where s2: "at_state s2 state2" by (rule demo_born)
  have "max_frame_payload default_limits = 65536" by (simp add: default_limits_def)
  then have "\<exists>payload bytes. encode_validation (validate_authority s2 token_request) default_limits = Inr payload \<and>
      encode_frame MessageType.ValidateResult 1 (MonotonicCounter 1) (Fixed128Id 1) payload default_limits = Inr bytes \<and>
      length bytes \<le> frame_header_size + 2048"
    using at_stateD [OF s2] state2_brief [OF s2]
    by (intro validation_answer_fits) (simp_all add: state2_fields demo_names_valid)
  then show ?thesis using state2_authorizes(1) [OF s2] by blast
qed

theorem remote_validation_faithful_witness:
  "\<exists>s v. fst (client_validate (demo_call s) token_request demo_client) = Inr v \<and> av_authorized v"
proof -
  obtain s2 where s2: "at_state s2 state2" by (rule demo_born)
  have fits: "answerable default_limits (validate_authority s2 token_request)"
    using state2_brief(1) [OF s2]
    by (rule brief_answerable) (simp add: takes_answers_def default_limits_def)
  have request: "validate_request_fits default_limits token_request"
    using demo_names_valid
    by (simp add: validate_request_fits_def pid_fits_def scope_fits_def string_fits_def worker_def north_def
        pid_max_length_def max_subject_length_def kAbsoluteMaxBytes_def default_limits_def)
  have "fst (client_validate (demo_call s2) token_request demo_client) =
      Inr (validate_authority s2 token_request)"
    by (rule remote_validation_faithful [where c = "demo_serving s2" and turn = quiet_turn and
          rid = "Fixed128Id 60"])
      (use fits request in \<open>simp_all add: demo_client_def demo_call_def demo_serving_def quiet_turn_def tu_others_def
        takes_requests_def default_limits_def\<close>)
  then show ?thesis using state2_authorizes(1) [OF s2] by blast
qed

end
