(* ===== verification/Invariants.thy ===== *)
theory Invariants
  imports Effects
begin

text \<open>
  Invariants of the durable records over the whole life of a coordinator. Whatever a request does, the records
  it leaves in memory and on disk are those it found or those its body wrote (\<open>enters\<close>), so a predicate on the
  records that every body and every epoch transition keeps holds in every state of every life
  (the locale \<open>durable_invariant\<close>), in memory as well as on disk, where a save that was reported to fail may have put
  the state of a request that threw. Some predicates hold only while certain requests are not made: \<open>guarded_step ok\<close>
  is the coordinator performing none but the requests \<open>ok\<close> admits.
\<close>

section \<open>What a request may write\<close>

fun enters :: "request \<Rightarrow> impl \<Rightarrow> DurableState \<Rightarrow> bool" where
  "enters (Register io x) s st \<longleftrightarrow> wrote (apply_registration x True) s st"
| "enters (RegisterBatch io xs) s st \<longleftrightarrow> wrote (batch_body xs) s st"
| "enters (Fence io x) s st \<longleftrightarrow> wrote (fence_body x) s st"
| "enters (Grant env x) s st \<longleftrightarrow> wrote (apply_grant env x) s st"
| "enters (Revoke io x) s st \<longleftrightarrow> wrote (apply_revoke x) s st"
| "enters (Retire io x) s st \<longleftrightarrow> wrote (apply_retire x) s st"
| "enters (Advance env x) s st \<longleftrightarrow> (\<exists>digest. wrote (move_epoch env x digest) s st)"
| "enters (Bind b) s st \<longleftrightarrow> False"
| "enters (Close io sid reason) s st \<longleftrightarrow>
     (\<exists>u pid boot why. running_ok u \<and> im_state u = im_state s \<and>
        wrote (record_fence pid boot why empty_text False) u st)"
| "enters (Flush io) s st \<longleftrightarrow> False"

definition leaves :: "request \<Rightarrow> impl \<Rightarrow> DurableState \<Rightarrow> bool" where
  "leaves q s st \<longleftrightarrow> st = im_state s \<or> enters q s st"

lemma committed_wrote:
  "body (begin_tx s) = (Inr x, t) \<Longrightarrow> wrote body s (im_state (committed io (tx_impl t)))"
  by (auto simp: wrote_def frame_simps)

definition written :: "impl \<Rightarrow> impl \<Rightarrow> bool" where
  "written s s' \<longleftrightarrow> im_disk s' = im_disk s \<or> image_saved (im_state s') (im_disk s) (im_disk s')"

lemma committed_written:
  assumes "im_disk (tx_impl t) = im_disk s"
  shows "written s (committed io (tx_impl t))"
proof -
  obtain r u where "save_impl io (canonicalize (tx_impl t)) = (r, u)"
    by (cases "save_impl io (canonicalize (tx_impl t))")
  with save_impl_disk [OF this] assms show ?thesis
    using save_impl_frame(1) [of io "canonicalize (tx_impl t)"]
    by (simp add: written_def committed_def frame_simps)
qed

lemma body_disk:
  assumes "tx_keeps progress body" "body (begin_tx s) = (r, t)"
  shows "im_disk (tx_impl t) = im_disk s"
  using assms unfolding tx_keeps_def by (metis begin_tx_def progress_def snd_conv txn.select_convs(1))

lemma run_tx_leaves:
  assumes "tx_quiet body" "tx_disk body" "tx_keeps progress body" "run_tx io body s = (r, s')"
    and "\<And>st. wrote body s st \<Longrightarrow> R st" "R (im_state s)"
  shows "disk_moves R s (im_disk s') \<and> (isl r \<or> R (im_state s') \<and> written s s')"
proof
  show "disk_moves R s (im_disk s')"
    using run_tx_moves [OF assms(2-4)] assms(5) by (rule disk_moves_mono)
  show "isl r \<or> R (im_state s') \<and> written s s'"
  proof (cases r)
    case (Inr x)
    from assms(1) assms(4) [unfolded Inr] show ?thesis
    proof (cases rule: run_tx_returns)
      case 1
      with assms(6) show ?thesis by (simp add: written_def)
    next
      case (2 t)
      have "R (im_state s')" unfolding 2(3) by (rule assms(5), rule committed_wrote, rule 2(1))
      moreover have "written s s'" unfolding 2(3) by (rule committed_written, rule body_disk [OF assms(3) 2(1)])
      ultimately show ?thesis by simp
    qed
  qed simp
qed

lemma run_tx_request_leaves:
  assumes "\<And>st. wrote body s st \<Longrightarrow> enters q s st"
    and "tx_quiet body" "tx_disk body" "tx_keeps progress body" "run_tx io body s = (r, s')"
  shows "disk_moves (leaves q s) s (im_disk s') \<and> (isl r \<or> leaves q s (im_state s') \<and> written s s')"
  using assms(1) by (intro run_tx_leaves [OF assms(2-5)]) (simp_all add: leaves_def)

lemma advance_leaves:
  assumes "advance_epoch env x s = (r, s')"
  shows "disk_moves (leaves (Advance env x) s) s (im_disk s') \<and> (isl r \<or> leaves (Advance env x) s (im_state s') \<and> written s s')"
  using advance_epoch_split [OF assms]
proof (elim disjE exE)
  assume "s' = s"
  then show ?thesis by (simp add: disk_moves_def leaves_def written_def)
next
  fix digest assume "end_tx (enter_advance env x digest (begin_tx s)) = (r, s')"
  note c = advance_commit [OF this]
  have "wrote (move_epoch env x digest) s st \<Longrightarrow> leaves (Advance env x) s st" for st
    by (auto simp: leaves_def)
  moreover from this have "disk_moves (wrote (move_epoch env x digest) s) s d \<Longrightarrow>
      disk_moves (leaves (Advance env x) s) s d" for d
    by (blast intro: disk_moves_mono)
  moreover have "wrote (move_epoch env x digest) s (im_state s') \<and> written s s'" if "\<not> isl r"
    using c that committed_wrote committed_written [OF body_disk [OF move_epoch_progress]] by metis
  ultimately show ?thesis using c by blast
qed

lemma close_leaves:
  assumes "running_ok s" "close_session io sid reason s = (r, s')"
  shows "disk_moves (leaves (Close io sid reason) s) s (im_disk s') \<and>
    (isl r \<or> leaves (Close io sid reason) s (im_state s') \<and> written s s')"
proof -
  obtain a b where e: "erase_session sid s = s\<lparr> im_session_index := a, im_boot_session_index := b \<rparr>"
    using erase_session_tables by blast
  let ?e = "s\<lparr> im_session_index := a, im_boot_session_index := b \<rparr>"
  have ok: "running_ok ?e" "im_state ?e = im_state s" "im_disk ?e = im_disk s"
    using session_tables_ok [OF assms(1)] by simp_all
  have stay: "disk_moves (leaves q s) s (im_disk u) \<and> leaves q s (im_state u) \<and> written s u"
    if "u = s \<or> u = ?e" for u q
    using that ok by (auto simp: disk_moves_def leaves_def written_def)
  have fence: "disk_moves (leaves (Close io sid reason) s) s (im_disk u) \<and>
      (isl q \<or> leaves (Close io sid reason) s (im_state u) \<and> written s u)"
    if "run_tx io (record_fence pid boot reason' empty_text False) ?e = (q, u)" for pid boot reason' q u
  proof -
    have "leaves (Close io sid reason) s st" if "wrote (record_fence pid boot reason' empty_text False) ?e st" for st
    proof -
      have "enters (Close io sid reason) s st" using that ok(1,2) unfolding enters.simps by blast
      then show ?thesis by (simp add: leaves_def)
    qed
    from run_tx_leaves [OF record_fence_quiet record_fence_disk record_fence_progress that, where R = "leaves (Close io sid reason) s"] this
    show ?thesis by (simp add: leaves_def disk_moves_def written_def)
  qed
  show ?thesis
    using assms(2) stay fence
    by (auto simp: close_session_def Let_def e split: option.splits if_splits)
qed

lemma flush_leaves:
  assumes "flush io s = (r, s')"
  shows "disk_moves (leaves q s) s (im_disk s') \<and> im_state s' = im_state s \<and> written s s'"
  using assms save_impl_disk [of io s r s']
  by (auto simp: flush_def disk_moves_def leaves_def written_def save_impl_def split: prod.splits)

lemma bind_leaves:
  assumes "bind_session b s = (r, s')"
  shows "im_disk s' = im_disk s \<and> im_state s' = im_state s"
  using assms by (auto simp: bind_session_def split: if_splits)

lemma perform_leaves:
  assumes "running_ok s" "perform q s = (r, s')"
  shows "disk_moves (leaves q s) s (im_disk s') \<and> (isl r \<or> leaves q s (im_state s') \<and> written s s')"
proof -
  have lift: "disk_moves (leaves q s) s (im_disk s') \<and> (isl r \<or> leaves q s (im_state s') \<and> written s s')"
    if "outcome_of m = (r, s')"
      "\<And>p u. m = (p, u) \<Longrightarrow> disk_moves (leaves q s) s (im_disk u) \<and> (isl p \<or> leaves q s (im_state u) \<and> written s u)"
    for m :: "'x res \<times> impl"
    using that outcome_of_request [of "fst m" "snd m" r s'] by (metis prod.collapse)
  have own: "leaves q s (im_state s)" by (simp add: leaves_def)
  note ops = perform.simps register_participant_def register_participants_def fence_worker_def
    grant_authority_def revoke_authority_def retire_participant_def
  show ?thesis
  proof (cases q)
    case (Register io x)
    show ?thesis
      by (rule lift [OF assms(2) [unfolded Register ops]],
          rule run_tx_request_leaves [OF _ apply_registration_quiet apply_registration_disk apply_registration_progress])
        (simp_all add: Register)
  next
    case (RegisterBatch io x)
    show ?thesis
      by (rule lift [OF assms(2) [unfolded RegisterBatch ops]],
          rule run_tx_request_leaves [OF _ batch_body_quiet batch_body_disk batch_body_progress])
        (simp_all add: RegisterBatch)
  next
    case (Fence io x)
    show ?thesis
      by (rule lift [OF assms(2) [unfolded Fence ops]],
          rule run_tx_request_leaves [OF _ fence_body_quiet fence_body_disk fence_body_progress])
        (simp_all add: Fence)
  next
    case (Grant env x)
    show ?thesis
      by (rule lift [OF assms(2) [unfolded Grant ops]],
          rule run_tx_request_leaves [OF _ apply_grant_quiet apply_grant_disk apply_grant_progress])
        (simp_all add: Grant)
  next
    case (Revoke io x)
    show ?thesis
      by (rule lift [OF assms(2) [unfolded Revoke ops]],
          rule run_tx_request_leaves [OF _ apply_revoke_quiet apply_revoke_disk apply_revoke_progress])
        (simp_all add: Revoke)
  next
    case (Retire io x)
    show ?thesis
      by (rule lift [OF assms(2) [unfolded Retire ops]],
          rule run_tx_request_leaves [OF _ apply_retire_quiet apply_retire_disk apply_retire_progress])
        (simp_all add: Retire)
  next
    case (Advance env x)
    show ?thesis
      by (rule lift [OF assms(2) [unfolded Advance ops]], unfold Advance) (rule advance_leaves)
  next
    case (Bind b)
    show ?thesis
      by (rule lift [OF assms(2) [unfolded Bind ops]], drule bind_leaves) (simp add: own disk_moves_def written_def)
  next
    case (Close io sid reason)
    show ?thesis
      by (rule lift [OF assms(2) [unfolded Close ops]], unfold Close) (rule close_leaves [OF assms(1)])
  next
    case (Flush io)
    show ?thesis
      by (rule lift [OF assms(2) [unfolded Flush ops]], drule flush_leaves [where q = q]) (simp add: own)
  qed
qed

lemma move_epoch_wrote:
  assumes "wrote (move_epoch env x digest) s st"
  shows "epoch_entered (im_state s) True st"
proof -
  obtain y t where t: "move_epoch env x digest (begin_tx s) = (Inr y, t)" "st = im_state (canonicalize (tx_impl t))"
    using assms by (auto simp: wrote_def)
  have b: "tx_impl (begin_tx s) = s" by (simp add: begin_tx_def)
  obtain z t1 rec where
    m: "mutate_epoch env (st_coordinator_boot (im_state s)) (eq_cause x) True (begin_tx s) = (Inr z, t1)"
    "tx_impl t = remember_control rec (tx_impl t1)"
    using t(1)
    by (auto simp: move_epoch_def tx_simps b tx_bind_def [of "mutate_epoch env x c True" for x c]
        split: prod.splits sum.splits)
  have "epoch_entered (im_state s) True (im_state (tx_impl t))"
    using mutate_epoch_entered(1) [OF m(1)]
    by (simp add: m(2) b epoch_entered_def remember_control_def upd_state_def)
  then show ?thesis
    using epoch_entered_committed [of "im_state s" True io_ok "tx_impl t"] t(2) by (simp add: frame_simps)
qed

text \<open>What a request leaves is never behind what it found.\<close>

lemma leaves_le:
  assumes "running_ok s" "leaves q s st"
  shows "state_le (im_state s) st"
proof (cases "st = im_state s")
  case False
  with assms(2) have e: "enters q s st" by (simp add: leaves_def)
  have known: "running_ok u \<Longrightarrow> ids_known u" for u by (simp add: running_ok_def indexes_match_known)
  note le = wrote_le [OF _ _ known [OF assms(1)]]
  show ?thesis
  proof (cases q)
    case (Register io x)
    then show ?thesis using e le [OF apply_registration_progress] by simp
  next
    case (RegisterBatch io xs)
    then show ?thesis using e le [OF batch_body_progress] by simp
  next
    case (Fence io x)
    then show ?thesis using e le [OF fence_body_progress] by simp
  next
    case (Grant env x)
    then show ?thesis using e le [OF apply_grant_progress] by simp
  next
    case (Revoke io x)
    then show ?thesis using e le [OF apply_revoke_progress] by simp
  next
    case (Retire io x)
    then show ?thesis using e le [OF apply_retire_progress] by simp
  next
    case (Advance env x)
    then show ?thesis using e le [OF move_epoch_progress] by auto
  next
    case (Close io sid reason)
    then obtain u pid boot why where
      "running_ok u" "im_state u = im_state s" "wrote (record_fence pid boot why empty_text False) u st"
      using e by auto
    then show ?thesis using wrote_le [OF record_fence_progress _ known] by metis
  qed (use e in simp_all)
qed simp

section \<open>Bodies that return\<close>

text \<open>\<open>tx_gives P m\<close>: a body that returns relates the runtime it starts from and the one it leaves.\<close>

definition tx_gives :: "(impl \<Rightarrow> impl \<Rightarrow> bool) \<Rightarrow> 'a tx \<Rightarrow> bool" where
  "tx_gives P m \<longleftrightarrow> (\<forall>t x t'. m t = (Inr x, t') \<longrightarrow> P (tx_impl t) (tx_impl t'))"

context tx_relation
begin

lemma gives_basic:
  "tx_gives P (tx_return x)" "tx_gives P (tx_throw e)" "tx_gives P (tx_lift r)" "tx_gives P tx_get"
  "tx_gives P (tx_push_undo a)" "tx_gives P tx_set_mutated" "tx_gives P (tx_next c msg)"
  by (simp_all add: tx_gives_def tx_basic tx_next_def rel_refl split: option.split)

lemma gives_modify: "(\<And>s. P s (f s)) \<Longrightarrow> tx_gives P (tx_modify f)"
  by (simp add: tx_gives_def tx_basic)

lemma gives_bind: "tx_gives P m \<Longrightarrow> (\<And>x. tx_gives P (f x)) \<Longrightarrow> tx_gives P (tx_bind m f)"
  unfolding tx_gives_def by (auto simp: tx_bind_def split: prod.splits sum.splits) (metis rel_trans)

lemma gives_option:
  "tx_gives P a \<Longrightarrow> (\<And>x. tx_gives P (b x)) \<Longrightarrow> tx_gives P (case r of None \<Rightarrow> a | Some x \<Rightarrow> b x)"
  by (cases r) simp_all

lemma gives_if: "tx_gives P a \<Longrightarrow> tx_gives P b \<Longrightarrow> tx_gives P (if c then a else b)"
  by simp

lemma gives_get_bind: "(\<And>s. tx_gives P (f s)) \<Longrightarrow> tx_gives P (tx_bind tx_get f)"
  by (rule gives_bind [OF gives_basic(4)])

lemma gives_changed:
  "tx_gives P m \<Longrightarrow> tx_gives P n \<Longrightarrow> tx_gives P (\<lambda>t. if c t then m t else n t)"
  by (auto simp: tx_gives_def)

lemmas gives_rules = gives_basic gives_bind gives_option gives_if

end

lemma wrote_gives:
  assumes "tx_gives P body" "wrote body s st"
  obtains u where "P s u" "st = im_state (canonicalize u)"
  using assms unfolding wrote_def tx_gives_def by (metis begin_tx_def txn.select_convs(1))

section \<open>Invariants\<close>

lemma store_encode_valid: "store_encode st = Inr img \<Longrightarrow> validate_durable_state st = Inr ()"
  by (auto simp: store_encode_def res_bind_eq_Inr)

fun node_keeps :: "(DurableState \<Rightarrow> bool) \<Rightarrow> node \<Rightarrow> bool" where
  "node_keeps Q (Running s) \<longleftrightarrow> running_ok s \<and> Q (im_state s) \<and> (\<exists>st. holds (im_disk s) st \<and> Q st)"
| "node_keeps Q (Stopped d) \<longleftrightarrow> (\<exists>st. holds d st \<and> Q st)"

locale durable_invariant =
  fixes ok :: "request \<Rightarrow> bool"
    and Q :: "DurableState \<Rightarrow> bool"
  assumes initially: "Q initial_state"
    and kept: "ok q \<Longrightarrow> running_ok s \<Longrightarrow> Q (im_state s) \<Longrightarrow> enters q s st \<Longrightarrow>
      validate_durable_state st = Inr () \<Longrightarrow> Q st"
    and entered: "epoch_entered st invalidate u \<Longrightarrow> Q st \<Longrightarrow> Q u"
    and attempts: "Q (without_attempts st) = Q st"
begin

lemma keeps_leaves:
  assumes "ok q" "running_ok s" "Q (im_state s)" "leaves q s st" "validate_durable_state st = Inr ()"
  shows "Q st"
  using assms kept unfolding leaves_def by blast

lemma disk_keeps:
  assumes "disk_moves R s d" "\<exists>st. holds (im_disk s) st \<and> Q st"
    and "\<And>st. R st \<Longrightarrow> validate_durable_state st = Inr () \<Longrightarrow> Q st"
  shows "\<exists>st. holds d st \<and> Q st"
  using assms(1) unfolding disk_moves_def
proof (elim disjE exE conjE)
  assume "d = im_disk s"
  with assms(2) show ?thesis by simp
next
  fix st assume "R st" "image_saved st (im_disk s) d"
  then show ?thesis
    using assms(3) [OF _ store_encode_valid] by (auto simp: holds_def image_saved_def)
qed

lemma request_keeps:
  assumes "ok q" "node_keeps Q (Running s)" "perform q s = (r, s')"
  shows "(\<exists>st. holds (im_disk s') st \<and> Q st) \<and> (\<not> isl r \<longrightarrow> node_keeps Q (Running s'))"
proof -
  have s: "running_ok s" "Q (im_state s)" "\<exists>st. holds (im_disk s) st \<and> Q st" using assms(2) by simp_all
  note l = perform_leaves [OF s(1) assms(3)] and p = perform_request [OF s(1) assms(3)]
  have disk: "\<exists>st. holds (im_disk s') st \<and> Q st"
    using conjunct1 [OF l] s(3) keeps_leaves [OF assms(1) s(1,2)] by (rule disk_keeps)
  have "node_keeps Q (Running s')" if "\<not> isl r"
  proof -
    have r: "running_ok s'" "leaves q s (im_state s')" "im_state s' = im_state s \<or> saved s'"
      using l p that by (auto simp: serves_def)
    have "Q (im_state s')"
    proof (cases "im_state s' = im_state s")
      case False
      with r(3) show ?thesis using keeps_leaves [OF assms(1) s(1,2) r(2)] by (simp add: saved_def)
    qed (use s(2) in simp)
    with r(1) disk show ?thesis by simp
  qed
  with disk show ?thesis by blast
qed

lemma transition_keeps:
  assumes "wrote (mutate_epoch env boot cause invalidate) s st" "Q (im_state s)"
  shows "Q st"
proof -
  obtain x t where t: "mutate_epoch env boot cause invalidate (begin_tx s) = (Inr x, t)"
      "st = im_state (canonicalize (tx_impl t))"
    using assms(1) by (auto simp: wrote_def)
  have "epoch_entered (im_state s) invalidate (im_state (committed io_ok (tx_impl t)))"
    using mutate_epoch_entered(1) [OF t(1)] by (simp add: epoch_entered_committed begin_tx_def)
  then show ?thesis using entered assms(2) by (simp add: t(2) frame_simps)
qed

lemma opening_keeps:
  assumes "open_runtime env opts d = (r, d')" "holds d st" "Q st"
  shows "(\<exists>u. holds d' u \<and> Q u) \<and> (\<forall>s. r = Inr s \<longrightarrow> Q (im_state s))"
  using assms(1)
proof (cases rule: open_runtime_cases)
  case (rejected e)
  with assms show ?thesis by auto
next
  case (resumed u boot)
  have "u = st" using open_inputs_load [OF resumed(1)] assms(2) by (rule store_load_holds)
  with resumed assms show ?thesis by (auto simp: opened_facts)
next
  case (moved u boot cause q s1)
  have u: "u = st" using open_inputs_load [OF moved(1)] assms(2) by (rule store_load_holds)
  let ?s = "opened opts d u boot"
  have Q: "Q (im_state ?s)" using assms(3) by (simp add: opened_facts u)
  note c = establish_commit [OF moved(2)]
  have "\<exists>u. holds d' u \<and> Q u"
    unfolding moved(4)
    by (rule disk_keeps [OF conjunct1 [OF c] _ transition_keeps [OF _ Q]])
      (use assms(2,3) u in \<open>auto simp: opened_facts\<close>)
  moreover have "Q (im_state s)" if "r = Inr s" for s
  proof -
    have "\<not> isl q \<and> s1 = s" using that moved(3) by (cases q) auto
    with c obtain x t where "mutate_epoch env boot cause (\<not> counter_is_zero (st_current_epoch u)) (begin_tx ?s) = (Inr x, t)"
      "s = committed (en_io env) (tx_impl t)" by auto
    then show ?thesis using transition_keeps [OF committed_wrote Q] by blast
  qed
  ultimately show ?thesis by blast
qed

lemma step_keeps:
  assumes "guarded_step ok n n'" "node_keeps Q n"
  shows "node_keeps Q n'"
  using assms
proof (induction rule: guarded_step.induct)
  case (serve q s s')
  from request_keeps [OF serve(1,3,2)] show ?case by simp
next
  case (fail q s e s')
  have s: "running_ok s" "Q (im_state s)" using fail(4) by simp_all
  have "running_ok s'"
    by (rule undone_running [OF s(1) fail(3) conjunct1 [OF perform_request [OF s(1) fail(2)]]])
  moreover have "Q (im_state s') = Q (im_state s)"
    by (rule undone_same [OF fail(3)]) (rule attempts)
  ultimately show ?case using request_keeps [OF fail(1,4,2)] s(2) by simp
next
  case (die q s e s')
  from request_keeps [OF die(1,3,2)] show ?case by simp
next
  case (crash s)
  then show ?case by simp
next
  case (start env opts d s d')
  then obtain st where st: "holds d st" "Q st" by auto
  have "d' = im_disk s" using start(1) by (rule open_runtime_disk)
  then show ?case using opening_keeps [OF start(1) st] open_runtime_ok [OF start(1) st(1)] by auto
next
  case (refuse env opts d e d')
  then show ?case using opening_keeps by auto
qed

theorem lives_keep:
  assumes "guarded_lives ok n n'" "node_keeps Q n"
  shows "node_keeps Q n'"
  using assms by (induction rule: rtranclp_induct) (auto dest: step_keeps)

lemma born_keeps:
  assumes "guarded_lives ok (Stopped d) (Running s)" "image_file d = None"
  shows "running_ok s \<and> Q (im_state s)"
  using lives_keep [OF assms(1)] assms(2) initially by (auto simp: holds_def)

end

end
