(* ===== verification/Exclusive.thy ===== *)
theory Exclusive
  imports Invariants Scenario
begin

text \<open>
  At most one incarnation at a time. \<open>exclusive\<close> says of the durable records that a participant with
  the single-incarnation policy has at most one current incarnation and that no retained fence record
  names a current incarnation. Every operation but the batch registration keeps it; inside a batch the
  index of fence records lags behind the records, which the runtime relies on.
\<close>

section \<open>The invariant\<close>

definition at_most_one :: "DurableParticipant \<Rightarrow> bool" where
  "at_most_one p \<longleftrightarrow>
     (dp_policy p = IncarnationPolicy.SingleIncarnation \<longrightarrow>
       (\<forall>x \<in> set (currents p). \<forall>y \<in> set (currents p). x = y))"

definition exclusive :: "DurableState \<Rightarrow> bool" where
  "exclusive st \<longleftrightarrow>
     fences_respected st \<and>
     fr_participant ` set (st_recent_fences st) \<subseteq> dp_id ` set (st_participants st) \<and>
     (\<forall>p \<in> set (st_participants st). at_most_one p)"

text \<open>The invariant in the middle of an operation, with what the lookups rely on.\<close>

definition tidy :: "impl \<Rightarrow> bool" where
  "tidy s \<longleftrightarrow>
     exclusive (im_state s) \<and> distinct (map dp_id (im_participants s)) \<and>
     (\<forall>p \<in> set (im_participants s). distinct (participant_boots p)) \<and>
     (\<forall>pid i. find_participant s pid = Some i \<longrightarrow> dp_id (participant_at s i) = pid)"

definition keeps_tidy :: "impl \<Rightarrow> impl \<Rightarrow> bool" where
  "keeps_tidy s u \<longleftrightarrow> (tidy s \<longrightarrow> tidy u)"

interpretation tidy: tx_relation keeps_tidy
  by unfold_locales (auto simp: keeps_tidy_def)

lemma running_tidy: "running_ok s \<Longrightarrow> exclusive (im_state s) \<Longrightarrow> tidy s"
  using find_participant_correct [of s] wf_participant [of s] wf_distinct_ids [of s]
  by (auto simp: tidy_def running_ok_def participant_wf_def)

lemma exclusive_same_sets:
  assumes "set (st_participants u) = set (st_participants st)"
    and "set (st_recent_fences u) = set (st_recent_fences st)"
  shows "exclusive u = exclusive st"
  unfolding exclusive_def fences_respected_def assms ..

lemma exclusive_committed: "exclusive (im_state (committed io s)) = exclusive (im_state s)"
  by (rule exclusive_same_sets) (simp_all add: committed_participants committed_fields)

text \<open>A step that leaves the participants' incarnations and the fences alone.\<close>

definition same_standing_of :: "DurableParticipant \<Rightarrow> DurableParticipant \<Rightarrow> bool" where
  "same_standing_of p q \<longleftrightarrow>
     dp_id q = dp_id p \<and> dp_policy q = dp_policy p \<and> set (currents q) \<subseteq> set (currents p) \<and>
     (distinct (participant_boots p) \<longrightarrow> distinct (participant_boots q))"

lemma same_standing_of_refl [simp]: "same_standing_of p p"
  by (simp add: same_standing_of_def)

lemma same_standing_of_boots:
  "same_standing_of p q \<Longrightarrow> set (participant_boots q) \<subseteq> set (participant_boots p)"
  by (simp add: same_standing_of_def image_mono flip: currents_boots)

lemma same_standing_of_single: "same_standing_of p q \<Longrightarrow> at_most_one p \<Longrightarrow> at_most_one q"
  unfolding same_standing_of_def at_most_one_def by (metis subset_iff)

text \<open>The general step: records at the same positions shrink, and a new fence names no current boot.\<close>

lemma tidy_step:
  assumes "tidy s" "im_participant_index u = im_participant_index s"
    and "length (im_participants u) = length (im_participants s)"
    and "\<And>i. i < length (im_participants s) \<Longrightarrow>
      same_standing_of (im_participants s ! i) (im_participants u ! i)"
    and "\<And>f. f \<in> set (st_recent_fences (im_state u)) \<Longrightarrow> f \<in> set (st_recent_fences (im_state s)) \<or>
      (fr_participant f \<in> dp_id ` set (im_participants s) \<and>
       (\<forall>p \<in> set (im_participants u). dp_id p = fr_participant f \<longrightarrow> fr_boot f \<notin> set (participant_boots p)))"
  shows "tidy u"
proof -
  let ?ps = "im_participants s" and ?qs = "im_participants u"
  have ids: "map dp_id ?qs = map dp_id ?ps"
    using assms(3,4) by (intro nth_equalityI) (simp_all add: same_standing_of_def)
  have from_old: "\<exists>p \<in> set ?ps. same_standing_of p q" if "q \<in> set ?qs" for q
    using that assms(3,4) by (metis in_set_conv_nth)
  have "fences_respected (im_state u)"
    unfolding fences_respected_def
  proof (intro ballI impI)
    fix f q assume f: "f \<in> set (st_recent_fences (im_state u))" and q: "q \<in> set ?qs"
      and id: "dp_id q = fr_participant f"
    from assms(5) [OF f] show "fr_boot f \<notin> set (participant_boots q)"
    proof
      assume old: "f \<in> set (st_recent_fences (im_state s))"
      from from_old [OF q] obtain p where p: "p \<in> set ?ps" "same_standing_of p q" by blast
      with assms(1) old id have "fr_boot f \<notin> set (participant_boots p)"
        by (auto simp: tidy_def exclusive_def fences_respected_def same_standing_of_def)
      with same_standing_of_boots [OF p(2)] show ?thesis by blast
    qed (use q id in blast)
  qed
  moreover have "fr_participant ` set (st_recent_fences (im_state u)) \<subseteq> dp_id ` set ?qs"
  proof -
    have "dp_id ` set ?qs = dp_id ` set ?ps" using ids by (metis set_map)
    moreover have "fr_participant ` set (st_recent_fences (im_state s)) \<subseteq> dp_id ` set ?ps"
      using assms(1) by (simp add: tidy_def exclusive_def)
    ultimately show ?thesis using assms(5) by (metis (no_types, lifting) image_subset_iff)
  qed
  moreover have "at_most_one q \<and> distinct (participant_boots q)" if "q \<in> set ?qs" for q
  proof -
    from from_old [OF that] obtain p where p: "p \<in> set ?ps" "same_standing_of p q" by blast
    with assms(1) have "at_most_one p" "distinct (participant_boots p)"
      by (simp_all add: tidy_def exclusive_def)
    with same_standing_of_single [OF p(2)] p(2) show ?thesis by (simp add: same_standing_of_def)
  qed
  moreover have "find_participant u pid = find_participant s pid" for pid
    using assms(2,3) by (rule find_participant_cong)
  moreover have "dp_id (participant_at u i) = dp_id (participant_at s i)" if "i < length ?ps" for i
    using assms(4) [OF that] by (simp add: participant_at_def same_standing_of_def)
  ultimately show ?thesis
    using assms(1) ids find_participant_less [of s]
    by (simp add: tidy_def exclusive_def)
qed

lemma tidy_same_records:
  assumes "im_participant_index u = im_participant_index s" "im_participants u = im_participants s"
    and "st_recent_fences (im_state u) = st_recent_fences (im_state s)"
  shows "keeps_tidy s u"
  unfolding keeps_tidy_def using assms by (auto intro!: tidy_step [of s u])

lemma tidy_upd_participant:
  assumes "\<And>p. same_standing_of p (f p)"
  shows "keeps_tidy s (upd_participant i f s)"
  unfolding keeps_tidy_def
proof
  assume "tidy s"
  then show "tidy (upd_participant i f s)"
  proof (rule tidy_step)
    fix j assume "j < length (im_participants s)"
    then show "same_standing_of (im_participants s ! j) (im_participants (upd_participant i f s) ! j)"
      using assms by (cases "j = i") (simp_all add: frame_simps participant_at_def)
  next
    fix x assume "x \<in> set (st_recent_fences (im_state (upd_participant i f s)))"
    then show "x \<in> set (st_recent_fences (im_state s)) \<or>
      (fr_participant x \<in> dp_id ` set (im_participants s) \<and>
       (\<forall>p \<in> set (im_participants (upd_participant i f s)).
          dp_id p = fr_participant x \<longrightarrow> fr_boot x \<notin> set (participant_boots p)))"
      by (simp add: upd_participant_def upd_state_def)
  qed (simp_all add: frame_simps)
qed

section \<open>Steps that keep it\<close>

lemma tidy_steps:
  "keeps_tidy s (set_generation g s)" "keeps_tidy s (upd_grant k h s)" "keeps_tidy s (append_grant a s)"
  "keeps_tidy s (remember_control r s)" "keeps_tidy s (stamp_grant k s)" "keeps_tidy s (mark_revoked k s)"
  by (intro tidy_same_records; simp add: set_generation_def upd_grant_def upd_state_def append_grant_def Let_def
      remember_control_def stamp_grant_def mark_revoked_def)+

lemma standing_steps:
  "same_standing_of p (p\<lparr> dp_idempotency := h \<rparr>)" "same_standing_of p (close_allocator p)"
  by (auto simp: same_standing_of_def currents_def participant_boots_def close_allocator_def raise_floor_def Let_def)

lemma remember_tidy: "keeps_tidy s (remember_for_participant r i s)"
  unfolding remember_for_participant_def by (intro tidy_upd_participant standing_steps)

lemma retired_tidy: "keeps_tidy s (upd_participant i close_allocator s)"
  by (intro tidy_upd_participant standing_steps)

lemma revoke_walk_tidy: "revoke_walk fuel root pending n s = (rest, m, u) \<Longrightarrow> keeps_tidy s u"
proof (induction fuel root pending n s rule: revoke_walk.induct)
  case (3 fuel root x pending n s)
  show ?case
  proof (cases "lookup_grant s x")
    case None
    then show ?thesis using 3 by simp
  next
    case (Some k)
    show ?thesis
      using 3(2-4) [OF Some refl] 3(5) Some tidy_steps(6) [of s k] tidy.rel_trans
      by (auto simp: Let_def split: if_splits)
  qed
qed (auto simp: tidy.rel_refl)

lemma bump_generation_tidy: "tx_gives keeps_tidy bump_generation"
  unfolding bump_generation_def by (intro tidy.gives_rules tidy.gives_modify tidy_steps)

section \<open>Fencing keeps it\<close>

text \<open>A fence record is added for a boot that the record of its participant does not have (any more).\<close>

lemma tidy_fenced:
  assumes "tidy s" "i < length (im_participants s)" "im_participant_index u = im_participant_index s"
    and "im_participants u = (im_participants s)[i := q]" "same_standing_of (participant_at s i) q"
    and "set (st_recent_fences (im_state u)) \<subseteq> insert f (set (st_recent_fences (im_state s)))"
    and "fr_participant f = dp_id (participant_at s i)" "fr_boot f \<notin> set (participant_boots q)"
  shows "tidy u"
proof (rule tidy_step [OF assms(1,3)])
  let ?ps = "im_participants s"
  show "length (im_participants u) = length ?ps" by (simp add: assms(4))
  show "same_standing_of (?ps ! j) (im_participants u ! j)" if "j < length ?ps" for j
    using assms(4,5) that by (cases "j = i") (simp_all add: participant_at_def)
  fix g assume "g \<in> set (st_recent_fences (im_state u))"
  with assms(6) have "g \<in> set (st_recent_fences (im_state s)) \<or> g = f" by auto
  moreover have "fr_participant f \<in> dp_id ` set ?ps"
    using assms(2,7) by (simp add: participant_at_def)
  moreover have "fr_boot f \<notin> set (participant_boots p)"
    if p: "p \<in> set (im_participants u)" "dp_id p = fr_participant f" for p
  proof -
    have ids: "distinct (map dp_id ?ps)" using assms(1) by (simp add: tidy_def)
    have "dp_id q = dp_id (?ps ! i)"
      using assms(5) by (simp add: same_standing_of_def participant_at_def)
    with p assms(2,4,7) set_update_distinct [OF ids assms(2)] have "p = q"
      by (auto simp: participant_at_def)
    with assms(8) show ?thesis by simp
  qed
  ultimately show "g \<in> set (st_recent_fences (im_state s)) \<or>
      (fr_participant g \<in> dp_id ` set ?ps \<and>
       (\<forall>p \<in> set (im_participants u). dp_id p = fr_participant g \<longrightarrow> fr_boot g \<notin> set (participant_boots p)))"
    by blast
qed

lemma fenced_standing:
  assumes "distinct (participant_boots p)"
  shows "same_standing_of p (fenced_participant limits boot seq g p)"
    "boot \<notin> set (participant_boots (fenced_participant limits boot seq g p))"
proof -
  let ?q = "fenced_participant limits boot seq g p"
  have c: "set (currents ?q) = {(b, n) \<in> set (currents p). b \<noteq> boot}"
    using currents_remove_live_eq [OF assms] by (simp add: currents_fenced_participant)
  have "set (participant_boots ?q) = fst ` set (currents ?q)"
    by (metis currents_boots set_map)
  with c show "boot \<notin> set (participant_boots ?q)" by auto
  have "participant_boots ?q = participant_boots (remove_live boot p)"
    by (metis currents_boots currents_fenced_participant)
  moreover have "distinct (participant_boots (remove_live boot p))"
    using assms by (auto simp: participant_boots_def remove_live_def distinct_map inj_on_def split: list.splits)
  moreover have "dp_policy ?q = dp_policy p"
    by (simp add: fenced_participant_def Let_def raise_floor_def remove_live_def split: list.splits)
  ultimately show "same_standing_of p ?q"
    using c by (auto simp: same_standing_of_def fenced_participant_fields)
qed

lemma record_fence_tidy: "tx_gives keeps_tidy (record_fence pid boot reason text allow)"
  unfolding tx_gives_def keeps_tidy_def
proof (intro allI impI)
  fix t r t' assume f: "record_fence pid boot reason text allow t = (Inr r, t')" and s: "tidy (tx_impl t)"
  let ?s = "tx_impl t"
  from f show "tidy (tx_impl t')"
  proof (cases rule: record_fence_cases)
    case unchanged
    with s show ?thesis by simp
  next
    case (live i seq)
    note len = find_participant_less [OF live(1)]
    from live_fence_effect [OF live(4) len] obtain g where
      g: "im_participant_index (tx_impl t') = im_participant_index ?s"
      "im_participants (tx_impl t') = (im_participants ?s)
        [i := fenced_participant (im_limits ?s) boot seq g (participant_at ?s i)]"
      "st_recent_fences (im_state (tx_impl t')) = push_bounded (max_recent_fences (im_limits ?s))
         (fence_record (im_state ?s) pid boot reason text g seq) (st_recent_fences (im_state ?s))"
      by blast
    have "distinct (participant_boots (participant_at ?s i))" "dp_id (participant_at ?s i) = pid"
      using s live(1) len by (auto simp: tidy_def participant_at_def)
    with fenced_standing g(3) show ?thesis
      by (intro tidy_fenced [OF s len g(1,2)]) (auto simp: fence_record_def dest: in_push_boundedD)
  next
    case (defensive i)
    note len = find_participant_less [OF defensive(1)]
    from defensive_fence_effect [OF defensive(5) len] obtain g where
      g: "im_participant_index (tx_impl t') = im_participant_index ?s"
      "im_participants (tx_impl t') = (im_participants ?s)
        [i := (participant_at ?s i)\<lparr> dp_fence_generation := g \<rparr>]"
      "st_recent_fences (im_state (tx_impl t')) = st_recent_fences (im_state ?s) @
         [fence_record (im_state ?s) pid boot reason text g (MonotonicCounter 0)]"
      by blast
    have "dp_id (participant_at ?s i) = pid"
      using s defensive(1) by (auto simp: tidy_def)
    moreover have "boot \<notin> set (participant_boots (participant_at ?s i))"
      using defensive(4) by (simp add: find_incarnation_None)
    ultimately show ?thesis
      using g(3)
      by (intro tidy_fenced [OF s len g(1,2)])
        (auto simp: fence_record_def same_standing_of_def currents_def participant_boots_def)
  qed
qed

section \<open>The other operations keep it\<close>

lemma fence_body_tidy: "tx_gives keeps_tidy (fence_body request)"
proof -
  have step: "tx_gives keeps_tidy (\<lambda>t. if tx_mutated t
      then (case find_participant (tx_impl t) pid of None \<Rightarrow> (Inr result, t)
        | Some j \<Rightarrow> tx_bind (tx_modify (remember_for_participant r j)) (\<lambda>_. tx_return result) t)
      else (Inr result, t))" for pid r and result :: FenceResult
    by (auto simp: tx_gives_def tx_simps tidy.rel_refl remember_tidy split: option.splits)
  show ?thesis
    unfolding fence_body_def Let_def by (intro tidy.gives_rules record_fence_tidy step)
qed

lemma apply_grant_tidy: "tx_gives keeps_tidy (apply_grant env request)"
  unfolding apply_grant_def enter_grant_def Let_def
  by (intro tidy.gives_rules tidy.gives_modify tidy_steps remember_tidy bump_generation_tidy)

lemma apply_revoke_tidy: "tx_gives keeps_tidy (apply_revoke request)"
proof -
  have "tx_gives keeps_tidy (enter_revocation request digest k)" for digest k
    unfolding tx_gives_def
  proof (intro allI impI)
    fix t x t' assume e: "enter_revocation request digest k t = (Inr x, t')"
    obtain rest m u where w: "revoke_walk (walk_fuel (tx_impl t)) (ag_id (st_grants (im_state (tx_impl t)) ! k))
        [ag_id (st_grants (im_state (tx_impl t)) ! k)] 0 (tx_impl t) = (rest, m, u)"
      by (metis prod_cases3)
    have "\<exists>g rec. tx_impl t' = remember_control rec (stamp_grant k (set_generation g u))"
      using e w
      by (auto simp: enter_revocation_def tx_simps Let_def tx_bind_def [of bump_generation]
          dest!: bump_generation_effect split: prod.splits sum.splits) (rule exI, rule exI, rule refl)+
    with revoke_walk_tidy [OF w] show "keeps_tidy (tx_impl t) (tx_impl t')"
      using tidy_steps tidy.rel_trans by metis
  qed
  then show ?thesis
    unfolding apply_revoke_def Let_def by (intro tidy.gives_rules)
qed

lemma fence_all_tidy: "tx_gives keeps_tidy (fence_all request boots count)"
  by (induction boots arbitrary: count)
    (simp_all add: tidy.gives_basic tidy.gives_bind tidy.gives_if record_fence_tidy)

lemma apply_retire_tidy: "tx_gives keeps_tidy (apply_retire request)"
  unfolding apply_retire_def enter_retirement_def Let_def
  by (intro tidy.gives_rules tidy.gives_modify remember_tidy retired_tidy fence_all_tidy bump_generation_tidy)

section \<open>Registration keeps it\<close>

lemma replace_incumbent_tidy: "tx_gives keeps_tidy (replace_incumbent request i)"
  unfolding replace_incumbent_def by (intro tidy.gives_rules record_fence_tidy)

lemma accept_registration_outcome:
  assumes "accept_registration request c digest found t = (Inr r, t')"
  shows "rr_outcome r = RegistrationOutcome.Registered \<and> \<not> rr_replayed r"
proof -
  obtain i u where "issue_registration request c digest i u = (Inr r, t')"
    using assms
    by (cases found) (auto simp: accept_registration_def open_record_def tx_simps Let_def)
  from issue_registration_shape [OF this] show ?thesis
    by (auto simp: registration_accepted_def registration_result_def)
qed

lemma apply_registration_cases:
  assumes "apply_registration request c t = (Inr r, t')"
  obtains (same) "t' = t"
  | (replacing) i x where "replace_incumbent request i t = (Inr x, t')"
  | (registered) "rr_outcome r = RegistrationOutcome.Registered" "\<not> rr_replayed r"
proof -
  have finish: "(rr_outcome r = RegistrationOutcome.Registered \<and> \<not> rr_replayed r) \<or> t' = u"
    if "finish_registration request c digest found u = (Inr r, t')" for digest found u
    using that accept_registration_outcome
    by (auto simp: finish_registration_def tx_simps split: option.splits)
  have "t' = t \<or> (\<exists>i x. replace_incumbent request i t = (Inr x, t')) \<or>
      (rr_outcome r = RegistrationOutcome.Registered \<and> \<not> rr_replayed r)"
    using assms
    by (cases "register_digest request")
      (auto simp: apply_registration_def tx_simps tx_bind_def [of "replace_incumbent a b" for a b]
        dest!: finish split: option.splits prod.splits sum.splits)
  then show thesis using that by blast
qed

lemma at_most_oneD: "at_most_one p \<Longrightarrow> dp_policy p = IncarnationPolicy.SingleIncarnation \<Longrightarrow>
    x \<in> set (currents p) \<Longrightarrow> set (currents p) = {x}"
  by (auto simp: at_most_one_def)

lemma replaced_empty:
  assumes "replaced s pid p p0" "at_most_one p" "dp_policy p = IncarnationPolicy.SingleIncarnation"
    and "distinct (participant_boots p)"
    and "has_incumbent p \<Longrightarrow> \<not> fl_fenced (lookup_fence s pid (incumbent_boot p))"
  shows "currents p0 = []"
proof (cases "has_incumbent p")
  case True
  with assms(1,5) obtain g where g: "fence_effect s pid (incumbent_boot p) g p p0"
    by (auto simp: replaced_def)
  have "incumbent_boot p \<in> fst ` set (currents p)"
    using True incumbent_current by (simp add: has_incumbent_def flip: set_map currents_boots)
  then obtain n where "(incumbent_boot p, n) \<in> set (currents p)" by auto
  from at_most_oneD [OF assms(2,3) this] fence_effect_currents [OF g assms(4)]
  have "set (currents p0) = {}" by auto
  then show ?thesis by simp
next
  case False
  with assms(1,3) show ?thesis
    by (auto simp: replaced_def has_incumbent_def has_current_incarnation_def currents_def)
qed

lemma replaced_boots:
  assumes "replaced s pid p p0" "distinct (participant_boots p)"
  shows "set (participant_boots p0) \<subseteq> set (participant_boots p)"
    "has_incumbent p \<Longrightarrow> \<not> fl_fenced (lookup_fence s pid (incumbent_boot p)) \<Longrightarrow>
      incumbent_boot p \<notin> set (participant_boots p0)"
proof -
  have sub: "set (currents p0) \<subseteq> set (currents p)"
    using assms fence_effect_currents by (auto simp: replaced_def)
  then show "set (participant_boots p0) \<subseteq> set (participant_boots p)"
    by (simp add: image_mono flip: currents_boots)
  assume "has_incumbent p" "\<not> fl_fenced (lookup_fence s pid (incumbent_boot p))"
  with assms(1) obtain g where "fence_effect s pid (incumbent_boot p) g p p0"
    by (auto simp: replaced_def)
  from fence_effect_currents [OF this assms(2)] show "incumbent_boot p \<notin> set (participant_boots p0)"
    by (auto simp flip: currents_boots)
qed

lemma issued_boots:
  "issued request n g p q \<Longrightarrow> set (participant_boots q) = insert (rp_boot request) (set (participant_boots p))"
  by (auto simp: issued_def simp flip: currents_boots)

text \<open>A participant that registers for the first time.\<close>

lemma registers_new_exclusive:
  assumes "registers s request r p0 q u" "running_ok s" "exclusive (im_state s)"
    and "find_participant s (rp_participant request) = None"
  shows "exclusive (im_state u)"
proof -
  obtain n g where i: "issued request n g p0 q" "p0 = fresh_participant request"
      "set (im_participants u) = insert q (set (im_participants s))"
    and f: "set (st_recent_fences (im_state u)) \<subseteq> set (st_recent_fences (im_state s))"
    using assms(1,4) by (auto simp: registers_def)
  have id: "dp_id q = rp_participant request"
    using i(1,2) by (simp add: issued_def fresh_participant_def)
  have "ids_known s" using assms(2) by (simp add: running_ok_def indexes_match_known)
  then have "rp_participant request \<notin> dp_id ` set (im_participants s)"
    using assms(4) by (auto simp: ids_known_def)
  then have unfenced: "dp_id q \<noteq> fr_participant x" if "x \<in> set (st_recent_fences (im_state u))" for x
  proof -
    from f that assms(3) have "fr_participant x \<in> dp_id ` set (im_participants s)"
      by (auto simp: exclusive_def)
    then show ?thesis using \<open>rp_participant request \<notin> dp_id ` set (im_participants s)\<close> id by auto
  qed
  have "set (currents q) = {(rp_boot request, n)}"
    using i by (simp add: issued_def)
  then have "at_most_one q" by (simp add: at_most_one_def)
  with assms(3) f unfenced show ?thesis
    unfolding exclusive_def fences_respected_def i(3) by (auto simp: image_subset_iff subset_iff)
qed

text \<open>A participant that is known: the incumbent of a single one is fenced before the new incarnation is issued.\<close>

lemma registers_known_exclusive:
  assumes "registers s request r p0 q u" "running_ok s" "exclusive (im_state s)"
    and "find_participant s (rp_participant request) = Some i"
  shows "exclusive (im_state u)"
proof -
  let ?p = "participant_at s i" and ?pid = "rp_participant request"
  have im: "indexes_match s" using assms(2) by (simp add: running_ok_def)
  have p: "?p \<in> set (im_participants s)" "dp_id ?p = ?pid"
    using find_participant_correct [OF im assms(4)] by (simp_all add: participant_at_def)
  obtain n g where iss: "issued request n g p0 q" using assms(1) by (auto simp: registers_def)
  have r: "dp_policy ?p = rp_policy request" "find_incarnation ?p (rp_boot request) = None"
    "\<not> fl_fenced (lookup_fence s ?pid (rp_boot request))" "replaced s ?pid ?p p0"
    "set (st_recent_fences (im_state u)) \<subseteq> set (st_recent_fences (im_state s)) \<union>
       {f. has_incumbent ?p \<and> fr_participant f = ?pid \<and> fr_boot f = incumbent_boot ?p}"
    using assms(1,4) by (simp_all add: registers_def)
  have rec: "record_replaced s ?pid ?p q u"
    by (rule set_participants_registered [OF assms(1,2,4)])
  then have set: "set (im_participants u) = insert q {x \<in> set (im_participants s). dp_id x \<noteq> ?pid}"
    and id: "dp_id q = ?pid"
    by (simp_all add: record_replaced_def)
  have one: "at_most_one ?p" and respected: "fences_respected (im_state s)"
    using assms(3) p(1) by (simp_all add: exclusive_def)
  have d: "distinct (participant_boots ?p)"
    using wf_participant [OF assms(2) p(1)] by (simp add: participant_wf_def)
  have live: "\<not> fl_fenced (lookup_fence s ?pid b)" if "b \<in> set (participant_boots ?p)" for b
    using live_boot_not_fenced [OF assms(2) respected p(1) that] p(2) by simp
  have inc: "\<not> fl_fenced (lookup_fence s ?pid (incumbent_boot ?p))" if "has_incumbent ?p"
    using that incumbent_current live by (simp add: has_incumbent_def)
  have "at_most_one q"
    unfolding at_most_one_def
  proof
    assume "dp_policy q = IncarnationPolicy.SingleIncarnation"
    then have "currents p0 = []"
      using replaced_empty [OF r(4) one _ d inc] r(1) iss by (simp add: issued_def)
    then show "\<forall>x \<in> set (currents q). \<forall>y \<in> set (currents q). x = y"
      using iss by (simp add: issued_def)
  qed
  moreover have "fr_boot f \<notin> set (participant_boots q)"
    if f: "f \<in> set (st_recent_fences (im_state u))" "fr_participant f = ?pid" for f
  proof -
    have new: "fr_boot f \<noteq> rp_boot request" if "f \<in> set (st_recent_fences (im_state s))"
      using r(3) lookup_fence_iff [OF assms(2) p(1)] p(2) f(2) that by auto
    have "fr_boot f \<notin> set (participant_boots ?p)" if "f \<in> set (st_recent_fences (im_state s))"
      using respected p f(2) that by (simp add: fences_respected_def)
    moreover have "incumbent_boot ?p \<noteq> rp_boot request" if "has_incumbent ?p"
      using that r(2) incumbent_current [of ?p] by (auto simp: has_incumbent_def find_incarnation_None)
    moreover have "f \<in> set (st_recent_fences (im_state s)) \<or> (has_incumbent ?p \<and> fr_boot f = incumbent_boot ?p)"
      using f(1) r(5) by auto
    moreover have "incumbent_boot ?p \<notin> set (participant_boots p0)" if "has_incumbent ?p"
      by (rule replaced_boots(2) [OF r(4) d that inc [OF that]])
    ultimately show ?thesis
      using new replaced_boots(1) [OF r(4) d] issued_boots [OF iss] by auto
  qed
  moreover have "fr_participant f \<in> dp_id ` set (im_participants u)"
    if f: "f \<in> set (st_recent_fences (im_state u))" for f
  proof -
    have "fr_participant f \<in> insert ?pid (dp_id ` set (im_participants s))"
      using f r(5) assms(3) by (auto simp: exclusive_def)
    then show ?thesis unfolding set by (auto simp: id)
  qed
  moreover have "fr_boot f \<notin> set (participant_boots x)"
    if f: "f \<in> set (st_recent_fences (im_state u))" and x: "x \<in> set (im_participants s)" "dp_id x \<noteq> ?pid"
      "dp_id x = fr_participant f" for f x
    using f r(5) x respected by (auto simp: fences_respected_def)
  ultimately show ?thesis
    using assms(3) id unfolding exclusive_def fences_respected_def set by auto
qed

lemma registration_exclusive:
  assumes "wrote (apply_registration request c) s st" "running_ok s" "exclusive (im_state s)"
  shows "exclusive st"
proof -
  obtain r t where t: "apply_registration request c (begin_tx s) = (Inr r, t)"
      "st = im_state (canonicalize (tx_impl t))"
    using assms(1) by (auto simp: wrote_def)
  have b: "tx_impl (begin_tx s) = s" by (simp add: begin_tx_def)
  have s: "tidy s" using assms(2,3) by (rule running_tidy)
  from t(1) have "exclusive (im_state (tx_impl t))"
  proof (cases rule: apply_registration_cases)
    case same
    with assms(3) b show ?thesis by simp
  next
    case (replacing i x)
    with replace_incumbent_tidy have "keeps_tidy s (tx_impl t)"
      unfolding tx_gives_def by (metis b)
    with s show ?thesis by (simp add: keeps_tidy_def tidy_def)
  next
    case registered
    from apply_registration_effect [OF t(1) this] obtain p0 q where
      "registers s request r p0 q (tx_impl t)" unfolding b by blast
    then show ?thesis
      using registers_new_exclusive [OF _ assms(2,3)] registers_known_exclusive [OF _ assms(2,3)] by blast
  qed
  then show ?thesis
    using exclusive_committed [of io_ok "tx_impl t"] t(2) by (simp add: frame_simps)
qed

section \<open>Every life without batches\<close>

fun unbatched :: "request \<Rightarrow> bool" where
  "unbatched (RegisterBatch io qs) = False"
| "unbatched _ = True"

lemma tidy_exclusive:
  assumes "tx_gives keeps_tidy body" "wrote body s st" "running_ok s" "exclusive (im_state s)"
  shows "exclusive st"
proof -
  obtain u where u: "keeps_tidy s u" "st = im_state (canonicalize u)"
    using assms(1,2) by (rule wrote_gives)
  with running_tidy [OF assms(3,4)] have "exclusive (im_state u)"
    by (simp add: keeps_tidy_def tidy_def)
  with exclusive_committed [of io_ok u] u(2) show ?thesis by (simp add: frame_simps)
qed

lemma invalidated_one: "at_most_one (invalidate_participant p)" "participant_boots (invalidate_participant p) = []"
  by (simp_all add: at_most_one_def invalidate_participant_def currents_def participant_boots_def)

lemma invalidated_id: "dp_id ` invalidate_participant ` ps = dp_id ` ps"
  by (simp add: image_image invalidate_participant_def)

lemma exclusive_entered:
  assumes "epoch_entered st invalidate u" "exclusive st"
  shows "exclusive u"
proof (cases invalidate)
  case True
  with assms have e: "st_recent_fences u = st_recent_fences st"
    "set (st_participants u) = invalidate_participant ` set (st_participants st)"
    by (simp_all add: epoch_entered_def)
  then show ?thesis
    using assms(2) unfolding exclusive_def fences_respected_def e(1) e(2) invalidated_id
    by (simp add: invalidated_one)
next
  case False
  with assms exclusive_same_sets [of u st] show ?thesis by (simp add: epoch_entered_def)
qed

interpretation exclusive: durable_invariant unbatched exclusive
proof
  show "exclusive initial_state"
    by (simp add: exclusive_def fences_respected_def initial_state_def)
  show "exclusive u" if "epoch_entered st invalidate u" "exclusive st" for st invalidate u
    using that by (rule exclusive_entered)
  show "exclusive (without_attempts st) = exclusive st" for st
    by (auto simp: exclusive_def fences_respected_def at_most_one_def image_image)
  fix q s st assume q: "unbatched q" "running_ok s" "exclusive (im_state s)" "enters q s st"
  show "exclusive st"
  proof (cases q)
    case (Register io x)
    with q registration_exclusive show ?thesis by simp
  next
    case (RegisterBatch io xs)
    with q(1) show ?thesis by simp
  next
    case (Fence io x)
    with q tidy_exclusive [OF fence_body_tidy] show ?thesis by simp
  next
    case (Grant env x)
    with q tidy_exclusive [OF apply_grant_tidy] show ?thesis by simp
  next
    case (Revoke io x)
    with q tidy_exclusive [OF apply_revoke_tidy] show ?thesis by simp
  next
    case (Retire io x)
    with q tidy_exclusive [OF apply_retire_tidy] show ?thesis by simp
  next
    case (Advance env x)
    with q(3,4) exclusive_entered [OF move_epoch_wrote] show ?thesis by auto
  next
    case (Bind b)
    with q(4) show ?thesis by simp
  next
    case (Close io sid reason)
    with q(3,4) tidy_exclusive [OF record_fence_tidy] show ?thesis by auto
  next
    case (Flush io)
    with q(4) show ?thesis by simp
  qed
qed

section \<open>One incarnation acts\<close>

lemma demo_guarded:
  obtains s where "guarded_lives unbatched (Stopped empty_disk) (Running s)" "at_state s state4"
proof -
  obtain s1 where s1: "open_runtime demo_env demo_options empty_disk = (Inr s1, im_disk s1)"
      "at_state s1 state1"
    using open_demo by blast
  obtain r s2 where r: "register_participant io_ok register_request s1 = (Inr r, s2)" "at_state s2 state2"
    using register_demo [OF s1(2)] by blast
  obtain g s4 where g: "grant_authority demo_env grant_request s2 = (Inr g, s4)" "at_state s4 state4"
    using grant_demo [OF r(2)] by blast
  have "guarded_step unbatched (Stopped empty_disk) (Running s1)"
    using s1(1) by (rule guarded_step.start)
  moreover have "guarded_step unbatched (Running s1) (Running s2)"
    using r(1) by (intro guarded_step.serve [of _ "Register io_ok register_request"]) (simp_all add: outcome_of_def)
  moreover have "guarded_step unbatched (Running s2) (Running s4)"
    using g(1) by (intro guarded_step.serve [of _ "Grant demo_env grant_request"]) (simp_all add: outcome_of_def)
  ultimately show thesis
    using that [OF _ g(2)] by (meson r_into_rtranclp rtranclp_trans)
qed

text \<open>
  C3. A participant of the single-incarnation policy has one voice: in every state of every life that began on an empty store,
  in which registrations are not batched and every request that threw left the records in memory as they were before it (or
  was the last before the process ended), all requests that validate on its behalf, by token or through any grant it owns,
  come from the same boot and the same incarnation. (A batch can break this: it knows a boot that it has fenced itself only
  from the bounded list of the participant, and may register it again.)
\<close>

theorem one_incarnation_acts:
  assumes "guarded_lives unbatched (Stopped d) (Running s)" "image_file d = None"
    and "p \<in> set (im_participants s)" "dp_policy p = IncarnationPolicy.SingleIncarnation"
    and "av_authorized (validate_authority s request)" "acting_participant s request = Some (dp_id p)"
    and "av_authorized (validate_authority s request')" "acting_participant s request' = Some (dp_id p)"
  shows "tok_boot (va_token request) = tok_boot (va_token request') \<and>
    tok_incarnation (va_token request) = tok_incarnation (va_token request')"
proof -
  from exclusive.born_keeps [OF assms(1,2)] have ok: "running_ok s" and "exclusive (im_state s)" by simp_all
  then have "at_most_one p" using assms(3) by (simp add: exclusive_def)
  moreover have "(tok_boot (va_token q), tok_incarnation (va_token q)) \<in> set (currents p)"
    if "av_authorized (validate_authority s q)" "acting_participant s q = Some (dp_id p)" for q
    using authorized_current [OF ok that(1)] that(2) currents_of [OF ok assms(3)] by simp
  ultimately show ?thesis
    using assms(4-8) unfolding at_most_one_def by (metis prod.inject)
qed

theorem one_incarnation_acts_witness:
  "\<exists>s. av_authorized (validate_authority s token_request) \<and> av_authorized (validate_authority s granted_request) \<and>
     tok_boot (va_token token_request) = tok_boot (va_token granted_request)"
proof -
  obtain s where s: "guarded_lives unbatched (Stopped empty_disk) (Running s)" "at_state s state4"
    by (rule demo_guarded)
  note ok = at_stateD(1) [OF s(2)]
  note st = state4_grants [OF s(2)]
  have p: "worker3 \<in> set (im_participants s)" "dp_policy worker3 = IncarnationPolicy.SingleIncarnation"
    using st(3) by (simp_all add: worker3_def worker1_def)
  have token: "av_authorized (validate_authority s token_request)"
  proof -
    have "st_current_epoch (im_state s) = MonotonicCounter 1" "\<not> dp_retired worker3" "dp_scopes worker3 = ScopeSet [north]"
      using at_stateD(2) [OF s(2)] by (simp_all add: state4_def state2_def state1_def worker3_def worker1_def)
    then show ?thesis
      using validate_plain_iff [OF ok, of token_request] st(3,4,10) north_member
      by (simp add: generation_expected_def)
  qed
  have acts: "acting_participant s token_request = Some (dp_id worker3)"
    "acting_participant s granted_request = Some (dp_id worker3)"
    using st by (simp_all add: acting_participant_def)
  from one_incarnation_acts [OF s(1) _ p token acts(1) state4_authorizes [OF s(2)] acts(2)] show ?thesis
    using token state4_authorizes [OF s(2)] by (intro exI [of _ s]) (simp add: empty_disk_def)
qed

end
