(* ===== verification/Retry.thy ===== *)
theory Retry
  imports Exclusive
begin

text \<open>
  Retrying a registration: once a registration has been accepted, sending the same request again is answered from the
  record of the first, and changes nothing.
\<close>

section \<open>What an accepted registration remembers\<close>

definition remembered :: "DurableState \<Rightarrow> RegisterParticipantRequest \<Rightarrow> RegistrationResult \<Rightarrow> bool" where
  "remembered st request r \<longleftrightarrow>
     (\<exists>q \<in> set (st_participants st). \<exists>digest g n.
        dp_id q = rp_participant request \<and> register_digest request = Inr digest \<and>
        rr_generation r = Some g \<and> rr_incarnation r = Some n \<and>
        registration_record request digest g n \<in> set (dp_idempotency q))"

lemma apply_registration_remembers:
  assumes "apply_registration request c t = (Inr r, t')" "indexes_match (tx_impl t)"
    and "rr_outcome r = RegistrationOutcome.Registered" "\<not> rr_replayed r"
  shows "remembered (im_state (tx_impl t')) request r"
proof -
  let ?s = "tx_impl t" and ?pid = "rp_participant request"
  from apply_registration_registered [OF assms(1,3,4)] obtain digest found t1 where
    a: "register_digest request = Inr digest" "find_participant ?s ?pid = found"
    "case found of None \<Rightarrow> t1 = t
     | Some i \<Rightarrow> registration_decision ?s request digest i = None \<and> replace_incumbent request i t = (Inr None, t1)"
    "accept_registration request c digest found t1 = (Inr r, t')" by blast
  show ?thesis
  proof (cases found)
    case None
    from accept_registration_effect [OF a(4)] None show ?thesis
      using a(1) by (force simp: remembered_def issued_def fresh_participant_def)
  next
    case (Some i)
    with a(2,3) have i: "find_participant ?s ?pid = Some i" "replace_incumbent request i t = (Inr None, t1)"
      by simp_all
    have len: "i < length (im_participants ?s)" using i(1) by (rule find_participant_less)
    from replace_incumbent_effect [OF i(2,1)] obtain p0 where
      p0: "im_participants (tx_impl t1) = (im_participants ?s)[i := p0]" "replaced ?s ?pid (participant_at ?s i) p0"
      by blast
    have id: "dp_id p0 = ?pid"
      using replaced_fields(1) [OF p0(2)] find_participant_correct [OF assms(2) i(1)] by (simp add: participant_at_def)
    from accept_registration_effect [OF a(4)] len obtain q g n where
      q: "rr_incarnation r = Some n" "rr_generation r = Some g" "issued request n g p0 q"
      "im_participants (tx_impl t') = (im_participants ?s)[i := q]"
      "registration_record request digest g n \<in> set (dp_idempotency q)"
      by (auto simp: Some p0(1) participant_at_def)
    have "q \<in> set (im_participants (tx_impl t'))" using len by (simp add: q(4) set_update_memI)
    moreover have "dp_id q = ?pid" using q(3) id by (simp add: issued_def)
    ultimately show ?thesis using a(1) q by (auto simp: remembered_def)
  qed
qed

lemma register_participant_remembers:
  assumes "running_ok s" "register_participant io request s = (Inr r, s')"
    and "rr_outcome r = RegistrationOutcome.Registered" "\<not> rr_replayed r"
  shows "remembered (im_state s') request r" "im_options s' = im_options s" "registration_screen s request = None"
    "saved s'"
proof -
  have b: "tx_impl (begin_tx s) = s" "\<not> tx_mutated (begin_tx s)" by (simp_all add: begin_tx_def)
  have im: "indexes_match s" using assms(1) by (simp add: running_ok_def)
  have "remembered (im_state s') request r \<and> im_options s' = im_options s \<and> registration_screen s request = None \<and> saved s'"
    using apply_registration_quiet assms(2) [unfolded register_participant_def]
  proof (cases rule: run_tx_returns)
    case 1
    from apply_registration_registered [OF 1(2) assms(3,4)] accept_registration_marked b(2)
    show ?thesis by blast
  next
    case (2 t)
    have "remembered (im_state (tx_impl t)) request r"
      using apply_registration_remembers [OF 2(1) _ assms(3,4)] im by (simp add: b)
    moreover have "im_options (tx_impl t) = im_options s"
      using apply_registration_progress [of request True] 2(1) b(1)
      unfolding tx_keeps_def progress_def by (metis snd_conv)
    moreover have "registration_screen s request = None"
      using apply_registration_registered [OF 2(1) assms(3,4)] b(1) by auto
    ultimately show ?thesis
      using 2(4) unfolding 2(3) remembered_def committed_participants by (simp add: frame_simps)
  qed
  then show "remembered (im_state s') request r" "im_options s' = im_options s" "registration_screen s request = None"
    "saved s'"
    by simp_all
qed

section \<open>The retry\<close>

lemma screens_same:
  "registration_shape opts st request = None \<longleftrightarrow> registration_shape opts st' request = None"
  "registration_scopes opts st request = None \<longleftrightarrow> registration_scopes opts st' request = None"
  by (auto simp: registration_shape_def registration_scopes_def split: if_splits)

lemma registered_code [simp]: "registration_outcome_of_code 0 = RegistrationOutcome.Registered"
  by code_simp

lemma find_attempt_distinct:
  "distinct (map ir_attempt xs) \<Longrightarrow> x \<in> set xs \<Longrightarrow> find_attempt xs (ir_attempt x) = Some x"
  by (induction xs) (auto simp: find_attempt_def rev_image_eqI)

lemma retry_replays:
  assumes "running_ok s" "saved s" "remembered (im_state s) request r" "registration_screen s request = None"
    and "rr_incarnation r \<noteq> Some (MonotonicCounter 0)"
  shows "\<exists>r'. register_participant io request s = (Inr r', s) \<and> rr_replayed r' \<and>
    rr_outcome r' = RegistrationOutcome.Registered \<and> rr_incarnation r' = rr_incarnation r \<and>
    rr_generation r' = rr_generation r"
proof -
  obtain q digest g n where q: "q \<in> set (im_participants s)" "dp_id q = rp_participant request"
    "register_digest request = Inr digest" "rr_generation r = Some g" "rr_incarnation r = Some n"
    "registration_record request digest g n \<in> set (dp_idempotency q)"
    using assms(3) by (auto simp: remembered_def)
  obtain i where i: "find_participant s (rp_participant request) = Some i" "participant_at s i = q"
    using find_participant_unique [OF assms(1) q(1)] q(2) by metis
  have "distinct (map ir_attempt (dp_idempotency q))"
    using wf_saved [OF assms(1,2) q(1)] by (simp add: participant_wf_def)
  then have found: "find_attempt (dp_idempotency q) (rp_attempt request) = Some (registration_record request digest g n)"
    using find_attempt_distinct [OF _ q(6)] by (simp add: registration_record_def)
  let ?r = "registration_replay (im_state s) request digest (registration_record request digest g n)"
  have "registration_decision s request digest i = Some ?r"
    by (simp add: registration_decision_def Let_def i(2) found)
  then have "apply_registration request True (begin_tx s) = (Inr ?r, begin_tx s)"
    using assms(4) q(3) i(1) by (simp add: apply_registration_def tx_simps begin_tx_def)
  then have "tx_bind (apply_registration request True) (persist_if_mutated io) (begin_tx s) = (Inr ?r, begin_tx s)"
    by (simp add: tx_bind_def persist_if_mutated_def tx_basic begin_tx_def)
  then have "register_participant io request s = (Inr ?r, s)"
    by (simp add: register_participant_def run_tx_def end_tx_def undo_rollback_def begin_tx_def)
  moreover have "counter_value n \<noteq> 0" using assms(5) q(5) by (cases n) auto
  ultimately show ?thesis
    using q(4,5) by (simp add: registration_replay_def registration_record_def registration_result_def Let_def)
qed

lemma issued_incarnation_positive:
  assumes "registers s request r p0 q s'" "running_ok s"
  shows "rr_incarnation r \<noteq> Some (MonotonicCounter 0)"
proof -
  have r: "rr_incarnation r = Some (dp_next_incarnation p0)"
    using assms(1) by (auto simp: registers_def issued_def)
  have "dp_next_incarnation p0 \<noteq> MonotonicCounter 0"
  proof (cases "find_participant s (rp_participant request)")
    case None
    with assms(1) show ?thesis by (simp add: registers_def fresh_participant_def)
  next
    case (Some i)
    have "participant_at s i \<in> set (im_participants s)"
      using find_participant_less [OF Some] by (simp add: participant_at_def)
    then have "dp_incarnation_floor (participant_at s i) < dp_next_incarnation (participant_at s i)"
      using wf_participant [OF assms(2)] by (simp add: participant_wf_def)
    then have "dp_next_incarnation (participant_at s i) \<noteq> MonotonicCounter 0"
      by (auto simp: counter_less_iff counter_nat_def)
    then show ?thesis using assms(1) Some replaced_fields(2) by (auto simp: registers_def)
  qed
  then show ?thesis by (simp add: r)
qed

lemma retry_screened:
  assumes "registers s request r p0 q s'" "running_ok s" "running_ok s'" "exclusive (im_state s')"
    and "registration_screen s request = None" "im_options s' = im_options s"
  shows "registration_screen s' request = None"
proof -
  from registers_current [OF assms(1,2)] obtain n where
    q: "q \<in> set (im_participants s')" "dp_id q = rp_participant request" "\<not> dp_retired q"
      "(rp_boot request, n) \<in> set (currents q)" by blast
  obtain i where i: "find_participant s' (rp_participant request) = Some i" "participant_at s' i = q"
    using find_participant_unique [OF assms(3) q(1)] q(2) by metis
  have "rp_boot request \<in> set (participant_boots q)"
    using q(4) by (force simp: currents_def participant_boots_def split: if_splits)
  then have "\<not> fl_fenced (lookup_fence s' (rp_participant request) (rp_boot request))"
    using live_boot_not_fenced [OF assms(3) _ q(1)] assms(4) q(2) by (simp add: exclusive_def)
  with q(3) i have "registration_known s' request i = None"
    by (simp add: registration_known_def Let_def)
  moreover have "registration_epoch (im_state s') request = None"
    using assms(1) by (simp add: registration_epoch_def registers_def)
  moreover have "registration_shape (im_options s) (im_state s') request = None"
    "registration_scopes (im_options s) (im_state s') request = None"
    using assms(5) screens_same [of "im_options s" "im_state s" request "im_state s'"]
    by (auto simp: registration_screen_def split: option.splits)
  ultimately show ?thesis
    using assms(6) i(1) by (simp add: registration_screen_def)
qed

text \<open>
  C17. A registration may be repeated at once: in every state of a life that began on an empty store, without batched
  registrations and in which every request that threw left the records in memory as they were before it (or was the last
  before the process ended), sending an accepted registration again before anything else happens is answered from the record of the first, with the same
  outcome, incarnation and generation; nothing is issued, nobody is fenced, and neither memory nor disk changes. (Later the answer
  may be another: the screen of a registration comes before the records of attempts, and refuses it when the epoch has
  changed, the boot has been fenced or the participant retired; and the record may have left its bounded table.)
\<close>

theorem registration_idempotent:
  assumes "guarded_lives unbatched (Stopped d) (Running s)" "image_file d = None"
    and "register_participant io request s = (Inr r, s')"
    and "rr_outcome r = RegistrationOutcome.Registered" "\<not> rr_replayed r"
  shows "\<exists>r'. register_participant io' request s' = (Inr r', s') \<and> rr_replayed r' \<and>
    rr_outcome r' = RegistrationOutcome.Registered \<and> rr_incarnation r' = rr_incarnation r \<and>
    rr_generation r' = rr_generation r"
proof -
  have ok: "running_ok s" using exclusive.born_keeps [OF assms(1,2)] by simp
  have "guarded_step unbatched (Running s) (Running s')"
    using assms(3) by (intro guarded_step.serve [of _ "Register io request"]) (simp_all add: outcome_of_def)
  with assms(1) have "guarded_lives unbatched (Stopped d) (Running s')" by (rule rtranclp.rtrancl_into_rtrancl)
  from exclusive.born_keeps [OF this assms(2)] have ok': "running_ok s'" "exclusive (im_state s')" by simp_all
  obtain p0 q where reg: "registers s request r p0 q s'"
    using register_participant_effect [OF ok assms(3-5)] by blast
  note kept = register_participant_remembers [OF ok assms(3-5)]
  have "registration_screen s' request = None"
    using reg ok ok' kept(3,2) by (rule retry_screened)
  with ok'(1) kept(4,1) issued_incarnation_positive [OF reg ok] show ?thesis
    by (intro retry_replays)
qed

theorem registration_idempotent_witness:
  "\<exists>s r s' r'. register_participant io_ok register_request s = (Inr r, s') \<and> \<not> rr_replayed r \<and>
     register_participant io_ok register_request s' = (Inr r', s') \<and> rr_replayed r'"
proof -
  obtain s1 where s1: "open_runtime demo_env demo_options empty_disk = (Inr s1, im_disk s1)" "at_state s1 state1"
    using open_demo by blast
  obtain r s2 where r: "register_participant io_ok register_request s1 = (Inr r, s2)"
      "rr_outcome r = RegistrationOutcome.Registered" "\<not> rr_replayed r"
    using register_demo [OF s1(2)] by blast
  have "guarded_lives unbatched (Stopped empty_disk) (Running s1)"
    using s1(1) by (blast intro: guarded_step.start)
  from registration_idempotent [OF this _ r, of io_ok] obtain r' where
    "register_participant io_ok register_request s2 = (Inr r', s2)" "rr_replayed r'"
    by (auto simp: empty_disk_def)
  then show ?thesis using r(1,3) by blast
qed

end
