(* ===== verification/Connections.thy ===== *)
theory Connections
  imports Answers Retry
begin

text \<open>
  What the end of a connection does. The worker whose session is lost has no authority afterwards; and an
  answer that cannot be encoded ends the connection, so that a registration which is already durable is
  answered by an error and undone by a fence.
\<close>

section \<open>Losing a session\<close>

lemma find_participant_erased [simp]: "find_participant (erase_session sid s) pid = find_participant s pid"
  using erase_session_tables [of sid s] by (force simp: find_participant_def split: option.split)

lemma erase_session_state [simp]:
  "im_state (erase_session sid s) = im_state s" "im_options (erase_session sid s) = im_options s"
  "running_ok s \<Longrightarrow> running_ok (erase_session sid s)"
  using erase_session_tables [of sid s] session_tables_ok(1) [of s] by auto

lemma fenced_boot_gone:
  assumes "running_ok s" "run_tx io (record_fence pid boot reason text False) s = (Inr r, s')"
    and "find_participant s pid = Some i" "\<not> fl_fenced (lookup_fence s pid boot)"
    and "find_incarnation (participant_at s i) boot = Some seq"
  shows "\<not> current (im_state s') pid boot n \<and> fo_outcome r = FenceOutcome.Fenced"
proof -
  have b: "tx_impl (begin_tx s) = s" "\<not> tx_mutated (begin_tx s)" by (simp_all add: begin_tx_def)
  have body: "live_fence i pid boot seq reason text (begin_tx s) = (Inr r, t)"
    if "record_fence pid boot reason text False (begin_tx s) = (Inr r, t)" for t
    using that assms(3-5) by (simp add: record_fence_def tx_simps Let_def b)
  have p: "i < length (im_participants s)" "participant_at s i \<in> set (im_participants s)"
    using find_participant_less [OF assms(3)] by (simp_all add: participant_at_def)
  have distinct: "distinct (participant_boots (participant_at s i))"
    using wf_participant [OF assms(1) p(2)] by (simp add: participant_wf_def)
  from record_fence_quiet assms(2) show ?thesis
  proof (cases rule: run_tx_returns)
    case 1
    with body [OF 1(2)] b(2) live_fence_marks show ?thesis unfolding tx_marks_def by blast
  next
    case (2 t)
    note effect = live_fence_effect [OF body [OF 2(1)]]
    have out: "fo_outcome r = FenceOutcome.Fenced" using effect p(1) b(1) by auto
    from record_fence_effect [OF 2(1) out] obtain g q where
      q: "im_participants (tx_impl t) = (im_participants s)[i := q]" "fence_effect s pid boot g (participant_at s i) q"
      using assms(3) unfolding b(1) by auto
    have "set (im_participants s') = set ((im_participants s)[i := q])"
      using 2(3) q(1) committed_participants by simp
    then have "record_replaced s pid (participant_at s i) q s'"
      using fence_effect_fields [OF q(2)] by (intro record_replaced_update [OF assms(1,3)]) simp_all
    then show ?thesis
      using fence_effect_currents [OF q(2) distinct] out by (simp add: record_replaced_current)
  qed
qed

text \<open>
  C29. Losing a session ends the authority of its worker, when the option \<open>fence_on_session_loss\<close> is set (the default) and
  the boot of the worker is not already reported as fenced: once \<open>close_session\<close> has returned for a session that was bound,
  no incarnation of its boot is current, whatever the reason the connection ended for. (With the option cleared the
  incarnation stays current by design. A boot that is current and reported fenced would be left as it is;
  \<open>live_boot_not_fenced\<close> shows that there is none where no boot is both live and fenced.)
\<close>

theorem session_loss_ends_authority:
  assumes "running_ok s" "close_session io sid reason s = (Inr r, s')"
    and "map_of (im_session_index s) (id_to_string sid) = Some b"
    and "op_fence_on_session_loss (im_options s)"
    and "\<not> fl_fenced (lookup_fence s (sb_participant b) (sb_boot b))"
  shows "\<not> current (im_state s') (sb_participant b) (sb_boot b) n"
proof (cases "find_participant s (sb_participant b)")
  case None
  then have "\<not> current (im_state s) (sb_participant b) (sb_boot b) n"
    using find_participant_unique [OF assms(1)] by (metis current_def option.distinct(1))
  then show ?thesis
    using assms(2-4) None by (auto simp: close_session_def Let_def)
next
  case (Some i)
  let ?s = "erase_session sid s"
  have p: "participant_at ?s i = participant_at s i" by (simp add: participant_at_def)
  have "dp_id (participant_at s i) = sb_participant b" "participant_at s i \<in> set (im_participants s)"
    using find_participant_correct [OF _ Some] assms(1) by (auto simp: running_ok_def participant_at_def)
  then have cur: "current (im_state s) (sb_participant b) (sb_boot b) n \<longleftrightarrow>
      find_incarnation (participant_at s i) (sb_boot b) = Some n"
    using currents_of [OF assms(1), of "participant_at s i" "sb_boot b" n] wf_participant [OF assms(1)]
    by (auto simp: find_incarnation_iff participant_wf_def)
  show ?thesis
  proof (cases "find_incarnation (participant_at s i) (sb_boot b)")
    case None
    then show ?thesis
      using assms(2-4) Some p cur by (auto simp: close_session_def Let_def)
  next
    case (Some seq)
    have "lookup_fence ?s (sb_participant b) (sb_boot b) = lookup_fence s (sb_participant b) (sb_boot b)"
    proof -
      obtain x y where "?s = s\<lparr> im_session_index := x, im_boot_session_index := y \<rparr>"
        using erase_session_tables by blast
      then show ?thesis
        by (simp only:) (simp add: lookup_fence_def find_participant_def participant_at_def find_fence_record_def
            Let_def cong: option.case_cong)
    qed
    moreover have "run_tx io (record_fence (sb_participant b) (sb_boot b) (fence_reason_for reason) empty_text False) ?s =
        (Inr r, s')"
      using assms(2-4) Some \<open>find_participant s (sb_participant b) = Some i\<close> p
      by (simp add: close_session_def Let_def)
    ultimately show ?thesis
      using fenced_boot_gone [of ?s io "sb_participant b" "sb_boot b"] assms(1,5) Some p
        \<open>find_participant s (sb_participant b) = Some i\<close> by simp
  qed
qed

section \<open>An answer that does not fit\<close>

lemma accepted_explains:
  assumes "accept_registration request c digest found t = (Inr r, t')"
  shows "(''scopes'', scope_set_to_string (rp_scopes request)) \<in> set (ex_details (rr_explanation r))"
proof -
  obtain i t0 where "issue_registration request c digest i t0 = (Inr r, t')"
    using assms by (cases found) (auto simp: accept_registration_def open_record_def Let_def tx_simps)
  from issue_registration_shape [OF this] show ?thesis
    by (auto simp: registration_accepted_def registration_result_def explain_details)
qed

lemma registered_explains:
  assumes "register_participant io request s = (Inr r, s')"
    and "rr_outcome r = RegistrationOutcome.Registered" "\<not> rr_replayed r"
  shows "(''scopes'', scope_set_to_string (rp_scopes request)) \<in> set (ex_details (rr_explanation r))"
  using apply_registration_quiet assms(1) [unfolded register_participant_def]
proof (cases rule: run_tx_returns)
  case 1
  from apply_registration_registered [OF 1(2) assms(2,3)] accepted_explains show ?thesis by blast
next
  case (2 t)
  from apply_registration_registered [OF 2(1) assms(2,3)] accepted_explains show ?thesis by blast
qed

lemma long_detail_refused:
  assumes "d \<in> set (ex_details e)" "max_string_size limits < length (snd d)"
  shows "isl (w_explanation limits e)"
proof -
  have "isl (w_detail limits d)"
    using assms(2) by (cases d) (simp add: w_detail_def)
  then have "isl (w_each (w_detail limits) (ex_details e))"
    using assms(1) w_each_ok [of "w_detail limits" "ex_details e"] by blast
  then show ?thesis
    by (auto simp: w_explanation_def w_seq.simps res_bind_def split: sum.splits)
qed

text \<open>Nothing is sent, or one error frame.\<close>

definition only_error :: "serving \<Rightarrow> serving \<Rightarrow> bool" where
  "only_error c c' \<longleftrightarrow>
     sv_sent c' = sv_sent c \<or>
     (\<exists>sequence epoch rid payload bytes.
        encode_frame MessageType.Error sequence epoch rid payload (sv_limits c) = Inr bytes \<and> sv_sent c' = sv_sent c @ [bytes])"

lemma write_error_sends: "only_error c (snd (write_error turn epoch rid code message c))"
  by (auto simp: only_error_def write_error_def a_bind_def a_lift_def write_frame_def Let_def split: sum.splits option.splits)

lemma refuse_sends:
  "only_error c (snd (refuse turn epoch rid code message c))" "fst (refuse turn epoch rid code message c) = Inr Break"
proof -
  show "fst (refuse turn epoch rid code message c) = Inr Break"
    by (simp add: refuse_def write_error_def a_bind_def split: prod.split)
  have "only_error (c\<lparr> ss_violation := True \<rparr>) (snd (refuse turn epoch rid code message c))"
    using write_error_sends [of "c\<lparr> ss_violation := True \<rparr>" turn epoch rid code message]
    by (auto simp: refuse_def a_bind_def split: prod.split sum.split)
  then show "only_error c (snd (refuse turn epoch rid code message c))" by (simp add: only_error_def)
qed

lemma handle_register_unanswered:
  assumes "isl (encode_register_result r (sv_limits c))" "\<not> ss_bound c"
    and "decode_register_request payload (sv_limits c) = Inr wire"
    and "register_participant (en_io (tu_env turn)) (rw_request wire) (tu_others turn (sv_runtime c)) = (Inr r, s)"
  shows "fst (handle_register turn epoch rid payload c) \<noteq> Inr Continue \<and>
    only_error c (snd (handle_register turn epoch rid payload c))"
proof -
  let ?c = "c\<lparr> sv_runtime := s \<rparr>"
  let ?b = "session_candidate (ss_id c) (rw_request wire) r"
  obtain e where e: "encode_register_result r (sv_limits c) = Inl e"
    using assms(1) by (cases "encode_register_result r (sv_limits c)") auto
  have silent: "answer turn type ep rid' (encode_register_result r (sv_limits c)) d = (Inl e, d)" for type ep rid' d
    by (simp add: answer_def e)
  have register: "a_call turn (register_participant (en_io (tu_env turn)) (rw_request wire)) c = (Inr r, ?c)"
    using assms(4) by (simp add: a_call_def)
  obtain q u where bind: "a_call turn (bind_session ?b) ?c = (q, u)"
    by (cases "a_call turn (bind_session ?b) ?c")
  have u: "sv_sent u = sv_sent c" "sv_limits u = sv_limits c"
    using bind by (auto simp: a_call_def Let_def split: prod.splits)
  have same: "only_error c d" if "sv_sent d = sv_sent c" for d using that by (simp add: only_error_def)
  have refused: "only_error c (snd (refuse turn epoch rid code message d))" "fst (refuse turn epoch rid code message d) = Inr Break"
    if "sv_sent d = sv_sent c" "sv_limits d = sv_limits c" for code message d
    using refuse_sends [where c = d and turn = turn and epoch = epoch and rid = rid and code = code and message = message] that by (simp_all add: only_error_def)
  show ?thesis
    using assms(2,3) bind u
    by (cases q) (simp_all add: handle_register_def Let_def
        a_bind_Inr [of "a_call turn _" c, OF register] a_bind_def [of "a_call turn (bind_session ?b)"]
        a_bind_def [of "answer turn ty ep rid' w" for ty ep rid' w] silent refused same)
qed

text \<open>
  C35. A registration whose scopes are too long in words cannot be acknowledged: the explanation of the result quotes the
  scope set, and the encoder refuses a detail longer than \<open>max_string_size\<close>. The frame is handled without sending an
  acknowledgement: nothing is sent, or an error frame, and the loop of the connection ends. But the registration has taken
  effect: its incarnation is current, and the image on disk is of the state that has it.
\<close>

theorem registration_unacknowledged:
  assumes "running_ok s" "tu_others turn (tu_others turn (sv_runtime c)) = s"
    and "ss_hello c" "\<not> ss_bound c" "fh_type (fm_header f) = MessageType.RegisterParticipant"
    and "decode_register_request (fm_payload f) (sv_limits c) = Inr wire"
    and "register_participant (en_io (tu_env turn)) (rw_request wire) s = (Inr r, s')"
    and "rr_outcome r = RegistrationOutcome.Registered" "\<not> rr_replayed r"
    and "max_string_size (sv_limits c) < length (scope_set_to_string (rp_scopes (rw_request wire)))"
  shows "fst (handle_frame turn f c) \<noteq> Inr Continue \<and> only_error c (snd (handle_frame turn f c)) \<and>
    (\<exists>n. current (im_state s') (rp_participant (rw_request wire)) (rp_boot (rw_request wire)) n) \<and>
    (\<exists>img. store_encode (im_state s') = Inr img \<and> image_file (im_disk s') = Some img)"
proof -
  let ?c = "c\<lparr> sv_runtime := tu_others turn (sv_runtime c) \<rparr>"
  have "isl (w_explanation (sv_limits c) (rr_explanation r))"
    using long_detail_refused [OF registered_explains [OF assms(7-9)]] assms(10) by simp
  then have "isl (encode_register_result r (sv_limits ?c))"
    by (auto simp: encode_register_result_def w_seq.simps res_bind_def split: sum.splits)
  then have "fst (handle_register turn epoch rid (fm_payload f) ?c) \<noteq> Inr Continue \<and>
      only_error ?c (snd (handle_register turn epoch rid (fm_payload f) ?c))" for epoch rid
    by (rule handle_register_unanswered) (use assms(2,4,6,7) in simp_all)
  then have "fst (handle_frame turn f c) \<noteq> Inr Continue \<and> only_error ?c (snd (handle_frame turn f c))"
    using assms(3,5) by (simp add: handle_frame_def Let_def a_bind_def a_read_def a_call_def)
  moreover obtain p0 q where "registers s (rw_request wire) r p0 q s'"
    using register_participant_effect [OF assms(1,7-9)] by blast
  then have "\<exists>n. current (im_state s') (rp_participant (rw_request wire)) (rp_boot (rw_request wire)) n"
    using registers_current [OF _ assms(1)] by (fastforce simp: current_def)
  moreover have "saved s'" by (rule register_participant_remembers(4) [OF assms(1,7-9)])
  ultimately show ?thesis by (simp add: only_error_def saved_def)
qed

section \<open>A worker with two long scopes\<close>

definition wide_scopes :: ScopeSet where
  "wide_scopes = ScopeSet [AuthorityScope ScopeKind.Site (replicate 128 CHR ''a''),
     AuthorityScope ScopeKind.Site (replicate 128 CHR ''b'')]"

definition wide_request :: RegisterParticipantRequest where
  "wide_request = register_request\<lparr> rp_scopes := wide_scopes \<rparr>"

definition wide_semantic :: SnapshotDigest where
  "wide_semantic = projr (register_digest wide_request)"

definition wide_worker :: DurableParticipant where
  "wide_worker = worker1\<lparr> dp_scopes := wide_scopes,
     dp_idempotency := [registration_record wide_request wide_semantic (MonotonicCounter 1) (MonotonicCounter 1)] \<rparr>"

definition wide_state :: DurableState where
  "wide_state = state2\<lparr> st_participants := [wide_worker] \<rparr>"

lemmas wide_defs = wide_state_def wide_worker_def wide_request_def wide_scopes_def state2_defs

lemma wide_valid: "validate_durable_state wide_state = Inr ()"
  by (simp add: wide_defs validity_defs)

lemma wide_writes: "writes (encode_durable_payload wide_state) 1000"
  unfolding wide_defs payload_defs
  by (rule writes_mono, simp del: w_seq.simps, (rule writes_rules | simp)+)

lemma register_wide:
  assumes "at_state s state1"
  shows "\<exists>r s'. register_participant io_ok wide_request s = (Inr r, s') \<and> at_state s' wide_state \<and>
    rr_outcome r = RegistrationOutcome.Registered \<and> \<not> rr_replayed r"
proof -
  note at = at_stateD [OF assms]
  have digest: "register_digest wide_request = Inr wide_semantic"
    unfolding wide_semantic_def register_digest_def
    by (rule digest_symbolic, unfold wide_request_def register_request_def wide_scopes_def payload_defs worker_def,
      simp del: w_seq.simps, (rule writes_rules | simp)+)
  let ?m = "apply_registration wide_request True"
  have absent: "find_participant s (rp_participant wide_request) = None"
    using at by (simp add: find_participant_search state1_def)
  have screen: "registration_screen s wide_request = None"
    using at absent
    by (simp add: registration_screen_def registration_shape_def registration_scopes_def registration_epoch_def
       wide_request_def wide_scopes_def register_request_def shape_simps worker_def state1_def)
  have limits: "registration_limits None s = None"
    using at by (simp add: registration_limits_def state1_def running_ok_def indexes_match_def
        active_worker_count_def)
  show ?thesis
    unfolding register_participant_def
  proof (rule demo_step [OF assms wide_valid wide_writes])
    show "\<exists>r t. ?m (begin_tx s) = (Inr r, t) \<and> tx_mutated t \<and> im_options (tx_impl t) = demo_options \<and>
        im_disk (tx_impl t) = im_disk s \<and> im_state (tx_impl t) = wide_state \<and>
        rr_outcome r = RegistrationOutcome.Registered \<and> \<not> rr_replayed r"
      using at absent screen digest limits
      by (simp add: apply_registration_def run_simps finish_registration_def accept_registration_def
          open_record_def issue_registration_def registration_steps state1_fields wide_state_def wide_worker_def
          wide_request_def)
  qed (simp_all add: wide_defs counter_is_zero_def)
qed

lemma wide_fits: "register_request_fits default_limits \<lparr> rw_request = wide_request, rw_session = Fixed128Id 50 \<rparr>"
proof -
  have "list_all text_char_ok ''demo''" "is_ascii_alnum CHR ''a''" "is_ascii_alnum CHR ''b''"
    "\<not> is_separator CHR ''a''" "\<not> is_separator CHR ''b''"
    "replicate 128 CHR ''a'' < replicate 128 CHR ''b''" by code_simp+
  then show ?thesis
    using demo_names_valid(1)
    by (simp add: register_request_fits_def wide_request_def register_request_def wide_scopes_def
        pid_fits_def string_fits_def worker_def text_fits_def kAbsoluteMaxBytes_def text_is_valid_def
        scope_set_fits_def scope_fits_def scope_valid_def is_valid_identifier_text_def pid_max_length_def
        kAbsoluteMaxDurableText_def kAbsoluteMaxScopesPerSet_def max_subject_length_def scope_set_canonical_def
        less_AuthorityScope_def scope_less_def list_all_iff)
qed

lemma wide_too_long: "max_string_size default_limits < length (scope_set_to_string wide_scopes)"
  by (simp add: wide_scopes_def scope_set_to_string_def scope_to_string_def
      intercalate_def)

definition wide_frame :: Frame where
  "wide_frame =
     \<lparr> fm_header = header_made MessageType.RegisterParticipant 2 1 (id_bytes (Fixed128Id 100 :: MutationAttemptId)) 0 [],
       fm_payload = projr (encode_register_request wide_request (Fixed128Id 50) default_limits) \<rparr>"

theorem registration_unacknowledged_witness:
  "\<exists>s f. fst (handle_frame quiet_turn f (demo_serving s)) \<noteq> Inr Continue \<and>
     only_error (demo_serving s) (snd (handle_frame quiet_turn f (demo_serving s))) \<and>
     (\<exists>s' r n. register_participant io_ok wide_request s = (Inr r, s') \<and> current (im_state s') worker (Fixed128Id 10) n)"
proof -
  obtain s1 where s1: "at_state s1 state1" by (rule demo_born)
  obtain r s' where r: "register_participant io_ok wide_request s1 = (Inr r, s')"
    "rr_outcome r = RegistrationOutcome.Registered" "\<not> rr_replayed r"
    using register_wide [OF s1] by blast
  let ?wire = "\<lparr> rw_request = wide_request, rw_session = Fixed128Id 50 \<rparr>"
  have decoded: "decode_register_request (fm_payload wide_frame) default_limits = Inr ?wire"
    using register_request_codec.whole_enc [OF wide_fits]
    by (simp add: decode_register_request_def wide_frame_def)
  have "fst (handle_frame quiet_turn wide_frame (demo_serving s1)) \<noteq> Inr Continue \<and>
      only_error (demo_serving s1) (snd (handle_frame quiet_turn wide_frame (demo_serving s1))) \<and>
      (\<exists>n. current (im_state s') (rp_participant (rw_request ?wire)) (rp_boot (rw_request ?wire)) n) \<and>
      (\<exists>img. store_encode (im_state s') = Inr img \<and> image_file (im_disk s') = Some img)"
    by (rule registration_unacknowledged [where s = s1 and r = r])
      (use at_stateD(1) [OF s1] decoded r wide_too_long in
        \<open>simp_all add: quiet_turn_def tu_others_def demo_serving_def wide_frame_def header_made_def wide_request_def\<close>)
  then show ?thesis
    using r(1) by (auto simp: wide_request_def register_request_def)
qed

theorem accepted_registration_typed_witness:
  "\<exists>payload w. decode_register_request payload default_limits = Inr w \<and> scope_set_canonical (rp_scopes (rw_request w))"
proof -
  have "decode_register_request (fm_payload wide_frame) default_limits =
      Inr \<lparr> rw_request = wide_request, rw_session = Fixed128Id 50 \<rparr>"
    using register_request_codec.whole_enc [OF wide_fits]
    by (simp add: decode_register_request_def wide_frame_def)
  from accepted_registration_typed [OF this] this show ?thesis by blast
qed

section \<open>The worker of the run loses its session\<close>

definition lost_fence :: FenceRecord where
  "lost_fence = fence_record state2 worker (Fixed128Id 10) FenceReason.ProcessLoss empty_text
     (MonotonicCounter 1) (MonotonicCounter 1)"

definition lost_worker :: DurableParticipant where
  "lost_worker = worker2\<lparr> dp_idempotency := dp_idempotency worker1 \<rparr>"

definition lost_state :: DurableState where
  "lost_state = state3\<lparr> st_participants := [lost_worker], st_recent_fences := [lost_fence] \<rparr>"

lemmas lost_defs = lost_state_def lost_worker_def lost_fence_def state3_defs

lemma lost_valid: "validate_durable_state lost_state = Inr ()"
  by (simp add: lost_defs validity_defs)

lemma lost_writes: "writes (encode_durable_payload lost_state) 1000"
  unfolding lost_defs payload_defs empty_text_def
  by (rule writes_mono, simp del: w_seq.simps, (rule writes_rules | simp)+)

definition demo_binding :: SessionBinding where
  "demo_binding =
     \<lparr> sb_id = Fixed128Id 50, sb_participant = worker, sb_boot = Fixed128Id 10,
       sb_incarnation = MonotonicCounter 1, sb_epoch = MonotonicCounter 1,
       sb_registration_generation = MonotonicCounter 1 \<rparr>"

lemma fence_lost:
  assumes "at_state s state2"
  shows "\<exists>r s'. run_tx io_ok (record_fence worker (Fixed128Id 10) FenceReason.ProcessLoss empty_text False) s =
      (Inr r, s') \<and> at_state s' lost_state \<and> fo_outcome r = FenceOutcome.Fenced"
proof -
  note at = at_stateD [OF assms]
  note lookups = state2_lookups [OF assms]
  show ?thesis
  proof (rule demo_step [OF assms lost_valid lost_writes])
    show "\<exists>r t. record_fence worker (Fixed128Id 10) FenceReason.ProcessLoss empty_text False (begin_tx s) = (Inr r, t) \<and>
        tx_mutated t \<and> im_options (tx_impl t) = demo_options \<and> im_disk (tx_impl t) = im_disk s \<and>
        im_state (tx_impl t) = lost_state \<and> fo_outcome r = FenceOutcome.Fenced"
      using at lookups
      by (simp add: run_simps record_fence_def live_fence_def fence_steps state2_fields
          lost_state_def lost_worker_def lost_fence_def state3_def worker2_def fence_record_def)
  qed (simp_all add: lost_defs counter_is_zero_def)
qed

theorem session_loss_ends_authority_witness:
  "\<exists>s r s'. close_session io_ok (Fixed128Id 50) SessionClosureReason.PeerDisconnect s = (Inr r, s') \<and>
     current (im_state s) worker (Fixed128Id 10) (MonotonicCounter 1) \<and>
     \<not> current (im_state s') worker (Fixed128Id 10) (MonotonicCounter 1)"
proof -
  obtain s2 where s2: "at_state s2 state2" by (rule demo_born)
  let ?s = "s2\<lparr> im_session_index := [(id_to_string (Fixed128Id 50 :: SessionId), demo_binding)],
    im_boot_session_index := [id_to_string (Fixed128Id 10 :: WorkerBootId) \<mapsto> id_to_string (Fixed128Id 50 :: SessionId)] \<rparr>"
  have s: "at_state ?s state2" "at_state (erase_session (Fixed128Id 50) ?s) state2"
    using s2 session_tables_ok(1) erase_session_tables [of "Fixed128Id 50" ?s]
    by (auto simp: at_state_def saved_def)
  obtain r s' where r: "run_tx io_ok (record_fence worker (Fixed128Id 10) FenceReason.ProcessLoss empty_text False)
      (erase_session (Fixed128Id 50) ?s) = (Inr r, s')"
    using fence_lost [OF s(2)] by blast
  have index: "im_participant_index ?s = [pid_value worker \<mapsto> 0]" "im_participants ?s = [worker1]"
    using state2_lookups(1) [OF s(1)] at_stateD(2) [OF s(1)] by (simp_all add: state2_fields)
  have closed: "close_session io_ok (Fixed128Id 50) SessionClosureReason.PeerDisconnect ?s = (Inr r, s')"
    using r index at_stateD [OF s(1)]
    by (simp add: close_session_def demo_binding_def find_participant_def participant_at_def find_incarnation_def
        erase_session_def Let_def)
  have "\<not> current (im_state s') (sb_participant demo_binding) (sb_boot demo_binding) (MonotonicCounter 1)"
    by (rule session_loss_ends_authority [OF at_stateD(1) [OF s(1)] closed])
      (use at_stateD [OF s(1)] state2_lookups(3) [OF s(1)] in \<open>simp_all add: demo_binding_def\<close>)
  then have "\<not> current (im_state s') worker (Fixed128Id 10) (MonotonicCounter 1)"
    by (simp add: demo_binding_def)
  with closed state2_authorizes(3) [OF s(1)] show ?thesis by blast
qed

section \<open>Serving\<close>

lemma a_bind_read:
  "a_bind (a_read turn g) h c =
     h (g (tu_others turn (sv_runtime c))) (c\<lparr> sv_runtime := tu_others turn (sv_runtime c) \<rparr>)"
  by (simp add: a_read_def a_call_def a_bind_def)

text \<open>
  Whatever arrives on a connection, in whatever pieces, and whatever requests the threads of other connections make
  between the calls of this one, the runtime only goes through steps of the coordinator: over the loop, the error frame that
  answers an exception, and the closing of the session, whether requests return or throw. What is shown of every life holds
  of the runtime after any connection that was served.
\<close>

theorem serving_is_a_life:
  "lives (Running (sv_runtime c)) (Running (sv_runtime (snd (serve turns ending evs c))))"
  using serves_serve unfolding act_serves_def follows_def by blast

text \<open>
  C30. No operation before the greeting: when the first frame of a connection is not HELLO, the server reads no further,
  calls no operation of the runtime, binds nothing and ends the connection as a protocol violation.
\<close>

theorem greeting_first:
  assumes "\<not> ss_hello c" "\<not> sv_stop c" "\<not> tu_stop (turns k)"
    and "server_receive (sv_limits c) evs = (Inr (Some f), rest)"
    and "fh_type (fm_header f) \<noteq> MessageType.Hello"
    and "serve_loop turns k evs c = (r, c')"
  shows "r = Inr () \<and> sv_runtime c' = tu_others (turns k) (sv_runtime c) \<and> ss_violation c' \<and>
    ss_bound c' = ss_bound c \<and> \<not> ss_hello c'"
proof -
  let ?c = "c\<lparr> sv_stop := False \<rparr>"
  let ?epoch = "current_epoch (tu_others (turns k) (sv_runtime c))"
  let ?d = "?c\<lparr> sv_runtime := tu_others (turns k) (sv_runtime c), ss_violation := True \<rparr>"
  obtain e d where w: "write_error (turns k) ?epoch (id_from_bytes (fh_request_id (fm_header f))) 1
      ''first message must be HELLO'' ?d = (e, d)"
    by (cases "write_error (turns k) ?epoch (id_from_bytes (fh_request_id (fm_header f))) 1
      ''first message must be HELLO'' ?d")
  have d: "e = Inr ()" "sv_runtime d = sv_runtime ?d" "ss_violation d" "ss_bound d = ss_bound c" "\<not> ss_hello d"
    using w assms(1)
    by (auto simp: write_error_def a_bind_def a_lift_def write_frame_def Let_def split: sum.splits prod.splits option.splits)
  have "handle_frame (turns k) f ?c = (Inr Break, d)"
    using assms(1,5) w d(1)
    by (simp add: handle_frame_def Let_def a_bind_read refuse_def a_bind_Inr [of "write_error (turns k) _ _ _ _"])
  then have "serve_loop turns k evs c = (Inr (), d)"
    using assms(2-4) by (simp add: serve_loop.simps [of turns k evs c] Let_def)
  then show ?thesis using assms(6) d by simp
qed

theorem greeting_first_witness:
  "\<exists>evs c. \<not> ss_hello c \<and> fst (serve_loop (\<lambda>_. quiet_turn) 0 evs c) = Inr () \<and>
     ss_violation (snd (serve_loop (\<lambda>_. quiet_turn) 0 evs c))"
proof -
  obtain s2 where "at_state s2 state2" by (rule demo_born)
  let ?c = "demo_serving s2\<lparr> ss_hello := False \<rparr>"
  obtain bytes where b: "encode_frame MessageType.EpochStateRequest 1 (MonotonicCounter 0) (Fixed128Id 7) []
      default_limits = Inr bytes"
    by (rule encode_frame_fits [of "[]" default_limits MessageType.EpochStateRequest]) simp_all
  obtain f rest where f: "server_receive default_limits [Bytes bytes] = (Inr (Some f), rest)"
    "fh_type (fm_header f) = MessageType.EpochStateRequest"
    by (rule receive_sent_frame [OF b, of default_limits "[Bytes bytes]" "[]"]) simp_all
  have "fst (serve_loop (\<lambda>_. quiet_turn) 0 [Bytes bytes] ?c) = Inr () \<and>
      sv_runtime (snd (serve_loop (\<lambda>_. quiet_turn) 0 [Bytes bytes] ?c)) = tu_others quiet_turn (sv_runtime ?c) \<and>
      ss_violation (snd (serve_loop (\<lambda>_. quiet_turn) 0 [Bytes bytes] ?c)) \<and>
      ss_bound (snd (serve_loop (\<lambda>_. quiet_turn) 0 [Bytes bytes] ?c)) = ss_bound ?c \<and>
      \<not> ss_hello (snd (serve_loop (\<lambda>_. quiet_turn) 0 [Bytes bytes] ?c))"
    by (rule greeting_first [OF _ _ _ _ _ surjective_pairing, where f = f and rest = rest])
      (use f in \<open>simp_all add: demo_serving_def quiet_turn_def tu_others_def\<close>)
  then show ?thesis by (intro exI [of _ "[Bytes bytes]"] exI [of _ ?c]) simp
qed

end
