(* ===== verification/Revocation.thy ===== *)
theory Revocation
  imports Scenario
begin

text \<open>
  The walk over the delegation graph. The walk of a revocation ends within the rounds that the model gives it and
  leaves no live grant below the revoked one; the walk that undoes a revocation ends only when the graph
  has no cycle.
\<close>

section \<open>The delegation graph\<close>

abbreviation grants_of :: "impl \<Rightarrow> AuthorityGrant list" where
  "grants_of s \<equiv> st_grants (im_state s)"

definition graph_ok :: "impl \<Rightarrow> bool" where
  "graph_ok s \<longleftrightarrow>
     distinct (map ag_id (grants_of s)) \<and>
     (\<forall>x k. lookup_grant s x = Some k \<longleftrightarrow> k < length (grants_of s) \<and> ag_id (grants_of s ! k) = x) \<and>
     (\<forall>x. children_ids s x = map ag_id (filter (\<lambda>g. ag_parent g = Some x) (grants_of s))) \<and>
     (\<forall>g \<in> set (grants_of s). ag_parent g \<noteq> Some (ag_id g))"

lemma running_graph:
  assumes "running_ok s"
  shows "graph_ok s"
proof -
  have "im_grant_children s = grant_children_of (grants_of s)"
    using assms by (simp add: running_ok_def indexes_match_def)
  moreover have "\<forall>g \<in> set (grants_of s). grant_wf (im_state s) g" "distinct (map ag_id (grants_of s))"
    using running_ok_wf(1) [OF assms] by (simp_all add: records_wf_iff)
  ultimately show ?thesis
    using grant_index_unique [OF assms] children_ids_search [of s] by (auto simp: graph_ok_def grant_wf_def)
qed

lemma mark_revoked_grants [simp]:
  "grants_of (mark_revoked k s) = (grants_of s)
     [k := (grants_of s ! k)\<lparr> ag_revoked := True, ag_revoked_at_epoch := st_current_epoch (im_state s) \<rparr>]"
  by (simp add: mark_revoked_def upd_grant_def upd_state_def)

lemma map_update_same: "f x = f (xs ! k) \<Longrightarrow> map f (xs[k := x]) = map f xs"
  by (cases "k < length xs") (metis list_update_id map_update nth_map, simp add: list_update_beyond)

lemma nth_update_same: "f x = f (xs ! k) \<Longrightarrow> f (xs[k := x] ! j) = f (xs ! j)"
  by (cases "k < length xs"; cases "k = j") (simp_all add: list_update_beyond)

lemma map_filter_update:
  "f x = f (xs ! k) \<Longrightarrow> P x = P (xs ! k) \<Longrightarrow> map f (filter P (xs[k := x])) = map f (filter P xs)"
proof (induction xs arbitrary: k)
  case (Cons y ys)
  then show ?case by (cases k) auto
qed simp

lemma graph_marked [simp]:
  assumes "graph_ok s"
  shows "graph_ok (mark_revoked k s)" "lookup_grant (mark_revoked k s) = lookup_grant s"
    "children_ids (mark_revoked k s) x = children_ids s x"
proof -
  let ?g = "(grants_of s ! k)\<lparr> ag_revoked := True, ag_revoked_at_epoch := st_current_epoch (im_state s) \<rparr>"
  have index: "im_grant_index (mark_revoked k s) = im_grant_index s"
    "im_grant_children (mark_revoked k s) = im_grant_children s"
    by (simp_all add: mark_revoked_def upd_grant_def upd_state_def)
  show look: "lookup_grant (mark_revoked k s) = lookup_grant s"
    by (rule ext) (simp add: lookup_grant_def index split: option.split)
  have ids: "map ag_id ((grants_of s)[k := ?g]) = map ag_id (grants_of s)"
    by (rule map_update_same) simp
  have id_at: "ag_id ((grants_of s)[k := ?g] ! j) = ag_id (grants_of s ! j)" for j
    by (rule nth_update_same) simp
  show kids: "children_ids (mark_revoked k s) x = children_ids s x" for x
    by (simp add: children_ids_def index id_at split: option.split)
  have parents: "map ag_id (filter (\<lambda>g. ag_parent g = Some x) ((grants_of s)[k := ?g])) =
      map ag_id (filter (\<lambda>g. ag_parent g = Some x) (grants_of s))" for x
    by (rule map_filter_update) simp_all
  have "ag_parent g \<noteq> Some (ag_id g)" if "g \<in> set ((grants_of s)[k := ?g])" for g
  proof (cases "k < length (grants_of s)")
    case True
    then show ?thesis
      using that assms set_update_subset_insert [of "grants_of s" k ?g] nth_mem [OF True]
      by (auto simp: graph_ok_def)
  next
    case False
    then show ?thesis using that assms by (simp add: graph_ok_def list_update_beyond)
  qed
  then show "graph_ok (mark_revoked k s)"
    using assms by (auto simp: graph_ok_def look kids ids parents id_at)
qed

section \<open>The walk ends\<close>

definition kids :: "impl \<Rightarrow> AuthorityGrantId \<Rightarrow> nat" where
  "kids s x = length (children_ids s x)"

text \<open>The children still to be pushed by grants that are not revoked yet.\<close>

definition unspent :: "impl \<Rightarrow> nat" where
  "unspent s = sum_list (map (\<lambda>g. if ag_revoked g then 0 else kids s (ag_id g)) (grants_of s))"

text \<open>Whether the root will be pushed once more.\<close>

definition root_due :: "AuthorityGrantId \<Rightarrow> impl \<Rightarrow> bool" where
  "root_due root s \<longleftrightarrow> (\<exists>g \<in> set (grants_of s). \<not> ag_revoked g \<and> root \<in> set (children_ids s (ag_id g)))"

definition walk_bound :: "AuthorityGrantId \<Rightarrow> AuthorityGrantId list \<Rightarrow> impl \<Rightarrow> nat" where
  "walk_bound root pending s =
     length pending + unspent s + kids s root * (count_list pending root + (if root_due root s then 1 else 0))"

lemma kids_marked [simp]: "graph_ok s \<Longrightarrow> kids (mark_revoked k s) x = kids s x"
  by (simp add: kids_def)

lemma unspent_marked:
  assumes "graph_ok s" "k < length (grants_of s)" "\<not> ag_revoked (grants_of s ! k)"
  shows "unspent (mark_revoked k s) + kids s (ag_id (grants_of s ! k)) = unspent s"
proof -
  let ?w = "\<lambda>g. if ag_revoked g then 0 else kids s (ag_id g)"
  let ?ws = "map ?w (grants_of s)"
  have "map ?w ((grants_of s)[k := (grants_of s ! k)
      \<lparr> ag_revoked := True, ag_revoked_at_epoch := st_current_epoch (im_state s) \<rparr>]) = ?ws[k := 0]"
    by (simp add: map_update)
  then have "unspent (mark_revoked k s) = sum_list (?ws[k := 0])"
    using assms(1) by (simp add: unspent_def cong: if_cong)
  also have "sum_list (?ws[k := 0]) + ?ws ! k = sum_list ?ws"
    using assms(2) by (simp add: sum_list_update member_le_sum_list)
  finally show ?thesis using assms(2,3) by (simp add: unspent_def)
qed

lemma children_unique:
  assumes "graph_ok s" "y \<in> set (children_ids s a)" "y \<in> set (children_ids s b)"
  shows "a = b"
proof -
  obtain g h where "g \<in> set (grants_of s)" "ag_id g = y" "ag_parent g = Some a"
    "h \<in> set (grants_of s)" "ag_id h = y" "ag_parent h = Some b"
    using assms by (auto simp: graph_ok_def)
  moreover have "inj_on ag_id (set (grants_of s))" using assms(1) by (simp add: graph_ok_def distinct_map)
  ultimately show ?thesis by (metis inj_onD option.inject)
qed

lemma count_distinct: "distinct xs \<Longrightarrow> count_list xs y = (if y \<in> set xs then 1 else 0)"
  by (induction xs) (auto simp: count_list_0_iff)

lemma children_count:
  assumes "graph_ok s"
  shows "count_list (children_ids s x) y = (if y \<in> set (children_ids s x) then 1 else 0)"
  using assms by (intro count_distinct) (simp add: graph_ok_def distinct_map_filter)

text \<open>Marking the parent of the root uses up the root's second turn.\<close>

lemma root_due_marked:
  assumes "graph_ok s" "k < length (grants_of s)" "\<not> ag_revoked (grants_of s ! k)"
  shows "root_due root (mark_revoked k s) \<Longrightarrow> root_due root s"
    "root \<in> set (children_ids s (ag_id (grants_of s ! k))) \<Longrightarrow> root_due root s \<and> \<not> root_due root (mark_revoked k s)"
proof -
  let ?g = "grants_of s ! k"
  let ?m = "?g\<lparr> ag_revoked := True, ag_revoked_at_epoch := st_current_epoch (im_state s) \<rparr>"
  have set: "set ((grants_of s)[k := ?m]) \<subseteq> insert ?m (set (grants_of s))"
    by (rule set_update_subset_insert)
  show "root_due root (mark_revoked k s) \<Longrightarrow> root_due root s"
    using set assms(1) by (auto simp: root_due_def)
  assume root: "root \<in> set (children_ids s (ag_id ?g))"
  have "?g \<in> set (grants_of s)" using assms(2) by simp
  then have "root_due root s" using assms(3) root by (auto simp: root_due_def)
  moreover have "\<not> root_due root (mark_revoked k s)"
  proof
    assume "root_due root (mark_revoked k s)"
    then obtain h where h: "h \<in> set ((grants_of s)[k := ?m])" "\<not> ag_revoked h" "root \<in> set (children_ids s (ag_id h))"
      using assms(1) by (auto simp: root_due_def)
    then have "ag_id h = ag_id ?g" using children_unique [OF assms(1) h(3) root] by simp
    obtain j where j: "j < length (grants_of s)" "h = (grants_of s)[k := ?m] ! j"
      using h(1) by (auto simp: in_set_conv_nth)
    have "j \<noteq> k" using j assms(2) h(2) by auto
    with j have "h = grants_of s ! j" by simp
    moreover have "distinct (map ag_id (grants_of s))" using assms(1) by (simp add: graph_ok_def)
    ultimately show False
      using \<open>ag_id h = ag_id ?g\<close> \<open>j \<noteq> k\<close> j(1) assms(2) nth_eq_iff_index_eq [of "map ag_id (grants_of s)" j k] by simp
  qed
  ultimately show "root_due root s \<and> \<not> root_due root (mark_revoked k s)" ..
qed

lemma lookup_graph:
  "graph_ok s \<Longrightarrow> lookup_grant s x = Some k \<Longrightarrow> k < length (grants_of s) \<and> ag_id (grants_of s ! k) = x"
  by (simp add: graph_ok_def)

lemma graph_children:
  "graph_ok s \<Longrightarrow> y \<in> set (children_ids s x) \<longleftrightarrow> (\<exists>h \<in> set (grants_of s). ag_id h = y \<and> ag_parent h = Some x)"
  unfolding graph_ok_def by (simp only:) auto

lemma graph_only:
  assumes "graph_ok s" "lookup_grant s x = k" "h \<in> set (grants_of s)" "ag_id h = x"
  shows "k \<noteq> None \<and> h = grants_of s ! the k"
proof -
  obtain i where i: "i < length (grants_of s)" "h = grants_of s ! i"
    using assms(3) unfolding in_set_conv_nth by blast
  then have "lookup_grant s x = Some i"
    using assms(1,4) unfolding graph_ok_def by blast
  then show ?thesis using assms(2) i by simp
qed

lemma bound_mark:
  assumes "graph_ok s" "lookup_grant s x = Some k" "\<not> ag_revoked (grants_of s ! k)"
  shows "walk_bound root (rev (children_ids s x) @ pending) (mark_revoked k s) < walk_bound root (x # pending) s"
proof -
  note k = lookup_graph [OF assms(1,2)]
  have u: "unspent (mark_revoked k s) + kids s x = unspent s"
    using unspent_marked [OF assms(1) _ assms(3)] k by simp
  let ?due = "\<lambda>s. if root_due root s then 1 else 0 :: nat"
  have "count_list (children_ids s x) root + ?due (mark_revoked k s) \<le> ?due s"
    using children_count [OF assms(1), of x root] root_due_marked [OF assms(1) _ assms(3)] k by auto
  then have "kids s root * (count_list (rev (children_ids s x) @ pending) root + ?due (mark_revoked k s)) \<le>
      kids s root * (count_list (x # pending) root + ?due s)"
    by (intro mult_le_mono2) (auto split: if_splits)
  moreover have "length (rev (children_ids s x) @ pending) = kids s x + length pending"
    "length (x # pending) = Suc (length pending)"
    by (simp_all add: kids_def)
  ultimately show ?thesis
    using u unfolding walk_bound_def kids_marked [OF assms(1)] by linarith
qed

lemma root_not_own_child: "graph_ok s \<Longrightarrow> x \<notin> set (children_ids s x)"
  by (auto simp: graph_ok_def)

lemma bound_root:
  assumes "graph_ok s"
  shows "walk_bound root (rev (children_ids s root) @ pending) s < walk_bound root (root # pending) s"
  using children_count [OF assms, of root root] root_not_own_child [OF assms, of root]
  by (simp add: walk_bound_def kids_def algebra_simps)

lemma bound_drop: "walk_bound root pending s < walk_bound root (x # pending) s"
  by (simp add: walk_bound_def)

lemma walk_ends:
  "graph_ok s \<Longrightarrow> walk_bound root pending s \<le> fuel \<Longrightarrow> fst (revoke_walk fuel root pending n s) = []"
proof (induction fuel root pending n s rule: revoke_walk.induct)
  case (2 root x pending n s)
  then show ?case by (simp add: walk_bound_def)
next
  case (3 fuel root x pending n s)
  have drop: "walk_bound root pending s \<le> fuel"
    using 3(6) bound_drop [of root pending s x] by simp
  show ?case
  proof (cases "lookup_grant s x")
    case None
    then show ?thesis using 3(1) [OF None 3(5) drop] by simp
  next
    case (Some k)
    show ?thesis
    proof (cases "ag_revoked (grants_of s ! k)")
      case False
      have "walk_bound root (rev (children_ids s x) @ pending) (mark_revoked k s) \<le> fuel"
        using bound_mark [OF 3(5) Some False, of root pending] 3(6) by simp
      then show ?thesis using 3(3) [OF Some refl _ _ graph_marked(1) [OF 3(5)]] Some False by simp
    next
      case True
      show ?thesis
      proof (cases "x = root")
        case True
        have "walk_bound root (rev (children_ids s root) @ pending) s \<le> fuel"
          using bound_root [OF 3(5), of root pending] 3(6) True by simp
        then show ?thesis
          using 3(4) [OF Some refl _ _ 3(5)] Some True \<open>ag_revoked (grants_of s ! k)\<close> by simp
      next
        case False
        then show ?thesis
          using 3(2) [OF Some refl _ 3(5) drop] Some \<open>ag_revoked (grants_of s ! k)\<close> by simp
      qed
    qed
  qed
qed simp

text \<open>The rounds that the model gives the walk are enough.\<close>

lemma children_total:
  assumes "graph_ok s"
  shows "sum_list (map (\<lambda>g. kids s (ag_id g)) (grants_of s)) \<le> length (grants_of s)"
proof -
  let ?gs = "grants_of s"
  have "sum_list (map (\<lambda>g. length (filter (\<lambda>h. ag_parent h = Some (ag_id g)) hs)) gs) \<le> length hs"
    if "distinct (map ag_id gs)" for gs hs :: "AuthorityGrant list"
  proof (induction hs)
    case (Cons h hs)
    have "sum_list (map (\<lambda>g. if ag_parent h = Some (ag_id g) then 1 else 0) gs) \<le> (1 :: nat)"
      using that by (induction gs) (auto simp: sum_list_eq_0_iff image_iff)
    moreover have "sum_list (map (\<lambda>g. length (filter (\<lambda>x. ag_parent x = Some (ag_id g)) (h # hs))) gs) =
        sum_list (map (\<lambda>g. length (filter (\<lambda>x. ag_parent x = Some (ag_id g)) hs)) gs) +
        sum_list (map (\<lambda>g. if ag_parent h = Some (ag_id g) then 1 else 0) gs)"
      by (induction gs) auto
    ultimately show ?case using Cons by simp
  qed simp
  then show ?thesis using assms by (simp add: graph_ok_def kids_def)
qed

lemma unspent_total: "graph_ok s \<Longrightarrow> unspent s \<le> length (grants_of s)"
proof -
  assume g: "graph_ok s"
  have "unspent s \<le> sum_list (map (\<lambda>g. kids s (ag_id g)) (grants_of s))"
    unfolding unspent_def by (rule sum_list_mono) simp
  with children_total [OF g] show ?thesis by simp
qed

lemma kids_total: "graph_ok s \<Longrightarrow> kids s x \<le> length (grants_of s)"
  by (simp add: kids_def graph_ok_def)

lemma walk_fuel_enough:
  assumes "graph_ok s" "lookup_grant s root = Some k" "\<not> ag_revoked (grants_of s ! k)"
  shows "fst (revoke_walk (walk_fuel s) root [root] n s) = []"
proof -
  let ?s = "mark_revoked k s" and ?cs = "children_ids s root"
  note k = lookup_graph [OF assms(1,2)]
  have none: "count_list (rev ?cs) root = 0"
    using children_count [OF assms(1), of root root] root_not_own_child [OF assms(1)] by simp
  have "unspent ?s + kids s root = unspent s"
    using unspent_marked [OF assms(1) _ assms(3)] k by simp
  then have "walk_bound root (rev ?cs) ?s \<le> unspent s + kids s root"
    using none assms(1) by (simp add: walk_bound_def kids_def)
  also have "\<dots> \<le> 2 * length (grants_of s)"
    using unspent_total [OF assms(1)] kids_total [OF assms(1), of root] by simp
  finally have "fst (revoke_walk (2 * length (grants_of s)) root (rev ?cs) (Suc n) ?s) = []"
    by (intro walk_ends graph_marked(1) assms(1))
  then show ?thesis
    using assms(2,3) by (simp add: walk_fuel_def)
qed

section \<open>Nothing live is left below the root\<close>

text \<open>Below a revoked grant everything is revoked, except what is still pending.\<close>

definition swept :: "AuthorityGrantId set \<Rightarrow> impl \<Rightarrow> bool" where
  "swept pending s \<longleftrightarrow>
     (\<forall>g \<in> set (grants_of s). \<forall>h \<in> set (grants_of s).
        ag_revoked g \<and> ag_parent h = Some (ag_id g) \<longrightarrow> ag_revoked h \<or> ag_id h \<in> pending)"

lemma swept_marked:
  assumes "graph_ok s" "lookup_grant s x = Some k" "swept (set (x # pending)) s"
  shows "swept (set (rev (children_ids s x) @ pending)) (mark_revoked k s)"
proof -
  let ?m = "(grants_of s ! k)\<lparr> ag_revoked := True, ag_revoked_at_epoch := st_current_epoch (im_state s) \<rparr>"
  note k = lookup_graph [OF assms(1,2)]
  have old: "\<exists>j < length (grants_of s). g = (grants_of s)[k := ?m] ! j \<and> ag_id (grants_of s ! j) = ag_id g \<and>
      ag_parent (grants_of s ! j) = ag_parent g \<and> (j \<noteq> k \<longrightarrow> ag_revoked (grants_of s ! j) = ag_revoked g)"
    if "g \<in> set ((grants_of s)[k := ?m])" for g
  proof -
    obtain j where "j < length (grants_of s)" "g = (grants_of s)[k := ?m] ! j"
      using \<open>g \<in> _\<close> by (auto simp: in_set_conv_nth)
    then show ?thesis by (intro exI [of _ j]) (cases "j = k"; simp)
  qed
  have "ag_revoked h \<or> ag_id h \<in> set (children_ids s x) \<or> ag_id h \<in> set pending"
    if g: "g \<in> set ((grants_of s)[k := ?m])" "ag_revoked g"
      and h: "h \<in> set ((grants_of s)[k := ?m])" "ag_parent h = Some (ag_id g)" for g h
  proof -
    obtain j where j: "j < length (grants_of s)" "g = (grants_of s)[k := ?m] ! j" "ag_id (grants_of s ! j) = ag_id g"
      "j \<noteq> k \<longrightarrow> ag_revoked (grants_of s ! j)"
      using old [OF g(1)] g(2) by metis
    obtain i where i: "i < length (grants_of s)" "h = (grants_of s)[k := ?m] ! i" "ag_id (grants_of s ! i) = ag_id h"
      "ag_parent (grants_of s ! i) = Some (ag_id g)" "i \<noteq> k \<longrightarrow> ag_revoked (grants_of s ! i) = ag_revoked h"
      using old [OF h(1)] h(2) by metis
    show ?thesis
    proof (cases "j = k")
      case True
      then have "ag_id g = x" using j(3) k by simp
      then have "ag_id h \<in> set (children_ids s x)"
        using nth_mem [OF i(1)] i(3,4) by (auto simp: graph_children [OF assms(1)])
      then show ?thesis by simp
    next
      case False
      then have "ag_revoked (grants_of s ! i) \<or> ag_id (grants_of s ! i) \<in> set (x # pending)"
        using assms(3) nth_mem [OF j(1)] nth_mem [OF i(1)] j(3,4) i(4) unfolding swept_def by metis
      moreover have "i = k" if "ag_id (grants_of s ! i) = x"
        using that assms(1,2) i(1) unfolding graph_ok_def by (metis option.inject)
      moreover have "ag_revoked h" if "i = k" using that i(2) k by simp
      ultimately show ?thesis using i(3,5) by auto
    qed
  qed
  then show ?thesis by (auto simp: swept_def)
qed

lemma swept_drop:
  "swept (set (x # pending)) s \<Longrightarrow>
     (\<And>h. h \<in> set (grants_of s) \<Longrightarrow> ag_id h = x \<Longrightarrow> ag_revoked h) \<Longrightarrow> swept (set pending) s"
  unfolding swept_def by auto

lemma swept_more: "swept a s \<Longrightarrow> a \<subseteq> b \<Longrightarrow> swept b s"
  unfolding swept_def by blast

lemma walk_sweeps:
  "graph_ok s \<Longrightarrow> swept (set pending) s \<Longrightarrow> revoke_walk fuel root pending n s = (rest, m, u) \<Longrightarrow>
     graph_ok u \<and> swept (set rest) u"
proof (induction fuel root pending n s rule: revoke_walk.induct)
  case (3 fuel root x pending n s)
  show ?case
  proof (cases "lookup_grant s x")
    case None
    have "swept (set pending) s"
      by (rule swept_drop [OF 3(6)]) (use graph_only [OF 3(5) None] in blast)
    then show ?thesis using 3(1) [OF None 3(5)] 3(7) None by simp
  next
    case (Some k)
    note k = lookup_graph [OF 3(5) Some]
    have only: "h = grants_of s ! k" if h: "h \<in> set (grants_of s)" "ag_id h = x" for h
      using graph_only [OF 3(5) Some h] by simp
    show ?thesis
    proof (cases "ag_revoked (grants_of s ! k)")
      case False
      then show ?thesis
        using 3(3) [OF Some refl _ _ graph_marked(1) [OF 3(5)] swept_marked [OF 3(5) Some 3(6)]] 3(7) Some by simp
    next
      case True
      have drop: "swept (set pending) s"
        by (rule swept_drop [OF 3(6)]) (use only True in blast)
      then have "swept (set (rev (children_ids s x) @ pending)) s" by (rule swept_more) simp
      then show ?thesis
        using 3(2) [OF Some refl _ 3(5) drop] 3(4) [OF Some refl _ _ 3(5)] 3(7) Some True
        by (cases "x = root") simp_all
    qed
  qed
qed auto

lemma walk_keeps_revoked:
  assumes "revoke_walk fuel root pending n s = (rest, m, u)" "ids_known s"
  shows "grants_le (grants_of s) (grants_of u)"
  using revoke_walk_progress [of s fuel root pending n] assms by (simp add: progress_def state_le_def)

text \<open>The whole walk of a revocation.\<close>

lemma walk_revokes:
  assumes "graph_ok s" "swept {} s" "lookup_grant s root = Some k" "\<not> ag_revoked (grants_of s ! k)"
    and "ids_known s" and "revoke_walk (walk_fuel s) root [root] 0 s = (rest, m, u)"
  shows "rest = [] \<and> swept {} u \<and> ag_revoked (grants_of u ! k) \<and> grants_le (grants_of s) (grants_of u)"
proof -
  note k = lookup_graph [OF assms(1,3)]
  have rest: "rest = []"
    using walk_fuel_enough [OF assms(1,3,4), of 0] assms(6) by simp
  have "revoke_walk (2 * length (grants_of s)) root (rev (children_ids s root) @ []) 1 (mark_revoked k s) = (rest, m, u)"
    using assms(3,4,6) by (simp add: walk_fuel_def)
  moreover have "ids_known (mark_revoked k s)"
    using mark_revoked_progress [of s k] assms(5) by (simp add: progress_def)
  ultimately have "grants_le (grants_of (mark_revoked k s)) (grants_of u)" by (rule walk_keeps_revoked)
  then have "ag_revoked (grants_of u ! k)"
    using k by (auto simp: grants_le_def grant_le_def dest!: spec [of _ k])
  moreover have "swept (set [root]) s" using assms(2) by (rule swept_more) simp
  ultimately show ?thesis
    using walk_sweeps [OF assms(1) _ assms(6)] walk_keeps_revoked [OF assms(6,5)] rest by simp
qed

section \<open>Revocation as a whole\<close>

definition delegates :: "AuthorityGrant list \<Rightarrow> (AuthorityGrantId \<times> AuthorityGrantId) set" where
  "delegates gs = {(x, y). \<exists>h \<in> set gs. ag_id h = y \<and> ag_parent h = Some x}"

lemma swept_descendants:
  assumes "swept {} s" "(x, y) \<in> (delegates (grants_of s))\<^sup>*"
    and "\<forall>g \<in> set (grants_of s). ag_id g = x \<longrightarrow> ag_revoked g"
    and "x \<in> ag_id ` set (grants_of s)"
  shows "y \<in> ag_id ` set (grants_of s) \<and> (distinct (map ag_id (grants_of s)) \<longrightarrow>
    (\<forall>g \<in> set (grants_of s). ag_id g = y \<longrightarrow> ag_revoked g))"
  using assms(2)
proof (induction rule: rtrancl_induct)
  case base
  then show ?case using assms(3,4) by blast
next
  case (step y z)
  then obtain g h where g: "g \<in> set (grants_of s)" "ag_id g = y" and
    h: "h \<in> set (grants_of s)" "ag_id h = z" "ag_parent h = Some y"
    by (auto simp: delegates_def)
  have "\<forall>x \<in> set (grants_of s). ag_id x = z \<longrightarrow> ag_revoked x" if d: "distinct (map ag_id (grants_of s))"
  proof -
    have "ag_revoked h" using assms(1) g h step.IH d unfolding swept_def by blast
    moreover have "x = h" if "x \<in> set (grants_of s)" "ag_id x = z" for x
      using that h d by (auto simp: distinct_map dest: inj_onD)
    ultimately show ?thesis by blast
  qed
  then show ?case using h by blast
qed

text \<open>What an accepted revocation leaves of the grants.\<close>

definition same_flags :: "AuthorityGrant list \<Rightarrow> AuthorityGrant list \<Rightarrow> bool" where
  "same_flags gs hs \<longleftrightarrow>
     map (\<lambda>g. (ag_id g, ag_parent g, ag_revoked g)) gs = map (\<lambda>g. (ag_id g, ag_parent g, ag_revoked g)) hs"

lemma enter_revocation_effect:
  assumes "enter_revocation request digest k t = (Inr r, t')"
  shows "\<exists>rest m u. revoke_walk (walk_fuel (tx_impl t)) (ag_id (grants_of (tx_impl t) ! k))
      [ag_id (grants_of (tx_impl t) ! k)] 0 (tx_impl t) = (rest, m, u) \<and>
    same_flags (grants_of u) (grants_of (tx_impl t'))"
proof -
  have stamped: "same_flags (grants_of u) (grants_of (remember_control rec (stamp_grant k (set_generation g u))))" for u g rec
    by (simp add: same_flags_def remember_control_def stamp_grant_def upd_grant_def upd_state_def set_generation_def
        map_update_same)
  obtain rest m u where w: "revoke_walk (walk_fuel (tx_impl t)) (ag_id (grants_of (tx_impl t) ! k))
      [ag_id (grants_of (tx_impl t) ! k)] 0 (tx_impl t) = (rest, m, u)"
    by (metis prod_cases3)
  have "\<exists>g rec. tx_impl t' = remember_control rec (stamp_grant k (set_generation g u))"
    using assms w
    by (auto simp: enter_revocation_def tx_simps Let_def tx_bind_def [of bump_generation]
        dest!: bump_generation_effect split: prod.splits sum.splits) (rule exI, rule exI, rule refl)+
  then obtain g rec where e: "tx_impl t' = remember_control rec (stamp_grant k (set_generation g u))" by blast
  show ?thesis
    by (intro exI conjI, rule w, simp only: e, rule stamped)
qed

lemma same_flags_facts:
  assumes "same_flags gs hs"
  shows "map ag_id gs = map ag_id hs" "delegates gs = delegates hs"
    "(\<forall>g \<in> set gs. ag_id g = x \<longrightarrow> ag_revoked g) \<longleftrightarrow> (\<forall>g \<in> set hs. ag_id g = x \<longrightarrow> ag_revoked g)"
proof -
  let ?f = "\<lambda>g. (ag_id g, ag_parent g, ag_revoked g)"
  have s: "?f ` set gs = ?f ` set hs"
    using arg_cong [OF assms [unfolded same_flags_def], of set] by simp
  have "map ag_id gs = map fst (map ?f gs)" "map ag_id hs = map fst (map ?f hs)" by simp_all
  then show "map ag_id gs = map ag_id hs" using assms by (simp add: same_flags_def del: map_map)
  have "(\<exists>h \<in> set xs. ag_id h = b \<and> ag_parent h = Some a) \<longleftrightarrow> (\<exists>r. (b, Some a, r) \<in> ?f ` set xs)" for xs a b
    unfolding image_iff by (auto, metis)
  then have "delegates xs = {(a, b). \<exists>r. (b, Some a, r) \<in> ?f ` set xs}" for xs
    unfolding delegates_def by (intro Collect_cong) (simp only: case_prod_beta)
  then show "delegates gs = delegates hs" using s by simp
  have flags: "(\<forall>g \<in> set xs. ag_id g = x \<longrightarrow> ag_revoked g) \<longleftrightarrow> (\<forall>p. (x, p, False) \<notin> ?f ` set xs)" for xs
    by auto
  show "(\<forall>g \<in> set gs. ag_id g = x \<longrightarrow> ag_revoked g) \<longleftrightarrow> (\<forall>g \<in> set hs. ag_id g = x \<longrightarrow> ag_revoked g)"
    unfolding flags [of gs] flags [of hs] s ..
qed

lemma apply_revoke_effect:
  assumes "apply_revoke request t = (Inr r, t')" "vr_outcome r = RevokeOutcome.Revoked"
    and "find_attempt (st_control_attempts (im_state (tx_impl t))) (vq_attempt request) = None"
  shows "\<exists>digest k. lookup_grant (tx_impl t) (vq_grant request) = Some k \<and> \<not> ag_revoked (grants_of (tx_impl t) ! k) \<and>
    enter_revocation request digest k t = (Inr r, t')"
proof -
  have screen: "vr_outcome q \<noteq> RevokeOutcome.Revoked" if "revoke_screen st request = Some q" for st q
    using that by (auto simp: revoke_screen_def revoke_result_def split: if_splits)
  then show ?thesis
    using assms by (cases "revoke_digest request")
      (auto simp: apply_revoke_def tx_simps Let_def revoke_result_def split: option.splits if_splits)
qed

lemma revoked_flags:
  assumes "running_ok s" "revoke_authority io request s = (Inr r, s')" "vr_outcome r = RevokeOutcome.Revoked"
    and "find_attempt (st_control_attempts (im_state s)) (vq_attempt request) = None"
  shows "\<exists>k rest m u. lookup_grant s (vq_grant request) = Some k \<and> \<not> ag_revoked (grants_of s ! k) \<and>
    revoke_walk (walk_fuel s) (vq_grant request) [vq_grant request] 0 s = (rest, m, u) \<and>
    same_flags (grants_of u) (grants_of s')"
proof -
  have b: "tx_impl (begin_tx s) = s" "\<not> tx_mutated (begin_tx s)" by (simp_all add: begin_tx_def)
  have body: "\<exists>k rest m u. lookup_grant s (vq_grant request) = Some k \<and> \<not> ag_revoked (grants_of s ! k) \<and>
      revoke_walk (walk_fuel s) (vq_grant request) [vq_grant request] 0 s = (rest, m, u) \<and>
      same_flags (grants_of u) (grants_of (tx_impl t)) \<and> tx_mutated t"
    if t: "apply_revoke request (begin_tx s) = (Inr r, t)" for t
  proof -
    from apply_revoke_effect [OF t assms(3)] assms(4) b(1) obtain digest k where
      k: "lookup_grant s (vq_grant request) = Some k" "\<not> ag_revoked (grants_of s ! k)"
      "enter_revocation request digest k (begin_tx s) = (Inr r, t)" by auto
    have "ag_id (grants_of s ! k) = vq_grant request"
      using lookup_graph [OF running_graph [OF assms(1)] k(1)] by simp
    moreover have "tx_mutated t"
      using enter_revocation_marks k(3) unfolding tx_marks_def by blast
    ultimately show ?thesis
      using enter_revocation_effect [OF k(3)] k(1,2) b(1) by auto
  qed
  from apply_revoke_quiet assms(2) [unfolded revoke_authority_def] show ?thesis
  proof (cases rule: run_tx_returns)
    case 1
    with body [OF 1(2)] b(2) show ?thesis by blast
  next
    case (2 t)
    have "grants_of s' = grants_of (tx_impl t)"
      unfolding 2(3) by (rule committed_fields)
    with body [OF 2(1)] show ?thesis by auto
  qed
qed

text \<open>
  C34. Revocation cascades and ends: when a revocation is accepted, its walk over the delegation graph has come to an
  end, however deep or entangled the graph is, and afterwards every grant that was delegated from the revoked one,
  directly or through others, is revoked. (Before it, nothing live is below a revoked grant; so it is afterwards.)
\<close>

theorem revocation_cascades:
  assumes "running_ok s" "swept {} s" "revoke_authority io request s = (Inr r, s')"
    and "vr_outcome r = RevokeOutcome.Revoked"
    and "find_attempt (st_control_attempts (im_state s)) (vq_attempt request) = None"
  shows "fst (revoke_walk (walk_fuel s) (vq_grant request) [vq_grant request] 0 s) = [] \<and>
    (\<forall>g \<in> set (grants_of s'). (vq_grant request, ag_id g) \<in> (delegates (grants_of s'))\<^sup>* \<longrightarrow> ag_revoked g)"
proof -
  note graph = running_graph [OF assms(1)]
  have known: "ids_known s"
    using assms(1) indexes_match_known by (simp add: running_ok_def)
  obtain k rest m u where w: "lookup_grant s (vq_grant request) = Some k" "\<not> ag_revoked (grants_of s ! k)"
    "revoke_walk (walk_fuel s) (vq_grant request) [vq_grant request] 0 s = (rest, m, u)"
    "same_flags (grants_of u) (grants_of s')"
    using revoked_flags [OF assms(1,3-5)] by blast
  note u = walk_revokes [OF graph assms(2) w(1,2) known w(3)]
  have "swept (set [vq_grant request]) s" using assms(2) by (rule swept_more) simp
  then have gu: "graph_ok u" using walk_sweeps [OF graph _ w(3)] by blast
  have k: "k < length (grants_of u)" "ag_id (grants_of u ! k) = vq_grant request"
    using u lookup_graph [OF graph w(1)] by (auto simp: grants_le_def grant_le_def)
  have d: "distinct (map ag_id (grants_of u))" using gu by (simp add: graph_ok_def)
  have look: "lookup_grant u (vq_grant request) = Some k" using gu k unfolding graph_ok_def by blast
  have root: "\<forall>g \<in> set (grants_of u). ag_id g = vq_grant request \<longrightarrow> ag_revoked g"
  proof (intro ballI impI)
    fix g assume "g \<in> set (grants_of u)" "ag_id g = vq_grant request"
    from graph_only [OF gu look this] u show "ag_revoked g" by simp
  qed
  have swept: "swept {} u" using u by simp
  have member: "vq_grant request \<in> ag_id ` set (grants_of u)"
    using k(2) nth_mem [OF k(1)] by (metis image_eqI)
  have below: "\<forall>g \<in> set (grants_of u). ag_id g = y \<longrightarrow> ag_revoked g"
    if "(vq_grant request, y) \<in> (delegates (grants_of u))\<^sup>*" for y
    using swept_descendants [OF swept that root member] d by simp
  have "\<forall>g \<in> set (grants_of s'). ag_id g = y \<longrightarrow> ag_revoked g"
    if "(vq_grant request, y) \<in> (delegates (grants_of s'))\<^sup>*" for y
    using below [of y] that same_flags_facts(2) [OF w(4)] same_flags_facts(3) [OF w(4), of y] by simp
  then show ?thesis using w(3) u by auto
qed

section \<open>Undoing a revocation on a cycle\<close>

text \<open>
  The walk that undoes a revocation has no check for grants it has already seen. On a graph in which every grant of
  some set has a child in the set, a walk that meets the set never ends: whatever number of rounds it is given, it
  still has work to do. The format of the store rejects a grant that is its own parent, but not such a cycle.
\<close>

theorem undo_walk_diverges:
  assumes "\<And>x. x \<in> cycle \<Longrightarrow> (\<exists>k. lookup_grant s x = Some k) \<and> set (children_ids s x) \<inter> cycle \<noteq> {}"
    and "set pending \<inter> cycle \<noteq> {}"
  shows "fst (restore_walk fuel pending s) \<noteq> []"
proof -
  have kept: "(\<exists>k. lookup_grant (mark_live j u) x = Some k) \<and> set (children_ids (mark_live j u) x) = set (children_ids u x)"
    if "\<exists>k. lookup_grant u x = Some k" for j u x
  proof -
    let ?g = "(grants_of u ! j)\<lparr> ag_revoked := False, ag_revoked_at_epoch := MonotonicCounter 0 \<rparr>"
    have frame: "im_grant_index (mark_live j u) = im_grant_index u" "im_grant_children (mark_live j u) = im_grant_children u"
      "grants_of (mark_live j u) = (grants_of u)[j := ?g]"
      by (simp_all add: mark_live_def upd_grant_def upd_state_def)
    have "ag_id ((grants_of u)[j := ?g] ! i) = ag_id (grants_of u ! i)" for i
      by (rule nth_update_same) simp
    then show ?thesis
      using that by (simp add: lookup_grant_def children_ids_def frame split: option.splits if_splits)
  qed
  show ?thesis
    using assms
  proof (induction fuel pending s rule: restore_walk.induct)
    case (3 fuel x pending s)
    show ?case
    proof (cases "lookup_grant s x")
      case None
      then have "set pending \<inter> cycle \<noteq> {}" using 3(3) [of x] 3(4) by auto
      with 3(1) [OF None 3(3)] None show ?thesis by simp
    next
      case (Some k)
      have "set (rev (children_ids s x) @ pending) \<inter> cycle \<noteq> {}"
        using 3(3) [of x] 3(4) by auto
      then have "fst (restore_walk fuel (rev (children_ids s x) @ pending) (mark_live k s)) \<noteq> []"
        by (intro 3(2) [OF Some]) (use 3(3) kept in auto)
      with Some show ?thesis by simp
    qed
  qed auto
qed

section \<open>Witnesses\<close>

theorem revocation_cascades_witness:
  "\<exists>s r s'. revoke_authority io_ok revoke_request s = (Inr r, s') \<and>
     (\<exists>g \<in> set (grants_of s). \<not> ag_revoked g) \<and> (\<forall>g \<in> set (grants_of s'). ag_id g = Fixed128Id 30 \<longrightarrow> ag_revoked g)"
proof -
  obtain s4 where s4: "at_state s4 state4"
    using grant_demo demo_born by metis
  obtain r s5 where r: "revoke_authority io_ok revoke_request s4 = (Inr r, s5)" "vr_outcome r = RevokeOutcome.Revoked"
    using revoke_demo [OF s4] by blast
  have swept: "swept {} s4"
    using at_stateD [OF s4] by (simp add: swept_def state4_fields grant1_def)
  have fresh: "find_attempt (st_control_attempts (im_state s4)) (vq_attempt revoke_request) = None"
    using at_stateD [OF s4] by (simp add: state4_fields find_attempt_None)
  from revocation_cascades [OF at_stateD(1) [OF s4] swept r fresh]
  have "\<forall>g \<in> set (grants_of s5). ag_id g = Fixed128Id 30 \<longrightarrow> ag_revoked g"
    by auto
  moreover have "\<exists>g \<in> set (grants_of s4). \<not> ag_revoked g"
    using state4_grants(2,7) [OF s4] by simp
  ultimately show ?thesis using r(1) by blast
qed

text \<open>Two grants that delegate each other, in a state that the format accepts.\<close>

definition entangled_state :: DurableState where
  "entangled_state = state4\<lparr> st_grants :=
     [grant1\<lparr> ag_parent := Some (Fixed128Id 31) \<rparr>,
      grant1\<lparr> ag_id := Fixed128Id 31, ag_parent := Some (Fixed128Id 30) \<rparr>] \<rparr>"

lemma entangled_valid: "validate_durable_state entangled_state = Inr ()"
  by (simp add: entangled_state_def state4_defs validity_defs)

theorem undo_walk_diverges_witness:
  "\<exists>s. validate_durable_state (im_state s) = Inr () \<and> indexes_match s \<and>
     (\<forall>fuel. fst (restore_walk fuel [Fixed128Id 30] s) \<noteq> [])"
proof -
  obtain s4 where s4: "at_state s4 state4"
    using grant_demo demo_born by metis
  define s where "s = rebuild_indexes (s4\<lparr> im_state := entangled_state \<rparr>)"
  have st: "im_state s = entangled_state" by (simp add: s_def rebuild_indexes_def)
  have ok: "indexes_match s" by (simp add: s_def rebuild_indexes_def indexes_match_def)
  have kids: "children_ids s x = map ag_id (filter (\<lambda>g. ag_parent g = Some x) (grants_of s))" for x
    by (rule children_ids_search) (use ok in \<open>simp add: indexes_match_def\<close>)
  have found: "\<exists>k. lookup_grant s x = Some k" if "x \<in> {Fixed128Id 30, Fixed128Id 31}" for x
    using that ok
    by (auto simp: lookup_grant_def indexes_match_def st grant_index_of_def entangled_state_def grant1_def)
  have loop: "(\<exists>k. lookup_grant s x = Some k) \<and> set (children_ids s x) \<inter> {Fixed128Id 30, Fixed128Id 31} \<noteq> {}"
    if "x \<in> {Fixed128Id 30, Fixed128Id 31}" for x
    using that found by (auto simp: kids st entangled_state_def grant1_def)
  have "fst (restore_walk fuel [Fixed128Id 30] s) \<noteq> []" for fuel
    by (rule undo_walk_diverges [OF loop]) simp_all
  then show ?thesis
    using ok st entangled_valid by (intro exI [of _ s]) simp
qed

end
