(* ===== verification/Recovery.thy ===== *)
theory Recovery
  imports Invariants Scenario
begin

text \<open>
  Recovery: the rollback watermark never overtakes the image, so what a life of the coordinator leaves on disk,
  whatever failed or crashed, opens again.
\<close>

section \<open>A save that fails leaves the watermark\<close>

lemma save_impl_failed:
  "save_impl io s = (Inl e, u) \<Longrightarrow> watermark_file (im_disk u) = watermark_file (im_disk s)"
  by (auto simp: save_impl_def store_save_def write_watermark_def Let_def split: prod.splits sum.splits if_splits)

lemma persist_failed:
  assumes "list_all disk_kept (tx_undo t)" "persist io t = (Inl e, t')"
  shows "watermark_file (im_disk (tx_impl (undo_rollback t'))) = watermark_file (im_disk (tx_impl t))"
proof -
  let ?c = "canonicalize (tx_impl t)"
  obtain q u where save: "save_impl io ?c = (q, u)" by (cases "save_impl io ?c")
  then have q: "q = Inl e" using assms(2) by (cases q) (auto simp: persist_def Let_def)
  let ?t = "(t\<lparr> tx_impl := ?c \<rparr>)\<lparr> tx_impl := u \<rparr>"
  have t': "tx_impl t' = rebuild_indexes (tx_impl (undo_rollback ?t))" "tx_undo t' = []"
    using assms(2) save q by (auto simp: persist_def Let_def undo_rollback_def)
  have "im_disk (tx_impl (undo_rollback t')) = im_disk (tx_impl (undo_rollback ?t))"
    by (simp add: undo_rollback_def [of t'] t' frame_simps)
  also have "\<dots> = im_disk u" using rollback_disk [of ?t] assms(1) by simp
  finally show ?thesis
    using save_impl_failed [OF save [unfolded q]] by (simp add: frame_simps)
qed

lemma barrier_failed:
  assumes "tx_disk m" "tx_keeps progress m" "\<And>x t. (\<exists>y. n x t = (Inr y, t)) \<or> (\<exists>f. n x t = tx_bind (persist io) f t \<and>
      (\<forall>y u. snd (f y u) = u \<and> \<not> isl (fst (f y u))))"
    and "end_tx (tx_bind m n (begin_tx s)) = (Inl e, s')"
  shows "watermark_file (im_disk s') = watermark_file (im_disk s)"
proof (cases "m (begin_tx s)")
  case (Pair q t)
  have undo: "list_all disk_kept (tx_undo t)"
    using assms(1) Pair by (auto simp: tx_disk_def begin_tx_def dest: spec [of _ "begin_tx s"])
  have disk: "im_disk (tx_impl t) = im_disk s" by (rule body_disk [OF assms(2) Pair])
  show ?thesis
  proof (cases q)
    case (Inl e')
    then have "s' = tx_impl (undo_rollback t)"
      using assms(4) Pair by (auto simp: tx_bind_def end_tx_def)
    then show ?thesis using disk rollback_disk [OF undo] by simp
  next
    case (Inr x)
    then have n: "end_tx (n x t) = (Inl e, s')" using assms(4) Pair by (simp add: tx_bind_def)
    then obtain f where f: "n x t = tx_bind (persist io) f t" "\<forall>y u. snd (f y u) = u \<and> \<not> isl (fst (f y u))"
      using assms(3) [of x t] by (auto simp: end_tx_def)
    obtain p t' where p: "persist io t = (p, t')" by (cases "persist io t")
    show ?thesis
    proof (cases p)
      case (Inl e')
      then have "s' = tx_impl (undo_rollback t')" using n f(1) p by (simp add: tx_bind_def end_tx_def)
      then show ?thesis using persist_failed [OF undo p [unfolded Inl]] disk by simp
    next
      case (Inr y)
      then have "fst (f y t') = Inl e" using n f(1) p by (cases "f y t'") (simp add: tx_bind_def end_tx_def)
      with f(2) show ?thesis by (metis isl_def)
    qed
  qed
qed

lemma run_tx_failed:
  assumes "tx_disk body" "tx_keeps progress body" "run_tx io body s = (Inl e, s')"
  shows "watermark_file (im_disk s') = watermark_file (im_disk s)"
  using assms(1,2) _ assms(3) [unfolded run_tx_def]
  by (rule barrier_failed) (auto simp: persist_if_mutated_def tx_basic)

lemma advance_failed:
  assumes "advance_epoch env x s = (Inl e, s')"
  shows "watermark_file (im_disk s') = watermark_file (im_disk s)"
  using advance_epoch_split [OF assms]
proof (elim disjE exE)
  fix digest assume failed: "end_tx (enter_advance env x digest (begin_tx s)) = (Inl e, s')"
  show ?thesis
    by (rule barrier_failed [OF move_epoch_disk move_epoch_progress _ failed [unfolded enter_advance_def],
        where io = "en_io env"]) (auto simp: tx_simps)
qed simp

lemma close_failed:
  assumes "close_session io sid reason s = (Inl e, s')"
  shows "watermark_file (im_disk s') = watermark_file (im_disk s)"
proof -
  obtain a b where e: "erase_session sid s = s\<lparr> im_session_index := a, im_boot_session_index := b \<rparr>"
    using erase_session_tables by blast
  show ?thesis
    using assms run_tx_failed [OF record_fence_disk record_fence_progress]
    by (fastforce simp: close_session_def Let_def e split: option.splits if_splits)
qed

lemma perform_failed:
  assumes "perform q s = (Inl e, s')"
  shows "watermark_file (im_disk s') = watermark_file (im_disk s)"
proof -
  have lift: "watermark_file (im_disk s') = watermark_file (im_disk s)"
    if "outcome_of m = (Inl e, s')" "\<And>x u. m = (Inl x, u) \<Longrightarrow> watermark_file (im_disk u) = watermark_file (im_disk s)"
    for m :: "'x res \<times> impl"
    using that by (cases m; cases "fst m") (auto simp: outcome_of_def res_bind_def)
  note ops = perform.simps register_participant_def register_participants_def fence_worker_def
    grant_authority_def revoke_authority_def retire_participant_def
  show ?thesis
  proof (cases q)
    case (Register io x)
    show ?thesis
      by (rule lift [OF assms [unfolded Register ops]], rule run_tx_failed [OF apply_registration_disk apply_registration_progress])
  next
    case (RegisterBatch io x)
    show ?thesis
      by (rule lift [OF assms [unfolded RegisterBatch ops]], rule run_tx_failed [OF batch_body_disk batch_body_progress])
  next
    case (Fence io x)
    show ?thesis
      by (rule lift [OF assms [unfolded Fence ops]], rule run_tx_failed [OF fence_body_disk fence_body_progress])
  next
    case (Grant env x)
    show ?thesis
      by (rule lift [OF assms [unfolded Grant ops]], rule run_tx_failed [OF apply_grant_disk apply_grant_progress])
  next
    case (Revoke io x)
    show ?thesis
      by (rule lift [OF assms [unfolded Revoke ops]], rule run_tx_failed [OF apply_revoke_disk apply_revoke_progress])
  next
    case (Retire io x)
    show ?thesis
      by (rule lift [OF assms [unfolded Retire ops]], rule run_tx_failed [OF apply_retire_disk apply_retire_progress])
  next
    case (Advance env x)
    show ?thesis by (rule lift [OF assms [unfolded Advance ops]]) (rule advance_failed)
  next
    case (Bind b)
    show ?thesis
      by (rule lift [OF assms [unfolded Bind ops]]) (auto simp: bind_session_def split: if_splits)
  next
    case (Close io sid reason)
    show ?thesis by (rule lift [OF assms [unfolded Close ops]]) (rule close_failed)
  next
    case (Flush io)
    show ?thesis
      by (rule lift [OF assms [unfolded Flush ops]]) (simp add: flush_def save_impl_failed)
  qed
qed

section \<open>The watermark stays below the image\<close>

definition marked :: "disk \<Rightarrow> DurableState \<Rightarrow> bool" where
  "marked d st \<longleftrightarrow>
     (\<exists>v. (\<forall>opts. read_watermark (store_options opts) io_ok d = Inr v) \<and>
        v \<le> counter_value (st_current_epoch st))"

lemma marked_accepts: "marked d st \<Longrightarrow> watermark_accepts (store_options opts) st d"
  by (auto simp: marked_def watermark_accepts_def)

lemma watermark_same: "watermark_file d' = watermark_file d \<Longrightarrow>
    read_watermark options io d' = read_watermark options io d"
  by (simp add: read_watermark_def)

lemma marked_later: "marked d st \<Longrightarrow> st_current_epoch st \<le> st_current_epoch u \<Longrightarrow> marked d u"
  by (auto simp: marked_def less_eq_MonotonicCounter_def)

lemma marked_saved:
  assumes "marked d st" "st_current_epoch st \<le> st_current_epoch u" "image_saved u d d'"
  shows "marked d' u"
proof (cases "watermark_file d' = watermark_file d")
  case True
  with marked_later [OF assms(1,2)] watermark_same [OF True] show ?thesis by (simp add: marked_def)
next
  case False
  with assms(3) have "watermark_file d' = Some (map char_byte (watermark_text (st_current_epoch u)))"
    by (auto simp: image_saved_def)
  then have "read_watermark (store_options opts) io_ok d' = Inr (counter_value (st_current_epoch u))" for opts
    by (intro read_written_watermark) (simp add: store_options_def)
  then show ?thesis by (auto simp: marked_def)
qed

text \<open>A running coordinator and a stopped one, with the watermark.\<close>

fun node_marked :: "node \<Rightarrow> bool" where
  "node_marked (Running s) \<longleftrightarrow> running_ok s \<and> marked (im_disk s) (im_state s)"
| "node_marked (Stopped d) \<longleftrightarrow> (\<exists>st. holds d st \<and> marked d st)"

lemma moves_marked:
  assumes "disk_moves R s d" "holds (im_disk s) u" "state_le (im_state s) u" "marked (im_disk s) (im_state s)"
    and "\<And>st. R st \<Longrightarrow> state_le (im_state s) st"
  shows "\<exists>st. holds d st \<and> marked d st"
  using assms(1) unfolding disk_moves_def
proof (elim disjE exE conjE)
  assume "d = im_disk s"
  with assms(2) marked_later [OF assms(4)] assms(3) show ?thesis by (auto simp: state_le_def)
next
  fix st assume st: "R st" "image_saved st (im_disk s) d"
  have "holds d st" using st(2) by (auto simp: holds_def image_saved_def)
  moreover have "marked d st"
    using marked_saved [OF assms(4) _ st(2)] assms(5) [OF st(1)] by (simp add: state_le_def)
  ultimately show ?thesis by blast
qed

lemma written_marked:
  assumes "written s s'" "marked (im_disk s) (im_state s)" "state_le (im_state s) (im_state s')"
  shows "marked (im_disk s') (im_state s')"
proof -
  have le: "st_current_epoch (im_state s) \<le> st_current_epoch (im_state s')"
    using assms(3) by (simp add: state_le_def)
  from assms(1) show ?thesis
    unfolding written_def
  proof
    assume "im_disk s' = im_disk s"
    then show ?thesis using marked_later [OF assms(2) le] by simp
  next
    assume "image_saved (im_state s') (im_disk s) (im_disk s')"
    then show ?thesis by (rule marked_saved [OF assms(2) le])
  qed
qed

lemma establish_marked:
  assumes "open_runtime env opts d = (r, d')" "holds d st" "marked d st"
  shows "node_marked (Stopped d') \<and> (\<forall>s. r = Inr s \<longrightarrow> node_marked (Running s))"
  using assms(1)
proof (cases rule: open_runtime_cases)
  case (rejected e)
  have "node_marked (Stopped d')"
    using assms(2,3) unfolding rejected(2) by auto
  with rejected(1) show ?thesis by simp
next
  case (resumed u boot)
  have "u = st" using open_inputs_load [OF resumed(1)] assms(2) by (rule store_load_holds)
  moreover have "running_ok (opened opts d u boot)"
    using open_runtime_ok [OF assms(1) [unfolded resumed(2)] assms(2)] by simp
  moreover have "node_marked (Stopped d')"
    using assms(2,3) unfolding resumed(3) by auto
  moreover have "s = opened opts d u boot" if "r = Inr s" for s
    using that resumed(2) by simp
  ultimately show ?thesis using assms(3) by (auto simp: opened_facts)
next
  case (moved u boot cause q s1)
  have u: "u = st" using open_inputs_load [OF moved(1)] assms(2) by (rule store_load_holds)
  let ?s = "opened opts d u boot" and ?m = "mutate_epoch env boot cause (\<not> counter_is_zero (st_current_epoch u))"
  have s: "holds (im_disk ?s) (im_state ?s)" "marked (im_disk ?s) (im_state ?s)"
    using assms(2,3) by (simp_all add: opened_facts u)
  note c = establish_commit [OF moved(2)]
  have "node_marked (Stopped d')"
    unfolding moved(4) node_marked.simps
    by (rule moves_marked [OF conjunct1 [OF c] s(1) state_le_refl s(2)]) (rule wrote_le [OF mutate_epoch_progress _ opened_facts(4)])
  moreover have "node_marked (Running s)" if r: "r = Inr s" for s
  proof -
    have q: "\<not> isl q" "s1 = s" using r moved(3) by (cases q; simp)+
    from c q obtain x t where t: "?m (begin_tx ?s) = (Inr x, t)" "s = committed (en_io env) (tx_impl t)" by auto
    have "written ?s s"
      unfolding t(2) by (rule committed_written) (rule body_disk [OF mutate_epoch_progress t(1)])
    moreover have "running_ok s \<and> state_le (im_state ?s) (im_state s)"
      using open_runtime_ok [OF assms(1) [unfolded r] assms(2)] by (simp add: opened_facts u)
    ultimately show ?thesis using written_marked s(2) by simp
  qed
  ultimately show ?thesis by blast
qed

lemma step_marked:
  assumes "guarded_step ok n n'" "node_marked n"
  shows "node_marked n'"
  using assms
proof (induction rule: guarded_step.induct)
  case (serve q s s')
  then have ok: "running_ok s" "running_ok s'" "state_le (im_state s) (im_state s')"
    using perform_request [of s q "Inr ()" s'] by (auto simp: serves_def)
  have "written s s'" using perform_leaves [OF ok(1) serve(2)] by simp
  with serve ok show ?case using written_marked by simp
next
  case (fail q s e s')
  then have s: "running_ok s" "marked (im_disk s) (im_state s)" by simp_all
  have "running_ok s'"
    by (rule undone_running [OF s(1) fail(3) conjunct1 [OF perform_request [OF s(1) fail(2)]]])
  moreover have "marked (im_disk s') (im_state s')"
    using marked_later [OF s(2), of "im_state s'"] undone_le [OF fail(3)] watermark_same [OF perform_failed [OF fail(2)]]
    by (simp add: marked_def state_le_def)
  ultimately show ?case by simp
next
  case (die q s e s')
  then have s: "running_ok s" "marked (im_disk s) (im_state s)" by simp_all
  obtain u where u: "holds (im_disk s) u" "state_le (im_state s) u" using running_holds [OF s(1)] by blast
  from moves_marked [OF conjunct1 [OF perform_leaves [OF s(1) die(2)]] u s(2) leaves_le [OF s(1)]]
  show ?case by simp
next
  case (crash s)
  then have s: "running_ok s" "marked (im_disk s) (im_state s)" by simp_all
  obtain u where "holds (im_disk s) u" "state_le (im_state s) u" using running_holds [OF s(1)] by blast
  with marked_later [OF s(2)] show ?case by (auto simp: state_le_def)
next
  case (start env opts d s d')
  then show ?case using establish_marked [OF start(1)] by auto
next
  case (refuse env opts d e d')
  then show ?case using establish_marked [OF refuse(1)] by auto
qed

lemma lives_marked: "guarded_lives ok n n' \<Longrightarrow> node_marked n \<Longrightarrow> node_marked n'"
  by (induction rule: rtranclp_induct) (auto dest: step_marked)

lemma blank_marked: "image_file d = None \<Longrightarrow> watermark_file d = None \<Longrightarrow> node_marked (Stopped d)"
  by (auto simp: holds_def marked_def read_watermark_def)

section \<open>Opening again\<close>

definition reopenable :: "EpochRuntimeOptions \<Rightarrow> bool" where
  "reopenable opts \<longleftrightarrow>
     (\<exists>store. new_store (store_options opts) = Inr store) \<and> is_viable (op_limits opts) \<and>
     op_store_path opts \<noteq> [] \<and> \<not> op_advance_epoch_on_open opts"

text \<open>Validation reads the records and the indexes over them, and nothing else.\<close>

lemma validate_same:
  assumes "im_state u = im_state s" "indexes_match u" "indexes_match s"
  shows "validate_authority u request = validate_authority s request"
proof -
  have ix: "im_participant_index u = im_participant_index s" "im_fence_index u = im_fence_index s"
    "im_grant_index u = im_grant_index s"
    using assms by (simp_all add: indexes_match_def)
  have at: "participant_at u = participant_at s"
    using assms(1) by (simp add: participant_at_def fun_eq_iff)
  have find: "find_participant u = find_participant s"
    unfolding find_participant_def assms(1) ix ..
  have fence: "lookup_fence u = lookup_fence s"
    unfolding lookup_fence_def find_fence_record_def assms(1) ix find at ..
  have grant: "lookup_grant u = lookup_grant s"
    unfolding lookup_grant_def assms(1) ix ..
  have evaluated: "evaluate_incarnation u = evaluate_incarnation s"
    unfolding evaluate_incarnation_def fence ..
  show ?thesis
    unfolding validate_authority_def validate_grant_def validate_plain_def grant_verdict_def
      participant_verdict_def find at grant evaluated assms(1) ..
qed

text \<open>
  C4. A crash loses nothing that was saved. When a coordinator dies in a life that began on an empty store and in which every
  request that threw left the records in memory as they were before it (or was the last before the process ended), and the
  records in its memory are those on its disk (as they are unless the last save was reported to fail) and can be read back with
  the limits of the next one (\<open>storable\<close>: every field fits, and a history without provenance has not become too short for the
  decoder), then a coordinator that is opened on what it left, without advancing the epoch, starts; and it answers every
  validation as the one that died would have, so that workers keep exactly the authority they had.
\<close>

theorem crash_is_resumed:
  assumes "steady_lives (Stopped d) (Running s)" "image_file d = None" "watermark_file d = None" "saved s"
    and "reopenable opts" "storable (store_options opts) (im_state s)" "op_coordinator_boot opts = Some boot"
    and "en_io env = io_ok"
  shows "\<exists>u. open_runtime env opts (im_disk s) = (Inr u, im_disk s) \<and> running_ok u \<and> im_state u = im_state s \<and>
    (\<forall>request. validate_authority u request = validate_authority s request)"
proof -
  have s: "running_ok s" "marked (im_disk s) (im_state s)"
    using lives_marked [OF assms(1) blank_marked [OF assms(2,3)]] by simp_all
  obtain img where img: "store_encode (im_state s) = Inr img" "image_file (im_disk s) = Some img"
    using assms(4) by (auto simp: saved_def)
  have load: "store_load (store_options opts) io_ok (im_disk s) = Inr (im_state s)"
    using load_image [OF assms(6)] img marked_accepts [OF s(2), of opts]
    by (auto simp: watermark_accepts_def split: sum.splits)
  let ?u = "opened opts (im_disk s) (im_state s) boot"
  have inputs: "open_inputs env opts (im_disk s) = Inr (im_state s, boot)"
    using assms(5,7,8) load
    by (auto simp: open_inputs_def reopenable_def new_store_def res_bind_eq_Inr split: if_splits)
  have opened: "open_runtime env opts (im_disk s) = (Inr ?u, im_disk s)"
    using inputs s(1) assms(5) by (simp add: open_runtime_def reopenable_def running_ok_def)
  have "running_ok ?u"
    using open_runtime_ok [OF opened saved_holds [OF assms(4)]] by simp
  moreover have "validate_authority ?u request = validate_authority s request" for request
    using s(1) by (intro validate_same) (simp_all add: opened_facts running_ok_def)
  ultimately show ?thesis using opened by (auto simp: opened_facts)
qed

definition resume_options :: EpochRuntimeOptions where
  "resume_options = demo_options\<lparr> op_advance_epoch_on_open := False \<rparr>"

theorem crash_is_resumed_witness:
  "\<exists>(s :: impl) u. open_runtime demo_env resume_options (im_disk s) = (Inr u, im_disk s) \<and>
     av_authorized (validate_authority u token_request)"
proof -
  obtain s where s: "steady_lives (Stopped empty_disk) (Running s)" "at_state s state2" by (rule demo_born)
  have fits: "storable (store_options resume_options) (im_state s)"
    using state2_storable at_stateD(2) [OF s(2)] by (simp add: resume_options_def store_options_def)
  have "reopenable resume_options"
    using default_limits_viable
    by (simp add: reopenable_def resume_options_def new_store_def store_options_def demo_options_def)
  moreover have "op_coordinator_boot resume_options = Some (Fixed128Id 1)"
    by (simp add: resume_options_def demo_options_def)
  ultimately obtain u where u: "open_runtime demo_env resume_options (im_disk s) = (Inr u, im_disk s)"
    "validate_authority u token_request = validate_authority s token_request"
    using crash_is_resumed [OF s(1) _ _ at_stateD(4) [OF s(2)] _ fits, of "Fixed128Id 1" demo_env]
    by (auto simp: empty_disk_def)
  have "av_authorized (validate_authority u token_request)"
    using state2_authorizes(1) [OF s(2)] unfolding u(2) .
  with u(1) show ?thesis by blast
qed

end
