(* ===== verification/Delegation.thy ===== *)
theory Delegation
  imports Invariants Revocation
begin

text \<open>
  Delegation over the whole life of a coordinator: a grant that was delegated from another never outlives its
  revocation, and never exceeds its scopes.
\<close>

section \<open>The invariant\<close>

definition derives_from :: "AuthorityGrant \<Rightarrow> AuthorityGrant \<Rightarrow> bool" where
  "derives_from h g \<longleftrightarrow>
     (ag_revoked g \<longrightarrow> ag_revoked h) \<and> set (scopes (ag_scopes h)) \<subseteq> set (scopes (ag_scopes g))"

definition delegation_ok :: "DurableState \<Rightarrow> bool" where
  "delegation_ok st \<longleftrightarrow>
     (\<forall>g \<in> set (st_grants st). \<forall>h \<in> set (st_grants st).
        ag_parent h = Some (ag_id g) \<longrightarrow> derives_from h g)"

text \<open>Most requests do not touch the grants.\<close>

definition same_grants :: "impl \<Rightarrow> impl \<Rightarrow> bool" where
  "same_grants s u \<longleftrightarrow> grants_of u = grants_of s"

interpretation same_grants: tx_relation same_grants
  by unfold_locales (auto simp: same_grants_def)

lemma same_grants_steps:
  "same_grants s (upd_participant i f s)" "same_grants s (set_generation g s)"
  "same_grants s (set_fence_generation i g' s)" "same_grants s (close_incarnation i boot seq s)"
  "same_grants s (retain_fence i r s)" "same_grants s (set_registration_floor g'' s)"
  "same_grants s (upd_state (\<lambda>st. st\<lparr> st_recent_fences := h st \<rparr>) s)"
  "same_grants s (add_participant p s)" "same_grants s (remember_for_participant rec i s)"
  "same_grants s (enter_incarnation request digest i g'' n n' s)" "same_grants s (remember_control rec s)"
  by (simp_all add: same_grants_def upd_participant_def upd_state_def set_generation_def
      set_fence_generation_def close_incarnation_def retain_fence_def set_registration_floor_def
      add_participant_def remember_for_participant_def enter_incarnation_def remember_control_def Let_def)

lemmas same_grants_intros = same_grants.gives_rules same_grants.gives_modify same_grants_steps

lemma bump_generation_grants: "tx_gives same_grants bump_generation"
  unfolding bump_generation_def by (intro same_grants_intros)

lemma record_fence_grants: "tx_gives same_grants (record_fence pid boot reason nt allow)"
  unfolding record_fence_def live_fence_def defensive_fence_def Let_def
  by (intro same_grants_intros bump_generation_grants)

lemma fence_body_grants: "tx_gives same_grants (fence_body request)"
proof -
  have step: "tx_gives same_grants (\<lambda>t. if tx_mutated t
      then (case find_participant (tx_impl t) pid of None \<Rightarrow> (Inr result, t)
        | Some j \<Rightarrow> tx_bind (tx_modify (remember_for_participant r j)) (\<lambda>_. tx_return result) t)
      else (Inr result, t))" for pid r and result :: FenceResult
    by (auto simp: tx_gives_def tx_simps same_grants.rel_refl same_grants_steps split: option.splits)
  show ?thesis
    unfolding fence_body_def Let_def by (intro same_grants_intros record_fence_grants step)
qed

lemma apply_registration_grants: "tx_gives same_grants (apply_registration request c)"
  unfolding apply_registration_def finish_registration_def replace_incumbent_def
    accept_registration_def open_record_def issue_registration_def Let_def
  by (intro same_grants_intros record_fence_grants bump_generation_grants)

lemma batch_body_grants: "tx_gives same_grants (batch_body requests)"
proof -
  have all: "tx_gives same_grants (apply_registrations requests)"
    by (induction requests) (simp_all add: same_grants.gives_basic same_grants.gives_bind apply_registration_grants)
  have "tx_gives same_grants (tx_bind bump_generation (\<lambda>_. tx_return results))" for results :: "RegistrationResult list"
    by (intro same_grants_intros bump_generation_grants)
  then have step: "tx_gives same_grants (\<lambda>t. if tx_mutated t then tx_bind bump_generation (\<lambda>_. tx_return results) t
      else (Inr results, t))" for results :: "RegistrationResult list"
    by (auto simp: tx_gives_def same_grants.rel_refl)
  show ?thesis unfolding batch_body_def by (intro same_grants.gives_bind all step)
qed

lemma fence_all_grants: "tx_gives same_grants (fence_all request boots count)"
  by (induction boots arbitrary: count)
    (simp_all add: same_grants.gives_basic same_grants.gives_bind same_grants.gives_if record_fence_grants)

lemma apply_retire_grants: "tx_gives same_grants (apply_retire request)"
  unfolding apply_retire_def enter_retirement_def Let_def
  by (intro same_grants_intros fence_all_grants bump_generation_grants)

lemma canonicalize_grants: "grants_of (canonicalize s) = grants_of s"
  by (simp add: canonicalize_def)

lemma same_grants_ok:
  assumes "tx_gives same_grants body" "wrote body s st" "delegation_ok (im_state s)"
  shows "delegation_ok st"
proof -
  obtain u where "same_grants s u" "st = im_state (canonicalize u)"
    using assms(1,2) by (rule wrote_gives)
  then have "st_grants st = grants_of s" by (simp add: same_grants_def canonicalize_grants)
  with assms(3) show ?thesis by (simp add: delegation_ok_def)
qed

section \<open>Delegating\<close>

lemma delegation_check_passes:
  assumes "delegation_check s request q = None"
  shows "\<exists>k. lookup_grant s q = Some k \<and> \<not> ag_revoked (grants_of s ! k) \<and>
    scope_set_contains_all (ag_scopes (grants_of s ! k)) (gq_scopes request)"
  using assms by (auto simp: delegation_check_def Let_def split: option.splits if_splits)

text \<open>A hit of the binary search is a member, whatever the order of the scopes.\<close>

lemma contains_member:
  assumes "scope_set_contains s x"
  shows "x \<in> set (scopes s)"
proof -
  let ?rest = "dropWhile (\<lambda>y. y < x) (scopes s)"
  have "?rest \<noteq> []" "hd ?rest = x" using assms by (simp_all add: scope_set_contains_def lower_bound_def)
  then have "x \<in> set ?rest" by (metis list.set_sel(1))
  then show ?thesis by (auto dest: set_dropWhileD)
qed

lemma contains_all_members: "scope_set_contains_all s other \<Longrightarrow> set (scopes other) \<subseteq> set (scopes s)"
  by (auto simp: scope_set_contains_all_def list_all_iff contains_member)

text \<open>What a request for a grant writes: nothing, or one more grant.\<close>

lemma enter_grant_grants:
  assumes "enter_grant request digest i gid t = (Inr r, t')"
  shows "\<exists>n. grants_of (tx_impl t') =
    grants_of (tx_impl t) @ [(new_grant (tx_impl t) request gid)\<lparr> ag_generation := n \<rparr>]"
  using assms
  by (auto simp: enter_grant_def tx_simps Let_def tx_bind_def [of bump_generation]
      dest!: bump_generation_effect split: prod.splits sum.splits)
    (auto simp: stamp_grant_def upd_grant_def upd_state_def set_generation_def append_grant_def
      remember_for_participant_def upd_participant_def Let_def)

lemma apply_grant_grants:
  assumes "apply_grant env request t = (Inr r, t')"
  shows "grants_of (tx_impl t') = grants_of (tx_impl t) \<or>
    (\<exists>gid n. grants_of (tx_impl t') =
        grants_of (tx_impl t) @ [(new_grant (tx_impl t) request gid)\<lparr> ag_generation := n \<rparr>] \<and>
      (\<forall>q. gq_parent request = Some q \<longrightarrow> delegation_check (tx_impl t) request q = None))"
proof -
  have "t' = t \<or> (\<exists>digest i gid. enter_grant request digest i gid t = (Inr r, t') \<and>
      (\<forall>q. gq_parent request = Some q \<longrightarrow> delegation_check (tx_impl t) request q = None))"
    using assms
    by (cases "grant_digest request"; cases "en_grant env")
      (auto simp: apply_grant_def tx_simps Let_def split: option.splits if_splits)
  then show ?thesis using enter_grant_grants by (elim disjE exE conjE) (simp, metis)
qed

lemma grant_delegation:
  assumes "wrote (apply_grant env request) s st" "running_ok s" "delegation_ok (im_state s)"
    and "validate_durable_state st = Inr ()" "\<not> counter_is_zero (st_current_epoch st)"
  shows "delegation_ok st"
proof -
  obtain r t where t: "apply_grant env request (begin_tx s) = (Inr r, t)" "st = im_state (canonicalize (tx_impl t))"
    using assms(1) by (auto simp: wrote_def)
  have b: "tx_impl (begin_tx s) = s" by (simp add: begin_tx_def)
  have st: "st_grants st = grants_of (tx_impl t)" by (simp add: t(2) canonicalize_grants)
  from apply_grant_grants [OF t(1)] show ?thesis
    unfolding b
  proof (elim disjE exE conjE)
    assume "grants_of (tx_impl t) = grants_of s"
    then show ?thesis using assms(3) st by (simp add: delegation_ok_def)
  next
    fix gid n
    let ?new = "(new_grant s request gid)\<lparr> ag_generation := n \<rparr>"
    assume new: "grants_of (tx_impl t) = grants_of s @ [?new]"
      and check: "\<forall>q. gq_parent request = Some q \<longrightarrow> delegation_check s request q = None"
    have wf: "durable_wf st"
      using assms(4,5) by (simp add: validate_durable_state_iff split: if_splits)
    have fresh: "ag_id ?new \<notin> ag_id ` set (grants_of s)" "ag_parent ?new \<noteq> Some (ag_id ?new)"
      using wf st new by (auto simp: durable_wf_def grant_wf_def)
    have known: "\<exists>g \<in> set (grants_of s). q = ag_id g" if "h \<in> set (grants_of s)" "ag_parent h = Some q" for h q
    proof -
      have "\<forall>g \<in> set (grants_of s). grant_wf (im_state s) g"
        using running_ok_wf(1) [OF assms(2)] by (simp add: records_wf_iff)
      with that have "q \<in> ag_id ` set (grants_of s)" by (auto simp: grant_wf_def)
      then show ?thesis by blast
    qed
    have "derives_from h g" if "g \<in> set (grants_of s)" "h \<in> set (grants_of s)" "ag_parent h = Some (ag_id g)" for g h
      using assms(3) that by (simp add: delegation_ok_def)
    moreover have "derives_from ?new g" if g: "g \<in> set (grants_of s)" "ag_parent ?new = Some (ag_id g)" for g
    proof -
      have "gq_parent request = Some (ag_id g)" using g(2) by (simp add: new_grant_def)
      with check delegation_check_passes obtain k where
        k: "lookup_grant s (ag_id g) = Some k" "\<not> ag_revoked (grants_of s ! k)"
          "scope_set_contains_all (ag_scopes (grants_of s ! k)) (gq_scopes request)" by blast
      have "g = grants_of s ! k" using graph_only [OF running_graph [OF assms(2)] k(1) g(1) refl] by simp
      with k show ?thesis by (simp add: derives_from_def new_grant_def contains_all_members)
    qed
    moreover have "ag_parent h \<noteq> Some (ag_id ?new)" if "h \<in> set (grants_of s)" for h
      using known [OF that] fresh(1) by auto
    ultimately show ?thesis
      using fresh(2) unfolding delegation_ok_def st new by auto
  qed
qed

section \<open>Revoking\<close>

lemma swept_all: "swept {} s \<longleftrightarrow>
    (\<forall>g \<in> set (grants_of s). \<forall>h \<in> set (grants_of s). ag_parent h = Some (ag_id g) \<longrightarrow> ag_revoked g \<longrightarrow> ag_revoked h)"
  by (auto simp: swept_def)

lemma revoke_walk_length:
  "revoke_walk fuel root pending n s = (rest, m, u) \<Longrightarrow> length (grants_of u) = length (grants_of s)"
  by (induction fuel root pending n s rule: revoke_walk.induct)
    (auto simp: Let_def split: option.splits if_splits)

lemma revoke_delegation:
  assumes "wrote (apply_revoke request) s st" "running_ok s" "delegation_ok (im_state s)"
  shows "delegation_ok st"
proof -
  obtain r t where t: "apply_revoke request (begin_tx s) = (Inr r, t)" "st = im_state (canonicalize (tx_impl t))"
    using assms(1) by (auto simp: wrote_def)
  have b: "tx_impl (begin_tx s) = s" by (simp add: begin_tx_def)
  have st: "st_grants st = grants_of (tx_impl t)" by (simp add: t(2) canonicalize_grants)
  have known: "ids_known s" using assms(2) by (simp add: running_ok_def indexes_match_known)
  have swept: "swept {} s" using assms(3) by (auto simp: swept_all delegation_ok_def derives_from_def)
  have "t = begin_tx s \<or> (\<exists>digest k. lookup_grant s (vq_grant request) = Some k \<and>
      \<not> ag_revoked (grants_of s ! k) \<and> enter_revocation request digest k (begin_tx s) = (Inr r, t))"
    using t(1) by (cases "revoke_digest request")
      (auto simp: apply_revoke_def tx_simps b Let_def split: option.splits if_splits)
  then show ?thesis
  proof (elim disjE exE conjE)
    assume "t = begin_tx s"
    then show ?thesis using assms(3) st b by (simp add: delegation_ok_def)
  next
    fix digest k
    assume k: "lookup_grant s (vq_grant request) = Some k" "\<not> ag_revoked (grants_of s ! k)"
      "enter_revocation request digest k (begin_tx s) = (Inr r, t)"
    have root: "ag_id (grants_of s ! k) = vq_grant request"
      using lookup_graph [OF running_graph [OF assms(2)] k(1)] by simp
    obtain rest m u where
      w: "revoke_walk (walk_fuel s) (vq_grant request) [vq_grant request] 0 s = (rest, m, u)"
      and flags: "same_flags (grants_of u) (grants_of (tx_impl t))"
      using enter_revocation_effect [OF k(3)] unfolding b root by blast
    have u: "swept {} u"
      using walk_revokes [OF running_graph [OF assms(2)] swept k(1,2) known w] by simp
    have le: "grants_le (grants_of s) (grants_of (tx_impl t))"
      using wrote_le [OF apply_revoke_progress assms(1) known] st by (simp add: state_le_def)
    have len: "length (grants_of (tx_impl t)) = length (grants_of u)"
      using arg_cong [OF flags [unfolded same_flags_def], of length] by simp
    have flag: "ag_id (grants_of (tx_impl t) ! i) = ag_id (grants_of u ! i)"
      "ag_parent (grants_of (tx_impl t) ! i) = ag_parent (grants_of u ! i)"
      "ag_revoked (grants_of (tx_impl t) ! i) = ag_revoked (grants_of u ! i)"
      if "i < length (grants_of u)" for i
      using arg_cong [OF flags [unfolded same_flags_def], of "\<lambda>xs. xs ! i"] that len by simp_all
    have lenu: "length (grants_of u) = length (grants_of s)"
      using w revoke_walk_length by metis
    show ?thesis
      unfolding delegation_ok_def st
    proof (intro ballI impI)
      fix g h assume gh: "g \<in> set (grants_of (tx_impl t))" "h \<in> set (grants_of (tx_impl t))" "ag_parent h = Some (ag_id g)"
      then obtain i j where ij: "i < length (grants_of u)" "g = grants_of (tx_impl t) ! i"
          "j < length (grants_of u)" "h = grants_of (tx_impl t) ! j"
        by (metis in_set_conv_nth len)
      have "ag_parent (grants_of u ! j) = Some (ag_id (grants_of u ! i))"
        using gh(3) ij by (simp add: flag)
      then have "ag_revoked (grants_of u ! i) \<longrightarrow> ag_revoked (grants_of u ! j)"
        using u nth_mem [OF ij(1)] nth_mem [OF ij(3)] unfolding swept_all by blast
      then have "ag_revoked g \<longrightarrow> ag_revoked h"
        using ij by (simp add: flag)
      moreover have "grant_le (grants_of s ! i) g" "grant_le (grants_of s ! j) h"
        using le ij lenu by (simp_all add: grants_le_def)
      moreover have "derives_from (grants_of s ! j) (grants_of s ! i)"
        using assms(3) gh(3) ij lenu calculation(2,3) unfolding delegation_ok_def
        by (simp add: grant_le_def)
      ultimately show "derives_from h g" by (simp add: derives_from_def grant_le_def)
    qed
  qed
qed

section \<open>Every life\<close>

interpretation delegation: durable_invariant "\<lambda>_. True" delegation_ok
proof
  show "delegation_ok initial_state"
    by (simp add: delegation_ok_def initial_state_def)
  show "delegation_ok u" if "epoch_entered st invalidate u" "delegation_ok st" for st invalidate u
    using that by (simp add: delegation_ok_def epoch_entered_def)
  show "delegation_ok (without_attempts st) = delegation_ok st" for st
    by (simp add: delegation_ok_def)
  fix q s st
  assume q: "running_ok s" "delegation_ok (im_state s)" "enters q s st" "validate_durable_state st = Inr ()"
  show "delegation_ok st"
  proof (cases q)
    case (Register io x)
    with q same_grants_ok [OF apply_registration_grants] show ?thesis by simp
  next
    case (RegisterBatch io xs)
    with q same_grants_ok [OF batch_body_grants] show ?thesis by simp
  next
    case (Fence io x)
    with q same_grants_ok [OF fence_body_grants] show ?thesis by simp
  next
    case (Grant env x)
    have "\<not> counter_is_zero (st_current_epoch st)"
      using leaves_le [OF q(1), of q st] q(1,3)
      by (auto simp: leaves_def running_ok_def state_le_def counter_is_zero_def less_eq_MonotonicCounter_def)
    with Grant q grant_delegation show ?thesis by simp
  next
    case (Revoke io x)
    with q revoke_delegation show ?thesis by simp
  next
    case (Retire io x)
    with q same_grants_ok [OF apply_retire_grants] show ?thesis by simp
  next
    case (Advance env x)
    with q(2,3) move_epoch_wrote show ?thesis by (auto simp: delegation_ok_def epoch_entered_def)
  next
    case (Bind b)
    with q show ?thesis by simp
  next
    case (Close io sid reason)
    with q(2,3) same_grants_ok [OF record_fence_grants] show ?thesis by auto
  next
    case (Flush io)
    with q show ?thesis by simp
  qed
qed

section \<open>What a delegate may do\<close>

text \<open>The invariant, along chains of delegation.\<close>

lemma derives_along:
  assumes "delegation_ok (im_state s)" "distinct (map ag_id (grants_of s))"
    and "(ag_id g, y) \<in> (delegates (grants_of s))\<^sup>*" "g \<in> set (grants_of s)"
    and "h \<in> set (grants_of s)" "ag_id h = y"
  shows "derives_from h g"
  using assms(3,5,6)
proof (induction arbitrary: h rule: rtrancl_induct)
  case base
  then have "h = g" using assms(2,4) by (auto simp: distinct_map dest: inj_onD)
  then show ?case by (simp add: derives_from_def)
next
  case (step x z)
  obtain i where i: "i \<in> set (grants_of s)" "ag_id i = z" "ag_parent i = Some x"
    using step.hyps(2) by (auto simp: delegates_def)
  have h: "h = i" using i step.prems assms(2) by (auto simp: distinct_map dest: inj_onD)
  have x: "x \<in> ag_id ` set (grants_of s)"
    using step.hyps(1) assms(4) by (cases rule: rtranclE) (auto simp: delegates_def)
  then obtain k where k: "k \<in> set (grants_of s)" "ag_id k = x" by blast
  have "derives_from i k"
    using assms(1) i k unfolding delegation_ok_def by simp
  with step.IH [OF k] show ?case by (auto simp: h derives_from_def)
qed

text \<open>
  C5. Authority only narrows as it is delegated: in every state of every life that began on an empty store and in which every
  request that threw left the records in memory as they were before it (or was the last before the process ended), a request
  that validates through a grant asks for a scope of every grant which that one was delegated from, directly or through
  others, and none of them is revoked. (A failed revocation is outside this when it takes back revocations that were there
  before it, as \<open>restore_revocations\<close> does for every grant below the one it names.)
\<close>

theorem delegate_within_grantor:
  assumes "steady_lives (Stopped d) (Running s)" "image_file d = None"
    and "av_authorized (validate_authority s request)" "va_grant request = Some gid"
    and "g \<in> set (grants_of s)" "(ag_id g, gid) \<in> (delegates (grants_of s))\<^sup>*"
  shows "\<not> ag_revoked g \<and> va_scope request \<in> set (scopes (ag_scopes g))"
proof -
  have ok: "running_ok s" "delegation_ok (im_state s)"
    using delegation.born_keeps [OF assms(1,2)] by simp_all
  obtain k where k: "lookup_grant s gid = Some k" "\<not> ag_revoked (grants_of s ! k)"
    "scope_set_contains (ag_scopes (grants_of s ! k)) (va_scope request)"
    using assms(3) validate_grant_iff [OF ok(1) authorized_wf [OF assms(3)] assms(4)] by (auto simp: Let_def)
  have h: "grants_of s ! k \<in> set (grants_of s)" "ag_id (grants_of s ! k) = gid"
    using lookup_graph [OF running_graph [OF ok(1)] k(1)] by simp_all
  have "distinct (map ag_id (grants_of s))"
    using running_graph [OF ok(1)] by (simp add: graph_ok_def)
  with derives_along [OF ok(2) _ assms(6,5) h] have "derives_from (grants_of s ! k) g" by simp
  with k contains_member [OF k(3)] show ?thesis by (auto simp: derives_from_def)
qed

lemma demo_granted:
  obtains s where "steady_lives (Stopped empty_disk) (Running s)" "at_state s state4"
proof -
  obtain s2 where s2: "steady_lives (Stopped empty_disk) (Running s2)" "at_state s2 state2" by (rule demo_born)
  obtain r s4 where s4: "grant_authority demo_env grant_request s2 = (Inr r, s4)" "at_state s4 state4"
    using grant_demo [OF s2(2)] by blast
  have "steady_lives (Running s2) (Running s4)"
    using s4(1) by (intro serve_step [of "Grant demo_env grant_request"]) simp
  with s2(1) have "steady_lives (Stopped empty_disk) (Running s4)" by (rule rtranclp_trans)
  then show thesis using s4(2) by (rule that)
qed

theorem delegate_within_grantor_witness:
  "\<exists>s. av_authorized (validate_authority s granted_request) \<and> grants_of s = [grant1] \<and>
     va_scope granted_request \<in> set (scopes (ag_scopes grant1))"
proof -
  obtain s where s: "steady_lives (Stopped empty_disk) (Running s)" "at_state s state4"
    by (rule demo_granted)
  have g: "grant1 \<in> set (grants_of s)" using state4_grants(2) [OF s(2)] by simp
  have "va_grant granted_request = Some (ag_id grant1)" by (simp add: grant1_def)
  from delegate_within_grantor [OF s(1) _ state4_authorizes [OF s(2)] this g]
  show ?thesis
    using state4_authorizes [OF s(2)] state4_grants(2) [OF s(2)] by (intro exI [of _ s]) (simp add: empty_disk_def)
qed

end
