(* ===== verification/Arguments.thy ===== *)
theory Arguments
  imports Store
begin

text \<open>
  Command lines (\<open>apps/arguments.hpp\<close>, \<open>apps/arguments.cpp\<close>): the options and positional arguments of the three tools and
  the values in them. Decimal options are accepted exactly when their value fits in 64 bits; scopes
  and fence reasons are read back exactly from how they are printed.
\<close>

section \<open>Options and positional arguments\<close>

record Arguments =
  ar_positional :: "string list"
  ar_options :: "(string \<times> string) list"

definition no_arguments :: Arguments where
  "no_arguments = \<lparr> ar_positional = [], ar_options = [] \<rparr>"

definition args_has :: "Arguments \<Rightarrow> string \<Rightarrow> bool" where
  "args_has a key = list_ex (\<lambda>entry. fst entry = key) (ar_options a)"

definition args_get :: "Arguments \<Rightarrow> string \<Rightarrow> string option" where
  "args_get a key = map_option snd (find (\<lambda>entry. fst entry = key) (ar_options a))"

definition args_require :: "Arguments \<Rightarrow> string \<Rightarrow> string res" where
  "args_require a key =
     (case args_get a key of
        None \<Rightarrow> Inl (invalid_argument (''missing required option --'' @ key))
      | Some v \<Rightarrow> Inr v)"

definition args_get_all :: "Arguments \<Rightarrow> string \<Rightarrow> string list" where
  "args_get_all a key = map snd (filter (\<lambda>entry. fst entry = key) (ar_options a))"

definition args_get_or :: "Arguments \<Rightarrow> string \<Rightarrow> string \<Rightarrow> string" where
  "args_get_or a key fallback = (case args_get a key of Some v \<Rightarrow> v | None \<Rightarrow> fallback)"

fun parse_digits :: "string \<Rightarrow> u64 \<Rightarrow> string \<Rightarrow> u64 res" where
  "parse_digits key out [] = Inr out"
| "parse_digits key out (c # cs) =
     (if char_code c < char_code CHR ''0'' \<or> char_code CHR ''9'' < char_code c
      then Inl (invalid_argument (''option --'' @ key @ '' requires a numeric value''))
      else
        let digit = word_of_nat (char_code c - char_code CHR ''0'')
        in if (uint64_max - digit) div 10 < out
           then Inl (invalid_argument (''option --'' @ key @ '' overflows''))
           else parse_digits key (out * 10 + digit) cs)"

definition args_get_unsigned :: "Arguments \<Rightarrow> string \<Rightarrow> u64 option res" where
  "args_get_unsigned a key =
     (case args_get a key of
        None \<Rightarrow> Inr None
      | Some v \<Rightarrow>
          if v = [] then Inl (invalid_argument (''option --'' @ key @ '' requires a numeric value''))
          else res_bind (parse_digits key 0 v) (\<lambda>out. Inr (Some out)))"

section \<open>Reading the command line\<close>

definition is_option :: "string \<Rightarrow> bool" where
  "is_option token \<longleftrightarrow> 2 \<le> length token \<and> token ! 0 = CHR ''-'' \<and> token ! 1 = CHR ''-''"

definition add_option :: "string \<Rightarrow> string \<Rightarrow> Arguments \<Rightarrow> Arguments" where
  "add_option key v a = a\<lparr> ar_options := ar_options a @ [(key, v)] \<rparr>"

definition add_positional :: "string \<Rightarrow> Arguments \<Rightarrow> Arguments" where
  "add_positional token a = a\<lparr> ar_positional := ar_positional a @ [token] \<rparr>"

fun parse_tokens :: "Arguments \<Rightarrow> string list \<Rightarrow> Arguments res" where
  "parse_tokens parsed [] = Inr parsed"
| "parse_tokens parsed (token # rest) =
     (if is_option token
      then let key = drop 2 token
        in if key = [] then Inl (invalid_argument ''empty option name'')
           else case rest of
             next # others \<Rightarrow>
               if \<not> is_option next then parse_tokens (add_option key next parsed) others
               else parse_tokens (add_option key [] parsed) rest
           | [] \<Rightarrow> parse_tokens (add_option key [] parsed) []
      else parse_tokens (add_positional token parsed) rest)"

text \<open>The first element of \<open>argv\<close> is the name of the program.\<close>

definition parse_arguments :: "string list \<Rightarrow> Arguments res" where
  "parse_arguments argv = parse_tokens no_arguments (tl argv)"

section \<open>Values\<close>

definition parse_scope_kind :: "string \<Rightarrow> ScopeKind option" where
  "parse_scope_kind text = map_of
     [(''FABRIC'', Fabric), (''SITE'', Site), (''DOMAIN'', Domain), (''ENTITY_CLASS'', EntityClass),
      (''ENTITY'', Entity), (''OPERATION_FAMILY'', OperationFamily)] text"

definition parse_scope :: "string \<Rightarrow> AuthorityScope option" where
  "parse_scope text =
     (if CHR '':'' \<notin> set text then None
      else case parse_scope_kind (takeWhile (\<lambda>c. c \<noteq> CHR '':'') text) of
        None \<Rightarrow> None
      | Some kind \<Rightarrow> scope_parse kind (tl (dropWhile (\<lambda>c. c \<noteq> CHR '':'') text)))"

definition parse_fence_reason :: "string \<Rightarrow> FenceReason option" where
  "parse_fence_reason text = map_of
     [(''PROCESS_LOSS'', FenceReason.ProcessLoss), (''REINCARNATION'', FenceReason.Reincarnation),
      (''COORDINATOR_EPOCH_ADVANCE'', FenceReason.CoordinatorEpochAdvance),
      (''ADMINISTRATIVE_REVOKE'', FenceReason.AdministrativeRevoke),
      (''SESSION_PROTOCOL_VIOLATION'', FenceReason.SessionProtocolViolation),
      (''EXPLICIT_OPERATOR_FENCE'', FenceReason.ExplicitOperatorFence),
      (''AUTHORITY_REPLACED'', FenceReason.AuthorityReplaced), (''SHUTDOWN'', FenceReason.Shutdown)] text"

definition parse_incarnation_policy :: "string \<Rightarrow> IncarnationPolicy option" where
  "parse_incarnation_policy text =
     (if text = ''SINGLE_INCARNATION'' then Some IncarnationPolicy.SingleIncarnation
      else if text = ''MULTI_INCARNATION'' then Some IncarnationPolicy.MultiIncarnation
      else None)"

text \<open>\<open>fresh\<close> is what \<open>WorkerBootId::generate\<close> does: a new identifier, or the failure of the entropy source.\<close>

definition parse_boot :: "WorkerBootId res \<Rightarrow> string \<Rightarrow> WorkerBootId option res" where
  "parse_boot fresh text =
     (if text = ''generate'' then res_bind fresh (\<lambda>boot. Inr (Some boot)) else Inr (id_parse text))"

section \<open>Decimal values\<close>

definition is_digit :: "char \<Rightarrow> bool" where
  "is_digit c \<longleftrightarrow> char_code CHR ''0'' \<le> char_code c \<and> char_code c \<le> char_code CHR ''9''"

definition append_digit :: "nat \<Rightarrow> char \<Rightarrow> nat" where
  "append_digit n c = n * 10 + (char_code c - char_code CHR ''0'')"

definition decimal :: "string \<Rightarrow> nat" where
  "decimal s = foldl append_digit 0 s"

lemma digit_guard:
  assumes "d < 10"
  shows "(uint64_max - word_of_nat d) div 10 < e \<longleftrightarrow> 2 ^ 64 \<le> unat e * 10 + d"
proof -
  let ?d = "word_of_nat d :: u64"
  have d: "unat ?d = d" using assms by (simp add: unat_of_nat)
  have "unat (uint64_max - ?d) = 2 ^ 64 - 1 - d"
    using assms d by (simp add: unat_sub word_le_nat_alt unsigned_minus_1_eq_mask mask_eq_exp_minus_1)
  then have "unat ((uint64_max - ?d) div 10) = (2 ^ 64 - 1 - d) div 10" by (simp add: unat_div)
  moreover have "(2 ^ 64 - 1 - d) div 10 < unat e \<longleftrightarrow> 2 ^ 64 - 1 - d < unat e * 10"
    by (simp add: div_less_iff_less_mult)
  ultimately show ?thesis using assms by (simp add: word_less_nat_alt) linarith
qed

lemma foldl_digits_ge: "n \<le> foldl append_digit n s"
proof (induction s arbitrary: n)
  case (Cons c s)
  have "n \<le> append_digit n c" by (simp add: append_digit_def)
  with Cons [of "append_digit n c"] show ?case by simp
qed simp

lemma parse_digits_iff:
  "parse_digits key out s = Inr w \<longleftrightarrow>
     list_all is_digit s \<and> foldl append_digit (unat out) s < 2 ^ 64 \<and> unat w = foldl append_digit (unat out) s"
proof (induction s arbitrary: out)
  case Nil
  then show ?case using unsigned_less [of out] by (auto simp: word_unat_eq_iff)
next
  case (Cons c s)
  show ?case
  proof (cases "is_digit c")
    case False
    then show ?thesis by (auto simp: is_digit_def not_le)
  next
    case True
    define d where "d = char_code c - char_code CHR ''0''"
    have "char_code CHR ''0'' = 48" "char_code CHR ''9'' = 57" by (simp_all add: char_code_def)
    then have d: "d < 10" using True by (auto simp: d_def is_digit_def)
    have digit: "append_digit (unat out) c = unat out * 10 + d" by (simp add: append_digit_def d_def)
    have step: "parse_digits key out (c # s) =
        (if 2 ^ 64 \<le> unat out * 10 + d then Inl (invalid_argument (''option --'' @ key @ '' overflows''))
         else parse_digits key (out * 10 + word_of_nat d) s)"
      using True digit_guard [OF d, of out] by (simp add: is_digit_def d_def not_less Let_def)
    show ?thesis
    proof (cases "2 ^ 64 \<le> unat out * 10 + d")
      case True
      then have "2 ^ 64 \<le> foldl append_digit (append_digit (unat out) c) s"
        using foldl_digits_ge [of "append_digit (unat out) c" s] digit by linarith
      with True show ?thesis by (simp only: step) simp
    next
      case False
      have "out * 10 + word_of_nat d = word_of_nat (unat out * 10 + d)" by simp
      then have "unat (out * 10 + word_of_nat d) = unat out * 10 + d"
        using False by (simp only: unat_of_nat) simp
      with Cons [of "out * 10 + word_of_nat d"]
      have "parse_digits key (out * 10 + word_of_nat d) s = Inr w \<longleftrightarrow> list_all is_digit s \<and>
          foldl append_digit (append_digit (unat out) c) s < 2 ^ 64 \<and>
          unat w = foldl append_digit (append_digit (unat out) c) s"
        by (simp only: digit)
      then show ?thesis using False True by (simp only: step) simp
    qed
  qed
qed

text \<open>
  A numeric option is read exactly: it is accepted when, and only when, its text is a non-empty sequence of
  decimal digits whose value fits in 64 bits, and then the result is that value, never a wrapped one.
\<close>

theorem unsigned_option_exact:
  "args_get_unsigned a key = Inr (Some w) \<longleftrightarrow>
     (\<exists>v. args_get a key = Some v \<and> v \<noteq> [] \<and> list_all is_digit v \<and> decimal v < 2 ^ 64 \<and> unat w = decimal v)"
  by (auto simp: args_get_unsigned_def res_bind_eq_Inr parse_digits_iff decimal_def split: option.splits)

section \<open>Scopes and reasons, read back\<close>

lemma scope_kind_no_colon: "CHR '':'' \<notin> set (scope_kind_to_string k)"
  by (cases k) simp_all

lemma parse_scope_kind_iff: "parse_scope_kind t = Some k \<longleftrightarrow> t = scope_kind_to_string k"
  by (cases k) (auto simp: parse_scope_kind_def split: if_splits)

lemma parse_fence_reason_iff: "parse_fence_reason t = Some r \<longleftrightarrow> t = fence_reason_to_string r"
  by (cases r) (auto simp: parse_fence_reason_def split: if_splits)

text \<open>
  The command line reads scopes exactly as the program prints them: a text is accepted as a scope if and only if it
  is the printed form of a valid one, and that scope is the result.
\<close>

lemma parse_scope_iff:
  "parse_scope t = Some s \<longleftrightarrow> scope_valid s \<and> t = scope_to_string s"
proof (cases "CHR '':'' \<in> set t")
  case True
  then obtain v r where t: "t = v @ CHR '':'' # r" "CHR '':'' \<notin> set v"
    by (meson split_list_first)
  have printed: "t = scope_to_string s \<longleftrightarrow> v = scope_kind_to_string (scope_kind s) \<and> r = scope_subject s"
    using same_split [OF t(2) scope_kind_no_colon] by (simp add: t(1) scope_to_string_def)
  have parsed: "parse_scope t = (case parse_scope_kind v of None \<Rightarrow> None | Some kind \<Rightarrow> scope_parse kind r)"
    unfolding parse_scope_def t(1) takeWhile_until [OF t(2)] list.sel(3) by simp
  have kind: "scope_parse k r = Some s \<longleftrightarrow> k = scope_kind s \<and> r = scope_subject s \<and> scope_valid s" for k
    by (cases s) (auto simp: scope_parse_def scope_valid_def)
  show ?thesis
  proof (cases "parse_scope_kind v")
    case None
    then have "v \<noteq> scope_kind_to_string (scope_kind s)"
      using parse_scope_kind_iff [of v "scope_kind s"] by simp
    then show ?thesis unfolding parsed printed None by simp
  next
    case (Some k)
    then have "v = scope_kind_to_string (scope_kind s) \<longleftrightarrow> k = scope_kind s"
      using parse_scope_kind_iff [of v "scope_kind s"] by auto
    then show ?thesis unfolding parsed printed Some option.case kind by blast
  qed
next
  case False
  then show ?thesis by (auto simp: parse_scope_def scope_to_string_def)
qed

section \<open>Command lines, read back\<close>

lemma parse_options:
  assumes "\<forall>(k, v) \<in> set opts. k \<noteq> [] \<and> \<not> is_option v"
  shows "parse_tokens a (concat (map (\<lambda>(k, v). [''--'' @ k, v]) opts) @ rest) =
    parse_tokens (a\<lparr> ar_options := ar_options a @ opts \<rparr>) rest"
  using assms
proof (induction opts arbitrary: a)
  case (Cons o' opts)
  then show ?case by (cases o') (simp add: is_option_def add_option_def)
qed simp

lemma parse_positionals:
  "\<forall>t \<in> set ts. \<not> is_option t \<Longrightarrow> parse_tokens a ts = Inr (a\<lparr> ar_positional := ar_positional a @ ts \<rparr>)"
  by (induction ts arbitrary: a) (simp_all add: add_positional_def)

text \<open>
  A command line of options with values followed by positional arguments is read as written, in order, provided
  no value and no positional argument starts with two dashes.
\<close>

lemma parse_arguments_reads:
  assumes "\<forall>(k, v) \<in> set opts. k \<noteq> [] \<and> \<not> is_option v" "\<forall>t \<in> set ts. \<not> is_option t"
  shows "parse_arguments (program # concat (map (\<lambda>(k, v). [''--'' @ k, v]) opts) @ ts) =
    Inr \<lparr> ar_positional = ts, ar_options = opts \<rparr>"
  using parse_options [OF assms(1), of no_arguments ts] parse_positionals [OF assms(2)]
  by (simp add: parse_arguments_def no_arguments_def)

text \<open>A flag takes the positional argument after it for its value.\<close>

lemma flag_swallows_command:
  "parse_arguments [''fabric-epoch-cli'', ''--help'', ''version''] =
     Inr \<lparr> ar_positional = [], ar_options = [(''help'', ''version'')] \<rparr>"
  by code_simp

end
