(* ===== verification/Rendering.thy ===== *)
theory Rendering
  imports Store Frames
begin

text \<open>
  The diagnostic lines of the results (\<open>render\<close> in \<open>authority.cpp\<close>, \<open>epoch.cpp\<close>, \<open>fence.cpp\<close>, \<open>participant.cpp\<close> and
  \<open>snapshot.cpp\<close>, \<open>version_full\<close> of \<open>version.cpp\<close>): a key, an equals sign and a value for every field, with a blank
  between fields, one line for scripts to read. The line of an epoch state determines the state.
\<close>

section \<open>Lines of fields\<close>

text \<open>\<open>out.append("k1="); out.append(v1); out.append(" k2="); ...\<close>\<close>

fun render_fields :: "(string \<times> string) list \<Rightarrow> string" where
  "render_fields [] = []"
| "render_fields [(k, v)] = k @ ''='' @ v"
| "render_fields ((k, v) # rest) = k @ ''='' @ v @ '' '' @ render_fields rest"

definition bool_text :: "bool \<Rightarrow> string" where
  "bool_text b = (if b then ''true'' else ''false'')"

definition or_none :: "('a \<Rightarrow> string) \<Rightarrow> 'a option \<Rightarrow> string" where
  "or_none f v = (case v of Some x \<Rightarrow> f x | None \<Rightarrow> ''NONE'')"

section \<open>Results\<close>

definition validation_fields :: "AuthorityValidation \<Rightarrow> (string \<times> string) list" where
  "validation_fields v =
     [(''code'', validation_code_to_string (av_code v)),
      (''currentness'', currentness_to_string (av_currentness v)),
      (''epoch'', counter_to_string (av_epoch v)),
      (''coordinator_boot'', id_to_string (av_coordinator_boot v)),
      (''registration_generation'', or_none counter_to_string (av_generation v)),
      (''incarnation'', or_none counter_to_string (av_incarnation v)),
      (''replaced_by_epoch'', or_none counter_to_string (av_replaced_by_epoch v)),
      (''superseded_by'', or_none id_to_string (av_superseded_by v))]"

definition render_validation :: "AuthorityValidation \<Rightarrow> string" where
  "render_validation v = render_fields (validation_fields v)"

definition epoch_state_fields :: "EpochState \<Rightarrow> (string \<times> string) list" where
  "epoch_state_fields s =
     [(''epoch'', counter_to_string (es_epoch s)),
      (''coordinator_boot'', id_to_string (es_coordinator_boot s)),
      (''generation'', counter_to_string (es_generation s)),
      (''registration_floor'', counter_to_string (es_registration_floor s)),
      (''fence_floor'', counter_to_string (es_fence_floor s)),
      (''participants'', dec_string (es_participant_count s)),
      (''active_workers'', dec_string (es_active_worker_count s)),
      (''retained_fences'', dec_string (es_retained_fence_count s)),
      (''live_grants'', dec_string (es_live_grant_count s)),
      (''transitions'', dec_string (es_transition_history_count s))]"

definition render_epoch_state :: "EpochState \<Rightarrow> string" where
  "render_epoch_state s = render_fields (epoch_state_fields s)"

definition render_fence_status :: "FenceStatus \<Rightarrow> string" where
  "render_fence_status f = render_fields
     [(''boot'', id_to_string (fx_boot f)),
      (''participant'', pid_value (fx_participant f)),
      (''fenced'', bool_text (fx_fenced f)),
      (''retained_record'', bool_text (fx_retained_record f)),
      (''reason'', or_none fence_reason_to_string (fx_reason f)),
      (''fenced_at_epoch'', or_none counter_to_string (fx_fenced_at_epoch f)),
      (''replaced_by_epoch'', or_none counter_to_string (fx_replaced_by_epoch f)),
      (''superseded_by'', or_none id_to_string (fx_superseded_by f)),
      (''incarnation'', or_none counter_to_string (fx_incarnation f))]"

definition render_view :: "ParticipantView \<Rightarrow> string" where
  "render_view v = render_fields (
     [(''participant'', pid_value (pv_id v)),
      (''registration_generation'', counter_to_string (pv_registration_generation v)),
      (''fence_generation'', counter_to_string (pv_fence_generation v)),
      (''incarnation_floor'', counter_to_string (pv_incarnation_floor v)),
      (''policy'', incarnation_policy_to_string (pv_policy v)),
      (''retired'', bool_text (pv_retired v)),
      (''revalidation_required'', bool_text (pv_revalidation_required v)),
      (''active_incarnations'', dec_string (pv_active_incarnation_count v))] @
     (if pv_has_active_incarnation v
      then [(''active_boot'', id_to_string (pv_active_boot v)),
        (''active_incarnation'', counter_to_string (pv_active_incarnation v))]
      else []) @
     [(''scopes'', scope_set_to_string (pv_scopes v)),
      (''accepted_registrations'', dec_string (unat (pv_accepted_registrations v))),
      (''replay_hits'', dec_string (unat (pv_replay_hits v)))])"

definition render_snapshot :: "AuthoritySnapshot \<Rightarrow> string" where
  "render_snapshot s = render_fields
     [(''snapshot'', id_to_string (sn_id s)),
      (''epoch'', counter_to_string (sn_epoch s)),
      (''coordinator_boot'', id_to_string (sn_coordinator_boot s)),
      (''generation'', counter_to_string (sn_generation s)),
      (''registration_floor'', counter_to_string (sn_registration_floor s)),
      (''fence_floor'', counter_to_string (sn_fence_floor s)),
      (''participants'', dec_string (length (sn_participants s))),
      (''fences'', dec_string (length (sn_fences s))),
      (''grants'', dec_string (length (sn_grants s))),
      (''digest'', digest_to_string (sn_digest s))]"

definition version_full :: string where
  "version_full =
     version_string @ '' (persistence '' @ dec_string (unat persistence_format_version) @
     '', wire '' @ dec_string (unat wire_protocol_version) @ '')''"

lemma version_full_text: "version_full = ''1.0.0 (persistence 1, wire 1)''"
  by code_simp

section \<open>Reading a line back\<close>

lemma render_fields_eq:
  assumes "map fst fs = map fst gs" "\<forall>f \<in> set fs. CHR '' '' \<notin> set (snd f)" "\<forall>g \<in> set gs. CHR '' '' \<notin> set (snd g)"
    and "render_fields fs = render_fields gs"
  shows "fs = gs"
  using assms
proof (induction fs arbitrary: gs rule: render_fields.induct)
  case (2 k v)
  then obtain w where "gs = [(k, w)]" by (cases gs) auto
  with 2 show ?case by simp
next
  case (3 k v f fs)
  then obtain w h hs where gs: "gs = (k, w) # h # hs" by (cases gs rule: render_fields.cases) auto
  have "v @ CHR '' '' # render_fields (f # fs) = w @ CHR '' '' # render_fields (h # hs)"
    using 3(5) by (simp add: gs)
  with same_split [of "CHR '' ''" v w] 3(3,4) have "v = w" "render_fields (f # fs) = render_fields (h # hs)"
    by (auto simp: gs)
  with 3(1) [of "h # hs"] 3(2-4) show ?case by (simp add: gs)
qed simp

lemma dec_string_plain: "CHR '' '' \<notin> set (dec_string n)"
  using dec_string_chars [of "CHR '' ''" n] by (auto simp: char_code_def)

lemma counter_plain: "CHR '' '' \<notin> set (counter_to_string c)"
  by (simp add: counter_to_string_def dec_string_plain)

lemma hex_digit_plain: "hex_digit b \<noteq> CHR '' ''"
proof
  assume "hex_digit b = CHR '' ''"
  then have "uint (b AND 15) = hex_value (CHR '' '')" by (simp flip: hex_digit_value)
  also have "\<dots> = - 1" by code_simp
  finally show False using uint_ge_0 [of "b AND 15"] by linarith
qed

lemma id_plain: "CHR '' '' \<notin> set (id_to_string i)"
  using hex_digit_plain by (fastforce simp: id_to_string_def to_hex_def)

lemma dec_string_inject [simp]: "dec_string m = dec_string n \<longleftrightarrow> m = n"
proof (induction m arbitrary: n rule: dec_string.induct)
  case (1 m)
  have digit: "char_of (48 + i) = (char_of (48 + j) :: char) \<longleftrightarrow> i = j" if "i < 10" "j < (10 :: nat)" for i j
    using that by (simp add: char_of_eq_iff take_bit_nat_eq_self)
  have long: "dec_string k = dec_string (k div 10) @ [char_of (48 + k mod 10)]" if "\<not> k < 10" for k
    using that by (simp add: dec_string.simps [of k])
  have short: "dec_string k = [char_of (48 + k)]" if "k < 10" for k
    using that by (simp add: dec_string.simps [of k])
  consider (s) "m < 10" "n < 10" | (l) "\<not> m < 10" "\<not> n < 10" | (m) "m < 10" "\<not> n < 10" | (n) "\<not> m < 10" "n < 10"
    by blast
  then show ?case
  proof cases
    case s
    then show ?thesis by (simp add: short digit)
  next
    case l
    have "m div 10 = n div 10 \<and> m mod 10 = n mod 10 \<longleftrightarrow> m = n"
      by (metis div_mult_mod_eq)
    then show ?thesis using l 1 [OF l(1)] by (simp add: long digit)
  next
    case m
    then show ?thesis by (auto simp: short long dec_string_nonempty [symmetric])
  next
    case n
    then show ?thesis by (auto simp: short long dec_string_nonempty [symmetric])
  qed
qed

lemma counter_to_string_inject [simp]: "counter_to_string a = counter_to_string b \<longleftrightarrow> a = b"
  by (cases a; cases b) (simp add: counter_to_string_def word_unat_eq_iff)

text \<open>
  The line that \<open>show-epoch\<close> prints determines the epoch state: two states print the same line only when they are
  the same, so a script that reads the line reads the state.
\<close>

theorem epoch_line_determines:
  "render_epoch_state s = render_epoch_state u \<longleftrightarrow> s = u"
proof
  assume "render_epoch_state s = render_epoch_state u"
  then have "epoch_state_fields s = epoch_state_fields u"
    unfolding render_epoch_state_def
    by (rule render_fields_eq [rotated 3])
      (simp_all add: epoch_state_fields_def counter_plain id_plain dec_string_plain)
  then show "s = u"
    by (cases s; cases u) (simp add: epoch_state_fields_def)
qed simp

end
