(* ===== verification/Tools.thy ===== *)
theory Tools
  imports Arguments Rendering Answers
begin

text \<open>
  The command line tool (\<open>apps/cli_main.cpp\<close>): from its arguments to the lines it prints and its exit code, over the
  operations of the client. What happens outside is the record \<open>tool_env\<close>: the connection, what the
  network does during each operation of the client, generated identifiers, and the files of a store. A line of output
  is a string; exceptions other than \<open>EpochError\<close> are not modelled.
\<close>

section \<open>A process with a client\<close>

record tool_env =
  te_connect :: "string \<Rightarrow> u16 \<Rightarrow> unit res \<times> recv_event list"
  te_call :: "nat \<Rightarrow> call"
  te_attempt :: "MutationAttemptId res"
  te_boot :: "nat \<Rightarrow> WorkerBootId res"
  te_io :: io
  te_store :: "string \<Rightarrow> disk"

record tool =
  tl_client :: client
  tl_calls :: nat
  tl_out :: "string list"
  tl_err :: "string list"

type_synonym 'a tact = "(tool, 'a) action"

definition fresh_client :: client where
  "fresh_client =
     \<lparr> cl_limits = default_limits, cl_valid = False, cl_session = id_nil, cl_epoch = MonotonicCounter 0,
       cl_sequence = 1, cl_hello = False, cl_cancelled = False, cl_input = [] \<rparr>"

definition tool_start :: tool where
  "tool_start = \<lparr> tl_client = fresh_client, tl_calls = 0, tl_out = [], tl_err = [] \<rparr>"

definition print_line :: "string \<Rightarrow> unit tact" where
  "print_line line = a_modify (\<lambda>s. s\<lparr> tl_out := tl_out s @ [line] \<rparr>)"

definition print_lines :: "string list \<Rightarrow> unit tact" where
  "print_lines lines = a_modify (\<lambda>s. s\<lparr> tl_out := tl_out s @ lines \<rparr>)"

definition print_error :: "string \<Rightarrow> unit tact" where
  "print_error line = a_modify (\<lambda>s. s\<lparr> tl_err := tl_err s @ [line] \<rparr>)"

text \<open>One operation of the client; the operations are numbered in the order they are called.\<close>

definition client_do :: "tool_env \<Rightarrow> (call \<Rightarrow> 'a cact) \<Rightarrow> 'a tact" where
  "client_do te operation =
     (\<lambda>s. case operation (te_call te (tl_calls s)) (tl_client s) of
        (r, k) \<Rightarrow> (r, s\<lparr> tl_client := k, tl_calls := tl_calls s + 1 \<rparr>))"

text \<open>The port is cut to 16 bits.\<close>

definition open_client :: "string \<Rightarrow> tool_env \<Rightarrow> Arguments \<Rightarrow> unit tact" where
  "open_client missing te arguments =
     a_bind (a_lift (args_get_unsigned arguments ''port'')) (\<lambda>port.
     case port of
       None \<Rightarrow> a_lift (Inl (invalid_argument missing))
     | Some p \<Rightarrow>
         (\<lambda>s. let (connected, evs) = te_connect te (args_get_or arguments ''host'' ''127.0.0.1'') (ucast p)
          in case client_connect connected evs fresh_client of
               (r, k) \<Rightarrow> (r, s\<lparr> tl_client := k \<rparr>)))"

text \<open>The handlers of \<open>main\<close>.\<close>

definition tool_exit :: "nat res \<times> tool \<Rightarrow> nat \<times> tool" where
  "tool_exit outcome =
     (case outcome of
        (Inr code, s) \<Rightarrow> (code, s)
      | (Inl e, s) \<Rightarrow> (2, s\<lparr> tl_err := tl_err s @ [''error '' @ render_error e] \<rparr>))"

section \<open>Arguments of the commands\<close>

definition some_or :: "'a option \<Rightarrow> string \<Rightarrow> 'a res" where
  "some_or v message = (case v of None \<Rightarrow> Inl (invalid_argument message) | Some x \<Rightarrow> Inr x)"

definition require_boot :: "tool_env \<Rightarrow> Arguments \<Rightarrow> WorkerBootId res" where
  "require_boot te arguments =
     res_bind (args_require arguments ''boot'') (\<lambda>t.
     res_bind (parse_boot (te_boot te 0) t) (\<lambda>parsed.
     some_or parsed (''--boot must be 32 hexadecimal characters or '' @ [CHR 0x27] @ ''generate'' @ [CHR 0x27])))"

definition require_participant :: "Arguments \<Rightarrow> ParticipantId res" where
  "require_participant arguments =
     res_bind (args_require arguments ''participant'') (\<lambda>t.
     some_or (pid_parse t) ''--participant is not a valid identifier'')"

definition require_scope :: "Arguments \<Rightarrow> AuthorityScope res" where
  "require_scope arguments =
     res_bind (args_require arguments ''scope'') (\<lambda>t.
     some_or (parse_scope t) ''--scope must be KIND:SUBJECT'')"

definition require_unsigned :: "Arguments \<Rightarrow> string \<Rightarrow> u64 res" where
  "require_unsigned arguments key =
     res_bind (args_get_unsigned arguments key) (\<lambda>v. some_or v (''--'' @ key @ '' is required''))"

definition cli_usage :: "string list" where
  "cli_usage =
     [''usage: fabric-epoch-cli [--host <address>] --port <port> <command> [options]'',
      ''commands:'',
      ''  version'',
      ''  show-epoch'',
      ''  advance-epoch [--cause <CAUSE>]'',
      ''  list-participants'',
      ''  show-participant --participant <id>'',
      ''  list-active-workers'',
      ''  list-fences'',
      ''  list-grants'',
      ''  validate-authority --epoch <n> --participant <id> --boot <hex> --incarnation <n>'',
      ''                      --scope <KIND:SUBJECT> [--grant <hex>]'',
      ''  fence-worker --participant <id> --boot <hex> [--reason <REASON>]'',
      ''  revoke-grant --grant <hex> [--reason <REASON>]'',
      ''  retire-participant --participant <id>'',
      ''  snapshot'',
      ''  explain --participant <id> --boot <hex>'',
      ''  shutdown'',
      ''  inspect-store --store <path>'']"

section \<open>Inspecting a store\<close>

definition transition_line :: "EpochTransitionRecord \<Rightarrow> string" where
  "transition_line t =
     ''transition from='' @ counter_to_string (tr_from_epoch t) @ '' to='' @ counter_to_string (tr_to_epoch t) @
     '' cause='' @ transition_cause_to_string (tr_cause t) @ '' boot='' @ id_to_string (tr_coordinator_boot t)"

definition inspect_options :: "string \<Rightarrow> StoreOptions" where
  "inspect_options path =
     \<lparr> so_path = path, so_limits = default_limits, so_create_if_missing = False,
       so_enable_rollback_watermark = True \<rparr>"

definition inspect_store :: "tool_env \<Rightarrow> Arguments \<Rightarrow> nat tact" where
  "inspect_store te arguments =
     a_bind (a_lift (args_require arguments ''store'')) (\<lambda>path.
     a_bind (a_lift (new_store (inspect_options path))) (\<lambda>store.
     let d = te_store te path
     in if \<not> store_exists d
        then a_bind (print_line (''store present=false path='' @ path)) (\<lambda>_. a_return 0)
        else
          a_bind (a_lift (store_load store (te_io te) d)) (\<lambda>state.
          a_bind (print_lines
            [''store present=true path='' @ path,
             ''current_epoch='' @ counter_to_string (st_current_epoch state),
             ''coordinator_boot='' @ id_to_string (st_coordinator_boot state),
             ''generation='' @ counter_to_string (st_generation state),
             ''registration_floor='' @ counter_to_string (st_registration_floor state),
             ''fence_floor='' @ counter_to_string (st_fence_floor state),
             ''participants='' @ dec_string (length (st_participants state)),
             ''retained_fences='' @ dec_string (length (st_recent_fences state)),
             ''grants='' @ dec_string (length (st_grants state)),
             ''transitions='' @ dec_string (length (st_transitions state))]) (\<lambda>_.
          a_bind (a_lift (highest_persisted_epoch store (te_io te) d)) (\<lambda>watermark.
          a_bind (print_line (''watermark_epoch='' @ counter_to_string watermark)) (\<lambda>_.
          a_bind (print_lines (map transition_line (st_transitions state))) (\<lambda>_.
          a_return 0)))))))"

section \<open>Commands that change the coordinator\<close>

definition explanation_line :: "Explanation \<Rightarrow> string" where
  "explanation_line e = ''explanation '' @ ex_render e"

definition cli_retire :: "tool_env \<Rightarrow> Arguments \<Rightarrow> nat tact" where
  "cli_retire te arguments =
     a_bind (a_lift (te_attempt te)) (\<lambda>attempt.
     a_bind (client_do te client_epoch_state) (\<lambda>state.
     a_bind (a_lift (require_participant arguments)) (\<lambda>participant.
     a_bind (client_do te (\<lambda>ca. client_retire ca
       \<lparr> tq_attempt = attempt, tq_expected_epoch = es_epoch state, tq_participant = participant,
         tq_note = empty_text \<rparr>)) (\<lambda>result.
     a_bind (print_lines
       [''retire outcome='' @ retire_outcome_to_string (to_outcome result) @
          '' epoch='' @ counter_to_string (to_epoch result) @
          '' incarnations_fenced='' @ dec_string (to_incarnations_fenced result),
        explanation_line (to_explanation result)]) (\<lambda>_.
     a_return (if to_outcome result = RetireOutcome.Retired \<or> to_outcome result = RetireOutcome.AlreadyRetired
       then 0 else 1))))))"

definition parse_cause :: "string option \<Rightarrow> EpochTransitionCause res" where
  "parse_cause given =
     (case given of
        None \<Rightarrow> Inr EpochTransitionCause.ExplicitOperatorAdvance
      | Some cause \<Rightarrow>
          if cause = ''COORDINATOR_START'' then Inr EpochTransitionCause.CoordinatorStart
          else if cause = ''COORDINATOR_RESTART'' then Inr EpochTransitionCause.CoordinatorRestart
          else if cause = ''EXPLICIT_OPERATOR_ADVANCE'' then Inr EpochTransitionCause.ExplicitOperatorAdvance
          else if cause = ''DURABLE_RECOVERY'' then Inr EpochTransitionCause.DurableRecovery
          else Inl (invalid_argument ''unknown --cause value''))"

definition cli_advance :: "tool_env \<Rightarrow> Arguments \<Rightarrow> HelloAckPayload \<Rightarrow> nat tact" where
  "cli_advance te arguments hello =
     a_bind (a_lift (te_attempt te)) (\<lambda>attempt.
     a_bind (a_lift (parse_cause (args_get arguments ''cause''))) (\<lambda>cause.
     a_bind (client_do te (\<lambda>ca. client_advance ca
       \<lparr> eq_attempt = attempt, eq_expected_epoch = ha_epoch hello, eq_cause = cause,
         eq_provenance = empty_text \<rparr>)) (\<lambda>result.
     a_bind (print_lines
       [''advance outcome='' @ advance_outcome_to_string (eo_outcome result) @
          '' epoch='' @ counter_to_string (eo_epoch result) @
          '' coordinator_boot='' @ id_to_string (eo_coordinator_boot result) @
          '' replayed='' @ bool_text (eo_replayed result),
        explanation_line (eo_explanation result)]) (\<lambda>_.
     a_return (if eo_outcome result = EpochAdvanceOutcome.Advanced then 0 else 1)))))"

definition parse_reason :: "Arguments \<Rightarrow> string \<Rightarrow> FenceReason res" where
  "parse_reason arguments fallback =
     some_or (parse_fence_reason (args_get_or arguments ''reason'' fallback)) ''unknown --reason value''"

definition cli_fence :: "tool_env \<Rightarrow> Arguments \<Rightarrow> nat tact" where
  "cli_fence te arguments =
     a_bind (a_lift (te_attempt te)) (\<lambda>attempt.
     a_bind (client_do te client_epoch_state) (\<lambda>state.
     a_bind (a_lift (require_participant arguments)) (\<lambda>participant.
     a_bind (a_lift (require_boot te arguments)) (\<lambda>boot.
     a_bind (a_lift (parse_reason arguments ''EXPLICIT_OPERATOR_FENCE'')) (\<lambda>reason.
     a_bind (client_do te (\<lambda>ca. client_fence ca
       \<lparr> fw_attempt = attempt, fw_expected_epoch = es_epoch state, fw_participant = participant,
         fw_boot = boot, fw_reason = reason, fw_note = empty_text \<rparr>)) (\<lambda>result.
     a_bind (print_lines
       [''fence outcome='' @ fence_outcome_to_string (fo_outcome result) @
          '' epoch='' @ counter_to_string (fo_epoch result) @
          '' fence_generation='' @ or_none counter_to_string (fo_generation result),
        explanation_line (fo_explanation result)]) (\<lambda>_.
     a_return (if fo_outcome result = FenceOutcome.Fenced \<or> fo_outcome result = FenceOutcome.AlreadyFenced
       then 0 else 1))))))))"

definition parse_grant :: "string \<Rightarrow> AuthorityGrantId res" where
  "parse_grant t = some_or (id_parse t) ''--grant must be 32 hexadecimal characters''"

definition cli_revoke :: "tool_env \<Rightarrow> Arguments \<Rightarrow> nat tact" where
  "cli_revoke te arguments =
     a_bind (a_lift (te_attempt te)) (\<lambda>attempt.
     a_bind (client_do te client_epoch_state) (\<lambda>state.
     a_bind (a_lift (res_bind (args_require arguments ''grant'') parse_grant)) (\<lambda>grant.
     a_bind (a_lift (parse_reason arguments ''ADMINISTRATIVE_REVOKE'')) (\<lambda>reason.
     a_bind (client_do te (\<lambda>ca. client_revoke ca
       \<lparr> vq_attempt = attempt, vq_expected_epoch = es_epoch state, vq_grant = grant, vq_reason = reason,
         vq_note = empty_text \<rparr>)) (\<lambda>result.
     a_bind (print_lines
       [''revoke outcome='' @ revoke_outcome_to_string (vr_outcome result) @
          '' epoch='' @ counter_to_string (vr_epoch result) @
          '' derived_grants_revoked='' @ dec_string (vr_derived_grants_revoked result),
        explanation_line (vr_explanation result)]) (\<lambda>_.
     a_return (if vr_outcome result = RevokeOutcome.Revoked \<or> vr_outcome result = RevokeOutcome.AlreadyRevoked
       then 0 else 1)))))))"

section \<open>Commands that read\<close>

definition cli_list_participants :: "tool_env \<Rightarrow> nat tact" where
  "cli_list_participants te =
     a_bind (client_do te client_snapshot) (\<lambda>snapshot.
     a_bind (print_lines
       ((''snapshot epoch='' @ counter_to_string (sn_epoch snapshot) @
          '' generation='' @ counter_to_string (sn_generation snapshot) @
          '' digest='' @ digest_to_string (sn_digest snapshot)) #
        map render_view (sn_participants snapshot))) (\<lambda>_.
     a_return 0))"

definition active_lines :: "ParticipantView \<Rightarrow> string list" where
  "active_lines p =
     (if pv_has_active_incarnation p
      then [''active participant='' @ pid_value (pv_id p) @ '' boot='' @ id_to_string (pv_active_boot p) @
        '' incarnation='' @ counter_to_string (pv_active_incarnation p)]
      else []) @
     map (\<lambda>boot. ''active participant='' @ pid_value (pv_id p) @ '' boot='' @ id_to_string boot) (pv_active_boots p)"

definition cli_list_active :: "tool_env \<Rightarrow> nat tact" where
  "cli_list_active te =
     a_bind (client_do te client_snapshot) (\<lambda>snapshot.
     a_bind (print_lines (concat (map active_lines (sn_participants snapshot)))) (\<lambda>_.
     a_return 0))"

definition cli_show_participant :: "tool_env \<Rightarrow> Arguments \<Rightarrow> nat tact" where
  "cli_show_participant te arguments =
     a_bind (a_lift (require_participant arguments)) (\<lambda>participant.
     a_bind (client_do te (\<lambda>ca. client_query ca participant)) (\<lambda>view.
     case view of
       None \<Rightarrow> a_bind (print_line ''participant found=false'') (\<lambda>_. a_return 1)
     | Some v \<Rightarrow> a_bind (print_line (render_view v)) (\<lambda>_. a_return 0)))"

definition fence_line :: "FenceRecord \<Rightarrow> string" where
  "fence_line f =
     ''fence boot='' @ id_to_string (fr_boot f) @ '' participant='' @ pid_value (fr_participant f) @
     '' reason='' @ fence_reason_to_string (fr_reason f) @ '' generation='' @ counter_to_string (fr_generation f) @
     '' epoch='' @ counter_to_string (fr_epoch f) @ '' incarnation='' @ counter_to_string (fr_incarnation f)"

definition cli_list_fences :: "tool_env \<Rightarrow> nat tact" where
  "cli_list_fences te =
     a_bind (client_do te client_snapshot) (\<lambda>snapshot.
     a_bind (print_lines (map fence_line (sn_fences snapshot) @
       [''fence_floor='' @ counter_to_string (sn_fence_floor snapshot)])) (\<lambda>_.
     a_return 0))"

definition grant_line :: "GrantView \<Rightarrow> string" where
  "grant_line g =
     ''grant id='' @ id_to_string (gv_id g) @ '' epoch='' @ counter_to_string (gv_epoch g) @
     '' participant='' @ pid_value (gv_participant g) @ '' boot='' @ id_to_string (gv_boot g) @
     '' generation='' @ counter_to_string (gv_generation g) @ '' revoked='' @ bool_text (gv_revoked g) @
     '' delegated='' @ bool_text (gv_delegated g) @ '' scopes='' @ scope_set_to_string (gv_scopes g)"

definition cli_list_grants :: "tool_env \<Rightarrow> nat tact" where
  "cli_list_grants te =
     a_bind (client_do te client_snapshot) (\<lambda>snapshot.
     a_bind (print_lines (map grant_line (sn_grants snapshot))) (\<lambda>_.
     a_return 0))"

definition cli_snapshot :: "tool_env \<Rightarrow> nat tact" where
  "cli_snapshot te =
     a_bind (client_do te client_snapshot) (\<lambda>snapshot.
     a_bind (print_lines (render_snapshot snapshot #
       map (\<lambda>p. ''  '' @ render_view p) (sn_participants snapshot))) (\<lambda>_.
     a_return 0))"

text \<open>The order in which the two arguments of the call are evaluated is not specified; here the participant is first.\<close>

definition cli_explain :: "tool_env \<Rightarrow> Arguments \<Rightarrow> nat tact" where
  "cli_explain te arguments =
     a_bind (a_lift (require_participant arguments)) (\<lambda>participant.
     a_bind (a_lift (require_boot te arguments)) (\<lambda>boot.
     a_bind (client_do te (\<lambda>ca. client_explain ca participant boot)) (\<lambda>e.
     a_bind (print_line (explanation_line e)) (\<lambda>_.
     a_return 0))))"

text \<open>The request of \<open>validate-authority\<close>.\<close>

definition validate_request_of :: "tool_env \<Rightarrow> Arguments \<Rightarrow> ValidateAuthorityRequest res" where
  "validate_request_of te arguments =
     res_bind (require_unsigned arguments ''epoch'') (\<lambda>epoch.
     res_bind (require_participant arguments) (\<lambda>participant.
     res_bind (require_boot te arguments) (\<lambda>boot.
     res_bind (require_unsigned arguments ''incarnation'') (\<lambda>incarnation.
     res_bind (require_scope arguments) (\<lambda>scope.
     res_bind (case args_get arguments ''grant'' of
         None \<Rightarrow> Inr None
       | Some t \<Rightarrow> res_bind (parse_grant t) (\<lambda>grant. Inr (Some grant))) (\<lambda>grant.
     Inr \<lparr> va_token = \<lparr> tok_epoch = MonotonicCounter epoch, tok_participant = participant, tok_boot = boot,
             tok_incarnation = MonotonicCounter incarnation,
             tok_registration_generation = MonotonicCounter 0 \<rparr>,
           va_scope = scope, va_expected_generation = None, va_grant = grant \<rparr>))))))"

definition cli_validate :: "tool_env \<Rightarrow> Arguments \<Rightarrow> nat tact" where
  "cli_validate te arguments =
     a_bind (a_lift (validate_request_of te arguments)) (\<lambda>request.
     a_bind (client_do te (\<lambda>ca. client_validate ca request)) (\<lambda>validation.
     a_bind (print_lines
       [''validation '' @ render_validation validation,
        explanation_line (av_explanation validation)]) (\<lambda>_.
     a_return (if av_code validation = AuthorityValidationCode.Current then 0 else 1))))"

section \<open>The tool\<close>

definition hello_line :: "HelloAckPayload \<Rightarrow> string" where
  "hello_line hello =
     ''hello epoch='' @ counter_to_string (ha_epoch hello) @
     '' coordinator_boot='' @ id_to_string (ha_coordinator_boot hello) @
     '' session='' @ id_to_string (ha_session hello) @
     '' product='' @ ha_product_version hello"

definition cli_greet :: "tool_env \<Rightarrow> Arguments \<Rightarrow> HelloAckPayload tact" where
  "cli_greet te arguments =
     a_bind (open_client ''--port is required for coordinator commands'' te arguments) (\<lambda>_.
     a_bind (client_do te (\<lambda>ca. client_hello ca ''cli'')) (\<lambda>hello.
     a_bind (print_line (hello_line hello)) (\<lambda>_.
     a_return hello)))"

definition cli_command :: "tool_env \<Rightarrow> Arguments \<Rightarrow> string \<Rightarrow> HelloAckPayload \<Rightarrow> nat tact" where
  "cli_command te arguments command hello =
     (if command = ''show-epoch''
      then a_bind (client_do te client_epoch_state) (\<lambda>state.
        a_bind (print_line (render_epoch_state state)) (\<lambda>_. a_return 0))
      else if command = ''retire-participant'' then cli_retire te arguments
      else if command = ''advance-epoch'' then cli_advance te arguments hello
      else if command = ''list-participants'' then cli_list_participants te
      else if command = ''list-active-workers'' then cli_list_active te
      else if command = ''show-participant'' then cli_show_participant te arguments
      else if command = ''list-fences'' then cli_list_fences te
      else if command = ''list-grants'' then cli_list_grants te
      else if command = ''validate-authority'' then cli_validate te arguments
      else if command = ''fence-worker'' then cli_fence te arguments
      else if command = ''revoke-grant'' then cli_revoke te arguments
      else if command = ''snapshot'' then cli_snapshot te
      else if command = ''explain'' then cli_explain te arguments
      else if command = ''shutdown''
      then a_bind (client_do te client_shutdown) (\<lambda>_.
        a_bind (print_line ''shutdown requested=true'') (\<lambda>_. a_return 0))
      else
        a_bind (print_error (''error unknown command: '' @ command)) (\<lambda>_.
        a_bind (print_lines cli_usage) (\<lambda>_.
        a_return 1)))"

definition cli_body :: "tool_env \<Rightarrow> string list \<Rightarrow> nat tact" where
  "cli_body te argv =
     a_bind (a_lift (parse_arguments argv)) (\<lambda>arguments.
     case ar_positional arguments of
       [] \<Rightarrow> a_bind (print_lines cli_usage) (\<lambda>_. a_return (if args_has arguments ''help'' then 0 else 1))
     | command # _ \<Rightarrow>
         if command = ''version''
         then a_bind (print_line (''fabric-epoch-cli '' @ version_full)) (\<lambda>_. a_return 0)
         else if command = ''inspect-store'' then inspect_store te arguments
         else if command = ''help'' then a_bind (print_lines cli_usage) (\<lambda>_. a_return 0)
         else
           a_bind (cli_greet te arguments) (\<lambda>hello.
           cli_command te arguments command hello))"

definition cli_main :: "tool_env \<Rightarrow> string list \<Rightarrow> nat \<times> tool" where
  "cli_main te argv = tool_exit (cli_body te argv tool_start)"

end
