(* ===== verification/Exits.thy ===== *)
theory Exits
  imports Tools
begin

text \<open>
  What the exit code of the command line tool says: \<open>validate-authority\<close> exits with 0 exactly when the coordinator finds
  the authority current, through the whole path from the command line over the connection to the runtime.
\<close>

section \<open>What an exit code says\<close>

lemma a_bind_eq_Inr:
  "a_bind m f s = (Inr y, u) \<longleftrightarrow> (\<exists>x t. m s = (Inr x, t) \<and> f x t = (Inr y, u))"
  by (auto simp: a_bind_def split: prod.splits sum.splits)

lemma client_do_eq_Inr:
  "client_do te operation s = (Inr x, t) \<longleftrightarrow>
     (\<exists>k. operation (te_call te (tl_calls s)) (tl_client s) = (Inr x, k) \<and>
       t = s\<lparr> tl_client := k, tl_calls := tl_calls s + 1 \<rparr>)"
  by (auto simp: client_do_def split: prod.splits)

lemma client_send_fields:
  assumes "client_send ca type rid payload k = (r, k')"
  shows "cl_valid k' = cl_valid k" "cl_limits k' = cl_limits k" "cl_hello k' = cl_hello k"
  using assms
  by (auto simp: client_send_def ensure_connected_def a_bind_def throw_if_def Let_def split: sum.splits option.splits if_splits)

lemma client_receive_fields:
  assumes "client_receive k = (r, k')"
  shows "cl_valid k' = cl_valid k" "cl_limits k' = cl_limits k" "cl_hello k' = cl_hello k"
  using assms by (auto simp: client_receive_def split: prod.splits)

lemma client_hello_greets:
  assumes "client_hello ca role k = (Inr hello, k')"
  shows "cl_valid k'" "cl_hello k'" "cl_limits k' = cl_limits k"
proof -
  have valid: "cl_valid k"
    using assms by (auto simp: client_hello_def ensure_connected_def a_bind_eq_Inr throw_if_def split: if_splits)
  let ?rest = "\<lambda>received k. case received of
      None \<Rightarrow> a_lift (Inl (io_failure ''coordinator closed the connection during HELLO''))
    | Some frame \<Rightarrow>
        if fh_type (fm_header frame) = MessageType.Error
        then a_bind (a_lift (decode_error (fm_payload frame) (cl_limits k))) (\<lambda>error.
          a_lift (Inl (EpochError ProtocolViolation (''HELLO rejected: '' @ ep_message error))))
        else if fh_type (fm_header frame) \<noteq> MessageType.HelloAck
        then a_lift (Inl (protocol_violation ''coordinator did not answer HELLO with HELLO_ACK''))
        else a_bind (a_lift (decode_hello_ack (fm_payload frame) (cl_limits k))) (\<lambda>ack.
          a_bind (a_modify (\<lambda>k. k\<lparr> cl_session := ha_session ack, cl_epoch := ha_epoch ack,
            cl_hello := True \<rparr>)) (\<lambda>_.
          a_return ack))"
  obtain payload rid k1 received k2 where
    s: "client_send ca MessageType.Hello rid payload k = (Inr (), k1)" and
    r: "client_receive k1 = (Inr received, k2)" and
    e: "?rest received k2 k2 = (Inr hello, k')"
    using assms unfolding client_hello_def ensure_connected_def a_bind_eq_Inr by auto
  have k': "k' = k2\<lparr> cl_session := ha_session hello, cl_epoch := ha_epoch hello, cl_hello := True \<rparr>"
    using e by (cases received) (auto simp: a_bind_eq_Inr split: if_splits)
  show "cl_valid k'" "cl_hello k'" "cl_limits k' = cl_limits k"
    using valid client_send_fields [OF s] client_receive_fields [OF r] by (simp_all add: k')
qed

lemma open_client_state:
  assumes "open_client missing te arguments s = (Inr (), u)"
  shows "cl_limits (tl_client u) = default_limits \<and> tl_calls u = tl_calls s"
proof (cases "args_get_unsigned arguments ''port''")
  case (Inr port)
  then obtain p where p: "port = Some p"
    using assms by (cases port) (simp_all add: open_client_def a_bind_eq_Inr)
  obtain connected evs where
    c: "te_connect te (args_get_or arguments ''host'' ''127.0.0.1'') (ucast p) = (connected, evs)"
    by (cases "te_connect te (args_get_or arguments ''host'' ''127.0.0.1'') (ucast p)")
  show ?thesis
    using assms
    by (cases connected) (auto simp: open_client_def a_bind_eq_Inr Inr p c client_connect_def fresh_client_def)
qed (use assms in \<open>simp add: open_client_def a_bind_eq_Inr\<close>)

lemma cli_greet_state:
  assumes "cli_greet te arguments s = (Inr hello, t)"
  shows "cl_valid (tl_client t)" "cl_hello (tl_client t)" "cl_limits (tl_client t) = default_limits"
    "tl_calls t = tl_calls s + 1"
proof -
  obtain u k where o: "open_client ''--port is required for coordinator commands'' te arguments s = (Inr (), u)" and
    h: "client_hello (te_call te (tl_calls u)) ''cli'' (tl_client u) = (Inr hello, k)" and
    t: "tl_client t = k" "tl_calls t = tl_calls u + 1"
    using assms by (auto simp: cli_greet_def a_bind_eq_Inr client_do_eq_Inr print_line_def)
  have "cl_limits (tl_client u) = default_limits \<and> tl_calls u = tl_calls s"
    by (rule open_client_state [OF o])
  with client_hello_greets [OF h] t
  show "cl_valid (tl_client t)" "cl_hello (tl_client t)" "cl_limits (tl_client t) = default_limits"
    "tl_calls t = tl_calls s + 1"
    by simp_all
qed

text \<open>
  C32. The exit code of \<open>validate-authority\<close> is the decision of the coordinator: a tool that has been greeted, whose
  arguments name a request, and which is answered by a server at the same connection, exits with 0 exactly
  when the runtime finds the authority current at the moment the server asks it.
\<close>

theorem validate_exit_code:
  assumes "parse_arguments argv = Inr arguments" "ar_positional arguments = ''validate-authority'' # rest"
    and "cli_greet te arguments tool_start = (Inr hello, s)" "cl_input (tl_client s) = []"
    and "validate_request_of te arguments = Inr request"
    and "ca = te_call te 1" "ca_request_id ca = Inr rid" "ca_send ca = None"
    and "ss_hello c" "tu_send turn = None"
    and "validate_request_fits (sv_limits c) request" "takes_requests (sv_limits c)"
    and "v = validate_authority (tu_others turn (tu_others turn (sv_runtime c))) request"
    and "answerable (sv_limits c) v" "answerable default_limits v"
    and "\<And>bytes. stream (ca_reply ca bytes) = replies turn c bytes"
  shows "fst (cli_main te argv) = (if av_authorized v then 0 else 1)"
proof -
  note g = cli_greet_state [OF assms(3)]
  have calls: "tl_calls s = 1" using g(4) by (simp add: tool_start_def)
  have limits: "takes_requests (cl_limits (tl_client s))" "answerable (cl_limits (tl_client s)) v"
    using assms(15) by (simp_all add: g(3) takes_requests_def default_limits_def)
  have "fst (client_validate ca request (tl_client s)) = Inr v"
    by (rule remote_validation_faithful [OF g(1,2) assms(4,7-12) limits(1) assms(13,14) limits(2) assms(16)])
  then obtain k where k: "client_validate (te_call te (tl_calls s)) request (tl_client s) = (Inr v, k)"
    using assms(6) by (cases "client_validate ca request (tl_client s)") (simp add: calls)
  have "\<exists>u. cli_validate te arguments s = (Inr (if av_authorized v then 0 else 1), u)"
    using assms(5) k
    by (simp add: cli_validate_def a_bind_Inr client_do_def print_lines_def av_authorized_def)
  moreover have "cli_body te argv tool_start = cli_validate te arguments s"
    using assms(1-3) by (simp add: cli_body_def a_bind_Inr cli_command_def)
  ultimately show ?thesis by (auto simp: cli_main_def tool_exit_def)
qed

section \<open>A session of the tool\<close>

text \<open>What is left of a connection that delivers exactly one frame.\<close>

definition intact :: "recv_event list \<Rightarrow> bool" where
  "intact evs \<longleftrightarrow> (\<forall>e \<in> set evs. \<exists>bs. e = Bytes bs \<and> bs \<noteq> [])"

lemma intact_stream: "intact evs \<Longrightarrow> stream evs = [] \<Longrightarrow> evs = []"
  by (cases evs rule: stream.cases) (auto simp: intact_def split: if_splits)

lemma recv_loop_intact:
  "recv_loop need got evs = (r, rest) \<Longrightarrow> intact evs \<Longrightarrow> intact rest"
proof (induction need got evs rule: recv_loop.induct)
  case (1 need got evs)
  show ?case
  proof (cases "need \<le> length got")
    case True
    with 1 show ?thesis by (simp add: recv_loop.simps [of need got evs])
  next
    case False
    show ?thesis
    proof (cases evs)
      case Nil
      with 1(2,3) False show ?thesis by (simp add: recv_loop.simps [of need got "[]"] split: if_splits)
    next
      case (Cons e others)
      then obtain bs where e: "e = Bytes bs" "bs \<noteq> []" using 1(3) by (auto simp: intact_def)
      let ?chunk = "min (need - length got) recv_chunk"
      let ?evs = "if length bs \<le> ?chunk then others else Bytes (drop ?chunk bs) # others"
      have "recv_loop need got evs = recv_loop need (got @ take ?chunk bs) ?evs"
        unfolding Cons e(1) by (subst recv_loop.simps) (simp only: False e(2) if_False recv_event.case list.case Let_def)
      moreover have "intact ?evs" using 1(3) by (auto simp: Cons intact_def)
      ultimately show ?thesis
        using 1(1) [OF False, of e others bs ?chunk] 1(2) Cons e by auto
    qed
  qed
qed

lemma receive_frame_intact:
  "receive_frame e1 e2 limits evs = (Inr (Some f), rest) \<Longrightarrow> intact evs \<Longrightarrow> intact rest"
  by (auto simp: receive_frame_def recv_exact_def dest!: recv_loop_intact
      split: prod.splits sum.splits option.splits if_splits)

lemma client_hello_answered:
  assumes "cl_valid k" "cl_input k = []" "ca_request_id ca = Inr rid" "ca_send ca = None"
    and "encode_hello version_string role = Inr p" "length p \<le> max_frame_payload (cl_limits k)"
    and "length p \<le> max_request_size (cl_limits k)"
    and "encode_frame MessageType.HelloAck sequence epoch rid' reply limits = Inr sent"
    and "length reply < 4294967296" "length reply \<le> max_frame_payload (cl_limits k)"
    and "decode_hello_ack reply (cl_limits k) = Inr ack" "\<And>bytes. ca_reply ca bytes = [Bytes sent]"
  shows "\<exists>k'. client_hello ca role k = (Inr ack, k') \<and> cl_input k' = []"
proof -
  obtain bytes where b: "encode_frame MessageType.Hello (cl_sequence k) (cl_epoch k) rid p (cl_limits k) = Inr bytes"
    by (rule encode_frame_fits [OF assms(6)]) (use assms(7) in auto)
  let ?k = "k\<lparr> cl_sequence := cl_sequence k + 1, cl_input := [Bytes sent] \<rparr>"
  have "id_bytes rid' \<noteq> []" by (metis length_id_bytes list.size(3) zero_neq_numeral)
  then have "sent \<noteq> []"
    using assms(8) by (auto simp: encode_frame_eq Let_def header_fields_def)
  then have sent: "stream [Bytes sent] = sent @ []" "intact [Bytes sent]" by (simp_all add: intact_def)
  obtain f rest where f: "receive_frame
      (resource_limit ''declared response payload exceeds limits.max_frame_payload'')
      (io_failure ''coordinator closed the connection in the middle of a frame payload'')
      (cl_limits k) [Bytes sent] = (Inr (Some f), rest)" "stream rest = []"
    "fm_payload f = reply" "fh_type (fm_header f) = MessageType.HelloAck"
    by (rule receive_sent_frame [OF assms(8-10) _ sent(1)]) (auto simp: is_request_message_def)
  have "rest = []" using intact_stream [OF receive_frame_intact [OF f(1) sent(2)] f(2)] .
  then have r: "client_receive ?k = (Inr (Some f), ?k\<lparr> cl_input := [] \<rparr>)"
    using f(1) by (simp add: client_receive_def)
  have "client_send ca MessageType.Hello rid p k = (Inr (), ?k)"
    using client_send_sends [OF assms(1,4) b] assms(2,12) by simp
  then show ?thesis
    using assms(1,3,5,11) r f(3,4)
    by (simp add: client_hello_def ensure_connected_def throw_if_def a_bind_Inr)
qed

definition demo_ack :: HelloAckPayload where
  "demo_ack = \<lparr> ha_epoch = MonotonicCounter 1, ha_coordinator_boot = Fixed128Id 1, ha_session = Fixed128Id 50,
     ha_product_version = version_string \<rparr>"

definition demo_ack_payload :: "byte list" where
  "demo_ack_payload = projr (encode_hello_ack (MonotonicCounter 1) (Fixed128Id 1) (Fixed128Id 50) version_string)"

definition demo_ack_frame :: "byte list" where
  "demo_ack_frame = projr (encode_frame MessageType.HelloAck 1 (MonotonicCounter 1) (Fixed128Id 60)
     demo_ack_payload default_limits)"

text \<open>A coordinator at state \<open>s\<close>, at the other end of the tool.\<close>

definition demo_tool_env :: "impl \<Rightarrow> tool_env" where
  "demo_tool_env s =
     \<lparr> te_connect = (\<lambda>host port. (Inr (), [])),
       te_call = (\<lambda>n. if n = 0 then \<lparr> ca_request_id = Inr (Fixed128Id 60), ca_send = None,
           ca_reply = (\<lambda>bytes. [Bytes demo_ack_frame]) \<rparr> else demo_call s),
       te_attempt = Inr (Fixed128Id 70), te_boot = (\<lambda>n. Inr (Fixed128Id 71)), te_io = io_ok,
       te_store = (\<lambda>path. empty_disk) \<rparr>"

definition demo_command :: "string list" where
  "demo_command =
     [''fabric-epoch-cli'', ''--port'', ''7400'', ''--epoch'', ''1'', ''--participant'', ''worker-a'',
      ''--boot'', ''0000000000000000000000000000000a'', ''--incarnation'', ''1'', ''--scope'', ''SITE:north'',
      ''validate-authority'']"

definition demo_arguments :: Arguments where
  "demo_arguments =
     \<lparr> ar_positional = [''validate-authority''],
       ar_options = [(''port'', ''7400''), (''epoch'', ''1''), (''participant'', ''worker-a''),
         (''boot'', ''0000000000000000000000000000000a''), (''incarnation'', ''1''), (''scope'', ''SITE:north'')] \<rparr>"

definition typed_request :: ValidateAuthorityRequest where
  "typed_request =
     \<lparr> va_token = worker_token\<lparr> tok_registration_generation := MonotonicCounter 0 \<rparr>, va_scope = north,
       va_expected_generation = None, va_grant = None \<rparr>"

lemma demo_parsed:
  "parse_arguments demo_command = Inr demo_arguments"
  "args_get_unsigned demo_arguments ''port'' = Inr (Some 7400)"
  by code_simp+

lemma demo_request:
  "validate_request_of (demo_tool_env s) demo_arguments = Inr typed_request"
proof -
  have "require_unsigned demo_arguments ''epoch'' = Inr 1" "require_unsigned demo_arguments ''incarnation'' = Inr 1"
    "require_participant demo_arguments = Inr worker" "require_scope demo_arguments = Inr north"
    "args_require demo_arguments ''boot'' = Inr ''0000000000000000000000000000000a''"
    "parse_boot (Inr (Fixed128Id 71)) ''0000000000000000000000000000000a'' = Inr (Some (Fixed128Id 10))"
    "args_get demo_arguments ''grant'' = None"
    by code_simp+
  then show ?thesis
    by (simp add: validate_request_of_def require_boot_def demo_tool_env_def some_or_def typed_request_def worker_token_def)
qed

lemma state2_typed:
  assumes "at_state s state2"
  shows "av_authorized (validate_authority s typed_request)"
    "brief (av_explanation (validate_authority s typed_request))"
proof -
  have wf: "token_wf (va_token typed_request)" "va_grant typed_request = None"
    by (simp_all add: typed_request_def worker_token_def token_wf_def pid_empty_def worker_def id_is_nil_word
        counter_is_zero_def)
  show a: "av_authorized (validate_authority s typed_request)"
    using validate_plain_iff [OF at_stateD(1) [OF assms] wf] at_stateD [OF assms]
    by (simp add: state2_fields north_member generation_expected_def typed_request_def)
  have "validated s typed_request"
    using at_stateD [OF assms] by (simp add: validated_def state2_fields demo_names_valid typed_request_def)
  then show "brief (av_explanation (validate_authority s typed_request))"
    using a by (intro brief_validation) (simp_all add: av_authorized_def)
qed

lemma demo_hello:
  "\<exists>k. client_hello (te_call (demo_tool_env s) 0) ''cli''
      (fresh_client\<lparr> cl_valid := True \<rparr>) = (Inr demo_ack, k) \<and> cl_input k = []"
proof -
  have "length version_string = 5" by (simp add: version_string_def)
  moreover have "writes (encode_hello version_string ''cli'') (2 + ((4 + length version_string) + ((4 + length ''cli'') + 0)))"
    unfolding encode_hello_def by (intro writes_rules) (simp_all add: version_string_def)
  ultimately obtain p where p: "encode_hello version_string ''cli'' = Inr p" "length p \<le> 18"
    by (auto simp: writes_def)
  have "writes (encode_hello_ack (MonotonicCounter 1) (Fixed128Id 1) (Fixed128Id 50) version_string)
      (8 + (16 + (16 + ((4 + length version_string) + 0))))"
    unfolding encode_hello_ack_def by (intro writes_rules) (simp add: version_string_def)
  then obtain q where q: "encode_hello_ack (MonotonicCounter 1) (Fixed128Id 1) (Fixed128Id 50) version_string = Inr q"
      "length q \<le> 49"
    by (auto simp: writes_def version_string_def)
  have payload: "demo_ack_payload = q" by (simp add: demo_ack_payload_def q(1))
  obtain sent where sent: "encode_frame MessageType.HelloAck 1 (MonotonicCounter 1) (Fixed128Id 60) q default_limits = Inr sent"
    by (rule encode_frame_fits [of q default_limits MessageType.HelloAck])
      (use q(2) in \<open>simp_all add: default_limits_def is_request_message_def\<close>)
  have "decode_hello_ack q default_limits = Inr demo_ack"
    using hello_ack_codec.whole_enc [of default_limits demo_ack] q(1)
    by (simp add: decode_hello_ack_def demo_ack_def string_fits_def version_string_def kAbsoluteMaxBytes_def
        kMaxVersionTextLength_def default_limits_def)
  then show ?thesis
    by (intro client_hello_answered [OF _ _ _ _ p(1) _ _ sent])
      (use p(2) q(2) sent payload in \<open>simp_all add: demo_tool_env_def demo_ack_frame_def fresh_client_def
        default_limits_def\<close>)
qed

theorem validate_exit_code_witness:
  "\<exists>te s. fst (cli_main te demo_command) = 0 \<and> av_authorized (validate_authority s typed_request)"
proof -
  obtain s where s: "at_state s state2" by (rule demo_born)
  let ?te = "demo_tool_env s"
  obtain k where k: "client_hello (te_call ?te 0) ''cli'' (fresh_client\<lparr> cl_valid := True \<rparr>) = (Inr demo_ack, k)"
      "cl_input k = []"
    using demo_hello by blast
  let ?t = "tool_start\<lparr> tl_client := k, tl_calls := 1, tl_out := [hello_line demo_ack] \<rparr>"
  have greet: "cli_greet ?te demo_arguments tool_start = (Inr demo_ack, ?t)"
    using k demo_parsed(2)
    by (simp add: cli_greet_def a_bind_Inr open_client_def client_connect_def client_do_def print_line_def tool_start_def
        demo_tool_env_def fresh_client_def)
  have fits: "answerable default_limits (validate_authority s typed_request)"
    using state2_typed(2) [OF s] by (rule brief_answerable) (simp add: takes_answers_def default_limits_def)
  have request: "validate_request_fits default_limits typed_request"
    using demo_names_valid
    by (simp add: validate_request_fits_def pid_fits_def scope_fits_def string_fits_def worker_def north_def
        typed_request_def worker_token_def pid_max_length_def max_subject_length_def kAbsoluteMaxBytes_def default_limits_def)
  have "fst (cli_main ?te demo_command) = (if av_authorized (validate_authority s typed_request) then 0 else 1)"
    by (rule validate_exit_code [OF demo_parsed(1) _ greet _ demo_request, where c = "demo_serving s" and
          turn = quiet_turn and ca = "demo_call s" and rid = "Fixed128Id 60"])
      (use k(2) fits request in \<open>simp_all add: demo_arguments_def demo_tool_env_def demo_call_def demo_serving_def
        quiet_turn_def tu_others_def takes_requests_def default_limits_def\<close>)
  with state2_typed(1) [OF s] show ?thesis by auto
qed

end

