(* ===== verification/Processes.thy ===== *)
theory Processes
  imports Tools
begin

text \<open>
  The two long-running programs: the worker (\<open>apps/worker_main.cpp\<close>), which registers and then holds its session,
  and the coordinator (\<open>apps/coordinator_main.cpp\<close>), which opens the runtime, serves until a peer asks it to shut
  down, and flushes. A run of the program is a life of the coordinator of \<open>System\<close>: what is proved of every life holds of
  it, and what is proved of steady lives does as long as its requests that throw are undone.
\<close>

section \<open>The worker\<close>

definition worker_usage :: "string list" where
  "worker_usage =
     [''usage: fabric-epoch-worker --port <port> --participant <id> --scope <KIND:SUBJECT> [options]'',
      ''  --host <address>          coordinator address (default 127.0.0.1)'',
      ''  --port <port>             coordinator TCP port (required)'',
      ''  --participant <id>        stable participant identity'',
      ''  --scope <KIND:SUBJECT>    authority scope; repeatable, at least one required'',
      ''  --boot <hex|generate>     worker boot identifier (default generate)'',
      ''  --policy <p>              SINGLE_INCARNATION | MULTI_INCARNATION'',
      ''  --idle                    remain attached without registering'',
      ''  --version                 print the version and exit'',
      ''  --help                    print this message and exit'']"

fun worker_scopes :: "ScopeSet \<Rightarrow> string list \<Rightarrow> ScopeSet res" where
  "worker_scopes collected [] = Inr collected"
| "worker_scopes collected (t # ts) =
     res_bind (some_or (parse_scope t) ''--scope must be KIND:SUBJECT'') (\<lambda>scope.
     let (inserted, s) = scope_set_insert collected scope 32
     in if \<not> inserted then Inl (invalid_argument ''too many scopes for one registration'')
        else worker_scopes s ts)"

text \<open>An identifier is generated even when one is given.\<close>

definition worker_boot :: "tool_env \<Rightarrow> Arguments \<Rightarrow> WorkerBootId res" where
  "worker_boot te arguments =
     res_bind (te_boot te 0) (\<lambda>generated.
     case args_get arguments ''boot'' of
       None \<Rightarrow> Inr generated
     | Some t \<Rightarrow>
         res_bind (parse_boot (te_boot te 1) t) (\<lambda>parsed.
         some_or parsed (''--boot must be 32 hexadecimal characters or '' @ [CHR 0x27] @ ''generate'' @ [CHR 0x27])))"

definition worker_request :: "tool_env \<Rightarrow> Arguments \<Rightarrow> HelloAckPayload \<Rightarrow> RegisterParticipantRequest res" where
  "worker_request te arguments hello =
     res_bind (require_participant arguments) (\<lambda>participant.
     res_bind (worker_scopes empty_scope_set (args_get_all arguments ''scope'')) (\<lambda>collected.
     res_bind (throw_if (args_get_all arguments ''scope'' = [])
       (invalid_argument ''at least one --scope is required'')) (\<lambda>_.
     res_bind (worker_boot te arguments) (\<lambda>boot.
     res_bind (te_attempt te) (\<lambda>attempt.
     res_bind (some_or (parse_incarnation_policy (args_get_or arguments ''policy'' ''SINGLE_INCARNATION''))
       ''unknown --policy value'') (\<lambda>policy.
     Inr \<lparr> rp_attempt = attempt, rp_expected_epoch = ha_epoch hello, rp_participant = participant,
           rp_boot = boot, rp_scopes = collected, rp_policy = policy, rp_expected_generation = None,
           rp_provenance = BoundedText (args_get_or arguments ''provenance'' ''worker'') \<rparr>))))))"

definition registration_line :: "RegisterParticipantRequest \<Rightarrow> RegistrationResult \<Rightarrow> string" where
  "registration_line request result =
     ''worker registration outcome='' @ registration_outcome_to_string (rr_outcome result) @
     '' participant='' @ pid_value (rp_participant request) @
     '' boot='' @ id_to_string (rp_boot request) @
     '' epoch='' @ counter_to_string (rr_epoch result) @
     '' incarnation='' @ or_none counter_to_string (rr_incarnation result) @
     '' registration_generation='' @ or_none counter_to_string (rr_generation result)"

definition worker_register :: "tool_env \<Rightarrow> Arguments \<Rightarrow> HelloAckPayload \<Rightarrow> nat tact" where
  "worker_register te arguments hello =
     a_bind (a_lift (worker_request te arguments hello)) (\<lambda>request.
     a_bind (client_do te (\<lambda>ca. client_register ca request (ha_session hello))) (\<lambda>result.
     a_bind (print_line (registration_line request result)) (\<lambda>_.
     if rr_outcome result \<noteq> RegistrationOutcome.Registered \<and> rr_outcome result \<noteq> RegistrationOutcome.Idempotent
     then a_bind (print_error (''error registration rejected: '' @ ex_render (rr_explanation result))) (\<lambda>_. a_return 4)
     else a_bind (client_do te (\<lambda>_. wait_for_disconnect)) (\<lambda>_. a_return 0))))"

definition worker_body :: "tool_env \<Rightarrow> string list \<Rightarrow> nat tact" where
  "worker_body te argv =
     a_bind (a_lift (parse_arguments argv)) (\<lambda>arguments.
     if args_has arguments ''help'' then a_bind (print_lines worker_usage) (\<lambda>_. a_return 0)
     else if args_has arguments ''version''
     then a_bind (print_line (''fabric-epoch-worker '' @ version_full)) (\<lambda>_. a_return 0)
     else
       a_bind (open_client ''--port is required'' te arguments) (\<lambda>_.
       a_bind (client_do te (\<lambda>ca. client_hello ca ''worker-session'')) (\<lambda>hello.
       if args_has arguments ''idle''
       then a_bind (print_line (''worker attached epoch='' @ counter_to_string (ha_epoch hello) @
           '' session='' @ id_to_string (ha_session hello))) (\<lambda>_.
         a_bind (client_do te (\<lambda>_. wait_for_disconnect)) (\<lambda>_. a_return 0))
       else worker_register te arguments hello)))"

definition worker_main :: "tool_env \<Rightarrow> string list \<Rightarrow> nat \<times> tool" where
  "worker_main te argv = tool_exit (worker_body te argv tool_start)"

section \<open>The coordinator\<close>

text \<open>
  Outside: what opening the runtime needs (\<open>env\<close>), the port that listening gives, and the connections that were accepted
  until the shutdown was requested and the server was stopped, one after the other. A connection that overlaps with one of
  the list is in the turns of that one, by its requests.
\<close>

record host =
  ho_env :: env
  ho_listen :: "string \<Rightarrow> u16 \<Rightarrow> u16 res"
  ho_connections :: "connection list"

record coordinator =
  co_disk :: disk
  co_out :: "string list"
  co_err :: "string list"

type_synonym 'a coact = "(coordinator, 'a) action"

definition coordinator_usage :: "string list" where
  "coordinator_usage =
     [''usage: fabric-epoch-coordinator --store <path> [options]'',
      ''  --store <path>              durable epoch store (created when absent)'',
      ''  --bind <address>            IPv4 bind address (default 127.0.0.1)'',
      ''  --port <port>               TCP port, 0 selects an ephemeral port'',
      ''  --replacement-policy <p>    REQUIRE_EXPLICIT_FENCE | REPLACE_INCUMBENT'',
      ''  --allow-multi-incarnation   permit multi-incarnation participants'',
      ''  --no-advance-on-open        open the durable epoch without advancing'',
      ''  --provenance <text>         provenance recorded on epoch transitions'',
      ''  --version                   print the version and exit'',
      ''  --help                      print this message and exit'']"

definition co_print :: "string list \<Rightarrow> unit coact" where
  "co_print lines = a_modify (\<lambda>c. c\<lparr> co_out := co_out c @ lines \<rparr>)"

definition coordinator_options :: "Arguments \<Rightarrow> EpochRuntimeOptions res" where
  "coordinator_options arguments =
     res_bind (args_require arguments ''store'') (\<lambda>path.
     let policy = args_get_or arguments ''replacement-policy'' ''REQUIRE_EXPLICIT_FENCE''
     in res_bind (if policy = ''REQUIRE_EXPLICIT_FENCE'' then Inr RequireExplicitFence
          else if policy = ''REPLACE_INCUMBENT'' then Inr ReplaceIncumbent
          else Inl (invalid_argument ''unknown --replacement-policy value'')) (\<lambda>replacement.
        Inr \<lparr> op_store_path = path, op_limits = default_limits,
          op_provenance = BoundedText (args_get_or arguments ''provenance'' ''fabric-epoch-coordinator''),
          op_replacement_policy = replacement,
          op_allow_multi_incarnation = args_has arguments ''allow-multi-incarnation'',
          op_registrable_scope_kinds = (\<lambda>_. True), op_fence_on_session_loss = True,
          op_advance_epoch_on_open = (\<not> args_has arguments ''no-advance-on-open''),
          op_coordinator_boot = None \<rparr>))"

definition co_open :: "host \<Rightarrow> EpochRuntimeOptions \<Rightarrow> impl coact" where
  "co_open h opts =
     (\<lambda>c. case open_runtime (ho_env h) opts (co_disk c) of (r, d) \<Rightarrow> (r, c\<lparr> co_disk := d \<rparr>))"

definition co_flush :: "host \<Rightarrow> impl \<Rightarrow> unit coact" where
  "co_flush h s =
     (\<lambda>c. case flush (en_io (ho_env h)) s of (r, u) \<Rightarrow> (r, c\<lparr> co_disk := im_disk u \<rparr>))"

definition ready_line :: "Arguments \<Rightarrow> u16 \<Rightarrow> impl \<Rightarrow> string" where
  "ready_line arguments port s =
     ''coordinator ready address='' @ args_get_or arguments ''bind'' ''127.0.0.1'' @
     '' port='' @ dec_string (unat port) @
     '' epoch='' @ counter_to_string (current_epoch s) @
     '' coordinator_boot='' @ id_to_string (coordinator_boot s) @
     '' store='' @ op_store_path (im_options s)"

definition stopped_line :: "impl \<Rightarrow> string" where
  "stopped_line s = ''coordinator stopped epoch='' @ counter_to_string (current_epoch s)"

text \<open>The server has the default limits and version.\<close>

definition served :: "host \<Rightarrow> impl \<Rightarrow> impl" where
  "served h s = sv_runtime (fold serve_connection (ho_connections h) (server_started default_limits [] s))"

text \<open>The port is read only after the runtime has been opened.\<close>

definition coordinator_serve :: "host \<Rightarrow> Arguments \<Rightarrow> impl \<Rightarrow> nat coact" where
  "coordinator_serve h arguments s =
     a_bind (a_lift (args_get_unsigned arguments ''port'')) (\<lambda>port.
     a_bind (a_lift (ho_listen h (args_get_or arguments ''bind'' ''127.0.0.1'')
       (case port of Some p \<Rightarrow> ucast p | None \<Rightarrow> 0))) (\<lambda>bound.
     a_bind (co_print [ready_line arguments bound s]) (\<lambda>_.
     let u = served h s
     in a_bind (co_flush h u) (\<lambda>_.
        a_bind (co_print [stopped_line u]) (\<lambda>_. a_return 0)))))"

definition coordinator_body :: "host \<Rightarrow> string list \<Rightarrow> nat coact" where
  "coordinator_body h argv =
     a_bind (a_lift (parse_arguments argv)) (\<lambda>arguments.
     if args_has arguments ''help'' then a_bind (co_print coordinator_usage) (\<lambda>_. a_return 0)
     else if args_has arguments ''version''
     then a_bind (co_print [''fabric-epoch-coordinator '' @ version_full]) (\<lambda>_. a_return 0)
     else
       a_bind (a_lift (throw_if (0 < length (ar_positional arguments))
         (invalid_argument ''unexpected positional argument''))) (\<lambda>_.
       a_bind (a_lift (coordinator_options arguments)) (\<lambda>opts.
       a_bind (co_open h opts) (coordinator_serve h arguments))))"

definition coordinator_main :: "host \<Rightarrow> string list \<Rightarrow> disk \<Rightarrow> nat \<times> coordinator" where
  "coordinator_main h argv d =
     (case coordinator_body h argv \<lparr> co_disk = d, co_out = [], co_err = [] \<rparr> of
        (Inr code, c) \<Rightarrow> (code, c)
      | (Inl e, c) \<Rightarrow> (2, c\<lparr> co_err := co_err c @ [''error '' @ render_error e] \<rparr>))"

section \<open>The coordinator program is a life of the coordinator\<close>

lemma flush_ends:
  assumes "lives n (Running s)" "flush io s = (r, u)"
  shows "lives n (Stopped (im_disk u))"
proof -
  have "perform (Flush io) s = (res_bind r (\<lambda>_. Inr ()), u)" using assms(2) by (simp add: outcome_of_def)
  then have "coordinator_step (Running s) (Running u)" by (rule coordinator_step.request)
  with assms(1) coordinator_step.crash show ?thesis by (meson rtranclp.rtrancl_into_rtrancl)
qed

lemma served_lives: "lives (Running s) (Running (served h s))"
  using connections_follow [of "server_started default_limits [] s" "ho_connections h"]
  by (simp add: served_def follows_def server_started_def)

lemma serve_ends:
  assumes "coordinator_serve h arguments s c = (r, c')" "co_disk c = im_disk s" "lives n (Running s)"
  shows "lives n (Stopped (co_disk c'))"
proof -
  have crash: "lives n (Stopped (im_disk s))"
    using assms(3) coordinator_step.crash by (meson rtranclp.rtrancl_into_rtrancl)
  obtain q u where f: "flush (en_io (ho_env h)) (served h s) = (q, u)"
    by (cases "flush (en_io (ho_env h)) (served h s)")
  have "lives n (Running (served h s))" using assms(3) served_lives by (rule rtranclp_trans)
  from flush_ends [OF this f] have flushed: "lives n (Stopped (im_disk u))" .
  have "co_disk c' = im_disk s \<or> co_disk c' = im_disk u"
    using assms(1,2)
    by (auto simp: coordinator_serve_def a_bind_def co_print_def co_flush_def f Let_def split: sum.splits)
  with crash flushed show ?thesis by auto
qed

lemma coordinator_body_cases:
  assumes "coordinator_body h argv c = (r, c')"
  shows "co_disk c' = co_disk c \<or>
    (\<exists>arguments opts. a_bind (co_open h opts) (coordinator_serve h arguments) c = (r, c'))"
proof (cases "parse_arguments argv")
  case (Inr arguments)
  have bind: "a_bind (a_lift q) f x = (case q of Inl e \<Rightarrow> (Inl e, x) | Inr y \<Rightarrow> f y x)" for q :: "'x res" and f x
    by (simp add: a_bind_def split: sum.split)
  show ?thesis
  proof (cases "args_has arguments ''help'' \<or> args_has arguments ''version'' \<or> ar_positional arguments \<noteq> []")
    case True
    then have "co_disk c' = co_disk c"
      using assms by (auto simp: coordinator_body_def bind Inr a_bind_def co_print_def split: if_splits)
    then show ?thesis by simp
  next
    case False
    then have "(case coordinator_options arguments of Inl e \<Rightarrow> (Inl e, c)
        | Inr opts \<Rightarrow> a_bind (co_open h opts) (coordinator_serve h arguments) c) = (r, c')"
      using assms by (simp add: coordinator_body_def bind Inr)
    then show ?thesis by (cases "coordinator_options arguments") auto
  qed
qed (use assms in \<open>simp add: coordinator_body_def a_bind_def\<close>)

text \<open>
  C33. The coordinator program does nothing that the coordinator does not do: whatever its command line, whatever its
  connections send and make of the runtime, and however it ends, the files it leaves are those at the end of a life of the
  coordinator that began with the files it found; and when those were none, or the image of a valid state, so are the files
  it leaves. (What is shown of steady lives holds of its run as long as its requests that throw are undone.)
\<close>

theorem coordinator_program_is_a_life:
  "lives (Stopped d) (Stopped (co_disk (snd (coordinator_main h argv d)))) \<and>
   ((\<exists>st. holds d st) \<longrightarrow> (\<exists>st. holds (co_disk (snd (coordinator_main h argv d))) st))"
proof -
  let ?c = "\<lparr> co_disk = d, co_out = [], co_err = [] \<rparr>"
  obtain r c where b: "coordinator_body h argv ?c = (r, c)" by (cases "coordinator_body h argv ?c")
  have "lives (Stopped d) (Stopped (co_disk c))"
  proof (cases "co_disk c = d")
    case False
    then obtain arguments opts where
      e: "a_bind (co_open h opts) (coordinator_serve h arguments) ?c = (r, c)"
      using coordinator_body_cases [OF b] by auto
    obtain q d' where o: "open_runtime (ho_env h) opts d = (q, d')" by (cases "open_runtime (ho_env h) opts d")
    show ?thesis
    proof (cases q)
      case (Inl x)
      then have "co_disk c = d'" using e o by (auto simp: a_bind_def co_open_def)
      moreover have "coordinator_step (Stopped d) (Stopped d')"
        using o Inl by (auto intro: coordinator_step.refuse)
      ultimately show ?thesis by auto
    next
      case (Inr s)
      have s: "lives (Stopped d) (Running s)"
        using o Inr by (blast intro: coordinator_step.start)
      have "coordinator_serve h arguments s (?c\<lparr> co_disk := d' \<rparr>) = (r, c)"
        using e o Inr by (simp add: a_bind_def co_open_def)
      moreover have "d' = im_disk s" using o Inr open_runtime_disk by simp
      ultimately show ?thesis using serve_ends [OF _ _ s] by simp
    qed
  qed simp
  then have life: "lives (Stopped d) (Stopped (co_disk (snd (coordinator_main h argv d))))"
    by (cases r) (simp_all add: coordinator_main_def b)
  then show ?thesis using lives_readable [OF life] by auto
qed

text \<open>
  A port that is not a number is refused only after the runtime has been opened: the epoch has moved and all
  authority has ended before the error is reported.
\<close>

lemma bad_port_moves_epoch:
  assumes "coordinator_options arguments = Inr opts" "open_runtime (ho_env h) opts d = (Inr s, d')"
    and "parse_arguments argv = Inr arguments" "ar_positional arguments = []"
    and "\<not> args_has arguments ''help''" "\<not> args_has arguments ''version''"
    and "args_get_unsigned arguments ''port'' = Inl e"
  shows "fst (coordinator_main h argv d) = 2 \<and> co_disk (snd (coordinator_main h argv d)) = im_disk s"
  using assms open_runtime_disk [OF assms(2)]
  by (simp add: coordinator_main_def coordinator_body_def a_bind_def co_open_def coordinator_serve_def)

definition demo_host :: host where
  "demo_host = \<lparr> ho_env = demo_env, ho_listen = (\<lambda>address port. Inr 7400), ho_connections = [] \<rparr>"

definition misspelt_command :: "string list" where
  "misspelt_command =
     [''fabric-epoch-coordinator'', ''--store'', ''fabric.epoch'', ''--provenance'', ''demo'',
      ''--replacement-policy'', ''REPLACE_INCUMBENT'', ''--port'', ''seven'']"

text \<open>The program at work on an empty store, with a port that is refused.\<close>

theorem coordinator_program_is_a_life_witness:
  "\<exists>d. fst (coordinator_main demo_host misspelt_command empty_disk) = 2 \<and>
     d = co_disk (snd (coordinator_main demo_host misspelt_command empty_disk)) \<and>
     image_file d \<noteq> None \<and> lives (Stopped empty_disk) (Stopped d) \<and> (\<exists>st. holds d st)"
proof -
  let ?arguments = "\<lparr> ar_positional = [], ar_options = [(''store'', ''fabric.epoch''), (''provenance'', ''demo''),
    (''replacement-policy'', ''REPLACE_INCUMBENT''), (''port'', ''seven'')] \<rparr>"
  have parsed: "parse_arguments misspelt_command = Inr ?arguments"
    "args_get_unsigned ?arguments ''port'' = Inl (invalid_argument ''option --port requires a numeric value'')"
    by code_simp+
  have options: "coordinator_options ?arguments = Inr (demo_options\<lparr> op_coordinator_boot := None \<rparr>)"
    by (simp add: coordinator_options_def args_require_def args_get_def args_get_or_def args_has_def demo_options_def)
  let ?opts = "demo_options\<lparr> op_coordinator_boot := None \<rparr>"
  have fields: "store_options ?opts = store_options demo_options" "op_limits ?opts = op_limits demo_options"
    "op_store_path ?opts = op_store_path demo_options"
    "op_advance_epoch_on_open ?opts = op_advance_epoch_on_open demo_options"
    "(case op_coordinator_boot ?opts of Some boot \<Rightarrow> Inr boot | None \<Rightarrow> en_coordinator_boot demo_env) =
       (case op_coordinator_boot demo_options of Some boot \<Rightarrow> Inr boot | None \<Rightarrow> en_coordinator_boot demo_env)"
    "opened ?opts = opened demo_options"
    by (simp_all add: store_options_def opened_def fun_eq_iff)
  have same: "open_runtime demo_env ?opts empty_disk = open_runtime demo_env demo_options empty_disk"
    unfolding open_runtime_def open_inputs_def fields ..
  obtain s where s: "open_runtime demo_env demo_options empty_disk = (Inr s, im_disk s)" "at_state s state1"
    using open_demo by blast
  have run: "fst (coordinator_main demo_host misspelt_command empty_disk) = 2 \<and>
      co_disk (snd (coordinator_main demo_host misspelt_command empty_disk)) = im_disk s"
    by (rule bad_port_moves_epoch [OF options _ parsed(1) _ _ _ parsed(2)])
      (use s(1) same in \<open>simp_all add: demo_host_def args_has_def\<close>)
  have "image_file (im_disk s) \<noteq> None"
    using at_stateD(4) [OF s(2)] by (auto simp: saved_def)
  moreover have "holds empty_disk initial_state" by (simp add: holds_def empty_disk_def)
  ultimately show ?thesis
    using run coordinator_program_is_a_life [of empty_disk demo_host misspelt_command] by auto
qed

end
