(* ===== verification/Sockets.thy ===== *)
theory Sockets
  imports Wire "HOL-Library.Sublist"
begin

text \<open>
  The rest of the socket layer (\<open>socket.cpp\<close>): sending, and what listening, accepting and connecting make of the results of
  the system calls, which are inputs. The errors are those of POSIX, on which \<open>EWOULDBLOCK\<close> is \<open>EAGAIN\<close>. Receiving is in
  \<open>Wire\<close>; \<open>recv_event_of\<close> says how the result of one call of \<open>recv\<close> is classified there.
\<close>

section \<open>Errors\<close>

datatype errno =
    EAGAIN | ETIMEDOUT | ECONNRESET | EPIPE | EINTR | ENOTCONN | EINPROGRESS | OtherErrno

definition is_timeout_error :: "errno \<Rightarrow> bool" where
  "is_timeout_error e \<longleftrightarrow> e = EAGAIN \<or> e = ETIMEDOUT"

definition is_disconnect_error :: "errno \<Rightarrow> bool" where
  "is_disconnect_error e \<longleftrightarrow> e = ECONNRESET \<or> e = EPIPE \<or> e = EINTR \<or> e = ENOTCONN"

datatype recv_result = Received "byte list" | RecvError errno

fun recv_event_of :: "recv_result \<Rightarrow> recv_event" where
  "recv_event_of (Received bs) = Bytes bs"
| "recv_event_of (RecvError e) =
     (if is_timeout_error e then TimedOut else if is_disconnect_error e then Disconnected else Failed)"

section \<open>Handles\<close>

text \<open>An owned handle, or none; closing returns the handles that are given back to the system.\<close>

type_synonym handle = "int option"

definition socket_valid :: "handle \<Rightarrow> bool" where
  "socket_valid h \<longleftrightarrow> h \<noteq> None"

definition socket_release :: "handle \<Rightarrow> handle \<times> handle" where
  "socket_release h = (h, None)"

definition socket_close :: "handle \<Rightarrow> int list \<times> handle" where
  "socket_close h = (case h of None \<Rightarrow> ([], None) | Some n \<Rightarrow> ([n], None))"

text \<open>Move assignment: the old handle is closed, unless it is the same object.\<close>

definition socket_assign :: "bool \<Rightarrow> handle \<Rightarrow> handle \<Rightarrow> int list \<times> handle \<times> handle" where
  "socket_assign same_object this that =
     (if same_object then ([], this, that) else (fst (socket_close this), that, None))"

lemma socket_close_twice: "fst (socket_close (snd (socket_close h))) = []"
  by (simp add: socket_close_def split: option.split)

section \<open>Sending\<close>

text \<open>
  One call of \<open>send\<close>: the number of bytes it takes, at least one and at most the chunk (which the model enforces),
  or a failure, which is any result that is not positive.
\<close>

datatype send_result = Accepted nat | SendError errno

definition send_chunk :: nat where
  "send_chunk = 2 ^ 20"

text \<open>\<open>None\<close>: still waiting for the system to take bytes.\<close>

fun send_loop :: "byte list \<Rightarrow> byte list \<Rightarrow> send_result list \<Rightarrow> (unit res \<times> byte list) option" where
  "send_loop sent remaining rs =
     (if remaining = [] then Some (Inr (), sent)
      else case rs of
        [] \<Rightarrow> None
      | SendError e # _ \<Rightarrow>
          Some (Inl (if is_disconnect_error e then io_failure ''peer closed the connection while sending''
            else io_failure ''socket send failed''), sent)
      | Accepted n # rest \<Rightarrow>
          let k = max 1 (min n (min (length remaining) send_chunk))
          in send_loop (sent @ take k remaining) (drop k remaining) rest)"

declare send_loop.simps [simp del]

definition send_all :: "byte list \<Rightarrow> send_result list \<Rightarrow> (unit res \<times> byte list) option" where
  "send_all data rs = send_loop [] data rs"

text \<open>
  What leaves is a prefix of the data, all of it when \<open>send_all\<close> returns; and it returns once the
  system has taken as many chunks as there are bytes.
\<close>

lemma send_loop_prefix:
  "send_loop sent remaining rs = Some (r, out) \<Longrightarrow>
     \<exists>rest. sent @ remaining = out @ rest \<and> (r = Inr () \<longrightarrow> rest = [])"
proof (induction sent remaining rs rule: send_loop.induct)
  case (1 sent remaining rs)
  show ?case
  proof (cases "remaining = []")
    case True
    with 1(2) show ?thesis by (simp add: send_loop.simps [of sent])
  next
    case False
    show ?thesis
    proof (cases rs)
      case Nil
      with 1(2) False show ?thesis by (simp add: send_loop.simps [of sent])
    next
      case (Cons x rest)
      show ?thesis
      proof (cases x)
        case (Accepted n)
        let ?k = "max 1 (min n (min (length remaining) send_chunk))"
        have "send_loop (sent @ take ?k remaining) (drop ?k remaining) rest = Some (r, out)"
          using 1(2) False Cons Accepted by (simp add: send_loop.simps [of sent remaining] Let_def)
        from 1(1) [OF False Cons Accepted refl this] show ?thesis by simp
      next
        case (SendError e)
        then show ?thesis
          using 1(2) False Cons by (auto simp: send_loop.simps [of sent remaining])
      qed
    qed
  qed
qed

theorem send_all_sends:
  assumes "send_all data rs = Some (r, out)"
  shows "prefix out data \<and> (r = Inr () \<longrightarrow> out = data)"
  using send_loop_prefix [OF assms [unfolded send_all_def]] by (auto simp: prefix_def)

theorem send_all_returns:
  "length data \<le> length ns \<Longrightarrow> send_all data (map Accepted ns) = Some (Inr (), data)"
proof -
  have "length remaining \<le> length ns \<Longrightarrow>
      send_loop sent remaining (map Accepted ns) = Some (Inr (), sent @ remaining)" for sent remaining
  proof (induction ns arbitrary: sent remaining)
    case (Cons n ns)
    show ?case
    proof (cases "remaining = []")
      case False
      let ?k = "max 1 (min n (min (length remaining) send_chunk))"
      have "length (drop ?k remaining) \<le> length ns" using Cons(2) by simp
      from Cons(1) [OF this, of "sent @ take ?k remaining"] show ?thesis
        using False by (simp add: send_loop.simps [of sent remaining] Let_def)
    qed (simp add: send_loop.simps [of sent])
  qed (simp add: send_loop.simps)
  then show "length data \<le> length ns \<Longrightarrow> ?thesis" by (simp add: send_all_def)
qed

section \<open>Budgets\<close>

text \<open>
  A budget in milliseconds as the seconds and microseconds of a \<open>timeval\<close>, for receiving and for waiting; the whole
  budget is passed on, and the microseconds are below a second, as the system requires.
\<close>

definition timeval_of :: "u32 \<Rightarrow> nat \<times> nat" where
  "timeval_of milliseconds =
     (unat (milliseconds div 1000), unat (milliseconds mod 1000 * 1000))"

lemma timeval_of_budget:
  assumes "timeval_of milliseconds = (seconds, microseconds)"
  shows "microseconds < 1000000" "seconds * 1000000 + microseconds = unat milliseconds * 1000"
proof -
  have m: "unat (milliseconds mod 1000) = unat milliseconds mod 1000" by (simp add: unat_mod)
  have u: "unat (milliseconds mod 1000 * 1000) = unat milliseconds mod 1000 * 1000"
    by (subst unat_mult_lem [THEN iffD1]) (simp_all add: m order_le_less_trans [of _ "999 * 1000"])
  have "seconds = unat milliseconds div 1000" "microseconds = unat milliseconds mod 1000 * 1000"
    using assms u by (auto simp: timeval_of_def unat_div)
  moreover have "unat milliseconds mod 1000 < 1000" by simp
  ultimately show "microseconds < 1000000" "seconds * 1000000 + microseconds = unat milliseconds * 1000"
    using div_mult_mod_eq [of "unat milliseconds" 1000] by linarith+
qed

text \<open>\<open>select\<close> gives the number of descriptors that are ready, or a negative number.\<close>

definition wait_readable :: "int \<Rightarrow> bool" where
  "wait_readable ready \<longleftrightarrow> 0 < ready"

text \<open>Shutting a listener down tells the system about its handle, which stays open.\<close>

definition listener_shutdown :: "handle \<Rightarrow> int list" where
  "listener_shutdown h = (case h of None \<Rightarrow> [] | Some n \<Rightarrow> [n])"

section \<open>Listening, accepting, connecting\<close>

record listen_calls =
  lc_socket :: "int option"
  lc_address :: bool
  lc_bind :: bool
  lc_listen :: bool
  lc_port :: "u16 option"

text \<open>The port that was bound, and the handle the listener is left with.\<close>

definition bind_and_listen :: "listen_calls \<Rightarrow> u16 res \<times> handle" where
  "bind_and_listen lc =
     (case lc_socket lc of
        None \<Rightarrow> (Inl (io_failure ''cannot create a listening socket''), None)
      | Some handle \<Rightarrow>
          if \<not> lc_address lc
          then (Inl (invalid_argument ''bind address is not a valid IPv4 literal''), None)
          else if \<not> lc_bind lc
          then (Inl (io_failure ''cannot bind the coordinator listening socket''), None)
          else if \<not> lc_listen lc
          then (Inl (io_failure ''cannot listen on the coordinator socket''), None)
          else (case lc_port lc of
            None \<Rightarrow> (Inl (io_failure ''cannot resolve the bound coordinator port''), None)
          | Some port \<Rightarrow> (Inr port, Some handle)))"

definition accept_one :: "handle \<Rightarrow> bool \<Rightarrow> int option \<Rightarrow> handle" where
  "accept_one listener ready accepted =
     (if listener = None then None else if \<not> ready then None else accepted)"

record connect_calls =
  cc_socket :: "int option"
  cc_address :: bool
  cc_connect :: "errno option"
  cc_ready :: bool
  cc_status :: "bool option"

text \<open>\<open>cc_status\<close>: whether the socket reports an error after the wait, when it can be asked.\<close>

definition connect_to :: "connect_calls \<Rightarrow> handle res" where
  "connect_to cc =
     (case cc_socket cc of
        None \<Rightarrow> Inl (io_failure ''cannot create a client socket'')
      | Some handle \<Rightarrow>
          if \<not> cc_address cc then Inl (invalid_argument ''connect host is not a valid IPv4 literal'')
          else case cc_connect cc of
            None \<Rightarrow> Inr (Some handle)
          | Some e \<Rightarrow>
              if e \<noteq> EINPROGRESS \<and> e \<noteq> EAGAIN then Inl (io_failure ''coordinator connection was refused'')
              else if \<not> cc_ready cc then Inl (io_failure ''coordinator connection timed out'')
              else (case cc_status cc of
                None \<Rightarrow> Inl (io_failure ''cannot determine the coordinator connection status'')
              | Some failed \<Rightarrow>
                  if failed then Inl (io_failure ''coordinator connection failed'') else Inr (Some handle)))"

text \<open>A listener that failed to start holds no handle.\<close>

lemma bind_and_listen_handle:
  "socket_valid (snd (bind_and_listen lc)) \<longleftrightarrow> \<not> isl (fst (bind_and_listen lc))"
  by (auto simp: bind_and_listen_def socket_valid_def split: option.split)

end
