(* ===== verification/Threads.thy ===== *)
theory Threads
  imports Prelude
begin

text \<open>
  The threads of a running coordinator (\<open>server.cpp\<close>): the main thread, which waits for a shutdown request and then stops
  the server; the thread that accepts connections, starts a session thread for each and joins those that have
  finished; and the session threads. They share a mutex, a condition variable, two flags and the list of session
  threads. Every thread is a program counter; a step is one access to what they share. What a session does between
  its start and its end is \<open>Server\<close>; here it waits for a frame, which its receive timeouts bound, or sends an answer, which
  nothing bounds when the peer does not read; it leaves, or is asked to shut the coordinator down. It is assumed that the
  system can start the threads asked of it.
\<close>

section \<open>State\<close>

datatype main_pc =
    Wait_Lock | Wait_Test | Wait_Sleep | Asleep | Stop_Flag | Join_Acceptor | Swap_Sessions
  | Join_Sessions "nat list" | Returned

datatype acceptor_pc =
    Accept_Top | Accepting | Got_Socket | Push_Lock | Pushing | Reap_Lock | Reaping nat | Accept_Done

datatype session_pc =
    Serving | Sending | Request_Lock | Request_Set | Notifying | Stopping | Served | Finished | Exited

datatype holder = Main | Acceptor | Session nat

record threads =
  th_mutex :: "holder option"
  th_shutdown :: bool
  th_stop :: bool
  th_stopped :: bool
  th_main :: main_pc
  th_acceptor :: acceptor_pc
  th_sessions :: "nat list"
  th_pc :: "nat \<Rightarrow> session_pc"
  th_next :: nat

text \<open>After \<open>start\<close>: the main thread is about to wait, and the acceptor runs.\<close>

definition started :: threads where
  "started =
     \<lparr> th_mutex = None, th_shutdown = False, th_stop = False, th_stopped = False, th_main = Wait_Lock,
       th_acceptor = Accept_Top, th_sessions = [], th_pc = (\<lambda>_. Exited), th_next = 0 \<rparr>"

text \<open>\<open>std::lock_guard\<close> and \<open>std::unique_lock\<close>: the lock is taken when it is free, and waited for otherwise.\<close>

definition acquire :: "holder \<Rightarrow> threads \<Rightarrow> threads option" where
  "acquire h s = (if th_mutex s = None then Some (s\<lparr> th_mutex := Some h \<rparr>) else None)"

definition release :: "threads \<Rightarrow> threads" where
  "release s = s\<lparr> th_mutex := None \<rparr>"

section \<open>Steps\<close>

text \<open>
  \<open>wait_for_shutdown_request\<close>, which tests the flag under the mutex and gives the mutex up as it falls asleep, and then
  \<open>stop\<close>.
\<close>

fun wait_step :: "threads \<Rightarrow> threads option" where
  "wait_step s =
     (case th_main s of
        Wait_Lock \<Rightarrow> map_option (\<lambda>u. u\<lparr> th_main := Wait_Test \<rparr>) (acquire Main s)
      | Wait_Test \<Rightarrow>
          Some (if th_shutdown s then (release s)\<lparr> th_main := Stop_Flag \<rparr> else s\<lparr> th_main := Wait_Sleep \<rparr>)
      | Wait_Sleep \<Rightarrow> Some ((release s)\<lparr> th_main := Asleep \<rparr>)
      | _ \<Rightarrow> None)"

fun stop_step :: "threads \<Rightarrow> threads option" where
  "stop_step s =
     (case th_main s of
        Stop_Flag \<Rightarrow>
          Some (if th_stopped s then s\<lparr> th_main := Returned \<rparr>
            else s\<lparr> th_stopped := True, th_stop := True, th_main := Join_Acceptor \<rparr>)
      | Join_Acceptor \<Rightarrow>
          if th_acceptor s = Accept_Done then Some (s\<lparr> th_main := Swap_Sessions \<rparr>) else None
      | Swap_Sessions \<Rightarrow>
          map_option (\<lambda>u. release (u\<lparr> th_sessions := [], th_main := Join_Sessions (th_sessions u) \<rparr>)) (acquire Main s)
      | Join_Sessions [] \<Rightarrow> Some (s\<lparr> th_main := Returned \<rparr>)
      | Join_Sessions (n # ns) \<Rightarrow>
          if th_pc s n = Exited then Some (s\<lparr> th_main := Join_Sessions ns \<rparr>) else None
      | _ \<Rightarrow> None)"

definition main_step :: "threads \<Rightarrow> threads option" where
  "main_step s = (case wait_step s of Some u \<Rightarrow> Some u | None \<Rightarrow> stop_step s)"

definition session_finished :: "session_pc \<Rightarrow> bool" where
  "session_finished pc \<longleftrightarrow> pc = Finished \<or> pc = Exited"

definition drop_session :: "nat \<Rightarrow> nat list \<Rightarrow> nat list" where
  "drop_session i ns = take i ns @ drop (Suc i) ns"

text \<open>One position of \<open>reap_finished_sessions_locked\<close>; the lock is given up behind the last.\<close>

definition reap_step :: "nat \<Rightarrow> threads \<Rightarrow> threads option" where
  "reap_step i s =
     (if i < length (th_sessions s) then
        if session_finished (th_pc s (th_sessions s ! i)) then
          if th_pc s (th_sessions s ! i) = Exited
          then Some (s\<lparr> th_sessions := drop_session i (th_sessions s) \<rparr>) else None
        else Some (s\<lparr> th_acceptor := Reaping (Suc i) \<rparr>)
      else Some ((release s)\<lparr> th_acceptor := Accept_Top \<rparr>))"

text \<open>\<open>accept_loop\<close>; whether a connection arrives within the wait is decided outside.\<close>

fun acceptor_step :: "bool \<Rightarrow> threads \<Rightarrow> threads option" where
  "acceptor_step arrives s =
     (case th_acceptor s of
        Accept_Top \<Rightarrow> Some (s\<lparr> th_acceptor := if th_stop s then Accept_Done else Accepting \<rparr>)
      | Accepting \<Rightarrow> Some (s\<lparr> th_acceptor := if arrives then Got_Socket else Reap_Lock \<rparr>)
      | Got_Socket \<Rightarrow> Some (s\<lparr> th_acceptor := if th_stop s then Accept_Done else Push_Lock \<rparr>)
      | Push_Lock \<Rightarrow> map_option (\<lambda>u. u\<lparr> th_acceptor := Pushing \<rparr>) (acquire Acceptor s)
      | Pushing \<Rightarrow>
          Some (s\<lparr> th_sessions := th_sessions s @ [th_next s], th_pc := (th_pc s)(th_next s := Serving),
            th_next := Suc (th_next s), th_acceptor := Reaping 0 \<rparr>)
      | Reap_Lock \<Rightarrow> map_option (\<lambda>u. u\<lparr> th_acceptor := Reaping 0 \<rparr>) (acquire Acceptor s)
      | Reaping i \<Rightarrow> reap_step i s
      | Accept_Done \<Rightarrow> None)"

definition session_at :: "nat \<Rightarrow> session_pc \<Rightarrow> threads \<Rightarrow> threads" where
  "session_at n pc s = s\<lparr> th_pc := (th_pc s)(n := pc) \<rparr>"

text \<open>\<open>shutdown_cv.notify_all()\<close> wakes the main thread when it sleeps, and has no effect otherwise.\<close>

definition wake :: "threads \<Rightarrow> threads" where
  "wake s = (if th_main s = Asleep then s\<lparr> th_main := Wait_Lock \<rparr> else s)"

text \<open>
  A session thread: in \<open>serve\<close>, where it depends on its peer. While nothing comes from the peer it waits, in pieces of a
  bounded time, and leaves when it finds the flag that stops the server; a frame takes it to sending an answer, which ends
  when the peer has read enough, or has gone; a shutdown request takes it through \<open>request_shutdown\<close> and the flag that stops
  the server. Then it goes through the store to \<open>finished\<close> to its end.
\<close>

datatype peer = Idle | Sends_Frame | Reads | Leaves | Asks_Shutdown

fun session_step :: "peer \<Rightarrow> nat \<Rightarrow> threads \<Rightarrow> threads option" where
  "session_step peer n s =
     (if n < th_next s then
        case th_pc s n of
          Serving \<Rightarrow>
            (case peer of
               Idle \<Rightarrow> if th_stop s then Some (session_at n Served s) else None
             | Sends_Frame \<Rightarrow> Some (session_at n Sending s)
             | Reads \<Rightarrow> None
             | Leaves \<Rightarrow> Some (session_at n Served s)
             | Asks_Shutdown \<Rightarrow> Some (session_at n Request_Lock s))
        | Sending \<Rightarrow>
            (case peer of
               Reads \<Rightarrow> Some (session_at n Serving s)
             | Leaves \<Rightarrow> Some (session_at n Served s)
             | _ \<Rightarrow> None)
        | Request_Lock \<Rightarrow> map_option (session_at n Request_Set) (acquire (Session n) s)
        | Request_Set \<Rightarrow> Some (session_at n Notifying (release (s\<lparr> th_shutdown := True \<rparr>)))
        | Notifying \<Rightarrow> Some (session_at n Stopping (wake s))
        | Stopping \<Rightarrow> Some (session_at n Served (s\<lparr> th_stop := True \<rparr>))
        | Served \<Rightarrow> Some (session_at n Finished s)
        | Finished \<Rightarrow> Some (session_at n Exited s)
        | Exited \<Rightarrow> None
      else None)"

text \<open>A step of some thread; \<open>By_Chance\<close> is a spurious wakeup, which a condition variable is allowed.\<close>

datatype move = By_Main | By_Acceptor bool | By_Session peer nat | By_Chance

fun make_move :: "move \<Rightarrow> threads \<Rightarrow> threads option" where
  "make_move By_Main s = main_step s"
| "make_move (By_Acceptor arrives) s = acceptor_step arrives s"
| "make_move (By_Session peer n) s = session_step peer n s"
| "make_move By_Chance s = (if th_main s = Asleep then Some (wake s) else None)"

fun make_moves :: "move list \<Rightarrow> threads \<Rightarrow> threads option" where
  "make_moves [] s = Some s"
| "make_moves (m # ms) s = (case make_move m s of None \<Rightarrow> None | Some u \<Rightarrow> make_moves ms u)"

section \<open>Invariants\<close>

text \<open>The mutex is held by the thread that is inside a critical section, and by no other.\<close>

fun main_inside :: "main_pc \<Rightarrow> bool" where
  "main_inside Wait_Test = True"
| "main_inside Wait_Sleep = True"
| "main_inside _ = False"

fun acceptor_inside :: "acceptor_pc \<Rightarrow> bool" where
  "acceptor_inside Pushing = True"
| "acceptor_inside (Reaping i) = True"
| "acceptor_inside _ = False"

definition mutex_ok :: "threads \<Rightarrow> bool" where
  "mutex_ok s \<longleftrightarrow>
     (th_mutex s = Some Main \<longleftrightarrow> main_inside (th_main s)) \<and>
     (th_mutex s = Some Acceptor \<longleftrightarrow> acceptor_inside (th_acceptor s)) \<and>
     (\<forall>n. th_mutex s = Some (Session n) \<longleftrightarrow> th_pc s n = Request_Set)"

text \<open>A request that is made while the main thread falls asleep is not lost: somebody is about to wake it.\<close>

definition wake_ok :: "threads \<Rightarrow> bool" where
  "wake_ok s \<longleftrightarrow>
     (th_main s = Wait_Sleep \<longrightarrow> \<not> th_shutdown s) \<and>
     (th_main s = Asleep \<and> th_shutdown s \<longrightarrow> (\<exists>n. th_pc s n = Notifying))"

fun leaving :: "main_pc \<Rightarrow> bool" where
  "leaving Join_Acceptor = True"
| "leaving Swap_Sessions = True"
| "leaving (Join_Sessions ns) = True"
| "leaving Returned = True"
| "leaving _ = False"

fun joined :: "main_pc \<Rightarrow> bool" where
  "joined Swap_Sessions = True"
| "joined (Join_Sessions ns) = True"
| "joined Returned = True"
| "joined _ = False"

definition stop_ok :: "threads \<Rightarrow> bool" where
  "stop_ok s \<longleftrightarrow>
     (th_stopped s \<longleftrightarrow> leaving (th_main s)) \<and> (th_stopped s \<longrightarrow> th_stop s) \<and>
     (joined (th_main s) \<longrightarrow> th_acceptor s = Accept_Done) \<and> (th_acceptor s = Accept_Done \<longrightarrow> th_stop s) \<and>
     (joined (th_main s) \<and> th_main s \<noteq> Swap_Sessions \<longrightarrow> th_sessions s = [])"

text \<open>A thread that has not ended is in the list, or among those that the main thread has taken from it to join.\<close>

fun to_join :: "main_pc \<Rightarrow> nat list" where
  "to_join (Join_Sessions ns) = ns"
| "to_join _ = []"

definition owned_ok :: "threads \<Rightarrow> bool" where
  "owned_ok s \<longleftrightarrow>
     (\<forall>n. th_pc s n \<noteq> Exited \<longrightarrow> n \<in> set (th_sessions s) \<union> set (to_join (th_main s))) \<and>
     (\<forall>n \<in> set (th_sessions s) \<union> set (to_join (th_main s)). n < th_next s)"

definition threads_ok :: "threads \<Rightarrow> bool" where
  "threads_ok s \<longleftrightarrow> mutex_ok s \<and> wake_ok s \<and> stop_ok s \<and> owned_ok s"

lemma started_ok: "threads_ok started"
  by (simp add: threads_ok_def mutex_ok_def wake_ok_def stop_ok_def owned_ok_def started_def)

lemmas step_defs = main_step_def acquire_def release_def session_at_def wake_def reap_step_def

lemma drop_session_subset: "set (drop_session i ns) \<subseteq> set ns"
  by (auto simp: drop_session_def dest: in_set_takeD in_set_dropD)

lemma drop_session_keeps:
  assumes "i < length ns" "n \<in> set ns" "n \<noteq> ns ! i"
  shows "n \<in> set (drop_session i ns)"
proof -
  have "ns = take i ns @ ns ! i # drop (Suc i) ns" using assms(1) by (rule id_take_nth_drop)
  with assms(2,3) have "n \<in> set (take i ns) \<union> set (drop (Suc i) ns)"
    by (metis Un_iff set_append set_ConsD)
  then show ?thesis by (simp add: drop_session_def)
qed

text \<open>Steps of a thread outside its critical section, and steps that take or give up the mutex.\<close>

lemma main_at_ok:
  assumes "threads_ok s" "main_inside pc \<longleftrightarrow> main_inside (th_main s)" "leaving pc \<longleftrightarrow> leaving (th_main s)"
    and "joined pc \<longrightarrow> joined (th_main s) \<or> th_acceptor s = Accept_Done"
    and "joined pc \<and> pc \<noteq> Swap_Sessions \<longrightarrow> th_sessions s = []"
    and "pc = Wait_Sleep \<longrightarrow> \<not> th_shutdown s" "pc \<noteq> Asleep"
    and "set (to_join pc) \<subseteq> set (to_join (th_main s))"
    and "\<forall>n \<in> set (to_join (th_main s)) - set (to_join pc). th_pc s n = Exited"
  shows "threads_ok (s\<lparr> th_main := pc \<rparr>)"
proof -
  have "mutex_ok (s\<lparr> th_main := pc \<rparr>)" using assms(1,2) by (simp add: threads_ok_def mutex_ok_def)
  moreover have "wake_ok (s\<lparr> th_main := pc \<rparr>)" using assms(6,7) by (simp add: wake_ok_def)
  moreover have "stop_ok (s\<lparr> th_main := pc \<rparr>)" using assms(1,3-5) by (auto simp: threads_ok_def stop_ok_def)
  moreover have "owned_ok (s\<lparr> th_main := pc \<rparr>)" using assms(1,8,9) by (auto simp: threads_ok_def owned_ok_def)
  ultimately show ?thesis by (simp add: threads_ok_def)
qed

lemma acceptor_at_ok:
  assumes "threads_ok s" "acceptor_inside pc \<longleftrightarrow> acceptor_inside (th_acceptor s)"
    and "th_acceptor s \<noteq> Accept_Done" "pc = Accept_Done \<longrightarrow> th_stop s"
  shows "threads_ok (s\<lparr> th_acceptor := pc \<rparr>)"
  using assms by (auto simp: threads_ok_def mutex_ok_def wake_ok_def stop_ok_def owned_ok_def)

lemma wake_at_ok: "wake_ok s \<Longrightarrow> th_pc s n \<noteq> Notifying \<Longrightarrow> wake_ok (session_at n pc s)"
  unfolding wake_ok_def session_at_def by auto

lemma session_at_ok:
  assumes "threads_ok s" "th_pc s n \<notin> {Request_Set, Notifying, Exited}" "pc \<noteq> Request_Set"
  shows "threads_ok (session_at n pc s)"
proof -
  have "mutex_ok (session_at n pc s)" using assms by (auto simp: threads_ok_def mutex_ok_def session_at_def)
  moreover have "wake_ok (session_at n pc s)"
    using assms(1,2) by (simp add: threads_ok_def wake_at_ok)
  moreover have "stop_ok (session_at n pc s)" using assms(1) by (simp add: threads_ok_def stop_ok_def session_at_def)
  moreover have "owned_ok (session_at n pc s)" using assms(1,2) by (auto simp: threads_ok_def owned_ok_def session_at_def)
  ultimately show ?thesis by (simp add: threads_ok_def)
qed

lemma main_takes_ok:
  assumes "threads_ok s" "th_mutex s = None" "th_main s = Wait_Lock"
  shows "threads_ok (s\<lparr> th_mutex := Some Main, th_main := Wait_Test \<rparr>)"
  using assms unfolding threads_ok_def mutex_ok_def
  by (simp add: wake_ok_def stop_ok_def owned_ok_def)

lemma main_gives_ok:
  assumes "threads_ok s" "main_inside (th_main s)" "pc = Asleep \<and> \<not> th_shutdown s \<or> pc = Stop_Flag"
  shows "threads_ok (s\<lparr> th_mutex := None, th_main := pc \<rparr>)" (is "threads_ok ?u")
proof -
  have "th_main s = Wait_Test \<or> th_main s = Wait_Sleep" using assms(2) by (cases "th_main s") simp_all
  then have out: "\<not> leaving (th_main s)" "\<not> joined (th_main s)" "to_join (th_main s) = []" by auto
  have pc: "\<not> leaving pc" "\<not> joined pc" "to_join pc = []" "\<not> main_inside pc" "pc \<noteq> Wait_Sleep"
    using assms(3) by auto
  have "mutex_ok ?u" using assms(1,2) pc(4) by (auto simp: threads_ok_def mutex_ok_def)
  moreover have "wake_ok ?u" using assms(3) by (auto simp: wake_ok_def)
  moreover have "stop_ok ?u" using assms(1) out(1,2) pc(1,2) by (simp add: threads_ok_def stop_ok_def)
  moreover have "owned_ok ?u" using assms(1) out(3) pc(3) by (simp add: threads_ok_def owned_ok_def)
  ultimately show ?thesis by (simp add: threads_ok_def)
qed

lemma acceptor_takes_ok:
  assumes "threads_ok s" "th_mutex s = None" "th_acceptor s = Push_Lock \<or> th_acceptor s = Reap_Lock" "acceptor_inside pc"
  shows "threads_ok (s\<lparr> th_mutex := Some Acceptor, th_acceptor := pc \<rparr>)"
proof -
  have "pc \<noteq> Accept_Done" using assms(4) by auto
  with assms show ?thesis
    unfolding threads_ok_def mutex_ok_def by (auto simp: wake_ok_def stop_ok_def owned_ok_def)
qed

lemma acceptor_gives_ok:
  assumes "threads_ok s" "acceptor_inside (th_acceptor s)"
  shows "threads_ok (s\<lparr> th_mutex := None, th_acceptor := Accept_Top \<rparr>)"
proof -
  have "th_acceptor s \<noteq> Accept_Done" using assms(2) by auto
  with assms show ?thesis
    unfolding threads_ok_def mutex_ok_def by (auto simp: wake_ok_def stop_ok_def owned_ok_def)
qed

lemma push_ok:
  assumes "threads_ok s" "th_acceptor s = Pushing"
  shows "threads_ok (s\<lparr> th_sessions := th_sessions s @ [th_next s], th_pc := (th_pc s)(th_next s := Serving),
    th_next := Suc (th_next s), th_acceptor := Reaping 0 \<rparr>)" (is "threads_ok ?u")
proof -
  have new: "th_pc s (th_next s) = Exited" using assms(1) unfolding threads_ok_def owned_ok_def by blast
  have "mutex_ok ?u" using assms new unfolding threads_ok_def mutex_ok_def by auto
  moreover have "wake_ok ?u" using assms(1) new unfolding threads_ok_def wake_ok_def by (auto; metis session_pc.distinct)
  moreover have "stop_ok ?u" using assms unfolding threads_ok_def stop_ok_def by auto
  moreover have "owned_ok ?u" using assms(1) unfolding threads_ok_def owned_ok_def by (auto simp: less_Suc_eq)
  ultimately show ?thesis by (simp add: threads_ok_def)
qed

lemma reaped_ok:
  assumes "threads_ok s" "i < length (th_sessions s)" "th_pc s (th_sessions s ! i) = Exited" "acceptor_inside (th_acceptor s)"
  shows "threads_ok (s\<lparr> th_sessions := drop_session i (th_sessions s) \<rparr>)" (is "threads_ok ?u")
proof -
  have "\<not> joined (th_main s)" using assms(1,4) by (auto simp: threads_ok_def stop_ok_def)
  then have "stop_ok ?u" using assms(1) by (simp add: threads_ok_def stop_ok_def)
  moreover have "owned_ok ?u"
    using assms(1,3) drop_session_keeps [OF assms(2)] drop_session_subset [of i "th_sessions s"]
    unfolding threads_ok_def owned_ok_def by (auto; metis)
  ultimately show ?thesis using assms(1) by (simp add: threads_ok_def mutex_ok_def wake_ok_def)
qed

lemma session_takes_ok:
  assumes "threads_ok s" "th_mutex s = None" "th_pc s n = Request_Lock"
  shows "threads_ok (session_at n Request_Set (s\<lparr> th_mutex := Some (Session n) \<rparr>))" (is "threads_ok ?u")
proof -
  have "mutex_ok ?u" using assms unfolding threads_ok_def mutex_ok_def session_at_def by auto
  moreover have "wake_ok ?u"
    using assms(1,3) wake_at_ok [of "s\<lparr> th_mutex := Some (Session n) \<rparr>" n] by (simp add: threads_ok_def wake_ok_def)
  moreover have "stop_ok ?u" using assms(1) by (simp add: threads_ok_def stop_ok_def session_at_def)
  moreover have "owned_ok ?u" using assms(1,3) by (auto simp: threads_ok_def owned_ok_def session_at_def)
  ultimately show ?thesis by (simp add: threads_ok_def)
qed

lemma session_sets_ok:
  assumes "threads_ok s" "th_pc s n = Request_Set"
  shows "threads_ok (session_at n Notifying (s\<lparr> th_shutdown := True, th_mutex := None \<rparr>))" (is "threads_ok ?u")
proof -
  have m: "th_mutex s = Some (Session n)" using assms by (simp add: threads_ok_def mutex_ok_def)
  then have others: "th_pc s k = Request_Set \<longleftrightarrow> k = n" for k
    using assms(1) unfolding threads_ok_def mutex_ok_def by (metis holder.inject option.inject)
  have "mutex_ok ?u" using assms(1) m by (auto simp: threads_ok_def mutex_ok_def session_at_def others)
  moreover have "\<not> main_inside (th_main s)" using m assms(1) by (simp add: threads_ok_def mutex_ok_def)
  then have "wake_ok ?u" by (auto simp: wake_ok_def session_at_def)
  moreover have "stop_ok ?u" using assms(1) by (simp add: threads_ok_def stop_ok_def session_at_def)
  moreover have "owned_ok ?u" using assms by (auto simp: threads_ok_def owned_ok_def session_at_def)
  ultimately show ?thesis by (simp add: threads_ok_def)
qed

lemma wake_threads_ok: "threads_ok s \<Longrightarrow> threads_ok (wake s)"
  by (cases "th_main s = Asleep")
    (auto simp: threads_ok_def mutex_ok_def wake_def wake_ok_def stop_ok_def owned_ok_def)

lemma session_notifies_ok:
  assumes "threads_ok s" "th_pc s n = Notifying"
  shows "threads_ok (session_at n Stopping (wake s))" (is "threads_ok ?u")
proof -
  note w = wake_threads_ok [OF assms(1)]
  have awake: "th_main (wake s) \<noteq> Asleep" "th_pc (wake s) = th_pc s" by (simp_all add: wake_def)
  have "mutex_ok ?u" using w assms(2) by (auto simp: threads_ok_def mutex_ok_def session_at_def awake)
  moreover have "wake_ok ?u" using w awake by (auto simp: threads_ok_def wake_ok_def session_at_def)
  moreover have "stop_ok ?u" using w by (simp add: threads_ok_def stop_ok_def session_at_def)
  moreover have "owned_ok ?u" using w assms(2) by (auto simp: threads_ok_def owned_ok_def session_at_def awake)
  ultimately show ?thesis by (simp add: threads_ok_def)
qed

lemma stop_threads_ok: "threads_ok s \<Longrightarrow> threads_ok (s\<lparr> th_stop := True \<rparr>)"
  by (simp add: threads_ok_def mutex_ok_def wake_ok_def stop_ok_def owned_ok_def)

section \<open>Every step keeps the invariants\<close>

lemma session_step_ok:
  assumes "threads_ok s" "session_step peer n s = Some u"
  shows "threads_ok u"
proof (cases "th_pc s n")
  case Stopping
  then have "threads_ok (session_at n Served (s\<lparr> th_stop := True \<rparr>))"
    using stop_threads_ok [OF assms(1)] by (intro session_at_ok) simp_all
  with assms(2) Stopping show ?thesis by (simp split: if_splits)
qed (use assms session_at_ok [OF assms(1), of n] session_takes_ok [OF assms(1), of n] session_sets_ok [OF assms(1), of n]
    session_notifies_ok [OF assms(1), of n] in \<open>auto simp: acquire_def release_def split: if_splits peer.splits\<close>)

lemma acceptor_step_ok:
  assumes "threads_ok s" "acceptor_step arrives s = Some u"
  shows "threads_ok u"
proof (cases "th_acceptor s")
  case (Reaping i)
  then have "reap_step i s = Some u" "acceptor_inside (th_acceptor s)" using assms(2) by simp_all
  then show ?thesis
    using acceptor_at_ok [OF assms(1), of "Reaping (Suc i)"] acceptor_gives_ok [OF assms(1)] reaped_ok [OF assms(1), of i]
    by (auto simp: reap_step_def release_def Reaping split: if_splits)
next
  case Pushing
  then show ?thesis using assms push_ok [OF assms(1)] by simp
qed (use assms acceptor_at_ok [OF assms(1)] acceptor_takes_ok [OF assms(1)] in
    \<open>auto simp: acquire_def split: if_splits\<close>)

lemma swap_ok:
  assumes "threads_ok s" "th_main s = Swap_Sessions" "th_mutex s = None"
  shows "threads_ok (s\<lparr> th_sessions := [], th_main := Join_Sessions (th_sessions s), th_mutex := None \<rparr>)"
  using assms by (auto simp: threads_ok_def mutex_ok_def wake_ok_def stop_ok_def owned_ok_def)

lemma stop_flag_ok:
  assumes "threads_ok s" "th_main s = Stop_Flag"
  shows "threads_ok (s\<lparr> th_stopped := True, th_stop := True, th_main := Join_Acceptor \<rparr>)"
  using assms unfolding threads_ok_def mutex_ok_def by (simp add: wake_ok_def stop_ok_def owned_ok_def)

lemma main_step_ok:
  assumes "threads_ok s" "main_step s = Some u"
  shows "threads_ok u"
proof (cases "th_main s")
  case Wait_Lock
  then show ?thesis using assms main_takes_ok by (auto simp: main_step_def acquire_def split: if_splits)
next
  case Wait_Test
  then show ?thesis
    using assms main_gives_ok [OF assms(1), of Stop_Flag] main_at_ok [OF assms(1), of Wait_Sleep]
    by (auto simp: main_step_def release_def split: if_splits)
next
  case Wait_Sleep
  moreover from this have "\<not> th_shutdown s" using assms(1) by (simp add: threads_ok_def wake_ok_def)
  ultimately show ?thesis
    using assms main_gives_ok [OF assms(1), of Asleep] by (auto simp: main_step_def release_def)
next
  case Stop_Flag
  then have "\<not> th_stopped s" using assms(1) by (simp add: threads_ok_def stop_ok_def)
  then show ?thesis using assms Stop_Flag stop_flag_ok by (auto simp: main_step_def)
next
  case Join_Acceptor
  then show ?thesis
    using assms main_at_ok [OF assms(1), of Swap_Sessions] by (auto simp: main_step_def split: if_splits)
next
  case Swap_Sessions
  then show ?thesis
    using assms swap_ok by (auto simp: main_step_def acquire_def release_def split: if_splits)
next
  case (Join_Sessions ns)
  have empty: "th_sessions s = []" using assms(1) Join_Sessions by (simp add: threads_ok_def stop_ok_def)
  show ?thesis
  proof (cases ns)
    case Nil
    then show ?thesis
      using assms Join_Sessions empty main_at_ok [OF assms(1), of Returned] by (auto simp: main_step_def)
  next
    case (Cons n ms)
    then show ?thesis
      using assms Join_Sessions empty main_at_ok [OF assms(1), of "Join_Sessions ms"]
      by (auto simp: main_step_def split: if_splits)
  qed
qed (use assms in \<open>simp_all add: main_step_def\<close>)

lemma make_move_ok: "threads_ok s \<Longrightarrow> make_move m s = Some u \<Longrightarrow> threads_ok u"
  by (cases m) (auto simp del: acceptor_step.simps session_step.simps
    intro: main_step_ok acceptor_step_ok session_step_ok wake_threads_ok split: if_splits)

lemma make_moves_ok: "threads_ok s \<Longrightarrow> make_moves ms s = Some u \<Longrightarrow> threads_ok u"
  by (induction ms arbitrary: s) (auto split: option.splits dest: make_move_ok)

lemma make_moves_append:
  "make_moves (ms @ ns) s = (case make_moves ms s of None \<Rightarrow> None | Some u \<Rightarrow> make_moves ns u)"
  by (induction ms arbitrary: s) (simp_all split: option.split)

section \<open>A requested shutdown can complete\<close>

text \<open>How far each thread is from its end.\<close>

fun main_rank :: "main_pc \<Rightarrow> nat" where
  "main_rank Wait_Sleep = 9"
| "main_rank Asleep = 8"
| "main_rank Wait_Lock = 7"
| "main_rank Wait_Test = 6"
| "main_rank Stop_Flag = 5"
| "main_rank Join_Acceptor = 4"
| "main_rank Swap_Sessions = 3"
| "main_rank (Join_Sessions ns) = 2"
| "main_rank Returned = 1"

fun acceptor_rank :: "nat \<Rightarrow> acceptor_pc \<Rightarrow> nat" where
  "acceptor_rank k Accepting = 7 + k"
| "acceptor_rank k Got_Socket = 6 + k"
| "acceptor_rank k Push_Lock = 5 + k"
| "acceptor_rank k Pushing = 4 + k"
| "acceptor_rank k Reap_Lock = 3 + k"
| "acceptor_rank k (Reaping i) = 2 + (k - i)"
| "acceptor_rank k Accept_Top = 1"
| "acceptor_rank k Accept_Done = 0"

fun session_rank :: "session_pc \<Rightarrow> nat" where
  "session_rank Request_Lock = 7"
| "session_rank Request_Set = 6"
| "session_rank Notifying = 5"
| "session_rank Stopping = 4"
| "session_rank Serving = 3"
| "session_rank Sending = 3"
| "session_rank Served = 2"
| "session_rank Finished = 1"
| "session_rank Exited = 0"

definition distance :: "(threads \<times> threads) set" where
  "distance = measures
     [\<lambda>s. main_rank (th_main s), \<lambda>s. length (to_join (th_main s)),
      \<lambda>s. acceptor_rank (length (th_sessions s)) (th_acceptor s),
      \<lambda>s. \<Sum>n<th_next s. session_rank (th_pc s n)]"

lemma distance_wf: "wf distance"
  by (simp add: distance_def)

text \<open>
  A step for which nothing comes from outside: no connection arrives, no peer sends, reads or leaves, and it is no spurious
  wakeup.
\<close>

fun unprompted :: "move \<Rightarrow> bool" where
  "unprompted By_Main = True"
| "unprompted (By_Acceptor arrives) = (\<not> arrives)"
| "unprompted (By_Session peer n) = (peer = Idle)"
| "unprompted By_Chance = False"

definition advances :: "threads \<Rightarrow> bool" where
  "advances s \<longleftrightarrow> (\<exists>m u. unprompted m \<and> make_move m s = Some u \<and> (u, s) \<in> distance)"

lemma session_sum_less:
  assumes "n < (k::nat)" "session_rank pc < session_rank (f n)"
  shows "(\<Sum>i<k. session_rank ((f(n := pc)) i)) < (\<Sum>i<k. session_rank (f i))"
  using assms by (intro sum_strict_mono_ex1) auto

lemma session_advances:
  assumes "n < th_next s" "th_pc s n \<noteq> Exited" "th_pc s n = Request_Lock \<longrightarrow> th_mutex s = None"
    and "th_pc s n \<noteq> Sending" "th_pc s n = Serving \<longrightarrow> th_stop s"
  shows "advances s"
proof -
  obtain u where u: "session_step Idle n s = Some u" "(u, s) \<in> distance"
    using assms session_sum_less [OF assms(1), of _ "th_pc s"]
    by (cases "th_pc s n"; cases "th_main s = Asleep")
      (auto simp: distance_def session_at_def acquire_def release_def wake_def)
  then show ?thesis unfolding advances_def by (intro exI [of _ "By_Session Idle n"]) auto
qed

lemma acceptor_advances:
  assumes "threads_ok s" "th_acceptor s \<noteq> Accept_Done" "th_stop s \<or> acceptor_inside (th_acceptor s)"
    and "th_mutex s = None \<or> acceptor_inside (th_acceptor s)"
  shows "advances s"
proof -
  have near: "advances s" if "acceptor_step False s = Some u" "th_main u = th_main s"
      "acceptor_rank (length (th_sessions u)) (th_acceptor u) < acceptor_rank (length (th_sessions s)) (th_acceptor s)" for u
    unfolding advances_def using that by (intro exI [of _ "By_Acceptor False"]) (auto simp: distance_def)
  show ?thesis
  proof (cases "th_acceptor s")
    case (Reaping i)
    show ?thesis
    proof (cases "i < length (th_sessions s) \<and> th_pc s (th_sessions s ! i) = Finished")
      case True
      then have "th_sessions s ! i < th_next s" using assms(1) by (simp add: threads_ok_def owned_ok_def)
      then show ?thesis by (rule session_advances) (use True in simp_all)
    next
      case False
      then obtain u where "reap_step i s = Some u" "th_main u = th_main s"
        "acceptor_rank (length (th_sessions u)) (th_acceptor u) < 2 + (length (th_sessions s) - i)"
        by (cases "i < length (th_sessions s)"; cases "th_pc s (th_sessions s ! i) = Exited")
          (auto simp: reap_step_def release_def session_finished_def drop_session_def Reaping)
      then show ?thesis using Reaping by (intro near [of u]) simp_all
    qed
  qed (use assms(2-4) near in \<open>auto simp: acquire_def\<close>)
qed

lemma shutdown_advances:
  assumes "threads_ok s" "th_shutdown s" "th_main s \<noteq> Returned" "\<forall>n. th_pc s n \<noteq> Sending"
  shows "advances s"
proof -
  have near: "advances s" if "main_step s = Some u" "main_rank (th_main u) < main_rank (th_main s)" for u
    unfolding advances_def using that by (intro exI [of _ By_Main]) (auto simp: distance_def)
  have inv: "mutex_ok s" "wake_ok s" "stop_ok s" "owned_ok s" using assms(1) by (simp_all add: threads_ok_def)
  consider (main) "th_mutex s = Some Main" | (acceptor) "th_mutex s = Some Acceptor"
    | (session) n where "th_mutex s = Some (Session n)" | (free) "th_mutex s = None"
    by (metis holder.exhaust option.exhaust)
  then show ?thesis
  proof cases
    case main
    then have "th_main s = Wait_Test \<or> th_main s = Wait_Sleep" using inv(1) by (cases "th_main s") (auto simp: mutex_ok_def)
    with inv(2) assms(2) have "th_main s = Wait_Test" by (auto simp: wake_ok_def)
    with assms(2) show ?thesis by (intro near [OF refl [THEN trans]]) (auto simp: main_step_def release_def)
  next
    case acceptor
    then have i: "acceptor_inside (th_acceptor s)" using inv(1) by (simp add: mutex_ok_def)
    moreover from i have "th_acceptor s \<noteq> Accept_Done" by auto
    ultimately show ?thesis using assms(1) by (intro acceptor_advances) simp_all
  next
    case session
    then have "th_pc s n = Request_Set" using inv(1) unfolding mutex_ok_def by blast
    moreover from this have "n < th_next s" using inv(4) by (auto simp: owned_ok_def)
    ultimately show ?thesis by (intro session_advances [of n]) simp_all
  next
    case free
    then have out: "\<not> main_inside (th_main s)" using inv(1) by (simp add: mutex_ok_def)
    show ?thesis
    proof (cases "th_main s")
      case Asleep
      then obtain n where n: "th_pc s n = Notifying" using inv(2) assms(2) by (auto simp: wake_ok_def)
      moreover from this have "n < th_next s" using inv(4) by (auto simp: owned_ok_def)
      ultimately show ?thesis by (intro session_advances [of n]) simp_all
    next
      case Join_Acceptor
      show ?thesis
      proof (cases "th_acceptor s = Accept_Done")
        case True
        with Join_Acceptor show ?thesis by (intro near) (auto simp: main_step_def)
      next
        case False
        then show ?thesis
          using assms(1) inv(3) Join_Acceptor free by (intro acceptor_advances) (simp_all add: stop_ok_def)
      qed
    next
      case (Join_Sessions ns)
      show ?thesis
      proof (cases ns)
        case Nil
        with Join_Sessions show ?thesis by (intro near) (auto simp: main_step_def)
      next
        case (Cons n ms)
        then have n: "n < th_next s" using inv(4) Join_Sessions by (simp add: owned_ok_def)
        show ?thesis
        proof (cases "th_pc s n = Exited")
          case True
          then show ?thesis
            using Join_Sessions Cons unfolding advances_def
            by (intro exI [of _ By_Main]) (auto simp: main_step_def distance_def)
        next
          case False
          moreover have "th_stop s" using inv(3) Join_Sessions by (simp add: stop_ok_def)
          ultimately show ?thesis using n free assms(4) by (intro session_advances [of n]) simp_all
        qed
      qed
    qed (use near assms(3) free out inv(3) in \<open>auto simp: main_step_def acquire_def release_def stop_ok_def\<close>)
  qed
qed

lemma make_move_shutdown: "make_move m s = Some u \<Longrightarrow> th_shutdown s \<Longrightarrow> th_shutdown u"
proof (cases m)
  case By_Main
  then show "make_move m s = Some u \<Longrightarrow> th_shutdown s \<Longrightarrow> th_shutdown u"
    by (cases "th_main s") (auto simp: main_step_def acquire_def release_def split: if_splits list.splits)
next
  case (By_Acceptor arrives)
  then show "make_move m s = Some u \<Longrightarrow> th_shutdown s \<Longrightarrow> th_shutdown u"
    by (cases "th_acceptor s") (auto simp: reap_step_def acquire_def release_def split: if_splits)
next
  case (By_Session asked n)
  then show "make_move m s = Some u \<Longrightarrow> th_shutdown s \<Longrightarrow> th_shutdown u"
    by (cases "th_pc s n") (auto simp: session_at_def acquire_def release_def wake_def split: if_splits peer.splits)
qed (auto simp: wake_def split: if_splits)

text \<open>
  Once the request has been made, the main thread sleeps only while the session that made it is about to wake it; and
  when \<open>stop\<close> has returned, no thread of the server is left.
\<close>

lemma request_wakes:
  assumes "make_moves ms started = Some s" "th_shutdown s" "th_main s = Asleep"
  shows "\<exists>n u. session_step Idle n s = Some u \<and> th_main u = Wait_Lock"
proof -
  have ok: "wake_ok s" "owned_ok s"
    using make_moves_ok [OF started_ok assms(1)] by (simp_all add: threads_ok_def)
  then obtain n where n: "th_pc s n = Notifying" using assms(2,3) by (auto simp: wake_ok_def)
  moreover from this have "n < th_next s" using ok(2) by (auto simp: owned_ok_def)
  ultimately show ?thesis using assms(3) by (intro exI [of _ n]) (simp add: wake_def session_at_def)
qed

lemma returned_alone:
  assumes "threads_ok s" "th_main s = Returned"
  shows "th_acceptor s = Accept_Done" "th_pc s n = Exited"
  using assms by (auto simp: threads_ok_def stop_ok_def owned_ok_def)

text \<open>Without a move of its peer, a session that sends goes on sending, and none begins to.\<close>

lemma sending_stays:
  assumes "threads_ok s" "unprompted m" "make_move m s = Some u"
  shows "th_pc u n = Sending \<longleftrightarrow> th_pc s n = Sending"
proof (cases m)
  case By_Main
  then have "th_pc u = th_pc s"
    using assms(3)
    by (cases "th_main s") (auto simp: main_step_def acquire_def release_def split: if_splits list.splits)
  then show ?thesis by simp
next
  case (By_Acceptor arrives)
  have new: "th_pc s (th_next s) = Exited" using assms(1) unfolding threads_ok_def owned_ok_def by blast
  have "th_pc u = th_pc s \<or> th_pc u = (th_pc s)(th_next s := Serving)"
    using assms(3) By_Acceptor
    by (cases "th_acceptor s") (auto simp: reap_step_def acquire_def release_def split: if_splits)
  with new show ?thesis by (auto split: if_splits)
next
  case (By_Session peer k)
  then show ?thesis
    using assms(2,3)
    by (cases "th_pc s k") (auto simp: session_at_def acquire_def release_def wake_def split: if_splits)
qed (use assms in simp)

lemma still_sending:
  assumes "threads_ok s" "list_all unprompted ns" "make_moves ns s = Some u" "th_pc s n = Sending"
  shows "th_pc u n = Sending"
  using assms
proof (induction ns arbitrary: s)
  case (Cons m ns)
  then obtain t where t: "make_move m s = Some t" "make_moves ns t = Some u" by (auto split: option.splits)
  have "threads_ok t" using Cons.prems(1) t(1) by (rule make_move_ok)
  moreover have "th_pc t n = Sending" using Cons.prems(2,4) sending_stays [OF Cons.prems(1) _ t(1), of n] by simp
  ultimately show ?case using Cons.IH [of t] Cons.prems(2) t(2) by simp
qed simp

text \<open>
  C28. A shutdown that a peer has requested is not lost, and stopping leaves no thread behind: from every state that the
  threads of a coordinator can reach and in which the request has been made, however they were scheduled, there is a way to
  the end of \<open>stop\<close>, where the acceptor and every session thread have ended, that needs nothing from outside (no connection,
  no spurious wakeup, and no peer that sends, reads or leaves) exactly if no session is sending an answer at that moment.
  (One that is sending to a peer that does not read holds up \<open>stop\<close> until the peer reads or goes.)
\<close>

theorem shutdown_completes:
  assumes "make_moves ms started = Some s" "th_shutdown s"
  shows "(\<exists>ns u. list_all unprompted ns \<and> make_moves ns s = Some u \<and> th_main u = Returned \<and>
      th_acceptor u = Accept_Done \<and> (\<forall>n. th_pc u n = Exited)) \<longleftrightarrow> (\<forall>n. th_pc s n \<noteq> Sending)"
proof
  have "threads_ok s" using started_ok assms(1) by (rule make_moves_ok)
  then show "\<forall>n. th_pc s n \<noteq> Sending" if "\<exists>ns u. list_all unprompted ns \<and> make_moves ns s = Some u \<and>
      th_main u = Returned \<and> th_acceptor u = Accept_Done \<and> (\<forall>n. th_pc u n = Exited)"
    using that still_sending by (metis session_pc.distinct(29))
next
  assume "\<forall>n. th_pc s n \<noteq> Sending"
  moreover have "threads_ok s" using started_ok assms(1) by (rule make_moves_ok)
  ultimately show "\<exists>ns u. list_all unprompted ns \<and> make_moves ns s = Some u \<and> th_main u = Returned \<and>
      th_acceptor u = Accept_Done \<and> (\<forall>n. th_pc u n = Exited)"
    using assms(2)
  proof (induction s rule: wf_induct_rule [OF distance_wf])
    case (1 s)
    show ?case
    proof (cases "th_main s = Returned")
      case True
      with returned_alone [OF 1(3)] show ?thesis by (intro exI [of _ "[]"] exI [of _ s]) simp
    next
      case False
      with 1(2-4) have "advances s" by (intro shutdown_advances)
      then obtain m t where t: "unprompted m" "make_move m s = Some t" "(t, s) \<in> distance"
        unfolding advances_def by blast
      have "\<forall>n. th_pc t n \<noteq> Sending" using sending_stays [OF 1(3) t(1,2)] 1(2) by simp
      from 1(1) [OF t(3) this make_move_ok [OF 1(3) t(2)] make_move_shutdown [OF t(2) 1(4)]]
      obtain ns u where "list_all unprompted ns" "make_moves ns t = Some u" "th_main u = Returned"
        "th_acceptor u = Accept_Done" "\<forall>n. th_pc u n = Exited" by blast
      with t show ?thesis by (intro exI [of _ "m # ns"] exI [of _ u]) simp
    qed
  qed
qed

text \<open>Two connections, and a shutdown request on the first while the main thread falls asleep.\<close>

definition asked_moves :: "move list" where
  "asked_moves =
     replicate 5 (By_Acceptor True) @ [By_Acceptor False, By_Acceptor False, By_Main, By_Main] @
     [By_Session Asks_Shutdown 0, By_Main] @ replicate 2 (By_Session Idle 0) @ replicate 3 (By_Acceptor True)"

text \<open>And a state in which, besides, the second session answers a peer that does not read.\<close>

definition blocked_moves :: "move list" where
  "blocked_moves =
     asked_moves @ [By_Session Idle 0] @ replicate 4 (By_Acceptor False) @ [By_Session Sends_Frame 1]"

theorem shutdown_completes_witness:
  "(\<exists>s ns u. make_moves asked_moves started = Some s \<and> th_main s = Asleep \<and> th_acceptor s = Push_Lock \<and>
     list_all unprompted ns \<and> make_moves ns s = Some u \<and> th_main u = Returned) \<and>
   (\<exists>s. make_moves blocked_moves started = Some s \<and> th_shutdown s \<and>
     \<not> (\<exists>ns u. list_all unprompted ns \<and> make_moves ns s = Some u \<and> th_main u = Returned \<and>
       th_acceptor u = Accept_Done \<and> (\<forall>n. th_pc u n = Exited)))"
proof
  have "case make_moves asked_moves started of None \<Rightarrow> False
      | Some s \<Rightarrow> th_shutdown s \<and> th_main s = Asleep \<and> th_acceptor s = Push_Lock \<and> th_next s = 1 \<and> th_pc s 0 \<noteq> Sending"
    by code_simp
  then obtain s where s: "make_moves asked_moves started = Some s" "th_shutdown s" "th_main s = Asleep"
    "th_acceptor s = Push_Lock" "th_next s = 1" "th_pc s 0 \<noteq> Sending"
    by (auto split: option.splits)
  have "th_pc s n \<noteq> Sending" for n
    using make_moves_ok [OF started_ok s(1)] s(5,6) unfolding threads_ok_def owned_ok_def
    by (metis less_one session_pc.distinct(29))
  with shutdown_completes [OF s(1,2)] s show "\<exists>s ns u. make_moves asked_moves started = Some s \<and> th_main s = Asleep \<and>
      th_acceptor s = Push_Lock \<and> list_all unprompted ns \<and> make_moves ns s = Some u \<and> th_main u = Returned"
    by blast
next
  have "case make_moves blocked_moves started of None \<Rightarrow> False | Some s \<Rightarrow> th_shutdown s \<and> th_pc s 1 = Sending" by code_simp
  then obtain s where s: "make_moves blocked_moves started = Some s" "th_shutdown s" "th_pc s 1 = Sending"
    by (auto split: option.splits)
  with shutdown_completes [OF s(1,2)] show "\<exists>s. make_moves blocked_moves started = Some s \<and> th_shutdown s \<and>
      \<not> (\<exists>ns u. list_all unprompted ns \<and> make_moves ns s = Some u \<and> th_main u = Returned \<and>
        th_acceptor u = Accept_Done \<and> (\<forall>n. th_pc u n = Exited))"
    by blast
qed

end
