(* ===== verification/Files.thy ===== *)
theory Files
  imports Store Wire
begin

text \<open>
  The store one level below \<open>Store\<close>: names, contents and system calls (\<open>store.cpp\<close>, the branches for POSIX). A save
  is the sequence of its system calls, so that it can be stopped after each of them, by a kill or by a loss of
  power. The theorems say that the sequence does what \<open>store_save\<close> says, leaves no temporary file behind, and
  never lets a mixture of two images be seen.

  A file is opened under a name and its descriptor stands for that name; other processes do not touch the names in use.
\<close>

section \<open>Files\<close>

text \<open>
  The directory gives names to contents. A content is settled when it is known to be on the medium. The directory is
  written to the medium at some time of the system's choice: \<open>fs_earlier\<close> has the entries of a name which a loss of
  power may bring back.
\<close>

record files =
  fs_name :: "string \<Rightarrow> nat option"
  fs_earlier :: "string \<Rightarrow> nat option list"
  fs_data :: "nat \<Rightarrow> byte list"
  fs_settled :: "nat \<Rightarrow> bool"
  fs_fresh :: nat

definition set_name :: "string \<Rightarrow> nat option \<Rightarrow> files \<Rightarrow> files" where
  "set_name p e fs =
     fs\<lparr> fs_name := (fs_name fs)(p := e), fs_earlier := (fs_earlier fs)(p := fs_name fs p # fs_earlier fs p) \<rparr>"

definition put_data :: "nat \<Rightarrow> byte list \<Rightarrow> bool \<Rightarrow> files \<Rightarrow> files" where
  "put_data i bs settled fs =
     fs\<lparr> fs_data := (fs_data fs)(i := bs), fs_settled := (fs_settled fs)(i := settled) \<rparr>"

text \<open>\<open>O_CREAT | O_TRUNC\<close>, \<open>write\<close>, \<open>fsync\<close>, \<open>rename\<close> and \<open>unlink\<close> when they succeed.\<close>

definition sys_create :: "string \<Rightarrow> files \<Rightarrow> files" where
  "sys_create p fs =
     (case fs_name fs p of
        Some i \<Rightarrow> put_data i [] False fs
      | None \<Rightarrow> put_data (fs_fresh fs) [] False
          ((set_name p (Some (fs_fresh fs)) fs)\<lparr> fs_fresh := Suc (fs_fresh fs) \<rparr>))"

definition sys_append :: "string \<Rightarrow> byte list \<Rightarrow> files \<Rightarrow> files" where
  "sys_append p bs fs =
     (case fs_name fs p of Some i \<Rightarrow> put_data i (fs_data fs i @ bs) False fs | None \<Rightarrow> fs)"

definition sys_sync :: "string \<Rightarrow> files \<Rightarrow> files" where
  "sys_sync p fs = (case fs_name fs p of Some i \<Rightarrow> put_data i (fs_data fs i) True fs | None \<Rightarrow> fs)"

definition sys_rename :: "string \<Rightarrow> string \<Rightarrow> files \<Rightarrow> files" where
  "sys_rename from to fs =
     (case fs_name fs from of Some i \<Rightarrow> set_name from None (set_name to (Some i) fs) | None \<Rightarrow> fs)"

definition sys_unlink :: "string \<Rightarrow> files \<Rightarrow> files" where
  "sys_unlink p fs = (if fs_name fs p = None then fs else set_name p None fs)"

definition content :: "files \<Rightarrow> string \<Rightarrow> byte list option" where
  "content fs p = map_option (fs_data fs) (fs_name fs p)"

section \<open>The operating system\<close>

text \<open>
  Which calls succeed, and how much each call of \<open>read\<close> and \<open>write\<close> transfers, at least one byte unless it fails.
  \<open>os_entropy\<close> is what \<open>fill_random_16\<close> gives for the image and for the watermark.
\<close>

record os =
  os_stat :: "string \<Rightarrow> bool"
  os_open_read :: "string \<Rightarrow> bool"
  os_read :: "string \<Rightarrow> nat \<Rightarrow> nat option"
  os_directory :: bool
  os_make_directory :: bool
  os_entropy :: "string \<Rightarrow> byte list res"
  os_pid :: u64
  os_open_write :: "string \<Rightarrow> bool"
  os_write :: "string \<Rightarrow> nat \<Rightarrow> nat option"
  os_fsync :: "string \<Rightarrow> bool"
  os_rename :: "string \<Rightarrow> bool"
  os_unlink :: "string \<Rightarrow> bool"

text \<open>A process with the files as they are and as they were before each of its calls.\<close>

record machine =
  mc_files :: files
  mc_past :: "files list"

type_synonym 'a mact = "(machine, 'a) action"

definition call :: "(files \<Rightarrow> files) \<Rightarrow> unit mact" where
  "call f = a_modify (\<lambda>m. m\<lparr> mc_files := f (mc_files m), mc_past := mc_past m @ [mc_files m] \<rparr>)"

section \<open>Reading\<close>

definition file_exists :: "os \<Rightarrow> files \<Rightarrow> string \<Rightarrow> bool" where
  "file_exists os fs p \<longleftrightarrow> os_stat os p \<and> fs_name fs p \<noteq> None"

fun read_loop :: "(nat \<Rightarrow> nat option) \<Rightarrow> nat \<Rightarrow> byte list \<Rightarrow> byte list \<Rightarrow> byte list res" where
  "read_loop reads k out rest =
     (case reads k of
        None \<Rightarrow> Inl (io_failure ''read failure while loading durable store'')
      | Some n \<Rightarrow>
          if rest = [] then Inr out
          else let got = max 1 (min n (min 65536 (length rest)))
            in read_loop reads (Suc k) (out @ take got rest) (drop got rest))"

declare read_loop.simps [simp del]

definition read_all :: "os \<Rightarrow> files \<Rightarrow> string \<Rightarrow> byte list res" where
  "read_all os fs p =
     (case content fs p of
        Some bs \<Rightarrow>
          if os_open_read os p then read_loop (os_read os p) 0 [] bs
          else Inl (io_failure ''cannot open durable store for reading'')
      | None \<Rightarrow> Inl (io_failure ''cannot open durable store for reading''))"

section \<open>Writing\<close>

function write_loop :: "(nat \<Rightarrow> nat option) \<Rightarrow> nat \<Rightarrow> string \<Rightarrow> byte list \<Rightarrow> unit mact" where
  "write_loop writes k p rest =
     (if rest = [] then a_return ()
      else case writes k of
        None \<Rightarrow> a_lift (Inl (io_failure ''short write while persisting durable store''))
      | Some n \<Rightarrow>
          a_bind (call (sys_append p (take (max 1 (min n (length rest))) rest)))
            (\<lambda>_. write_loop writes (Suc k) p (drop (max 1 (min n (length rest))) rest)))"
  by pat_completeness auto
termination by (relation "measure (\<lambda>(_, _, _, rest). length rest)") auto

declare write_loop.simps [simp del]

definition write_all_durable :: "os \<Rightarrow> string \<Rightarrow> byte list \<Rightarrow> unit mact" where
  "write_all_durable os p bs =
     a_bind (if os_open_write os p then call (sys_create p)
         else a_lift (Inl (io_failure ''cannot create temporary durable store file''))) (\<lambda>_.
     a_bind (write_loop (os_write os p) 0 p bs) (\<lambda>_.
     if os_fsync os p then call (sys_sync p)
     else a_lift (Inl (io_failure ''durability barrier failed while persisting durable store''))))"

definition atomic_replace :: "os \<Rightarrow> string \<Rightarrow> string \<Rightarrow> unit mact" where
  "atomic_replace os from to =
     (if os_rename os to then call (sys_rename from to)
      else a_lift (Inl (io_failure ''atomic replacement of the durable store failed'')))"

definition remove_quietly :: "os \<Rightarrow> string \<Rightarrow> unit mact" where
  "remove_quietly os p = (if os_unlink os p then call (sys_unlink p) else a_return ())"

text \<open>\<open>TempFileGuard\<close>: an exception in its scope removes the file; \<open>release\<close> is at the end of the scope.\<close>

definition guarded :: "os \<Rightarrow> string \<Rightarrow> unit mact \<Rightarrow> unit mact" where
  "guarded os temporary body =
     (\<lambda>m. case body m of
        (Inl e, m') \<Rightarrow> (Inl e, snd (remove_quietly os temporary m'))
      | (Inr _, m') \<Rightarrow> (Inr (), m'))"

definition temp_suffix :: "os \<Rightarrow> string \<Rightarrow> string res" where
  "temp_suffix os target =
     res_bind (os_entropy os target) (\<lambda>entropy.
     Inr (''-'' @ dec_string (unat (os_pid os)) @ ''-'' @ to_hex (take 4 entropy)))"

definition replace_file :: "os \<Rightarrow> string \<Rightarrow> byte list \<Rightarrow> unit mact" where
  "replace_file os target bs =
     a_bind (a_lift (temp_suffix os target)) (\<lambda>suffix.
     let temporary = target @ ''.tmp'' @ suffix
     in guarded os temporary
          (a_bind (write_all_durable os temporary bs) (\<lambda>_. atomic_replace os temporary target)))"

section \<open>The store over files\<close>

definition watermark_path :: "StoreOptions \<Rightarrow> string" where
  "watermark_path options = so_path options @ ''.watermark''"

definition read_watermark_file :: "StoreOptions \<Rightarrow> os \<Rightarrow> files \<Rightarrow> u64 res" where
  "read_watermark_file options os fs =
     (if \<not> so_enable_rollback_watermark options then Inr 0
      else if \<not> file_exists os fs (watermark_path options) then Inr 0
      else res_bind (read_all os fs (watermark_path options)) (\<lambda>raw. parse_watermark (map byte_char raw)))"

definition write_watermark_file :: "StoreOptions \<Rightarrow> os \<Rightarrow> CoordinatorEpoch \<Rightarrow> unit mact" where
  "write_watermark_file options os epoch =
     replace_file os (watermark_path options) (map char_byte (watermark_text epoch))"

definition load_file :: "StoreOptions \<Rightarrow> os \<Rightarrow> files \<Rightarrow> DurableState res" where
  "load_file options os fs =
     (if \<not> file_exists os fs (so_path options)
      then if \<not> so_create_if_missing options
        then Inl (io_failure ''durable store does not exist and create_if_missing is false'')
        else Inr initial_state
      else res_bind (read_all os fs (so_path options)) (\<lambda>img.
        res_bind (store_decode options img) (\<lambda>st.
        if so_enable_rollback_watermark options
        then res_bind (read_watermark_file options os fs) (\<lambda>watermark.
          if st_current_epoch st < MonotonicCounter watermark
          then Inl (corrupt ''durable epoch is lower than the persisted watermark: rollback detected'')
          else Inr st)
        else Inr st)))"

definition save_file :: "StoreOptions \<Rightarrow> os \<Rightarrow> DurableState \<Rightarrow> unit mact" where
  "save_file options os st =
     a_bind a_get (\<lambda>m.
     a_bind (a_lift (read_watermark_file options os (mc_files m))) (\<lambda>previous_watermark.
     a_bind (a_lift (store_encode st)) (\<lambda>img.
     a_bind (a_lift (if os_directory os \<or> os_make_directory os then Inr ()
         else Inl (io_failure ''cannot create the durable store directory''))) (\<lambda>_.
     a_bind (replace_file os (so_path options) img) (\<lambda>_.
     if so_enable_rollback_watermark options \<and> previous_watermark < counter_value (st_current_epoch st)
     then write_watermark_file options os (st_current_epoch st)
     else a_return ())))))"

definition disk_of :: "StoreOptions \<Rightarrow> files \<Rightarrow> disk" where
  "disk_of options fs =
     \<lparr> image_file = content fs (so_path options), watermark_file = content fs (watermark_path options) \<rparr>"

section \<open>What every call of an action keeps\<close>

definition passes :: "(files \<Rightarrow> files \<Rightarrow> bool) \<Rightarrow> unit mact \<Rightarrow> bool" where
  "passes R a \<longleftrightarrow>
     (\<forall>m r m'. a m = (r, m') \<longrightarrow> R (mc_files m) (mc_files m') \<and>
        (\<exists>new. mc_past m' = mc_past m @ new \<and> (\<forall>fs \<in> set new. R (mc_files m) fs)))"

lemma passesD:
  assumes "passes R a" "a m = (r, m')"
  obtains new where "R (mc_files m) (mc_files m')" "mc_past m' = mc_past m @ new" "\<forall>fs \<in> set new. R (mc_files m) fs"
  using assms unfolding passes_def by blast

locale file_relation =
  fixes R :: "files \<Rightarrow> files \<Rightarrow> bool"
  assumes rel_refl: "R fs fs"
    and rel_trans: "R a b \<Longrightarrow> R b c \<Longrightarrow> R a c"
begin

lemma passes_basic: "passes R (a_return x)" "passes R (a_lift r)"
  by (simp_all add: passes_def rel_refl)

lemma passes_call: "(\<And>fs. R fs (f fs)) \<Longrightarrow> passes R (call f)"
  by (simp add: passes_def call_def rel_refl)

lemma passes_if: "passes R a \<Longrightarrow> passes R b \<Longrightarrow> passes R (if c then a else b)"
  by simp

lemma passes_bind:
  assumes "passes R a" "\<And>x. passes R (f x)"
  shows "passes R (a_bind a f)"
  unfolding passes_def
proof (intro allI impI)
  fix m r m' assume b: "a_bind a f m = (r, m')"
  obtain q n where q: "a m = (q, n)" by (cases "a m")
  obtain new where new: "R (mc_files m) (mc_files n)" "mc_past n = mc_past m @ new" "\<forall>fs \<in> set new. R (mc_files m) fs"
    using assms(1) q by (rule passesD)
  show "R (mc_files m) (mc_files m') \<and> (\<exists>new. mc_past m' = mc_past m @ new \<and> (\<forall>fs \<in> set new. R (mc_files m) fs))"
  proof (cases q)
    case (Inl e)
    with b q new show ?thesis by (simp add: a_bind_def)
  next
    case (Inr x)
    with b q have "f x n = (r, m')" by (simp add: a_bind_def)
    with assms(2) obtain more where more: "R (mc_files n) (mc_files m')" "mc_past m' = mc_past n @ more"
      "\<forall>fs \<in> set more. R (mc_files n) fs" by (rule passesD)
    with new show ?thesis by (intro conjI exI [of _ "new @ more"]) (auto intro: rel_trans)
  qed
qed

lemma passes_write_loop:
  assumes "\<And>fs bs. R fs (sys_append p bs fs)"
  shows "passes R (write_loop writes k p rest)"
  using assms
  by (induction writes k p rest rule: write_loop.induct, subst write_loop.simps)
    (auto intro!: passes_basic passes_bind passes_call split: option.split)

lemma passes_write_all:
  assumes "\<And>fs bs. R fs (sys_append p bs fs)" "\<And>fs. R fs (sys_create p fs)" "\<And>fs. R fs (sys_sync p fs)"
  shows "passes R (write_all_durable os p bs)"
  unfolding write_all_durable_def
  by (intro passes_bind passes_if passes_call passes_basic passes_write_loop assms)

end

section \<open>The names of the store\<close>

text \<open>
  The contents that the names of the store have, or had when power may bring them back, are reached under no other
  name; so what happens to a temporary file does not touch them.
\<close>

definition entries :: "string \<Rightarrow> files \<Rightarrow> nat option list" where
  "entries p fs = fs_name fs p # fs_earlier fs p"

definition standing :: "string set \<Rightarrow> files \<Rightarrow> bool" where
  "standing ps fs \<longleftrightarrow>
     (\<forall>q i. fs_name fs q = Some i \<longrightarrow> i < fs_fresh fs \<and> (\<forall>r. fs_name fs r = Some i \<longrightarrow> r = q)) \<and>
     (\<forall>p \<in> ps. \<forall>i. Some i \<in> set (entries p fs) \<longrightarrow> i < fs_fresh fs \<and> (\<forall>q. fs_name fs q = Some i \<longrightarrow> q = p))"

definition keeps :: "string set \<Rightarrow> files \<Rightarrow> files \<Rightarrow> bool" where
  "keeps ps fs fs' \<longleftrightarrow>
     (\<forall>p \<in> ps. entries p fs' = entries p fs \<and>
        (\<forall>i. Some i \<in> set (entries p fs) \<longrightarrow> fs_data fs' i = fs_data fs i \<and> fs_settled fs' i = fs_settled fs i))"

definition aside :: "string set \<Rightarrow> files \<Rightarrow> files \<Rightarrow> bool" where
  "aside ps fs fs' \<longleftrightarrow> (standing ps fs \<longrightarrow> standing ps fs' \<and> keeps ps fs fs')"

interpretation aside: file_relation "aside ps" for ps
  by unfold_locales (simp_all add: aside_def keeps_def)

lemmas sys_defs = sys_create_def sys_append_def sys_sync_def sys_unlink_def put_data_def set_name_def

lemma standingD:
  assumes "standing ps fs"
  shows "fs_name fs q = Some i \<Longrightarrow> i < fs_fresh fs"
    and "fs_name fs q = Some i \<Longrightarrow> fs_name fs r = Some i \<Longrightarrow> r = q"
    and "p \<in> ps \<Longrightarrow> Some i \<in> set (entries p fs) \<Longrightarrow> i < fs_fresh fs"
    and "p \<in> ps \<Longrightarrow> Some i \<in> set (entries p fs) \<Longrightarrow> fs_name fs q = Some i \<Longrightarrow> q = p"
  using assms unfolding standing_def by blast+

lemma aside_put:
  assumes "t \<notin> ps" "fs_name fs t = Some i"
  shows "aside ps fs (put_data i bs b fs)"
  unfolding aside_def
proof (intro impI conjI)
  assume st: "standing ps fs"
  then show "standing ps (put_data i bs b fs)" by (simp add: standing_def put_data_def entries_def)
  have "j \<noteq> i" if "p \<in> ps" "Some j \<in> set (entries p fs)" for p j
    using standingD(4) [OF st that] assms that(1) by auto
  then show "keeps ps fs (put_data i bs b fs)" by (auto simp: keeps_def put_data_def entries_def)
qed

lemma aside_unname: "t \<notin> ps \<Longrightarrow> aside ps fs (set_name t None fs)"
  unfolding aside_def
proof (intro impI conjI)
  assume t: "t \<notin> ps" and st: "standing ps fs"
  then have same: "entries p (set_name t None fs) = entries p fs" if "p \<in> ps" for p
    using that by (auto simp: entries_def set_name_def)
  then show "keeps ps fs (set_name t None fs)" by (simp add: keeps_def set_name_def)
  show "standing ps (set_name t None fs)"
    unfolding standing_def
  proof (intro conjI allI ballI impI)
    fix p i q assume p: "p \<in> ps" "Some i \<in> set (entries p (set_name t None fs))"
    then have e: "Some i \<in> set (entries p fs)" by (simp add: same)
    show "i < fs_fresh (set_name t None fs)" using standingD(3) [OF st p(1) e] by (simp add: set_name_def)
    show "fs_name (set_name t None fs) q = Some i \<Longrightarrow> q = p"
      using standingD(4) [OF st p(1) e] by (simp add: set_name_def split: if_splits)
  qed (use standingD(1,2) [OF st] in \<open>auto simp: set_name_def split: if_splits\<close>)
qed

lemma aside_new_name:
  assumes "t \<notin> ps"
  shows "aside ps fs ((set_name t (Some (fs_fresh fs)) fs)\<lparr> fs_fresh := Suc (fs_fresh fs) \<rparr>)" (is "aside ps fs ?u")
  unfolding aside_def
proof (intro impI conjI)
  assume st: "standing ps fs"
  have same: "entries p ?u = entries p fs" if "p \<in> ps" for p
    using that assms by (auto simp: entries_def set_name_def)
  then show "keeps ps fs ?u" by (simp add: keeps_def set_name_def)
  have old: "fs_name fs q \<noteq> Some (fs_fresh fs)" for q using standingD(1) [OF st, of q "fs_fresh fs"] by auto
  show "standing ps ?u"
    unfolding standing_def
  proof (intro conjI allI ballI impI)
    fix p i q assume p: "p \<in> ps" "Some i \<in> set (entries p ?u)"
    note e = standingD(3,4) [OF st p(1)] p(2) [unfolded same [OF p(1)]]
    show "i < fs_fresh ?u" using e(1,3) by (simp add: less_SucI)
    show "fs_name ?u q = Some i \<Longrightarrow> q = p"
      using e(1) [OF e(3)] e(2) [OF e(3)] by (auto simp: set_name_def split: if_splits)
  next
    fix q i assume "fs_name ?u q = Some i"
    then show "i < fs_fresh ?u" using standingD(1) [OF st] by (auto simp: set_name_def less_SucI split: if_splits)
  next
    fix q i r assume "fs_name ?u q = Some i" "fs_name ?u r = Some i"
    then show "r = q" using standingD(2) [OF st] old by (auto simp: set_name_def split: if_splits)
  qed
qed

lemma aside_sys:
  assumes "t \<notin> ps"
  shows "aside ps fs (sys_create t fs)" "aside ps fs (sys_append t bs fs)" "aside ps fs (sys_sync t fs)"
    "aside ps fs (sys_unlink t fs)"
proof -
  show "aside ps fs (sys_append t bs fs)" "aside ps fs (sys_sync t fs)" "aside ps fs (sys_unlink t fs)"
    using aside_put [OF assms] aside_unname [OF assms] aside.rel_refl
    by (simp_all add: sys_append_def sys_sync_def sys_unlink_def split: option.split)
  show "aside ps fs (sys_create t fs)"
  proof (cases "fs_name fs t")
    case None
    let ?u = "(set_name t (Some (fs_fresh fs)) fs)\<lparr> fs_fresh := Suc (fs_fresh fs) \<rparr>"
    have "fs_name ?u t = Some (fs_fresh fs)" by (simp add: set_name_def)
    from aside.rel_trans [OF aside_new_name [OF assms] aside_put [OF assms this]] show ?thesis
      by (simp add: sys_create_def None)
  next
    case (Some i)
    then show ?thesis using aside_put [OF assms] by (simp add: sys_create_def)
  qed
qed

text \<open>A rename puts a settled content under a name of the store, in front of what it had.\<close>

lemma rename_standing:
  assumes "standing ps fs" "t \<notin> ps" "p \<in> ps" "fs_name fs t = Some i"
  shows "standing ps (sys_rename t p fs)" "keeps (ps - {p}) fs (sys_rename t p fs)"
    "entries p (sys_rename t p fs) = Some i # entries p fs" "fs_name (sys_rename t p fs) t = None"
    "fs_data (sys_rename t p fs) = fs_data fs" "fs_settled (sys_rename t p fs) = fs_settled fs"
proof -
  let ?u = "sys_rename t p fs"
  have ne: "t \<noteq> p" using assms(2,3) by auto
  show "fs_name ?u t = None" "fs_data ?u = fs_data fs" "fs_settled ?u = fs_settled fs"
    by (simp_all add: sys_rename_def set_name_def assms(4))
  show new: "entries p ?u = Some i # entries p fs"
    using ne by (simp add: sys_rename_def set_name_def assms(4) entries_def)
  have old: "entries q ?u = entries q fs" if "q \<in> ps" "q \<noteq> p" for q
    using that assms(2) by (auto simp: sys_rename_def set_name_def assms(4) entries_def)
  then show "keeps (ps - {p}) fs ?u" by (simp add: keeps_def sys_rename_def set_name_def assms(4))
  have name: "fs_name ?u q = (if q = t then None else if q = p then Some i else fs_name fs q)" for q
    by (simp add: sys_rename_def set_name_def assms(4))
  have fresh: "fs_fresh ?u = fs_fresh fs" by (simp add: sys_rename_def set_name_def assms(4))
  show "standing ps ?u"
    unfolding standing_def fresh
  proof (intro conjI allI ballI impI)
    fix q j assume "fs_name ?u q = Some j"
    then show "j < fs_fresh fs" using standingD(1) [OF assms(1)] assms(4) by (auto simp: name split: if_splits)
  next
    fix q j r assume "fs_name ?u q = Some j" "fs_name ?u r = Some j"
    then show "r = q"
      using standingD(2) [OF assms(1)] assms(4) by (auto simp: name split: if_splits)
  next
    fix q j assume q: "q \<in> ps" "Some j \<in> set (entries q ?u)"
    have e: "j = i \<and> q = p \<or> Some j \<in> set (entries q fs)" using q new old by (cases "q = p") auto
    then show "j < fs_fresh fs" using standingD(1,3) [OF assms(1)] assms(4) q(1) by blast
    fix r assume r: "fs_name ?u r = Some j"
    from e show "r = q"
    proof
      assume "j = i \<and> q = p"
      then show ?thesis using r standingD(2) [OF assms(1) assms(4)] by (auto simp: name split: if_splits)
    next
      assume "Some j \<in> set (entries q fs)"
      note same = standingD(4) [OF assms(1) q(1) this]
      from r show ?thesis using same same [of t] assms(2,4) q(1) by (auto simp: name split: if_splits)
    qed
  qed
qed

section \<open>What replacing a file does\<close>

lemma write_loop_data:
  "write_loop writes k p rest m = (Inr (), m') \<Longrightarrow> fs_name (mc_files m) p = Some i \<Longrightarrow>
     fs_name (mc_files m') p = Some i \<and> fs_data (mc_files m') i = fs_data (mc_files m) i @ rest"
proof (induction writes k p rest arbitrary: m rule: write_loop.induct)
  case (1 writes k p rest)
  show ?case
  proof (cases "rest = []")
    case True
    with 1(2,3) show ?thesis by (simp add: write_loop.simps [of writes])
  next
    case False
    then obtain n where n: "writes k = Some n"
      using 1(2) by (cases "writes k") (simp_all add: write_loop.simps [of writes])
    let ?part = "take (max 1 (min n (length rest))) rest" and ?rest = "drop (max 1 (min n (length rest))) rest"
    let ?m = "m\<lparr> mc_files := sys_append p ?part (mc_files m), mc_past := mc_past m @ [mc_files m] \<rparr>"
    have "write_loop writes (Suc k) p ?rest ?m = (Inr (), m')"
      using 1(2) False n by (simp add: write_loop.simps [of writes k] call_def)
    moreover have "fs_name (mc_files ?m) p = Some i" "fs_data (mc_files ?m) i = fs_data (mc_files m) i @ ?part"
      using 1(3) by (simp_all add: sys_append_def put_data_def)
    ultimately show ?thesis using 1(1) [OF False n, of ?m] by simp
  qed
qed

lemma write_all_data:
  assumes "write_all_durable os p bs m = (Inr (), m')"
  shows "\<exists>i. fs_name (mc_files m') p = Some i \<and> fs_data (mc_files m') i = bs \<and> fs_settled (mc_files m') i"
proof -
  let ?m = "m\<lparr> mc_files := sys_create p (mc_files m), mc_past := mc_past m @ [mc_files m] \<rparr>"
  obtain i where i: "fs_name (mc_files ?m) p = Some i" "fs_data (mc_files ?m) i = []"
    by (cases "fs_name (mc_files m) p") (simp_all add: sys_create_def put_data_def set_name_def)
  obtain m1 where m1: "write_loop (os_write os p) 0 p bs ?m = (Inr (), m1)" "mc_files m' = sys_sync p (mc_files m1)"
    using assms
    by (auto simp: write_all_durable_def a_bind_def call_def split: if_splits prod.splits sum.splits)
  show ?thesis
    using write_loop_data [OF m1(1) i(1)] i(2) m1(2) by (auto simp: sys_sync_def put_data_def)
qed

definition replaced :: "string set \<Rightarrow> string \<Rightarrow> byte list \<Rightarrow> files \<Rightarrow> files \<Rightarrow> bool" where
  "replaced ps p bs fs fs' \<longleftrightarrow>
     keeps (ps - {p}) fs fs' \<and>
     (\<exists>i. entries p fs' = Some i # entries p fs \<and> fs_data fs' i = bs \<and> fs_settled fs' i) \<and>
     (\<forall>i. Some i \<in> set (entries p fs) \<longrightarrow> fs_data fs' i = fs_data fs i \<and> fs_settled fs' i = fs_settled fs i)"

lemma passes_temporary:
  assumes "t \<notin> ps"
  shows "passes (aside ps) (write_all_durable os t bs)" "passes (aside ps) (remove_quietly os t)"
  using aside_sys [OF assms] unfolding remove_quietly_def
  by (auto intro!: aside.passes_write_all aside.passes_call aside.passes_basic)

lemma replace_file_effect:
  assumes "standing ps (mc_files m)" "target \<in> ps" "\<And>suffix. target @ ''.tmp'' @ suffix \<notin> ps"
    and "replace_file os target bs m = (r, m')"
  obtains new where "mc_past m' = mc_past m @ new" "standing ps (mc_files m')"
    "\<forall>fs \<in> set new. keeps ps (mc_files m) fs"
    "r = Inr () \<and> replaced ps target bs (mc_files m) (mc_files m') \<or>
      (\<exists>e. r = Inl e) \<and> keeps ps (mc_files m) (mc_files m')"
proof (cases "temp_suffix os target")
  case (Inl e)
  then have "m' = m" "r = Inl e" using assms(4) by (simp_all add: replace_file_def)
  then show thesis using assms(1) by (intro that [of "[]"]) (simp_all add: keeps_def)
next
  case (Inr suffix)
  define t where "t = target @ ''.tmp'' @ suffix"
  have t: "t \<notin> ps" using assms(3) by (simp add: t_def)
  let ?body = "a_bind (write_all_durable os t bs) (\<lambda>_. atomic_replace os t target)"
  have g: "guarded os t ?body m = (r, m')" using assms(4) Inr by (simp add: replace_file_def t_def Let_def)
  obtain q n where w: "write_all_durable os t bs m = (q, n)" by (cases "write_all_durable os t bs m")
  obtain new where new: "aside ps (mc_files m) (mc_files n)" "mc_past n = mc_past m @ new"
    "\<forall>fs \<in> set new. aside ps (mc_files m) fs"
    using passes_temporary(1) [OF t] w by (rule passesD)
  have n: "standing ps (mc_files n)" "keeps ps (mc_files m) (mc_files n)" "\<forall>fs \<in> set new. keeps ps (mc_files m) fs"
    using new(1,3) assms(1) by (simp_all add: aside_def)
  show thesis
  proof (cases "q = Inr () \<and> os_rename os target")
    case True
    then obtain i where i: "fs_name (mc_files n) t = Some i" "fs_data (mc_files n) i = bs" "fs_settled (mc_files n) i"
      using write_all_data w by blast
    have m': "r = Inr ()" "mc_files m' = sys_rename t target (mc_files n)" "mc_past m' = mc_past n @ [mc_files n]"
      using g True w by (auto simp: guarded_def a_bind_def atomic_replace_def call_def)
    note ren = rename_standing [OF n(1) t assms(2) i(1)]
    have "entries target (mc_files n) = entries target (mc_files m)" using n(2) assms(2) by (simp add: keeps_def)
    then have "replaced ps target bs (mc_files m) (mc_files m')"
      using ren(2,3,5,6) n(2) i(2,3) assms(2) by (auto simp: replaced_def keeps_def m'(2))
    with m' ren(1) new(2) n(2,3) show thesis by (intro that [of "new @ [mc_files n]"]) simp_all
  next
    case False
    then obtain e where m': "r = Inl e" "m' = snd (remove_quietly os t n)"
      using g w by (cases q) (auto simp: guarded_def a_bind_def atomic_replace_def)
    obtain more where more: "aside ps (mc_files n) (mc_files m')" "mc_past m' = mc_past n @ more"
      "\<forall>fs \<in> set more. aside ps (mc_files n) fs"
      using passes_temporary(2) [OF t] m'(2) by (metis passesD prod.collapse)
    have step: "standing ps fs \<and> keeps ps (mc_files m) fs" if "aside ps (mc_files n) fs" for fs
      using aside.rel_trans [OF new(1) that] assms(1) by (simp add: aside_def)
    show thesis
      using m'(1) new(2) n(3) more(2) step [OF more(1)] more(3) step by (intro that [of "new @ more"]) auto
  qed
qed

lemma keeps_trans: "keeps ps a b \<Longrightarrow> keeps ps b c \<Longrightarrow> keeps ps a c"
  unfolding keeps_def by (metis (no_types))

lemma keeps_content: "keeps ps fs fs' \<Longrightarrow> p \<in> ps \<Longrightarrow> content fs' p = content fs p"
  by (cases "fs_name fs p") (auto simp: keeps_def entries_def content_def)

lemma replaced_content:
  assumes "replaced ps p bs fs fs'"
  shows "content fs' p = Some bs" "q \<in> ps \<Longrightarrow> q \<noteq> p \<Longrightarrow> content fs' q = content fs q"
  using assms keeps_content [of "ps - {p}" fs fs' q] by (auto simp: replaced_def entries_def content_def)

lemma replaced_keeps:
  assumes "replaced ps p bs a b" "keeps ps b c" "p \<in> ps"
  shows "replaced ps p bs a c"
proof -
  obtain i where i: "entries p b = Some i # entries p a" "fs_data b i = bs" "fs_settled b i"
    using assms(1) by (auto simp: replaced_def)
  have "entries p c = entries p b" "fs_data c j = fs_data b j" "fs_settled c j = fs_settled b j"
    if "Some j \<in> set (entries p b)" for j
    using assms(2,3) that by (simp_all add: keeps_def)
  with i assms(1) have "\<exists>i. entries p c = Some i # entries p a \<and> fs_data c i = bs \<and> fs_settled c i"
    "\<forall>i. Some i \<in> set (entries p a) \<longrightarrow> fs_data c i = fs_data a i \<and> fs_settled c i = fs_settled a i"
    by (auto simp: replaced_def)
  moreover have "keeps (ps - {p}) b c" using assms(2) unfolding keeps_def by blast
  then have "keeps (ps - {p}) a c" using assms(1) by (auto simp: replaced_def intro: keeps_trans)
  ultimately show ?thesis by (simp add: replaced_def)
qed

section \<open>A save, call by call\<close>

definition store_names :: "StoreOptions \<Rightarrow> string set" where
  "store_names options = {so_path options, watermark_path options}"

lemma temporary_names:
  "so_path options @ ''.tmp'' @ suffix \<notin> store_names options"
  "watermark_path options @ ''.tmp'' @ suffix \<notin> store_names options"
  "so_path options \<noteq> watermark_path options"
  by (auto simp: store_names_def watermark_path_def)

text \<open>How far the files are: the image replaced or not, and then the watermark.\<close>

definition image_replaced :: "StoreOptions \<Rightarrow> byte list \<Rightarrow> files \<Rightarrow> files \<Rightarrow> bool" where
  "image_replaced options img = replaced (store_names options) (so_path options) img"

definition both_replaced :: "StoreOptions \<Rightarrow> byte list \<Rightarrow> CoordinatorEpoch \<Rightarrow> files \<Rightarrow> files \<Rightarrow> bool" where
  "both_replaced options img epoch fs fs' \<longleftrightarrow>
     (\<exists>u. image_replaced options img fs u \<and>
        replaced (store_names options) (watermark_path options) (map char_byte (watermark_text epoch)) u fs')"

definition watermark_due :: "StoreOptions \<Rightarrow> u64 \<Rightarrow> DurableState \<Rightarrow> bool" where
  "watermark_due options w st \<longleftrightarrow> so_enable_rollback_watermark options \<and> w < counter_value (st_current_epoch st)"

text \<open>The ways a save ends: the files before each call, and those it leaves.\<close>

lemma save_file_effect:
  assumes "standing (store_names options) (mc_files m)" "save_file options os st m = (r, m')"
  obtains (unread) e where "read_watermark_file options os (mc_files m) = Inl e" "r = Inl e" "m' = m"
    | (unencoded) w e where "read_watermark_file options os (mc_files m) = Inr w" "store_encode st = Inl e" "r = Inl e" "m' = m"
    | (kept) w img e new where "read_watermark_file options os (mc_files m) = Inr w" "store_encode st = Inr img"
        "r = Inl e" "mc_past m' = mc_past m @ new"
        "\<forall>fs \<in> insert (mc_files m') (set new). keeps (store_names options) (mc_files m) fs"
    | (replaced_image) w img new where "read_watermark_file options os (mc_files m) = Inr w" "store_encode st = Inr img"
        "mc_past m' = mc_past m @ new" "watermark_due options w st \<longleftrightarrow> r \<noteq> Inr ()"
        "image_replaced options img (mc_files m) (mc_files m')"
        "\<forall>fs \<in> set new. keeps (store_names options) (mc_files m) fs \<or> image_replaced options img (mc_files m) fs"
    | (both) w img new where "read_watermark_file options os (mc_files m) = Inr w" "store_encode st = Inr img"
        "mc_past m' = mc_past m @ new" "watermark_due options w st" "r = Inr ()"
        "both_replaced options img (st_current_epoch st) (mc_files m) (mc_files m')"
        "\<forall>fs \<in> set new. keeps (store_names options) (mc_files m) fs \<or> image_replaced options img (mc_files m) fs"
proof (cases "read_watermark_file options os (mc_files m)")
  case (Inl e)
  then show thesis using assms(2) by (intro unread [of e]) (auto simp: save_file_def)
next
  case w: (Inr w)
  let ?ps = "store_names options"
  let ?dir = "if os_directory os \<or> os_make_directory os then Inr ()
    else Inl (io_failure ''cannot create the durable store directory'')"
  show thesis
  proof (cases "store_encode st")
    case (Inl e)
    then show thesis using assms(2) w by (intro unencoded [of w e]) (auto simp: save_file_def)
  next
    case img: (Inr img)
    show thesis
    proof (cases ?dir)
      case (Inl e)
      then show thesis
        using assms(2) w img by (intro kept [of w img e "[]"]) (auto simp: save_file_def keeps_def split: if_splits)
    next
      case dir: (Inr _)
      obtain q n where q: "replace_file os (so_path options) img m = (q, n)"
        by (cases "replace_file os (so_path options) img m")
      obtain new where new: "mc_past n = mc_past m @ new" "standing ?ps (mc_files n)"
        "\<forall>fs \<in> set new. keeps ?ps (mc_files m) fs"
        "q = Inr () \<and> replaced ?ps (so_path options) img (mc_files m) (mc_files n) \<or>
          (\<exists>e. q = Inl e) \<and> keeps ?ps (mc_files m) (mc_files n)"
        by (rule replace_file_effect [OF assms(1) _ temporary_names(1) q]) (auto simp: store_names_def)
      have run: "save_file options os st m = (case q of Inl e \<Rightarrow> (Inl e, n)
        | Inr _ \<Rightarrow> (if watermark_due options w st
            then write_watermark_file options os (st_current_epoch st) else a_return ()) n)"
        using w img dir q by (auto simp: save_file_def a_bind_def watermark_due_def split: if_splits sum.split)
      show thesis
      proof (cases q)
        case (Inl e)
        with new run assms(2) w img show thesis by (intro kept [of w img e new]) auto
      next
        case (Inr x)
        with new(4) have rep: "image_replaced options img (mc_files m) (mc_files n)" by (simp add: image_replaced_def)
        show thesis
        proof (cases "watermark_due options w st")
          case False
          with new rep run assms(2) Inr w img show thesis by (intro replaced_image [of w img new]) auto
        next
          case due: True
          then have wr: "replace_file os (watermark_path options) (map char_byte (watermark_text (st_current_epoch st))) n = (r, m')"
            using run assms(2) Inr by (simp add: write_watermark_file_def)
          obtain more where more: "mc_past m' = mc_past n @ more" "\<forall>fs \<in> set more. keeps ?ps (mc_files n) fs"
            "r = Inr () \<and> replaced ?ps (watermark_path options)
                (map char_byte (watermark_text (st_current_epoch st))) (mc_files n) (mc_files m') \<or>
              (\<exists>e. r = Inl e) \<and> keeps ?ps (mc_files n) (mc_files m')"
            by (rule replace_file_effect [OF new(2) _ temporary_names(2) wr]) (auto simp: store_names_def)
          have still: "image_replaced options img (mc_files m) fs" if "keeps ?ps (mc_files n) fs" for fs
            using rep that unfolding image_replaced_def by (rule replaced_keeps) (simp add: store_names_def)
          have past: "mc_past m' = mc_past m @ new @ more"
            "\<forall>fs \<in> set (new @ more). keeps ?ps (mc_files m) fs \<or> image_replaced options img (mc_files m) fs"
            using new(1,3) more(1,2) still by auto
          from more(3) show thesis
          proof
            assume "r = Inr () \<and> replaced ?ps (watermark_path options)
                (map char_byte (watermark_text (st_current_epoch st))) (mc_files n) (mc_files m')"
            then show thesis using rep due w img past by (intro both [of w img "new @ more"]) (auto simp: both_replaced_def)
          next
            assume "(\<exists>e. r = Inl e) \<and> keeps ?ps (mc_files n) (mc_files m')"
            then show thesis using still due w img past by (intro replaced_image [of w img "new @ more"]) auto
          qed
        qed
      qed
    qed
  qed
qed

section \<open>Loss of power\<close>

definition power_loss :: "files \<Rightarrow> files \<Rightarrow> bool" where
  "power_loss fs fs' \<longleftrightarrow>
     (\<forall>p. fs_name fs' p \<in> set (entries p fs)) \<and> (\<forall>i. fs_settled fs i \<longrightarrow> fs_data fs' i = fs_data fs i)"

lemma power_loss_none: "power_loss fs fs"
  by (simp add: power_loss_def entries_def)

text \<open>The contents that a name may be found with, all of them settled.\<close>

definition may_have :: "files \<Rightarrow> string \<Rightarrow> byte list option set \<Rightarrow> bool" where
  "may_have fs p C \<longleftrightarrow>
     (\<forall>e \<in> set (entries p fs). case e of None \<Rightarrow> None \<in> C | Some i \<Rightarrow> fs_settled fs i \<and> Some (fs_data fs i) \<in> C)"

lemma may_have_after: "may_have fs p C \<Longrightarrow> power_loss fs fs' \<Longrightarrow> content fs' p \<in> C"
  by (cases "fs_name fs' p") (auto simp: may_have_def power_loss_def content_def dest!: bspec spec [of _ p])

lemma may_have_mono: "may_have fs p C \<Longrightarrow> C \<subseteq> D \<Longrightarrow> may_have fs p D"
  by (auto simp: may_have_def split: option.splits)

lemma keeps_may_have: "keeps ps fs fs' \<Longrightarrow> p \<in> ps \<Longrightarrow> may_have fs p C \<Longrightarrow> may_have fs' p C"
  by (auto simp: may_have_def keeps_def split: option.splits)

lemma replaced_may_have:
  assumes "replaced ps p bs fs fs'"
  shows "may_have fs p C \<Longrightarrow> may_have fs' p (insert (Some bs) C)"
    and "q \<in> ps \<Longrightarrow> q \<noteq> p \<Longrightarrow> may_have fs q C \<Longrightarrow> may_have fs' q C"
proof -
  show "may_have fs' p (insert (Some bs) C)" if "may_have fs p C"
    using that assms by (auto simp: may_have_def replaced_def split: option.splits)
  show "may_have fs' q C" if "q \<in> ps" "q \<noteq> p" "may_have fs q C"
    using that assms keeps_may_have [of "ps - {p}" fs fs' q C] by (simp add: replaced_def)
qed

text \<open>A file at rest: on the medium, under an entry that is on the medium.\<close>

definition at_rest :: "files \<Rightarrow> string \<Rightarrow> bool" where
  "at_rest fs p \<longleftrightarrow> fs_earlier fs p = [] \<and> (\<forall>i. fs_name fs p = Some i \<longrightarrow> fs_settled fs i)"

lemma at_rest_has: "at_rest fs p \<Longrightarrow> may_have fs p {content fs p}"
  by (auto simp: at_rest_def may_have_def entries_def content_def split: option.splits)

definition watermark_bytes :: "DurableState \<Rightarrow> byte list" where
  "watermark_bytes st = map char_byte (watermark_text (st_current_epoch st))"

lemma save_may_have:
  assumes "standing (store_names options) (mc_files m)" "save_file options os st m = (r, m')"
    and "store_encode st = Inr img" "fs \<in> set (drop (length (mc_past m)) (mc_past m')) \<union> {mc_files m'}"
    and "may_have (mc_files m) (so_path options) C" "may_have (mc_files m) (watermark_path options) D"
  shows "may_have fs (so_path options) (insert (Some img) C)"
    and "may_have fs (watermark_path options) (insert (Some (watermark_bytes st)) D)"
proof -
  let ?ps = "store_names options" and ?t = "watermark_bytes st"
  have names: "so_path options \<in> ?ps" "watermark_path options \<in> ?ps" "so_path options \<noteq> watermark_path options"
    using temporary_names(3) by (simp_all add: store_names_def)
  note rest = assms(5,6)
  have "keeps ?ps (mc_files m) fs \<or> image_replaced options img (mc_files m) fs \<or>
      both_replaced options img (st_current_epoch st) (mc_files m) fs"
    using assms(1,2)
  proof (cases rule: save_file_effect)
    case unread
    then show ?thesis using assms(4) by (simp add: keeps_def)
  qed (use assms(3,4) in auto)
  then have "may_have fs (so_path options) (insert (Some img) C) \<and>
      may_have fs (watermark_path options) (insert (Some ?t) D)"
  proof (elim disjE)
    assume k: "keeps ?ps (mc_files m) fs"
    show ?thesis
      using keeps_may_have [OF k names(1) rest(1)] keeps_may_have [OF k names(2) rest(2)]
      by (auto elim: may_have_mono)
  next
    assume "image_replaced options img (mc_files m) fs"
    note u = replaced_may_have [OF this [unfolded image_replaced_def]]
    show ?thesis
      using u(1) [OF rest(1)] u(2) [OF names(2) _ rest(2)] names(3) by (auto elim: may_have_mono)
  next
    assume "both_replaced options img (st_current_epoch st) (mc_files m) fs"
    then obtain u where "replaced ?ps (so_path options) img (mc_files m) u"
      "replaced ?ps (watermark_path options) ?t u fs"
      by (auto simp: both_replaced_def image_replaced_def watermark_bytes_def)
    note u = replaced_may_have [OF this(1)] and v = replaced_may_have [OF this(2)]
    show ?thesis
      using v(2) [OF names(1,3) u(1) [OF rest(1)]] v(1) [OF u(2) [OF names(2) _ rest(2)]] names(3) by simp
  qed
  then show "may_have fs (so_path options) (insert (Some img) C)"
    "may_have fs (watermark_path options) (insert (Some ?t) D)" by simp_all
qed

section \<open>The refinement\<close>

lemma read_loop_result: "read_loop reads k out rest = Inr bs \<Longrightarrow> bs = out @ rest"
proof (induction reads k out rest rule: read_loop.induct)
  case (1 reads k out rest)
  then show ?case
    by (simp add: read_loop.simps [of reads k] Let_def split: option.splits if_splits)
qed

lemma read_all_result:
  assumes "fs_name fs p \<noteq> None"
  shows "\<exists>e. read_all os fs p = (case e of None \<Rightarrow> Inr (the (content fs p)) | Some e \<Rightarrow> Inl e)"
proof (cases "read_all os fs p")
  case (Inl e)
  then show ?thesis by (intro exI [of _ "Some e"]) simp
next
  case (Inr bs)
  then have "bs = the (content fs p)"
    using assms by (auto simp: read_all_def content_def dest: read_loop_result split: if_splits)
  with Inr show ?thesis by (intro exI [of _ None]) simp
qed

text \<open>
  What a process sees of the files: a watermark that cannot be inspected counts as missing. It is there afterwards, unless
  it has been replaced.
\<close>

definition seen :: "StoreOptions \<Rightarrow> os \<Rightarrow> files \<Rightarrow> disk" where
  "seen options os fs =
     (disk_of options fs)\<lparr> watermark_file :=
       if os_stat os (watermark_path options) then watermark_file (disk_of options fs) else None \<rparr>"

definition with_unseen :: "StoreOptions \<Rightarrow> files \<Rightarrow> disk \<Rightarrow> disk" where
  "with_unseen options fs d =
     (if watermark_file d = None then d\<lparr> watermark_file := watermark_file (disk_of options fs) \<rparr> else d)"

lemma with_unseen_seen:
  "with_unseen options fs (seen options os fs) = disk_of options fs"
  "with_unseen options fs ((seen options os fs)\<lparr> image_file := i \<rparr>) = (disk_of options fs)\<lparr> image_file := i \<rparr>"
  "with_unseen options fs ((seen options os fs)\<lparr> image_file := i, watermark_file := Some w \<rparr>) =
     (disk_of options fs)\<lparr> image_file := i, watermark_file := Some w \<rparr>"
  by (auto simp: with_unseen_def seen_def)

lemma read_watermark_refines:
  obtains e where "\<And>io. io ReadWatermark = e \<Longrightarrow>
    read_watermark_file options os fs = read_watermark options io (seen options os fs)"
proof (cases "fs_name fs (watermark_path options) = None \<or> \<not> os_stat os (watermark_path options)")
  case True
  then show thesis
    by (intro that [of None]) (auto simp: read_watermark_file_def read_watermark_def file_exists_def disk_of_def content_def seen_def)
next
  case False
  then obtain i where Some: "fs_name fs (watermark_path options) = Some i" and stat: "os_stat os (watermark_path options)"
    by auto
  obtain e where e: "read_all os fs (watermark_path options) =
      (case e of None \<Rightarrow> Inr (the (content fs (watermark_path options))) | Some e \<Rightarrow> Inl e)"
    using read_all_result [of fs "watermark_path options" os] Some by auto
  show thesis
    by (rule that [of e])
      (auto simp: read_watermark_file_def read_watermark_def file_exists_def disk_of_def content_def Some e stat seen_def
        attempt_io_def split: option.split)
qed

lemma disk_of_facts:
  "keeps (store_names options) fs fs' \<Longrightarrow> disk_of options fs' = disk_of options fs"
  "image_replaced options img fs fs' \<Longrightarrow> disk_of options fs' = (disk_of options fs)\<lparr> image_file := Some img \<rparr>"
proof -
  have names: "so_path options \<in> store_names options" "watermark_path options \<in> store_names options"
    by (simp_all add: store_names_def)
  show "disk_of options fs' = disk_of options fs" if "keeps (store_names options) fs fs'"
    using keeps_content [OF that] names by (simp add: disk_of_def)
  show "disk_of options fs' = (disk_of options fs)\<lparr> image_file := Some img \<rparr>" if "image_replaced options img fs fs'"
    using replaced_content [OF that [unfolded image_replaced_def]] names temporary_names(3) [of options, symmetric] by (simp add: disk_of_def)
qed

lemma disk_of_watermark:
  assumes "replaced (store_names options) (watermark_path options) bs fs fs'"
  shows "disk_of options fs' = (disk_of options fs)\<lparr> watermark_file := Some bs \<rparr>"
  using replaced_content [OF assms] temporary_names(3) by (simp add: disk_of_def store_names_def)

text \<open>A temporary file is gone at the end, when it can be removed.\<close>

definition only_name :: "string \<Rightarrow> files \<Rightarrow> files \<Rightarrow> bool" where
  "only_name t fs fs' \<longleftrightarrow> (\<forall>q. q \<noteq> t \<longrightarrow> fs_name fs' q = fs_name fs q)"

interpretation only_name: file_relation "only_name t" for t
  by unfold_locales (simp_all add: only_name_def)

lemma write_all_names: "passes (only_name t) (write_all_durable os t bs)"
  by (rule only_name.passes_write_all) (auto simp: only_name_def sys_defs split: option.split)

lemma replace_file_names:
  assumes "replace_file os target bs m = (r, m')" "\<And>p. os_unlink os p" "q \<noteq> target"
    and "fs_name (mc_files m') q \<noteq> None"
  shows "fs_name (mc_files m) q \<noteq> None"
proof (cases "temp_suffix os target")
  case (Inl e)
  then show ?thesis using assms(1,4) by (auto simp: replace_file_def)
next
  case (Inr suffix)
  define t where "t = target @ ''.tmp'' @ suffix"
  obtain x n where w: "write_all_durable os t bs m = (x, n)" by (cases "write_all_durable os t bs m")
  have n: "only_name t (mc_files m) (mc_files n)" by (rule passesD [OF write_all_names w])
  have "guarded os t (a_bind (write_all_durable os t bs) (\<lambda>_. atomic_replace os t target)) m = (r, m')"
    using assms(1) Inr by (simp add: replace_file_def t_def Let_def)
  then have "mc_files m' = sys_rename t target (mc_files n) \<or> mc_files m' = sys_unlink t (mc_files n)"
    using w assms(2)
    by (cases x) (auto simp: guarded_def a_bind_def atomic_replace_def remove_quietly_def call_def split: if_splits)
  then have "fs_name (mc_files m') t = None \<or> t = q \<and> fs_name (mc_files m') q = None"
    "q \<noteq> t \<Longrightarrow> fs_name (mc_files m') q = fs_name (mc_files n) q"
    using assms(3) by (auto simp: sys_rename_def sys_unlink_def set_name_def t_def split: option.splits)
  then show ?thesis using n assms(4) by (cases "q = t") (auto simp: only_name_def)
qed

lemma save_file_names:
  assumes "save_file options os st m = (r, m')" "\<And>p. os_unlink os p" "q \<notin> store_names options"
    and "fs_name (mc_files m') q \<noteq> None"
  shows "fs_name (mc_files m) q \<noteq> None"
proof -
  have q: "q \<noteq> so_path options" "q \<noteq> watermark_path options" using assms(3) by (auto simp: store_names_def)
  show ?thesis
    using assms(1,4) replace_file_names [OF _ assms(2) q(1)] replace_file_names [OF _ assms(2) q(2)]
    by (fastforce simp: save_file_def write_watermark_file_def a_bind_def a_lift_def a_get_def a_return_def
      split: sum.splits prod.splits if_splits)
qed

text \<open>
  C20. A save over files does what the model of the store says: whatever the system calls answer, it ends with the result and
  the two files of some run of \<open>store_save\<close> on the files that the process sees (a watermark that cannot be inspected counts
  as missing, and is still there afterwards unless the save has replaced it), and no temporary file is left, if it can be
  removed. The files are those of a file system: no content has two names, and new files get new contents.
\<close>

theorem save_refines:
  assumes "standing (store_names options) (mc_files m)" "save_file options os st m = (r, m')"
  shows "(\<exists>io d'. store_save options io st (seen options os (mc_files m)) = (r, d') \<and>
      disk_of options (mc_files m') = with_unseen options (mc_files m) d') \<and>
    ((\<forall>p. os_unlink os p) \<longrightarrow> (\<forall>q. q \<notin> store_names options \<longrightarrow>
       fs_name (mc_files m') q \<noteq> None \<longrightarrow> fs_name (mc_files m) q \<noteq> None))" (is "?run \<and> ?names")
proof
  show ?names using save_file_names [OF assms(2)] by blast
  let ?d = "seen options os (mc_files m)"
  have run: ?run if "store_save options io st ?d = (r, d')" "disk_of options (mc_files m') = with_unseen options (mc_files m) d'" for io d'
    using that by blast
  obtain e where e: "\<And>io. io ReadWatermark = e \<Longrightarrow> read_watermark_file options os (mc_files m) = read_watermark options io ?d"
    by (rule read_watermark_refines [of options os "mc_files m"]) blast
  let ?io = "io_ok(ReadWatermark := e)"
  have read: "read_watermark options (?io(s := x)) ?d = read_watermark_file options os (mc_files m)"
    if "s \<noteq> ReadWatermark" for s x
    using e [of "?io(s := x)"] that by simp
  note save = store_save_def attempt_io_def io_ok_def write_watermark_def watermark_due_def
  from assms show ?run
  proof (cases rule: save_file_effect)
    case (unread x)
    then show ?run using e [of ?io] by (intro run [of ?io ?d]) (simp_all add: store_save_def with_unseen_seen)
  next
    case (unencoded w x)
    then show ?run using e [of ?io] by (intro run [of ?io ?d]) (simp_all add: store_save_def with_unseen_seen)
  next
    case (kept w img x new)
    then show ?run
      using read [of CreateDirectory "Some x"] disk_of_facts(1) [of options "mc_files m" "mc_files m'"]
      by (intro run [of "?io(CreateDirectory := Some x)" ?d]) (simp_all add: save with_unseen_seen)
  next
    case (replaced_image w img new)
    have disk: "disk_of options (mc_files m') = with_unseen options (mc_files m) (?d\<lparr> image_file := Some img \<rparr>)"
      using disk_of_facts(2) [OF replaced_image(5)] by (simp add: with_unseen_seen)
    show ?run
    proof (cases r)
      case (Inl x)
      then show ?run
        using replaced_image read [of WriteWatermark "Some x"]
        by (intro run [OF _ disk, of "?io(WriteWatermark := Some x)"]) (simp add: save Let_def)
    next
      case (Inr x)
      then show ?run
        using replaced_image e [of ?io] by (intro run [OF _ disk, of ?io]) (auto simp: save Let_def)
    qed
  next
    case (both w img new)
    let ?t = "map char_byte (watermark_text (st_current_epoch st))"
    obtain u where u: "image_replaced options img (mc_files m) u"
      "replaced (store_names options) (watermark_path options) ?t u (mc_files m')"
      using both by (auto simp: both_replaced_def)
    have disk: "disk_of options (mc_files m') =
        with_unseen options (mc_files m) (?d\<lparr> image_file := Some img, watermark_file := Some ?t \<rparr>)"
      using disk_of_facts(2) [OF u(1)] disk_of_watermark [OF u(2)] by (simp add: with_unseen_seen)
    show ?run
      using both e [of ?io] by (intro run [OF _ disk, of ?io]) (simp add: save Let_def)
  qed
qed

text \<open>Loading likewise; and a file that cannot be inspected counts as missing, so that a fresh state is loaded instead.\<close>

lemma load_refines:
  assumes "os_stat os (so_path options)"
  shows "\<exists>io. load_file options os fs = store_load options io (seen options os fs)"
proof -
  obtain e where e: "\<And>io. io ReadWatermark = e \<Longrightarrow>
      read_watermark_file options os fs = read_watermark options io (seen options os fs)"
    by (rule read_watermark_refines [of options os fs]) blast
  show ?thesis
  proof (cases "fs_name fs (so_path options)")
    case None
    then show ?thesis by (simp add: load_file_def file_exists_def store_load_def disk_of_def content_def seen_def)
  next
    case (Some i)
    obtain x where x: "read_all os fs (so_path options) =
        (case x of None \<Rightarrow> Inr (the (content fs (so_path options))) | Some x \<Rightarrow> Inl x)"
      using read_all_result [of fs "so_path options" os] Some by auto
    let ?io = "io_ok(ReadWatermark := e, ReadImage := x)"
    have "read_watermark_file options os fs = read_watermark options ?io (seen options os fs)" by (rule e) simp
    moreover have "image_file (seen options os fs) = Some (fs_data fs i)"
      "content fs (so_path options) = Some (fs_data fs i)"
      by (simp_all add: disk_of_def content_def Some seen_def)
    ultimately show ?thesis
      by (intro exI [of _ ?io], cases x)
        (auto simp: load_file_def file_exists_def Some assms x store_load_def attempt_io_def highest_persisted_epoch_def
          res_bind_def split: sum.split)
  qed
qed

lemma hidden_image_loads_fresh:
  "\<not> os_stat os (so_path options) \<Longrightarrow> so_create_if_missing options \<Longrightarrow> load_file options os fs = Inr initial_state"
  by (simp add: load_file_def file_exists_def)

section \<open>What a loss of power leaves\<close>

definition moments :: "machine \<Rightarrow> machine \<Rightarrow> files set" where
  "moments m m' = insert (mc_files m') (set (drop (length (mc_past m)) (mc_past m')))"

text \<open>
  C21. Whenever the process is killed or power is lost, during a save or after it: suppose that a loss of power just before
  the save could have left an image of \<open>C\<close> and a watermark of \<open>D\<close> (all of them on the medium; after earlier saves these
  are several, since nothing writes the directory to the medium). Then what is found is the state to be saved, which loads,
  or an image of \<open>C\<close> with a watermark of \<open>D\<close> or the new one, and never a mixture of two images; and the next save begins
  with \<open>C\<close> and \<open>D\<close> extended by what this one wrote. So when the store was at rest before, what is found loads as the old
  or the new state, unless only the new watermark has reached the medium. The state is one that can be read back, and is not
  refused by any watermark of \<open>D\<close>.
\<close>

theorem power_loss_leaves_a_state:
  assumes "standing (store_names options) (mc_files m)" "save_file options os st m = (r, m')" "fs \<in> moments m m'"
    and "may_have (mc_files m) (so_path options) C" "may_have (mc_files m) (watermark_path options) D"
    and "storable options st" "\<forall>w \<in> D. watermark_accepts options st \<lparr> image_file = None, watermark_file = w \<rparr>"
  shows "may_have fs (so_path options) (insert (Some (projr (store_encode st))) C) \<and>
    may_have fs (watermark_path options) (insert (Some (watermark_bytes st)) D) \<and>
    (\<forall>fs'. power_loss fs fs' \<longrightarrow>
       store_load options io_ok (disk_of options fs') = Inr st \<or>
       image_file (disk_of options fs') \<in> C \<and> watermark_file (disk_of options fs') \<in> insert (Some (watermark_bytes st)) D) \<and>
    (\<forall>fs' d old. power_loss fs fs' \<and> C = {image_file d} \<and> D = {watermark_file d} \<and>
       store_load options io_ok d = Inr old \<longrightarrow>
         store_load options io_ok (disk_of options fs') \<in> {Inr old, Inr st} \<or>
         disk_of options fs' = d\<lparr> watermark_file := Some (watermark_bytes st) \<rparr>)"
proof -
  let ?t = "watermark_bytes st" and ?img = "projr (store_encode st)"
  have img: "store_encode st = Inr ?img" using store_encode_storable [OF assms(6)] by simp
  have fs: "fs \<in> set (drop (length (mc_past m)) (mc_past m')) \<union> {mc_files m'}" using assms(3) by (simp add: moments_def)
  note may = save_may_have [OF assms(1,2) img fs assms(4,5)]
  have found: "image_file (disk_of options fs') \<in> insert (Some ?img) C" "watermark_file (disk_of options fs') \<in> insert (Some ?t) D"
    if "power_loss fs fs'" for fs'
    using may_have_after [OF may(1) that] may_have_after [OF may(2) that] by (simp_all add: disk_of_def)
  have new: "store_load options io_ok d = Inr st" if d: "image_file d = Some ?img" "watermark_file d \<in> insert (Some ?t) D" for d
  proof (rule load_image [OF assms(6) d(1)])
    assume e: "so_enable_rollback_watermark options"
    from d(2) show "\<exists>v. read_watermark options io_ok d = Inr v \<and> v \<le> counter_value (st_current_epoch st)"
    proof
      assume "watermark_file d \<in> D"
      then have "watermark_accepts options st \<lparr> image_file = None, watermark_file = watermark_file d \<rparr>" using assms(7) by blast
      then show ?thesis by (auto simp: watermark_accepts_def read_watermark_def split: sum.splits)
    qed (use read_written_watermark [OF e] in \<open>auto simp: watermark_bytes_def\<close>)
  qed
  have either: "store_load options io_ok (disk_of options fs') = Inr st \<or>
      image_file (disk_of options fs') \<in> C \<and> watermark_file (disk_of options fs') \<in> insert (Some ?t) D"
    if "power_loss fs fs'" for fs'
    using found [OF that] new by blast
  have "store_load options io_ok (disk_of options fs') \<in> {Inr old, Inr st} \<or> disk_of options fs' = d\<lparr> watermark_file := Some ?t \<rparr>"
    if "power_loss fs fs'" "C = {image_file d}" "D = {watermark_file d}" "store_load options io_ok d = Inr old" for fs' d old
  proof -
    have "disk_of options fs' = d \<or> disk_of options fs' = d\<lparr> watermark_file := Some ?t \<rparr>"
      if "image_file (disk_of options fs') \<in> C" "watermark_file (disk_of options fs') \<in> insert (Some ?t) D"
      using that \<open>C = {image_file d}\<close> \<open>D = {watermark_file d}\<close> by (cases d; cases "disk_of options fs'") auto
    with either [OF that(1)] that(4) show ?thesis by auto
  qed
  with may either show ?thesis by blast
qed

text \<open>Nothing writes the directory itself: both renames of a save that has returned may still be undone, each by itself.\<close>

lemma entries_lost:
  assumes "\<And>p. e p \<in> set (entries p fs)"
  shows "power_loss fs (fs\<lparr> fs_name := e \<rparr>)"
  using assms by (simp add: power_loss_def)

lemma replaced_entries:
  assumes "replaced ps p bs fs fs'" "q \<in> ps"
  shows "fs_name fs q \<in> set (entries q fs')" "map_option (fs_data fs') (fs_name fs q) = content fs q"
proof -
  have e: "fs_name fs q \<in> set (entries q fs)" by (simp add: entries_def)
  show "fs_name fs q \<in> set (entries q fs')"
    using assms e by (cases "q = p") (auto simp: replaced_def keeps_def)
  show "map_option (fs_data fs') (fs_name fs q) = content fs q"
    using assms e by (cases "q = p"; cases "fs_name fs q") (auto simp: replaced_def keeps_def content_def)
qed

lemma both_entries:
  assumes "both_replaced options img epoch fs fs'"
  shows "fs_name fs (so_path options) \<in> set (entries (so_path options) fs')"
    "map_option (fs_data fs') (fs_name fs (so_path options)) = content fs (so_path options)"
    "fs_name fs (watermark_path options) \<in> set (entries (watermark_path options) fs')"
    "map_option (fs_data fs') (fs_name fs (watermark_path options)) = content fs (watermark_path options)"
    "content fs' (watermark_path options) = Some (map char_byte (watermark_text epoch))"
proof -
  let ?ps = "store_names options"
  have names: "so_path options \<in> ?ps" "watermark_path options \<in> ?ps" "so_path options \<noteq> watermark_path options"
    using temporary_names(3) by (simp_all add: store_names_def)
  obtain u where u: "replaced ?ps (so_path options) img fs u"
    "replaced ?ps (watermark_path options) (map char_byte (watermark_text epoch)) u fs'"
    using assms by (auto simp: both_replaced_def image_replaced_def)
  show "content fs' (watermark_path options) = Some (map char_byte (watermark_text epoch))"
    by (rule replaced_content(1) [OF u(2)])
  have step: "e \<in> set (entries q fs') \<and> map_option (fs_data fs') e = map_option (fs_data u) e"
    if "q \<in> ?ps" "e \<in> set (entries q u)" for q e
    using u(2) that by (cases "q = watermark_path options"; cases e) (auto simp: replaced_def keeps_def)
  note first = replaced_entries [OF u(1) names(1)] replaced_entries [OF u(1) names(2)]
  show "fs_name fs (so_path options) \<in> set (entries (so_path options) fs')"
    "map_option (fs_data fs') (fs_name fs (so_path options)) = content fs (so_path options)"
    "fs_name fs (watermark_path options) \<in> set (entries (watermark_path options) fs')"
    "map_option (fs_data fs') (fs_name fs (watermark_path options)) = content fs (watermark_path options)"
    using step [OF names(1) first(1)] step [OF names(2) first(3)] first(2,4) by simp_all
qed

lemma renames_may_be_lost:
  assumes "both_replaced options img epoch fs fs'"
  shows "\<exists>u. power_loss fs' u \<and> disk_of options u = disk_of options fs"
    and "\<exists>u. power_loss fs' u \<and>
      disk_of options u = (disk_of options fs)\<lparr> watermark_file := Some (map char_byte (watermark_text epoch)) \<rparr>"
proof -
  note b = both_entries [OF assms]
  have same: "fs_name fs' p \<in> set (entries p fs')" for p by (simp add: entries_def)
  let ?e = "(fs_name fs')(so_path options := fs_name fs (so_path options))"
  let ?f = "?e(watermark_path options := fs_name fs (watermark_path options))"
  have "power_loss fs' (fs'\<lparr> fs_name := ?f \<rparr>)" "power_loss fs' (fs'\<lparr> fs_name := ?e \<rparr>)"
    using b(1,3) same by (intro entries_lost; simp)+
  moreover have "disk_of options (fs'\<lparr> fs_name := ?f \<rparr>) = disk_of options fs"
    "disk_of options (fs'\<lparr> fs_name := ?e \<rparr>) =
      (disk_of options fs)\<lparr> watermark_file := Some (map char_byte (watermark_text epoch)) \<rparr>"
    using b(2,4,5) temporary_names(3) [of options] by (auto simp: disk_of_def content_def)
  ultimately show "\<exists>u. power_loss fs' u \<and> disk_of options u = disk_of options fs"
    "\<exists>u. power_loss fs' u \<and>
      disk_of options u = (disk_of options fs)\<lparr> watermark_file := Some (map char_byte (watermark_text epoch)) \<rparr>"
    by blast+
qed

end
