(* ===== verification/Media.thy ===== *)
theory Media
  imports Files Scenario
begin

text \<open>
  The theorems of \<open>Files\<close> at work: the first save of a coordinator on an operating system where every call succeeds, and
  a loss of power after it has returned.
\<close>

section \<open>A save on which every call succeeds\<close>

lemma write_loop_fine: "(\<And>k. ws k \<noteq> None) \<Longrightarrow> \<exists>m'. write_loop ws k p rest m = (Inr (), m')"
proof (induction ws k p rest arbitrary: m rule: write_loop.induct)
  case (1 ws k p rest)
  show ?case
  proof (cases "rest = []")
    case False
    moreover obtain n where n: "ws k = Some n" using 1(2) by auto
    ultimately show ?thesis
      using 1(1) [OF False n 1(2)] by (simp add: write_loop.simps [of ws k] call_def)
  qed (simp add: write_loop.simps [of ws])
qed

definition fine_os :: os where
  "fine_os =
     \<lparr> os_stat = (\<lambda>_. True), os_open_read = (\<lambda>_. True), os_read = (\<lambda>_ _. Some 512), os_directory = True,
       os_make_directory = False, os_entropy = (\<lambda>_. Inr (replicate 16 0)), os_pid = 1, os_open_write = (\<lambda>_. True),
       os_write = (\<lambda>_ _. Some 100), os_fsync = (\<lambda>_. True), os_rename = (\<lambda>_. True), os_unlink = (\<lambda>_. True) \<rparr>"

lemma fine_os_calls:
  "os_stat fine_os p" "os_directory fine_os" "os_open_write fine_os p" "os_write fine_os p k \<noteq> None" "os_fsync fine_os p"
  "os_rename fine_os p"
  by (simp_all add: fine_os_def)

lemma fine_replace: "\<exists>m'. replace_file fine_os target bs m = (Inr (), m')"
proof -
  obtain suffix where s: "temp_suffix fine_os target = Inr suffix" by (simp add: temp_suffix_def fine_os_def)
  define t where "t = target @ ''.tmp'' @ suffix"
  obtain n where "write_loop (os_write fine_os t) 0 t bs
      (m\<lparr> mc_files := sys_create t (mc_files m), mc_past := mc_past m @ [mc_files m] \<rparr>) = (Inr (), n)"
    using write_loop_fine [of "os_write fine_os t", OF fine_os_calls(4)] by blast
  then have "\<exists>n. write_all_durable fine_os t bs m = (Inr (), n)"
    by (simp add: write_all_durable_def a_bind_def call_def fine_os_calls)
  then have "\<exists>n. guarded fine_os t (a_bind (write_all_durable fine_os t bs) (\<lambda>_. atomic_replace fine_os t target)) m =
      (Inr (), n)"
    by (auto simp: guarded_def a_bind_def atomic_replace_def call_def fine_os_calls)
  then show ?thesis by (simp add: replace_file_def s Let_def t_def)
qed

section \<open>The first save\<close>

definition no_files :: machine where
  "no_files =
     \<lparr> mc_files = \<lparr> fs_name = (\<lambda>_. None), fs_earlier = (\<lambda>_. []), fs_data = (\<lambda>_. []), fs_settled = (\<lambda>_. False),
         fs_fresh = 0 \<rparr>, mc_past = [] \<rparr>"

abbreviation demo_store :: StoreOptions where
  "demo_store \<equiv> store_options demo_options"

lemma state1_storable: "storable demo_store state1"
proof -
  have "records_fit (structural_limits default_limits) state1"
    using demo_fits by (simp add: records_fit_def transition_fits_def state1_def initial_state_def)
  moreover have "history_readable state1" by (simp add: history_readable_def state_defs)
  ultimately show ?thesis
    using state1_valid state1_writes
    by (auto simp: storable_def store_options_def writes_def kAbsoluteMaxPayloadLength_def demo_options_def)
qed

lemma no_files_facts:
  "standing ps (mc_files no_files)" "at_rest (mc_files no_files) p" "disk_of options (mc_files no_files) = empty_disk"
  by (simp_all add: no_files_def standing_def at_rest_def disk_of_def content_def entries_def empty_disk_def)

lemma first_save:
  obtains m' where "save_file demo_store fine_os state1 no_files = (Inr (), m')"
    "both_replaced demo_store (projr (store_encode state1)) (st_current_epoch state1) (mc_files no_files) (mc_files m')"
proof -
  obtain r m' where r: "save_file demo_store fine_os state1 no_files = (r, m')"
    by (cases "save_file demo_store fine_os state1 no_files")
  have w: "read_watermark_file demo_store fine_os (mc_files no_files) = Inr 0"
    by (simp add: read_watermark_file_def file_exists_def no_files_def)
  obtain img where img: "store_encode state1 = Inr img"
    using store_encode_storable [OF state1_storable] by simp
  have due: "so_enable_rollback_watermark demo_store \<and> 0 < counter_value (st_current_epoch state1)"
    by (simp add: store_options_def state1_def)
  obtain n where n: "replace_file fine_os (so_path demo_store) img no_files = (Inr (), n)"
    using fine_replace by blast
  obtain n' where n': "write_watermark_file demo_store fine_os (st_current_epoch state1) n = (Inr (), n')"
    unfolding write_watermark_file_def using fine_replace by blast
  have "save_file demo_store fine_os state1 no_files = (Inr (), n')"
    unfolding save_file_def using due by (simp add: w img fine_os_calls n n' a_bind_def)
  with r have ok: "r = Inr ()" by simp
  from no_files_facts(1) r show thesis
  proof (cases rule: save_file_effect)
    case (both u img' new)
    with that [of m'] r ok show thesis by simp
  qed (use ok w img due in \<open>auto simp: watermark_due_def\<close>)
qed

theorem save_refines_witness:
  "\<exists>m' io d'. save_file demo_store fine_os state1 no_files = (Inr (), m') \<and>
     store_save demo_store io state1 (seen demo_store fine_os (mc_files no_files)) = (Inr (), d') \<and>
     disk_of demo_store (mc_files m') = with_unseen demo_store (mc_files no_files) d'"
proof -
  obtain m' where m': "save_file demo_store fine_os state1 no_files = (Inr (), m')" by (rule first_save)
  from save_refines [OF no_files_facts(1) m'] m' show ?thesis by blast
qed

text \<open>The first save of a coordinator returns, power is lost, and what it saved is not there.\<close>

theorem power_loss_leaves_a_state_witness:
  "\<exists>m' fs. save_file demo_store fine_os state1 no_files = (Inr (), m') \<and> power_loss (mc_files m') fs \<and>
     disk_of demo_store fs = empty_disk \<and> store_load demo_store io_ok (disk_of demo_store fs) = Inr initial_state"
proof -
  obtain m' where m': "save_file demo_store fine_os state1 no_files = (Inr (), m')"
    "both_replaced demo_store (projr (store_encode state1)) (st_current_epoch state1) (mc_files no_files) (mc_files m')"
    by (rule first_save)
  obtain fs where fs: "power_loss (mc_files m') fs" "disk_of demo_store fs = empty_disk"
    using renames_may_be_lost(1) [OF m'(2)] by (auto simp: no_files_facts)
  have load: "store_load demo_store io_ok empty_disk = Inr initial_state"
    "\<forall>w \<in> {None}. watermark_accepts demo_store state1 \<lparr> image_file = None, watermark_file = w \<rparr>"
    by (simp_all add: store_load_def watermark_accepts_def read_watermark_def store_options_def empty_disk_def)
  have may: "may_have (mc_files no_files) p {None}" for p
    by (simp add: may_have_def entries_def no_files_def)
  have "mc_files m' \<in> moments no_files m'" by (simp add: moments_def)
  from power_loss_leaves_a_state [OF no_files_facts(1) m'(1) this may may state1_storable load(2)]
  have "store_load demo_store io_ok (disk_of demo_store fs) \<in> {Inr initial_state, Inr state1} \<or>
      disk_of demo_store fs = empty_disk\<lparr> watermark_file := Some (watermark_bytes state1) \<rparr>"
    using fs(1) load(1) by (fastforce simp: empty_disk_def)
  then show ?thesis using m'(1) fs load(1) by auto
qed

end
