(* ===== verification/Digests.thy ===== *)
theory Digests
  imports Retry Queries "HOL-Library.Product_Lexorder" "HOL-Library.Multiset"
begin

text \<open>
  What digests say. A digest is the hash of a canonical byte string, and such a string determines the meaning that it was
  written for: no other meaning gives it, however the parts are cut. So two snapshots have the same digest
  exactly when they agree on every record, in whatever order, and an attempt identifier stands for one request: both unless
  two different byte strings with the same hash have been found.
\<close>

section \<open>Codes\<close>

lemma w_seq_Cons_eq: "w_seq (m # ms) = Inr bs \<longleftrightarrow> (\<exists>a b. m = Inr a \<and> w_seq ms = Inr b \<and> bs = a @ b)"
  by (auto simp: w_seq.simps res_bind_eq_Inr)

text \<open>
  A writer is a code of the meaning \<open>sem\<close> of a value: what is written determines the meaning and its own end, and depends on
  nothing else. Unlike in \<open>byte_codec\<close> a meaning may leave something of the value out, and there may be no reader.
\<close>

locale code =
  fixes enc :: "'a \<Rightarrow> writer" and sem :: "'a \<Rightarrow> 'b" and ok :: "'a \<Rightarrow> bool"
  assumes prefix_free: "ok x \<Longrightarrow> ok y \<Longrightarrow> enc x = Inr a \<Longrightarrow> enc y = Inr b \<Longrightarrow> a @ r = b @ s \<Longrightarrow> sem x = sem y \<and> r = s"
    and determined: "ok x \<Longrightarrow> ok y \<Longrightarrow> sem x = sem y \<Longrightarrow> enc x = enc y"
begin

lemma same_bytes:
  assumes "ok x" "ok y" "enc x = Inr a" "enc y = Inr b"
  shows "a = b \<longleftrightarrow> sem x = sem y"
  using prefix_free [OF assms, of "[]" "[]"] determined [OF assms(1,2)] assms(3,4) by auto

lemma same_each:
  assumes "\<forall>x \<in> set xs. ok x" "\<forall>x \<in> set ys. ok x" "length xs = length ys"
    and "w_each enc xs = Inr a" "w_each enc ys = Inr b" "a @ r = b @ s"
  shows "map sem xs = map sem ys \<and> r = s"
  using assms(3,1,2,4-6)
proof (induction xs ys arbitrary: a b rule: list_induct2)
  case Nil
  then show ?case by (simp add: w_each_def)
next
  case (Cons x xs y ys)
  from Cons.prems(3,4) obtain u v u' v' where
    "enc x = Inr u" "w_each enc xs = Inr v" "a = u @ v" "enc y = Inr u'" "w_each enc ys = Inr v'" "b = u' @ v'"
    by (auto simp: w_each_def w_seq_Cons_eq)
  with Cons.prems prefix_free [of x y u u' "v @ r" "v' @ s"] Cons.IH [of v v'] show ?case by simp
qed

lemma each_determined:
  "\<forall>x \<in> set xs. ok x \<Longrightarrow> \<forall>x \<in> set ys. ok x \<Longrightarrow> map sem xs = map sem ys \<Longrightarrow> w_each enc xs = w_each enc ys"
proof (induction xs arbitrary: ys)
  case (Cons x xs)
  from Cons.prems obtain y zs where ys: "ys = y # zs" "sem x = sem y" "map sem xs = map sem zs" "ok x" "ok y"
    by (cases ys) auto
  from Cons.prems ys have "w_each enc xs = w_each enc zs" by (intro Cons.IH) simp_all
  with determined [OF ys(4,5,2)] show ?case by (simp add: ys(1) w_each_def w_seq.simps)
qed simp

end

text \<open>The parts of a record.\<close>

lemma w_seq_last: "w_seq [m] = m"
  by (cases m) (simp_all add: w_seq.simps res_bind_def)

lemma code_last: "code f s P \<Longrightarrow> code (\<lambda>x. w_seq [f x]) s P"
  by (simp add: w_seq_last)

lemma code_pair:
  assumes "code f s P" "code (\<lambda>x. w_seq (gs x)) t Q"
  shows "code (\<lambda>x. w_seq (f x # gs x)) (\<lambda>x. (s x, t x)) (\<lambda>x. P x \<and> Q x)"
proof
  fix x y a b r u
  assume ok: "P x \<and> Q x" "P y \<and> Q y" and e: "w_seq (f x # gs x) = Inr a" "w_seq (f y # gs y) = Inr b" "a @ r = b @ u"
  from e obtain v w v' w' where "f x = Inr v" "w_seq (gs x) = Inr w" "a = v @ w"
    "f y = Inr v'" "w_seq (gs y) = Inr w'" "b = v' @ w'"
    by (auto simp: w_seq_Cons_eq)
  with ok e(3) code.prefix_free [OF assms(1), of x y v v' "w @ r" "w' @ u"]
    code.prefix_free [OF assms(2), of x y w w' r u]
  show "(s x, t x) = (s y, t y) \<and> r = u" by simp
next
  fix x y assume "P x \<and> Q x" "P y \<and> Q y" "(s x, t x) = (s y, t y)"
  then show "w_seq (f x # gs x) = w_seq (f y # gs y)"
    using code.determined [OF assms(1), of x y] code.determined [OF assms(2), of x y] by (simp add: w_seq.simps)
qed

lemma code_of: "code f s P \<Longrightarrow> code (\<lambda>x. f (g x)) (\<lambda>x. s (g x)) (\<lambda>x. P (g x))"
  unfolding code_def by blast

lemma code_weaken: "code f s P \<Longrightarrow> (\<And>x. Q x \<Longrightarrow> P x) \<Longrightarrow> code f s Q"
  unfolding code_def by blast

lemma code_meaning:
  assumes "code f s P" "\<And>x y. P x \<Longrightarrow> P y \<Longrightarrow> s x = s y \<longleftrightarrow> t x = t y"
  shows "code f t P"
proof
  fix x y a b r u assume *: "P x" "P y" "f x = Inr a" "f y = Inr b" "a @ r = b @ u"
  from code.prefix_free [OF assms(1) *] assms(2) [OF *(1,2)] show "t x = t y \<and> r = u" by blast
next
  fix x y assume *: "P x" "P y" "t x = t y"
  with assms(2) [OF *(1,2)] show "f x = f y" by (intro code.determined [OF assms(1)]) blast+
qed

text \<open>What does not depend on the value says nothing about it.\<close>

lemma code_constant:
  assumes "code (\<lambda>x. w_seq (gs x)) t Q"
  shows "code (\<lambda>x. w_seq (m # gs x)) t Q"
proof -
  have "code (\<lambda>_ :: 'a. m) (\<lambda>_. ()) (\<lambda>_. True)" by unfold_locales auto
  from code_pair [OF this assms] have "code (\<lambda>x. w_seq (m # gs x)) (\<lambda>x. ((), t x)) Q" by simp
  then show ?thesis by (rule code_meaning) simp
qed

text \<open>A codec is a code of the value itself.\<close>

lemma codec_code:
  assumes "byte_codec enc dec P"
  shows "code enc (\<lambda>x. x) P"
proof
  fix x y a b r s
  assume "P x" "P y" "enc x = Inr a" "enc y = Inr b" "a @ r = b @ s"
  then show "x = y \<and> r = s" using byte_codec.prefix_free [OF assms, of x y r s] by simp
qed simp

section \<open>Strings and vectors\<close>

abbreviation counted :: "nat \<Rightarrow> byte list \<Rightarrow> byte list" where
  "counted n bs \<equiv> projr (w_u32 (word_of_nat n)) @ bs"

lemma counted_same:
  assumes "counted m a @ r = counted n b @ s" "m < 4294967296" "n < 4294967296"
  shows "m = n \<and> a @ r = b @ s"
proof -
  have eq: "(word_of_nat m :: u32) = word_of_nat n \<and> a @ r = b @ s"
    by (rule u32_codec.prefix_free) (use assms(1) in simp_all)
  then have "m = n" using unat_word_of_nat_u32 [OF assms(2)] unat_word_of_nat_u32 [OF assms(3)] by metis
  with eq show ?thesis by blast
qed

lemma w_string_eq: "w_string s = Inr bs \<longleftrightarrow> length s < 4294967296 \<and> bs = counted (length s) (map char_byte s)"
  by (auto simp: w_string_def w_seq_Cons_eq w_seq_last w_raw_def w_u32_def)

lemma w_counted_eq: "w_counted enc xs = Inr bs \<longleftrightarrow> (\<exists>b. w_each enc xs = Inr b \<and> bs = counted (length xs) b)"
  by (auto simp: w_counted_def w_seq_Cons_eq w_seq_last w_count_def w_u32_def)

lemma string_code: "code w_string (\<lambda>s. s) (\<lambda>_. True)"
proof
  fix x y :: string and a b r s
  assume a: "w_string x = Inr a" "w_string y = Inr b" "a @ r = b @ s"
  then have "length x = length y" "map char_byte x @ r = map char_byte y @ s"
    using counted_same [of "length x" "map char_byte x" r "length y" "map char_byte y" s] by (simp_all only: w_string_eq)
  then show "x = y \<and> r = s" by (metis append_eq_append_conv length_map map_byte_char_char_byte)
qed simp

lemma pid_code: "code w_pid (\<lambda>p. p) (\<lambda>_. True)"
  using code_of [OF string_code, of pid_value] unfolding w_pid_def
  by (rule code_meaning) simp

context code
begin

lemma counted_code: "code (w_counted enc) (map sem) (\<lambda>xs. (\<forall>x \<in> set xs. ok x) \<and> length xs < 4294967296)"
proof
  fix xs ys :: "'a list" and a b r s
  assume ok: "(\<forall>x \<in> set xs. ok x) \<and> length xs < 4294967296" "(\<forall>x \<in> set ys. ok x) \<and> length ys < 4294967296"
    and e: "w_counted enc xs = Inr a" "w_counted enc ys = Inr b" "a @ r = b @ s"
  from e obtain u v where u: "w_each enc xs = Inr u" "a = counted (length xs) u"
    "w_each enc ys = Inr v" "b = counted (length ys) v"
    by (auto simp: w_counted_eq)
  from e(3) have "length xs = length ys \<and> u @ r = v @ s"
    unfolding u(2,4) by (rule counted_same) (use ok in blast)+
  with same_each [OF _ _ _ u(1,3)] ok show "map sem xs = map sem ys \<and> r = s" by blast
next
  fix xs ys assume "(\<forall>x \<in> set xs. ok x) \<and> length xs < 4294967296" "(\<forall>x \<in> set ys. ok x) \<and> length ys < 4294967296"
    "map sem xs = map sem ys"
  then show "w_counted enc xs = w_counted enc ys"
    using each_determined [of xs ys] map_eq_imp_length_eq [of sem xs sem ys] by (simp add: w_counted_def)
qed

text \<open>A vector that is sorted by a key before it is written: only the set of its meanings matters.\<close>

lemma sorted_code:
  assumes "\<And>x. key x = sem_key (sem x)"
  shows "code (\<lambda>xs. w_counted enc (sort_key key xs)) (\<lambda>xs. sem ` set xs)
    (\<lambda>xs. (\<forall>x \<in> set xs. ok x) \<and> distinct (map key xs) \<and> length xs < 4294967296)"
proof -
  let ?P = "\<lambda>xs. (\<forall>x \<in> set xs. ok x) \<and> distinct (map key xs) \<and> length xs < 4294967296"
  have c: "code (\<lambda>xs. w_counted enc (sort_key key xs)) (\<lambda>xs. map sem (sort_key key xs)) ?P"
    by (rule code_weaken [OF code_of [OF counted_code, of "sort_key key"]]) simp
  have e: "map sem (sort_key key xs) = map sem (sort_key key ys) \<longleftrightarrow> sem ` set xs = sem ` set ys"
    if "distinct (map key xs)" "distinct (map key ys)" for xs ys
  proof
    assume "map sem (sort_key key xs) = map sem (sort_key key ys)"
    then have "set (map sem (sort_key key xs)) = set (map sem (sort_key key ys))" by (rule arg_cong)
    then show "sem ` set xs = sem ` set ys" by simp
  next
    assume same: "sem ` set xs = sem ` set ys"
    let ?s = "\<lambda>xs. map sem (sort_key key xs)"
    have keys: "map sem_key (?s xs) = map key (sort_key key xs)" for xs by (simp add: assms)
    have "sorted (map sem_key (?s xs)) \<and> distinct (map sem_key (?s xs))" if "distinct (map key xs)" for xs
      using that unfolding keys by (simp add: distinct_map)
    moreover have "inj_on sem_key (sem ` set xs)"
    proof (rule inj_on_imageI)
      have "sem_key \<circ> sem = key" by (rule ext) (simp add: assms)
      then show "inj_on (sem_key \<circ> sem) (set xs)" using that(1) by (simp add: distinct_map)
    qed
    then have "inj_on sem_key (set (?s xs) \<union> set (?s ys))" by (simp add: same)
    ultimately show "?s xs = ?s ys"
      using that same by (intro map_sorted_distinct_set_unique [of sem_key]) simp_all
  qed
  show ?thesis
  proof (rule code_meaning [OF c])
    fix xs ys assume "?P xs" "?P ys"
    then show "map sem (sort_key key xs) = map sem (sort_key key ys) \<longleftrightarrow> sem ` set xs = sem ` set ys"
      by (intro e) blast+
  qed
qed

end

section \<open>The parts of digests\<close>

lemma atom_codes:
  "code w_u8 (\<lambda>b. b) (\<lambda>_. True)" "code w_id (\<lambda>i. i) (\<lambda>_. True)" "code w_counter (\<lambda>c. c) (\<lambda>_. True)"
  by (rule codec_code, rule u8_codec.byte_codec_axioms id_codec.byte_codec_axioms counter_codec.byte_codec_axioms)+

lemma flag_code: "code w_flag (\<lambda>b. b) (\<lambda>_. True)"
  unfolding w_flag_def by (rule code_meaning [OF code_of [OF atom_codes(1)]]) simp

text \<open>Enumerations are written as their wire values.\<close>

lemma wire_code:
  assumes "\<And>x. from_wire (to_wire x) = Some x"
  shows "code (\<lambda>x. w_u8 (to_wire x)) (\<lambda>x. x) (\<lambda>_. True)"
  by (rule code_meaning [OF code_of [OF atom_codes(1)]]) (metis assms option.inject)

lemmas enum_codes =
  wire_code [OF incarnation_policy_wire_roundtrip] wire_code [OF fence_reason_wire_roundtrip]
  wire_code [OF scope_kind_wire_roundtrip] wire_code [OF transition_cause_wire_roundtrip]

lemmas part_codes =
  atom_codes [THEN code_of] flag_code [THEN code_of] enum_codes [THEN code_of] pid_code [THEN code_of]
  string_code [THEN code_of]

interpretation scope_code: code w_scope "\<lambda>s. s" "\<lambda>_. True"
proof -
  have c: "code w_scope (\<lambda>s. (scope_kind s, scope_subject s)) (\<lambda>_. True \<and> True)"
    unfolding w_scope_def by (intro code_pair code_last part_codes)
  have "code w_scope (\<lambda>s. s) (\<lambda>_. True \<and> True)"
    by (rule code_meaning [OF c]) (auto intro: AuthorityScope.expand)
  then show "code w_scope (\<lambda>s. s) (\<lambda>_. True)" by simp
qed

definition small_scopes :: "ScopeSet \<Rightarrow> bool" where
  "small_scopes s \<longleftrightarrow> length (scopes s) < 4294967296"

interpretation scope_set_code: code encode_scope_set_canonical "\<lambda>s. s" small_scopes
proof -
  have "code (\<lambda>s. w_counted w_scope (scopes s)) (\<lambda>s. map (\<lambda>x. x) (scopes s)) small_scopes"
    by (rule code_weaken [OF code_of [OF scope_code.counted_code, of scopes]]) (simp add: small_scopes_def)
  then show "code encode_scope_set_canonical (\<lambda>s. s) small_scopes"
    unfolding encode_scope_set_canonical_def w_counted_def scope_set_size_def
    by (rule code_meaning) (auto intro: ScopeSet.expand)
qed

section \<open>Hashes\<close>

definition collide :: "byte list \<Rightarrow> byte list \<Rightarrow> bool" where
  "collide a b \<longleftrightarrow> a \<noteq> b \<and> sha256_hash a = sha256_hash b"

lemma semantic_digest_eq: "compute_semantic_digest a = compute_semantic_digest b \<longleftrightarrow> a = b \<or> collide a b"
proof -
  have "compute_semantic_digest a = compute_semantic_digest b \<longleftrightarrow>
      digest_bytes (compute_semantic_digest a) = digest_bytes (compute_semantic_digest b)"
    by (metis digest_from_bytes_bytes)
  then show ?thesis by (auto simp: compute_semantic_digest_def collide_def)
qed

definition digest_written :: "writer \<Rightarrow> SnapshotDigest res" where
  "digest_written w = res_bind w (\<lambda>bs. Inr (compute_semantic_digest bs))"

context code
begin

lemma digests_agree:
  assumes "ok x" "ok y" "digest_written (enc x) = Inr d" "digest_written (enc y) = Inr e"
  shows "d = e \<longleftrightarrow> sem x = sem y \<or> collide (projr (enc x)) (projr (enc y))"
proof -
  obtain a b where "enc x = Inr a" "d = compute_semantic_digest a" "enc y = Inr b" "e = compute_semantic_digest b"
    using assms(3,4) by (auto simp: digest_written_def res_bind_eq_Inr)
  with same_bytes [OF assms(1,2)] semantic_digest_eq [of a b] show ?thesis by simp
qed

end

section \<open>Snapshots\<close>

text \<open>What the digest of a snapshot covers of each record.\<close>

definition view_meaning where
  "view_meaning v =
     (pv_id v, pv_registration_generation v, pv_fence_generation v, pv_incarnation_floor v, pv_policy v,
      pv_retired v, pv_revalidation_required v, pv_active_boot v, pv_active_incarnation v,
      set (pv_active_boots v), pv_scopes v)"

definition fence_meaning where
  "fence_meaning f = (fr_boot f, fr_participant f, fr_reason f, fr_generation f, fr_epoch f, fr_incarnation f)"

definition grant_meaning where
  "grant_meaning g =
     (gv_id g, gv_epoch g, gv_participant g, gv_boot g, gv_generation g, gv_revoked g, gv_delegated g, gv_scopes g)"

definition view_small :: "ParticipantView \<Rightarrow> bool" where
  "view_small v \<longleftrightarrow>
     distinct (pv_active_boots v) \<and> length (pv_active_boots v) < 4294967296 \<and> small_scopes (pv_scopes v)"

interpretation id_code: code w_id "\<lambda>i. i" "\<lambda>_. True"
  by (rule atom_codes(2))

lemma boots_code:
  "code (\<lambda>xs. w_counted w_id (sort xs)) set (\<lambda>xs. distinct xs \<and> length xs < 4294967296)"
  using id_code.sorted_code [of "\<lambda>x. x" "\<lambda>x. x"] by simp

interpretation view_code: code w_view_digest view_meaning view_small
proof -
  have "code w_view_digest view_meaning (\<lambda>v. True \<and> True \<and> True \<and> True \<and> True \<and> True \<and> True \<and> True \<and> True \<and>
      (distinct (pv_active_boots v) \<and> length (pv_active_boots v) < 4294967296) \<and> small_scopes (pv_scopes v))"
    unfolding w_view_digest_def view_meaning_def
    by (intro code_pair code_last part_codes boots_code [THEN code_of] scope_set_code.code_axioms [THEN code_of])
  then show "code w_view_digest view_meaning view_small" by (rule code_weaken) (simp add: view_small_def)
qed

interpretation fence_code: code w_fence_digest fence_meaning "\<lambda>_. True"
proof -
  have "code w_fence_digest fence_meaning (\<lambda>f. True \<and> True \<and> True \<and> True \<and> True \<and> True)"
    unfolding w_fence_digest_def fence_meaning_def by (intro code_pair code_last part_codes)
  then show "code w_fence_digest fence_meaning (\<lambda>_. True)" by simp
qed

interpretation grant_code: code w_grant_digest grant_meaning "\<lambda>g. small_scopes (gv_scopes g)"
proof -
  have "code w_grant_digest grant_meaning (\<lambda>g. True \<and> True \<and> True \<and> True \<and> True \<and> True \<and> True \<and> small_scopes (gv_scopes g))"
    unfolding w_grant_digest_def grant_meaning_def
    by (intro code_pair code_last part_codes scope_set_code.code_axioms [THEN code_of])
  then show "code w_grant_digest grant_meaning (\<lambda>g. small_scopes (gv_scopes g))" by simp
qed

lemma insert_fence_insort: "insert_fence f fs = insort_key fence_less_key f fs"
proof (induction fs)
  case (Cons g fs)
  have "fence_less g f \<longleftrightarrow> \<not> fence_less_key f \<le> fence_less_key g"
    unfolding not_le by (auto simp: fence_less_def fence_less_key_def less_prod_def less_le)
  with Cons show ?case by simp
qed simp

lemma sort_fences_key: "sort_fences = sort_key fence_less_key"
  by (rule ext) (simp add: sort_fences_def sort_key_def insert_fence_insort [abs_def])

definition snapshot_bytes :: "AuthoritySnapshot \<Rightarrow> writer" where
  "snapshot_bytes s =
     w_seq [w_string ''FABRIC-EPOCH-SNAPSHOT-V1'',
       w_counter (sn_epoch s), w_id (sn_coordinator_boot s), w_counter (sn_generation s),
       w_counter (sn_registration_floor s), w_counter (sn_fence_floor s),
       w_counted w_view_digest (sort_key pv_id (sn_participants s)),
       w_counted w_fence_digest (sort_fences (sn_fences s)),
       w_counted w_grant_digest (sort_key gv_id (sn_grants s))]"

lemma compute_snapshot_digest_written: "compute_snapshot_digest s = digest_written (snapshot_bytes s)"
  by (simp add: compute_snapshot_digest_def digest_written_def snapshot_bytes_def)

text \<open>The records as sets: their order and the identifier of the snapshot do not count.\<close>

definition snapshot_meaning where
  "snapshot_meaning s =
     (sn_epoch s, sn_coordinator_boot s, sn_generation s, sn_registration_floor s, sn_fence_floor s,
      view_meaning ` set (sn_participants s), fence_meaning ` set (sn_fences s), grant_meaning ` set (sn_grants s))"

definition keyed :: "AuthoritySnapshot \<Rightarrow> bool" where
  "keyed s \<longleftrightarrow>
     (\<forall>v \<in> set (sn_participants s). view_small v) \<and> distinct (map pv_id (sn_participants s)) \<and>
     length (sn_participants s) < 4294967296 \<and>
     distinct (map fence_less_key (sn_fences s)) \<and> length (sn_fences s) < 4294967296 \<and>
     (\<forall>g \<in> set (sn_grants s). small_scopes (gv_scopes g)) \<and> distinct (map gv_id (sn_grants s)) \<and>
     length (sn_grants s) < 4294967296"

lemmas records_code =
  view_code.sorted_code [of pv_id fst, THEN code_of]
  fence_code.sorted_code [of fence_less_key "\<lambda>(b, p, r, g, e, i). (p, b, g)", folded sort_fences_key, THEN code_of]
  grant_code.sorted_code [of gv_id fst, THEN code_of]

interpretation snapshot_code: code snapshot_bytes snapshot_meaning keyed
proof -
  let ?participants = "\<lambda>s. (\<forall>v \<in> set (sn_participants s). view_small v) \<and>
    distinct (map pv_id (sn_participants s)) \<and> length (sn_participants s) < 4294967296"
  let ?fences = "\<lambda>s. (\<forall>f \<in> set (sn_fences s). True) \<and>
    distinct (map fence_less_key (sn_fences s)) \<and> length (sn_fences s) < 4294967296"
  let ?grants = "\<lambda>s. (\<forall>g \<in> set (sn_grants s). small_scopes (gv_scopes g)) \<and>
    distinct (map gv_id (sn_grants s)) \<and> length (sn_grants s) < 4294967296"
  have "code snapshot_bytes snapshot_meaning
      (\<lambda>s. True \<and> True \<and> True \<and> True \<and> True \<and> ?participants s \<and> ?fences s \<and> ?grants s)"
    unfolding snapshot_bytes_def snapshot_meaning_def
    by (intro code_constant code_pair code_last part_codes records_code)
      (simp_all add: view_meaning_def fence_meaning_def grant_meaning_def fence_less_key_def)
  then show "code snapshot_bytes snapshot_meaning keyed" by (rule code_weaken) (simp add: keyed_def)
qed

section \<open>Snapshots of a running coordinator\<close>

text \<open>A saved state has been written, so that what it contains is shorter than what can be written.\<close>

lemma w_seq_part:
  assumes "w_seq ws = Inr bs" "w \<in> set ws"
  shows "\<exists>a. w = Inr a \<and> length a \<le> length bs"
  using assms
proof (induction ws arbitrary: bs)
  case (Cons v ws)
  then obtain a b where "v = Inr a" "w_seq ws = Inr b" "bs = a @ b" by (auto simp: w_seq_Cons_eq)
  with Cons show ?case by (cases "w = v") fastforce+
qed simp

lemma w_counted_part:
  assumes "w_counted enc xs = Inr bs" "x \<in> set xs"
  shows "\<exists>a. enc x = Inr a \<and> length a \<le> length bs"
proof -
  obtain b where b: "w_seq (map enc xs) = Inr b" "length b \<le> length bs"
    using assms(1) by (auto simp: w_counted_eq w_each_def)
  with w_seq_part [OF b(1), of "enc x"] assms(2) show ?thesis by force
qed

lemma w_each_length:
  "w_each enc xs = Inr bs \<Longrightarrow> \<forall>x a. enc x = Inr a \<longrightarrow> a \<noteq> [] \<Longrightarrow> length xs \<le> length bs"
proof (induction xs arbitrary: bs)
  case (Cons x xs)
  then obtain a b where "enc x = Inr a" "w_each enc xs = Inr b" "bs = a @ b" by (auto simp: w_each_def w_seq_Cons_eq)
  with Cons show ?case by (cases a) fastforce+
qed simp

lemma scopes_length:
  assumes "encode_scope_set_canonical s = Inr bs"
  shows "length (scopes s) \<le> length bs"
proof -
  have "a \<noteq> []" if "w_scope x = Inr a" for x a
    using that by (auto simp: w_scope_def w_seq_Cons_eq w_u8_def)
  with assms w_each_length [of w_scope "scopes s"] show ?thesis
    by (fastforce simp: encode_scope_set_canonical_def w_seq_Cons_eq w_seq_last)
qed

lemma saved_scopes_small:
  assumes "store_encode st = Inr img" "p \<in> set (st_participants st)"
  shows "small_scopes (dp_scopes p)"
proof -
  obtain bs where bs: "encode_durable_payload st = Inr bs" "length bs < 4294967296"
    using assms(1) by (auto simp: store_encode_def res_bind_eq_Inr split: if_splits)
  obtain c where c: "w_counted w_participant (st_participants st) = Inr c" "length c \<le> length bs"
    using w_seq_part [OF bs(1) [unfolded encode_durable_payload_def], of "w_counted w_participant (st_participants st)"]
    by auto
  obtain d where d: "w_participant p = Inr d" "length d \<le> length c"
    using w_counted_part [OF c(1) assms(2)] by blast
  obtain e where "encode_scope_set_canonical (dp_scopes p) = Inr e" "length e \<le> length d"
    using w_seq_part [OF d(1) [unfolded w_participant_def], of "encode_scope_set_canonical (dp_scopes p)"] by auto
  with scopes_length bs(2) c(2) d(2) show ?thesis by (fastforce simp: small_scopes_def)
qed

lemma to_view_small:
  assumes "running_ok s" "saved s" "p \<in> set (st_participants (im_state s))"
  shows "view_small (to_view p)"
proof -
  have "small_scopes (dp_scopes p)"
    using assms(2,3) saved_scopes_small by (auto simp: saved_def)
  moreover have "distinct (participant_boots p)" "length (participant_boots p) \<le> kAbsoluteMaxRecords"
    using wf_participant [OF assms(1,3)] by (auto simp: participant_wf_def)
  ultimately show ?thesis
    by (auto simp: view_small_def to_view_def participant_boots_def kAbsoluteMaxRecords_def split: if_splits)
qed

lemma distinct_sort_keys: "distinct (map key (sort_key key xs)) \<longleftrightarrow> distinct (map key xs)"
  by (simp add: distinct_map)

lemma snapshot_keyed:
  assumes "running_ok s" "saved s" "build_snapshot env s = Inr a"
  shows "keyed a" "digest_written (snapshot_bytes a) = Inr (sn_digest a)"
proof -
  let ?st = "im_state s"
  obtain i d where a: "a = \<lparr> sn_id = i, sn_epoch = st_current_epoch ?st, sn_coordinator_boot = st_coordinator_boot ?st,
      sn_generation = st_generation ?st, sn_registration_floor = st_registration_floor ?st,
      sn_fence_floor = st_fence_floor ?st, sn_participants = sort_key pv_id (map to_view (st_participants ?st)),
      sn_fences = sort_fences (st_recent_fences ?st), sn_grants = sort_key gv_id (map grant_view (st_grants ?st)),
      sn_digest = d \<rparr>" "compute_snapshot_digest (a\<lparr> sn_digest := SnapshotDigest 0 \<rparr>) = Inr d"
    using assms(3) by (auto simp: build_snapshot_def res_bind_eq_Inr Let_def)
  note wf = running_ok_wf [OF assms(1)]
  have "digest_written (snapshot_bytes (a\<lparr> sn_digest := SnapshotDigest 0 \<rparr>)) = Inr d"
    using a(2) by (simp add: compute_snapshot_digest_written)
  then show "digest_written (snapshot_bytes a) = Inr (sn_digest a)" by (simp add: a(1) snapshot_bytes_def)
  have "distinct (map pv_id (map to_view (st_participants ?st)))" "distinct (map gv_id (map grant_view (st_grants ?st)))"
    using wf(1) by (simp_all add: records_wf_iff to_view_def grant_view_def comp_def)
  moreover have "distinct (map fence_less_key (st_recent_fences ?st))"
    using wf(1) by (auto simp: records_wf_iff distinct_map inj_on_def fence_less_key_def)
  ultimately have keys: "distinct (map pv_id (sn_participants a))" "distinct (map gv_id (sn_grants a))"
    "distinct (map fence_less_key (sn_fences a))"
    by (simp_all add: a(1) sort_fences_key distinct_sort_keys del: map_map)
  have "\<forall>v \<in> set (sn_participants a). view_small v"
    using to_view_small [OF assms(1,2)] by (auto simp: a(1))
  moreover have "\<forall>g \<in> set (sn_grants a). small_scopes (gv_scopes g)"
    using wf(1) by (auto simp: a(1) records_wf_iff grant_wf_def small_scopes_def grant_view_def kAbsoluteMaxScopesPerSet_def)
  moreover have "length (sn_participants a) < 4294967296" "length (sn_fences a) < 4294967296"
    "length (sn_grants a) < 4294967296"
    using wf(2) by (simp_all add: a(1) sort_fences_key within_ceilings_def kAbsoluteMaxRecords_def)
  ultimately show "keyed a" using keys by (simp add: keyed_def)
qed

lemma permuted_snapshot_digest:
  assumes "running_ok s" "saved s" "build_snapshot env s = Inr a" "keyed b" "snapshot_meaning b = snapshot_meaning a"
  shows "compute_snapshot_digest b = Inr (sn_digest a)"
  using snapshot_keyed [OF assms(1-3)] snapshot_code.determined [OF assms(4) _ assms(5)]
  by (simp add: compute_snapshot_digest_written)

text \<open>Of the additional incarnations of a participant a view has the boots only: their numbers are not covered.\<close>

lemma extra_numbers_not_covered:
  "map ai_boot xs = map ai_boot ys \<Longrightarrow>
     to_view (p\<lparr> dp_extra_incarnations := xs \<rparr>) = to_view (p\<lparr> dp_extra_incarnations := ys \<rparr>)"
  by (simp add: to_view_def)

text \<open>
  C23. Two snapshots, of the same or of different coordinators whose records are saved, have the same digest exactly when they
  agree on what the digest covers, or their canonical texts are different and have the same hash. It covers epoch, boot,
  generation and floors, and, in any order: of every participant its identifier, generations, floor, policy, status, active boot
  and incarnation, scopes and the boots (not the numbers) of its additional incarnations; of every fence all but the note; of
  every grant its identifier, epoch, participant, boot (not the incarnation), generation and scopes, and whether it is
  revoked or delegated (\<open>view_meaning\<close>, \<open>fence_meaning\<close>, \<open>grant_meaning\<close>).
\<close>

theorem snapshots_agree_iff:
  assumes "running_ok s" "saved s" "running_ok t" "saved t"
    and "build_snapshot env s = Inr a" "build_snapshot env' t = Inr b"
  shows "sn_digest a = sn_digest b \<longleftrightarrow>
    snapshot_meaning a = snapshot_meaning b \<or> collide (projr (snapshot_bytes a)) (projr (snapshot_bytes b))"
  using snapshot_keyed [OF assms(1,2,5)] snapshot_keyed [OF assms(3,4,6)]
  by (intro snapshot_code.digests_agree)

lemma demo_snapshot:
  assumes "at_state s state4" "en_snapshot env = Inr i"
  shows "\<exists>a. build_snapshot env s = Inr a \<and> sn_id a = i"
proof -
  have "writes (snapshot_bytes \<lparr> sn_id = i, sn_epoch = st_current_epoch state4,
      sn_coordinator_boot = st_coordinator_boot state4, sn_generation = st_generation state4,
      sn_registration_floor = st_registration_floor state4, sn_fence_floor = st_fence_floor state4,
      sn_participants = sort_key pv_id (map to_view (st_participants state4)),
      sn_fences = sort_fences (st_recent_fences state4), sn_grants = sort_key gv_id (map grant_view (st_grants state4)),
      sn_digest = SnapshotDigest 0 \<rparr>) 1000"
    unfolding state4_defs snapshot_bytes_def payload_defs w_view_digest_def w_fence_digest_def w_grant_digest_def
      to_view_def grant_view_def w_flag_def sort_fences_def
    by (rule writes_mono, simp del: w_seq.simps, (rule writes_rules | simp)+)
  then show ?thesis
    using assms at_stateD(2) [OF assms(1)]
    by (auto simp: build_snapshot_def Let_def res_bind_eq_Inr compute_snapshot_digest_written digest_written_def writes_def)
qed

theorem snapshots_agree_iff_witness:
  "\<exists>s a b. running_ok s \<and> build_snapshot demo_env s = Inr a \<and>
     build_snapshot (demo_env\<lparr> en_snapshot := Inr (Fixed128Id 41) \<rparr>) s = Inr b \<and> sn_id a \<noteq> sn_id b \<and>
     sn_digest a = sn_digest b"
proof -
  let ?env = "demo_env\<lparr> en_snapshot := Inr (Fixed128Id 41) \<rparr>"
  obtain s where s: "at_state s state4" using grant_demo demo_born by metis
  obtain a b where ab: "build_snapshot demo_env s = Inr a" "sn_id a = Fixed128Id 40" "build_snapshot ?env s = Inr b"
    "sn_id b = Fixed128Id 41"
    using demo_snapshot [OF s, of demo_env] demo_snapshot [OF s, of ?env] by auto
  then have "snapshot_meaning a = snapshot_meaning b"
    by (auto simp: build_snapshot_def Let_def res_bind_eq_Inr snapshot_meaning_def)
  with snapshots_agree_iff [OF at_stateD(1,4) [OF s] at_stateD(1,4) [OF s] ab(1,3)]
  have "sn_digest a = sn_digest b" by simp
  with ab at_stateD(1) [OF s] show ?thesis by (intro exI [of _ s] exI [of _ a] exI [of _ b]) simp
qed

section \<open>Attempts\<close>

text \<open>The digest of a registration covers the participant, the boot, the policy and the scopes.\<close>

definition registration_bytes :: "RegisterParticipantRequest \<Rightarrow> writer" where
  "registration_bytes r =
     w_seq [w_u8 (operation_kind_wire OperationKind.RegisterParticipant),
       w_pid (rp_participant r), w_id (rp_boot r), w_u8 (incarnation_policy_wire (rp_policy r)),
       encode_scope_set_canonical (rp_scopes r)]"

definition registration_meaning where
  "registration_meaning r = (rp_participant r, rp_boot r, rp_policy r, rp_scopes r)"

lemma register_digest_written: "register_digest r = digest_written (registration_bytes r)"
  by (simp add: register_digest_def digest_of_def digest_written_def registration_bytes_def)

interpretation registration_code: code registration_bytes registration_meaning "\<lambda>r. small_scopes (rp_scopes r)"
proof -
  have "code registration_bytes registration_meaning (\<lambda>r. True \<and> True \<and> True \<and> small_scopes (rp_scopes r))"
    unfolding registration_bytes_def registration_meaning_def
    by (intro code_constant code_pair code_last part_codes scope_set_code.code_axioms [THEN code_of])
  then show "code registration_bytes registration_meaning (\<lambda>r. small_scopes (rp_scopes r))" by simp
qed

lemma screened_scopes:
  "registration_screen s request = None \<Longrightarrow> max_scopes_per_grant (op_limits (im_options s)) < 4294967296 \<Longrightarrow>
     small_scopes (rp_scopes request)"
  by (auto simp: registration_screen_def registration_shape_def small_scopes_def scope_set_size_def
      split: if_splits option.splits)

text \<open>A body that ends without having changed anything leaves everything as it was.\<close>

lemma run_tx_untouched: "body (begin_tx s) = (r, begin_tx s) \<Longrightarrow> run_tx io body s = (r, s)"
  by (cases r)
    (simp_all add: run_tx_def tx_bind_def persist_if_mutated_def tx_basic begin_tx_def end_tx_def undo_rollback_def)

lemma screen_refuses: "registration_screen s request = Some r \<Longrightarrow> rr_outcome r \<noteq> RegistrationOutcome.Registered"
  by (auto simp: registration_screen_def registration_shape_def registration_scopes_def registration_epoch_def
      registration_known_def registration_result_def registration_malformed_def Let_def
      split: if_splits option.splits)


text \<open>
  C18. An attempt of a participant stands for one request: directly after a registration has been accepted, any request for the
  same participant under the same attempt changes nothing, and it is answered as registered only when it asks for the same
  boot, policy and scopes, or its canonical text is different and has the same hash. (The records of attempts are kept
  per participant, so that another participant may use the same attempt.)
\<close>

theorem attempt_stands_for_one_request:
  assumes "running_ok s" "max_scopes_per_grant (op_limits (im_options s)) < 4294967296"
    and "register_participant io request s = (Inr r, s')"
    and "rr_outcome r = RegistrationOutcome.Registered" "\<not> rr_replayed r"
    and "rp_participant other = rp_participant request" "rp_attempt other = rp_attempt request"
  shows "\<exists>x. register_participant io' other s' = (x, s') \<and>
    (\<forall>q. x = Inr q \<longrightarrow> rr_outcome q = RegistrationOutcome.Registered \<longrightarrow>
       registration_meaning other = registration_meaning request \<or>
       collide (projr (registration_bytes other)) (projr (registration_bytes request)))"
proof -
  have ok: "running_ok s'" using register_participant_effect [OF assms(1,3-5)] by blast
  note kept = register_participant_remembers [OF assms(1,3-5)]
  obtain q digest g n where q: "q \<in> set (im_participants s')" "dp_id q = rp_participant request"
    "register_digest request = Inr digest" "registration_record request digest g n \<in> set (dp_idempotency q)"
    using kept(1) by (auto simp: remembered_def)
  obtain i where i: "find_participant s' (rp_participant other) = Some i" "participant_at s' i = q"
    using find_participant_unique [OF ok q(1)] q(2) assms(6) by metis
  have "distinct (map ir_attempt (dp_idempotency q))"
    using wf_saved [OF ok kept(4) q(1)] by (simp add: participant_wf_def)
  then have found: "find_attempt (dp_idempotency q) (rp_attempt other) = Some (registration_record request digest g n)"
    using find_attempt_distinct [OF _ q(4)] assms(7) by (simp add: registration_record_def)
  define x where "x = (case registration_screen s' other of Some r \<Rightarrow> Inr r
    | None \<Rightarrow> res_bind (register_digest other)
        (\<lambda>d. Inr (registration_replay (im_state s') other d (registration_record request digest g n))))"
  have "apply_registration other True (begin_tx s') = (x, begin_tx s')"
    using i found
    by (auto simp: x_def apply_registration_def tx_simps begin_tx_def registration_decision_def Let_def res_bind_def
        split: option.split sum.split)
  then have "register_participant io' other s' = (x, s')"
    unfolding register_participant_def by (rule run_tx_untouched)
  moreover have "registration_meaning other = registration_meaning request \<or>
      collide (projr (registration_bytes other)) (projr (registration_bytes request))"
    if "x = Inr y" "rr_outcome y = RegistrationOutcome.Registered" for y
  proof -
    have screen: "registration_screen s' other = None"
      using that screen_refuses [of s' other] by (cases "registration_screen s' other") (auto simp: x_def)
    then have "res_bind (register_digest other)
        (\<lambda>d. Inr (registration_replay (im_state s') other d (registration_record request digest g n))) = Inr y"
      using that(1) by (simp add: x_def)
    then obtain d where d: "register_digest other = Inr d"
      "registration_replay (im_state s') other d (registration_record request digest g n) = y"
      unfolding res_bind_eq_Inr by blast
    from that(2) have "d = digest"
      unfolding d(2) [symmetric] by (auto simp: registration_replay_def registration_record_def registration_result_def split: if_splits)
    moreover have "small_scopes (rp_scopes request)" "small_scopes (rp_scopes other)"
      using screened_scopes kept(2,3) screen assms(2) by (metis (no_types))+
    ultimately show ?thesis
      using registration_code.digests_agree [of other request d digest] d(1) q(3)
      by (simp add: register_digest_written)
  qed
  ultimately show ?thesis by blast
qed

theorem attempt_stands_for_one_request_witness:
  "\<exists>s r s' x. register_participant io_ok register_request s = (Inr r, s') \<and>
     register_participant io_ok (register_request\<lparr> rp_boot := Fixed128Id 11 \<rparr>) s' = (x, s') \<and>
     (\<forall>q. x = Inr q \<longrightarrow> rr_outcome q = RegistrationOutcome.Registered \<longrightarrow>
        collide (projr (registration_bytes (register_request\<lparr> rp_boot := Fixed128Id 11 \<rparr>)))
          (projr (registration_bytes register_request)))"
proof -
  let ?other = "register_request\<lparr> rp_boot := Fixed128Id 11 \<rparr>"
  obtain s1 s2 r where s: "at_state s1 state1" "register_participant io_ok register_request s1 = (Inr r, s2)"
      "rr_outcome r = RegistrationOutcome.Registered" "\<not> rr_replayed r" "at_state s2 state2"
    by (rule demo_born)
  have "im_options s1 = demo_options" using s(1) by (simp add: at_state_def)
  then have limit: "max_scopes_per_grant (op_limits (im_options s1)) < 4294967296" by simp
  have other: "registration_meaning ?other \<noteq> registration_meaning register_request"
    by (simp add: registration_meaning_def register_request_def)
  from attempt_stands_for_one_request [OF at_stateD(1) [OF s(1)] limit s(2-4), of ?other io_ok] other s(2)
  show ?thesis by auto
qed

end
