(* ===== verification/Acceptance.thy ===== *)
theory Acceptance
  imports Digests
begin

text \<open>
  When a registration is accepted. The checks of \<open>apply_registration\<close> and the persistence barrier together decide a condition
  on the records, \<open>admissible\<close>: nothing else refuses a registration, and the barrier, which validates and encodes the whole
  state, never refuses what the checks have let through, as long as the store works and has room.
\<close>

section \<open>The order of the participants\<close>

lemma mset_concat_map: "mset xs = mset ys \<Longrightarrow> mset (concat (map f xs)) = mset (concat (map f ys))"
  by (simp add: mset_concat sum_mset_sum_list [symmetric] flip: mset_map) (simp add: comp_def)

lemma sum_list_permuted: "mset xs = mset ys \<Longrightarrow> sum_list (map (f :: _ \<Rightarrow> nat) xs) = sum_list (map f ys)"
  by (metis mset_map sum_mset_sum_list)

lemma participant_wf_same:
  "participant_wf (st\<lparr> st_participants := ps \<rparr>) p \<longleftrightarrow> participant_wf st p"
  "grant_wf (st\<lparr> st_participants := ps \<rparr>) g \<longleftrightarrow> grant_wf st g"
  by (simp_all add: participant_wf_def grant_wf_def)

lemma valid_permuted:
  assumes "mset ps = mset (st_participants st)" "durable_wf st" "within_ceilings st"
  shows "durable_wf (st\<lparr> st_participants := ps \<rparr>)" "within_ceilings (st\<lparr> st_participants := ps \<rparr>)"
proof -
  have d: "distinct (map dp_id ps)" "distinct (concat (map participant_boots ps))"
    using assms(2) mset_eq_imp_distinct_iff [of "map dp_id ps" "map dp_id (st_participants st)"]
      mset_eq_imp_distinct_iff [OF mset_concat_map [OF assms(1), of participant_boots]] assms(1)
    by (simp_all add: durable_wf_def)
  moreover have "set ps = set (st_participants st)" "length ps = length (st_participants st)"
    using assms(1) mset_eq_setD mset_eq_length by blast+
  ultimately show "durable_wf (st\<lparr> st_participants := ps \<rparr>)" "within_ceilings (st\<lparr> st_participants := ps \<rparr>)"
    using assms(2,3) by (simp_all add: durable_wf_def within_ceilings_def participant_wf_same)
qed

section \<open>Sizes\<close>

lemma w_seq_all: "(\<exists>bs. w_seq ws = Inr bs) \<longleftrightarrow> (\<forall>w \<in> set ws. \<exists>a. w = Inr a)"
  by (induction ws) (auto simp: w_seq_Cons_eq w_seq.simps(1))

lemma w_seq_length: "w_seq ws = Inr bs \<Longrightarrow> length bs = sum_list (map (\<lambda>w. length (projr w)) ws)"
  by (induction ws arbitrary: bs) (auto simp: w_seq_Cons_eq w_seq.simps(1))

lemma w_counted_ok:
  assumes "\<forall>x \<in> set xs. \<exists>a. enc x = Inr a"
  obtains bs where "w_counted enc xs = Inr bs" "length bs = 4 + sum_list (map (\<lambda>x. length (projr (enc x))) xs)"
proof -
  obtain b where b: "w_seq (map enc xs) = Inr b" using assms w_seq_all [of "map enc xs"] by auto
  show thesis
    by (rule that [of "counted (length xs) b"])
      (use b w_seq_length [OF b] in \<open>simp_all add: w_counted_eq w_each_def w_u32_def comp_def\<close>)
qed

definition record_size :: "DurableParticipant \<Rightarrow> nat" where
  "record_size p = length (projr (w_participant p))"

lemma saved_records_written:
  assumes "encode_durable_payload st = Inr bs"
  shows "\<forall>p \<in> set (st_participants st). \<exists>a. w_participant p = Inr a"
  using w_seq_part [OF assms [unfolded encode_durable_payload_def], of "w_counted w_participant (st_participants st)"]
    w_counted_part [of w_participant "st_participants st"] by fastforce

lemma saved_fences_written:
  assumes "encode_durable_payload st = Inr bs"
  shows "\<forall>f \<in> set (st_recent_fences st). \<exists>a. w_fence f = Inr a"
  using w_seq_part [OF assms [unfolded encode_durable_payload_def], of "w_counted w_fence (st_recent_fences st)"]
    w_counted_part [of w_fence "st_recent_fences st"] by fastforce

definition fence_size :: "FenceRecord \<Rightarrow> nat" where
  "fence_size f = length (projr (w_fence f))"

lemma encode_with_records:
  assumes "encode_durable_payload st = Inr bs"
    and "\<forall>p \<in> set (st_participants st'). \<exists>a. w_participant p = Inr a" "\<forall>f \<in> set (st_recent_fences st'). \<exists>a. w_fence f = Inr a"
    and "st_grants st' = st_grants st" "st_transitions st' = st_transitions st" "st_control_attempts st' = st_control_attempts st"
  shows "\<exists>bs'. encode_durable_payload st' = Inr bs' \<and>
    length bs' + sum_list (map record_size (st_participants st)) + sum_list (map fence_size (st_recent_fences st)) =
    length bs + sum_list (map record_size (st_participants st')) + sum_list (map fence_size (st_recent_fences st'))"
proof -
  obtain c where c: "w_counted w_participant (st_participants st) = Inr c"
    "length c = 4 + sum_list (map record_size (st_participants st))"
    by (rule w_counted_ok [OF saved_records_written [OF assms(1)]]) (simp add: record_size_def [abs_def])
  obtain d where d: "w_counted w_fence (st_recent_fences st) = Inr d"
    "length d = 4 + sum_list (map fence_size (st_recent_fences st))"
    by (rule w_counted_ok [OF saved_fences_written [OF assms(1)]]) (simp add: fence_size_def [abs_def])
  obtain c' where c': "w_counted w_participant (st_participants st') = Inr c'"
    "length c' = 4 + sum_list (map record_size (st_participants st'))"
    by (rule w_counted_ok [OF assms(2)]) (simp add: record_size_def [abs_def])
  obtain d' where d': "w_counted w_fence (st_recent_fences st') = Inr d'"
    "length d' = 4 + sum_list (map fence_size (st_recent_fences st'))"
    by (rule w_counted_ok [OF assms(3)]) (simp add: fence_size_def [abs_def])
  have "\<forall>w \<in> {w_counted w_grant (st_grants st), w_counted w_transition (st_transitions st),
      w_counted w_idempotency (st_control_attempts st)}. \<exists>a. w = Inr a"
    using w_seq_all [THEN iffD1, OF exI, OF assms(1) [unfolded encode_durable_payload_def]] by auto
  then have "\<exists>bs'. encode_durable_payload st' = Inr bs'"
    unfolding encode_durable_payload_def w_seq_all using c'(1) d'(1) assms(4-6)
    by (auto simp: w_counter_def w_u64_def w_id_def w_fixed16_def w_raw_def)
  then obtain bs' where bs': "encode_durable_payload st' = Inr bs'" by blast
  show ?thesis
    using w_seq_length [OF bs' [unfolded encode_durable_payload_def]]
      w_seq_length [OF assms(1) [unfolded encode_durable_payload_def]] c c' d d' bs' assms(4-6)
    by (simp add: w_counter_def w_u64_def w_id_def w_fixed16_def w_raw_def id_bytes_def)
qed

lemma participant_written:
  "(\<exists>a. w_participant p = Inr a) \<longleftrightarrow> (\<exists>a. w_pid (dp_id p) = Inr a) \<and> (\<exists>a. encode_scope_set_canonical (dp_scopes p) = Inr a)"
proof -
  have oks: "\<exists>a. w_counted w_incarnation is = Inr a" "\<exists>a. w_counted w_id bs = Inr a" "\<exists>a. w_counted w_idempotency rs = Inr a"
    for "is" bs rs
    using counted_oks by (metis isl_def sum.exhaust)+
  show ?thesis
    unfolding w_participant_def w_seq_all using oks
    by (auto simp: w_counter_def w_u64_def w_u8_def w_id_def w_fixed16_def w_raw_def)
qed

lemma counted_sizes:
  "length (projr (w_counted w_incarnation is)) = 4 + 32 * length is"
  "length (projr (w_counted w_id bs)) = 4 + 16 * length bs"
  "length (projr (w_counted w_idempotency rs)) = 4 + 83 * length rs"
proof -
  have c: "length (projr (w_counted enc xs)) = 4 + n * length xs"
    if n: "\<And>x. length (projr (enc x)) = n" and ok: "\<not> isl (w_counted enc xs)" for enc :: "'x \<Rightarrow> writer" and n xs
  proof -
    obtain bs where bs: "w_counted enc xs = Inr bs" using ok by (cases "w_counted enc xs") auto
    then obtain b where b: "w_seq (map enc xs) = Inr b" "bs = counted (length xs) b"
      by (auto simp: w_counted_eq w_each_def)
    then show ?thesis
      using w_seq_length [OF b(1)] n bs by (simp add: w_u32_def comp_def sum_list_triv)
  qed
  show "length (projr (w_counted w_incarnation is)) = 4 + 32 * length is"
    "length (projr (w_counted w_id bs)) = 4 + 16 * length bs"
    "length (projr (w_counted w_idempotency rs)) = 4 + 83 * length rs"
    by (rule c; simp add: length_w_incarnation length_w_id length_w_idempotency counted_oks)+
qed

lemma record_size_parts:
  assumes "w_participant p = Inr a"
  shows "record_size p = length (projr (w_pid (dp_id p))) + length (projr (encode_scope_set_canonical (dp_scopes p))) +
    32 * length (dp_extra_incarnations p) + 16 * length (dp_fenced_boots p) + 83 * length (dp_idempotency p) + 86"
  using w_seq_length [OF assms [unfolded w_participant_def]] assms
  by (simp add: record_size_def counted_sizes w_counter_def w_u64_def w_u8_def w_id_def w_fixed16_def w_raw_def id_bytes_def)

section \<open>The record that a registration leaves\<close>

definition issued_record ::
  "EpochRuntimeOptions \<Rightarrow> RegisterParticipantRequest \<Rightarrow> SnapshotDigest \<Rightarrow> RegistrationGeneration \<Rightarrow> IncarnationSequence \<Rightarrow>
   DurableParticipant \<Rightarrow> DurableParticipant"
where
  "issued_record opts request digest g next p =
     (issue_incarnation request g (dp_next_incarnation p) next p)
       \<lparr> dp_idempotency := remember_attempt (op_limits opts) (registration_record request digest g (dp_next_incarnation p))
           (dp_idempotency p) \<rparr>"

lemma issued_record_fields:
  "dp_id (issued_record opts request digest g n p) = dp_id p"
  "dp_scopes (issued_record opts request digest g n p) = rp_scopes request"
  "dp_registration_generation (issued_record opts request digest g n p) = g"
  "dp_fence_generation (issued_record opts request digest g n p) = dp_fence_generation p"
  "dp_incarnation_floor (issued_record opts request digest g n p) = dp_incarnation_floor p"
  "dp_next_incarnation (issued_record opts request digest g n p) = n"
  "dp_fenced_boots (issued_record opts request digest g n p) = dp_fenced_boots p"
  "\<not> dp_retired (issued_record opts request digest g n p)"
  "dp_idempotency (issued_record opts request digest g n p) =
     remember_attempt (op_limits opts) (registration_record request digest g (dp_next_incarnation p)) (dp_idempotency p)"
  "mset (participant_boots (issued_record opts request digest g n p)) = add_mset (rp_boot request) (mset (participant_boots p))"
  by (simp_all add: issued_record_def issue_incarnation_def Let_def participant_boots_def)

lemma issued_record_size:
  assumes "w_participant (issued_record opts request digest g n p) = Inr a" "registration_bytes request = Inr bs"
  shows "dp_id p = rp_participant request \<Longrightarrow> dp_fenced_boots p = [] \<Longrightarrow> dp_idempotency p = [] \<Longrightarrow> dp_extra_incarnations p = [] \<Longrightarrow>
      record_size (issued_record opts request digest g n p) \<le> length bs + 200"
    and "w_participant p = Inr b \<Longrightarrow>
      record_size (issued_record opts request digest g n p) \<le> record_size p + length bs + 200"
proof -
  let ?q = "issued_record opts request digest g n p"
  have bs: "length bs = 18 + length (projr (w_pid (rp_participant request))) +
      length (projr (encode_scope_set_canonical (rp_scopes request)))"
    using w_seq_length [OF assms(2) [unfolded registration_bytes_def]]
    by (simp add: w_u8_def w_id_def w_fixed16_def w_raw_def id_bytes_def)
  have extra: "length (dp_extra_incarnations ?q) \<le> length (dp_extra_incarnations p) + 1"
    by (simp add: issued_record_def issue_incarnation_def Let_def)
  have idem: "length (dp_idempotency ?q) \<le> length (dp_idempotency p) + 1"
    by (simp add: issued_record_fields remember_attempt_def push_bounded_def)
  note size = record_size_parts [OF assms(1)] issued_record_fields(1,2,7)
  show "record_size ?q \<le> length bs + 200"
    if "dp_id p = rp_participant request" "dp_fenced_boots p = []" "dp_idempotency p = []" "dp_extra_incarnations p = []"
    using extra idem that by (simp add: size bs)
  show "record_size ?q \<le> record_size p + length bs + 200" if "w_participant p = Inr b"
    using extra idem by (simp add: size bs record_size_parts [OF that])
qed

lemma counter_next_less: "counter_next c = Some n \<Longrightarrow> c < n"
  by (auto simp: counter_next_eq_Some counter_less_iff)

lemma fresh_participant_wf: "rp_participant request \<noteq> ParticipantId [] \<Longrightarrow> participant_wf st (fresh_participant request)"
  by (auto simp: participant_wf_def fresh_participant_def participant_boots_def pid_empty_def counter_less_iff counter_nat_def
      less_eq_MonotonicCounter_def kAbsoluteMaxRecords_def intro: ParticipantId.expand)

lemma issued_record_wf:
  assumes "participant_wf st p" "counter_next (st_registration_floor st) = Some g"
    and "counter_next (dp_next_incarnation p) = Some n"
    and "rp_boot request \<noteq> id_nil" "rp_boot request \<notin> set (participant_boots p)" "rp_boot request \<notin> set (dp_fenced_boots p)"
    and "rp_attempt request \<noteq> id_nil" "rp_attempt request \<notin> ir_attempt ` set (dp_idempotency p)"
    and "length (participant_boots p) < kAbsoluteMaxRecords"
    and "max_idempotency_records_per_participant (op_limits opts) \<le> kAbsoluteMaxRecords"
  shows "participant_wf (st\<lparr> st_generation := gen, st_registration_floor := g \<rparr>)
    (issued_record opts request digest g n p)"
proof -
  let ?q = "issued_record opts request digest g n p"
  have boots: "mset (participant_boots ?q) = add_mset (rp_boot request) (mset (participant_boots p))"
    by (rule issued_record_fields)
  then have set_boots: "set (participant_boots ?q) = insert (rp_boot request) (set (participant_boots p))"
    by (metis set_mset_add_mset_insert set_mset_mset)
  have m: "mset (participant_boots ?q) = mset (rp_boot request # participant_boots p)" using boots by simp
  have "distinct (participant_boots p)" using assms(1) by (simp add: participant_wf_def)
  then have "distinct (participant_boots ?q)" "length (participant_boots ?q) = Suc (length (participant_boots p))"
    using mset_eq_imp_distinct_iff [OF m] mset_eq_length [OF m] assms(5) by simp_all
  moreover have "length (dp_idempotency ?q) \<le> kAbsoluteMaxRecords"
    using assms(1,10) by (auto simp: issued_record_fields remember_attempt_def push_bounded_def participant_wf_def kAbsoluteMaxRecords_def)
  moreover have "distinct (map ir_attempt (dp_idempotency ?q))"
    using assms(1,8) by (auto simp: issued_record_fields remember_attempt_def participant_wf_def registration_record_def
        intro!: distinct_map_push_bounded)
  moreover have "id_nil \<notin> ir_attempt ` set (dp_idempotency ?q)"
    using assms(1,7) by (auto simp: issued_record_fields remember_attempt_def participant_wf_def registration_record_def
        dest!: in_push_boundedD)
  moreover have "dp_incarnation_floor p < n"
    using assms(1) counter_next_less [OF assms(3)] by (auto simp: participant_wf_def)
  moreover have "dp_has_active_boot ?q \<longrightarrow> dp_active_incarnation ?q < n"
    using assms(1) counter_next_less [OF assms(3)]
    by (auto simp: issued_record_def issue_incarnation_def Let_def participant_wf_def)
  moreover have "\<forall>i \<in> set (dp_extra_incarnations ?q). ai_sequence i < n \<and> ai_boot i \<noteq> dp_active_boot ?q"
  proof -
    have less: "dp_next_incarnation p < n" by (rule counter_next_less [OF assms(3)])
    have e: "\<forall>i \<in> set (dp_extra_incarnations p). ai_sequence i < n \<and> ai_boot i \<noteq> dp_active_boot p \<and> ai_boot i \<noteq> rp_boot request"
    proof
      fix i assume i: "i \<in> set (dp_extra_incarnations p)"
      then have "ai_boot i \<in> set (participant_boots p)" by (simp add: participant_boots_def)
      moreover have "ai_sequence i < dp_next_incarnation p \<and> ai_boot i \<noteq> dp_active_boot p"
        using assms(1) i by (simp add: participant_wf_def)
      ultimately show "ai_sequence i < n \<and> ai_boot i \<noteq> dp_active_boot p \<and> ai_boot i \<noteq> rp_boot request"
        using assms(5) less by (metis order_less_trans)
    qed
    have "dp_has_active_boot p \<Longrightarrow> rp_boot request \<noteq> dp_active_boot p"
      using assms(5) by (auto simp: participant_boots_def)
    with e less show ?thesis
      by (cases "dp_has_active_boot p") (simp_all add: issued_record_def issue_incarnation_def)
  qed
  moreover have "\<not> pid_empty (dp_id p)" "dp_fence_generation p \<le> st_fence_floor st" "id_nil \<notin> set (participant_boots ?q)"
    "set (participant_boots ?q) \<inter> set (dp_fenced_boots p) = {}" "length (dp_fenced_boots p) \<le> kAbsoluteMaxRecords"
    "distinct (dp_fenced_boots p)" "id_nil \<notin> set (dp_fenced_boots p)"
    using assms(1,4,6) by (auto simp: participant_wf_def set_boots)
  ultimately show ?thesis
    unfolding participant_wf_def using assms(9) by (intro conjI) (simp_all only: issued_record_fields, simp_all)
qed

section \<open>The state that a registration leaves\<close>

lemma raised_floor_wf:
  assumes "participant_wf st p" "st_registration_floor st < g"
  shows "participant_wf (st\<lparr> st_generation := gen, st_registration_floor := g \<rparr>) p"
proof -
  have "dp_registration_generation p \<le> g" using assms by (auto simp: participant_wf_def)
  with assms(1) show ?thesis by (simp add: participant_wf_def)
qed

lemma registered_wf:
  assumes "durable_wf st" "within_ceilings st" "st_participants st = A @ P @ B"
    and "counter_next (st_generation st) = Some gen" "counter_next (st_registration_floor st) = Some g"
    and "participant_wf (st\<lparr> st_generation := gen, st_registration_floor := g \<rparr>) q"
    and "dp_id q \<notin> dp_id ` (set A \<union> set B)"
    and "mset (participant_boots q) = add_mset boot (mset (concat (map participant_boots P)))"
    and "boot \<notin> set (concat (map participant_boots (st_participants st)))"
    and "length (st_participants st) < kAbsoluteMaxRecords \<or> P \<noteq> []"
  shows "durable_wf (st\<lparr> st_generation := gen, st_registration_floor := g, st_participants := A @ q # B \<rparr>)"
    and "within_ceilings (st\<lparr> st_generation := gen, st_registration_floor := g, st_participants := A @ q # B \<rparr>)"
proof -
  let ?u = "st\<lparr> st_generation := gen, st_registration_floor := g \<rparr>"
  let ?st = "st\<lparr> st_generation := gen, st_registration_floor := g, st_participants := A @ q # B \<rparr>"
  have same: "participant_wf ?st p \<longleftrightarrow> participant_wf ?u p" "grant_wf ?st x \<longleftrightarrow> grant_wf st x" for p x
    by (simp_all add: participant_wf_def grant_wf_def)
  have old: "\<forall>p \<in> set (A @ P @ B). participant_wf ?u p"
    using assms(1) raised_floor_wf [OF _ counter_next_less [OF assms(5)]]
    by (auto simp: durable_wf_def simp flip: assms(3))
  have "length (st_transitions st) \<le> counter_nat gen"
    using assms(1,4) by (auto simp: durable_wf_def counter_next_eq_Some)
  moreover have "\<forall>p \<in> set (A @ q # B). participant_wf ?st p"
    using old assms(6) by (simp add: same) blast
  moreover have "distinct (map dp_id (A @ q # B))"
  proof -
    have "distinct (map dp_id (A @ P @ B))" using assms(1) by (simp add: durable_wf_def assms(3))
    with assms(7) show ?thesis by (auto simp: distinct_append)
  qed
  moreover have "distinct (concat (map participant_boots (A @ q # B)))"
  proof -
    have "mset (concat (map participant_boots (A @ q # B))) = mset (boot # concat (map participant_boots (A @ P @ B)))"
      by (simp add: assms(8))
    moreover have "distinct (boot # concat (map participant_boots (A @ P @ B)))"
      using assms(1,9) unfolding durable_wf_def assms(3) by simp
    ultimately show ?thesis using mset_eq_imp_distinct_iff by blast
  qed
  ultimately show "durable_wf ?st"
    using assms(1) unfolding durable_wf_def by (simp add: same)
  have "length (A @ q # B) \<le> kAbsoluteMaxRecords"
    using assms(2,10) by (cases P) (auto simp: within_ceilings_def assms(3))
  with assms(2) show "within_ceilings ?st" by (simp add: within_ceilings_def)
qed

section \<open>The body of an accepted registration\<close>

lemma issue_incarnation_idempotency [simp]: "dp_idempotency (issue_incarnation request g k n p) = dp_idempotency p"
  by (simp add: issue_incarnation_def Let_def)

lemma enter_incarnation_state:
  assumes "i < length (im_participants s)"
  shows "im_state (enter_incarnation request digest i g (dp_next_incarnation (participant_at s i)) n s) =
      (im_state s)\<lparr> st_participants := (im_participants s)[i := issued_record (im_options s) request digest g n (participant_at s i)] \<rparr>"
    "im_options (enter_incarnation request digest i g k n s) = im_options s"
    "im_disk (enter_incarnation request digest i g k n s) = im_disk s"
  using assms
  by (simp_all add: enter_incarnation_def Let_def remember_for_participant_def upd_participant_def
      upd_state_def participant_at_def issued_record_def)

text \<open>The answer to a registration that issues the incarnation \<open>n\<close> under the generation \<open>g\<close>.\<close>

definition registers_as ::
  "CoordinatorEpoch \<Rightarrow> RegistrationGeneration \<Rightarrow> IncarnationSequence \<Rightarrow> RegistrationResult \<Rightarrow> bool"
where
  "registers_as epoch g n r \<longleftrightarrow>
     rr_outcome r = RegistrationOutcome.Registered \<and> \<not> rr_replayed r \<and> rr_epoch r = epoch \<and>
     rr_generation r = Some g \<and> rr_incarnation r = Some n"

lemma issue_registration_runs:
  assumes "i < length (im_participants (tx_impl t))" "\<not> tx_mutated t"
    and "counter_next (st_registration_floor (im_state (tx_impl t))) = Some g"
    and "counter_next (dp_next_incarnation (participant_at (tx_impl t) i)) = Some n"
    and "counter_next (st_generation (im_state (tx_impl t))) = Some gen"
  shows "\<exists>r t'. issue_registration request True digest i t = (Inr r, t') \<and> tx_mutated t' \<and>
    registers_as (st_current_epoch (im_state (tx_impl t))) g (dp_next_incarnation (participant_at (tx_impl t) i)) r \<and>
    im_options (tx_impl t') = im_options (tx_impl t) \<and> im_disk (tx_impl t') = im_disk (tx_impl t) \<and>
    im_state (tx_impl t') = (im_state (tx_impl t))\<lparr> st_generation := gen, st_registration_floor := g,
      st_participants := (im_participants (tx_impl t))
        [i := issued_record (im_options (tx_impl t)) request digest g n (participant_at (tx_impl t) i)] \<rparr>"
proof -
  let ?s = "set_registration_floor g (tx_impl t)"
  have len: "i < length (im_participants ?s)" using assms(1) by (simp add: frame_simps)
  note enter = enter_incarnation_state [OF len, unfolded frame_simps]
  have gen: "st_generation (im_state ?s) = st_generation (im_state (tx_impl t))"
    "im_disk ?s = im_disk (tx_impl t)" "im_state ?s = (im_state (tx_impl t))\<lparr> st_registration_floor := g \<rparr>"
    by (simp_all add: set_registration_floor_def upd_state_def)
  show ?thesis
    using assms enter gen
    by (simp add: issue_registration_def run_simps bump_generation_def set_generation_def registration_accepted_def
        registration_result_def registers_as_def)
qed

text \<open>The record that is continued, and the list with the record that it becomes.\<close>

definition record_before :: "impl \<Rightarrow> RegisterParticipantRequest \<Rightarrow> DurableParticipant" where
  "record_before s request =
     (case find_participant s (rp_participant request) of
        None \<Rightarrow> fresh_participant request | Some i \<Rightarrow> participant_at s i)"

definition records_after :: "impl \<Rightarrow> RegisterParticipantRequest \<Rightarrow> DurableParticipant \<Rightarrow> DurableParticipant list" where
  "records_after s request q =
     (case find_participant s (rp_participant request) of
        None \<Rightarrow> im_participants s @ [q] | Some i \<Rightarrow> (im_participants s)[i := q])"

lemma apply_registration_runs:
  assumes "indexes_match s" "registration_screen s request = None" "register_digest request = Inr digest"
    and "\<And>i. find_participant s (rp_participant request) = Some i \<Longrightarrow>
      registration_decision s request digest i = None \<and> \<not> has_incumbent (participant_at s i)"
    and "registration_limits (find_participant s (rp_participant request)) s = None"
    and "counter_next (st_registration_floor (im_state s)) = Some g"
    and "counter_next (dp_next_incarnation (record_before s request)) = Some n"
    and "counter_next (st_generation (im_state s)) = Some gen"
  shows "\<exists>r t. apply_registration request True (begin_tx s) = (Inr r, t) \<and> tx_mutated t \<and>
    registers_as (st_current_epoch (im_state s)) g (dp_next_incarnation (record_before s request)) r \<and>
    im_options (tx_impl t) = im_options s \<and> im_disk (tx_impl t) = im_disk s \<and>
    im_state (tx_impl t) = (im_state s)\<lparr> st_generation := gen, st_registration_floor := g,
      st_participants := records_after s request (issued_record (im_options s) request digest g n (record_before s request)) \<rparr>"
proof (cases "find_participant s (rp_participant request)")
  case None
  let ?p = "fresh_participant request"
  let ?t = "(begin_tx s)\<lparr> tx_impl := add_participant ?p s, tx_undo := [pop_participant] \<rparr>"
  have "apply_registration request True (begin_tx s) =
      issue_registration request True digest (length (im_participants s)) ?t"
    using assms(2,3,5) None
    by (simp add: apply_registration_def finish_registration_def accept_registration_def open_record_def tx_simps begin_tx_def)
  moreover have "im_participants (add_participant ?p s) = im_participants s @ [?p]"
    "im_options (add_participant ?p s) = im_options s" "im_disk (add_participant ?p s) = im_disk s"
    "im_state (add_participant ?p s) = (im_state s)\<lparr> st_participants := im_participants s @ [?p] \<rparr>"
    by (simp_all add: add_participant_def upd_state_def)
  ultimately show ?thesis
    using issue_registration_runs [of "length (im_participants s)" ?t g n gen request digest] assms(6-8) None
    by (simp add: begin_tx_def record_before_def records_after_def participant_at_def)
next
  case (Some i)
  let ?t = "(begin_tx s)\<lparr> tx_undo := [restore_participant (rp_participant request) (\<lambda>_. participant_at s i)] \<rparr>"
  have "apply_registration request True (begin_tx s) = issue_registration request True digest i ?t"
    using assms(2,3,5) assms(4) [OF Some] Some
    by (simp add: apply_registration_def finish_registration_def accept_registration_def open_record_def tx_simps begin_tx_def
        replace_incumbent_def Let_def)
  then show ?thesis
    using issue_registration_runs [of i ?t g n gen request digest] assms(6-8) Some find_participant_less [OF Some]
    by (simp add: begin_tx_def record_before_def records_after_def)
qed

section \<open>The barrier\<close>

lemma canonicalize_state:
  "\<exists>ps. mset ps = mset (im_participants s) \<and> im_state (canonicalize s) = (im_state s)\<lparr> st_participants := ps \<rparr>"
proof (cases "sorted (map dp_id (im_participants s))")
  case True
  then show ?thesis by (intro exI [of _ "im_participants s"]) (simp add: canonicalize_def)
next
  case False
  then show ?thesis by (intro exI [of _ "sort_key dp_id (im_participants s)"]) (simp add: canonicalize_def)
qed

lemma store_save_succeeds:
  assumes "validate_durable_state st = Inr ()" "encode_durable_payload st = Inr p" "length p \<le> 4294967295"
    and "watermark_accepts options st d"
  shows "\<exists>d'. store_save options io_ok st d = (Inr (), d')"
  using assms(4) store_encode_eq [OF assms(1-3)]
  by (auto simp: store_save_def write_watermark_def Let_def watermark_accepts_def split: sum.splits)

lemma persist_succeeds:
  assumes "validate_durable_state (im_state (canonicalize (tx_impl t))) = Inr ()"
    and "encode_durable_payload (im_state (canonicalize (tx_impl t))) = Inr p" "length p \<le> 4294967295"
    and "watermark_accepts (store_options (im_options (tx_impl t))) (im_state (canonicalize (tx_impl t))) (im_disk (tx_impl t))"
  shows "\<exists>t'. persist io_ok t = (Inr (), t')"
  using store_save_succeeds [OF assms]
  by (auto simp: persist_def save_impl_def Let_def frame_simps)

section \<open>What is admitted\<close>

text \<open>The condition on a participant that is known, and on the whole.\<close>

definition continues :: "DurableState \<Rightarrow> RegisterParticipantRequest \<Rightarrow> DurableParticipant \<Rightarrow> bool" where
  "continues st request p \<longleftrightarrow>
     \<not> dp_retired p \<and> dp_policy p = rp_policy request \<and>
     (rp_policy request = IncarnationPolicy.SingleIncarnation \<longrightarrow> participant_boots p = []) \<and>
     rp_boot request \<notin> set (dp_fenced_boots p) \<and>
     (\<forall>f \<in> set (st_recent_fences st). fr_participant f = dp_id p \<longrightarrow> fr_boot f \<noteq> rp_boot request) \<and>
     rp_attempt request \<notin> ir_attempt ` set (dp_idempotency p) \<and>
     rp_expected_generation request \<in> {None, Some (dp_registration_generation p)}"

definition request_proper :: "EpochRuntimeOptions \<Rightarrow> RegisterParticipantRequest \<Rightarrow> bool" where
  "request_proper opts request \<longleftrightarrow>
     rp_attempt request \<noteq> id_nil \<and> rp_participant request \<noteq> ParticipantId [] \<and> rp_boot request \<noteq> id_nil \<and>
     text_is_valid (text_value (rp_provenance request)) (max_string_size (op_limits opts)) \<and>
     scopes (rp_scopes request) \<noteq> [] \<and>
     length (scopes (rp_scopes request)) \<le> max_scopes_per_grant (op_limits opts) \<and>
     (\<forall>scope \<in> set (scopes (rp_scopes request)). op_registrable_scope_kinds opts (scope_kind scope)) \<and>
     (rp_policy request = IncarnationPolicy.MultiIncarnation \<longrightarrow> op_allow_multi_incarnation opts)"

definition admissible :: "impl \<Rightarrow> RegisterParticipantRequest \<Rightarrow> bool" where
  "admissible s request \<longleftrightarrow>
     request_proper (im_options s) request \<and>
     rp_expected_epoch request = st_current_epoch (im_state s) \<and>
     (\<forall>p \<in> set (im_participants s). rp_boot request \<notin> set (participant_boots p)) \<and>
     active_worker_count (im_participants s) < max_active_workers (im_limits s) \<and>
     (if rp_participant request \<in> dp_id ` set (im_participants s)
      then \<forall>p \<in> set (im_participants s). dp_id p = rp_participant request \<longrightarrow> continues (im_state s) request p
      else length (im_participants s) < max_participants (im_limits s))"

text \<open>Counters that are not exhausted, and ceilings of the image that are not reached.\<close>

definition has_room :: "impl \<Rightarrow> RegisterParticipantRequest \<Rightarrow> bool" where
  "has_room s request \<longleftrightarrow>
     \<not> counter_is_max (st_generation (im_state s)) \<and> \<not> counter_is_max (st_registration_floor (im_state s)) \<and>
     (\<forall>p \<in> set (im_participants s).
        \<not> counter_is_max (dp_next_incarnation p) \<and> length (participant_boots p) < kAbsoluteMaxRecords) \<and>
     length (im_participants s) < kAbsoluteMaxRecords \<and>
     max_idempotency_records_per_participant (im_limits s) \<le> kAbsoluteMaxRecords \<and>
     (\<exists>bs. registration_bytes request = Inr bs \<and>
        length (projr (encode_durable_payload (im_state s))) + length bs + 200 \<le> 4294967295)"

lemma shape_and_scopes_iff:
  "registration_shape opts st request = None \<and> registration_scopes opts st request = None \<longleftrightarrow> request_proper opts request"
  by (auto simp: registration_shape_def registration_scopes_def request_proper_def id_is_nil_iff pid_empty_def
      scope_set_empty_def scope_set_size_def find_None_iff not_le intro: ParticipantId.expand split: if_splits)

lemma registration_epoch_iff: "registration_epoch st request = None \<longleftrightarrow> rp_expected_epoch request = st_current_epoch st"
  by (simp add: registration_epoch_def)

lemma first_some_None: "first_some xs = None \<longleftrightarrow> (\<forall>x \<in> set xs. x = None)"
  by (induction xs) (auto split: option.split)

lemma find_participant_None_iff:
  assumes "running_ok s"
  shows "find_participant s pid = None \<longleftrightarrow> pid \<notin> dp_id ` set (im_participants s)"
  using find_participant_search [OF assms, of pid] by (auto simp: position_None)

lemma known_continues:
  assumes "running_ok s" "find_participant s (rp_participant request) = Some i"
    and "rp_boot request \<notin> set (participant_boots (participant_at s i))"
  shows "registration_known s request i = None \<and> registration_decision s request digest i = None \<and>
      \<not> has_incumbent (participant_at s i) \<longleftrightarrow> continues (im_state s) request (participant_at s i)"
proof -
  let ?p = "participant_at s i"
  have p: "?p \<in> set (im_participants s)" "dp_id ?p = rp_participant request"
    using find_participant_less [OF assms(2)] find_participant_correct [OF _ assms(2)] assms(1)
    by (simp_all add: participant_at_def running_ok_def)
  have boots: "has_current_incarnation ?p \<longleftrightarrow> participant_boots ?p \<noteq> []"
    by (auto simp: has_current_incarnation_def participant_boots_def)
  have "find_incarnation ?p (rp_boot request) = None"
    using assms(3) by (simp add: find_incarnation_None)
  moreover have "find_attempt (dp_idempotency ?p) (rp_attempt request) = None \<longleftrightarrow>
      rp_attempt request \<notin> ir_attempt ` set (dp_idempotency ?p)"
    unfolding find_attempt_def find_None_iff image_iff by metis
  moreover have "fl_fenced (lookup_fence s (rp_participant request) (rp_boot request)) \<longleftrightarrow>
      rp_boot request \<in> set (dp_fenced_boots ?p) \<or>
      (\<exists>f \<in> set (st_recent_fences (im_state s)). fr_participant f = dp_id ?p \<and> fr_boot f = rp_boot request)"
    using lookup_fence_iff [OF assms(1) p(1)] by (simp add: p(2))
  ultimately show ?thesis
    by (auto simp: registration_known_def registration_decision_def Let_def first_some_None registration_conflict_def
        registration_policy_def registration_active_def registration_incumbent_def has_incumbent_def boots continues_def
        split: option.splits if_splits)
qed

section \<open>Admissible requests are registered\<close>

lemma records_split:
  assumes "running_ok s" "p = record_before s request"
  obtains A P B where "im_participants s = A @ P @ B" "\<forall>q. records_after s request q = A @ q # B"
    "dp_id p = rp_participant request" "rp_participant request \<notin> dp_id ` (set A \<union> set B)"
    "P = [] \<and> p = fresh_participant request \<and> find_participant s (rp_participant request) = None \<or> P = [p]"
proof (cases "find_participant s (rp_participant request)")
  case None
  then have "rp_participant request \<notin> dp_id ` set (im_participants s)"
    using find_participant_None_iff [OF assms(1)] by simp
  then show thesis
    using that [of "im_participants s" "[]" "[]"] None
    by (simp add: assms(2) records_after_def record_before_def fresh_participant_def)
next
  case (Some i)
  let ?ps = "im_participants s"
  have i: "i < length ?ps" by (rule find_participant_less [OF Some])
  have p: "p = ?ps ! i" "dp_id p = rp_participant request"
    using Some find_participant_correct [OF _ Some] assms(1)
    by (simp_all add: assms(2) record_before_def participant_at_def running_ok_def)
  have split: "?ps = take i ?ps @ [p] @ drop (Suc i) ?ps" using id_take_nth_drop [OF i] by (simp add: p(1))
  have "distinct (map dp_id ?ps)" using running_ok_wf(1) [OF assms(1)] by (simp add: records_wf_iff)
  then have "distinct (map dp_id (take i ?ps @ [p] @ drop (Suc i) ?ps))" by (metis split)
  then have "dp_id p \<notin> dp_id ` (set (take i ?ps) \<union> set (drop (Suc i) ?ps))" by auto
  with split p(2) that [of "take i ?ps" "[p]" "drop (Suc i) ?ps"] show thesis
    by (simp add: records_after_def Some upd_conv_take_nth_drop [OF i])
qed

lemma counter_next_exists: "\<not> counter_is_max c \<Longrightarrow> \<exists>n. counter_next c = Some n"
  by (simp add: counter_next_def counter_is_max_def)

lemma saved_payload:
  assumes "saved s"
  obtains bs where "encode_durable_payload (im_state s) = Inr bs"
  using assms by (auto simp: saved_def store_encode_def res_bind_eq_Inr)

lemma established_valid:
  assumes "running_ok s" "saved s" "durable_wf st" "within_ceilings st" "st_current_epoch st = st_current_epoch (im_state s)"
    and "st_control_attempts st = st_control_attempts (im_state s)"
  shows "validate_durable_state st = Inr ()"
proof -
  have "validate_durable_state (im_state s) = Inr ()" "\<not> counter_is_zero (st_current_epoch (im_state s))"
    using assms(1,2) by (simp_all add: running_ok_def saved_def)
  with assms(3-6) show ?thesis by (simp add: validate_durable_state_iff)
qed

lemma admissible_screen:
  assumes "running_ok s" "admissible s request"
  shows "registration_screen s request = None"
    "\<And>i. find_participant s (rp_participant request) = Some i \<Longrightarrow>
      registration_decision s request digest i = None \<and> \<not> has_incumbent (participant_at s i)"
    "registration_limits (find_participant s (rp_participant request)) s = None"
proof -
  have known: "registration_known s request i = None \<and> registration_decision s request digest i = None \<and>
      \<not> has_incumbent (participant_at s i)" if i: "find_participant s (rp_participant request) = Some i" for i
  proof -
    have p: "participant_at s i \<in> set (im_participants s)" "dp_id (participant_at s i) = rp_participant request"
      using find_participant_less [OF i] find_participant_correct [OF _ i] assms(1)
      by (simp_all add: participant_at_def running_ok_def)
    then have "continues (im_state s) request (participant_at s i)"
      using assms(2) unfolding admissible_def by (metis imageI)
    then show ?thesis using known_continues [OF assms(1) i] assms(2) p(1) by (simp add: admissible_def)
  qed
  then show "registration_screen s request = None"
    using assms(2) shape_and_scopes_iff [of "im_options s" "im_state s" request] registration_epoch_iff [of "im_state s" request]
    by (auto simp: registration_screen_def admissible_def split: option.split)
  show "registration_decision s request digest i = None \<and> \<not> has_incumbent (participant_at s i)"
    if "find_participant s (rp_participant request) = Some i" for i
    using known [OF that] by blast
  have "im_active_workers s = active_worker_count (im_participants s)"
    using assms(1) by (simp add: running_ok_def indexes_match_def)
  then show "registration_limits (find_participant s (rp_participant request)) s = None"
    using assms find_participant_None_iff [OF assms(1), of "rp_participant request"]
    by (auto simp: registration_limits_def admissible_def)
qed

lemma watermark_same_epoch:
  "watermark_accepts options st d \<Longrightarrow> st_current_epoch st' = st_current_epoch st \<Longrightarrow> watermark_accepts options st' d"
  by (auto simp: watermark_accepts_def split: sum.splits)

text \<open>The transaction of an admissible request: what it leaves, and that the format admits it.\<close>

definition enters ::
  "impl \<Rightarrow> RegisterParticipantRequest \<Rightarrow> DurableParticipant list \<Rightarrow> DurableParticipant list \<Rightarrow> DurableParticipant list \<Rightarrow>
   DurableParticipant \<Rightarrow> DurableState \<Rightarrow> bool"
where
  "enters s request A P B q u \<longleftrightarrow>
     im_participants s = A @ P @ B \<and> records_after s request q = A @ q # B \<and>
     (P = [] \<and> find_participant s (rp_participant request) = None \<or> P = [record_before s request]) \<and>
     (\<exists>digest g n gen. q = issued_record (im_options s) request digest g n (record_before s request) \<and>
        register_digest request = Inr digest \<and> counter_next (st_registration_floor (im_state s)) = Some g \<and>
        counter_next (dp_next_incarnation (record_before s request)) = Some n \<and>
        counter_next (st_generation (im_state s)) = Some gen \<and>
        u = (im_state s)\<lparr> st_generation := gen, st_registration_floor := g, st_participants := A @ q # B \<rparr>) \<and>
     dp_id q = rp_participant request"

lemma admissible_runs:
  assumes "running_ok s" "admissible s request" "has_room s request" "saved s"
  obtains r t A P B q u where "enters s request A P B q u" "durable_wf u" "within_ceilings u"
    "apply_registration request True (begin_tx s) = (Inr r, t)" "tx_mutated t"
    "registers_as (st_current_epoch (im_state s)) (dp_registration_generation q) (dp_next_incarnation (record_before s request)) r"
    "im_options (tx_impl t) = im_options s" "im_disk (tx_impl t) = im_disk s" "im_state (tx_impl t) = u"
proof -
  let ?st = "im_state s" and ?opts = "im_options s"
  define p where "p = record_before s request"
  obtain A P B where split: "im_participants s = A @ P @ B" "\<forall>q. records_after s request q = A @ q # B"
    "dp_id p = rp_participant request" "rp_participant request \<notin> dp_id ` (set A \<union> set B)"
    "P = [] \<and> p = fresh_participant request \<and> find_participant s (rp_participant request) = None \<or> P = [p]"
    by (rule records_split [OF assms(1) p_def])
  obtain bs where bs: "registration_bytes request = Inr bs" using assms(3) by (auto simp: has_room_def)
  define digest where "digest = compute_semantic_digest bs"
  have digest: "register_digest request = Inr digest"
    by (simp add: register_digest_written digest_written_def bs digest_def)
  have "\<not> counter_is_zero (st_current_epoch ?st)" using assms(1) by (simp add: running_ok_def)
  note wf = saved_wf [OF assms(4) this]
  have proper: "request_proper ?opts request" using assms(2) by (simp add: admissible_def)
  have p_facts: "participant_wf ?st p \<and> \<not> counter_is_max (dp_next_incarnation p) \<and>
      length (participant_boots p) < kAbsoluteMaxRecords \<and> rp_boot request \<notin> set (participant_boots p) \<and>
      rp_boot request \<notin> set (dp_fenced_boots p) \<and> rp_attempt request \<notin> ir_attempt ` set (dp_idempotency p)"
    using split(5)
  proof
    assume "P = [] \<and> p = fresh_participant request \<and> find_participant s (rp_participant request) = None"
    then show ?thesis
      using fresh_participant_wf [of request ?st] proper
      by (simp add: request_proper_def fresh_participant_def participant_boots_def counter_is_max_def kAbsoluteMaxRecords_def)
  next
    assume "P = [p]"
    then have p: "p \<in> set (im_participants s)" by (simp add: split(1))
    then have "continues ?st request p" using assms(2) split(3) unfolding admissible_def by (metis imageI)
    with p show ?thesis using wf(1) assms(2,3) by (simp add: durable_wf_def has_room_def admissible_def continues_def)
  qed
  then have p_wf: "participant_wf ?st p" and p_room: "\<not> counter_is_max (dp_next_incarnation p)"
    "length (participant_boots p) < kAbsoluteMaxRecords"
    and p_free: "rp_boot request \<notin> set (participant_boots p)" "rp_boot request \<notin> set (dp_fenced_boots p)"
      "rp_attempt request \<notin> ir_attempt ` set (dp_idempotency p)"
    by simp_all
  obtain g n gen where counters: "counter_next (st_registration_floor ?st) = Some g"
    "counter_next (dp_next_incarnation p) = Some n" "counter_next (st_generation ?st) = Some gen"
    using assms(3) p_room counter_next_exists unfolding has_room_def by metis
  define q where "q = issued_record ?opts request digest g n p"
  define u where "u = ?st\<lparr> st_generation := gen, st_registration_floor := g, st_participants := A @ q # B \<rparr>"
  have q_wf: "participant_wf (?st\<lparr> st_generation := gen, st_registration_floor := g \<rparr>) q"
    unfolding q_def
    by (rule issued_record_wf [OF p_wf counters(1,2)]) (use proper p_free p_room assms(3) in \<open>simp_all add: request_proper_def has_room_def\<close>)
  have boots: "mset (participant_boots q) = add_mset (rp_boot request) (mset (concat (map participant_boots P)))"
  proof -
    have "concat (map participant_boots P) = participant_boots p"
      using split(5) by (auto simp: fresh_participant_def participant_boots_def)
    then show ?thesis by (simp only: q_def issued_record_fields)
  qed
  have u: "durable_wf u" "within_ceilings u"
    unfolding u_def
    by (rule registered_wf [OF wf split(1) counters(3,1) q_wf _ boots];
      use split(3,4) assms(2,3) in \<open>auto simp: q_def issued_record_fields admissible_def has_room_def\<close>)+
  have "enters s request A P B q u"
    unfolding enters_def
    using split counters digest by (auto simp: u_def q_def issued_record_fields p_def)
  moreover obtain r t where "apply_registration request True (begin_tx s) = (Inr r, t)" "tx_mutated t"
    "registers_as (st_current_epoch ?st) g (dp_next_incarnation p) r"
    "im_options (tx_impl t) = ?opts" "im_disk (tx_impl t) = im_disk s" "im_state (tx_impl t) = u"
    using apply_registration_runs [OF _ admissible_screen(1) [OF assms(1,2)] digest admissible_screen(2,3) [OF assms(1,2)]
        counters(1) counters(2) [unfolded p_def] counters(3)] assms(1)
    by (auto simp: running_ok_def u_def q_def split(2) [rule_format] p_def)
  moreover have "dp_registration_generation q = g" by (simp add: q_def issued_record_fields)
  ultimately show thesis using that u p_def by blast
qed

lemma entered_record_written:
  assumes "enters s request A P B q u" "registration_bytes request = Inr bs" "\<forall>x \<in> set P. \<exists>a. w_participant x = Inr a"
  shows "(\<exists>a. w_participant q = Inr a) \<and> record_size q \<le> sum_list (map record_size P) + length bs + 200"
proof -
  let ?p = "record_before s request"
  obtain digest g n where q: "q = issued_record (im_options s) request digest g n ?p"
    using assms(1) by (auto simp: enters_def)
  have "\<exists>a. w_pid (dp_id q) = Inr a" "\<exists>a. encode_scope_set_canonical (dp_scopes q) = Inr a"
    using w_seq_part [OF assms(2) [unfolded registration_bytes_def]] assms(1)
    by (auto simp: enters_def) (auto simp: q issued_record_fields)
  then obtain qb where qb: "w_participant q = Inr qb" using participant_written by blast
  have "P = [] \<and> ?p = fresh_participant request \<or> P = [?p]"
    using assms(1) by (auto simp: enters_def record_before_def)
  then have "record_size q \<le> sum_list (map record_size P) + length bs + 200"
  proof
    assume P: "P = [] \<and> ?p = fresh_participant request"
    then show ?thesis
      using issued_record_size(1) [OF qb [unfolded q] assms(2)] by (simp add: q fresh_participant_def)
  next
    assume P: "P = [?p]"
    then obtain b where "w_participant ?p = Inr b" using assms(3) by auto
    from issued_record_size(2) [OF qb [unfolded q] assms(2) this] show ?thesis by (simp add: q P)
  qed
  with qb show ?thesis by blast
qed

lemma run_tx_persisted:
  assumes "body (begin_tx s) = (Inr r, t)" "tx_mutated t" "persist io t = (Inr (), t')"
  shows "run_tx io body s = (Inr r, tx_impl t')"
  using assms persist_returns [OF assms(3)]
  by (simp add: run_tx_def tx_bind_def persist_if_mutated_def end_tx_def tx_return_def undo_rollback_def)

lemma admissible_registers:
  assumes "running_ok s" "admissible s request" "has_room s request"
    and "watermark_accepts (store_options (im_options s)) (im_state s) (im_disk s)"
    and "saved s"
  shows "\<exists>r s'. register_participant io_ok request s = (Inr r, s') \<and>
    rr_outcome r = RegistrationOutcome.Registered \<and> \<not> rr_replayed r"
proof -
  let ?st = "im_state s" and ?opts = "im_options s"
  obtain r t A P B q u where u: "enters s request A P B q u" "durable_wf u" "within_ceilings u"
    and t: "apply_registration request True (begin_tx s) = (Inr r, t)" "tx_mutated t"
    "registers_as (st_current_epoch ?st) (dp_registration_generation q) (dp_next_incarnation (record_before s request)) r"
    "im_options (tx_impl t) = ?opts" "im_disk (tx_impl t) = im_disk s" "im_state (tx_impl t) = u"
    by (rule admissible_runs [OF assms(1-3,5)])
  obtain bs where bs: "registration_bytes request = Inr bs"
    "length (projr (encode_durable_payload ?st)) + length bs + 200 \<le> 4294967295"
    using assms(3) by (auto simp: has_room_def)
  have split: "im_participants s = A @ P @ B" "st_participants u = A @ q # B" using u(1) by (auto simp: enters_def)
  have same: "st_grants u = st_grants ?st" "st_transitions u = st_transitions ?st" "st_control_attempts u = st_control_attempts ?st"
    "st_recent_fences u = st_recent_fences ?st" "st_current_epoch u = st_current_epoch ?st"
    using u(1) by (auto simp: enters_def)
  obtain ps where ps: "mset ps = mset (A @ q # B)" "im_state (canonicalize (tx_impl t)) = u\<lparr> st_participants := ps \<rparr>"
    using canonicalize_state [of "tx_impl t"] by (auto simp: t(6) split(2))
  have "durable_wf (u\<lparr> st_participants := ps \<rparr>)" "within_ceilings (u\<lparr> st_participants := ps \<rparr>)"
    using valid_permuted [OF _ u(2,3)] ps(1) by (simp_all add: split(2))
  then have valid: "validate_durable_state (u\<lparr> st_participants := ps \<rparr>) = Inr ()"
    by (rule established_valid [OF assms(1,5)]) (simp_all add: same)
  have watermark: "watermark_accepts (store_options ?opts) (u\<lparr> st_participants := ps \<rparr>) (im_disk s)"
    using assms(4) by (rule watermark_same_epoch) (simp add: same)
  obtain old where old: "encode_durable_payload ?st = Inr old" by (rule saved_payload [OF assms(5)])
  have written: "\<forall>x \<in> set (A @ P @ B). \<exists>a. w_participant x = Inr a"
    using saved_records_written [OF old] by (simp flip: split(1))
  have q: "\<exists>a. w_participant q = Inr a" "record_size q \<le> sum_list (map record_size P) + length bs + 200"
    using entered_record_written [OF u(1) bs(1)] written by simp_all
  have "set ps = set (A @ q # B)" using ps(1) by (rule mset_eq_setD)
  then have "\<forall>x \<in> set ps. \<exists>a. w_participant x = Inr a" using written q(1) by auto
  then obtain bs' where bs': "encode_durable_payload (u\<lparr> st_participants := ps \<rparr>) = Inr bs'"
      "length bs' + sum_list (map record_size (im_participants s)) = length old + sum_list (map record_size ps)"
    using encode_with_records [OF old, of "u\<lparr> st_participants := ps \<rparr>"] saved_fences_written [OF old] by (auto simp: same)
  have "length bs' \<le> 4294967295"
    using bs'(2) sum_list_permuted [OF ps(1), of record_size] q(2) bs(2) by (simp add: split(1) old)
  then have "\<exists>t'. persist io_ok t = (Inr (), t')"
    by (intro persist_succeeds [of t bs'])
      (use valid bs'(1) watermark in \<open>simp_all add: ps(2) t(4,5)\<close>)
  then show ?thesis
    using run_tx_persisted [of "apply_registration request True" s r t io_ok] t(1-3) by (auto simp: register_participant_def registers_as_def)
qed

section \<open>And no others\<close>

lemma distinct_concat_same:
  "distinct (concat (map f xs)) \<Longrightarrow> p \<in> set xs \<Longrightarrow> q \<in> set xs \<Longrightarrow> x \<in> set (f p) \<Longrightarrow> x \<in> set (f q) \<Longrightarrow> p = q"
  by (induction xs) auto

lemma current_boot: "(b, n) \<in> set (currents p) \<Longrightarrow> b \<in> set (participant_boots p)"
  by (auto simp: currents_def participant_boots_def split: if_splits)

lemma registered_boot_new:
  assumes "running_ok s" "running_ok s'" "registers s request r p0 q s'" "p \<in> set (im_participants s)"
  shows "rp_boot request \<notin> set (participant_boots p)"
proof
  assume boot: "rp_boot request \<in> set (participant_boots p)"
  obtain n where q: "q \<in> set (im_participants s')" "dp_id q = rp_participant request" "(rp_boot request, n) \<in> set (currents q)"
    using registers_current [OF assms(3,1)] by blast
  have "dp_id p \<noteq> rp_participant request \<and> p \<in> set (im_participants s')"
  proof (cases "find_participant s (rp_participant request)")
    case None
    then have "rp_participant request \<notin> dp_id ` set (im_participants s)" using find_participant_None_iff [OF assms(1)] by simp
    then have "dp_id p \<noteq> rp_participant request" using assms(4) by (metis imageI)
    with None assms(3,4) show ?thesis by (auto simp: registers_def)
  next
    case (Some i)
    obtain j where j: "find_participant s (dp_id p) = Some j" "participant_at s j = p" "j < length (im_participants s)"
      by (rule find_participant_unique [OF assms(1,4)])
    have "find_incarnation (participant_at s i) (rp_boot request) = None" using assms(3) Some by (simp add: registers_def)
    then have "p \<noteq> participant_at s i" using boot by (auto simp: find_incarnation_None)
    then have ij: "i \<noteq> j" using j(2) by auto
    then have "dp_id p \<noteq> rp_participant request" using j(1) Some by auto
    moreover have "(im_participants s)[i := q] ! j = p" using j(2) ij by (simp add: participant_at_def)
    then have "p \<in> set ((im_participants s)[i := q])" using j(3) by (metis length_list_update nth_mem)
    ultimately show ?thesis using assms(3) Some by (auto simp: registers_def)
  qed
  moreover have "distinct (concat (map participant_boots (im_participants s')))"
    using running_ok_wf(1) [OF assms(2)] by (simp add: records_wf_iff)
  ultimately show False
    using distinct_concat_same q(1) boot current_boot [OF q(3)] q(2) by metis
qed

lemma registered_admissible:
  assumes "running_ok s" "op_replacement_policy (im_options s) = RequireExplicitFence"
    and "register_participant io request s = (Inr r, s')"
    and "rr_outcome r = RegistrationOutcome.Registered" "\<not> rr_replayed r"
  shows "admissible s request"
proof -
  obtain p0 q where reg: "running_ok s'" "registers s request r p0 q s'"
    using register_participant_effect [OF assms(1,3-5)] by blast
  note new = registered_boot_new [OF assms(1) reg]
  have b: "tx_impl (begin_tx s) = s" "\<not> tx_mutated (begin_tx s)" by (simp_all add: begin_tx_def)
  obtain digest t1 where a: "registration_screen s request = None"
    "case find_participant s (rp_participant request) of None \<Rightarrow> t1 = begin_tx s
     | Some i \<Rightarrow> registration_decision s request digest i = None \<and> replace_incumbent request i (begin_tx s) = (Inr None, t1)"
    "registration_limits (find_participant s (rp_participant request)) (tx_impl t1) = None"
    using apply_registration_quiet assms(3) [unfolded register_participant_def]
  proof (cases rule: run_tx_returns)
    case 1
    from apply_registration_registered [OF 1(2) assms(4,5)] accept_registration_marked b(2) show ?thesis by blast
  next
    case (2 t)
    from apply_registration_registered [OF 2(1) assms(4,5)] that show ?thesis unfolding b(1) by blast
  qed
  have known: "registration_decision s request digest i = None \<and> \<not> has_incumbent (participant_at s i) \<and> t1 = begin_tx s"
    if "find_participant s (rp_participant request) = Some i" for i
  proof -
    have d: "registration_decision s request digest i = None" "replace_incumbent request i (begin_tx s) = (Inr None, t1)"
      using a(2) that by simp_all
    have "\<not> has_incumbent (participant_at s i)" using registration_decision_None(4) [OF d(1)] assms(2) by auto
    with d show ?thesis by (simp add: replace_incumbent_def tx_simps begin_tx_def)
  qed
  have t1: "tx_impl t1 = s"
    using a(2) known b(1) by (cases "find_participant s (rp_participant request)") auto
  have screen: "request_proper (im_options s) request" "rp_expected_epoch request = st_current_epoch (im_state s)"
    "\<And>i. find_participant s (rp_participant request) = Some i \<Longrightarrow> registration_known s request i = None"
    using a(1) shape_and_scopes_iff [of "im_options s" "im_state s" request] registration_epoch_iff [of "im_state s" request]
    by (auto simp: registration_screen_def first_some_None split: option.splits)
  have limits: "active_worker_count (im_participants s) < max_active_workers (im_limits s)"
    "find_participant s (rp_participant request) = None \<Longrightarrow> length (im_participants s) < max_participants (im_limits s)"
    using a(3) assms(1) unfolding t1 by (auto simp: registration_limits_def running_ok_def indexes_match_def split: if_splits)
  have "continues (im_state s) request p" if p: "p \<in> set (im_participants s)" "dp_id p = rp_participant request" for p
  proof -
    obtain i where i: "find_participant s (rp_participant request) = Some i" "participant_at s i = p"
      using find_participant_unique [OF assms(1) p(1)] p(2) by metis
    with known_continues [OF assms(1) i(1)] new [OF p(1)] known [OF i(1)] screen(3) [OF i(1)] show ?thesis by blast
  qed
  with screen limits new find_participant_None_iff [OF assms(1)] show ?thesis
    by (auto simp: admissible_def)
qed

text \<open>
  C16. Registration decides \<open>admissible\<close>, under the replacement policy \<open>RequireExplicitFence\<close>, with a store that works
  (every call succeeds, the watermark does not refuse the epoch), room for one more record (the counters and tables are not
  exhausted, the payload stays below four gigabytes) and the state in memory on disk: a request is registered and issues an
  incarnation exactly when it is proper, names the current epoch and a boot that is nowhere current, the limits are not
  reached, and its participant is unknown, or known, not retired, without a current incarnation, and free to continue with
  this boot and attempt. Under these conditions the persistence barrier accepts whatever the checks have let through. (Under
  \<open>ReplaceIncumbent\<close> a current incarnation does not refuse the request: it is fenced.)
\<close>

theorem registration_decides_admissible:
  assumes "running_ok s" "op_replacement_policy (im_options s) = RequireExplicitFence"
    and "has_room s request" "watermark_accepts (store_options (im_options s)) (im_state s) (im_disk s)" "saved s"
  shows "(\<exists>r s'. register_participant io_ok request s = (Inr r, s') \<and>
      rr_outcome r = RegistrationOutcome.Registered \<and> \<not> rr_replayed r) \<longleftrightarrow> admissible s request"
  using admissible_registers [OF assms(1) _ assms(3-5)] registered_admissible [OF assms(1,2)] by blast

lemma demo_registration_bytes: "\<exists>bs. registration_bytes register_request = Inr bs \<and> length bs \<le> 500"
proof -
  have "writes (registration_bytes register_request) 500"
    unfolding registration_bytes_def register_request_def payload_defs north_def worker_def
    by (rule writes_mono, simp del: w_seq.simps, (rule writes_rules | simp)+)
  then show ?thesis by (auto simp: writes_def)
qed

theorem registration_decides_admissible_witness:
  "\<exists>s r s'. running_ok s \<and> admissible s register_request \<and> has_room s register_request \<and>
     register_participant io_ok register_request s = (Inr r, s') \<and> rr_outcome r = RegistrationOutcome.Registered"
proof -
  obtain s0 where s0: "at_state s0 state1" by (rule demo_born)
  define s where "s = s0\<lparr> im_options := demo_options\<lparr> op_replacement_policy := RequireExplicitFence \<rparr> \<rparr>"
  have ok: "running_ok s"
    using at_stateD(1) [OF s0] by (simp add: s_def running_ok_def indexes_match_def image_follows_def)
  have saved: "saved s" using at_stateD(4) [OF s0] by (simp add: s_def saved_def)
  have at: "im_state s = state1" "im_options s = demo_options\<lparr> op_replacement_policy := RequireExplicitFence \<rparr>"
    using at_stateD(2) [OF s0] by (simp_all add: s_def)
  have none: "im_participants s = []" using at by (simp add: state1_fields)
  have admissible: "admissible s register_request"
    using at by (simp add: admissible_def request_proper_def register_request_def none active_worker_count_def shape_simps
        state_defs id_nil_def worker_def)
  have room: "has_room s register_request"
    using at demo_registration_bytes state1_writes
    by (auto simp: has_room_def none writes_def state1_fields counter_is_max_def kAbsoluteMaxRecords_def)
  have watermark: "watermark_accepts (store_options (im_options s)) (im_state s) (im_disk s)"
    using s0 by (auto simp: at_state_def watermark_accepts_def store_options_def s_def)
  have policy: "op_replacement_policy (im_options s) = RequireExplicitFence" by (simp add: at(2))
  from registration_decides_admissible [OF ok policy room watermark saved] admissible room ok show ?thesis by blast
qed

end
