(* ===== verification/Availability.thy ===== *)
theory Availability
  imports Acceptance Recovery
begin

text \<open>
  What a coordinator can be relied on to do. A coordinator is \<open>standing\<close> when it runs, its image is of the state in memory
  and can be read back, and the watermark does not stand in the way. An image can be read back when the provenance of every
  transition in it has at least four bytes; with less the decoder may refuse the list of transitions as too short. From such a state, on a store that works, the operations that a worker or an operator
  depends on succeed, and leave a coordinator that is standing.
\<close>

section \<open>The size of a payload\<close>

definition payload_size :: "DurableState \<Rightarrow> nat" where
  "payload_size st =
     68 + sum_list (map record_size (st_participants st)) + sum_list (map fence_size (st_recent_fences st)) +
     sum_list (map (\<lambda>g. length (projr (w_grant g))) (st_grants st)) +
     sum_list (map (\<lambda>t. length (projr (w_transition t))) (st_transitions st)) + 83 * length (st_control_attempts st)"

lemma counted_length:
  assumes "w_counted enc xs = Inr bs"
  shows "length bs = 4 + sum_list (map (\<lambda>x. length (projr (enc x))) xs)"
proof -
  have ok: "\<forall>x \<in> set xs. \<exists>a. enc x = Inr a" using w_counted_part [OF assms] by blast
  show ?thesis by (rule w_counted_ok [OF ok]) (simp add: assms)
qed

lemma payload_length:
  assumes "encode_durable_payload st = Inr bs"
  shows "length bs = payload_size st"
proof -
  have oks: "\<forall>w \<in> {w_counted w_participant (st_participants st), w_counted w_fence (st_recent_fences st),
      w_counted w_grant (st_grants st), w_counted w_transition (st_transitions st),
      w_counted w_idempotency (st_control_attempts st)}. \<exists>a. w = Inr a"
    using w_seq_all [THEN iffD1, OF exI, OF assms [unfolded encode_durable_payload_def]] by auto
  have counts: "length (projr (w_counted w_participant (st_participants st))) = 4 + sum_list (map record_size (st_participants st))"
    "length (projr (w_counted w_fence (st_recent_fences st))) = 4 + sum_list (map fence_size (st_recent_fences st))"
    "length (projr (w_counted w_grant (st_grants st))) = 4 + sum_list (map (\<lambda>g. length (projr (w_grant g))) (st_grants st))"
    "length (projr (w_counted w_transition (st_transitions st))) =
       4 + sum_list (map (\<lambda>t. length (projr (w_transition t))) (st_transitions st))"
    using oks counted_length [of w_participant] counted_length [of w_fence] counted_length [of w_grant]
      counted_length [of w_transition]
    by (auto simp: record_size_def [abs_def] fence_size_def [abs_def])
  show ?thesis
    using w_seq_length [OF assms [unfolded encode_durable_payload_def]] counts
    by (simp add: payload_size_def counted_sizes w_counter_def w_u64_def w_id_def w_fixed16_def w_raw_def id_bytes_def)
qed

section \<open>Standing\<close>

definition legible :: "Limits \<Rightarrow> DurableState \<Rightarrow> bool" where
  "legible l st \<longleftrightarrow>
     records_fit (structural_limits l) st \<and> (\<forall>t \<in> set (st_transitions st). 4 \<le> length (text_value (tr_provenance t)))"

definition standing :: "nat \<Rightarrow> impl \<Rightarrow> bool" where
  "standing n s \<longleftrightarrow>
     running_ok s \<and> saved s \<and> marked (im_disk s) (im_state s) \<and> legible (im_limits s) (im_state s) \<and> payload_size (im_state s) \<le> n"

lemma legible_written:
  assumes "legible l st"
  obtains bs where "encode_durable_payload st = Inr bs" "length bs = payload_size st"
  using encode_durable_payload_ok [of l st] assms payload_length
  by (cases "encode_durable_payload st") (auto simp: legible_def)

lemma legible_storable:
  assumes "legible (so_limits options) st" "validate_durable_state st = Inr ()" "payload_size st \<le> kAbsoluteMaxPayloadLength"
  shows "storable options st"
proof -
  have "4 * length ts \<le> sum_list (map (\<lambda>t. length (text_value (tr_provenance t))) ts)"
    if "\<forall>t \<in> set ts. 4 \<le> length (text_value (tr_provenance t))" for ts
    using that by (induction ts) auto
  then have "history_readable st" using assms(1) by (fastforce simp: legible_def history_readable_def)
  moreover obtain bs where "encode_durable_payload st = Inr bs" "length bs = payload_size st"
    by (rule legible_written [OF assms(1)])
  ultimately show ?thesis using assms by (simp add: storable_def legible_def)
qed

lemma standing_loads:
  assumes "standing n s" "n \<le> kAbsoluteMaxPayloadLength" "op_limits opts = op_limits (im_options s)"
  shows "store_load (store_options opts) io_ok (im_disk s) = Inr (im_state s)"
proof -
  have s: "saved s" "legible (im_limits s) (im_state s)" "payload_size (im_state s) \<le> n" "marked (im_disk s) (im_state s)"
    using assms(1) by (simp_all add: standing_def)
  have "storable (store_options opts) (im_state s)"
    using s assms(2,3) by (intro legible_storable) (simp_all add: saved_def store_options_def)
  then show ?thesis
    using load_image s(1,4) marked_accepts [OF s(4), of opts]
    by (auto simp: saved_def watermark_accepts_def split: sum.splits)
qed

section \<open>The barrier\<close>

lemma validates_established:
  assumes "durable_wf st" "within_ceilings st" "legible l st" "\<not> counter_is_zero (st_current_epoch st)"
  shows "validate_durable_state st = Inr ()"
  using assms by (simp add: validate_durable_state_iff legible_def records_fit_def kAbsoluteMaxRecords_def)

lemma legible_permuted:
  assumes "mset ps = mset (st_participants st)"
  shows "legible l (st\<lparr> st_participants := ps \<rparr>) \<longleftrightarrow> legible l st" "payload_size (st\<lparr> st_participants := ps \<rparr>) = payload_size st"
proof -
  have "set ps = set (st_participants st)" "length ps = length (st_participants st)"
    using assms mset_eq_setD mset_eq_length by blast+
  then show "legible l (st\<lparr> st_participants := ps \<rparr>) \<longleftrightarrow> legible l st"
    by (simp add: legible_def records_fit_def list_all_iff)
  show "payload_size (st\<lparr> st_participants := ps \<rparr>) = payload_size st"
    using sum_list_permuted [OF assms] by (simp add: payload_size_def)
qed

lemma persist_standing:
  assumes "im_options (tx_impl t) = im_options s" "im_disk (tx_impl t) = im_disk s" "im_state (tx_impl t) = u"
    and "marked (im_disk s) st" "st_current_epoch st \<le> st_current_epoch u" "\<not> counter_is_zero (st_current_epoch u)"
    and "durable_wf u" "within_ceilings u" "legible (im_limits s) u" "payload_size u \<le> n" "n \<le> kAbsoluteMaxPayloadLength"
  obtains t' ps where "persist io_ok t = (Inr (), t')" "tx_undo t' = []" "tx_impl t' = committed io_ok (tx_impl t)"
    "standing n (tx_impl t')" "im_options (tx_impl t') = im_options s"
    "mset ps = mset (st_participants u)" "sorted (map dp_id ps)" "im_state (tx_impl t') = u\<lparr> st_participants := ps \<rparr>"
proof -
  define ps where "ps = (if sorted (map dp_id (st_participants u)) then st_participants u else sort_key dp_id (st_participants u))"
  have ps: "mset ps = mset (st_participants u)" "sorted (map dp_id ps)"
    by (simp_all add: ps_def)
  let ?u = "u\<lparr> st_participants := ps \<rparr>"
  have canon: "im_state (canonicalize (tx_impl t)) = ?u"
    using assms(3) by (simp add: canonicalize_def ps_def)
  have legible: "legible (im_limits s) ?u" "payload_size ?u \<le> n"
    using assms(9,10) legible_permuted [OF ps(1)] by simp_all
  have valid: "validate_durable_state ?u = Inr ()"
    using valid_permuted [OF ps(1) assms(7,8)] legible assms(6) by (intro validates_established) simp_all
  obtain bs where bs: "encode_durable_payload ?u = Inr bs" "length bs = payload_size ?u" by (rule legible_written [OF legible(1)])
  have small: "length bs \<le> 4294967295"
    using bs(2) legible(2) assms(11) by (simp add: kAbsoluteMaxPayloadLength_def)
  have mark: "marked (im_disk s) ?u" using marked_later [OF assms(4), of ?u] assms(5) by simp
  have "watermark_accepts (store_options (im_options (tx_impl t))) ?u (im_disk (tx_impl t))"
    using marked_accepts [OF mark] by (simp add: assms(2))
  then obtain t' where t': "persist io_ok t = (Inr (), t')"
    using persist_succeeds [of t bs] valid bs(1) small by (auto simp: canon)
  note r = persist_returns [OF t']
  have state: "im_state (tx_impl t') = ?u" "im_options (tx_impl t') = im_options s"
    using r canon assms(1) by (simp_all add: frame_simps)
  have "im_disk (tx_impl t') = im_disk s \<or> image_saved ?u (im_disk s) (im_disk (tx_impl t'))"
  proof -
    obtain q v where "save_impl io_ok (canonicalize (tx_impl t)) = (q, v)" by fastforce
    with save_impl_disk [OF this] r canon assms(2) show ?thesis by (simp add: committed_def frame_simps)
  qed
  then have "marked (im_disk (tx_impl t')) ?u"
  proof
    assume "image_saved ?u (im_disk s) (im_disk (tx_impl t'))"
    then show ?thesis using marked_saved [OF assms(4)] assms(5) by simp
  qed (use mark in simp)
  moreover have "running_ok (tx_impl t') \<and> saved (tx_impl t')"
  proof -
    have "indexes_match (tx_impl t')" "saved (tx_impl t')" using r by (simp, blast)
    then show ?thesis using state(1) assms(6) by (simp add: saved_running)
  qed
  ultimately have "standing n (tx_impl t')"
    using legible state by (simp add: standing_def)
  with that [OF t' _ _ _ state(2) ps state(1)] r show thesis by simp
qed

lemma standing_running:
  assumes "standing n s"
  shows "running_ok s" "saved s" "\<not> counter_is_zero (st_current_epoch (im_state s))" "legible (im_limits s) (im_state s)"
    "payload_size (im_state s) \<le> n" "marked (im_disk s) (im_state s)"
  using assms by (simp_all add: standing_def running_ok_def)

section \<open>Ample room\<close>

text \<open>No counter is at its end, and the record counts stay below the ceilings of the format.\<close>

definition ample_limits :: "Limits \<Rightarrow> bool" where
  "ample_limits l \<longleftrightarrow>
     max_idempotency_records_per_participant l \<le> kAbsoluteMaxRecords \<and>
     max_fenced_boots_per_participant l \<le> kAbsoluteMaxRecords \<and>
     max_recent_fences l \<le> kAbsoluteMaxRecords \<and> max_transition_history l \<le> kAbsoluteMaxRecords"

definition ample :: "DurableState \<Rightarrow> bool" where
  "ample st \<longleftrightarrow>
     \<not> counter_is_max (st_current_epoch st) \<and> \<not> counter_is_max (st_generation st) \<and>
     \<not> counter_is_max (st_registration_floor st) \<and> \<not> counter_is_max (st_fence_floor st) \<and>
     length (st_participants st) < kAbsoluteMaxRecords \<and>
     (\<forall>p \<in> set (st_participants st).
        \<not> counter_is_max (dp_next_incarnation p) \<and> length (participant_boots p) < kAbsoluteMaxRecords)"

lemma length_push_bounded_ceiling:
  "length xs \<le> k \<Longrightarrow> n \<le> k \<Longrightarrow> 0 < k \<Longrightarrow> length (push_bounded n x xs) \<le> k"
  by (auto simp: push_bounded_def)

lemma sum_push_bounded: "sum_list (map f (push_bounded n x xs)) \<le> sum_list (map f xs) + (f x :: nat)"
  by (cases xs) (simp_all add: push_bounded_def)

section \<open>Fencing\<close>

lemma participant_boots_remove_live:
  assumes "distinct (participant_boots p)"
  shows "participant_boots (remove_live boot p) = filter (\<lambda>b. b \<noteq> boot) (participant_boots p)"
proof -
  have other: "filter (\<lambda>b. b \<noteq> boot) bs = bs" if "boot \<notin> set bs" for bs
    using that by (auto simp: filter_id_conv)
  show ?thesis
    using assms other [of "map ai_boot (dp_extra_incarnations p)"]
    by (auto simp: remove_live_def participant_boots_def filter_map comp_def split: list.split)
qed

definition fenced_record ::
  "Limits \<Rightarrow> FenceWorkerRequest \<Rightarrow> IncarnationSequence \<Rightarrow> FencingGeneration \<Rightarrow> IdempotencyRecord \<Rightarrow> DurableParticipant \<Rightarrow>
   DurableParticipant"
where
  "fenced_record l request seq g r p =
     (fenced_participant l (fw_boot request) seq g p)\<lparr> dp_idempotency := remember_attempt l r (dp_idempotency p) \<rparr>"

lemma fenced_record_fields:
  "dp_id (fenced_record l request seq g r p) = dp_id p"
  "dp_scopes (fenced_record l request seq g r p) = dp_scopes p"
  "dp_retired (fenced_record l request seq g r p) = dp_retired p"
  "dp_policy (fenced_record l request seq g r p) = dp_policy p"
  "dp_registration_generation (fenced_record l request seq g r p) = dp_registration_generation p"
  "dp_next_incarnation (fenced_record l request seq g r p) = dp_next_incarnation p"
  "dp_fence_generation (fenced_record l request seq g r p) = g"
  "dp_idempotency (fenced_record l request seq g r p) = remember_attempt l r (dp_idempotency p)"
  "dp_incarnation_floor (fenced_record l request seq g r p) = max seq (dp_incarnation_floor p)"
  "dp_fenced_boots (fenced_record l request seq g r p) =
     push_bounded (max_fenced_boots_per_participant l) (fw_boot request) (dp_fenced_boots p)"
  "participant_boots (fenced_record l request seq g r p) = participant_boots (remove_live (fw_boot request) p)"
  "currents (fenced_record l request seq g r p) = currents (remove_live (fw_boot request) p)"
  by (auto simp: fenced_record_def fenced_participant_def Let_def raise_floor_def remove_live_def participant_boots_def
      currents_def max_def not_le split: list.splits)

lemma fenced_record_wf:
  assumes "participant_wf st p" "(fw_boot request, seq) \<in> set (currents p)" "st_fence_floor st \<le> g"
    and "ir_attempt r \<noteq> id_nil" "ir_attempt r \<notin> ir_attempt ` set (dp_idempotency p)" "ample_limits l"
  shows "participant_wf (st\<lparr> st_generation := gen, st_fence_floor := g \<rparr>) (fenced_record l request seq g r p)"
proof -
  let ?q = "fenced_record l request seq g r p" and ?boot = "fw_boot request"
  have d: "distinct (participant_boots p)" using assms(1) by (simp add: participant_wf_def)
  have boot: "?boot \<in> set (participant_boots p)" by (rule current_boot [OF assms(2)])
  have boots: "participant_boots ?q = filter (\<lambda>b. b \<noteq> ?boot) (participant_boots p)"
    by (simp only: fenced_record_fields participant_boots_remove_live [OF d])
  have fenced: "dp_fenced_boots ?q = push_bounded (max_fenced_boots_per_participant l) ?boot (dp_fenced_boots p)"
    by (rule fenced_record_fields)
  have free: "?boot \<notin> set (dp_fenced_boots p)" using assms(1) boot by (auto simp: participant_wf_def)
  have seq: "seq < dp_next_incarnation p"
    using assms(1,2) by (auto simp: participant_wf_def currents_def split: if_splits)
  have "length (participant_boots p) \<le> kAbsoluteMaxRecords" using assms(1) by (simp add: participant_wf_def)
  then have "length (participant_boots ?q) \<le> kAbsoluteMaxRecords"
    unfolding boots by (rule order_trans [OF length_filter_le])
  moreover have "distinct (participant_boots ?q)" "id_nil \<notin> set (participant_boots ?q)"
    using assms(1) by (auto simp: boots participant_wf_def)
  moreover have "set (participant_boots ?q) \<inter> set (dp_fenced_boots ?q) = {}"
    using assms(1) by (auto simp: boots fenced participant_wf_def dest!: in_push_boundedD)
  moreover have "distinct (dp_fenced_boots ?q)"
    using distinct_map_push_bounded [of id "dp_fenced_boots p"] free assms(1) by (simp add: fenced participant_wf_def)
  moreover have "length (dp_fenced_boots ?q) \<le> kAbsoluteMaxRecords" "length (dp_idempotency ?q) \<le> kAbsoluteMaxRecords"
    using assms(1,6) unfolding fenced fenced_record_fields remember_attempt_def
    by (auto simp: participant_wf_def ample_limits_def kAbsoluteMaxRecords_def intro!: length_push_bounded_ceiling)
  moreover have "id_nil \<notin> set (dp_fenced_boots ?q)"
    using assms(1) boot by (auto simp: fenced participant_wf_def dest!: in_push_boundedD)
  moreover have "distinct (map ir_attempt (dp_idempotency ?q))" "id_nil \<notin> ir_attempt ` set (dp_idempotency ?q)"
    using assms(1,4,5) by (auto simp: fenced_record_fields remember_attempt_def participant_wf_def
        intro!: distinct_map_push_bounded dest!: in_push_boundedD)
  moreover have "dp_has_active_boot ?q \<longrightarrow> dp_active_incarnation ?q < dp_next_incarnation p \<and> \<not> dp_retired p"
    using assms(1,2)
    by (auto simp: fenced_record_def fenced_participant_def Let_def raise_floor_def remove_live_def participant_wf_def
        currents_def split: list.splits if_splits)
  moreover have "\<forall>i \<in> set (dp_extra_incarnations ?q). ai_sequence i < dp_next_incarnation p \<and> ai_boot i \<noteq> dp_active_boot ?q"
    using assms(1)
    by (auto simp: fenced_record_def fenced_participant_def Let_def raise_floor_def remove_live_def participant_wf_def
        participant_boots_def split: list.splits if_splits) (metis imageI)
  ultimately show ?thesis
    using assms(1,3) seq unfolding participant_wf_def
    by (intro conjI) (simp_all only: fenced_record_fields, auto)
qed

lemma bump_generation_runs:
  assumes "counter_next (st_generation (im_state (tx_impl t))) = Some gen"
  shows "\<exists>t'. bump_generation t = (Inr (), t') \<and> tx_impl t' = set_generation gen (tx_impl t)"
  using assms by (simp add: bump_generation_def run_simps)

lemma live_fence_runs:
  assumes "i < length (im_participants (tx_impl t))"
    and "counter_next (st_fence_floor (im_state (tx_impl t))) = Some g"
    and "counter_next (st_generation (im_state (tx_impl t))) = Some gen"
  shows "\<exists>r t'. live_fence i pid boot seq reason text t = (Inr r, t') \<and> tx_mutated t' \<and>
    fo_outcome r = FenceOutcome.Fenced \<and> fo_generation r = Some g \<and> fo_incarnation r = Some seq \<and>
    im_options (tx_impl t') = im_options (tx_impl t) \<and> im_disk (tx_impl t') = im_disk (tx_impl t) \<and>
    im_participant_index (tx_impl t') = im_participant_index (tx_impl t) \<and>
    im_state (tx_impl t') = (im_state (tx_impl t))\<lparr> st_generation := gen, st_fence_floor := g,
      st_participants := (im_participants (tx_impl t))
        [i := fenced_participant (im_limits (tx_impl t)) boot seq g (participant_at (tx_impl t) i)],
      st_recent_fences := push_bounded (max_recent_fences (im_limits (tx_impl t)))
        (fence_record (im_state (tx_impl t)) pid boot reason text g seq) (st_recent_fences (im_state (tx_impl t))) \<rparr>"
proof -
  let ?s = "tx_impl t"
  have same: "im_options (close_incarnation i boot seq ?s) = im_options ?s"
    "im_disk (close_incarnation i boot seq ?s) = im_disk ?s"
    "im_participant_index (close_incarnation i boot seq ?s) = im_participant_index ?s"
    "im_state (close_incarnation i boot seq ?s) = (im_state ?s)\<lparr> st_participants :=
       (im_participants ?s)[i := raise_floor seq (remove_live boot (participant_at ?s i))] \<rparr>"
    using assms(1) by (simp_all add: close_incarnation_def upd_participant_def upd_state_def participant_at_def)
  show ?thesis
    using assms same
    by (simp add: live_fence_def run_simps bump_generation_def set_generation_def fence_result_def set_fence_generation_def
        retain_fence_def fenced_participant_def fence_record_def participant_at_def)
qed

text \<open>The state that a fence of a current incarnation leaves.\<close>

definition fenced_state ::
  "Limits \<Rightarrow> FenceWorkerRequest \<Rightarrow> EpochGeneration \<Rightarrow> FencingGeneration \<Rightarrow> IncarnationSequence \<Rightarrow>
   DurableParticipant list \<Rightarrow> DurableState \<Rightarrow> DurableState"
where
  "fenced_state l request gen g seq ps st =
     st\<lparr> st_generation := gen, st_fence_floor := g, st_participants := ps,
       st_recent_fences := push_bounded (max_recent_fences l)
         (fence_record st (fw_participant request) (fw_boot request) (fw_reason request) (fw_note request) g seq)
         (st_recent_fences st) \<rparr>"

lemma fenced_state_participants:
  "(fenced_state l request gen g seq qs st)\<lparr> st_participants := ps \<rparr> = fenced_state l request gen g seq ps st"
  "st_participants (fenced_state l request gen g seq ps st) = ps"
  by (rule DurableState.equality; simp add: fenced_state_def) (simp add: fenced_state_def)

lemma raised_fence_floor_wf:
  assumes "participant_wf st p" "st_fence_floor st \<le> g"
  shows "participant_wf (st\<lparr> st_generation := gen, st_fence_floor := g \<rparr>) p"
  using assms by (auto simp: participant_wf_def)

lemma fenced_state_wf:
  assumes "durable_wf st" "within_ceilings st" "st_participants st = A @ p # B"
    and "counter_next (st_generation st) = Some gen" "counter_next (st_fence_floor st) = Some g"
    and "participant_wf (st\<lparr> st_generation := gen, st_fence_floor := g \<rparr>) q"
    and "dp_id q = dp_id p" "participant_boots q = filter P (participant_boots p)"
    and "fw_boot request \<noteq> id_nil" "ample_limits l"
    and "(fw_participant request, fw_boot request) \<notin> (\<lambda>f. (fr_participant f, fr_boot f)) ` set (st_recent_fences st)"
  shows "durable_wf (fenced_state l request gen g seq (A @ q # B) st)"
    and "within_ceilings (fenced_state l request gen g seq (A @ q # B) st)"
proof -
  let ?u = "st\<lparr> st_generation := gen, st_fence_floor := g \<rparr>"
  let ?st = "fenced_state l request gen g seq (A @ q # B) st"
  have same: "participant_wf ?st x \<longleftrightarrow> participant_wf ?u x" "grant_wf ?st y \<longleftrightarrow> grant_wf st y" for x y
    by (simp_all add: participant_wf_def grant_wf_def fenced_state_def)
  have g: "st_fence_floor st \<le> g" using counter_next_less [OF assms(5)] by simp
  have "\<forall>x \<in> set (A @ p # B). participant_wf ?u x"
    using assms(1) raised_fence_floor_wf [OF _ g] by (auto simp: durable_wf_def simp flip: assms(3))
  then have "\<forall>x \<in> set (A @ q # B). participant_wf ?st x"
    using assms(6) by (auto simp: same)
  moreover have "length (st_transitions st) \<le> counter_nat gen"
    using assms(1,4) by (auto simp: durable_wf_def counter_next_eq_Some)
  moreover have "distinct (map dp_id (A @ q # B))"
    using assms(1,7) by (simp add: durable_wf_def assms(3))
  moreover have "distinct (concat (map participant_boots (A @ q # B)))"
    using assms(1) by (auto simp: durable_wf_def assms(3,8))
  moreover have "\<forall>f \<in> set (st_recent_fences ?st).
      fr_boot f \<noteq> id_nil \<and> fr_generation f \<le> g \<and> fr_epoch f \<le> st_current_epoch st"
    using assms(1,9) g by (auto simp: durable_wf_def fenced_state_def fence_record_def dest!: in_push_boundedD)
  moreover have "distinct (map (\<lambda>f. (fr_participant f, fr_boot f)) (st_recent_fences ?st))"
    using assms(1,11) by (auto simp: durable_wf_def fenced_state_def fence_record_def intro!: distinct_map_push_bounded)
  ultimately show "durable_wf ?st"
    using assms(1) unfolding durable_wf_def same by (simp add: fenced_state_def)
  have "length (st_recent_fences ?st) \<le> kAbsoluteMaxRecords"
    using assms(2,10)
    by (auto simp: within_ceilings_def fenced_state_def ample_limits_def kAbsoluteMaxRecords_def intro!: length_push_bounded_ceiling)
  with assms(2) show "within_ceilings ?st" by (simp add: within_ceilings_def fenced_state_def assms(3))
qed

text \<open>What a fence needs to take effect on the record \<open>p\<close> with the incarnation \<open>seq\<close>.\<close>

definition fenceable :: "impl \<Rightarrow> FenceWorkerRequest \<Rightarrow> DurableParticipant \<Rightarrow> IncarnationSequence \<Rightarrow> bool" where
  "fenceable s request p seq \<longleftrightarrow>
     p \<in> set (im_participants s) \<and> dp_id p = fw_participant request \<and> (fw_boot request, seq) \<in> set (currents p) \<and>
     fw_attempt request \<noteq> id_nil \<and> fw_attempt request \<notin> ir_attempt ` set (dp_idempotency p) \<and>
     fw_expected_epoch request = st_current_epoch (im_state s)"

lemma fence_digest_exists:
  assumes "w_pid (fw_participant request) = Inr a"
  shows "\<exists>d. fence_digest request = Inr d"
proof -
  have "\<exists>bs. w_seq [w_u8 (operation_kind_wire OperationKind.FenceWorker), w_pid (fw_participant request), w_id (fw_boot request),
      w_u8 (fence_reason_wire (fw_reason request))] = Inr bs"
    unfolding w_seq_all using assms by (simp add: w_u8_def w_id_def w_fixed16_def w_raw_def)
  then show ?thesis by (auto simp: fence_digest_def digest_of_def)
qed

lemma fence_runs:
  assumes "standing n s" "\<not> fl_fenced (lookup_fence s (fw_participant request) (fw_boot request))" "fenceable s request p seq"
    and "counter_next (st_generation (im_state s)) = Some gen" "counter_next (st_fence_floor (im_state s)) = Some g"
  obtains r t A B rec where "im_participants s = A @ p # B" "fence_body request (begin_tx s) = (Inr r, t)" "tx_mutated t"
    "fo_outcome r = FenceOutcome.Fenced" "fo_generation r = Some g" "fo_incarnation r = Some seq"
    "im_options (tx_impl t) = im_options s" "im_disk (tx_impl t) = im_disk s" "ir_attempt rec = fw_attempt request"
    "im_state (tx_impl t) =
       fenced_state (im_limits s) request gen g seq (A @ fenced_record (im_limits s) request seq g rec p # B) (im_state s)"
proof -
  let ?st = "im_state s" and ?pid = "fw_participant request" and ?boot = "fw_boot request"
  have p: "p \<in> set (im_participants s)" "dp_id p = ?pid" "(?boot, seq) \<in> set (currents p)"
    "fw_attempt request \<notin> ir_attempt ` set (dp_idempotency p)" "fw_attempt request \<noteq> id_nil"
    "fw_expected_epoch request = st_current_epoch ?st"
    using assms(3) by (simp_all add: fenceable_def)
  note ok = standing_running [OF assms(1)]
  have wf: "participant_wf ?st p" by (rule wf_saved [OF ok(1,2) p(1)])
  obtain i where i: "find_participant s ?pid = Some i" "participant_at s i = p" "i < length (im_participants s)"
    using find_participant_unique [OF ok(1) p(1)] unfolding p(2) by blast
  have boot: "?boot \<in> set (participant_boots p)" by (rule current_boot [OF p(3)])
  have screen: "fence_screen ?st request = None"
    using wf boot p by (auto simp: fence_screen_def id_is_nil_iff participant_wf_def)
  obtain old where old: "encode_durable_payload ?st = Inr old" by (rule saved_payload [OF ok(2)])
  obtain a where "w_participant p = Inr a" using saved_records_written [OF old] p(1) by blast
  then obtain b where "w_pid (dp_id p) = Inr b" using participant_written by blast
  then obtain d where d: "fence_digest request = Inr d" using fence_digest_exists p(2) by metis
  have attempt: "find_attempt (dp_idempotency p) (fw_attempt request) = None" by (rule find_attempt_None [OF p(4)])
  have free: "\<not> fl_fenced (lookup_fence s ?pid ?boot)" by (rule assms(2))
  have seq: "find_incarnation p ?boot = Some seq"
    using find_incarnation_iff [of p ?boot seq] wf p(3) by (simp add: participant_wf_def)
  have b: "tx_impl (begin_tx s) = s" by (simp add: begin_tx_def)
  obtain r t1 where t1: "live_fence i ?pid ?boot seq (fw_reason request) (fw_note request) (begin_tx s) = (Inr r, t1)" "tx_mutated t1"
    "fo_outcome r = FenceOutcome.Fenced" "fo_generation r = Some g" "fo_incarnation r = Some seq"
    "im_options (tx_impl t1) = im_options s" "im_disk (tx_impl t1) = im_disk s"
    "im_participant_index (tx_impl t1) = im_participant_index s"
    "im_state (tx_impl t1) = fenced_state (im_limits s) request gen g seq
       ((im_participants s)[i := fenced_participant (im_limits s) ?boot seq g p]) ?st"
    using live_fence_runs [of i "begin_tx s" g gen ?pid ?boot seq "fw_reason request" "fw_note request"] assms(4,5) i
    unfolding b fenced_state_def by blast
  define rec where "rec = fence_attempt_record request d r"
  let ?t = "t1\<lparr> tx_impl := remember_for_participant rec i (tx_impl t1) \<rparr>"
  have "find_participant (tx_impl t1) ?pid = Some i"
    using find_participant_cong [of "tx_impl t1" s ?pid] i(1) t1(8,9) by (simp add: fenced_state_def)
  moreover have "record_fence ?pid ?boot (fw_reason request) (fw_note request) True (begin_tx s) = (Inr r, t1)"
    using t1(1) i free seq by (simp add: record_fence_def b tx_basic tx_bind_apply Let_def)
  ultimately have body: "fence_body request (begin_tx s) = (Inr r, ?t)"
    using t1(2) screen i d attempt
    by (simp add: fence_body_def b tx_basic tx_bind_apply tx_bind_lift Let_def rec_def
        tx_bind_def [of "record_fence p b' c d e" for p b' c d e])
  let ?A = "take i (im_participants s)" and ?B = "drop (Suc i) (im_participants s)"
  have split: "im_participants s = ?A @ p # ?B"
    using id_take_nth_drop [OF i(3)] i(2) by (simp add: participant_at_def)
  have updated: "(im_participants s)[i := x] = ?A @ x # ?B" for x by (rule upd_conv_take_nth_drop [OF i(3)])
  have "im_state (tx_impl ?t) =
      fenced_state (im_limits s) request gen g seq ((im_participants s)[i := fenced_record (im_limits s) request seq g rec p]) ?st"
    using i(3) t1(6,9)
    by (simp add: remember_for_participant_def upd_participant_def upd_state_def fenced_state_def fenced_record_def
        fenced_participant_fields)
  moreover have "im_options (tx_impl ?t) = im_options s" "im_disk (tx_impl ?t) = im_disk s" "tx_mutated ?t"
    using t1(2,6,7) by (simp_all add: remember_for_participant_def upd_participant_def upd_state_def)
  moreover have "ir_attempt rec = fw_attempt request" by (simp add: rec_def fence_attempt_record_def)
  ultimately show thesis using that [OF split body] t1(3-5) unfolding updated by blast
qed

lemma record_size_fenced:
  assumes "w_participant p = Inr a"
  shows "\<exists>b. w_participant (fenced_record l request seq g r p) = Inr b"
    "record_size (fenced_record l request seq g r p) \<le> record_size p + 99"
proof -
  let ?q = "fenced_record l request seq g r p"
  show ok: "\<exists>b. w_participant ?q = Inr b"
    using assms participant_written [of p] participant_written [of ?q] by (auto simp: fenced_record_fields)
  have "length (dp_extra_incarnations ?q) \<le> length (dp_extra_incarnations p)"
    using length_filter_le [of "\<lambda>i. ai_boot i \<noteq> fw_boot request" "dp_extra_incarnations p"]
    by (auto simp: fenced_record_def fenced_participant_def Let_def raise_floor_def remove_live_def split: list.split)
  moreover have "length (dp_fenced_boots ?q) \<le> Suc (length (dp_fenced_boots p))"
    "length (dp_idempotency ?q) \<le> Suc (length (dp_idempotency p))"
    by (simp_all only: fenced_record_fields remember_attempt_def length_push_bounded_le)
  ultimately show "record_size ?q \<le> record_size p + 99"
    using ok record_size_parts [OF assms] record_size_parts [of ?q] by (auto simp: fenced_record_fields(1,2))
qed

lemma fence_size_bound:
  assumes "fence_fits (structural_limits l) f"
  shows "fence_size f \<le> 4273"
proof -
  have "length (pid_value (fr_participant f)) \<le> 128" "length (text_value (fr_note f)) \<le> 4096"
    using assms by (auto simp: fence_fits_def pid_fits_def text_fits_def string_fits_def text_is_valid_def pid_max_length_def
        kAbsoluteMaxDurableText_def)
  then show ?thesis using assms by (auto simp: fence_size_def w_fence_def fence_fits_def codec_simps)
qed

lemma fenced_state_legible:
  assumes "legible l st" "st_participants st = A @ p # B" "participant_wf st' q" "q = fenced_record l request seq g r p"
    and "dp_id p = fw_participant request" "text_fits (structural_limits l) (fw_note request)" "ample_limits l"
  shows "legible l (fenced_state l request gen g seq (A @ q # B) st)"
    and "payload_size (fenced_state l request gen g seq (A @ q # B) st) \<le> payload_size st + 4400"
proof -
  let ?f = "fence_record st (fw_participant request) (fw_boot request) (fw_reason request) (fw_note request) g seq"
  let ?fs = "push_bounded (max_recent_fences l) ?f (st_recent_fences st)"
  have fits: "\<forall>x \<in> set (A @ p # B). participant_fits (structural_limits l) x"
    using assms(1) by (simp add: legible_def records_fit_def list_all_iff assms(2))
  have "participant_fits (structural_limits l) q"
    using fits assms(3) unfolding participant_fits_def
    by (auto simp: participant_wf_def kAbsoluteMaxRecords_def participant_boots_def) (simp_all add: assms(4) fenced_record_fields)
  moreover have f: "fence_fits (structural_limits l) ?f"
    using fits assms(5,6) by (auto simp: fence_fits_def fence_record_def participant_fits_def)
  then have "\<forall>x \<in> set ?fs. fence_fits (structural_limits l) x"
    using assms(1) by (auto simp: legible_def records_fit_def list_all_iff dest!: in_push_boundedD)
  moreover have "length ?fs \<le> kAbsoluteMaxRecords"
    using assms(1,7) by (auto simp: legible_def records_fit_def ample_limits_def kAbsoluteMaxRecords_def intro!: length_push_bounded_ceiling)
  ultimately show "legible l (fenced_state l request gen g seq (A @ q # B) st)"
    using assms(1,2) by (auto simp: legible_def records_fit_def list_all_iff fenced_state_def kAbsoluteMaxRecords_def)
  have "\<exists>a. w_participant p = Inr a"
    using participant_codec.enc_ok [of l p] fits by (cases "w_participant p") auto
  then have "record_size q \<le> record_size p + 99" using record_size_fenced(2) assms(4) by blast
  moreover have "sum_list (map fence_size ?fs) \<le> sum_list (map fence_size (st_recent_fences st)) + 4273"
    using sum_push_bounded [of fence_size "max_recent_fences l" ?f "st_recent_fences st"] fence_size_bound [OF f] by simp
  ultimately show "payload_size (fenced_state l request gen g seq (A @ q # B) st) \<le> payload_size st + 4400"
    by (simp add: payload_size_def fenced_state_def assms(2))
qed

text \<open>A transaction on a standing coordinator whose state the format admits.\<close>

lemma run_tx_standing:
  assumes "standing n s" "body (begin_tx s) = (Inr r, t)" "tx_mutated t"
    and "im_options (tx_impl t) = im_options s" "im_disk (tx_impl t) = im_disk s" "im_state (tx_impl t) = u"
    and "st_current_epoch u = st_current_epoch (im_state s)" "durable_wf u" "within_ceilings u" "legible (im_limits s) u"
    and "payload_size u \<le> m" "m \<le> kAbsoluteMaxPayloadLength"
  obtains s' ps where "run_tx io_ok body s = (Inr r, s')" "standing m s'" "im_options s' = im_options s"
    "mset ps = mset (st_participants u)" "sorted (map dp_id ps)" "im_state s' = u\<lparr> st_participants := ps \<rparr>"
proof -
  have s: "marked (im_disk s) (im_state s)" "\<not> counter_is_zero (st_current_epoch (im_state s))"
    using assms(1) by (simp_all add: standing_def running_ok_def)
  obtain t' ps where t': "persist io_ok t = (Inr (), t')" "standing m (tx_impl t')" "im_options (tx_impl t') = im_options s"
    "mset ps = mset (st_participants u)" "sorted (map dp_id ps)" "im_state (tx_impl t') = u\<lparr> st_participants := ps \<rparr>"
    by (rule persist_standing [OF assms(4-6) s(1) _ _ assms(8-12)]) (use s assms(7) in simp_all)
  from run_tx_persisted [where body = body and s = s and r = r, OF assms(2,3) t'(1)] t'(2-6)
  show thesis by (rule that)
qed

lemma counters_left:
  assumes "ample st"
  obtains e gen g f where "counter_next (st_current_epoch st) = Some e" "counter_next (st_generation st) = Some gen"
    "counter_next (st_registration_floor st) = Some g" "counter_next (st_fence_floor st) = Some f"
  using assms counter_next_exists unfolding ample_def by metis

lemma fence_standing:
  assumes "standing n s" "\<not> fl_fenced (lookup_fence s (fw_participant request) (fw_boot request))" "fenceable s request p seq"
    and "text_fits (structural_limits (im_limits s)) (fw_note request)" "ample (im_state s)" "ample_limits (im_limits s)"
    and "n + 4400 \<le> kAbsoluteMaxPayloadLength"
  obtains r s' A B q gen g ps rec where "fence_worker io_ok request s = (Inr r, s')" "fo_outcome r = FenceOutcome.Fenced"
    "fo_generation r = Some g" "fo_incarnation r = Some seq"
    "standing (n + 4400) s'" "im_options s' = im_options s" "im_participants s = A @ p # B"
    "q = fenced_record (im_limits s) request seq g rec p" "ir_attempt rec = fw_attempt request"
    "counter_next (st_generation (im_state s)) = Some gen" "counter_next (st_fence_floor (im_state s)) = Some g"
    "mset ps = mset (A @ q # B)" "im_state s' = fenced_state (im_limits s) request gen g seq ps (im_state s)"
proof -
  let ?st = "im_state s" and ?l = "im_limits s"
  note ok = standing_running [OF assms(1)]
  obtain gen g where c: "counter_next (st_generation ?st) = Some gen" "counter_next (st_fence_floor ?st) = Some g"
    by (rule counters_left [OF assms(5)])
  obtain r t A B rec where t: "im_participants s = A @ p # B" "fence_body request (begin_tx s) = (Inr r, t)" "tx_mutated t"
    "fo_outcome r = FenceOutcome.Fenced" "fo_generation r = Some g" "fo_incarnation r = Some seq"
    "im_options (tx_impl t) = im_options s" "im_disk (tx_impl t) = im_disk s" "ir_attempt rec = fw_attempt request"
    "im_state (tx_impl t) = fenced_state ?l request gen g seq (A @ fenced_record ?l request seq g rec p # B) ?st"
    by (rule fence_runs [OF assms(1-3) c])
  define q where "q = fenced_record ?l request seq g rec p"
  let ?u = "fenced_state ?l request gen g seq (A @ q # B) ?st"
  have p: "p \<in> set (im_participants s)" "dp_id p = fw_participant request" "(fw_boot request, seq) \<in> set (currents p)"
    "fw_attempt request \<noteq> id_nil" "fw_attempt request \<notin> ir_attempt ` set (dp_idempotency p)"
    using assms(3) by (simp_all add: fenceable_def)
  have wf: "participant_wf ?st p" by (rule wf_saved [OF ok(1,2) p(1)])
  have boot: "fw_boot request \<in> set (participant_boots p)" by (rule current_boot [OF p(3)])
  have nonnil: "fw_boot request \<noteq> id_nil" using wf boot by (auto simp: participant_wf_def)
  have q_wf: "participant_wf (?st\<lparr> st_generation := gen, st_fence_floor := g \<rparr>) q"
    unfolding q_def
    by (rule fenced_record_wf [OF wf p(3)]) (use counter_next_less [OF c(2)] p(4,5) t(9) assms(6) in simp_all)
  have boots: "participant_boots q = filter (\<lambda>b. b \<noteq> fw_boot request) (participant_boots p)"
    using wf by (simp add: q_def fenced_record_fields participant_boots_remove_live participant_wf_def)
  have free: "(fw_participant request, fw_boot request) \<notin> (\<lambda>f. (fr_participant f, fr_boot f)) ` set (st_recent_fences ?st)"
    using assms(2) lookup_fence_iff [OF ok(1) p(1)] by (auto simp: p(2))
  note wfs = saved_wf [OF ok(2,3)]
  have id: "dp_id q = dp_id p" by (simp add: q_def fenced_record_fields)
  note u = fenced_state_wf [OF wfs t(1) c q_wf id boots nonnil assms(6) free]
  note legible = fenced_state_legible [OF ok(4) t(1) q_wf q_def p(2) assms(4,6)]
  have small: "payload_size ?u \<le> n + 4400" using legible(2) [of gen] ok(5) by linarith
  have epoch: "st_current_epoch ?u = st_current_epoch ?st" by (simp add: fenced_state_def)
  obtain s' ps where s': "run_tx io_ok (fence_body request) s = (Inr r, s')" "standing (n + 4400) s'"
    "im_options s' = im_options s" "mset ps = mset (st_participants ?u)" "im_state s' = ?u\<lparr> st_participants := ps \<rparr>"
    by (rule run_tx_standing [of n s "fence_body request" r t ?u "n + 4400",
          OF assms(1) t(2,3,7,8) t(10) [folded q_def] epoch u legible(1) small assms(7)])
  show thesis
    by (rule that [OF _ t(4-6) s'(2,3) t(1) q_def t(9) c])
      (use s' in \<open>simp_all add: fence_worker_def fenced_state_participants\<close>)
qed

section \<open>Registering\<close>

lemma standing_room:
  assumes "standing n s" "ample (im_state s)" "ample_limits (im_limits s)" "registration_bytes request = Inr bs"
    and "n + length bs + 200 \<le> kAbsoluteMaxPayloadLength"
  shows "has_room s request"
proof -
  obtain old where "encode_durable_payload (im_state s) = Inr old" "length old = payload_size (im_state s)"
    using assms(1) legible_written by (auto simp: standing_def)
  then show ?thesis
    using assms by (auto simp: has_room_def ample_def ample_limits_def standing_def kAbsoluteMaxPayloadLength_def)
qed

lemma entered_legible:
  assumes "enters s request A P B q u" "legible l (im_state s)" "durable_wf u" "within_ceilings u"
    and "pid_fits (structural_limits l) (rp_participant request)" "scope_set_fits (structural_limits l) (rp_scopes request)"
    and "registration_bytes request = Inr bs"
  shows "legible l u" "payload_size u \<le> payload_size (im_state s) + length bs + 200"
proof -
  have split: "im_participants s = A @ P @ B" "st_participants u = A @ q # B" "dp_id q = rp_participant request"
    "dp_scopes q = rp_scopes request"
    using assms(1) by (auto simp: enters_def issued_record_fields)
  have same: "st_grants u = st_grants (im_state s)" "st_transitions u = st_transitions (im_state s)"
    "st_control_attempts u = st_control_attempts (im_state s)" "st_recent_fences u = st_recent_fences (im_state s)"
    using assms(1) by (auto simp: enters_def)
  have fits: "\<forall>x \<in> set (A @ P @ B). participant_fits (structural_limits l) x"
    using assms(2) by (simp add: legible_def records_fit_def list_all_iff flip: split(1))
  have "participant_wf u q" using assms(3) split(2) by (simp add: durable_wf_def)
  then have "participant_fits (structural_limits l) q"
    unfolding participant_fits_def split(3,4)
    using assms(5,6) by (auto simp: participant_wf_def kAbsoluteMaxRecords_def participant_boots_def)
  then show "legible l u"
    using assms(2,4) fits unfolding legible_def records_fit_def list_all_iff split same
    by (auto simp: within_ceilings_def split(2) kAbsoluteMaxRecords_def)
  have "\<exists>a. w_participant x = Inr a" if "x \<in> set P" for x
    using participant_codec.enc_ok [of l x] fits that by (cases "w_participant x") auto
  then have "record_size q \<le> sum_list (map record_size P) + length bs + 200"
    using entered_record_written [OF assms(1,7)] by blast
  then show "payload_size u \<le> payload_size (im_state s) + length bs + 200"
    by (simp add: payload_size_def split same)
qed

lemma registration_standing:
  assumes "standing n s" "admissible s request" "ample (im_state s)" "ample_limits (im_limits s)"
    and "pid_fits (structural_limits (im_limits s)) (rp_participant request)"
    and "scope_set_fits (structural_limits (im_limits s)) (rp_scopes request)"
    and "registration_bytes request = Inr bs" "n + length bs + 200 \<le> kAbsoluteMaxPayloadLength"
  obtains r s' A P B q u ps where "register_participant io_ok request s = (Inr r, s')" "enters s request A P B q u"
    "registers_as (st_current_epoch (im_state s)) (dp_registration_generation q) (dp_next_incarnation (record_before s request)) r"
    "standing (n + length bs + 200) s'" "im_options s' = im_options s"
    "mset ps = mset (A @ q # B)" "im_state s' = u\<lparr> st_participants := ps \<rparr>"
proof -
  note ok = standing_running [OF assms(1)]
  note room = standing_room [OF assms(1,3,4,7,8)]
  obtain r t A P B q u where u: "enters s request A P B q u" "durable_wf u" "within_ceilings u"
    and t: "apply_registration request True (begin_tx s) = (Inr r, t)" "tx_mutated t"
    "registers_as (st_current_epoch (im_state s)) (dp_registration_generation q) (dp_next_incarnation (record_before s request)) r"
    "im_options (tx_impl t) = im_options s" "im_disk (tx_impl t) = im_disk s" "im_state (tx_impl t) = u"
    by (rule admissible_runs [OF ok(1) assms(2) room ok(2)])
  note legible = entered_legible [OF u(1) ok(4) u(2,3) assms(5-7)]
  have small: "payload_size u \<le> n + length bs + 200" using legible(2) ok(5) by linarith
  have epoch: "st_current_epoch u = st_current_epoch (im_state s)" and list: "st_participants u = A @ q # B"
    using u(1) by (auto simp: enters_def)
  obtain s' ps where s': "run_tx io_ok (apply_registration request True) s = (Inr r, s')" "standing (n + length bs + 200) s'"
    "im_options s' = im_options s" "mset ps = mset (st_participants u)" "im_state s' = u\<lparr> st_participants := ps \<rparr>"
    by (rule run_tx_standing [of n s "apply_registration request True" r t u "n + length bs + 200",
          OF assms(1) t(1,2,4-6) epoch u(2,3) legible(1) small assms(8)])
  show thesis
    by (rule that [OF _ u(1) t(3) s'(2,3)]) (use s' list in \<open>simp_all add: register_participant_def\<close>)
qed

section \<open>Entering an epoch\<close>

definition entered_state ::
  "Limits \<Rightarrow> bool \<Rightarrow> CoordinatorEpoch \<Rightarrow> EpochGeneration \<Rightarrow> EpochTransitionRecord \<Rightarrow> DurableState \<Rightarrow> DurableState"
where
  "entered_state l invalidate e gen tr st =
     st\<lparr> st_current_epoch := e, st_coordinator_boot := tr_coordinator_boot tr, st_generation := gen,
       st_participants := (if invalidate then map invalidate_participant (st_participants st) else st_participants st),
       st_transitions := push_bounded (max_transition_history l) tr (st_transitions st) \<rparr>"

lemma mutate_epoch_runs:
  assumes "counter_next (st_current_epoch (im_state (tx_impl t))) = Some e"
    and "counter_next (st_generation (im_state (tx_impl t))) = Some gen" "en_transition env = Inr tid"
  shows "\<exists>t'. mutate_epoch env boot cause invalidate t = (Inr (), t') \<and>
    im_options (tx_impl t') = im_options (tx_impl t) \<and> im_disk (tx_impl t') = im_disk (tx_impl t) \<and>
    im_state (tx_impl t') = entered_state (im_limits (tx_impl t)) invalidate e gen
      (transition_record (im_state (tx_impl t)) e gen boot cause (op_provenance (im_options (tx_impl t))) tid)
      (im_state (tx_impl t))"
  using assms
  by (simp add: mutate_epoch_def run_simps set_epoch_def enter_epoch_def push_transition_def entered_state_def
      transition_record_def)

lemma invalidated_wf: "participant_wf st p \<Longrightarrow> participant_wf st (invalidate_participant p)"
  by (auto simp: participant_wf_def invalidate_participant_def participant_boots_def counter_less_iff)

lemma entered_state_wf:
  assumes "durable_wf st" "within_ceilings st" "counter_next (st_current_epoch st) = Some e"
    and "counter_next (st_generation st) = Some gen" "tr = transition_record st e gen boot cause text tid"
    and "tid \<noteq> id_nil" "tid \<notin> tr_id ` set (st_transitions st)" "ample_limits l"
  shows "durable_wf (entered_state l invalidate e gen tr st)" "within_ceilings (entered_state l invalidate e gen tr st)"
proof -
  let ?u = "entered_state l invalidate e gen tr st"
  have e: "st_current_epoch st < e" by (rule counter_next_less [OF assms(3)])
  then have later: "x \<le> st_current_epoch st \<Longrightarrow> x \<le> e" for x by simp
  have tr: "tr_to_epoch tr = e" "tr_from_epoch tr = st_current_epoch st" "tr_id tr = tid"
    by (simp_all add: assms(5) transition_record_def)
  have "participant_wf ?u p \<longleftrightarrow> participant_wf st p" for p
    by (simp add: participant_wf_def entered_state_def)
  then have "\<forall>p \<in> set (st_participants ?u). participant_wf ?u p"
    using assms(1) by (auto simp: durable_wf_def entered_state_def invalidated_wf)
  moreover have "\<forall>x \<in> set (st_transitions ?u).
      tr_to_epoch x \<le> e \<and> tr_from_epoch x < tr_to_epoch x \<and> tr_id x \<noteq> id_nil"
    using assms(1,6) e tr by (auto simp: durable_wf_def entered_state_def later dest!: in_push_boundedD)
  moreover have "distinct (map tr_id (st_transitions ?u))"
    using assms(1,7) tr by (auto simp: durable_wf_def entered_state_def intro!: distinct_map_push_bounded)
  moreover have "length (st_transitions ?u) \<le> counter_nat gen"
    using assms(1,4) length_push_bounded_le [of "max_transition_history l" tr "st_transitions st"]
    by (auto simp: durable_wf_def entered_state_def counter_next_eq_Some)
  moreover have "map dp_id (st_participants ?u) = map dp_id (st_participants st)"
    by (simp add: entered_state_def invalidate_participant_def comp_def)
  moreover have "distinct (concat (map participant_boots (st_participants ?u)))"
  proof -
    have "participant_boots (invalidate_participant x) = []" for x
      by (simp add: invalidate_participant_def participant_boots_def)
    then show ?thesis using assms(1) by (simp add: durable_wf_def entered_state_def comp_def map_replicate_const)
  qed
  moreover have "\<forall>g \<in> set (st_grants st). grant_wf ?u g"
    using assms(1) by (auto simp: durable_wf_def grant_wf_def entered_state_def later)
  moreover have "\<forall>f \<in> set (st_recent_fences st). fr_epoch f \<le> e"
    using assms(1) by (auto simp: durable_wf_def later)
  ultimately show "durable_wf ?u"
    using assms(1) unfolding durable_wf_def by (simp add: entered_state_def)
  have "length (st_transitions ?u) \<le> kAbsoluteMaxRecords"
    using assms(2,8) by (auto simp: within_ceilings_def entered_state_def ample_limits_def kAbsoluteMaxRecords_def
        intro!: length_push_bounded_ceiling)
  with assms(2) show "within_ceilings ?u" by (simp add: within_ceilings_def entered_state_def)
qed

lemma transition_size_bound:
  assumes "text_fits (structural_limits l) (tr_provenance tr)"
  shows "length (projr (w_transition tr)) \<le> 4157"
  using assms length_w_transition [of "structural_limits l" tr]
  by (simp add: transition_fits_def text_fits_def text_is_valid_def)

lemma invalidated_size:
  assumes "w_participant p = Inr a"
  shows "record_size (invalidate_participant p) \<le> record_size p"
proof -
  have "\<exists>b. w_participant (invalidate_participant p) = Inr b"
    using assms participant_written [of p] participant_written [of "invalidate_participant p"]
    by (auto simp: invalidate_participant_def)
  then show ?thesis
    using record_size_parts [OF assms] record_size_parts [of "invalidate_participant p"]
    by (auto simp: invalidate_participant_def)
qed

lemma entered_state_legible:
  assumes "legible l st" "text_fits (structural_limits l) (tr_provenance tr)" "4 \<le> length (text_value (tr_provenance tr))"
    and "ample_limits l"
  shows "legible l (entered_state l invalidate e gen tr st)"
    and "payload_size (entered_state l invalidate e gen tr st) \<le> payload_size st + 4157"
proof -
  let ?ts = "push_bounded (max_transition_history l) tr (st_transitions st)"
  have fits: "\<forall>x \<in> set (st_participants st). participant_fits (structural_limits l) x"
    using assms(1) by (simp add: legible_def records_fit_def list_all_iff)
  have "participant_fits (structural_limits l) (invalidate_participant x)" if "x \<in> set (st_participants st)" for x
    using fits that by (auto simp: participant_fits_def invalidate_participant_def)
  moreover have "\<forall>x \<in> set ?ts. transition_fits (structural_limits l) x \<and> 4 \<le> length (text_value (tr_provenance x))"
    using assms(1-3) by (auto simp: legible_def records_fit_def list_all_iff transition_fits_def dest!: in_push_boundedD)
  moreover have "length ?ts \<le> kAbsoluteMaxRecords"
    using assms(1,4) by (auto simp: legible_def records_fit_def ample_limits_def kAbsoluteMaxRecords_def intro!: length_push_bounded_ceiling)
  ultimately show "legible l (entered_state l invalidate e gen tr st)"
    using assms(1) by (auto simp: legible_def records_fit_def list_all_iff entered_state_def kAbsoluteMaxRecords_def)
  have "record_size (invalidate_participant x) \<le> record_size x" if "x \<in> set (st_participants st)" for x
    using invalidated_size participant_codec.enc_ok [of l x] fits that by (cases "w_participant x") auto
  then have "sum_list (map record_size (st_participants (entered_state l invalidate e gen tr st))) \<le>
      sum_list (map record_size (st_participants st))"
    by (auto simp: entered_state_def comp_def intro: sum_list_mono)
  moreover have "sum_list (map (\<lambda>t. length (projr (w_transition t))) ?ts) \<le>
      sum_list (map (\<lambda>t. length (projr (w_transition t))) (st_transitions st)) + 4157"
    using sum_push_bounded [of "\<lambda>t. length (projr (w_transition t))" "max_transition_history l" tr "st_transitions st"]
      transition_size_bound [OF assms(2)] by linarith
  ultimately show "payload_size (entered_state l invalidate e gen tr st) \<le> payload_size st + 4157"
    by (simp add: payload_size_def entered_state_def)
qed

text \<open>What opening needs besides a store that works.\<close>

definition opens_with :: "env \<Rightarrow> EpochRuntimeOptions \<Rightarrow> CoordinatorBootId \<Rightarrow> EpochTransitionId \<Rightarrow> bool" where
  "opens_with env opts boot tid \<longleftrightarrow>
     is_viable (op_limits opts) \<and> op_store_path opts \<noteq> [] \<and> op_advance_epoch_on_open opts \<and> ample_limits (op_limits opts) \<and>
     text_fits (structural_limits (op_limits opts)) (op_provenance opts) \<and> 4 \<le> length (text_value (op_provenance opts)) \<and>
     en_io env = io_ok \<and> en_transition env = Inr tid \<and> tid \<noteq> id_nil \<and>
     (case op_coordinator_boot opts of Some b \<Rightarrow> Inr b | None \<Rightarrow> en_coordinator_boot env) = Inr boot"

lemma opened_options: "im_options (opened opts d st boot) = opts\<lparr> op_coordinator_boot := Some boot \<rparr>"
  by (simp add: opened_def empty_impl_def frame_simps)

lemma open_standing:
  assumes "opens_with env opts boot tid" "store_load (store_options opts) io_ok d = Inr st" "marked d st"
    and "durable_wf st" "within_ceilings st" "legible (op_limits opts) st" "payload_size st \<le> n"
    and "n + 4200 \<le> kAbsoluteMaxPayloadLength" "tid \<notin> tr_id ` set (st_transitions st)"
    and "counter_next (st_current_epoch st) = Some e" "counter_next (st_generation st) = Some gen"
  obtains s ps tr where "open_runtime env opts d = (Inr s, im_disk s)" "standing (n + 4200) s"
    "im_options s = opts\<lparr> op_coordinator_boot := Some boot \<rparr>" "tr_id tr = tid" "tr_coordinator_boot tr = boot"
    "tr_from_epoch tr = st_current_epoch st" "tr_to_epoch tr = e"
    "mset ps = mset (st_participants (entered_state (op_limits opts) (\<not> counter_is_zero (st_current_epoch st)) e gen tr st))"
    "im_state s = (entered_state (op_limits opts) (\<not> counter_is_zero (st_current_epoch st)) e gen tr st)\<lparr> st_participants := ps \<rparr>"
proof -
  let ?l = "op_limits opts" and ?i = "\<not> counter_is_zero (st_current_epoch st)"
  let ?c = "if ?i then EpochTransitionCause.CoordinatorRestart else EpochTransitionCause.CoordinatorStart"
  let ?s = "opened opts d st boot"
  define tr where "tr = transition_record st e gen boot ?c (op_provenance opts) tid"
  let ?u = "entered_state ?l ?i e gen tr st"
  have env: "en_io env = io_ok" "en_transition env = Inr tid" "tid \<noteq> id_nil" "ample_limits ?l"
    using assms(1) by (simp_all add: opens_with_def)
  have inputs: "open_inputs env opts d = Inr (st, boot)"
    using assms(1,2) by (simp add: open_inputs_def new_store_def opens_with_def store_options_def)
  have b: "tx_impl (begin_tx ?s) = ?s" by (simp add: begin_tx_def)
  obtain t where t: "mutate_epoch env boot ?c ?i (begin_tx ?s) = (Inr (), t)"
    "im_options (tx_impl t) = im_options ?s" "im_disk (tx_impl t) = im_disk ?s" "im_state (tx_impl t) = ?u"
    using mutate_epoch_runs [of "begin_tx ?s" e gen env tid boot ?c ?i] assms(10,11) env(2)
    unfolding b opened_facts opened_options tr_def by auto
  have prov: "text_fits (structural_limits ?l) (tr_provenance tr)" "4 \<le> length (text_value (tr_provenance tr))"
    using assms(1) by (simp_all add: tr_def transition_record_def opens_with_def)
  have l: "im_limits ?s = ?l" by (simp add: opened_options)
  note wf = entered_state_wf [OF assms(4,5,10,11) tr_def env(3) assms(9) env(4)]
  note legible = entered_state_legible [OF assms(6) prov env(4)]
  have small: "payload_size ?u \<le> n + 4200" using legible(2) [of ?i e gen] assms(7) by linarith
  have le: "st_current_epoch st \<le> st_current_epoch ?u" "\<not> counter_is_zero (st_current_epoch ?u)"
    using counter_next_less [OF assms(10)] assms(10)
    by (auto simp: entered_state_def counter_is_zero_def counter_next_eq_Some counter_nat_def)
  have disk: "im_disk (tx_impl t) = im_disk ?s" "marked (im_disk ?s) st" using t(3) assms(3) by (simp_all add: opened_facts)
  have readable: "legible (im_limits ?s) ?u" unfolding l by (rule legible(1))
  obtain t' ps where t': "persist io_ok t = (Inr (), t')" "tx_undo t' = []" "standing (n + 4200) (tx_impl t')"
    "im_options (tx_impl t') = im_options ?s" "mset ps = mset (st_participants ?u)"
    "im_state (tx_impl t') = ?u\<lparr> st_participants := ps \<rparr>"
    by (rule persist_standing [OF t(2) disk(1) t(4) disk(2) le wf readable small assms(8)])
  have "establish_epoch env boot ?c ?i ?s = (Inr (), tx_impl t')"
    using t(1) t'(1,2) env(1) by (simp add: establish_epoch_def tx_bind_def end_tx_def undo_rollback_def)
  then have "open_runtime env opts d = (Inr (tx_impl t'), im_disk (tx_impl t'))"
    using inputs assms(1) by (simp add: open_runtime_def opens_with_def)
  moreover have "tr_id tr = tid" "tr_coordinator_boot tr = boot" "tr_from_epoch tr = st_current_epoch st" "tr_to_epoch tr = e"
    by (simp_all add: tr_def transition_record_def)
  ultimately show thesis using that [OF _ t'(3)] t'(4-6) by (simp add: opened_options)
qed

lemma initial_state_ready:
  "durable_wf initial_state" "within_ceilings initial_state" "legible l initial_state" "payload_size initial_state = 68"
  by (simp_all add: initial_state_def durable_wf_def within_ceilings_def legible_def records_fit_def payload_size_def
      kAbsoluteMaxRecords_def)

lemma reopen_standing:
  assumes "standing n s" "opens_with env opts boot tid" "op_limits opts = op_limits (im_options s)"
    and "tid \<notin> tr_id ` set (st_transitions (im_state s))" "n + 4200 \<le> kAbsoluteMaxPayloadLength"
    and "counter_next (st_current_epoch (im_state s)) = Some e" "counter_next (st_generation (im_state s)) = Some gen"
  obtains u ps tr where "open_runtime env opts (im_disk s) = (Inr u, im_disk u)" "standing (n + 4200) u"
    "im_options u = opts\<lparr> op_coordinator_boot := Some boot \<rparr>" "tr_id tr = tid" "tr_coordinator_boot tr = boot"
    "tr_from_epoch tr = st_current_epoch (im_state s)" "tr_to_epoch tr = e"
    "mset ps = mset (map invalidate_participant (im_participants s))"
    "im_state u = (entered_state (op_limits opts) True e gen tr (im_state s))\<lparr> st_participants := ps \<rparr>"
proof -
  have s: "running_ok s" "marked (im_disk s) (im_state s)" "legible (op_limits opts) (im_state s)" "payload_size (im_state s) \<le> n"
    using assms(1,3) by (simp_all add: standing_def)
  note wf = saved_wf [OF standing_running(2,3) [OF assms(1)]]
  have load: "store_load (store_options opts) io_ok (im_disk s) = Inr (im_state s)"
    by (rule standing_loads [OF assms(1)]) (use assms(3,5) in simp_all)
  have established: "(\<not> counter_is_zero (st_current_epoch (im_state s))) = True" using s(1) by (simp add: running_ok_def)
  have list: "st_participants (entered_state l True e gen tr st) = map invalidate_participant (st_participants st)" for l tr st
    by (simp add: entered_state_def)
  show thesis
    by (rule open_standing [OF assms(2) load s(2) wf s(3,4) assms(5,4,6,7), unfolded established list])
      (rule that)
qed

section \<open>Advancing the epoch by request\<close>

lemma advance_digest_exists: "\<exists>d. advance_digest request = Inr d"
proof -
  have "\<exists>bs. w_seq [w_u8 (operation_kind_wire OperationKind.AdvanceEpoch), w_u8 (transition_cause_wire (eq_cause request))] = Inr bs"
    unfolding w_seq_all by (simp add: w_u8_def)
  then show ?thesis by (auto simp: advance_digest_def digest_of_def)
qed

definition advanced_state ::
  "Limits \<Rightarrow> IdempotencyRecord \<Rightarrow> CoordinatorEpoch \<Rightarrow> EpochGeneration \<Rightarrow> EpochTransitionRecord \<Rightarrow> DurableState \<Rightarrow> DurableState"
where
  "advanced_state l r e gen tr st =
     (entered_state l True e gen tr st)\<lparr> st_control_attempts := remember_attempt l r (st_control_attempts st) \<rparr>"

lemma advanced_state_ready:
  assumes "durable_wf u" "within_ceilings u" "legible l u" "st_control_attempts u = rs"
    and "ir_attempt r \<noteq> id_nil" "ir_attempt r \<notin> ir_attempt ` set rs" "ir_operation r = OperationKind.AdvanceEpoch"
    and "ample_limits l"
  shows "durable_wf (u\<lparr> st_control_attempts := remember_attempt l r rs \<rparr>)"
    "within_ceilings (u\<lparr> st_control_attempts := remember_attempt l r rs \<rparr>)"
    "legible l (u\<lparr> st_control_attempts := remember_attempt l r rs \<rparr>)"
    "payload_size (u\<lparr> st_control_attempts := remember_attempt l r rs \<rparr>) \<le> payload_size u + 83"
proof -
  let ?u = "u\<lparr> st_control_attempts := remember_attempt l r rs \<rparr>"
  have same: "participant_wf ?u p \<longleftrightarrow> participant_wf u p" "grant_wf ?u g \<longleftrightarrow> grant_wf u g" for p g
    by (simp_all add: participant_wf_def grant_wf_def)
  have "\<forall>x \<in> set (remember_attempt l r rs). ir_attempt x \<noteq> id_nil \<and>
      ir_operation x \<in> {OperationKind.AdvanceEpoch, OperationKind.RevokeAuthority}"
    using assms(1,4,5,7) by (auto simp: durable_wf_def remember_attempt_def dest!: in_push_boundedD)
  moreover have "distinct (map ir_attempt (remember_attempt l r rs))"
    using assms(1,4,6) by (auto simp: durable_wf_def remember_attempt_def intro!: distinct_map_push_bounded)
  ultimately show "durable_wf ?u" using assms(1) unfolding durable_wf_def same by simp
  show "within_ceilings ?u" using assms(2) by (simp add: within_ceilings_def)
  have "length (remember_attempt l r rs) \<le> kAbsoluteMaxRecords"
    using assms(3,4,8) unfolding remember_attempt_def
    by (auto simp: legible_def records_fit_def ample_limits_def kAbsoluteMaxRecords_def intro!: length_push_bounded_ceiling)
  then show "legible l ?u" using assms(3) by (simp add: legible_def records_fit_def kAbsoluteMaxRecords_def)
  show "payload_size ?u \<le> payload_size u + 83"
    using length_push_bounded_le [of "max_idempotency_records_per_participant l" r rs] assms(4)
    by (simp add: payload_size_def remember_attempt_def)
qed

lemma advance_standing:
  assumes "standing n s" "en_io env = io_ok" "en_transition env = Inr tid" "tid \<noteq> id_nil"
    and "tid \<notin> tr_id ` set (st_transitions (im_state s))" "ample_limits (im_limits s)"
    and "text_fits (structural_limits (im_limits s)) (op_provenance (im_options s))"
    and "4 \<le> length (text_value (op_provenance (im_options s)))"
    and "eq_attempt request \<noteq> id_nil" "eq_attempt request \<notin> ir_attempt ` set (st_control_attempts (im_state s))"
    and "eq_expected_epoch request = st_current_epoch (im_state s)" "n + 4300 \<le> kAbsoluteMaxPayloadLength"
    and "counter_next (st_current_epoch (im_state s)) = Some e" "counter_next (st_generation (im_state s)) = Some gen"
  obtains r u ps rec tr where "advance_epoch env request s = (Inr r, u)" "eo_outcome r = EpochAdvanceOutcome.Advanced" "eo_epoch r = e"
    "standing (n + 4300) u" "im_options u = im_options s" "tr_id tr = tid" "tr_from_epoch tr = st_current_epoch (im_state s)"
    "tr_to_epoch tr = e" "ir_attempt rec = eq_attempt request" "mset ps = mset (map invalidate_participant (im_participants s))"
    "im_state u = (advanced_state (im_limits s) rec e gen tr (im_state s))\<lparr> st_participants := ps \<rparr>"
proof -
  let ?st = "im_state s" and ?l = "im_limits s" and ?cause = "eq_cause request"
  have ok: "running_ok s" "marked (im_disk s) ?st" "legible ?l ?st" "payload_size ?st \<le> n" using assms(1) by (simp_all add: standing_def)
  obtain d where d: "advance_digest request = Inr d" using advance_digest_exists by blast
  define tr where "tr = transition_record ?st e gen (st_coordinator_boot ?st) ?cause (op_provenance (im_options s)) tid"
  define rec where "rec = advance_record request d e"
  let ?u = "advanced_state ?l rec e gen tr ?st"
  have b: "tx_impl (begin_tx s) = s" by (simp add: begin_tx_def)
  obtain t where t: "mutate_epoch env (st_coordinator_boot ?st) ?cause True (begin_tx s) = (Inr (), t)"
    "im_options (tx_impl t) = im_options s" "im_disk (tx_impl t) = im_disk s"
    "im_state (tx_impl t) = entered_state ?l True e gen tr ?st"
    using mutate_epoch_runs [of "begin_tx s" e gen env tid "st_coordinator_boot ?st" ?cause True] assms(3,13,14)
    unfolding b tr_def by auto
  let ?t = "t\<lparr> tx_impl := remember_control rec (tx_impl t) \<rparr>"
  have move: "move_epoch env request d (begin_tx s) = (Inr (), ?t)"
    using t by (simp add: move_epoch_def tx_basic tx_bind_apply b tx_bind_def [of "mutate_epoch env x c True" for x c] rec_def entered_state_def)
  have after: "im_options (tx_impl ?t) = im_options s" "im_disk (tx_impl ?t) = im_disk s" "im_state (tx_impl ?t) = ?u"
    using t(2-4) by (simp_all add: remember_control_def upd_state_def advanced_state_def entered_state_def)
  have prov: "text_fits (structural_limits ?l) (tr_provenance tr)" "4 \<le> length (text_value (tr_provenance tr))"
    using assms(7,8) by (simp_all add: tr_def transition_record_def)
  note wf = entered_state_wf [OF saved_wf [OF standing_running(2,3) [OF assms(1)]] assms(13,14) tr_def assms(4-6)]
  note legible = entered_state_legible [OF ok(3) prov assms(6)]
  have rec: "ir_attempt rec = eq_attempt request" "ir_operation rec = OperationKind.AdvanceEpoch"
    by (simp_all add: rec_def advance_record_def)
  have control: "st_control_attempts (entered_state ?l True e gen tr ?st) = st_control_attempts ?st" by (simp add: entered_state_def)
  note ready = advanced_state_ready [OF wf legible(1) control, of rec, folded advanced_state_def, unfolded rec, OF assms(9,10) refl assms(6)]
  have small: "payload_size ?u \<le> n + 4300" using ready(4) legible(2) [of True e gen] ok(4) by linarith
  have le: "st_current_epoch ?st \<le> st_current_epoch ?u" "\<not> counter_is_zero (st_current_epoch ?u)"
    using counter_next_less [OF assms(13)] assms(13)
    by (auto simp: advanced_state_def entered_state_def counter_is_zero_def counter_next_eq_Some counter_nat_def)
  obtain t' ps where t': "persist io_ok ?t = (Inr (), t')" "tx_undo t' = []" "standing (n + 4300) (tx_impl t')"
    "im_options (tx_impl t') = im_options s" "mset ps = mset (st_participants ?u)"
    "im_state (tx_impl t') = ?u\<lparr> st_participants := ps \<rparr>"
    by (rule persist_standing [OF after ok(2) le ready(1-3) small assms(12)])
  let ?r = "advance_accepted request (im_state (tx_impl t'))"
  have max: "\<not> counter_is_max (st_current_epoch ?st)" using assms(13) by (auto simp: counter_next_def counter_is_max_def)
  have "find_attempt (st_control_attempts ?st) (eq_attempt request) = None" by (rule find_attempt_None [OF assms(10)])
  then have "advance_epoch env request s = (Inr ?r, tx_impl t')"
    using move t'(1,2) d max assms(2,9,11)
    by (simp add: advance_epoch_def advance_body_def advance_screen_def enter_advance_def tx_basic tx_bind_apply tx_bind_lift b Let_def
        tx_bind_def [of "move_epoch env x c" for x c] tx_bind_def [of "persist x" for x] end_tx_def undo_rollback_def id_is_nil_iff)
  moreover have "eo_outcome ?r = EpochAdvanceOutcome.Advanced" "eo_epoch ?r = e"
    by (simp_all add: advance_accepted_def advance_result_def t'(6) advanced_state_def entered_state_def)
  moreover have "tr_id tr = tid" "tr_from_epoch tr = st_current_epoch ?st" "tr_to_epoch tr = e"
    by (simp_all add: tr_def transition_record_def)
  moreover have "st_participants ?u = map invalidate_participant (im_participants s)"
    by (simp add: advanced_state_def entered_state_def)
  ultimately show thesis using that [OF _ _ _ t'(3,4)] t'(5,6) rec(1) by metis
qed

section \<open>The operations are available\<close>

text \<open>
  C14. An operator can always end the authority of a worker: on a store that works, a coordinator that is standing, with
  counters that are not exhausted and limits within the ceilings of the format, carries out every well-formed fence, under a
  new attempt and the current epoch and with a note that fits, of a boot that is current and is not already reported fenced.
  The fence ends exactly that incarnation, and the coordinator that answers is standing again. (A boot that is current and
  reported fenced gets the answer \<open>AlreadyFenced\<close>. \<open>live_boot_not_fenced\<close> shows that there is none where no boot is both
  live and fenced, which the lives of \<open>Exclusive\<close> keep; a batch of registrations, or an image made elsewhere, can have one.)
\<close>

theorem fence_of_current_succeeds:
  assumes "standing n s" "\<not> fl_fenced (lookup_fence s (fw_participant request) (fw_boot request))" "fenceable s request p seq"
    and "text_fits (structural_limits (im_limits s)) (fw_note request)" "ample (im_state s)" "ample_limits (im_limits s)"
    and "n + 4400 \<le> kAbsoluteMaxPayloadLength"
  shows "\<exists>r s'. fence_worker io_ok request s = (Inr r, s') \<and> fo_outcome r = FenceOutcome.Fenced \<and>
    fo_incarnation r = Some seq \<and> standing (n + 4400) s' \<and>
    (\<forall>pid boot k. current (im_state s') pid boot k \<longleftrightarrow>
       current (im_state s) pid boot k \<and> (pid, boot) \<noteq> (fw_participant request, fw_boot request))"
proof -
  let ?boot = "fw_boot request"
  obtain r s' A B q gen g ps rec where f: "fence_worker io_ok request s = (Inr r, s')" "fo_outcome r = FenceOutcome.Fenced"
    "fo_incarnation r = Some seq" "standing (n + 4400) s'" "im_participants s = A @ p # B"
    "q = fenced_record (im_limits s) request seq g rec p" "mset ps = mset (A @ q # B)"
    "im_state s' = fenced_state (im_limits s) request gen g seq ps (im_state s)"
    by (rule fence_standing [OF assms])
  have ok: "running_ok s" using assms(1) by (simp add: standing_def)
  have p: "dp_id p = fw_participant request" "p \<in> set (im_participants s)" using assms(3) by (simp_all add: fenceable_def)
  have "dp_id p \<notin> dp_id ` (set A \<union> set B)" using wf_distinct_ids [OF ok] by (auto simp: f(5))
  then have ids: "dp_id x \<noteq> dp_id p" if "x \<in> set A \<union> set B" for x using that by (metis imageI)
  have "distinct (participant_boots p)" using wf_participant [OF ok p(2)] by (simp add: participant_wf_def)
  then have q: "dp_id q = dp_id p" "set (currents q) = {(b, k) \<in> set (currents p). b \<noteq> ?boot}"
    by (simp_all only: f(6) fenced_record_fields currents_remove_live_eq)
  have "im_participants s' = ps" by (simp only: f(8) fenced_state_participants)
  then have after: "set (im_participants s') = insert q (set A \<union> set B)" using mset_eq_setD [OF f(7)] by simp
  have "current (im_state s') pid boot k \<longleftrightarrow> current (im_state s) pid boot k \<and> (pid, boot) \<noteq> (fw_participant request, ?boot)"
    for pid boot k
    unfolding current_def after f(5) using q ids p(1) by auto
  with f(1-4) show ?thesis by blast
qed

lemma read_watermark_options: "read_watermark (store_options opts) = read_watermark (store_options opts')"
  by (simp add: read_watermark_def store_options_def fun_eq_iff)

lemma at_state_standing:
  assumes "at_state s state2"
  shows "standing 1000 s" "ample (im_state s)" "ample_limits (im_limits s)"
proof -
  note at = at_stateD [OF assms]
  have "legible default_limits state2"
    using state2_storable by (simp add: legible_def storable_def store_options_def) (simp add: state2_fields state1_def)
  moreover obtain bs where "encode_durable_payload state2 = Inr bs" "length bs \<le> 1000"
    using state2_writes by (auto simp: writes_def)
  then have "payload_size state2 \<le> 1000" using payload_length by metis
  moreover have "marked (im_disk s) state2"
  proof -
    obtain v where v: "read_watermark (store_options demo_options) io_ok (im_disk s) = Inr v"
      "v \<le> counter_value (st_current_epoch state2)"
      using assms by (auto simp: at_state_def)
    then have "read_watermark (store_options opts) io_ok (im_disk s) = Inr v" for opts
      by (simp add: read_watermark_options [of opts demo_options])
    with v(2) show ?thesis by (auto simp: marked_def)
  qed
  ultimately show "standing 1000 s" using at by (simp add: standing_def)
  show "ample (im_state s)" "ample_limits (im_limits s)"
    by (simp_all add: at ample_def ample_limits_def state2_fields counter_is_max_def kAbsoluteMaxRecords_def participant_boots_def)
qed

theorem fence_of_current_succeeds_witness:
  "\<exists>s r s'. fence_worker io_ok fence_request s = (Inr r, s') \<and> fo_outcome r = FenceOutcome.Fenced \<and> standing 5400 s' \<and>
     current (im_state s) worker (Fixed128Id 10) (MonotonicCounter 1) \<and>
     \<not> current (im_state s') worker (Fixed128Id 10) (MonotonicCounter 1)"
proof -
  obtain s where s: "at_state s state2" by (rule demo_born)
  note at = at_stateD [OF s] and ready = at_state_standing [OF s]
  have "fences_respected (im_state s)" using at by (simp add: fences_respected_def state2_fields)
  moreover have "worker1 \<in> set (im_participants s)" "Fixed128Id 10 \<in> set (participant_boots worker1)" "dp_id worker1 = worker"
    using at by (simp_all add: state2_fields participant_boots_def)
  ultimately have free: "\<not> fl_fenced (lookup_fence s (fw_participant fence_request) (fw_boot fence_request))"
    using live_boot_not_fenced [OF at(1)] by fastforce
  have fenceable: "fenceable s fence_request worker1 (MonotonicCounter 1)"
    using at by (simp add: fenceable_def state2_fields currents_def id_nil_def)
  have "text_is_valid ''demo'' 4096" by code_simp
  then have note': "text_fits (structural_limits (im_limits s)) (fw_note fence_request)"
    by (simp add: text_fits_def kAbsoluteMaxBytes_def)
  have room: "1000 + 4400 \<le> kAbsoluteMaxPayloadLength" by (simp add: kAbsoluteMaxPayloadLength_def)
  obtain r s' where "fence_worker io_ok fence_request s = (Inr r, s')" "fo_outcome r = FenceOutcome.Fenced" "standing 5400 s'"
    "\<not> current (im_state s') worker (Fixed128Id 10) (MonotonicCounter 1)"
    using fence_of_current_succeeds [OF ready(1) free fenceable note' ready(2,3) room] by auto
  then show ?thesis using state2_authorizes(3) [OF s] by blast
qed

text \<open>
  C8. A coordinator can be restarted: what a standing coordinator leaves when it stops or dies is opened by the next one, on a
  store that works, when that one advances the epoch on opening, has the same limits, a provenance of at least four bytes and
  a fresh transition identifier, and no counter or size is at its end. It starts exactly one epoch later with every
  participant and every fence, nothing validates with it until a worker registers again, and it is standing. (The four
  bytes, of every transition in the image and of the new one, are what the decoder of images needs: with the default, empty
  provenance an image that was written may be refused on reading.)
\<close>

theorem restart_succeeds:
  assumes "standing n s" "opens_with env opts boot tid" "op_limits opts = op_limits (im_options s)"
    and "tid \<notin> tr_id ` set (st_transitions (im_state s))" "ample (im_state s)" "n + 4200 \<le> kAbsoluteMaxPayloadLength"
  shows "\<exists>u. open_runtime env opts (im_disk s) = (Inr u, im_disk u) \<and> standing (n + 4200) u \<and>
    counter_nat (st_current_epoch (im_state u)) = counter_nat (st_current_epoch (im_state s)) + 1 \<and>
    dp_id ` set (im_participants u) = dp_id ` set (im_participants s) \<and>
    st_recent_fences (im_state u) = st_recent_fences (im_state s) \<and>
    (\<forall>query. \<not> av_authorized (validate_authority u query))"
proof -
  obtain e gen where c: "counter_next (st_current_epoch (im_state s)) = Some e" "counter_next (st_generation (im_state s)) = Some gen"
    by (rule counters_left [OF assms(5)])
  obtain u ps tr where u: "open_runtime env opts (im_disk s) = (Inr u, im_disk u)" "standing (n + 4200) u"
    "mset ps = mset (map invalidate_participant (im_participants s))"
    "im_state u = (entered_state (op_limits opts) True e gen tr (im_state s))\<lparr> st_participants := ps \<rparr>"
    by (rule reopen_standing [OF assms(1-4,6) c])
  have ps: "set ps = invalidate_participant ` set (im_participants s)" using mset_eq_setD [OF u(3)] by simp
  have "no_authority (im_state u)"
    by (auto simp: no_authority_def u(4) ps currents_def invalidate_participant_def)
  then have "\<not> av_authorized (validate_authority u query)" for query
    using authorized_current no_authority_current u(2) by (metis standing_def)
  moreover have "dp_id ` set ps = dp_id ` set (im_participants s)"
    by (simp add: ps image_image invalidate_participant_def)
  ultimately show ?thesis
    using u(1,2) c(1) by (intro exI [of _ u]) (simp add: u(4) entered_state_def counter_next_eq_Some)
qed

theorem restart_succeeds_witness:
  "\<exists>s u. open_runtime advance_env demo_options (im_disk s) = (Inr u, im_disk u) \<and> standing 5200 u \<and>
     av_authorized (validate_authority s token_request) \<and> \<not> av_authorized (validate_authority u token_request)"
proof -
  obtain s where s: "at_state s state2" by (rule demo_born)
  note at = at_stateD [OF s] and ready = at_state_standing [OF s]
  have "text_is_valid ''demo'' 4096" by code_simp
  then have opens: "opens_with advance_env demo_options (Fixed128Id 1) (Fixed128Id 3)"
    using ready(3) default_limits_viable at(3) by (simp add: opens_with_def id_nil_def text_fits_def kAbsoluteMaxBytes_def)
  have limits: "op_limits demo_options = op_limits (im_options s)" by (simp add: at(3))
  have new: "Fixed128Id 3 \<notin> tr_id ` set (st_transitions (im_state s))" by (simp add: at(2) state2_fields state1_def)
  have room: "1000 + 4200 \<le> kAbsoluteMaxPayloadLength" by (simp add: kAbsoluteMaxPayloadLength_def)
  obtain u where "open_runtime advance_env demo_options (im_disk s) = (Inr u, im_disk u)" "standing 5200 u"
    "\<not> av_authorized (validate_authority u token_request)"
    using restart_succeeds [OF ready(1) opens limits new ready(2) room] by auto
  then show ?thesis using state2_authorizes(1) [OF s] by blast
qed

end
