(* ===== verification/Undo.thy ===== *)
theory Undo
  imports Scenario
begin

text \<open>
  Requests that fail and are \<open>undone\<close>: when the barrier of a fence, of an advancement or of a flush fails, or one of their
  counters is exhausted, the undo log leaves the records and the indexes as they were, as long as the bounded list that
  the request appends to was not full. (A full list has lost its oldest entry by then, and the log does not have it.)
\<close>

section \<open>Taking back\<close>

lemma undone_refl: "undone s s"
  by (simp add: undone_def)

lemma undone_same_records:
  assumes "indexes_match s" "without_attempts (im_state u) = without_attempts (im_state s)"
  shows "undone s (rebuild_indexes u)"
proof -
  have "f (im_state u) = f (im_state s)" if "\<And>st. f (without_attempts st) = f st" for f :: "DurableState \<Rightarrow> 'x"
    using assms(2) that by metis
  note same = this
  have "participant_index_of (im_participants u) = participant_index_of (im_participants s)"
    "boot_index_of (im_participants u) = boot_index_of (im_participants s)"
    "active_worker_count (im_participants u) = active_worker_count (im_participants s)"
    by (rule same; simp add: indexes_without_attempts)+
  moreover have "st_recent_fences (im_state u) = st_recent_fences (im_state s)" "st_grants (im_state u) = st_grants (im_state s)"
    using assms(2) by (metis without_attempts_fields)+
  ultimately show ?thesis
    using assms by (simp add: undone_def rebuild_indexes_def indexes_match_def)
qed

text \<open>A barrier that fails: the files may have changed, the records are put in order, undone and indexed again.\<close>

lemma barrier_undone:
  assumes "persist io t = (Inl e, t')"
  shows "\<exists>d. tx_impl t' = rebuild_indexes (foldl (\<lambda>s action. action s) ((canonicalize (tx_impl t))\<lparr> im_disk := d \<rparr>) (tx_undo t)) \<and>
    tx_undo t' = []"
proof -
  obtain r u where u: "save_impl io (canonicalize (tx_impl t)) = (r, u)" by (cases "save_impl io (canonicalize (tx_impl t))")
  then have "u = (canonicalize (tx_impl t))\<lparr> im_disk := im_disk u \<rparr>" by (auto simp: save_impl_def split: prod.splits)
  with assms u show ?thesis
    by (cases r) (auto simp: persist_def Let_def undo_rollback_def undo_commit_def intro!: exI [of _ "im_disk u"])
qed

section \<open>The epoch\<close>

lemma mutate_epoch_outcomes:
  assumes "mutate_epoch env boot cause invalidate (begin_tx s) = (q, t)"
  obtains (nothing) e where "q = Inl e" "t = begin_tx s"
  | (half) e where "q = Inl e" "tx_undo t = [undo_epoch (im_state s)]" "undo_epoch (im_state s) (tx_impl t) = s"
  | (moved) epoch gen tr ps where "q = Inr ()" "tx_undo t = [undo_epoch (im_state s)]"
      "tx_impl t = s\<lparr> im_state := (im_state s)\<lparr> st_current_epoch := epoch, st_coordinator_boot := boot, st_generation := gen,
         st_participants := ps,
         st_transitions := push_bounded (max_transition_history (im_limits s)) tr (st_transitions (im_state s)) \<rparr> \<rparr>"
proof -
  let ?st = "im_state s"
  note run = assms [unfolded mutate_epoch_def Let_def tx_next_def begin_tx_def]
  note defs = tx_simps set_epoch_def enter_epoch_def undo_epoch_def upd_state_def push_transition_def resize_down_def begin_tx_def
  have failed: thesis if "\<exists>e. q = Inl e" "tx_undo t = [undo_epoch ?st]" "undo_epoch ?st (tx_impl t) = s" using that half by blast
  show thesis
  proof (cases "counter_next (st_current_epoch ?st)")
    case None
    then have "(\<exists>e. q = Inl e) \<and> t = begin_tx s" using run by (auto simp: tx_simps begin_tx_def)
    then show thesis by (elim conjE exE) (rule nothing)
  next
    case epoch: (Some epoch)
    show thesis
    proof (cases "counter_next (st_generation ?st)")
      case None
      with epoch run show thesis by (intro failed) (auto simp: defs)
    next
      case gen: (Some gen)
      show thesis
      proof (cases "en_transition env")
        case (Inl e)
        with epoch gen run show thesis by (intro failed) (auto simp: defs)
      next
        case (Inr tid)
        with epoch gen run
        have "q = Inr ()" "tx_undo t = [undo_epoch ?st]"
          "\<exists>tr. tx_impl t = s\<lparr> im_state := ?st\<lparr> st_current_epoch := epoch, st_coordinator_boot := boot, st_generation := gen,
             st_participants := (if invalidate then map invalidate_participant (st_participants ?st) else st_participants ?st),
             st_transitions := push_bounded (max_transition_history (im_limits s)) tr (st_transitions ?st) \<rparr> \<rparr>"
          by (auto simp: defs)
        then show thesis using moved by blast
      qed
    qed
  qed
qed

lemma failed_advance_undone:
  assumes "indexes_match s" "advance_epoch env request s = (Inl e, s')"
    and "length (st_transitions (im_state s)) < max_transition_history (im_limits s)"
  shows "undone s s'"
proof -
  let ?st = "im_state s"
  have b: "tx_impl (begin_tx s) = s" "tx_undo (begin_tx s) = []" by (simp_all add: begin_tx_def)
  from advance_epoch_split [OF assms(2)] show ?thesis
  proof (elim disjE exE)
    assume "s' = s"
    then show ?thesis by (simp add: undone_refl)
  next
    fix digest assume a: "end_tx (enter_advance env request digest (begin_tx s)) = (Inl e, s')"
    obtain q t where m: "mutate_epoch env (st_coordinator_boot ?st) (eq_cause request) True (begin_tx s) = (q, t)"
      by (cases "mutate_epoch env (st_coordinator_boot ?st) (eq_cause request) True (begin_tx s)")
    have move: "move_epoch env request digest (begin_tx s) = (case q of Inl x \<Rightarrow> (Inl x, t)
        | Inr _ \<Rightarrow> (Inr (), t\<lparr> tx_impl := remember_control
            (advance_record request digest (st_current_epoch (im_state (tx_impl t)))) (tx_impl t) \<rparr>))"
      using m by (simp add: move_epoch_def tx_simps b tx_bind_def [of "mutate_epoch env x c i" for x c i] split: sum.split)
    from m show ?thesis
    proof (cases rule: mutate_epoch_outcomes)
      case (nothing x)
      with a move show ?thesis by (simp add: enter_advance_def tx_bind_def end_tx_def undo_rollback_def b undone_refl)
    next
      case (half x)
      with a move show ?thesis by (simp add: enter_advance_def tx_bind_def end_tx_def undo_rollback_def undone_refl)
    next
      case (moved epoch gen tr ps)
      let ?t = "t\<lparr> tx_impl := remember_control
        (advance_record request digest (st_current_epoch (im_state (tx_impl t)))) (tx_impl t) \<rparr>"
      obtain p v where p: "persist (en_io env) ?t = (p, v)" by (cases "persist (en_io env) ?t")
      with a move moved(1) obtain y where y: "p = Inl y" "s' = tx_impl (undo_rollback v)"
        by (cases p) (auto simp: enter_advance_def tx_bind_def [of "move_epoch env x c" for x c]
            tx_bind_def [of "persist x" for x] tx_simps end_tx_def)
      then obtain d where "s' = rebuild_indexes (undo_epoch ?st ((canonicalize (tx_impl ?t))\<lparr> im_disk := d \<rparr>))"
        using barrier_undone [of "en_io env" ?t y v] p by (auto simp: moved(2) undo_rollback_def)
      moreover have "without_attempts (im_state (undo_epoch ?st ((canonicalize (tx_impl ?t))\<lparr> im_disk := d \<rparr>))) = without_attempts ?st"
        using assms(3)
        by (simp add: moved(3) canonicalize_def remember_control_def undo_epoch_def upd_state_def resize_down_def
            push_bounded_def without_attempts_def)
      ultimately show ?thesis using undone_same_records [OF assms(1)] by simp
    qed
  qed
qed

section \<open>A fence\<close>

lemma position_ids: "position (\<lambda>p. dp_id p = pid) ps = position (\<lambda>x. x = pid) (map dp_id ps)"
  by (induction ps) simp_all

lemma position_update:
  "i < length ps \<Longrightarrow> dp_id r = dp_id (ps ! i) \<Longrightarrow>
   position (\<lambda>p. dp_id p = pid) (ps[i := r]) = position (\<lambda>p. dp_id p = pid) ps"
  unfolding position_ids map_update by (metis length_map list_update_id nth_map)

text \<open>What undoing a fence puts back in the record.\<close>

definition unfence :: "DurableParticipant \<Rightarrow> DurableParticipant \<Rightarrow> DurableParticipant" where
  "unfence p q =
     q\<lparr> dp_fence_generation := dp_fence_generation p, dp_incarnation_floor := dp_incarnation_floor p,
        dp_has_active_boot := dp_has_active_boot p, dp_active_boot := dp_active_boot p,
        dp_active_incarnation := dp_active_incarnation p, dp_extra_incarnations := dp_extra_incarnations p,
        dp_fenced_boots := dp_fenced_boots p \<rparr>"

text \<open>A runtime in the middle of a fence of the record at \<open>i\<close>.\<close>

definition fencing ::
  "impl \<Rightarrow> nat \<Rightarrow> DurableParticipant \<Rightarrow> FenceRecord list \<Rightarrow> FencingGeneration \<Rightarrow> EpochGeneration \<Rightarrow> nat \<Rightarrow> disk \<Rightarrow> impl"
where
  "fencing s i r fs f g a d =
     s\<lparr> im_disk := d, im_active_workers := a, im_state := (im_state s)\<lparr> st_generation := g, st_fence_floor := f,
        st_participants := (im_participants s)[i := r], st_recent_fences := fs \<rparr> \<rparr>"

text \<open>And when the fence has been undone, but for the attempts of the record.\<close>

definition fence_back :: "impl \<Rightarrow> nat \<Rightarrow> IdempotencyRecord list \<Rightarrow> EpochGeneration \<Rightarrow> disk \<Rightarrow> impl" where
  "fence_back s i h g d =
     s\<lparr> im_disk := d, im_state := (im_state s)\<lparr> st_generation := g,
        st_participants := (im_participants s)[i := (participant_at s i)\<lparr> dp_idempotency := h \<rparr>] \<rparr> \<rparr>"

definition fence_like :: "impl \<Rightarrow> nat \<Rightarrow> DurableParticipant \<Rightarrow> FenceRecord list \<Rightarrow> bool" where
  "fence_like s i r fs \<longleftrightarrow>
     dp_id r = dp_id (participant_at s i) \<and>
     unfence (participant_at s i) r = (participant_at s i)\<lparr> dp_idempotency := dp_idempotency r \<rparr> \<and>
     take (length (st_recent_fences (im_state s))) fs = st_recent_fences (im_state s)"

lemma unfence_attempts: "unfence p (q\<lparr> dp_idempotency := h \<rparr>) = (unfence p q)\<lparr> dp_idempotency := h \<rparr>"
  by (simp add: unfence_def)

lemma undo_live_fence_back:
  assumes "i < length (im_participants s)" "raw_find_participant s pid = Some i" "fence_like s i r fs"
  shows "undo_live_fence s ((participant_at s i)\<lparr> dp_id := pid \<rparr>) (fencing s i (r\<lparr> dp_idempotency := h \<rparr>) fs f g a d) =
    fence_back s i h g d"
proof -
  let ?r = "r\<lparr> dp_idempotency := h \<rparr>"
  have p: "position (\<lambda>p. dp_id p = pid) ((im_participants s)[i := ?r]) = Some i"
    using assms by (simp add: position_update raw_find_participant_def fence_like_def participant_at_def)
  have "unfence (participant_at s i) ?r = (participant_at s i)\<lparr> dp_idempotency := h \<rparr>"
    "take (length (st_recent_fences (im_state s))) fs = st_recent_fences (im_state s)"
    using assms(3) by (simp_all add: fence_like_def unfence_attempts)
  with assms(1) p show ?thesis
    by (simp add: undo_live_fence_def restore_participant_def raw_find_participant_def fencing_def upd_state_def
        upd_participant_def resize_down_def unfence_def fence_back_def)
qed

lemma attempts_undone:
  assumes "i < length (im_participants s)"
  shows "undone s (fence_back s i h (st_generation (im_state s)) d)"
proof -
  have "map (\<lambda>p. p\<lparr> dp_idempotency := [] \<rparr>) ((im_participants s)[i := (participant_at s i)\<lparr> dp_idempotency := h \<rparr>]) =
      map (\<lambda>p. p\<lparr> dp_idempotency := [] \<rparr>) (im_participants s)"
    using assms by (simp add: map_update participant_at_def list_update_same_conv)
  then show ?thesis by (simp add: undone_def without_attempts_def fence_back_def)
qed

lemma raised_back: "unfence p (raise_floor seq (remove_live boot p)) = p"
  by (rule DurableParticipant.equality)
    (auto simp: unfence_def raise_floor_def remove_live_def split: list.split)

lemma raised_fields:
  "dp_id (raise_floor seq (remove_live boot p)) = dp_id p"
  "dp_idempotency (raise_floor seq (remove_live boot p)) = dp_idempotency p"
  by (auto simp: raise_floor_def remove_live_def split: list.split)

lemma unfence_updates [simp]:
  "unfence p (q\<lparr> dp_fence_generation := g \<rparr>) = unfence p q" "unfence p (q\<lparr> dp_fenced_boots := bs \<rparr>) = unfence p q"
  by (simp_all add: unfence_def)

lemma live_fence_outcomes:
  assumes "live_fence i pid boot seq reason text (begin_tx s) = (q, t)" "i < length (im_participants s)"
    and "length (st_recent_fences (im_state s)) < max_recent_fences (im_limits s)"
  obtains r fs f g a where "tx_impl t = fencing s i r fs f g a (im_disk s)" "fence_like s i r fs"
    "dp_idempotency r = dp_idempotency (participant_at s i)" "isl q \<or> tx_mutated t"
    "tx_undo t = [undo_live_fence s ((participant_at s i)\<lparr> dp_id := pid \<rparr>)] \<and> g = st_generation (im_state s) \<or>
     tx_undo t = [set_generation (st_generation (im_state s)), undo_live_fence s ((participant_at s i)\<lparr> dp_id := pid \<rparr>)]"
proof -
  let ?st = "im_state s" and ?p = "participant_at s i" and ?l = "im_limits s"
  let ?q = "raise_floor seq (remove_live boot ?p)" and ?U = "undo_live_fence s (?p\<lparr> dp_id := pid \<rparr>)"
  note run = assms(1) [unfolded live_fence_def Let_def tx_next_def bump_generation_def begin_tx_def]
  have close: "close_incarnation i boot seq s = fencing s i ?q (st_recent_fences ?st) (st_fence_floor ?st) (st_generation ?st)
      (size_dec (im_active_workers s)) (im_disk s)"
    using assms(2) by (simp add: close_incarnation_def upd_participant_def upd_state_def fencing_def participant_at_def)
  show thesis
  proof (cases "counter_next (st_fence_floor ?st)")
    case None
    have "fence_like s i ?q (st_recent_fences ?st)"
      by (simp add: fence_like_def raised_back raised_fields)
    with run None that [of ?q "st_recent_fences ?st"] close show thesis by (auto simp: tx_simps raised_fields)
  next
    case (Some f)
    let ?f = "fence_record ?st pid boot reason text f seq"
    let ?r = "?q\<lparr> dp_fence_generation := f, dp_fenced_boots := push_bounded (max_fenced_boots_per_participant ?l) boot (dp_fenced_boots ?q) \<rparr>"
    let ?fs = "push_bounded (max_recent_fences ?l) ?f (st_recent_fences ?st)"
    have retain: "retain_fence i ?f (set_fence_generation i f (close_incarnation i boot seq s)) =
        fencing s i ?r ?fs f (st_generation ?st) (size_dec (im_active_workers s)) (im_disk s)"
      using assms(2) by (simp add: close retain_fence_def set_fence_generation_def upd_participant_def upd_state_def fencing_def fence_record_def)
    have like: "fence_like s i ?r ?fs" "dp_idempotency ?r = dp_idempotency ?p"
      using assms(3) by (simp_all add: fence_like_def raised_back raised_fields push_bounded_def)
    let ?u = "retain_fence i ?f (set_fence_generation i f (close_incarnation i boot seq s))"
    have gen: "st_generation (im_state ?u) = st_generation ?st" by (simp add: retain fencing_def)
    show thesis
    proof (cases "counter_next (st_generation ?st)")
      case None
      then have "tx_impl t = ?u" "isl q" "tx_undo t = [set_generation (st_generation ?st), ?U]"
        using run Some gen by (auto simp: tx_simps)
      with that [of ?r ?fs] like retain show thesis by simp
    next
      case more: (Some gen')
      then have "tx_impl t = set_generation gen' ?u" "tx_mutated t" "tx_undo t = [set_generation (st_generation ?st), ?U]"
        using run Some gen by (auto simp: tx_simps)
      moreover have "set_generation gen' ?u = fencing s i ?r ?fs f gen' (size_dec (im_active_workers s)) (im_disk s)"
        unfolding retain by (simp add: set_generation_def fencing_def)
      ultimately show thesis using that [of ?r ?fs] like by simp
    qed
  qed
qed

text \<open>Every way a fence goes on from the beginning of its transaction.\<close>

definition fence_undo :: "impl \<Rightarrow> nat \<Rightarrow> DurableParticipant \<Rightarrow> FenceRecord list \<Rightarrow> FencingGeneration \<Rightarrow> nat \<Rightarrow> (impl \<Rightarrow> impl) \<Rightarrow> bool" where
  "fence_undo s i r fs f a U \<longleftrightarrow> (\<forall>h g d. U (fencing s i (r\<lparr> dp_idempotency := h \<rparr>) fs f g a d) = fence_back s i h g d)"

definition fence_under_way :: "impl \<Rightarrow> nat \<Rightarrow> txn \<Rightarrow> bool" where
  "fence_under_way s i t \<longleftrightarrow>
     (\<exists>r fs f g a U. tx_impl t = fencing s i r fs f g a (im_disk s) \<and> dp_id r = dp_id (participant_at s i) \<and>
        fence_undo s i r fs f a U \<and>
        (tx_undo t = [U] \<and> g = st_generation (im_state s) \<or> tx_undo t = [set_generation (st_generation (im_state s)), U]))"

lemma live_fence_under_way:
  assumes "live_fence i pid boot seq reason text (begin_tx s) = (q, t)" "i < length (im_participants s)"
    and "length (st_recent_fences (im_state s)) < max_recent_fences (im_limits s)" "raw_find_participant s pid = Some i"
  shows "fence_under_way s i t" "isl q \<or> tx_mutated t"
proof -
  obtain r fs f g a where t: "tx_impl t = fencing s i r fs f g a (im_disk s)" "fence_like s i r fs" "isl q \<or> tx_mutated t"
    "tx_undo t = [undo_live_fence s ((participant_at s i)\<lparr> dp_id := pid \<rparr>)] \<and> g = st_generation (im_state s) \<or>
     tx_undo t = [set_generation (st_generation (im_state s)), undo_live_fence s ((participant_at s i)\<lparr> dp_id := pid \<rparr>)]"
    by (rule live_fence_outcomes [OF assms(1-3)])
  have "fence_undo s i r fs f a (undo_live_fence s ((participant_at s i)\<lparr> dp_id := pid \<rparr>))"
    unfolding fence_undo_def using undo_live_fence_back [OF assms(2,4) t(2)] by blast
  with t show "fence_under_way s i t" unfolding fence_under_way_def fence_like_def by blast
  show "isl q \<or> tx_mutated t" by (rule t(3))
qed

lemma defensive_fence_under_way:
  assumes "defensive_fence i pid boot reason text (begin_tx s) = (q, t)" "i < length (im_participants s)"
    and "raw_find_participant s pid = Some i"
  shows "t = begin_tx s \<or> fence_under_way s i t \<and> (isl q \<or> tx_mutated t)"
proof -
  let ?st = "im_state s" and ?p = "participant_at s i"
  let ?U = "undo_defensive_fence ?st (?p\<lparr> dp_id := pid \<rparr>)"
  note run = assms(1) [unfolded defensive_fence_def Let_def tx_next_def bump_generation_def begin_tx_def]
  show ?thesis
  proof (cases "counter_next (st_fence_floor ?st)")
    case None
    with run show ?thesis by (auto simp: tx_simps begin_tx_def)
  next
    case (Some f)
    let ?r = "?p\<lparr> dp_fence_generation := f \<rparr>"
    let ?fs = "st_recent_fences ?st @ [fence_record ?st pid boot reason text f (MonotonicCounter 0)]"
    let ?u = "upd_state (\<lambda>st'. st'\<lparr> st_recent_fences := st_recent_fences st' @
      [fence_record ?st pid boot reason text f (MonotonicCounter 0)] \<rparr>) (set_fence_generation i f s)"
    have u: "?u = fencing s i ?r ?fs f (st_generation ?st) (im_active_workers s) (im_disk s)"
      using assms(2) by (simp add: set_fence_generation_def upd_participant_def upd_state_def fencing_def participant_at_def)
    have "position (\<lambda>p. dp_id p = pid) ((im_participants s)[i := ?r\<lparr> dp_idempotency := h \<rparr>]) = Some i" for h
      using assms(2,3) by (simp add: position_update raw_find_participant_def participant_at_def)
    then have undo: "fence_undo s i ?r ?fs f (im_active_workers s) ?U"
      using assms(2)
      by (simp add: fence_undo_def undo_defensive_fence_def restore_participant_def raw_find_participant_def fencing_def
          upd_state_def upd_participant_def resize_down_def fence_back_def)
    have gen: "st_generation (im_state ?u) = st_generation ?st" unfolding u by (simp add: fencing_def)
    have way: "fence_under_way s i t" if "tx_impl t = fencing s i ?r ?fs f g (im_active_workers s) (im_disk s)"
      "tx_undo t = [set_generation (st_generation ?st), ?U]" for g
      unfolding fence_under_way_def using that undo
      by (intro exI [of _ ?r] exI [of _ ?fs] exI [of _ f] exI [of _ g] exI [of _ "im_active_workers s"] exI [of _ ?U]) simp
    show ?thesis
    proof (cases "counter_next (st_generation ?st)")
      case None
      then have "tx_impl t = ?u" "isl q" "tx_undo t = [set_generation (st_generation ?st), ?U]"
        using run Some gen by (auto simp: tx_simps)
      with way show ?thesis unfolding u by blast
    next
      case more: (Some gen')
      then have "tx_impl t = set_generation gen' ?u" "tx_mutated t" "tx_undo t = [set_generation (st_generation ?st), ?U]"
        using run Some gen by (auto simp: tx_simps)
      moreover have "set_generation gen' ?u = fencing s i ?r ?fs f gen' (im_active_workers s) (im_disk s)"
        unfolding u by (simp add: set_generation_def fencing_def)
      ultimately show ?thesis using way by simp
    qed
  qed
qed

lemma record_fence_under_way:
  assumes "running_ok s" "record_fence pid boot reason text allow (begin_tx s) = (q, t)"
    and "length (st_recent_fences (im_state s)) < max_recent_fences (im_limits s)"
  shows "t = begin_tx s \<or> (\<exists>i. find_participant s pid = Some i \<and> fence_under_way s i t \<and> (isl q \<or> tx_mutated t))"
proof (cases "find_participant s pid")
  case None
  then show ?thesis using assms(2) by (simp add: record_fence_def tx_simps begin_tx_def)
next
  case (Some i)
  have i: "i < length (im_participants s)" "raw_find_participant s pid = Some i"
    using find_participant_less [OF Some] find_participant_search [OF assms(1)] Some by (simp_all add: raw_find_participant_def)
  have b: "tx_impl (begin_tx s) = s" by (simp add: begin_tx_def)
  have "t = begin_tx s \<or> fence_under_way s i t \<and> (isl q \<or> tx_mutated t)"
  proof (cases "fl_fenced (lookup_fence s pid boot)")
    case True
    then show ?thesis using assms(2) by (simp add: record_fence_def tx_simps b Some Let_def)
  next
    case free: False
    show ?thesis
    proof (cases "find_incarnation (participant_at s i) boot")
      case None
      then have "t = begin_tx s \<or> defensive_fence i pid boot reason text (begin_tx s) = (q, t)"
        using assms(2) free by (auto simp: record_fence_def tx_simps b Some Let_def split: if_splits)
      then show ?thesis using defensive_fence_under_way [OF _ i] by blast
    next
      case seq: (Some seq)
      then have "live_fence i pid boot seq reason text (begin_tx s) = (q, t)"
        using assms(2) free by (simp add: record_fence_def tx_simps b Some Let_def)
      then show ?thesis using live_fence_under_way [OF _ i(1) assms(3) i(2)] by blast
    qed
  qed
  with Some show ?thesis by blast
qed

text \<open>Its end, when it fails.\<close>

lemma fence_under_way_fails:
  assumes "fence_under_way s i t" "i < length (im_participants s)"
  shows "undone s (tx_impl (undo_rollback t))"
proof -
  obtain r fs f g a U where t: "tx_impl t = fencing s i r fs f g a (im_disk s)" "fence_undo s i r fs f a U"
    "tx_undo t = [U] \<and> g = st_generation (im_state s) \<or> tx_undo t = [set_generation (st_generation (im_state s)), U]"
    using assms(1) unfolding fence_under_way_def by blast
  have "set_generation g' (fencing s i r fs f g a (im_disk s)) = fencing s i r fs f g' a (im_disk s)" for g'
    by (simp add: set_generation_def fencing_def)
  moreover have "U (fencing s i r fs f g' a d) = fence_back s i (dp_idempotency r) g' d" for g' d
    using t(2) [unfolded fence_undo_def, rule_format, of "dp_idempotency r"] by simp
  ultimately have "tx_impl (undo_rollback t) = fence_back s i (dp_idempotency r) (st_generation (im_state s)) (im_disk s)"
    using t(1,3) by (auto simp: undo_rollback_def)
  then show ?thesis using attempts_undone [OF assms(2)] by simp
qed

lemma fence_barrier_fails:
  assumes "fence_under_way s i t" "i < length (im_participants s)" "indexes_match s" "sorted (map dp_id (im_participants s))"
    and "tx_impl v = rebuild_indexes (foldl (\<lambda>s action. action s) ((canonicalize (tx_impl t'))\<lparr> im_disk := d \<rparr>) (tx_undo t'))"
    and "t' = t \<or> t' = t\<lparr> tx_impl := remember_for_participant rec i (tx_impl t) \<rparr>"
  shows "undone s (tx_impl v)"
proof -
  obtain r fs f g a U where t: "tx_impl t = fencing s i r fs f g a (im_disk s)" "fence_undo s i r fs f a U"
    "dp_id r = dp_id (participant_at s i)"
    "tx_undo t = [U] \<and> g = st_generation (im_state s) \<or> tx_undo t = [set_generation (st_generation (im_state s)), U]"
    using assms(1) unfolding fence_under_way_def by blast
  have "remember_for_participant rec i (fencing s i r fs f g a (im_disk s)) =
      fencing s i (r\<lparr> dp_idempotency := remember_attempt (im_limits s) rec (dp_idempotency r) \<rparr>) fs f g a (im_disk s)"
    using assms(2) by (simp add: remember_for_participant_def upd_participant_def upd_state_def fencing_def)
  then obtain h where t': "tx_impl t' = fencing s i (r\<lparr> dp_idempotency := h \<rparr>) fs f g a (im_disk s)" "tx_undo t' = tx_undo t"
    using assms(6) t(1) that [of "dp_idempotency r"] by auto
  have "map dp_id ((im_participants s)[i := r\<lparr> dp_idempotency := h \<rparr>]) = map dp_id (im_participants s)"
    using assms(2) t(3) by (simp add: map_update participant_at_def) (metis list_update_id nth_map)
  then have "(canonicalize (tx_impl t'))\<lparr> im_disk := d \<rparr> = fencing s i (r\<lparr> dp_idempotency := h \<rparr>) fs f g a d"
    using assms(4) by (simp add: t'(1) canonicalize_def fencing_def)
  moreover have "set_generation g' (fencing s i r' fs f g a d) = fencing s i r' fs f g' a d" for g' r'
    by (simp add: set_generation_def fencing_def)
  ultimately have "foldl (\<lambda>s action. action s) ((canonicalize (tx_impl t'))\<lparr> im_disk := d \<rparr>) (tx_undo t') =
      fence_back s i h (st_generation (im_state s)) d"
    using t(2,4) by (auto simp: fence_undo_def t'(2))
  with assms(5) have "tx_impl v = rebuild_indexes (fence_back s i h (st_generation (im_state s)) d)" by simp
  moreover have "without_attempts (im_state (fence_back s i h (st_generation (im_state s)) d)) = without_attempts (im_state s)"
    using attempts_undone [OF assms(2)] by (simp add: undone_def)
  ultimately show ?thesis using undone_same_records [OF assms(3)] by simp
qed

lemma failed_mutation_cases:
  assumes "run_tx io body s = (Inl e, s')"
  obtains (thrown) t where "body (begin_tx s) = (Inl e, t)" "s' = tx_impl (undo_rollback t)"
  | (barrier) x t d where "body (begin_tx s) = (Inr x, t)" "tx_mutated t"
      "s' = rebuild_indexes (foldl (\<lambda>s action. action s) ((canonicalize (tx_impl t))\<lparr> im_disk := d \<rparr>) (tx_undo t))"
proof -
  obtain q t where b: "body (begin_tx s) = (q, t)" by (cases "body (begin_tx s)")
  show thesis
  proof (cases q)
    case (Inl x)
    with assms b show thesis by (intro thrown [of t]) (simp_all add: run_tx_def tx_bind_def end_tx_def)
  next
    case (Inr x)
    show thesis
    proof (cases "tx_mutated t")
      case True
      obtain p v where p: "persist io t = (p, v)" by (cases "persist io t")
      with True assms b Inr obtain y where y: "p = Inl y" "s' = tx_impl (undo_rollback v)"
        by (cases p) (auto simp: run_tx_def tx_bind_def persist_if_mutated_def tx_return_def end_tx_def)
      from barrier_undone [OF p [unfolded y(1)]] obtain d where
        "tx_impl v = rebuild_indexes (foldl (\<lambda>s action. action s) ((canonicalize (tx_impl t))\<lparr> im_disk := d \<rparr>) (tx_undo t))"
        "tx_undo v = []" by blast
      with y(2) b Inr True show thesis by (intro barrier [of x t d]) (simp_all add: undo_rollback_def)
    next
      case False
      with assms b Inr show thesis by (simp add: run_tx_def tx_bind_def persist_if_mutated_def end_tx_def)
    qed
  qed
qed

text \<open>A fence by request, and the fence of a session that is lost.\<close>

lemma failed_fence_undone:
  assumes "running_ok s" "fence_worker io request s = (Inl e, s')" "sorted (map dp_id (im_participants s))"
    and "length (st_recent_fences (im_state s)) < max_recent_fences (im_limits s)"
  shows "undone s s'"
proof -
  have b: "tx_impl (begin_tx s) = s" "\<not> tx_mutated (begin_tx s)" "undo_rollback (begin_tx s) = begin_tx s"
    by (simp_all add: begin_tx_def undo_rollback_def)
  have im: "indexes_match s" using assms(1) by (simp add: running_ok_def)
  have body: "t = begin_tx s \<or> (\<exists>i t0 rec. i < length (im_participants s) \<and> fence_under_way s i t0 \<and> (isl q \<longrightarrow> t = t0) \<and>
      (t = t0 \<or> t = t0\<lparr> tx_impl := remember_for_participant rec i (tx_impl t0) \<rparr>))"
    if m: "fence_body request (begin_tx s) = (q, t)" for q t
  proof (cases "fence_screen (im_state s) request \<noteq> None \<or> find_participant s (fw_participant request) = None \<or>
      isl (fence_digest request)")
    case True
    then have "t = begin_tx s"
      using m by (cases "fence_digest request") (auto simp: fence_body_def tx_simps b Let_def split: option.splits)
    then show ?thesis by blast
  next
    case False
    then obtain i digest where i: "find_participant s (fw_participant request) = Some i" "fence_digest request = Inr digest"
      "fence_screen (im_state s) request = None" by (cases "fence_digest request") auto
    show ?thesis
    proof (cases "find_attempt (dp_idempotency (participant_at s i)) (fw_attempt request)")
      case (Some previous)
      with i m show ?thesis by (simp add: fence_body_def tx_simps b Let_def)
    next
      case None
      obtain p t0 where rf: "record_fence (fw_participant request) (fw_boot request) (fw_reason request) (fw_note request) True
          (begin_tx s) = (p, t0)" by (cases "record_fence (fw_participant request) (fw_boot request) (fw_reason request)
          (fw_note request) True (begin_tx s)")
      have run: "(case p of Inl e \<Rightarrow> (Inl e, t0) | Inr result \<Rightarrow>
          if tx_mutated t0 then (case find_participant (tx_impl t0) (fw_participant request) of None \<Rightarrow> (Inr result, t0)
            | Some j \<Rightarrow> (Inr result, t0\<lparr> tx_impl := remember_for_participant (fence_attempt_record request digest result) j (tx_impl t0) \<rparr>))
          else (Inr result, t0)) = (q, t)"
        using m i None rf
        by (cases p) (auto simp: fence_body_def tx_simps b Let_def tx_bind_def [of "record_fence x y z w v" for x y z w v]
            cong: option.case_cong)
      from record_fence_under_way [OF assms(1) rf assms(4)] show ?thesis
      proof
        assume "t0 = begin_tx s"
        with run b(2) show ?thesis by (auto split: sum.splits)
      next
        assume "\<exists>i. find_participant s (fw_participant request) = Some i \<and> fence_under_way s i t0 \<and> (isl p \<or> tx_mutated t0)"
        then have w: "fence_under_way s i t0" using i(1) by simp
        then have "find_participant (tx_impl t0) (fw_participant request) = Some i"
          using i(1) by (auto simp: fence_under_way_def fencing_def find_participant_def split: option.splits if_splits)
        with run w find_participant_less [OF i(1)] show ?thesis
          by (intro disjI2 exI [of _ i] exI [of _ t0]) (auto split: sum.splits if_splits)
      qed
    qed
  qed
  from assms(2) [unfolded fence_worker_def] show ?thesis
  proof (cases rule: failed_mutation_cases)
    case (thrown t)
    from body [OF thrown(1)] show ?thesis
    proof
      assume "t = begin_tx s"
      with thrown(2) b show ?thesis by (simp add: undone_refl)
    qed (use thrown(2) fence_under_way_fails in auto)
  next
    case (barrier x t d)
    with body [OF barrier(1)] b(2) obtain i t0 rec where w: "i < length (im_participants s)" "fence_under_way s i t0"
      "t = t0 \<or> t = t0\<lparr> tx_impl := remember_for_participant rec i (tx_impl t0) \<rparr>" by auto
    show ?thesis
      using fence_barrier_fails [OF w(2,1) im assms(3) _ w(3), where v = "t\<lparr> tx_impl := s' \<rparr>" and d = d] barrier(3) by simp
  qed
qed

lemma failed_close_undone:
  assumes "running_ok s" "close_session io sid reason s = (Inl e, s')" "sorted (map dp_id (im_participants s))"
    and "length (st_recent_fences (im_state s)) < max_recent_fences (im_limits s)"
  shows "undone s s'"
proof -
  obtain a c where e: "erase_session sid s = s\<lparr> im_session_index := a, im_boot_session_index := c \<rparr>"
    using erase_session_tables by blast
  let ?e = "s\<lparr> im_session_index := a, im_boot_session_index := c \<rparr>"
  have ok: "running_ok ?e" by (rule session_tables_ok(1) [OF assms(1)])
  then have im: "indexes_match ?e" by (simp add: running_ok_def)
  have b: "\<not> tx_mutated (begin_tx ?e)" "tx_impl (undo_rollback (begin_tx ?e)) = ?e"
    by (simp_all add: begin_tx_def undo_rollback_def)
  obtain pid boot reason' text' where run: "run_tx io (record_fence pid boot reason' text' False) ?e = (Inl e, s')"
    using assms(2) by (auto simp: close_session_def Let_def e split: option.splits if_splits)
  note way = record_fence_under_way [OF ok]
  have room: "length (st_recent_fences (im_state ?e)) < max_recent_fences (im_limits ?e)" using assms(4) by simp
  from run have "undone ?e s'"
  proof (cases rule: failed_mutation_cases)
    case (thrown t)
    from way [OF thrown(1) room] show ?thesis
      using thrown(2) b(2) fence_under_way_fails [of ?e] find_participant_less [of ?e] undone_refl by metis
  next
    case (barrier x t d)
    with way [OF barrier(1) room] b(1) obtain i where w: "find_participant ?e pid = Some i" "fence_under_way ?e i t" by auto
    from fence_barrier_fails [OF w(2) find_participant_less [OF w(1)] im _ _ disjI1 [OF refl], where v = "t\<lparr> tx_impl := s' \<rparr>"]
    show ?thesis using barrier(3) assms(3) by simp
  qed
  then show ?thesis by (simp add: undone_def)
qed

section \<open>A registration of a known participant\<close>

lemma issued_fields:
  "dp_id (issue_incarnation request generation incarnation next p) = dp_id p"
  by (simp add: issue_incarnation_def Let_def)

lemma accept_known_outcomes:
  assumes "accept_registration request True digest (Some i) (begin_tx s) = (q, t)" "i < length (im_participants s)"
    and "raw_find_participant s (rp_participant request) = Some i" "\<not> counter_is_max (st_generation (im_state s))"
  obtains (undone) "isl q" "tx_impl (undo_rollback t) = s"
  | (issued) r f g where "\<not> isl q" "tx_mutated t" "dp_id r = dp_id (participant_at s i)"
      "im_state (tx_impl t) = (im_state s)\<lparr> st_generation := g, st_registration_floor := f,
         st_participants := (im_participants s)[i := r] \<rparr>"
      "tx_undo t = [set_generation (st_generation (im_state s)), set_registration_floor (st_registration_floor (im_state s)),
         restore_participant (rp_participant request) (\<lambda>_. participant_at s i)]"
proof -
  let ?st = "im_state s" and ?p = "participant_at s i"
  let ?R = "restore_participant (rp_participant request) (\<lambda>_. ?p)"
  note run = assms(1) [unfolded accept_registration_def open_record_def issue_registration_def Let_def tx_next_def bump_generation_def
      begin_tx_def]
  have R: "?R s = s"
    using assms(2,3) by (simp add: restore_participant_def upd_participant_def upd_state_def participant_at_def)
  show thesis
  proof (cases "counter_next (st_registration_floor ?st)")
    case None
    then have "isl q \<and> tx_impl (undo_rollback t) = s" using run R by (auto simp: tx_simps undo_rollback_def)
    then show thesis using undone by blast
  next
    case (Some f)
    let ?s = "set_registration_floor f s"
    have F: "set_registration_floor (st_registration_floor ?st) ?s = s" "participant_at ?s i = ?p" "st_generation (im_state ?s) = st_generation ?st"
      by (simp_all add: set_registration_floor_def upd_state_def participant_at_def)
    show thesis
    proof (cases "counter_next (dp_next_incarnation ?p)")
      case None
      then have "isl q \<and> tx_impl (undo_rollback t) = s"
        using run Some F R by (auto simp: tx_simps undo_rollback_def)
      then show thesis using undone by blast
    next
      case inc: (Some n)
      obtain gen where gen: "counter_next (st_generation ?st) = Some gen"
        using assms(4) by (auto simp: counter_next_def counter_is_max_def)
      let ?u = "enter_incarnation request digest i f (dp_next_incarnation ?p) n ?s"
      obtain r where r: "im_state ?u = ?st\<lparr> st_registration_floor := f, st_participants := (im_participants s)[i := r] \<rparr>"
        "dp_id r = dp_id ?p"
        using assms(2)
        by (simp add: enter_incarnation_def Let_def remember_for_participant_def upd_participant_def upd_state_def
            set_registration_floor_def issued_fields participant_at_def)
      have "st_generation (im_state ?u) = st_generation ?st" by (simp add: r(1))
      then have "tx_impl t = set_generation gen ?u" "tx_mutated t" "\<not> isl q"
        "tx_undo t = [set_generation (st_generation ?st), set_registration_floor (st_registration_floor ?st), ?R]"
        using run Some inc gen F(2) by (auto simp: tx_simps)
      then show thesis using r by (intro issued [where r = r and g = gen and f = f]) (simp_all add: set_generation_def)
    qed
  qed
qed

lemma failed_reregistration_undone:
  assumes "running_ok s" "register_participant io request s = (Inl e, s')" "sorted (map dp_id (im_participants s))"
    and "find_participant s (rp_participant request) = Some i" "\<not> has_incumbent (participant_at s i)"
    and "\<not> counter_is_max (st_generation (im_state s))"
  shows "undone s s'"
proof -
  let ?m = "apply_registration request True"
  have i: "i < length (im_participants s)" "raw_find_participant s (rp_participant request) = Some i"
    using find_participant_less [OF assms(4)] find_participant_search [OF assms(1)] assms(4) by (simp_all add: raw_find_participant_def)
  have b: "tx_impl (begin_tx s) = s" "\<not> tx_mutated (begin_tx s)" "tx_impl (undo_rollback (begin_tx s)) = s"
    by (simp_all add: begin_tx_def undo_rollback_def)
  have im: "indexes_match s" using assms(1) by (simp add: running_ok_def)
  have body: "t = begin_tx s \<or> (\<exists>digest. accept_registration request True digest (Some i) (begin_tx s) = (q, t))"
    if m: "?m (begin_tx s) = (q, t)" for q t
  proof (cases "registration_screen s request \<noteq> None \<or> isl (register_digest request)")
    case True
    then show ?thesis
      using m by (cases "register_digest request") (auto simp: apply_registration_def tx_simps b split: option.splits)
  next
    case False
    then obtain digest where d: "register_digest request = Inr digest" "registration_screen s request = None"
      by (cases "register_digest request") auto
    have "replace_incumbent request i (begin_tx s) = (Inr None, begin_tx s)"
      using assms(5) by (simp add: replace_incumbent_def tx_simps b)
    then show ?thesis
      using m d assms(4)
      by (cases "registration_decision s request digest i"; cases "registration_limits (Some i) s")
        (auto simp: apply_registration_def finish_registration_def tx_simps b tx_bind_def [of "replace_incumbent x y" for x y])
  qed
  from assms(2) [unfolded register_participant_def] show ?thesis
  proof (cases rule: failed_mutation_cases)
    case (thrown t)
    have "undone s (tx_impl (undo_rollback t))"
      if a: "accept_registration request True digest (Some i) (begin_tx s) = (Inl e, t)" for digest
      using a i assms(6)
    proof (cases rule: accept_known_outcomes)
      case undone
      then show ?thesis by (simp add: undone_refl)
    next
      case (issued r f g)
      then show ?thesis by simp
    qed
    with body [OF thrown(1)] thrown(2) b(3) show ?thesis by (auto simp: undone_refl)
  next
    case (barrier x t d)
    then obtain digest where a: "accept_registration request True digest (Some i) (begin_tx s) = (Inr x, t)"
      using body [OF barrier(1)] b(2) by blast
    from a i assms(6) show ?thesis
    proof (cases rule: accept_known_outcomes)
      case (issued r f g)
      let ?u = "(canonicalize (tx_impl t))\<lparr> im_disk := d \<rparr>"
      have list: "im_participants (tx_impl t) = (im_participants s)[i := r]" by (simp add: issued(4))
      have "map dp_id ((im_participants s)[i := r]) = map dp_id (im_participants s)"
        using i(1) issued(3) by (simp add: map_update participant_at_def) (metis list_update_id nth_map)
      then have u: "im_state ?u = im_state (tx_impl t)" using assms(3) by (simp add: canonicalize_def list)
      have p: "position (\<lambda>p. dp_id p = rp_participant request) ((im_participants s)[i := r]) = Some i"
        using i issued(3) by (simp add: position_update raw_find_participant_def participant_at_def)
      have "im_state (foldl (\<lambda>s action. action s) ?u (tx_undo t)) = im_state s"
        using i(1) p u
        by (simp add: issued(4,5) set_generation_def set_registration_floor_def upd_state_def restore_participant_def
            raw_find_participant_def upd_participant_def participant_at_def)
      with barrier(3) show ?thesis using undone_same_records [OF im] by simp
    qed simp
  qed
qed

section \<open>A grant\<close>

lemma enter_grant_runs:
  assumes "enter_grant request digest i gid (begin_tx s) = (q, t)" "\<not> counter_is_max (st_generation (im_state s))"
    and "i < length (im_participants s)"
  obtains gen g rs where "\<not> isl q" "tx_undo t = [set_generation (st_generation (im_state s)), pop_grant]"
    "im_state (tx_impl t) = (im_state s)\<lparr> st_generation := gen, st_grants := st_grants (im_state s) @ [g],
       st_participants := (im_participants s)[i := (participant_at s i)\<lparr> dp_idempotency := rs \<rparr>] \<rparr>"
proof -
  obtain gen where gen: "counter_next (st_generation (im_state s)) = Some gen"
    using assms(2) by (auto simp: counter_next_def counter_is_max_def)
  have same: "st_generation (im_state (append_grant g s)) = st_generation (im_state s)" for g
    by (simp add: append_grant_def Let_def upd_state_def)
  show thesis
    using assms gen that
    by (auto simp: enter_grant_def Let_def tx_simps begin_tx_def bump_generation_def tx_next_def same stamp_grant_def upd_grant_def
        set_generation_def upd_state_def remember_for_participant_def upd_participant_def append_grant_def participant_at_def)
qed

lemma failed_grant_undone:
  assumes "indexes_match s" "grant_authority env request s = (Inl e, s')" "sorted (map dp_id (im_participants s))"
    and "\<not> counter_is_max (st_generation (im_state s))"
  shows "undone s s'"
proof -
  have b: "tx_impl (begin_tx s) = s" "\<not> tx_mutated (begin_tx s)" "tx_impl (undo_rollback (begin_tx s)) = s"
    by (simp_all add: begin_tx_def undo_rollback_def)
  have body: "t = begin_tx s \<or> (\<exists>digest i gid. i < length (im_participants s) \<and> enter_grant request digest i gid (begin_tx s) = (q, t))"
    if m: "apply_grant env request (begin_tx s) = (q, t)" for q t
  proof (cases "find_participant s (gq_participant request)")
    case None
    then show ?thesis using m by (auto simp: apply_grant_def tx_simps b Let_def split: option.splits)
  next
    case (Some i)
    then have i: "i < length (im_participants s)" by (rule find_participant_less)
    show ?thesis
    proof (cases "grant_shape (im_limits s) (im_state s) request \<noteq> None \<or> grant_standing s (participant_at s i) request \<noteq> None \<or>
        isl (grant_digest request) \<or> isl (en_grant env)")
      case True
      then show ?thesis
        using m Some by (cases "grant_digest request"; cases "en_grant env")
          (auto simp: apply_grant_def tx_simps b Let_def split: option.splits if_splits)
    next
      case False
      then obtain digest gid where "grant_digest request = Inr digest" "en_grant env = Inr gid"
        by (cases "grant_digest request"; cases "en_grant env") auto
      with False m Some i show ?thesis
        by (fastforce simp: apply_grant_def tx_simps b Let_def split: option.splits if_splits)
    qed
  qed
  from assms(2) [unfolded grant_authority_def] show ?thesis
  proof (cases rule: failed_mutation_cases)
    case (thrown t)
    with body [OF thrown(1)] enter_grant_runs [OF _ assms(4)] b(3) show ?thesis by (metis isl_def undone_refl)
  next
    case (barrier x t d)
    then obtain digest i gid where a: "enter_grant request digest i gid (begin_tx s) = (Inr x, t)" "i < length (im_participants s)"
      using body [OF barrier(1)] b(2) by blast
    from enter_grant_runs [OF a(1) assms(4) a(2)] obtain gen g rs where
      u: "tx_undo t = [set_generation (st_generation (im_state s)), pop_grant]"
      "im_state (tx_impl t) = (im_state s)\<lparr> st_generation := gen, st_grants := st_grants (im_state s) @ [g],
         st_participants := (im_participants s)[i := (participant_at s i)\<lparr> dp_idempotency := rs \<rparr>] \<rparr>" .
    have "map dp_id ((im_participants s)[i := (participant_at s i)\<lparr> dp_idempotency := rs \<rparr>]) = map dp_id (im_participants s)"
      using a(2) by (simp add: map_update participant_at_def) (metis list_update_id nth_map)
    then have "im_state (canonicalize (tx_impl t)) = im_state (tx_impl t)"
      using assms(3) by (simp add: canonicalize_def u(2))
    moreover have "map (\<lambda>p. p\<lparr> dp_idempotency := [] \<rparr>) ((im_participants s)[i := (participant_at s i)\<lparr> dp_idempotency := rs \<rparr>]) =
        map (\<lambda>p. p\<lparr> dp_idempotency := [] \<rparr>) (im_participants s)"
      using a(2) by (simp add: map_update participant_at_def) (metis list_update_id nth_map)
    ultimately have "without_attempts (im_state (foldl (\<lambda>s action. action s) ((canonicalize (tx_impl t))\<lparr> im_disk := d \<rparr>) (tx_undo t)))
        = without_attempts (im_state s)"
      by (simp add: u pop_grant_def set_generation_def upd_state_def without_attempts_def)
    with barrier(3) show ?thesis using undone_same_records [OF assms(1)] by simp
  qed
qed

section \<open>Requests that are undone\<close>

lemma failed_flush_undone: "flush io s = (r, s') \<Longrightarrow> undone s s'"
  by (auto simp: flush_def save_impl_def undone_def split: prod.splits)

lemma failed_bind_undone: "bind_session b s = (r, s') \<Longrightarrow> undone s s'"
  by (auto simp: bind_session_def undone_def split: if_splits)

text \<open>Every commit leaves the participants in the order that is asked for here.\<close>

lemma committed_sorted: "sorted (map dp_id (im_participants (committed io s)))"
  by (simp add: frame_simps) (simp add: canonicalize_def)

fun undoable :: "impl \<Rightarrow> request \<Rightarrow> bool" where
  "undoable s (Register io q) \<longleftrightarrow>
     \<not> counter_is_max (st_generation (im_state s)) \<and>
     (\<exists>i. find_participant s (rp_participant q) = Some i \<and> \<not> has_incumbent (participant_at s i))"
| "undoable s (Fence io q) \<longleftrightarrow> length (st_recent_fences (im_state s)) < max_recent_fences (im_limits s)"
| "undoable s (Close io sid reason) \<longleftrightarrow> length (st_recent_fences (im_state s)) < max_recent_fences (im_limits s)"
| "undoable s (Advance env q) \<longleftrightarrow> length (st_transitions (im_state s)) < max_transition_history (im_limits s)"
| "undoable s (Bind b) \<longleftrightarrow> True"
| "undoable s (Flush io) \<longleftrightarrow> True"
| "undoable s (RegisterBatch io qs) \<longleftrightarrow> False"
| "undoable s (Grant env q) \<longleftrightarrow> False"
| "undoable s (Revoke io q) \<longleftrightarrow> False"
| "undoable s (Retire io q) \<longleftrightarrow> False"

text \<open>
  C27. A request that fails is undone: when a fence, the fence of a lost session, an advancement of the epoch, a flush, or the
  registration of a known participant that has no incumbent throws, at whatever point and whatever the store has done, the
  records in memory are what they were before it, up to tables of attempts, the indexes agree with them, and the coordinator
  still satisfies the invariant it goes on with. For a fence the list of recent fences must not be full before it, for an
  advancement the history of transitions, for a registration the generation counter must not be at its end; and the
  participants are in order, as every commit leaves them. (A full list loses its oldest entry for good; grants, revocations,
  retirements, batches and new participants are not covered.)
\<close>

theorem failed_request_undone:
  assumes "running_ok s" "perform q s = (Inl e, s')" "undoable s q" "sorted (map dp_id (im_participants s))"
  shows "undone s s' \<and> running_ok s'"
proof -
  have lift: "\<exists>e. m = (Inl e, s')" if "outcome_of m = (Inl e, s')" for m :: "'x res \<times> impl"
    using that by (cases m; cases "fst m") (auto simp: outcome_of_def)
  have "undone s s'"
  proof (cases q)
    case (Register io x)
    with assms(2,3) lift [of "register_participant io x s"] show ?thesis
      using failed_reregistration_undone [OF assms(1) _ assms(4)] by auto
  next
    case (Fence io x)
    with assms(2,3) lift [of "fence_worker io x s"] show ?thesis using failed_fence_undone [OF assms(1) _ assms(4)] by auto
  next
    case (Close io sid reason)
    with assms(2,3) lift [of "close_session io sid reason s"] show ?thesis
      using failed_close_undone [OF assms(1) _ assms(4)] by auto
  next
    case (Advance env x)
    with assms lift [of "advance_epoch env x s"] show ?thesis using failed_advance_undone by (auto simp: running_ok_def)
  next
    case (Bind b)
    with assms(2) lift [of "bind_session b s"] show ?thesis using failed_bind_undone by auto
  next
    case (Flush io)
    with assms(2) lift [of "flush io s"] show ?thesis using failed_flush_undone by auto
  qed (use assms(3) in simp_all)
  then show ?thesis using undone_running [OF assms(1)] perform_request [OF assms(1,2)] by blast
qed

lemma broken_barrier: "\<exists>e t'. persist broken_disk t = (Inl e, t')"
  by (auto simp: persist_def save_impl_def store_save_def attempt_io_def broken_disk_def res_bind_def Let_def
      split: sum.split prod.split)

theorem failed_request_undone_witness:
  "\<exists>s e s'. perform (Fence broken_disk fence_request) s = (Inl e, s') \<and>
     current (im_state s) worker (Fixed128Id 10) (MonotonicCounter 1) \<and> undone s s' \<and> running_ok s'"
proof -
  obtain s where s: "at_state s state2" by (rule demo_born)
  note at = at_stateD [OF s]
  obtain r u where r: "fence_worker io_ok fence_request s = (Inr r, u)" "at_state u state3" using fence_demo [OF s] by blast
  have "st_recent_fences (im_state u) \<noteq> st_recent_fences (im_state s)"
    using at_stateD(2) [OF r(2)] at(2) by (simp add: state3_def state2_fields)
  then have "im_state u \<noteq> im_state s" by auto
  from fence_body_quiet r(1) [unfolded fence_worker_def] obtain t where t: "fence_body fence_request (begin_tx s) = (Inr r, t)" "tx_mutated t"
  proof (cases rule: run_tx_returns)
    case 1
    with \<open>im_state u \<noteq> im_state s\<close> show thesis by simp
  next
    case (2 t)
    then show thesis using that by blast
  qed
  obtain e t' where "persist broken_disk t = (Inl e, t')" using broken_barrier by blast
  with t have "\<exists>s'. perform (Fence broken_disk fence_request) s = (Inl e, s')"
    by (simp add: fence_worker_def run_tx_def tx_bind_def persist_if_mutated_def end_tx_def outcome_of_def)
  then obtain s' where s': "perform (Fence broken_disk fence_request) s = (Inl e, s')" by blast
  have "undoable s (Fence broken_disk fence_request)" "sorted (map dp_id (im_participants s))"
    using at by (simp_all add: state2_fields)
  from failed_request_undone [OF at(1) s' this] s' state2_authorizes(3) [OF s] show ?thesis by blast
qed

end
