(* ===== verification/Spec2Isabelle.thy ===== *)
theory Spec2Isabelle
  imports Faithful Queries Sha256_Vectors Client Connections Revocation Retry Recovery Delegation
    Exits Processes Sockets Threads Media Availability Undo
begin

text \<open>
  Fabric Epoch: a model of the authority coordinator and what it guarantees.

  The program is a single authority for the question whether a worker may act now. Workers
  (participants) register with a boot identifier and receive an incarnation number; the coordinator
  fences boots, grants and revokes delegated authority, retires participants and moves the whole
  fabric from one epoch to the next. Every mutation is written to a durable image before it is
  answered. All of it is in the namespace \<open>fabric_epoch\<close> of \<open>include/fabric_epoch\<close> and \<open>src\<close>.

  The theories follow the layers of the code, each importing those it calls.

  Values. \<open>Prelude\<close> has byte orders, bounded rings and association indexes; \<open>Errors\<close> (\<open>error.cpp\<close>) the
  error values that exceptions become, a result being \<open>EpochError + 'a\<close>; \<open>Identity\<close> (\<open>identity.hpp\<close>) the
  128-bit identifiers, participant identifiers, 64-bit counters that refuse to wrap, bounded text;
  \<open>Scope\<close> (\<open>scope.cpp\<close>) scopes and canonical scope sets, interpreted in the locale \<open>bounded_set\<close>;
  \<open>Explanations\<close> (\<open>explanation.cpp\<close>), \<open>Vocabulary\<close> (the headers' enumerations and records).

  Bytes. \<open>Encoding\<close> (\<open>encoding.cpp\<close>) has \<open>ByteWriter\<close> and \<open>ByteReader\<close> as a writer and a reader of byte lists and
  the locales \<open>byte_codec\<close> (what is written is read back, whatever follows) and \<open>canonical_codec\<close> (and nothing
  else is accepted). \<open>Codec\<close>, \<open>DurableCodec\<close> and \<open>Views\<close> (\<open>codec.cpp\<close>) interpret them for every record;
  \<open>Faithful\<close> shows that the payload decoder never returns another state than the encoded one. \<open>Sha256\<close>
  (\<open>sha256.cpp\<close>) is the incremental hasher against a specification, with vectors in \<open>Sha256_Vectors\<close>.

  Durability. \<open>Durable\<close> (\<open>durable.cpp\<close>) is \<open>validate_durable_state\<close> against a declarative format; \<open>Store\<close>
  (\<open>store.cpp\<close>) loads and saves the image and the rollback watermark over a disk of two files, and is an
  instance of the locale \<open>durable_store\<close>. The file system is the parameter \<open>io\<close>: which steps of an
  operation fail, and with which error. \<open>Files\<close> is the same code one level below, on POSIX: reading and writing in pieces,
  temporary names, \<open>fsync\<close>, \<open>rename\<close> and \<open>unlink\<close> as system calls on contents that may or may not have reached the medium.
  A save of \<open>Files\<close> is a run of \<open>store_save\<close>, and whatever a kill or a loss of power leaves at any of its calls loads as the
  old or the new state, or has only the watermark of the new one; after several saves it is one of the images that a loss of
  power could have brought back before. A watermark that cannot be inspected counts as missing, as in the code. \<open>Media\<close> has a save on which every call succeeds.

  The runtime (\<open>runtime.cpp\<close>). \<open>RuntimeState\<close> has \<open>Impl\<close> with its secondary indexes and lookups;
  \<open>Transaction\<close> the frame of every mutation, a state monad over the implementation, the undo log and the
  mutated flag, with \<open>persist\<close> at its end; \<open>Fencing\<close>, \<open>Registration\<close>, \<open>Grants\<close>, \<open>Retirement\<close>, \<open>Epochs\<close>,
  \<open>Validation\<close>, \<open>Queries\<close> and \<open>Sessions\<close> the operations. Random identifiers and entropy failures are
  inputs in the record \<open>env\<close>. \<open>Requests\<close> has the public operations that change the runtime as one datatype, with
  \<open>perform\<close>, which returns or throws and leaves the runtime that the code leaves in either case. Every public operation of the code holds the mutex of the runtime throughout,
  so operations are atomic and concurrency is the order in which they are applied.

  Proofs about the runtime. \<open>Commit\<close>: what a committed mutation leaves. \<open>Progress\<close>: every step only moves
  the records forward in the order \<open>state_le\<close>. \<open>Failure\<close>: what a failed mutation leaves on disk. \<open>System\<close>:
  the coordinator as a process (\<open>coordinator_step\<close>) that performs requests, crashes and is started again, with the
  invariant \<open>running_ok\<close> of a running coordinator. A request that throws does not end the process: \<open>server.cpp\<close> catches the
  error, ends the session of the request and goes on with the runtime that the undo log has made (\<open>lives\<close>). Since that log
  is not complete (the findings on \<open>restore_revocations\<close>, on the bounded rings and on the registration of a new
  participant), what compares two states of one run is stated for the lives in which every request that threw was
  \<open>undone\<close>, with the records as before up to tables of attempts and with the indexes as before, or was the last before the
  process ended (\<open>guarded_step\<close>, \<open>steady_lives\<close>); what is stated of \<open>lives\<close> has no such condition. The invariant asks for the
  image of a state at least as new as the one in memory, because a save that is reported to have failed may have replaced
  the image. \<open>Undo\<close> shows which requests are undone when they throw: fences, the fence of a lost session, advancements,
  flushes, and registrations of a known participant that has no incumbent, as long as the bounded ring in question is not
  full. \<open>Invariants\<close>: the locale \<open>durable_invariant\<close>, by which a condition on the
  records that every way of entering a new state keeps holds in every life, also of lives restricted to some
  requests. \<open>Authority\<close>: validation characterised by the current
  incarnations. \<open>Indexes\<close>: lookups as linear searches. \<open>Effects\<close>: what each mutation does. \<open>Scenario\<close>: one
  concrete run, whose states witness the hypotheses of the properties below. On these rest
  \<open>Exclusive\<close> (a participant of the single-incarnation policy has one current incarnation, as long as registrations are
  not batched; a batch does not see the fences it has entered itself once they leave the bounded list of the
  participant), \<open>Retry\<close> (an accepted registration is idempotent), \<open>Delegation\<close> (a delegated grant is within its
  grantors), \<open>Recovery\<close> (a coordinator started on what a crash left continues where it ended) and \<open>Digests\<close> (the canonical
  texts that are hashed are prefix-free codes of what they are about, locale \<open>code\<close>; so snapshots with one digest agree
  and an attempt stands for one request, unless two texts have the same hash). \<open>Acceptance\<close> is the converse of what a
  registration that is accepted does: the checks and the barrier together accept exactly the requests that satisfy a
  condition on the records, as long as no counter is exhausted, the image has room and the store works. \<open>Availability\<close>
  shows that the coordinator can be relied on: a coordinator whose image can be read back (\<open>standing\<close>, with a bound on
  the bytes of its image) registers, fences, advances and restarts whenever a store that works lets it, and each of them
  leaves a standing coordinator whose image has grown by a stated number of bytes.

  The wire. \<open>Frames\<close> (\<open>protocol.cpp\<close>) has the message types, the frame header and its digest; \<open>Payloads\<close> the pieces
  that payloads share and \<open>Messages\<close> every payload encoder and decoder, each an instance of \<open>byte_codec\<close> or
  \<open>canonical_codec\<close>. \<open>Wire\<close> is \<open>recv_exact\<close> (\<open>socket.cpp\<close>) and the frame readers over a list of receive events, and the
  actions that the two sides are written in: functions of a state that return a value or throw and keep the state.
  \<open>Server\<close> (\<open>server.cpp\<close>) is one connection from its first frame to the closing of its session; what the threads of other
  connections do before each of its calls is a list of requests, each of which may return or throw. \<open>Client\<close> (\<open>client.cpp\<close>) is every operation of the
  client over the events of its connection. \<open>Serving\<close> shows that a whole connection, whatever arrives on it and whatever
  throws, takes the runtime only through \<open>lives\<close> of \<open>System\<close>, and never puts on disk anything but the image of a valid state;
  \<open>Remote\<close> composes client and server; \<open>Answers\<close> bounds what is answered; \<open>Connections\<close> has what the end of a
  connection does, and the greeting. \<open>Revocation\<close> is the delegation graph: the walk of a revocation ends and
  leaves nothing live below the revoked grant, and the walk that undoes one may not end. \<open>Sockets\<close> (\<open>socket.cpp\<close>) is the
  rest of the socket layer, with the results of the system calls as inputs. \<open>Threads\<close> is the other half of \<open>server.cpp\<close>: the main thread, the
  acceptor and the session threads as program counters over the mutex, the condition variable and the flags they share, where a session that
  sends to a peer which does not read is blocked, and holds up the end of the server exactly then.

  The programs (\<open>apps\<close>). \<open>Rendering\<close> has the \<open>render\<close> methods of results, \<open>Arguments\<close> (\<open>arguments.cpp\<close>) the reading of
  command lines, \<open>Tools\<close> (\<open>cli_main.cpp\<close>) every command of the command line tool as an action over a client, the lines
  printed and the exit code, and \<open>Processes\<close> the programs of the worker and of the coordinator, the latter
  serving its connections with \<open>serve\<close> of \<open>Server\<close>. \<open>Exits\<close> follows a
  decision of the runtime to the exit code of the tool. A line counts as printed when it is complete.

  Bounds. The loops of the code are folds over lists, except the walk over the descendants of a grant
  and its undo, which have the fuel of \<open>walk_fuel\<close> in \<open>Grants\<close> (enough for the first by \<open>Revocation\<close>; the second ends only
  on graphs without cycles, and the model stops it there), and the block loop of the hasher. Counters
  and lengths keep their widths; \<open>counter_next\<close> is \<open>None\<close> at the last value, and every caller turns that into
  the overflow error of the code.

  Not modelled: operating system entropy, and system calls below the results that the code sees; the branches for Windows; other
  processes that use the names of a store; the mutex of the runtime; exceptions
  other than \<open>EpochError\<close>; the benchmarks, examples and tests. In \<open>Store\<close> a file can always be inspected (\<open>Files\<close> has the failing \<open>stat\<close>).
\<close>

section \<open>Authority across restarts\<close>

text \<open>
  C1. In a life that began on an empty store and in which every request that threw left the records in memory as they were
  before it (or was the last before the process ended): once an incarnation that validated is no longer current, no token for
  it ever validates again, on the token path or through a grant, however many requests failed and however often the
  coordinator crashed and was restarted. (A commit that fails and is not undone is outside this: a failed registration of a
  new participant can take the record of another out of memory, which then registers from the first incarnation again.)
\<close>

theorem superseded_never_validates:
  assumes "steady_lives (Stopped d) (Running s1)" "image_file d = None"
    and "steady_lives (Running s1) (Running s2)" "steady_lives (Running s2) (Running s3)"
    and "av_authorized (validate_authority s1 request)" "acting_participant s1 request = Some pid"
    and "\<not> current (im_state s2) pid (tok_boot (va_token request)) (tok_incarnation (va_token request))"
    and "acting_participant s3 request' = Some pid"
    and "tok_boot (va_token request') = tok_boot (va_token request)"
    and "tok_incarnation (va_token request') = tok_incarnation (va_token request)"
  shows "\<not> av_authorized (validate_authority s3 request')"
proof -
  have ok1: "running_ok s1" by (rule born_running [OF assms(1,2)])
  note l2 = steady_running [OF assms(3) ok1]
  note l3 = steady_running [OF assms(4) l2(1)]
  have "current (im_state s1) pid (tok_boot (va_token request)) (tok_incarnation (va_token request))"
    using authorized_current [OF ok1 assms(5)] assms(6) by simp
  from not_current_again [OF ok1 l2(1) l3(1) l2(2) l3(2) this assms(7)]
  show ?thesis using authorized_current [OF l3(1), of request'] assms(8-10) by auto
qed


theorem superseded_never_validates_witness:
  "\<exists>s3. steady_lives (Stopped empty_disk) (Running s3) \<and> \<not> av_authorized (validate_authority s3 token_request)"
proof -
  obtain s2 where s2: "steady_lives (Stopped empty_disk) (Running s2)" "at_state s2 state2"
    by (rule demo_born)
  obtain r s3 where r: "fence_worker io_ok fence_request s2 = (Inr r, s3)" "at_state s3 state3"
    using fence_demo [OF s2(2)] by blast
  have step: "steady_lives (Running s2) (Running s3)"
    using r(1) by (intro serve_step [of "Fence io_ok fence_request"]) simp
  have "\<not> av_authorized (validate_authority s3 token_request)"
    by (rule superseded_never_validates [OF s2(1) _ step rtranclp.rtrancl_refl, of token_request worker])
      (use state2_authorizes [OF s2(2)] state3_superseded [OF r(2)] in \<open>simp_all add: empty_disk_def\<close>)
  then show ?thesis
    using rtranclp_trans [OF s2(1) step] by blast
qed



section \<open>Epochs\<close>

text \<open>
  C6. An accepted advancement of the epoch enters the next epoch and generation, records the
  transition, keeps grants and fences, and ends all authority: no token and no grant validates in
  the state it leaves.
\<close>

theorem advance_ends_authority:
  assumes "running_ok s" "advance_epoch env request s = (Inr r, s')"
    and "eo_outcome r = EpochAdvanceOutcome.Advanced" "\<not> eo_replayed r"
  shows "epoch_entered (im_state s) True (im_state s') \<and> eo_epoch r = st_current_epoch (im_state s') \<and>
    \<not> av_authorized (validate_authority s' query)"
proof -
  have ok: "running_ok s'"
    using advance_epoch_serves [OF assms(1,2)] by (simp add: serves_def)
  have e: "epoch_entered (im_state s) True (im_state s')" "eo_epoch r = st_current_epoch (im_state s')"
    using advance_epoch_cases [OF assms(2)] assms(3,4) by auto
  then show ?thesis
    using authorized_current [OF ok] no_authority_current [OF epoch_entered_no_authority [OF e(1)]]
    by blast
qed

theorem advance_ends_authority_witness:
  "\<exists>s s'. av_authorized (validate_authority s token_request) \<and>
     \<not> isl (fst (advance_epoch advance_env advance_request s)) \<and>
     s' = snd (advance_epoch advance_env advance_request s) \<and>
     \<not> av_authorized (validate_authority s' token_request)"
proof -
  obtain s2 where s2: "at_state s2 state2" by (rule demo_born)
  obtain r s' where r: "advance_epoch advance_env advance_request s2 = (Inr r, s')"
      "eo_outcome r = EpochAdvanceOutcome.Advanced" "\<not> eo_replayed r"
    using advance_demo [OF s2] by blast
  from advance_ends_authority [OF at_stateD(1) [OF s2] r, of token_request]
  show ?thesis using state2_authorizes(1) [OF s2] r(1) by (intro exI [of _ s2] exI [of _ s']) simp
qed

text \<open>
  C7. A coordinator that opens an established store and advances on opening starts one epoch later,
  and nothing that was authorized before validates with it.
\<close>

theorem restart_ends_authority:
  assumes "open_runtime env opts d = (Inr s, d')" "op_advance_epoch_on_open opts" "holds d st"
    and "\<not> counter_is_zero (st_current_epoch st)"
  shows "counter_nat (st_current_epoch (im_state s)) = counter_nat (st_current_epoch st) + 1 \<and>
    \<not> av_authorized (validate_authority s query)"
proof -
  have e: "epoch_entered st True (im_state s)"
    using open_runtime_entered [OF assms(1-3)] assms(4) by simp
  have ok: "running_ok s"
    using open_runtime_ok [OF assms(1,3)] by simp
  show ?thesis
    using e authorized_current [OF ok] no_authority_current [OF epoch_entered_no_authority [OF e]]
    by (auto simp: epoch_entered_def)
qed

theorem restart_ends_authority_witness:
  "\<exists>s s' d. av_authorized (validate_authority s token_request) \<and>
     open_runtime advance_env demo_options (im_disk s) = (Inr s', d) \<and>
     \<not> av_authorized (validate_authority s' token_request)"
proof -
  obtain s2 where s2: "at_state s2 state2" by (rule demo_born)
  obtain s' where s': "open_runtime advance_env demo_options (im_disk s2) = (Inr s', im_disk s')"
    using reopen_demo [OF s2] by blast
  have "holds (im_disk s2) state2"
    using saved_holds [OF at_stateD(4) [OF s2]] at_stateD(2) [OF s2] by simp
  from restart_ends_authority [OF s' _ this, of token_request]
  show ?thesis using state2_authorizes(1) [OF s2] s'
    by (auto simp: state2_fields counter_is_zero_def)
qed

section \<open>Requests that fail\<close>

text \<open>
  C9. A request that throws, at whatever point, leaves on disk the image of a state that is no older than
  the one the coordinator started from: either the state before the request or one in which epoch,
  incarnations, retirements and revocations have only moved forward.
\<close>

theorem failed_request_keeps_disk:
  assumes "running_ok s" "perform q s = (Inl e, s')"
  shows "\<exists>st. holds (im_disk s') st \<and> state_le (im_state s) st"
  by (rule failed_holds [OF assms])

theorem failed_request_keeps_disk_witness:
  "\<exists>s s' st e. perform (Flush broken_disk) s = (Inl e, s') \<and> holds (im_disk s') st \<and> state_le state2 st"
proof -
  obtain s2 where s2: "at_state s2 state2" by (rule demo_born)
  obtain e s' where s': "perform (Flush broken_disk) s2 = (Inl e, s')"
    using flush_fails by blast
  from failed_request_keeps_disk [OF at_stateD(1) [OF s2] s'] show ?thesis
    using s' at_stateD(2) [OF s2] by auto
qed

section \<open>Validation\<close>

text \<open>
  C10. A token validates without a grant exactly when it is well formed, names the epoch in force, and its
  participant is registered and not retired, has the boot and incarnation of the token among its
  current ones and the scope among its scopes, and has the generation the request expects, if any.
\<close>

theorem token_authorized_iff:
  assumes "running_ok s" "va_grant request = None"
  shows "av_authorized (validate_authority s request) \<longleftrightarrow>
    token_wf (va_token request) \<and> tok_epoch (va_token request) = st_current_epoch (im_state s) \<and>
    (\<exists>p \<in> set (im_participants s). dp_id p = tok_participant (va_token request) \<and> \<not> dp_retired p \<and>
       (tok_boot (va_token request), tok_incarnation (va_token request)) \<in> set (currents p) \<and>
       scope_set_contains (dp_scopes p) (va_scope request) \<and> generation_expected request p)"
  using validate_plain_iff [OF assms(1) _ assms(2)] authorized_wf [of s request] by blast

theorem token_authorized_iff_witness:
  "\<exists>s. running_ok s \<and> av_authorized (validate_authority s token_request)"
proof -
  obtain s2 where s2: "at_state s2 state2" by (rule demo_born)
  from token_authorized_iff [OF at_stateD(1) [OF s2], of token_request] show ?thesis
    using at_stateD [OF s2]
    by (intro exI [of _ s2]) (simp add: state2_fields north_member generation_expected_def)
qed

text \<open>
  C11. A request through a grant validates exactly when the grant exists, is of the epoch in force, is not
  revoked and names the boot of the token, the boot and incarnation of the token are current for the
  owner of the grant, the grant has the scope, and the expected generation is that of the
  registration or equals the generation of the grant. The epoch, participant and generation in the token
  and the retirement of the owner play no part in it.
\<close>

theorem grant_authorized_iff:
  assumes "running_ok s" "va_grant request = Some gid"
  shows "av_authorized (validate_authority s request) \<longleftrightarrow>
    token_wf (va_token request) \<and>
    (\<exists>k p. lookup_grant s gid = Some k \<and> p \<in> set (im_participants s) \<and>
       (let g = st_grants (im_state s) ! k; t = va_token request in
        ag_epoch g = st_current_epoch (im_state s) \<and> \<not> ag_revoked g \<and> ag_boot g = tok_boot t \<and>
        dp_id p = ag_participant g \<and> (tok_boot t, tok_incarnation t) \<in> set (currents p) \<and>
        scope_set_contains (ag_scopes g) (va_scope request) \<and>
        (generation_expected request p \<or>
          ag_generation g = MonotonicCounter (counter_value (dp_registration_generation p)))))"
  using validate_grant_iff [OF assms(1) _ assms(2)] authorized_wf [of s request] by blast

theorem grant_authorized_iff_witness:
  "\<exists>s. running_ok s \<and> av_authorized (validate_authority s granted_request)"
proof -
  obtain s4 where s4: "at_state s4 state4"
    using grant_demo demo_born by metis
  from grant_authorized_iff [OF at_stateD(1) [OF s4], of granted_request] show ?thesis
    using state4_grants [OF s4] at_stateD(1) [OF s4]
    by (intro exI [of _ s4]) (simp add: Let_def)
qed

text \<open>
  C12. Retirement is final, as long as every request that throws leaves the records in memory as they were before it (or is
  the last before the process ends): no token of a retired participant validates without a grant, in the state it was
  retired in or any later one, across failed requests, crashes and restarts.
\<close>

theorem retired_never_validates:
  assumes "running_ok s" "steady_lives (Running s) (Running u)" "p \<in> set (im_participants s)" "dp_retired p"
    and "va_grant request = None" "tok_participant (va_token request) = dp_id p"
  shows "\<not> av_authorized (validate_authority u request)"
proof
  assume a: "av_authorized (validate_authority u request)"
  have u: "running_ok u" "state_le (im_state s) (im_state u)"
    using steady_running [OF assms(2,1)] by simp_all
  from a obtain r where r: "r \<in> set (im_participants u)" "dp_id r = dp_id p" "\<not> dp_retired r"
    using validate_plain_iff [OF u(1) authorized_wf [OF a] assms(5)] assms(6) by auto
  with later_participant [OF u(2,1) assms(3)] assms(4) show False
    by (auto simp: participant_le_def)
qed

theorem retired_never_validates_witness:
  "\<exists>s. running_ok s \<and> (\<exists>p \<in> set (im_participants s). dp_id p = worker \<and> dp_retired p) \<and>
     \<not> av_authorized (validate_authority s token_request)"
proof -
  obtain s2 where s2: "at_state s2 state2" by (rule demo_born)
  obtain s6 where s6: "at_state s6 state6" using retire_demo [OF s2] by blast
  from retired_never_validates [OF at_stateD(1) [OF s6] rtranclp.rtrancl_refl, of worker4 token_request]
  show ?thesis using at_stateD [OF s6]
    by (intro exI [of _ s6]) (simp add: state6_def worker4_def retiring_worker_def worker1_def)
qed

text \<open>
  C13. Revocation is final, as long as every request that throws leaves the records in memory as they were before it (or is
  the last before the process ends): a grant that is revoked never validates again, across failed requests, crashes and
  restarts. (A failed revocation is undone unless grants below the one it names were revoked before: undoing it takes their
  revocation back too.)
\<close>

theorem revoked_never_validates:
  assumes "running_ok s" "steady_lives (Running s) (Running u)" "lookup_grant s gid = Some k"
    and "ag_revoked (st_grants (im_state s) ! k)" "va_grant request = Some gid"
  shows "\<not> av_authorized (validate_authority u request)"
proof
  assume a: "av_authorized (validate_authority u request)"
  have u: "running_ok u" "grants_le (st_grants (im_state s)) (st_grants (im_state u))"
    using steady_running [OF assms(2,1)] by (simp_all add: state_le_def)
  have g: "k < length (st_grants (im_state s))" "ag_id (st_grants (im_state s) ! k) = gid"
    using assms(3) grant_index_unique [OF assms(1)] by auto
  then have "lookup_grant u gid = Some k" "ag_revoked (st_grants (im_state u) ! k)"
    using u(2) assms(4) grant_index_unique [OF u(1), of gid k]
    by (auto simp: grants_le_def grant_le_def)
  then show False
    using a validate_grant_iff [OF u(1) authorized_wf [OF a] assms(5)] by (simp add: Let_def)
qed

theorem revoked_never_validates_witness:
  "\<exists>s u. av_authorized (validate_authority s granted_request) \<and> steady_lives (Running s) (Running u) \<and>
     \<not> av_authorized (validate_authority u granted_request)"
proof -
  obtain s4 where s4: "at_state s4 state4"
    using grant_demo demo_born by metis
  obtain r s5 where s5: "revoke_authority io_ok revoke_request s4 = (Inr r, s5)" "at_state s5 state5"
    using revoke_demo [OF s4] by blast
  have step: "steady_lives (Running s4) (Running s5)"
    using s5(1) by (intro serve_step [of "Revoke io_ok revoke_request"]) simp
  have "\<not> av_authorized (validate_authority s5 granted_request)"
    by (rule revoked_never_validates [OF at_stateD(1) [OF s5(2)] rtranclp.rtrancl_refl state5_revoked [OF s5(2)]])
      simp
  then show ?thesis using step state4_authorizes [OF s4] by blast
qed

section \<open>Fencing and registration\<close>

text \<open>
  A fence that takes effect removes exactly the fenced boot of the participant from the current
  incarnations, and leaves every other incarnation as it was.
\<close>

theorem fence_effect_exact:
  assumes "running_ok s" "fence_worker io request s = (Inr r, s')"
    and "fresh_attempt s (fw_participant request) (fw_attempt request)"
    and "fo_outcome r = FenceOutcome.Fenced"
  shows "current (im_state s') pid boot n \<longleftrightarrow>
    current (im_state s) pid boot n \<and> (pid, boot) \<noteq> (fw_participant request, fw_boot request)"
proof -
  obtain p q where q: "record_replaced s (fw_participant request) p q s'"
      "set (currents q) = {(b, n) \<in> set (currents p). b \<noteq> fw_boot request}"
    using fence_worker_effect [OF assms] by blast
  then have "dp_id p = fw_participant request" "p \<in> set (im_participants s)"
    by (auto simp: record_replaced_def)
  with currents_of [OF assms(1), of p boot n] q(2) show ?thesis
    by (auto simp: record_replaced_current [OF q(1)])
qed

theorem fence_effect_exact_witness:
  "\<exists>s r s'. fence_worker io_ok fence_request s = (Inr r, s') \<and>
     current (im_state s) worker (Fixed128Id 10) (MonotonicCounter 1) \<and>
     \<not> current (im_state s') worker (Fixed128Id 10) (MonotonicCounter 1)"
proof -
  obtain s2 where s2: "at_state s2 state2" by (rule demo_born)
  obtain r s3 where r: "fence_worker io_ok fence_request s2 = (Inr r, s3)" "fo_outcome r = FenceOutcome.Fenced"
    using fence_demo [OF s2] by blast
  have "fresh_attempt s2 (fw_participant fence_request) (fw_attempt fence_request)"
    using at_stateD [OF s2] by (simp add: fresh_attempt_def state2_fields find_attempt_None)
  from fence_effect_exact [OF at_stateD(1) [OF s2] r(1) this r(2), of worker "Fixed128Id 10" "MonotonicCounter 1"]
  show ?thesis using r(1) state2_authorizes(3) [OF s2] by auto
qed

text \<open>
  C15. A registration that takes effect issues an incarnation that was not current for the participant
  before, under any boot, and the token the worker builds from the answer validates for every scope it
  asked for.
\<close>

theorem registration_issues_authority:
  assumes "running_ok s" "register_participant io request s = (Inr r, s')"
    and "rr_outcome r = RegistrationOutcome.Registered" "\<not> rr_replayed r"
    and "rr_incarnation r = Some n" "rr_generation r = Some g"
    and "va_token query = \<lparr> tok_epoch = rp_expected_epoch request, tok_participant = rp_participant request,
      tok_boot = rp_boot request, tok_incarnation = n, tok_registration_generation = g \<rparr>"
    and "va_grant query = None" "va_expected_generation query = Some g"
    and "scope_set_contains (rp_scopes request) (va_scope query)" "token_wf (va_token query)"
  shows "\<not> current (im_state s) (rp_participant request) boot n \<and> av_authorized (validate_authority s' query)"
proof -
  obtain p0 q where ok: "running_ok s'" and reg: "registers s request r p0 q s'"
    using register_participant_effect [OF assms(1-4)] by blast
  have "va_expected_generation query \<in> {None, Some (dp_registration_generation q)}"
    "(tok_boot (va_token query), tok_incarnation (va_token query)) \<in> set (currents q)"
    "q \<in> set (im_participants s')" "dp_id q = tok_participant (va_token query)" "\<not> dp_retired q"
    "scope_set_contains (dp_scopes q) (va_scope query)"
    using registers_current [OF reg assms(1)] assms(5-10) by auto
  moreover have "tok_epoch (va_token query) = st_current_epoch (im_state s')"
    using reg assms(7) by (simp add: registers_def)
  ultimately have "av_authorized (validate_authority s' query)"
    using validate_plain_iff [OF ok assms(11,8)] by (auto simp: generation_expected_def)
  then show ?thesis using registers_fresh [OF reg assms(1)] assms(5) by simp
qed

theorem registration_issues_authority_witness:
  "\<exists>s s'. running_ok s \<and> \<not> current (im_state s) worker (Fixed128Id 10) (MonotonicCounter 1) \<and>
     av_authorized (validate_authority s' (token_request\<lparr> va_expected_generation := Some (MonotonicCounter 1) \<rparr>))"
proof -
  obtain s1 s2 r where s: "at_state s1 state1" "register_participant io_ok register_request s1 = (Inr r, s2)"
      "rr_outcome r = RegistrationOutcome.Registered" "\<not> rr_replayed r" "at_state s2 state2"
    by (rule demo_born)
  have n: "rr_incarnation r = Some (MonotonicCounter 1)" "rr_generation r = Some (MonotonicCounter 1)"
    using state2_registration [OF s(1,5) register_participant_effect [OF at_stateD(1) [OF s(1)] s(2-4), THEN conjunct2]]
    by simp_all
  note fresh = registration_issues_authority [OF at_stateD(1) [OF s(1)] s(2-4) n,
      of "token_request\<lparr> va_expected_generation := Some (MonotonicCounter 1) \<rparr>" "Fixed128Id 10"]
  show ?thesis
    by (rule exI [of _ s1], rule exI [of _ s2])
      (use fresh at_stateD(1) [OF s(1)] in \<open>simp add: register_request_def worker_token_def north_member
         worker_token_fields(5) [unfolded worker_token_def]\<close>)
qed

section \<open>The store\<close>

text \<open>
  C19. Saving is atomic for a state that can be read back (\<open>storable\<close>: it is valid, its fields are within the limits, its
  payload within the ceiling, and its transitions carry enough provenance for the length check of the decoder) and whose epoch
  the watermark does not refuse: whatever step of a save fails, what loads afterwards, from a disk that loaded before, is the
  state that loaded before or the state that was to be saved. (The default provenance is empty, and with it a state of one
  transition is not \<open>storable\<close>: \<open>short_history_unreadable\<close>.)
\<close>

theorem save_is_atomic:
  assumes "storable options st" "watermark_accepts options st d" "store_load options io_ok d = Inr old"
  shows "store_load options io_ok (snd (store_save options io st d)) \<in> {Inr old, Inr st}"
  by (rule epoch_store.old_or_new [OF assms])

theorem save_is_atomic_witness:
  "\<exists>d. store_load (store_options demo_options) io_ok
      (snd (store_save (store_options demo_options) broken_disk state2 d)) \<in> {Inr state2}"
proof -
  obtain s2 where s2: "at_state s2 state2" by (rule demo_born)
  from save_is_atomic [OF state2_storable state2_watermark [OF s2] load_demo [OF s2], of broken_disk]
  show ?thesis by auto
qed

text \<open>
  C22. An image never decodes to anything but the state it was made from, whatever limits the reader has.
\<close>

theorem image_never_misread:
  assumes "store_encode st = Inr img" "store_decode options img = Inr u"
  shows "u = st"
  by (rule store_decode_faithful [OF assms])

theorem image_never_misread_witness:
  "\<exists>img u. store_encode state2 = Inr img \<and> store_decode (store_options demo_options) img = Inr u \<and> u = state2"
  using image_never_misread [of state2 _ "store_options demo_options"] store_encode_storable [OF state2_storable]
    store_decode_encode [OF state2_storable] by auto

text \<open>
  C24. A store whose watermark is enabled refuses the image of an earlier epoch: after a state has been saved, putting back the
  image of a state of a strictly lower epoch is detected when it is loaded, for states that can be read back. (An older image
  of the same epoch is not detected; the watermark holds the epoch only.)
\<close>

theorem rollback_is_refused:
  assumes "so_enable_rollback_watermark options" "storable options old" "storable options st"
    and "watermark_accepts options st d" "store_save options io st d = (Inr (), d')"
    and "st_current_epoch old < st_current_epoch st"
  shows "store_load options io_ok (d'\<lparr> image_file := Some (projr (store_encode old)) \<rparr>) =
    Inl (corrupt ''durable epoch is lower than the persisted watermark: rollback detected'')"
proof -
  obtain v where "read_watermark options io_ok d' = Inr v" "v = counter_value (st_current_epoch st)"
    using save_raises_watermark [OF assms(1,4,5)] by blast
  then show ?thesis
    using assms(6) store_decode_encode [OF assms(2)]
    by (intro rollback_detected [OF assms(1), where old = old])
      (simp_all add: less_MonotonicCounter_def counter_less_def)
qed

theorem rollback_is_refused_witness:
  "\<exists>d'. store_load (store_options demo_options) io_ok
      (d'\<lparr> image_file := Some (projr (store_encode state2)) \<rparr>) =
    Inl (corrupt ''durable epoch is lower than the persisted watermark: rollback detected'')"
proof -
  obtain s2 where s2: "at_state s2 state2" by (rule demo_born)
  have w: "watermark_accepts (store_options demo_options) state7 (im_disk s2)"
    using state2_watermark [OF s2]
    by (auto simp: watermark_accepts_def state2_fields state7_def intro: order_trans split: sum.splits)
  obtain d' where d': "store_save (store_options demo_options) io_ok state7 (im_disk s2) = (Inr (), d')"
    using store_save_quiet [OF state7_storable w] by blast
  have "st_current_epoch state2 < st_current_epoch state7"
    by (simp add: state2_fields state7_def less_MonotonicCounter_def counter_less_def)
  from rollback_is_refused [OF _ state2_storable state7_storable w d' this]
  show ?thesis by (auto simp: store_options_def)
qed

text \<open>
  Images that cannot be read back: a state that the store saves, with every field within the limits, but whose
  transition history is too short in bytes for the 65 the decoder expects of each transition (a transition
  without provenance has 61), makes an image that no reader with these limits accepts.
\<close>

theorem short_history_unreadable:
  assumes "validate_durable_state st = Inr ()" "records_fit (structural_limits (so_limits options)) st"
    and "length (projr (encode_durable_payload st)) \<le> kAbsoluteMaxPayloadLength"
    and "\<not> history_readable st" "image_file d = Some img" "store_encode st = Inr img"
  shows "store_load options io_ok d = Inl (malformed ''transition count exceeds remaining durable input'')"
proof -
  let ?p = "projr (encode_durable_payload st)"
  have "encode_durable_payload st = Inr ?p"
    using encode_durable_payload_ok [OF assms(2)] by (cases "encode_durable_payload st") auto
  then have "store_encode st = Inr (image_body ?p @ sha256_hash (image_body ?p))"
    using assms(3) by (intro store_encode_eq [OF assms(1)]) (auto simp: kAbsoluteMaxPayloadLength_def)
  then have "store_decode options img = Inl (malformed ''transition count exceeds remaining durable input'')"
    using assms(6) store_decode_body [OF assms(3), of options] decode_unreadable_payload [OF assms(2,4)]
    by (simp add: res_bind_def)
  then show ?thesis using assms(5) by (simp add: store_load_def res_bind_def)
qed

theorem short_history_unreadable_witness:
  "\<exists>d. (case store_encode nameless_state of Inr img \<Rightarrow> image_file d = Some img | Inl _ \<Rightarrow> False) \<and>
    store_load (store_options demo_options) io_ok d =
      Inl (malformed ''transition count exceeds remaining durable input'')"
proof -
  obtain img where img: "store_encode nameless_state = Inr img"
    using nameless_encodes by blast
  let ?d = "empty_disk\<lparr> image_file := Some img \<rparr>"
  have "store_load (store_options demo_options) io_ok ?d =
      Inl (malformed ''transition count exceeds remaining durable input'')"
    by (rule short_history_unreadable [OF nameless_valid nameless_fits _ nameless_history _ img])
      (simp_all add: nameless_length)
  with img show ?thesis by (intro exI [of _ ?d]) simp
qed

text \<open>
  C25. The validation of a loaded state decides the declarative rules of the format: the ceilings, and either a pristine
  state or an established one that satisfies every rule. A fencing floor equal to the generation of a recorded fence is
  accepted, as it must be, since a fence enters both (the README has it rejected).
\<close>

theorem validation_decides_format:
  "validate_durable_state st = Inr () \<longleftrightarrow>
     within_ceilings st \<and>
     (if counter_is_zero (st_current_epoch st) then is_pristine st
      else length (st_control_attempts st) \<le> kAbsoluteMaxRecords \<and> durable_wf st)"
  by (rule validate_durable_state_iff)

text \<open>
  The payload codec round trips: a state whose fields fit the structural limits, and whose history the
  decoder's length guard admits, is decoded from its encoding unchanged.
\<close>

theorem durable_payload_roundtrip:
  assumes "records_fit (structural_limits limits) st" "history_readable st"
  shows "decode_durable_payload (projr (encode_durable_payload st)) limits = Inr st"
  by (rule decode_encode_durable_payload [OF assms])

theorem durable_payload_roundtrip_witness:
  "decode_durable_payload (projr (encode_durable_payload state2)) default_limits = Inr state2"
  by (rule durable_payload_roundtrip)
    (use state2_storable in \<open>simp_all add: storable_def store_options_def\<close>)

text \<open>
  C26. The incremental hasher computes the digest of the concatenation of its pieces, however the input is cut.
\<close>

theorem sha256_pieces:
  "sha256_finish (foldl sha256_update sha256_init pieces) = sha256_spec (concat pieces)"
  by (rule sha256_streaming)

section \<open>Lookups\<close>

text \<open>
  In a running coordinator the lookups through the secondary indexes are linear searches of the tables.
\<close>

theorem lookups_are_searches:
  assumes "running_ok s"
  shows "find_participant s pid = position (\<lambda>p. dp_id p = pid) (im_participants s) \<and>
    lookup_grant s gid = position (\<lambda>g. ag_id g = gid) (st_grants (im_state s)) \<and>
    find_fence_record s pid boot =
      find (\<lambda>f. fr_participant f = pid \<and> fr_boot f = boot) (st_recent_fences (im_state s)) \<and>
    children_ids s gid = map ag_id (filter (\<lambda>g. ag_parent g = Some gid) (st_grants (im_state s)))"
proof -
  have "indexes_match s" using assms by (simp add: running_ok_def)
  then show ?thesis
    using find_participant_search [OF assms] lookup_grant_search [OF assms]
      find_fence_record_search children_ids_search [of s gid]
    by (simp add: indexes_match_def)
qed

theorem lookups_are_searches_witness:
  "\<exists>s. running_ok s \<and> lookup_grant s (Fixed128Id 30) = position (\<lambda>g. ag_id g = Fixed128Id 30) [grant1]"
proof -
  obtain s4 where s4: "at_state s4 state4"
    using grant_demo demo_born by metis
  from lookups_are_searches [OF at_stateD(1) [OF s4], of worker "Fixed128Id 30" "Fixed128Id 10"]
  show ?thesis using at_stateD(1) [OF s4] state4_grants(2) [OF s4] by (intro exI [of _ s4]) simp
qed

text \<open>
  A boot is reported fenced exactly when it is among the retained boots of the participant or a retained fence
  record names it.
\<close>

theorem fenced_iff_recorded:
  assumes "running_ok s" "p \<in> set (im_participants s)"
  shows "fl_fenced (lookup_fence s (dp_id p) boot) \<longleftrightarrow>
    boot \<in> set (dp_fenced_boots p) \<or>
    (\<exists>f \<in> set (st_recent_fences (im_state s)). fr_participant f = dp_id p \<and> fr_boot f = boot)"
  by (rule lookup_fence_iff [OF assms])

theorem fenced_iff_recorded_witness:
  "\<exists>s. running_ok s \<and> fl_fenced (lookup_fence s worker (Fixed128Id 10)) \<and>
     \<not> fl_fenced (lookup_fence s worker (Fixed128Id 11))"
proof -
  obtain s2 where s2: "at_state s2 state2" by (rule demo_born)
  obtain s3 where s3: "at_state s3 state3" using fence_demo [OF s2] by blast
  have p: "worker2 \<in> set (im_participants s3)" "dp_id worker2 = worker" "dp_fenced_boots worker2 = [Fixed128Id 10]"
    "st_recent_fences (im_state s3) = [worker_fence]" "fr_boot worker_fence = Fixed128Id 10"
    using at_stateD(2) [OF s3] by (simp_all add: state3_def worker2_def worker_fence_def fence_record_def)
  from fenced_iff_recorded [OF at_stateD(1) [OF s3] p(1)] p(2-) show ?thesis
    using at_stateD(1) [OF s3] by (intro exI [of _ s3]) simp
qed

end
